(* ===== verification/BTreeMap.thy ===== *)
theory BTreeMap
  imports Prelude
begin

text \<open>
  Rust's \<^verbatim>\<open>BTreeMap\<close> as the list of its entries in key order.  The daemon relies on that order
  (\<^verbatim>\<open>iter\<close>, \<^verbatim>\<open>keys\<close> and \<^verbatim>\<open>values\<close> run over the entries by ascending key) and on
  \<^verbatim>\<open>len\<close>, so the map is modelled by the ordered list itself.  The interface the components use is
  the locale \<open>ordered_map\<close>: lookup after insert and remove, what every operation keeps of the
  invariant, and the number of entries; it is interpreted on the list operations below.
\<close>

type_synonym ('k, 'v) btree = "('k \<times> 'v) list"

definition bt_get :: "('k, 'v) btree \<Rightarrow> 'k \<Rightarrow> 'v option" where
  "bt_get m k = map_of m k"

fun bt_insert :: "'k::linorder \<Rightarrow> 'v \<Rightarrow> ('k, 'v) btree \<Rightarrow> ('k, 'v) btree" where
  "bt_insert k v [] = [(k, v)]"
| "bt_insert k v ((a, b) # m) =
     (if k < a then (k, v) # (a, b) # m
      else if k = a then (k, v) # m
      else (a, b) # bt_insert k v m)"

definition bt_remove :: "'k \<Rightarrow> ('k, 'v) btree \<Rightarrow> ('k, 'v) btree" where
  "bt_remove k m = filter (\<lambda>e. fst e \<noteq> k) m"

definition bt_contains :: "('k, 'v) btree \<Rightarrow> 'k \<Rightarrow> bool" where
  "bt_contains m k \<longleftrightarrow> bt_get m k \<noteq> None"

definition bt_keys :: "('k, 'v) btree \<Rightarrow> 'k list" where
  "bt_keys m = map fst m"

definition bt_wf :: "('k::linorder, 'v) btree \<Rightarrow> bool" where
  "bt_wf m \<longleftrightarrow> sorted_wrt (<) (map fst m)"

definition bt_retain :: "('k \<Rightarrow> 'v \<Rightarrow> bool) \<Rightarrow> ('k, 'v) btree \<Rightarrow> ('k, 'v) btree" where
  "bt_retain P m = filter (\<lambda>(k, v). P k v) m"

section \<open>The interface\<close>

locale ordered_map =
  fixes get :: "'m \<Rightarrow> 'k::linorder \<Rightarrow> 'v option"
    and empty :: 'm
    and ins :: "'k \<Rightarrow> 'v \<Rightarrow> 'm \<Rightarrow> 'm"
    and del :: "'k \<Rightarrow> 'm \<Rightarrow> 'm"
    and entries :: "'m \<Rightarrow> ('k \<times> 'v) list"
    and invar :: "'m \<Rightarrow> bool"
  assumes get_empty: "get empty k = None"
    and get_ins: "get (ins k v m) = (get m)(k \<mapsto> v)"
    and get_del: "get (del k m) = (get m)(k := None)"
    and get_entries: "invar m \<Longrightarrow> get m k = Some v \<longleftrightarrow> (k, v) \<in> set (entries m)"
    and entries_sorted: "invar m \<Longrightarrow> sorted_wrt (<) (map fst (entries m))"
    and invar_empty: "invar empty"
    and invar_ins: "invar m \<Longrightarrow> invar (ins k v m)"
    and invar_del: "invar m \<Longrightarrow> invar (del k m)"
begin

lemma get_ins_same: "get (ins k v m) k = Some v"
  by (simp add: get_ins)

lemma get_ins_other: "k' \<noteq> k \<Longrightarrow> get (ins k v m) k' = get m k'"
  by (simp add: get_ins)

lemma keys_distinct: "invar m \<Longrightarrow> distinct (map fst (entries m))"
  using entries_sorted [of m] by (simp add: strict_sorted_iff)

lemma dom_get: "invar m \<Longrightarrow> dom (get m) = fst ` set (entries m)"
  by (force simp: get_entries)

lemma card_dom: "invar m \<Longrightarrow> card (dom (get m)) = length (entries m)"
  using keys_distinct [of m] by (simp add: dom_get distinct_card flip: set_map)

lemma finite_dom_get: "invar m \<Longrightarrow> finite (dom (get m))"
  by (simp add: dom_get)

lemma length_ins:
  assumes "invar m"
  shows "length (entries (ins k v m)) =
    (if get m k = None then Suc (length (entries m)) else length (entries m))"
proof -
  have "length (entries (ins k v m)) = card (insert k (dom (get m)))"
    using card_dom [OF invar_ins [OF assms], of k v] by (simp add: get_ins)
  then show ?thesis
    using finite_dom_get [OF assms] card_dom [OF assms] by (auto simp: card_insert_if)
qed

lemma length_del_le:
  assumes "invar m"
  shows "length (entries (del k m)) \<le> length (entries m)"
proof -
  have "length (entries (del k m)) = card (dom (get m) - {k})"
    using card_dom [OF invar_del [OF assms], of k] by (simp add: get_del)
  then show ?thesis
    using card_Diff1_le [of "dom (get m)" k] card_dom [OF assms] by simp
qed

lemma get_inject:
  assumes "invar m" and "invar m'" and "get m = get m'"
  shows "entries m = entries m'"
proof (rule map_sorted_distinct_set_unique [of fst])
  show "inj_on fst (set (entries m) \<union> set (entries m'))"
    using assms by (auto simp: inj_on_def get_entries [symmetric])
  show "sorted (map fst (entries m))" "sorted (map fst (entries m'))"
    using entries_sorted assms(1,2) strict_sorted_imp_sorted by blast+
  show "distinct (map fst (entries m))" "distinct (map fst (entries m'))"
    using keys_distinct assms(1,2) by blast+
  show "set (entries m) = set (entries m')"
    using assms by (force simp: get_entries [symmetric])
qed

end

section \<open>The list operations implement it\<close>

lemma map_of_bt_insert: "map_of (bt_insert k v m) = (map_of m)(k \<mapsto> v)"
  by (induction k v m rule: bt_insert.induct) (auto simp: fun_eq_iff)

lemma map_of_bt_remove: "map_of (bt_remove k m) = (map_of m)(k := None)"
  by (induction m) (auto simp: bt_remove_def fun_eq_iff)

lemma fst_set_bt_insert: "fst ` set (bt_insert k v m) = insert k (fst ` set m)"
  by (induction k v m rule: bt_insert.induct) auto

lemma set_bt_insert_subset: "set (bt_insert k v m) \<subseteq> insert (k, v) (set m)"
  by (induction k v m rule: bt_insert.induct) auto

lemma bt_wf_Cons: "bt_wf ((k, v) # m) \<longleftrightarrow> (\<forall>k' \<in> fst ` set m. k < k') \<and> bt_wf m"
  by (auto simp: bt_wf_def)

lemma bt_wf_insert: "bt_wf m \<Longrightarrow> bt_wf (bt_insert k v m)"
proof (induction k v m rule: bt_insert.induct)
  case (2 k v a b m)
  show ?case
  proof (cases "k < a")
    case True
    with 2 show ?thesis by (auto simp: bt_wf_Cons)
  next
    case False
    with 2 show ?thesis
      by (cases "k = a") (auto simp: bt_wf_Cons fst_set_bt_insert)
  qed
qed (simp add: bt_wf_def)

lemma bt_wf_filter: "bt_wf m \<Longrightarrow> bt_wf (filter P m)"
  by (induction m) (auto simp: bt_wf_def)

lemma bt_wf_distinct: "bt_wf m \<Longrightarrow> distinct (map fst m)"
  by (simp add: bt_wf_def strict_sorted_iff)

interpretation bt: ordered_map bt_get "[]" bt_insert bt_remove "\<lambda>m. m" bt_wf
proof unfold_locales
  fix m :: "('k::linorder, 'v) btree" and k :: 'k and v :: 'v
  show "bt_get m k = Some v \<longleftrightarrow> (k, v) \<in> set m" if "bt_wf m"
    using bt_wf_distinct [OF that] by (simp add: bt_get_def)
  show "bt_wf (bt_remove k m)" if "bt_wf m"
    using that by (simp add: bt_remove_def bt_wf_filter)
  show "bt_wf (bt_insert k v m)" if "bt_wf m"
    using that by (rule bt_wf_insert)
qed (auto simp: bt_get_def map_of_bt_insert map_of_bt_remove bt_wf_def fun_eq_iff)

section \<open>Rules for the components\<close>

lemma bt_get_Nil [simp]: "bt_get [] k = None"
  by (simp add: bt_get_def)

lemma bt_get_insert [simp]: "bt_get (bt_insert k v m) k' = (if k' = k then Some v else bt_get m k')"
  using bt.get_ins [of k v m] by simp

lemma bt_get_remove [simp]: "bt_get (bt_remove k m) k' = (if k' = k then None else bt_get m k')"
  by (simp add: bt_get_def map_of_bt_remove)

lemma bt_wf_Nil [simp, tz_inv]: "bt_wf []"
  by (simp add: bt_wf_def)

lemma bt_wf_ops [simp, tz_inv]:
  "bt_wf m \<Longrightarrow> bt_wf (bt_insert k v m)"
  "bt_wf m \<Longrightarrow> bt_wf (bt_remove k m)"
  "bt_wf m \<Longrightarrow> bt_wf (bt_retain P m)"
  by (simp_all add: bt.invar_ins bt.invar_del bt_wf_filter bt_retain_def)

lemma bt_contains_iff: "bt_contains m k \<longleftrightarrow> (\<exists>v. bt_get m k = Some v)"
  by (auto simp: bt_contains_def)

lemma bt_contains_ops [simp]:
  "bt_contains [] k \<longleftrightarrow> False"
  "bt_contains (bt_insert k v m) k' \<longleftrightarrow> k' = k \<or> bt_contains m k'"
  "bt_contains (bt_remove k m) k' \<longleftrightarrow> k' \<noteq> k \<and> bt_contains m k'"
  by (auto simp: bt_contains_def)

lemma bt_get_retain:
  assumes "bt_wf m"
  shows "bt_get (bt_retain P m) k =
    (case bt_get m k of None \<Rightarrow> None | Some v \<Rightarrow> if P k v then Some v else None)"
proof -
  have "bt_wf (bt_retain P m)" using assms by simp
  then have *: "bt_get (bt_retain P m) k = Some v \<longleftrightarrow> bt_get m k = Some v \<and> P k v" for v
    using assms by (auto simp: bt.get_entries bt_retain_def)
  show ?thesis
    by (rule option.exhaust [of "bt_get (bt_retain P m) k"])
      (use * in \<open>fastforce split: option.splits if_splits\<close>)+
qed

lemma bt_in_keys: "k \<in> set (bt_keys m) \<longleftrightarrow> bt_get m k \<noteq> None"
  by (auto simp: bt_keys_def bt_get_def map_of_eq_None_iff)

lemma bt_in_set_get: "bt_wf m \<Longrightarrow> (k, v) \<in> set m \<longleftrightarrow> bt_get m k = Some v"
  by (simp add: bt.get_entries)

lemma bt_length_insert:
  "bt_wf m \<Longrightarrow> length (bt_insert k v m) = (if bt_contains m k then length m else Suc (length m))"
  using bt.length_ins [of m k v] by (simp add: bt_contains_def)

lemma bt_length_remove: "length (bt_remove k m) \<le> length m"
  by (simp add: bt_remove_def)

lemma bt_remove_absent: "bt_get m k = None \<Longrightarrow> bt_remove k m = m"
  by (auto simp: bt_remove_def bt_get_def map_of_eq_None_iff intro!: filter_True)

text \<open>Inserting a whole list of entries, as a loop of \<^verbatim>\<open>insert\<close> does; the last binding wins.\<close>

fun bt_extend :: "('k::linorder \<times> 'v) list \<Rightarrow> ('k, 'v) btree \<Rightarrow> ('k, 'v) btree" where
  "bt_extend [] m = m"
| "bt_extend ((k, v) # es) m = bt_extend es (bt_insert k v m)"

lemma bt_wf_extend [simp, tz_inv]: "bt_wf m \<Longrightarrow> bt_wf (bt_extend es m)"
  by (induction es m rule: bt_extend.induct) auto

lemma bt_get_extend:
  "bt_get (bt_extend es m) k =
     (case map_of (rev es) k of None \<Rightarrow> bt_get m k | Some v \<Rightarrow> Some v)"
  by (induction es m rule: bt_extend.induct) (auto simp: map_add_def split: option.splits)

end
