(* ===== verification/VClock.thy ===== *)
theory VClock
  imports BTreeMap
begin

text \<open>
  Version vectors (\<^verbatim>\<open>src/sync/vclock.rs\<close>).  A clock maps endpoint ids to \<^verbatim>\<open>u64\<close> counters; a
  missing component counts as zero.  \<open>inc\<close> saturates, \<open>merge\<close> is the component-wise maximum
  written as the source's loop, and \<open>compare\<close> is the source's scan over the chained key lists with
  its early exit.  The locale \<open>causal_order\<close> states what the reconciliation logic relies on; its
  interpretation on \<open>compare\<close> and \<open>merge\<close> carries the lemmas the daemon theories use.
\<close>

type_synonym vclock = "(string, u64) btree"

datatype causality = Equal | After | Before | Concurrent

definition vv_at :: "vclock \<Rightarrow> string \<Rightarrow> u64" where
  "vv_at vv k = unwrap_or 0 (bt_get vv k)"

definition inc :: "vclock \<Rightarrow> string \<Rightarrow> vclock" where
  "inc vv i = bt_insert i (saturating_add (vv_at vv i) 1) vv"

definition merge_step :: "string \<times> u64 \<Rightarrow> vclock \<Rightarrow> vclock" where
  "merge_step kv out =
     (let slot = unwrap_or 0 (bt_get out (fst kv))
      in bt_insert (fst kv) (if snd kv > slot then snd kv else slot) out)"

definition merge :: "vclock \<Rightarrow> vclock \<Rightarrow> vclock" where
  "merge a b = fold merge_step b a"

fun compare_loop :: "vclock \<Rightarrow> vclock \<Rightarrow> string list \<Rightarrow> bool \<Rightarrow> bool \<Rightarrow> causality" where
  "compare_loop a b [] a_gt b_gt =
     (case (a_gt, b_gt) of
        (False, False) \<Rightarrow> Equal
      | (True, False) \<Rightarrow> After
      | (False, True) \<Rightarrow> Before
      | (True, True) \<Rightarrow> Concurrent)"
| "compare_loop a b (k # ks) a_gt b_gt =
     (let av = vv_at a k; bv = vv_at b k;
          a_gt' = (a_gt \<or> av > bv); b_gt' = (b_gt \<or> bv > av)
      in if a_gt' \<and> b_gt' then Concurrent else compare_loop a b ks a_gt' b_gt')"

definition compare :: "vclock \<Rightarrow> vclock \<Rightarrow> causality" where
  "compare a b = compare_loop a b (bt_keys a @ bt_keys b) False False"

section \<open>The specification: component-wise order\<close>

definition vle :: "vclock \<Rightarrow> vclock \<Rightarrow> bool" where
  "vle a b \<longleftrightarrow> (\<forall>k. vv_at a k \<le> vv_at b k)"

fun flip_causality :: "causality \<Rightarrow> causality" where
  "flip_causality Equal = Equal"
| "flip_causality After = Before"
| "flip_causality Before = After"
| "flip_causality Concurrent = Concurrent"

locale causal_order =
  fixes valid :: "'c \<Rightarrow> bool"
    and le :: "'c \<Rightarrow> 'c \<Rightarrow> bool"
    and cmp :: "'c \<Rightarrow> 'c \<Rightarrow> causality"
    and join :: "'c \<Rightarrow> 'c \<Rightarrow> 'c"
  assumes le_refl: "le a a"
    and le_trans: "le a b \<Longrightarrow> le b c \<Longrightarrow> le a c"
    and cmp_spec: "cmp a b =
      (if le a b then if le b a then Equal else Before else if le b a then After else Concurrent)"
    and join_ub1: "valid b \<Longrightarrow> le a (join a b)"
    and join_ub2: "valid b \<Longrightarrow> le b (join a b)"
    and join_least: "valid b \<Longrightarrow> le a c \<Longrightarrow> le b c \<Longrightarrow> le (join a b) c"
    and join_valid: "valid a \<Longrightarrow> valid (join a b)"
begin

lemma cmp_iff:
  "cmp a b = Equal \<longleftrightarrow> le a b \<and> le b a"
  "cmp a b = Before \<longleftrightarrow> le a b \<and> \<not> le b a"
  "cmp a b = After \<longleftrightarrow> le b a \<and> \<not> le a b"
  "cmp a b = Concurrent \<longleftrightarrow> \<not> le a b \<and> \<not> le b a"
  by (simp_all add: cmp_spec)

lemma cmp_flip: "cmp b a = flip_causality (cmp a b)"
  by (simp add: cmp_spec)

lemma cmp_refl: "cmp a a = Equal"
  by (simp add: cmp_iff le_refl)

lemma cmp_trans_Before: "cmp a b = Before \<Longrightarrow> cmp b c = Before \<Longrightarrow> cmp a c = Before"
  by (meson cmp_iff(2) le_trans)

lemma cmp_Equal_cong: "cmp a b = Equal \<Longrightarrow> cmp a c = cmp b c"
  unfolding cmp_spec by (smt (verit, best) causality.distinct le_trans)

lemma cmp_join: "valid b \<Longrightarrow> cmp a (join a b) = Before \<or> cmp a (join a b) = Equal"
  using join_ub1 by (simp add: cmp_spec)

lemma join_absorb: "valid b \<Longrightarrow> cmp a b = Before \<Longrightarrow> cmp (join a b) b = Equal"
  by (simp add: cmp_iff join_least join_ub2 le_refl)

lemma join_dominates: "valid b \<Longrightarrow> cmp (join a b) b \<in> {Equal, After}"
  using join_ub2 by (auto simp: cmp_spec)

lemma not_older_refuses: "cmp mine theirs \<in> {Equal, After} \<longleftrightarrow> le theirs mine"
  by (auto simp: cmp_iff)

end

section \<open>The implementation meets the specification\<close>

lemma vv_at_outside: "k \<notin> set (bt_keys a) \<Longrightarrow> vv_at a k = 0"
  by (simp add: vv_at_def bt_in_keys)

lemma compare_loop_spec:
  assumes "\<not> (a_gt \<and> b_gt)"
  shows "compare_loop a b ks a_gt b_gt =
    (let g = a_gt \<or> (\<exists>k \<in> set ks. vv_at a k > vv_at b k);
         l = b_gt \<or> (\<exists>k \<in> set ks. vv_at b k > vv_at a k)
     in if g then if l then Concurrent else After else if l then Before else Equal)"
  using assms
proof (induction ks arbitrary: a_gt b_gt)
  case Nil
  then show ?case by (auto split: bool.splits)
next
  case (Cons k ks)
  show ?case
  proof (cases "(a_gt \<or> vv_at a k > vv_at b k) \<and> (b_gt \<or> vv_at b k > vv_at a k)")
    case True
    then show ?thesis by (auto simp: Let_def)
  next
    case False
    with Cons.IH [OF False] show ?thesis by (auto simp: Let_def)
  qed
qed

lemma exists_key_gt:
  "(\<exists>k \<in> set (bt_keys a @ bt_keys b). vv_at a k > vv_at b k) \<longleftrightarrow> \<not> vle a b"
proof
  assume "\<not> vle a b"
  then obtain k where k: "vv_at a k > vv_at b k"
    by (auto simp: vle_def not_le)
  then have "vv_at a k \<noteq> 0" by auto
  then have "k \<in> set (bt_keys a)" using vv_at_outside by blast
  with k show "\<exists>k \<in> set (bt_keys a @ bt_keys b). vv_at a k > vv_at b k" by auto
qed (auto simp: vle_def not_le)

lemma exists_key_lt:
  "(\<exists>k \<in> set (bt_keys a @ bt_keys b). vv_at b k > vv_at a k) \<longleftrightarrow> \<not> vle b a"
  using exists_key_gt [of b a] by auto

lemma compare_spec:
  "compare a b =
     (if vle a b then if vle b a then Equal else Before else if vle b a then After else Concurrent)"
  unfolding compare_def by (subst compare_loop_spec) (simp_all only: Let_def exists_key_gt exists_key_lt, auto)

lemma vv_at_merge_step:
  "vv_at (merge_step kv out) k = (if k = fst kv then max (vv_at out k) (snd kv) else vv_at out k)"
  by (auto simp: merge_step_def vv_at_def Let_def max_def)

lemma vv_at_Cons: "vv_at ((k', v) # es) k = (if k = k' then v else vv_at es k)"
  by (simp add: vv_at_def bt_get_def)

lemma vv_at_fold_merge:
  "distinct (map fst es) \<Longrightarrow>
     vv_at (fold merge_step es out) k = max (vv_at out k) (vv_at es k)"
proof (induction es arbitrary: out)
  case Nil
  then show ?case by (simp add: vv_at_def)
next
  case (Cons e es)
  obtain k' v where e: "e = (k', v)" by fastforce
  with Cons.prems have "vv_at es k' = 0"
    by (auto intro!: vv_at_outside simp: bt_keys_def)
  with Cons show ?case
    by (auto simp: e vv_at_Cons vv_at_merge_step)
qed

lemma vv_at_merge: "bt_wf b \<Longrightarrow> vv_at (merge a b) k = max (vv_at a k) (vv_at b k)"
  by (simp add: merge_def vv_at_fold_merge bt_wf_distinct)

lemma vv_at_inc: "vv_at (inc vv i) k = (if k = i then saturating_add (vv_at vv i) 1 else vv_at vv k)"
  by (simp add: inc_def vv_at_def)

lemma unat_word_max: "unat (word_max :: u64) = 2 ^ 64 - 1"
  by (simp add: unsigned_minus_1_eq_mask mask_eq_exp_minus_1)

lemma saturating_add_ge: "a \<le> saturating_add a (1 :: u64)"
  using unsigned_less [of a, where ?'a = nat] by (simp add: word_le_nat_alt unat_saturating_add)

lemma saturating_add_gt: "a \<noteq> word_max \<Longrightarrow> a < saturating_add a (1 :: u64)"
  using unsigned_less [of a, where ?'a = nat] unat_word_max
  by (simp add: word_less_nat_alt unat_saturating_add word_unat_eq_iff)

lemma vle_inc: "vle vv (inc vv i)"
  by (simp add: vle_def vv_at_inc saturating_add_ge)

lemma merge_step_wf [tz_inv]: "bt_wf out \<Longrightarrow> bt_wf (merge_step kv out)"
  by (simp add: merge_step_def Let_def)

lemma merge_wf [simp, tz_inv]: "bt_wf a \<Longrightarrow> bt_wf (merge a b)"
  unfolding merge_def by (induction b arbitrary: a) (auto intro: tz_inv)

lemma inc_wf [simp, tz_inv]: "bt_wf vv \<Longrightarrow> bt_wf (inc vv i)"
  by (simp add: inc_def)

text \<open>
  The loop of \<open>merge\<close> is the maximum only over a well-formed second argument, as every
  \<^verbatim>\<open>BTreeMap\<close> is: validity in the interface is \<^const>\<open>bt_wf\<close>.
\<close>

interpretation vc: causal_order bt_wf vle compare merge
proof unfold_locales
  fix a b c :: vclock
  show "vle a a" by (simp add: vle_def)
  show "vle a b \<Longrightarrow> vle b c \<Longrightarrow> vle a c" by (meson order.trans vle_def)
  show "compare a b = (if vle a b then if vle b a then Equal else Before
      else if vle b a then After else Concurrent)" by (rule compare_spec)
qed (simp_all add: vle_def vv_at_merge)

section \<open>Properties\<close>

text \<open>
  C32. \<open>compare\<close> is a total function over the four causality outcomes and decides the
  component-wise order exactly: each outcome is returned precisely when that relation holds, with
  a missing component read as zero, and swapping the arguments mirrors the outcome.
\<close>

theorem compare_decides_causality:
  "(compare a b = Equal \<longleftrightarrow> vle a b \<and> vle b a)
   \<and> (compare a b = Before \<longleftrightarrow> vle a b \<and> \<not> vle b a)
   \<and> (compare a b = After \<longleftrightarrow> vle b a \<and> \<not> vle a b)
   \<and> (compare a b = Concurrent \<longleftrightarrow> \<not> vle a b \<and> \<not> vle b a)
   \<and> compare b a = flip_causality (compare a b)"
  by (simp add: vc.cmp_iff vc.cmp_flip [of b a])

text \<open>
  A node that re-asserts a file after a conflict (merge both clocks, then increment its own
  component, as \<open>on_concurrent\<close> does) obtains a clock that strictly dominates both inputs, unless
  its own counter is already at the \<^verbatim>\<open>u64\<close> maximum.
\<close>

theorem merge_inc_dominates:
  assumes "bt_wf a" and "bt_wf b" and "vv_at a i \<noteq> word_max" and "vv_at b i \<noteq> word_max"
  shows "compare (inc (merge a b) i) a = After \<and> compare (inc (merge a b) i) b = After"
proof -
  let ?m = "merge a b"
  have at_i: "vv_at ?m i < vv_at (inc ?m i) i"
    using assms(2-4) by (simp add: vv_at_inc vv_at_merge saturating_add_gt max_def)
  have "vle x (inc ?m i) \<and> \<not> vle (inc ?m i) x" if "vle x ?m" for x
  proof
    show "vle x (inc ?m i)" using that vle_inc by (rule vc.le_trans)
    have "vv_at x i < vv_at (inc ?m i) i" using that at_i by (auto simp: vle_def intro: le_less_trans)
    then show "\<not> vle (inc ?m i) x" by (auto simp: vle_def not_le)
  qed
  then show ?thesis
    using vc.join_ub1 [OF assms(2)] vc.join_ub2 [OF assms(2)] by (simp add: vc.cmp_iff)
qed

theorem merge_inc_dominates_witness:
  "compare (inc (merge [(''a'', 2), (''b'', 1)] [(''a'', 1), (''b'', 2)]) ''b'') [(''a'', 2), (''b'', 1)] = After
   \<and> compare (inc (merge [(''a'', 2), (''b'', 1)] [(''a'', 1), (''b'', 2)]) ''b'') [(''a'', 1), (''b'', 2)] = After"
proof (rule merge_inc_dominates)
  show "bt_wf [(''a'', 2 :: u64), (''b'', 1)]" "bt_wf [(''a'', 1 :: u64), (''b'', 2)]"
    by code_simp+
  show "vv_at [(''a'', 2), (''b'', 1)] ''b'' \<noteq> word_max" "vv_at [(''a'', 1), (''b'', 2)] ''b'' \<noteq> word_max"
    by code_simp+
qed

end
