(* ===== verification/Session.thy ===== *)
theory Session
  imports BTreeMap
begin

text \<open>
  Session identity (\<^verbatim>\<open>src/session.rs\<close>): role codes, signed role grants, invite tickets and the
  stable wire form of endpoint addresses.  The cryptographic and encoding libraries are parameters:
  the record \<open>crypto\<close> holds the Ed25519 operations, \<open>ticket_codec\<close> the postcard and base32
  functions.  What the code relies on of them is the locale \<open>lawful_codec\<close>; the library lemmas on
  tickets are proved in it.
\<close>

type_synonym bytes = "u8 list"

section \<open>Roles and grants\<close>

definition ROLE_EDITOR :: u8 where "ROLE_EDITOR = 0"
definition ROLE_VIEWER :: u8 where "ROLE_VIEWER = 1"
definition ROLE_ARCHIVE :: u8 where "ROLE_ARCHIVE = 2"

lemmas role_codes [tz_defs] = ROLE_EDITOR_def ROLE_VIEWER_def ROLE_ARCHIVE_def

definition role_can_edit :: "u8 \<Rightarrow> bool" where
  "role_can_edit code \<longleftrightarrow> code = ROLE_EDITOR"

definition role_name :: "u8 \<Rightarrow> string" where
  "role_name code =
     (if code = ROLE_EDITOR then ''editor''
      else if code = ROLE_VIEWER then ''viewer''
      else if code = ROLE_ARCHIVE then ''archive''
      else ''unknown'')"

record grant =
  g_role :: u8
  g_invite_id :: bytes
  g_issued_ms :: u64
  g_expiry_ms :: u64

record signed_grant =
  sg_grant :: grant
  sg_sig :: bytes

definition is_expired :: "grant \<Rightarrow> u64 \<Rightarrow> bool" where
  "is_expired g now_ms \<longleftrightarrow> g_expiry_ms g \<noteq> 0 \<and> now_ms \<ge> g_expiry_ms g"

text \<open>
  The key library: the public key of a byte string is checked by \<open>pk_verify\<close>, which also covers
  the failing key decode of \<^verbatim>\<open>PublicKey::from_bytes\<close>; \<open>ser_grant\<close> is postcard on a grant.
\<close>

record 'sk crypto =
  sk_sign :: "'sk \<Rightarrow> bytes \<Rightarrow> bytes"
  sk_bytes :: "'sk \<Rightarrow> bytes"
  pk_verify :: "bytes \<Rightarrow> bytes \<Rightarrow> bytes \<Rightarrow> bool"
  ser_grant :: "grant \<Rightarrow> bytes option"

definition grant_label :: bytes where
  "grant_label = map (\<lambda>c. of_nat (of_char c)) ''tazamun/v2/grant''"

definition signing_bytes :: "'sk crypto \<Rightarrow> grant \<Rightarrow> bytes" where
  "signing_bytes cr g = grant_label @ unwrap_or [] (ser_grant cr g)"

definition verify_grant :: "'sk crypto \<Rightarrow> signed_grant \<Rightarrow> bytes \<Rightarrow> bool" where
  "verify_grant cr sg admin_public =
     pk_verify cr admin_public (signing_bytes cr (sg_grant sg)) (sg_sig sg)"

definition sign_grant :: "'sk crypto \<Rightarrow> 'sk \<Rightarrow> grant \<Rightarrow> signed_grant" where
  "sign_grant cr sk g = \<lparr>sg_grant = g, sg_sig = sk_sign cr sk (signing_bytes cr g)\<rparr>"

section \<open>Endpoint addresses\<close>

datatype transport_addr = Relay string | Ip string | OtherTransport string

record endpoint_addr =
  ea_id :: bytes
  ea_addrs :: "transport_addr list"

record addr_wire =
  aw_id :: bytes
  aw_relay :: "string option"
  aw_direct :: "string list"

fun split_addrs :: "transport_addr list \<Rightarrow> string option \<times> string list \<Rightarrow> string option \<times> string list" where
  "split_addrs [] acc = acc"
| "split_addrs (Relay url # ts) (relay, direct) =
     split_addrs ts (Some (unwrap_or url relay), direct)"
| "split_addrs (Ip sock # ts) (relay, direct) = split_addrs ts (relay, direct @ [sock])"
| "split_addrs (OtherTransport _ # ts) acc = split_addrs ts acc"

definition from_endpoint_addr :: "endpoint_addr \<Rightarrow> addr_wire" where
  "from_endpoint_addr a =
     (let (relay, direct) = split_addrs (ea_addrs a) (None, [])
      in \<lparr>aw_id = ea_id a, aw_relay = relay, aw_direct = direct\<rparr>)"

text \<open>
  \<open>valid_id\<close> is the key check of \<^verbatim>\<open>EndpointId::from_bytes\<close>, \<open>parse_url\<close> the relay URL
  parser; the resulting set is kept as the list of its members.
\<close>

definition to_endpoint_addr ::
  "(bytes \<Rightarrow> bool) \<Rightarrow> (string \<Rightarrow> string option) \<Rightarrow> addr_wire \<Rightarrow> endpoint_addr option" where
  "to_endpoint_addr valid_id parse_url w =
     (if valid_id (aw_id w) then
        Some \<lparr>ea_id = aw_id w,
          ea_addrs = (case Option.bind (aw_relay w) parse_url of None \<Rightarrow> [] | Some url \<Rightarrow> [Relay url])
            @ map Ip (aw_direct w)\<rparr>
      else None)"

section \<open>Tickets\<close>

record ticket =
  t_secret :: bytes
  t_bootstrap :: "addr_wire list"
  t_admin_public :: "bytes option"
  t_grant :: "signed_grant option"
  t_admin_secret :: "bytes option"

record ticket_wire_v1 =
  w1_version :: u8
  w1_secret :: bytes
  w1_bootstrap :: "addr_wire list"

record ticket_wire_v2 =
  w2_version :: u8
  w2_secret :: bytes
  w2_admin_public :: bytes
  w2_grant :: signed_grant
  w2_admin_secret :: "bytes option"
  w2_bootstrap :: "addr_wire list"

datatype ticket_error = BadPrefix | BadEncoding | BadVersion u8 | TicketMalformed

record ticket_codec =
  ser_v1 :: "ticket_wire_v1 \<Rightarrow> bytes option"
  ser_v2 :: "ticket_wire_v2 \<Rightarrow> bytes option"
  de_v1 :: "bytes \<Rightarrow> ticket_wire_v1 option"
  de_v2 :: "bytes \<Rightarrow> ticket_wire_v2 option"
  b32_encode :: "bytes \<Rightarrow> string"
  b32_decode :: "string \<Rightarrow> bytes option"
  str_to_lower :: "string \<Rightarrow> string"
  str_to_upper :: "string \<Rightarrow> string"

definition TICKET_PREFIX :: string where
  "TICKET_PREFIX = ''tzm1''"

definition new_ticket :: "bytes \<Rightarrow> addr_wire list \<Rightarrow> ticket" where
  "new_ticket secret bootstrap =
     \<lparr>t_secret = secret, t_bootstrap = bootstrap, t_admin_public = None, t_grant = None,
      t_admin_secret = None\<rparr>"

definition ticket_bytes :: "ticket_codec \<Rightarrow> ticket \<Rightarrow> bytes" where
  "ticket_bytes tc t =
     (case (t_admin_public t, t_grant t) of
        (Some admin_public, Some grant) \<Rightarrow>
          unwrap_or [] (ser_v2 tc
            \<lparr>w2_version = 2, w2_secret = t_secret t, w2_admin_public = admin_public,
             w2_grant = grant, w2_admin_secret = t_admin_secret t, w2_bootstrap = t_bootstrap t\<rparr>)
      | _ \<Rightarrow>
          unwrap_or [] (ser_v1 tc
            \<lparr>w1_version = 1, w1_secret = t_secret t, w1_bootstrap = t_bootstrap t\<rparr>))"

definition encode_ticket :: "ticket_codec \<Rightarrow> ticket \<Rightarrow> string" where
  "encode_ticket tc t = TICKET_PREFIX @ str_to_lower tc (b32_encode tc (ticket_bytes tc t))"

definition decode_ticket :: "ticket_codec \<Rightarrow> string \<Rightarrow> (ticket, ticket_error) res" where
  "decode_ticket tc s =
     (case strip_prefix TICKET_PREFIX (trim s) of
        None \<Rightarrow> Err BadPrefix
      | Some body \<Rightarrow>
          (case b32_decode tc (str_to_upper tc body) of
             None \<Rightarrow> Err BadEncoding
           | Some [] \<Rightarrow> Err TicketMalformed
           | Some (v # vs) \<Rightarrow>
               if v = 1 then
                 (case de_v1 tc (v # vs) of
                    None \<Rightarrow> Err TicketMalformed
                  | Some w \<Rightarrow> Ok \<lparr>t_secret = w1_secret w, t_bootstrap = w1_bootstrap w,
                      t_admin_public = None, t_grant = None, t_admin_secret = None\<rparr>)
               else if v = 2 then
                 (case de_v2 tc (v # vs) of
                    None \<Rightarrow> Err TicketMalformed
                  | Some w \<Rightarrow> Ok \<lparr>t_secret = w2_secret w, t_bootstrap = w2_bootstrap w,
                      t_admin_public = Some (w2_admin_public w), t_grant = Some (w2_grant w),
                      t_admin_secret = w2_admin_secret w\<rparr>)
               else Err (BadVersion v)))"

definition mint_ticket ::
  "'sk crypto \<Rightarrow> bytes \<Rightarrow> ('sk \<times> bytes) option \<Rightarrow> u8 \<Rightarrow> bytes \<Rightarrow> u64 \<Rightarrow> u64 \<Rightarrow> addr_wire list \<Rightarrow> ticket" where
  "mint_ticket cr session_secret admin role_code invite_id issued_ms ttl_ms bootstrap =
     (case admin of
        None \<Rightarrow> new_ticket session_secret bootstrap
      | Some (signer, admin_public) \<Rightarrow>
          \<lparr>t_secret = session_secret, t_bootstrap = bootstrap, t_admin_public = Some admin_public,
           t_grant = Some (sign_grant cr signer
             \<lparr>g_role = role_code, g_invite_id = invite_id, g_issued_ms = issued_ms,
              g_expiry_ms = (if ttl_ms = 0 then 0 else saturating_add issued_ms ttl_ms)\<rparr>),
           t_admin_secret = (if role_can_edit role_code then Some (sk_bytes cr signer) else None)\<rparr>)"

section \<open>What the code relies on of the codecs\<close>

text \<open>
  A ticket survives the wire only if its optional parts agree: the v1 form carries none of them.
  Every ticket \<open>mint_ticket\<close> makes is of one of the two shapes.
\<close>

definition ticket_shape :: "ticket \<Rightarrow> bool" where
  "ticket_shape t \<longleftrightarrow>
     (t_admin_public t = None \<longleftrightarrow> t_grant t = None)
     \<and> (t_grant t = None \<longrightarrow> t_admin_secret t = None)"

definition plain_ascii :: "string \<Rightarrow> bool" where
  "plain_ascii s \<longleftrightarrow> (\<forall>c \<in> set s. 32 < ascii_code c \<and> ascii_code c < 128)"

lemma strip_any_None_iff: "strip_any ps s = None \<longleftrightarrow> (\<forall>p \<in> set ps. strip_prefix p s = None)"
  by (induction ps) (auto split: option.splits)

lemma white_space_heads:
  "\<forall>p \<in> set white_space. p \<noteq> [] \<and> \<not> (32 < ascii_code (hd p) \<and> ascii_code (hd p) < 128)"
  "\<forall>p \<in> set white_space. p \<noteq> [] \<and> \<not> (32 < ascii_code (last p) \<and> ascii_code (last p) < 128)"
  by (simp_all add: white_space_def bytes_of_def ascii_code_def)

lemma strip_prefix_head: "p \<noteq> [] \<Longrightarrow> hd p \<noteq> c \<Longrightarrow> strip_prefix p (c # s) = None"
  by (cases p) auto

lemma trim_plain_ascii:
  assumes "plain_ascii s"
  shows "trim s = s"
proof (cases s rule: rev_cases)
  case Nil
  then show ?thesis by (simp add: trim_def trim_start_def trim_end_def)
next
  case (snoc ys y)
  then have "s \<noteq> []" by simp
  then obtain x xs where s: "s = x # xs" by (meson neq_Nil_conv)
  have start: "strip_any white_space s = None"
    using assms white_space_heads(1) unfolding s
    by (auto simp: strip_any_None_iff plain_ascii_def intro!: strip_prefix_head)
  have "strip_any (map rev white_space) (rev s) = None"
    using assms white_space_heads(2) unfolding snoc
    by (auto simp: strip_any_None_iff plain_ascii_def hd_rev intro!: strip_prefix_head)
  with start show ?thesis
    by (simp add: trim_def trim_start_def trim_end_def strip_all_None)
qed

locale lawful_codec =
  fixes tc :: ticket_codec
  assumes v1_roundtrip: "\<exists>bs. ser_v1 tc w = Some (w1_version w # bs) \<and> de_v1 tc (w1_version w # bs) = Some w"
    and v2_roundtrip: "\<exists>bs. ser_v2 tc w' = Some (w2_version w' # bs) \<and> de_v2 tc (w2_version w' # bs) = Some w'"
    and b32_roundtrip: "b32_decode tc (b32_encode tc bs) = Some bs"
    and upper_lower: "str_to_upper tc (str_to_lower tc (b32_encode tc bs)) = b32_encode tc bs"
    and b32_ascii: "plain_ascii (str_to_lower tc (b32_encode tc bs))"
begin

lemma trim_encoded: "trim (encode_ticket tc t) = encode_ticket tc t"
  using b32_ascii by (intro trim_plain_ascii)
    (auto simp: encode_ticket_def plain_ascii_def TICKET_PREFIX_def ascii_code_def)

lemma decode_bytes:
  "decode_ticket tc (encode_ticket tc t) =
     (case ticket_bytes tc t of
        [] \<Rightarrow> Err TicketMalformed
      | v # vs \<Rightarrow>
          if v = 1 then (case de_v1 tc (v # vs) of None \<Rightarrow> Err TicketMalformed
            | Some w \<Rightarrow> Ok (new_ticket (w1_secret w) (w1_bootstrap w)))
          else if v = 2 then (case de_v2 tc (v # vs) of None \<Rightarrow> Err TicketMalformed
            | Some w \<Rightarrow> Ok \<lparr>t_secret = w2_secret w, t_bootstrap = w2_bootstrap w,
                t_admin_public = Some (w2_admin_public w), t_grant = Some (w2_grant w),
                t_admin_secret = w2_admin_secret w\<rparr>)
          else Err (BadVersion v))"
  unfolding decode_ticket_def trim_encoded
  by (simp add: encode_ticket_def upper_lower b32_roundtrip new_ticket_def split: list.split option.split)

lemma decode_encode_v1:
  assumes "t_grant t = None" and "ticket_shape t"
  shows "decode_ticket tc (encode_ticket tc t) = Ok t"
proof -
  let ?w = "\<lparr>w1_version = 1, w1_secret = t_secret t, w1_bootstrap = t_bootstrap t\<rparr>"
  obtain bs where "ser_v1 tc ?w = Some (1 # bs)" and "de_v1 tc (1 # bs) = Some ?w"
    using v1_roundtrip [of ?w] by auto
  with assms show ?thesis
    unfolding decode_bytes by (simp add: ticket_bytes_def ticket_shape_def new_ticket_def)
qed

lemma decode_encode_v2:
  assumes "t_grant t = Some sg" and "ticket_shape t"
  shows "decode_ticket tc (encode_ticket tc t) = Ok t"
proof -
  obtain pub where pub: "t_admin_public t = Some pub"
    using assms by (auto simp: ticket_shape_def)
  let ?w = "\<lparr>w2_version = 2, w2_secret = t_secret t, w2_admin_public = pub, w2_grant = sg,
    w2_admin_secret = t_admin_secret t, w2_bootstrap = t_bootstrap t\<rparr>"
  obtain bs where "ser_v2 tc ?w = Some (2 # bs)" and "de_v2 tc (2 # bs) = Some ?w"
    using v2_roundtrip [of ?w] by auto
  with assms pub show ?thesis
    unfolding decode_bytes by (simp add: ticket_bytes_def)
qed

lemma decode_encode: "ticket_shape t \<Longrightarrow> decode_ticket tc (encode_ticket tc t) = Ok t"
  by (cases "t_grant t") (simp_all add: decode_encode_v1 decode_encode_v2)

end

end
