(* ===== verification/Wire.thy ===== *)
theory Wire
  imports Session
begin

text \<open>
  Prefix codecs: an encoder and a decoder that returns the rest of the input.  The locale
  \<open>prefix_codec\<close> is the contract (decoding an encoding gives the value back and leaves what
  follows), and the combinators for bytes, varints, options, pairs and length-prefixed lists keep
  it.  They follow the documented postcard format (little-endian base-128 varints, a one-byte tag
  for options, length-prefixed sequences, structs as the concatenation of their fields) and give
  concrete instances of the codec parameters of the other theories.
\<close>

type_synonym 'a enc = "'a \<Rightarrow> bytes"
type_synonym 'a dec = "bytes \<Rightarrow> ('a \<times> bytes) option"

locale prefix_codec =
  fixes enc :: "'a enc" and dec :: "'a dec"
  assumes dec_enc: "dec (enc x @ rest) = Some (x, rest)"
begin

lemma dec_enc_nil: "dec (enc x) = Some (x, [])"
  using dec_enc [of x "[]"] by simp

lemma enc_inject: "enc x = enc y \<Longrightarrow> x = y"
  by (metis dec_enc_nil option.inject prod.inject)

lemma enc_prefix_free: "enc x @ r = enc y @ s \<Longrightarrow> x = y \<and> r = s"
  by (metis dec_enc option.inject prod.inject)

end

definition enc_u8 :: "u8 enc" where "enc_u8 b = [b]"

fun dec_u8 :: "u8 dec" where
  "dec_u8 [] = None"
| "dec_u8 (b # bs) = Some (b, bs)"

fun enc_varint :: "nat enc" where
  "enc_varint n = (if n < 128 then [of_nat n] else of_nat (n mod 128 + 128) # enc_varint (n div 128))"

fun dec_varint :: "nat dec" where
  "dec_varint [] = None"
| "dec_varint (b # bs) =
     (if unat b < 128 then Some (unat b, bs)
      else case dec_varint bs of None \<Rightarrow> None
        | Some (n, rest) \<Rightarrow> Some (unat b - 128 + 128 * n, rest))"

definition enc_pair :: "'a enc \<Rightarrow> 'b enc \<Rightarrow> ('a \<times> 'b) enc" where
  "enc_pair ea eb p = ea (fst p) @ eb (snd p)"

definition dec_pair :: "'a dec \<Rightarrow> 'b dec \<Rightarrow> ('a \<times> 'b) dec" where
  "dec_pair da db bs =
     (case da bs of None \<Rightarrow> None
      | Some (a, r) \<Rightarrow> (case db r of None \<Rightarrow> None | Some (b, r') \<Rightarrow> Some ((a, b), r')))"

definition enc_option :: "'a enc \<Rightarrow> 'a option enc" where
  "enc_option ea x = (case x of None \<Rightarrow> [0] | Some a \<Rightarrow> 1 # ea a)"

definition dec_option :: "'a dec \<Rightarrow> 'a option dec" where
  "dec_option da bs =
     (case bs of [] \<Rightarrow> None
      | t # r \<Rightarrow> if t = 0 then Some (None, r)
          else if t = 1 then (case da r of None \<Rightarrow> None | Some (a, r') \<Rightarrow> Some (Some a, r'))
          else None)"

fun dec_many :: "'a dec \<Rightarrow> nat \<Rightarrow> 'a list dec" where
  "dec_many da 0 bs = Some ([], bs)"
| "dec_many da (Suc n) bs =
     (case da bs of None \<Rightarrow> None
      | Some (a, r) \<Rightarrow> (case dec_many da n r of None \<Rightarrow> None | Some (as, r') \<Rightarrow> Some (a # as, r')))"

definition enc_list :: "'a enc \<Rightarrow> 'a list enc" where
  "enc_list ea xs = enc_varint (length xs) @ concat (map ea xs)"

definition dec_list :: "'a dec \<Rightarrow> 'a list dec" where
  "dec_list da bs = (case dec_varint bs of None \<Rightarrow> None | Some (n, r) \<Rightarrow> dec_many da n r)"

definition enc_map :: "('b \<Rightarrow> 'a) \<Rightarrow> 'a enc \<Rightarrow> 'b enc" where
  "enc_map f ea x = ea (f x)"

definition dec_map :: "('a \<Rightarrow> 'b) \<Rightarrow> 'a dec \<Rightarrow> 'b dec" where
  "dec_map g da bs = map_option (\<lambda>(a, r). (g a, r)) (da bs)"

declare enc_varint.simps [simp del]

lemma unat_of_nat_u8: "n < 256 \<Longrightarrow> unat (of_nat n :: u8) = n"
  by (simp add: unsigned_of_nat take_bit_nat_eq_self)

lemma dec_enc_varint: "dec_varint (enc_varint n @ rest) = Some (n, rest)"
proof (induction n rule: enc_varint.induct)
  case (1 n)
  show ?case
  proof (cases "n < 128")
    case True
    then show ?thesis by (simp add: enc_varint.simps unat_of_nat_u8)
  next
    case False
    have "n mod 128 + 128 < 256" by linarith
    then have "unat (of_nat (n mod 128 + 128) :: u8) = n mod 128 + 128"
      by (rule unat_of_nat_u8)
    with 1 [OF False] False show ?thesis
      by (simp add: enc_varint.simps [of n] del: of_nat_add)
  qed
qed

lemma dec_enc_many:
  assumes "\<And>x rest. da (ea x @ rest) = Some (x, rest)"
  shows "dec_many da (length xs) (concat (map ea xs) @ rest) = Some (xs, rest)"
  by (induction xs) (simp_all add: assms)

lemma prefix_codec_u8: "prefix_codec enc_u8 dec_u8"
  by unfold_locales (simp add: enc_u8_def)

lemma prefix_codec_varint: "prefix_codec enc_varint dec_varint"
  by unfold_locales (rule dec_enc_varint)

lemma prefix_codec_pair:
  "prefix_codec ea da \<Longrightarrow> prefix_codec eb db \<Longrightarrow> prefix_codec (enc_pair ea eb) (dec_pair da db)"
  by (simp add: prefix_codec_def enc_pair_def dec_pair_def)

lemma prefix_codec_option:
  "prefix_codec ea da \<Longrightarrow> prefix_codec (enc_option ea) (dec_option da)"
  by (auto simp: prefix_codec_def enc_option_def dec_option_def split: option.split)

lemma prefix_codec_list:
  "prefix_codec ea da \<Longrightarrow> prefix_codec (enc_list ea) (dec_list da)"
  by (auto simp: prefix_codec_def enc_list_def dec_list_def dec_enc_varint dec_enc_many)

lemma prefix_codec_map:
  "prefix_codec ea da \<Longrightarrow> (\<And>x. g (f x) = x) \<Longrightarrow> prefix_codec (enc_map f ea) (dec_map g da)"
  by (simp add: prefix_codec_def enc_map_def dec_map_def)

lemmas prefix_codecs = prefix_codec_u8 prefix_codec_varint prefix_codec_pair prefix_codec_option
  prefix_codec_list prefix_codec_map

section \<open>Codecs of the model's types\<close>

definition enc_word :: "'l::len word enc" where "enc_word w = enc_varint (unat w)"
definition dec_word :: "'l::len word dec" where "dec_word = dec_map of_nat dec_varint"

definition enc_bool :: "bool enc" where "enc_bool b = [if b then 1 else 0]"
definition dec_bool :: "bool dec" where
  "dec_bool bs = (case bs of [] \<Rightarrow> None | b # r \<Rightarrow> if b = 0 then Some (False, r) else if b = 1 then Some (True, r) else None)"

definition enc_bytes :: "bytes enc" where "enc_bytes = enc_list enc_u8"
definition dec_bytes :: "bytes dec" where "dec_bytes = dec_list dec_u8"

definition enc_string :: "string enc" where
  "enc_string = enc_map (map (\<lambda>c. of_nat (of_char c))) (enc_list enc_u8)"
definition dec_string :: "string dec" where
  "dec_string = dec_map (map (\<lambda>b. char_of (unat b))) (dec_list dec_u8)"

interpretation word_codec: prefix_codec enc_word dec_word
  by unfold_locales (simp add: enc_word_def dec_word_def dec_map_def dec_enc_varint)

interpretation bool_codec: prefix_codec enc_bool dec_bool
  by unfold_locales (simp add: enc_bool_def dec_bool_def)

interpretation bytes_codec: prefix_codec enc_bytes dec_bytes
  unfolding enc_bytes_def dec_bytes_def by (intro prefix_codecs)

interpretation string_codec: prefix_codec enc_string dec_string
  unfolding enc_string_def dec_string_def
  by (intro prefix_codecs) (simp add: comp_def unat_of_nat_u8 map_idI)

lemmas base_codecs = word_codec.prefix_codec_axioms bool_codec.prefix_codec_axioms
  bytes_codec.prefix_codec_axioms string_codec.prefix_codec_axioms

end
