(* ===== verification/Invite.thy ===== *)
theory Invite
  imports Wire
begin

text \<open>
  Properties of role grants and invite tickets (\<^verbatim>\<open>src/session.rs\<close>), and a concrete codec on which
  the contract \<open>lawful_codec\<close> is interpreted: postcard-style fields from \<open>Wire\<close>, and a
  two-letters-per-byte text form standing in for base32.
\<close>

section \<open>A concrete ticket codec\<close>

definition enc_addr :: "addr_wire enc" where
  "enc_addr = enc_map (\<lambda>w. (aw_id w, aw_relay w, aw_direct w))
     (enc_pair enc_bytes (enc_pair (enc_option enc_string) (enc_list enc_string)))"

definition dec_addr :: "addr_wire dec" where
  "dec_addr = dec_map (\<lambda>(i, r, d). \<lparr>aw_id = i, aw_relay = r, aw_direct = d\<rparr>)
     (dec_pair dec_bytes (dec_pair (dec_option dec_string) (dec_list dec_string)))"

definition enc_sgrant :: "signed_grant enc" where
  "enc_sgrant = enc_map
     (\<lambda>s. (g_role (sg_grant s), g_invite_id (sg_grant s), g_issued_ms (sg_grant s),
            g_expiry_ms (sg_grant s), sg_sig s))
     (enc_pair enc_u8 (enc_pair enc_bytes (enc_pair enc_word (enc_pair enc_word enc_bytes))))"

definition dec_sgrant :: "signed_grant dec" where
  "dec_sgrant = dec_map
     (\<lambda>(r, i, t, e, s). \<lparr>sg_grant = \<lparr>g_role = r, g_invite_id = i, g_issued_ms = t, g_expiry_ms = e\<rparr>,
        sg_sig = s\<rparr>)
     (dec_pair dec_u8 (dec_pair dec_bytes (dec_pair dec_word (dec_pair dec_word dec_bytes))))"

definition enc_v1 :: "ticket_wire_v1 enc" where
  "enc_v1 = enc_map (\<lambda>w. (w1_version w, w1_secret w, w1_bootstrap w))
     (enc_pair enc_u8 (enc_pair enc_bytes (enc_list enc_addr)))"

definition dec_v1 :: "ticket_wire_v1 dec" where
  "dec_v1 = dec_map (\<lambda>(v, s, b). \<lparr>w1_version = v, w1_secret = s, w1_bootstrap = b\<rparr>)
     (dec_pair dec_u8 (dec_pair dec_bytes (dec_list dec_addr)))"

definition enc_v2 :: "ticket_wire_v2 enc" where
  "enc_v2 = enc_map
     (\<lambda>w. (w2_version w, w2_secret w, w2_admin_public w, w2_grant w, w2_admin_secret w, w2_bootstrap w))
     (enc_pair enc_u8 (enc_pair enc_bytes (enc_pair enc_bytes (enc_pair enc_sgrant
       (enc_pair (enc_option enc_bytes) (enc_list enc_addr))))))"

definition dec_v2 :: "ticket_wire_v2 dec" where
  "dec_v2 = dec_map
     (\<lambda>(v, s, p, g, a, b). \<lparr>w2_version = v, w2_secret = s, w2_admin_public = p, w2_grant = g,
        w2_admin_secret = a, w2_bootstrap = b\<rparr>)
     (dec_pair dec_u8 (dec_pair dec_bytes (dec_pair dec_bytes (dec_pair dec_sgrant
       (dec_pair (dec_option dec_bytes) (dec_list dec_addr))))))"

interpretation addr_codec: prefix_codec enc_addr dec_addr
  unfolding enc_addr_def dec_addr_def by (intro prefix_codecs base_codecs) simp

interpretation sgrant_codec: prefix_codec enc_sgrant dec_sgrant
  unfolding enc_sgrant_def dec_sgrant_def by (intro prefix_codecs base_codecs) simp

interpretation v1_codec: prefix_codec enc_v1 dec_v1
  unfolding enc_v1_def dec_v1_def
  by (intro prefix_codecs base_codecs addr_codec.prefix_codec_axioms) simp

interpretation v2_codec: prefix_codec enc_v2 dec_v2
  unfolding enc_v2_def dec_v2_def
  by (intro prefix_codecs base_codecs addr_codec.prefix_codec_axioms
      sgrant_codec.prefix_codec_axioms) simp

definition letter :: "nat \<Rightarrow> char" where
  "letter n = char_of (65 + n)"

fun text_of :: "bytes \<Rightarrow> string" where
  "text_of [] = []"
| "text_of (b # bs) = letter (unat b div 16) # letter (unat b mod 16) # text_of bs"

fun of_text :: "string \<Rightarrow> bytes option" where
  "of_text [] = Some []"
| "of_text [c] = None"
| "of_text (c # d # s) =
     map_option (\<lambda>bs. of_nat ((ascii_code c - 65) * 16 + (ascii_code d - 65)) # bs) (of_text s)"

definition to_ascii_upper :: "char \<Rightarrow> char" where
  "to_ascii_upper c = (if is_ascii_lower c then char_of (ascii_code c - 32) else c)"

definition plain_codec :: ticket_codec where
  "plain_codec =
     \<lparr>ser_v1 = (\<lambda>w. Some (enc_v1 w)), ser_v2 = (\<lambda>w. Some (enc_v2 w)),
      de_v1 = (\<lambda>bs. map_option fst (dec_v1 bs)), de_v2 = (\<lambda>bs. map_option fst (dec_v2 bs)),
      b32_encode = text_of, b32_decode = of_text,
      str_to_lower = map to_ascii_lower, str_to_upper = map to_ascii_upper\<rparr>"

lemma letter_code: "n < 16 \<Longrightarrow> ascii_code (letter n) = 65 + n"
  by (simp add: letter_def ascii_code_def)

lemma letter_lower: "n < 16 \<Longrightarrow> ascii_code (to_ascii_lower (letter n)) = 97 + n"
  by (simp add: ascii_code_to_ascii_lower is_ascii_upper_def letter_code)

lemma letter_upper_lower: "n < 16 \<Longrightarrow> to_ascii_upper (to_ascii_lower (letter n)) = letter n"
  by (simp add: to_ascii_upper_def is_ascii_lower_def letter_lower) (simp add: letter_def)

lemma of_text_text_of: "of_text (text_of bs) = Some bs"
proof (induction bs)
  case (Cons b bs)
  have "unat b < 256" using unsigned_less [of b, where ?'a = nat] by simp
  then show ?case using Cons by (simp add: letter_code)
qed simp

lemma nibbles: "unat (b :: u8) div 16 < 16" "unat b mod 16 < 16"
  using unsigned_less [of b, where ?'a = nat] by simp_all

lemma upper_lower_text_of: "map to_ascii_upper (map to_ascii_lower (text_of bs)) = text_of bs"
  by (induction bs) (simp_all add: nibbles letter_upper_lower)

lemma plain_text_of: "plain_ascii (map to_ascii_lower (text_of bs))"
proof (induction bs)
  case (Cons b bs)
  then show ?case
    using nibbles [of b] by (simp add: plain_ascii_def letter_lower)
qed (simp add: plain_ascii_def)

interpretation plain: lawful_codec plain_codec
proof unfold_locales
  fix w :: ticket_wire_v1 and w' :: ticket_wire_v2
  show "\<exists>bs. ser_v1 plain_codec w = Some (w1_version w # bs)
      \<and> de_v1 plain_codec (w1_version w # bs) = Some w"
    using v1_codec.dec_enc_nil [of w]
    by (auto simp: plain_codec_def enc_v1_def enc_map_def enc_pair_def enc_u8_def)
  show "\<exists>bs. ser_v2 plain_codec w' = Some (w2_version w' # bs)
      \<and> de_v2 plain_codec (w2_version w' # bs) = Some w'"
    using v2_codec.dec_enc_nil [of w']
    by (auto simp: plain_codec_def enc_v2_def enc_map_def enc_pair_def enc_u8_def)
qed (simp_all add: plain_codec_def of_text_text_of upper_lower_text_of [simplified] plain_text_of)

section \<open>Minted tickets\<close>

lemma mint_ticket_shape: "ticket_shape (mint_ticket cr secret admin role iid issued ttl boot)"
  by (auto simp: mint_ticket_def ticket_shape_def new_ticket_def split: option.split)

text \<open>
  Every invite \<open>mint_ticket\<close> can produce, legacy or role-carrying, survives the ticket string:
  decoding its encoding gives back exactly the minted ticket, for any postcard and base32
  implementation that meets the contract \<open>lawful_codec\<close>.
\<close>

theorem mint_ticket_roundtrip:
  assumes "lawful_codec tc"
  shows "decode_ticket tc (encode_ticket tc (mint_ticket cr secret admin role iid issued ttl boot))
    = Ok (mint_ticket cr secret admin role iid issued ttl boot)"
  using lawful_codec.decode_encode [OF assms mint_ticket_shape] .

definition demo_crypto :: "bytes crypto" where
  "demo_crypto = \<lparr>sk_sign = (\<lambda>sk m. sk @ m), sk_bytes = (\<lambda>sk. sk),
     pk_verify = (\<lambda>pk m s. s = pk @ m), ser_grant = (\<lambda>g. Some [g_role g])\<rparr>"

theorem mint_ticket_roundtrip_witness:
  "decode_ticket plain_codec (encode_ticket plain_codec
      (mint_ticket demo_crypto [1, 2] (Some ([7], [7])) ROLE_VIEWER [9] 1000 60000 []))
   = Ok (mint_ticket demo_crypto [1, 2] (Some ([7], [7])) ROLE_VIEWER [9] 1000 60000 [])"
  by (rule mint_ticket_roundtrip) (rule plain.lawful_codec_axioms)

text \<open>
  Roles ride the invite: a minted role-carrying ticket holds the signing key exactly when it
  confers the editor role, its grant carries the requested role, verifies under the session's admin
  key whenever signing and verifying match, and is unexpired strictly before the saturated expiry
  (never expiring for a zero lifetime).
\<close>

theorem mint_ticket_confers_role:
  assumes sig: "\<And>m. pk_verify cr pub m (sk_sign cr sk m)"
    and t_def: "t = mint_ticket cr secret (Some (sk, pub)) role iid issued ttl boot"
  shows "\<exists>sg. t_grant t = Some sg \<and> verify_grant cr sg pub \<and> g_role (sg_grant sg) = role
    \<and> (t_admin_secret t \<noteq> None \<longleftrightarrow> role = ROLE_EDITOR)
    \<and> (\<forall>now. is_expired (sg_grant sg) now \<longleftrightarrow>
          ttl \<noteq> 0 \<and> min (unat issued + unat ttl) (2 ^ 64 - 1) \<le> unat now)"
proof -
  have "saturating_add issued ttl \<noteq> 0" if "ttl \<noteq> 0"
    using that by (auto simp: word_unat_eq_iff unat_saturating_add)
  then show ?thesis
    using sig by (auto simp: t_def mint_ticket_def sign_grant_def verify_grant_def is_expired_def
        role_can_edit_def word_le_nat_alt unat_saturating_add)
qed

theorem mint_ticket_confers_role_witness:
  "\<exists>sg. t_grant (mint_ticket demo_crypto [1, 2] (Some ([7], [7])) ROLE_VIEWER [9] 1000 60000 []) = Some sg
    \<and> verify_grant demo_crypto sg [7] \<and> g_role (sg_grant sg) = ROLE_VIEWER
    \<and> (t_admin_secret (mint_ticket demo_crypto [1, 2] (Some ([7], [7])) ROLE_VIEWER [9] 1000 60000 []) \<noteq> None
       \<longleftrightarrow> ROLE_VIEWER = ROLE_EDITOR)
    \<and> (\<forall>now. is_expired (sg_grant sg) now \<longleftrightarrow>
          (60000 :: u64) \<noteq> 0 \<and> min (unat (1000 :: u64) + unat (60000 :: u64)) (2 ^ 64 - 1) \<le> unat now)"
  by (rule mint_ticket_confers_role [OF _ refl]) (simp add: demo_crypto_def)

end
