(* ===== verification/Proto.thy ===== *)
theory Proto
  imports VClock Session
begin

text \<open>
  The control-plane protocol (\<^verbatim>\<open>src/proto.rs\<close>) and the manifest checks
  (\<^verbatim>\<open>src/sync/manifest.rs\<close>): the record, lease and message types, the paths a message carries, the
  length-prefixed framing, and the splitting of an index into frames.  Postcard is a parameter:
  \<open>ser\<close>/\<open>de\<close> on messages, \<open>ser_entry\<close> on one index entry.
\<close>

section \<open>Records and messages\<close>

type_synonym relpath = string

record chunk_ref =
  cr_hash :: bytes
  cr_len :: u32

datatype manifest_ref = Inline "chunk_ref list" | Blob bytes

definition empty_manifest :: manifest_ref where
  "empty_manifest = Inline []"

record file_record =
  fr_size :: u64
  fr_manifest :: manifest_ref
  fr_vv :: vclock
  fr_deleted :: bool
  fr_updated_at_ms :: u64

definition tombstone :: "vclock \<Rightarrow> u64 \<Rightarrow> file_record" where
  "tombstone vv ts_ms =
     \<lparr>fr_size = 0, fr_manifest = empty_manifest, fr_vv = vv, fr_deleted = True,
      fr_updated_at_ms = ts_ms\<rparr>"

record lease_info =
  li_path :: relpath
  li_holder :: string
  li_lamport :: u64
  li_expires_in_ms :: u64

datatype deny_reason = DenyHeld string | TieLost | Unavailable | RoleForbidden

datatype msg =
    Hello bytes
  | HelloAck bytes bytes
  | Proof bytes
  | Index u64 "(relpath \<times> file_record) list" "lease_info list"
  | FileMeta relpath file_record u64
  | LockReq relpath u64 u64
  | LockGrant relpath
  | LockDeny relpath deny_reason
  | LockRelease relpath
  | LockRenew relpath u64 u64
  | Bye
  | LockInterest relpath
  | LockFreed relpath
  | Identity signed_grant
  | IndexPart u32 bool u64 "(relpath \<times> file_record) list" "lease_info list"

fun msg_kind :: "msg \<Rightarrow> string" where
  "msg_kind (Hello _) = ''hello''"
| "msg_kind (HelloAck _ _) = ''hello_ack''"
| "msg_kind (Proof _) = ''proof''"
| "msg_kind (Index _ _ _) = ''index''"
| "msg_kind (FileMeta _ _ _) = ''file_meta''"
| "msg_kind (LockReq _ _ _) = ''lock_req''"
| "msg_kind (LockGrant _) = ''lock_grant''"
| "msg_kind (LockDeny _ _) = ''lock_deny''"
| "msg_kind (LockRelease _) = ''lock_release''"
| "msg_kind (LockRenew _ _ _) = ''lock_renew''"
| "msg_kind Bye = ''bye''"
| "msg_kind (LockInterest _) = ''lock_interest''"
| "msg_kind (LockFreed _) = ''lock_freed''"
| "msg_kind (Identity _) = ''identity''"
| "msg_kind (IndexPart _ _ _ _ _) = ''index_part''"

fun wire_paths :: "msg \<Rightarrow> string list" where
  "wire_paths (Index _ files leases) = map fst files @ map li_path leases"
| "wire_paths (IndexPart _ _ _ files leases) = map fst files @ map li_path leases"
| "wire_paths (FileMeta p _ _) = [p]"
| "wire_paths (LockReq p _ _) = [p]"
| "wire_paths (LockGrant p) = [p]"
| "wire_paths (LockDeny p _) = [p]"
| "wire_paths (LockRelease p) = [p]"
| "wire_paths (LockRenew p _ _) = [p]"
| "wire_paths (LockInterest p) = [p]"
| "wire_paths (LockFreed p) = [p]"
| "wire_paths (Hello _) = []"
| "wire_paths (HelloAck _ _) = []"
| "wire_paths (Proof _) = []"
| "wire_paths Bye = []"
| "wire_paths (Identity _) = []"

section \<open>Framing\<close>

definition MAX_FRAME :: nat where "MAX_FRAME = 4 * 1024 * 1024"

datatype proto_error =
  BadLength nat | Oversized nat | EncodeError | DecodeError | StreamWrite | StreamRead

definition to_be_bytes :: "u32 \<Rightarrow> bytes" where
  "to_be_bytes w =
     [of_nat (unat w div 2 ^ 24), of_nat (unat w div 2 ^ 16), of_nat (unat w div 2 ^ 8), of_nat (unat w)]"

fun from_be_bytes :: "bytes \<Rightarrow> nat" where
  "from_be_bytes [] = 0"
| "from_be_bytes (b # bs) = unat b * 256 ^ length bs + from_be_bytes bs"

text \<open>What \<^verbatim>\<open>write_msg\<close> puts on the stream.\<close>

definition write_msg :: "(msg \<Rightarrow> bytes option) \<Rightarrow> msg \<Rightarrow> (bytes, proto_error) res" where
  "write_msg ser m =
     (case ser m of
        None \<Rightarrow> Err EncodeError
      | Some body \<Rightarrow>
          if body = [] \<or> length body > MAX_FRAME then Err (Oversized (length body))
          else Ok (to_be_bytes (of_nat (length body)) @ body))"

definition decode_frame :: "(bytes \<Rightarrow> msg option) \<Rightarrow> bytes \<Rightarrow> (msg, proto_error) res" where
  "decode_frame de buf =
     (if length buf < 4 then Err (BadLength (length buf))
      else let len = from_be_bytes (take 4 buf) in
        if len = 0 \<or> len > MAX_FRAME then Err (BadLength len)
        else if length buf < 4 + len then Err (BadLength len)
        else case de (take len (drop 4 buf)) of None \<Rightarrow> Err DecodeError | Some m \<Rightarrow> Ok m)"

text \<open>
  \<^verbatim>\<open>read_msg\<close> on the bytes still to come: a short read is the stream's error, otherwise the
  message and the bytes after its frame.
\<close>

definition read_msg :: "(bytes \<Rightarrow> msg option) \<Rightarrow> bytes \<Rightarrow> (msg \<times> bytes, proto_error) res" where
  "read_msg de stream =
     (if length stream < 4 then Err StreamRead
      else let len = from_be_bytes (take 4 stream) in
        if len = 0 \<or> len > MAX_FRAME then Err (BadLength len)
        else if length stream < 4 + len then Err StreamRead
        else case de (take len (drop 4 stream)) of
               None \<Rightarrow> Err DecodeError
             | Some m \<Rightarrow> Ok (m, drop (4 + len) stream))"

text \<open>The reader task: messages are handed on until the first error.\<close>

fun read_all :: "nat \<Rightarrow> (bytes \<Rightarrow> msg option) \<Rightarrow> bytes \<Rightarrow> msg list" where
  "read_all 0 de stream = []"
| "read_all (Suc n) de stream =
     (case read_msg de stream of
        Inl _ \<Rightarrow> []
      | Inr (m, rest) \<Rightarrow> m # read_all n de rest)"

section \<open>Splitting an index into frames\<close>

definition INDEX_PART_BUDGET :: nat where "INDEX_PART_BUDGET = MAX_FRAME - 256 * 1024"

type_synonym entry = "relpath \<times> file_record"

definition encoded_len :: "(msg \<Rightarrow> bytes option) \<Rightarrow> msg \<Rightarrow> nat" where
  "encoded_len ser m = (case ser m of Some b \<Rightarrow> length b | None \<Rightarrow> 2 ^ 64 - 1)"

definition entry_len :: "(entry \<Rightarrow> bytes option) \<Rightarrow> entry \<Rightarrow> nat" where
  "entry_len ser_entry e = (case ser_entry e of Some b \<Rightarrow> length b | None \<Rightarrow> 0) + 2"

fun batch_entries ::
  "(entry \<Rightarrow> bytes option) \<Rightarrow> entry list \<Rightarrow> entry list \<Rightarrow> nat \<Rightarrow> entry list list \<Rightarrow> entry list list" where
  "batch_entries ser_entry [] cur cur_bytes batches = (if cur \<noteq> [] then batches @ [cur] else batches)"
| "batch_entries ser_entry (e # es) cur cur_bytes batches =
     (let elen = entry_len ser_entry e;
          full = (cur \<noteq> [] \<and> cur_bytes + elen > INDEX_PART_BUDGET);
          batches' = (if full then batches @ [cur] else batches);
          cur' = (if full then [] else cur);
          cur_bytes' = (if full then 256 else cur_bytes)
      in if cur' = [] \<and> 256 + elen > MAX_FRAME
         then batch_entries ser_entry es cur' cur_bytes' batches'
         else batch_entries ser_entry es (cur' @ [e]) (cur_bytes' + elen) batches')"

function leases_only_part :: "(msg \<Rightarrow> bytes option) \<Rightarrow> u32 \<Rightarrow> u64 \<Rightarrow> lease_info list \<Rightarrow> msg" where
  "leases_only_part ser seq lamport leases =
     (let part = IndexPart seq True lamport [] leases
      in if leases = [] \<or> encoded_len ser part \<le> MAX_FRAME then part
         else leases_only_part ser seq lamport
           (take (length leases - max (length leases div 10) 1) leases))"
  by pat_completeness auto
termination
  by (relation "measure (\<lambda>(_, _, _, leases). length leases)") auto

declare leases_only_part.simps [simp del]

definition index_parts_of ::
  "(msg \<Rightarrow> bytes option) \<Rightarrow> u64 \<Rightarrow> lease_info list \<Rightarrow> entry list list \<Rightarrow> msg list" where
  "index_parts_of ser lamport leases batches =
     (if batches = [] then [leases_only_part ser 0 lamport leases]
      else
        let parts = map (\<lambda>(i, b). IndexPart (of_nat i) False lamport b [])
              (enumerate 0 (butlast batches));
            seq = of_nat (length parts);
            batch = last batches;
            with_leases = IndexPart seq True lamport batch leases
        in if encoded_len ser with_leases \<le> MAX_FRAME then parts @ [with_leases]
           else parts @ [IndexPart seq False lamport batch [],
                         leases_only_part ser (seq + 1) lamport leases])"

definition split_index_parts ::
  "(msg \<Rightarrow> bytes option) \<Rightarrow> (entry \<Rightarrow> bytes option) \<Rightarrow> u64 \<Rightarrow> (relpath, file_record) btree
     \<Rightarrow> lease_info list \<Rightarrow> msg list" where
  "split_index_parts ser ser_entry lamport files leases =
     (let whole = Index lamport files leases
      in if encoded_len ser whole \<le> MAX_FRAME then [whole]
         else index_parts_of ser lamport leases (batch_entries ser_entry files [] 256 []))"

section \<open>Manifest checks\<close>

definition MAX_CHUNKS_PER_FILE :: nat where "MAX_CHUNKS_PER_FILE = 1048576"

datatype manifest_error =
  ManifestDecode | TooManyChunks nat | SizeOverflow | SizeMismatch u64 u64

definition guard_count :: "chunk_ref list \<Rightarrow> (unit, manifest_error) res" where
  "guard_count refs =
     (if length refs > MAX_CHUNKS_PER_FILE then Err (TooManyChunks (length refs)) else Ok ())"

definition decode_blob ::
  "(bytes \<Rightarrow> chunk_ref list option) \<Rightarrow> bytes \<Rightarrow> (chunk_ref list, manifest_error) res" where
  "decode_blob de_refs bs =
     (case de_refs bs of
        None \<Rightarrow> Err ManifestDecode
      | Some refs \<Rightarrow> (case guard_count refs of Inl e \<Rightarrow> Err e | Inr _ \<Rightarrow> Ok refs))"

fun fold_size :: "u64 \<Rightarrow> chunk_ref list \<Rightarrow> (u64, manifest_error) res" where
  "fold_size acc [] = Ok acc"
| "fold_size acc (r # rs) =
     (case checked_add acc (ucast (cr_len r)) of
        None \<Rightarrow> Err SizeOverflow
      | Some t \<Rightarrow> fold_size t rs)"

definition folded_size :: "chunk_ref list \<Rightarrow> (u64, manifest_error) res" where
  "folded_size refs = fold_size 0 refs"

definition check_manifest :: "chunk_ref list \<Rightarrow> u64 \<Rightarrow> (unit, manifest_error) res" where
  "check_manifest refs expected =
     (case guard_count refs of
        Inl e \<Rightarrow> Err e
      | Inr _ \<Rightarrow>
          (case folded_size refs of
             Inl e \<Rightarrow> Err e
           | Inr got \<Rightarrow> if got \<noteq> expected then Err (SizeMismatch got expected) else Ok ()))"

section \<open>Lemmas on framing\<close>

lemma length_to_be_bytes [simp]: "length (to_be_bytes w) = 4"
  by (simp add: to_be_bytes_def)

lemma unat_of_nat_byte: "unat (of_nat n :: u8) = n mod 256"
  by (simp add: unsigned_of_nat take_bit_eq_mod)

lemma base256:
  "a * 256 + x = n \<Longrightarrow> b * 256 + y = a \<Longrightarrow> c * 256 + z = b
     \<Longrightarrow> c * 256 ^ 3 + z * 256 ^ 2 + y * 256 + x = (n :: nat)"
  by auto

lemma from_to_be_bytes [simp]: "from_be_bytes (to_be_bytes w) = unat w"
proof -
  define n where "n = unat w"
  have lt: "n < 2 ^ 32" using unsigned_less [of w, where ?'a = nat] by (simp add: n_def)
  have d: "n div 2 ^ 16 = n div 256 div 256" "n div 2 ^ 24 = n div 256 div 256 div 256"
    by (simp_all add: div_mult2_eq [symmetric])
  have "n div 256 div 256 div 256 < 256" using lt by (simp add: div_mult2_eq [symmetric] less_mult_imp_div_less)
  then have "from_be_bytes (to_be_bytes w) =
      (n div 256 div 256 div 256) * 256 ^ 3 + (n div 256 div 256 mod 256) * 256 ^ 2
      + (n div 256 mod 256) * 256 + n mod 256"
    by (simp add: to_be_bytes_def unat_of_nat_byte n_def [symmetric] d [simplified] del: div_mult2_eq)
  also have "\<dots> = n"
    by (rule base256 [OF div_mult_mod_eq div_mult_mod_eq div_mult_mod_eq])
  finally show ?thesis by (simp add: n_def)
qed

lemma unat_of_nat_frame: "n \<le> MAX_FRAME \<Longrightarrow> unat (of_nat n :: u32) = n"
  by (simp add: MAX_FRAME_def unsigned_of_nat take_bit_nat_eq_self)

definition sendable :: "(msg \<Rightarrow> bytes option) \<Rightarrow> (bytes \<Rightarrow> msg option) \<Rightarrow> msg \<Rightarrow> bool" where
  "sendable ser de m \<longleftrightarrow>
     (case ser m of None \<Rightarrow> False
      | Some b \<Rightarrow> b \<noteq> [] \<and> length b \<le> MAX_FRAME \<and> de b = Some m)"

lemma sendable_frame:
  assumes "sendable ser de m"
  obtains b where "ser m = Some b" and "b \<noteq> []" and "length b \<le> MAX_FRAME" and "de b = Some m"
    and "write_msg ser m = Ok (to_be_bytes (of_nat (length b)) @ b)"
  using assms by (auto simp: sendable_def write_msg_def split: option.splits)

lemma read_msg_frame:
  assumes "sendable ser de m" and "write_msg ser m = Ok f"
  shows "read_msg de (f @ rest) = Ok (m, rest)"
  using assms by (elim sendable_frame) (auto simp: read_msg_def unat_of_nat_frame)

lemma decode_frame_read_msg:
  "decode_frame de buf = Ok m \<longleftrightarrow> (\<exists>rest. read_msg de buf = Ok (m, rest))"
  by (auto simp: decode_frame_def read_msg_def Let_def split: option.splits)

text \<open>
  C36. Framing is lossless and self-delimiting: the frames of any sequence of sendable messages,
  written back to back on one stream, are read back as exactly that sequence, whatever follows.
\<close>

theorem frame_stream_roundtrip:
  assumes "\<forall>m \<in> set ms. sendable ser de m"
    and "map (write_msg ser) ms = map Inr frames"
  shows "read_all (length ms) de (concat frames @ rest) = ms"
  using assms
proof (induction ms arbitrary: frames)
  case (Cons m ms)
  then obtain f fs where "frames = f # fs" and "write_msg ser m = Ok f"
    and "map (write_msg ser) ms = map Inr fs"
    by (cases frames) auto
  moreover have "read_msg de (f @ concat fs @ rest) = Ok (m, concat fs @ rest)"
    using Cons.prems(1) \<open>write_msg ser m = Ok f\<close> by (auto intro: read_msg_frame)
  ultimately show ?case using Cons by simp
qed simp

theorem frame_stream_roundtrip_witness:
  "read_all (length [Bye, LockGrant ''f'', Bye])
     (\<lambda>b. if b = [10] then Some Bye else Some (LockGrant ''f''))
     (concat [[0, 0, 0, 1, 10], [0, 0, 0, 2, 6, 1], [0, 0, 0, 1, 10]] @ [0, 0])
   = [Bye, LockGrant ''f'', Bye]"
proof (rule frame_stream_roundtrip
    [where ser = "\<lambda>m. Some (case m of Bye \<Rightarrow> [10] | _ \<Rightarrow> [6, 1])"])
qed (simp_all add: sendable_def write_msg_def MAX_FRAME_def to_be_bytes_def)

text \<open>
  \<open>decode_frame\<close> refuses before decoding: an accepted buffer carries a length prefix between 1
  and the frame cap, the whole body is present, and the buffer decoder accepts exactly what the
  stream reader accepts.
\<close>

theorem decode_frame_accepts:
  "decode_frame de buf = Ok m \<longleftrightarrow>
     (\<exists>rest. read_msg de buf = Ok (m, rest)
        \<and> 1 \<le> from_be_bytes (take 4 buf) \<and> from_be_bytes (take 4 buf) \<le> MAX_FRAME
        \<and> buf = take 4 buf @ take (from_be_bytes (take 4 buf)) (drop 4 buf) @ rest
        \<and> length (take (from_be_bytes (take 4 buf)) (drop 4 buf)) = from_be_bytes (take 4 buf)
        \<and> de (take (from_be_bytes (take 4 buf)) (drop 4 buf)) = Some m)"
  unfolding decode_frame_read_msg
  by (auto simp: read_msg_def Let_def not_less Suc_le_eq min_absorb2 split: option.splits if_splits)
    (metis append_take_drop_id drop_drop add.commute)

section \<open>Lemmas on manifests\<close>

definition chunk_sum :: "chunk_ref list \<Rightarrow> nat" where
  "chunk_sum refs = sum_list (map (\<lambda>r. unat (cr_len r)) refs)"

lemma unat_ucast_len: "unat (ucast (l :: u32) :: u64) = unat l"
  using unsigned_less [of l, where ?'a = nat]
  by (simp add: unsigned_ucast_eq take_bit_nat_eq_self)

lemma fold_size_spec:
  "fold_size acc refs =
     (if unat acc + chunk_sum refs < 2 ^ 64 then Ok (of_nat (unat acc + chunk_sum refs))
      else Err SizeOverflow)"
proof (induction refs arbitrary: acc)
  case Nil
  then show ?case using unsigned_less [of acc, where ?'a = nat] by (simp add: chunk_sum_def)
next
  case (Cons r rs)
  show ?case
  proof (cases "checked_add acc (ucast (cr_len r))")
    case None
    then show ?thesis
      by (auto simp: checked_add_def unat_ucast_len chunk_sum_def split: if_splits)
  next
    case (Some t)
    then have "unat t = unat acc + unat (cr_len r)"
      by (simp add: checked_add_Some_iff unat_ucast_len)
    with Some show ?thesis
      by (simp add: Cons.IH chunk_sum_def add.assoc)
  qed
qed

lemma chunk_sum_bound: "chunk_sum refs \<le> length refs * (2 ^ 32 - 1)"
proof (induction refs)
  case (Cons r rs)
  have "unat (cr_len r) \<le> 2 ^ 32 - 1"
    using unsigned_less [of "cr_len r", where ?'a = nat] by simp
  with Cons show ?case by (simp add: chunk_sum_def)
qed (simp add: chunk_sum_def)

lemma capped_sum_small:
  assumes "length refs \<le> MAX_CHUNKS_PER_FILE"
  shows "chunk_sum refs < 2 ^ 64"
  using chunk_sum_bound [of refs] mult_le_mono1 [OF assms, of "2 ^ 32 - 1"]
  by (simp add: MAX_CHUNKS_PER_FILE_def)

lemma check_manifest_iff:
  "check_manifest refs expected = Ok () \<longleftrightarrow> length refs \<le> MAX_CHUNKS_PER_FILE \<and> chunk_sum refs = unat expected"
proof -
  have "of_nat (chunk_sum refs) = expected \<longleftrightarrow> chunk_sum refs = unat expected"
    if "length refs \<le> MAX_CHUNKS_PER_FILE"
    using capped_sum_small [OF that] by (auto simp: word_unat_eq_iff unsigned_of_nat take_bit_nat_eq_self)
  with capped_sum_small show ?thesis
    by (auto simp: check_manifest_def guard_count_def folded_size_def fold_size_spec)
qed

text \<open>
  A manifest passes \<open>check\<close> exactly when it has at most the capped number of chunks and its
  chunk lengths add up, without any wrap-around, to the declared size; and once the count cap holds
  the checked fold cannot overflow.
\<close>

theorem check_manifest_exact:
  "(check_manifest refs expected = Ok () \<longleftrightarrow>
      length refs \<le> MAX_CHUNKS_PER_FILE \<and> chunk_sum refs = unat expected)
   \<and> (length refs \<le> MAX_CHUNKS_PER_FILE \<longrightarrow> folded_size refs = Ok (of_nat (chunk_sum refs)))"
  using capped_sum_small [of refs] by (simp add: check_manifest_iff folded_size_def fold_size_spec)

theorem check_manifest_exact_witness:
  "(check_manifest [\<lparr>cr_hash = [1], cr_len = 5\<rparr>, \<lparr>cr_hash = [2], cr_len = 7\<rparr>] 12 = Ok () \<longleftrightarrow>
      length [\<lparr>cr_hash = [1], cr_len = 5\<rparr>, \<lparr>cr_hash = [2], cr_len = 7\<rparr>] \<le> MAX_CHUNKS_PER_FILE
      \<and> chunk_sum [\<lparr>cr_hash = [1], cr_len = 5\<rparr>, \<lparr>cr_hash = [2], cr_len = 7\<rparr>] = unat (12 :: u64))
   \<and> folded_size [\<lparr>cr_hash = [1], cr_len = 5\<rparr>, \<lparr>cr_hash = [2], cr_len = 7\<rparr>]
      = Ok (of_nat (chunk_sum [\<lparr>cr_hash = [1], cr_len = 5\<rparr>, \<lparr>cr_hash = [2], cr_len = 7\<rparr>]))"
  using check_manifest_exact [of "[\<lparr>cr_hash = [1], cr_len = 5\<rparr>, \<lparr>cr_hash = [2], cr_len = 7\<rparr>]" 12]
  by (simp add: MAX_CHUNKS_PER_FILE_def)

end
