(* ===== verification/IndexParts.thy ===== *)
theory IndexParts
  imports Proto
begin

text \<open>
  What \<open>split_index_parts\<close> (\<^verbatim>\<open>src/proto.rs\<close>) guarantees: no entry that fits a frame is lost or
  reordered, the parts are numbered contiguously with the final flag on the last one only, and no
  frame exceeds the cap, given how postcard lays out a part.
\<close>

fun msg_files :: "msg \<Rightarrow> entry list" where
  "msg_files (Index _ files _) = files"
| "msg_files (IndexPart _ _ _ files _) = files"
| "msg_files _ = []"

fun msg_leases :: "msg \<Rightarrow> lease_info list" where
  "msg_leases (Index _ _ leases) = leases"
| "msg_leases (IndexPart _ _ _ _ leases) = leases"
| "msg_leases _ = []"

fun is_part :: "nat \<Rightarrow> bool \<Rightarrow> u64 \<Rightarrow> msg \<Rightarrow> bool" where
  "is_part i fin lamport (IndexPart seq l lam _ _) \<longleftrightarrow> seq = of_nat i \<and> l = fin \<and> lam = lamport"
| "is_part i fin lamport _ \<longleftrightarrow> False"

definition fits :: "(entry \<Rightarrow> bytes option) \<Rightarrow> entry \<Rightarrow> bool" where
  "fits ser_entry e \<longleftrightarrow> 256 + entry_len ser_entry e \<le> MAX_FRAME"

definition batch_bytes :: "(entry \<Rightarrow> bytes option) \<Rightarrow> entry list \<Rightarrow> nat" where
  "batch_bytes ser_entry es = 256 + sum_list (map (entry_len ser_entry) es)"

lemma oversized_fills: "\<not> fits ser_entry e \<Longrightarrow> c + entry_len ser_entry e > INDEX_PART_BUDGET"
  by (simp add: fits_def INDEX_PART_BUDGET_def MAX_FRAME_def)

lemma batch_entries_concat:
  "concat (batch_entries ser_entry es cur cur_bytes batches) =
     concat batches @ cur @ filter (fits ser_entry) es"
proof (induction es arbitrary: cur cur_bytes batches)
  case (Cons e es)
  show ?case
  proof (cases "fits ser_entry e")
    case True
    then show ?thesis by (simp add: Cons.IH Let_def fits_def)
  next
    case False
    then show ?thesis
      using oversized_fills [OF False, of cur_bytes] by (auto simp: Cons.IH Let_def fits_def)
  qed
qed simp

definition batches_ok :: "(entry \<Rightarrow> bytes option) \<Rightarrow> entry list list \<Rightarrow> bool" where
  "batches_ok ser_entry bs \<longleftrightarrow> (\<forall>b \<in> set bs. b \<noteq> [] \<and> batch_bytes ser_entry b \<le> MAX_FRAME)"

lemma batches_ok_snoc:
  "batches_ok ser_entry (bs @ [b]) \<longleftrightarrow> batches_ok ser_entry bs \<and> b \<noteq> [] \<and> batch_bytes ser_entry b \<le> MAX_FRAME"
  by (auto simp: batches_ok_def)

lemma batch_bytes_simps:
  "batch_bytes ser_entry [] = 256"
  "batch_bytes ser_entry (b @ [e]) = batch_bytes ser_entry b + entry_len ser_entry e"
  by (simp_all add: batch_bytes_def)

lemma budget_le_frame: "INDEX_PART_BUDGET \<le> MAX_FRAME" "256 \<le> MAX_FRAME"
  by (simp_all add: INDEX_PART_BUDGET_def MAX_FRAME_def)

lemma batch_entries_bounded:
  assumes "batches_ok ser_entry batches" and "batch_bytes ser_entry cur \<le> MAX_FRAME"
  shows "batches_ok ser_entry (batch_entries ser_entry es cur (batch_bytes ser_entry cur) batches)"
  using assms
proof (induction es arbitrary: cur batches)
  case (Cons e es)
  let ?n = "entry_len ser_entry e"
  have fresh: "batches_ok ser_entry (batch_entries ser_entry es [] 256 bs)"
    "256 + ?n \<le> MAX_FRAME \<Longrightarrow> batches_ok ser_entry (batch_entries ser_entry es [e] (256 + ?n) bs)"
    if "batches_ok ser_entry bs" for bs
    using Cons.IH [OF that, of "[]"] Cons.IH [OF that, of "[] @ [e]"] budget_le_frame
    unfolding batch_bytes_simps by simp_all
  have grow: "batches_ok ser_entry (batch_entries ser_entry es (cur @ [e]) (batch_bytes ser_entry cur + ?n) batches)"
    if "batch_bytes ser_entry cur + ?n \<le> MAX_FRAME"
    using Cons.IH [of batches "cur @ [e]"] Cons.prems that unfolding batch_bytes_simps by simp
  consider (full) "cur \<noteq> []" "batch_bytes ser_entry cur + ?n > INDEX_PART_BUDGET"
    | (empty) "cur = []" | (room) "cur \<noteq> []" "batch_bytes ser_entry cur + ?n \<le> INDEX_PART_BUDGET"
    by linarith
  then show ?case
  proof cases
    case full
    have "batches_ok ser_entry (batches @ [cur])"
      using Cons.prems full by (simp add: batches_ok_snoc)
    with full fresh [of "batches @ [cur]"] show ?thesis by (simp add: Let_def)
  next
    case empty
    with Cons.prems fresh [of batches] show ?thesis by (simp add: Let_def batch_bytes_simps)
  next
    case room
    with grow budget_le_frame show ?thesis by (simp add: Let_def)
  qed
qed (auto simp: batches_ok_snoc)

lemma leases_only_part_shape:
  "\<exists>ls. leases_only_part ser seq lamport leases = IndexPart seq True lamport [] ls
     \<and> (\<exists>n. ls = take n leases)
     \<and> (ls = [] \<or> encoded_len ser (IndexPart seq True lamport [] ls) \<le> MAX_FRAME)"
proof (induction ser seq lamport leases rule: leases_only_part.induct)
  case (1 ser seq lamport leases)
  let ?cut = "take (length leases - max (length leases div 10) 1) leases"
  show ?case
  proof (cases "leases = [] \<or> encoded_len ser (IndexPart seq True lamport [] leases) \<le> MAX_FRAME")
    case True
    then have "leases_only_part ser seq lamport leases = IndexPart seq True lamport [] leases"
      by (subst leases_only_part.simps) (simp add: Let_def)
    with True show ?thesis by (metis order_refl take_all)
  next
    case False
    then have "leases_only_part ser seq lamport leases = leases_only_part ser seq lamport ?cut"
      by (subst leases_only_part.simps) (simp add: Let_def)
    with 1 [OF refl] False show ?thesis by (auto simp: Let_def)
  qed
qed

lemma leases_only_part_is_part [simp]: "is_part n True lamport (leases_only_part ser (of_nat n) lamport leases)"
  and leases_only_part_files [simp]: "msg_files (leases_only_part ser seq lamport leases) = []"
  using leases_only_part_shape [of ser "of_nat n" lamport leases]
    leases_only_part_shape [of ser seq lamport leases] by auto

lemma concat_files_map:
  "concat (map msg_files (map (\<lambda>(i, b). IndexPart (of_nat i) False lamport b []) (enumerate n bs))) = concat bs"
  by (induction bs arbitrary: n) auto

lemma index_parts_of_files:
  "concat (map msg_files (index_parts_of ser lamport leases batches)) = concat batches"
proof (cases batches rule: rev_cases)
  case (snoc bs b)
  then show ?thesis
    using concat_files_map [of lamport 0 bs]
    by (simp add: index_parts_of_def Let_def del: map_map)
qed (simp add: index_parts_of_def)

lemma index_parts_of_numbered:
  fixes ser lamport leases batches
  defines "ps \<equiv> index_parts_of ser lamport leases batches"
  shows "i < length ps \<Longrightarrow> is_part i (Suc i = length ps) lamport (ps ! i)"
proof (cases batches rule: rev_cases)
  case Nil
  moreover assume "i < length ps"
  ultimately show ?thesis
    using leases_only_part_is_part [of 0 lamport ser leases]
    by (simp add: ps_def index_parts_of_def)
next
  case (snoc bs b)
  assume "i < length ps"
  moreover have "ps = map (\<lambda>(i, b). IndexPart (of_nat i) False lamport b []) (enumerate 0 bs)
      @ (if encoded_len ser (IndexPart (of_nat (length bs)) True lamport b leases) \<le> MAX_FRAME
         then [IndexPart (of_nat (length bs)) True lamport b leases]
         else [IndexPart (of_nat (length bs)) False lamport b [],
               leases_only_part ser (of_nat (Suc (length bs))) lamport leases])"
    by (simp add: ps_def index_parts_of_def snoc Let_def add.commute)
  ultimately show ?thesis
    by (auto simp: nth_append nth_enumerate_eq less_Suc_eq simp del: of_nat_Suc)
qed

lemma enumerate_member: "(i, b) \<in> set (enumerate n (butlast bs)) \<Longrightarrow> b \<in> set bs"
proof -
  assume "(i, b) \<in> set (enumerate n (butlast bs))"
  then have "snd (i, b) \<in> set (map snd (enumerate n (butlast bs)))"
    by (metis image_eqI set_map)
  then show ?thesis by (simp add: in_set_butlastD)
qed

lemma split_index_parts_cases:
  "split_index_parts ser ser_entry lamport files leases =
     (if encoded_len ser (Index lamport files leases) \<le> MAX_FRAME then [Index lamport files leases]
      else index_parts_of ser lamport leases (batch_entries ser_entry files [] 256 []))"
  by (simp add: split_index_parts_def Let_def)

lemma batches_bounded:
  "b \<in> set (batch_entries ser_entry files [] 256 []) \<Longrightarrow> b \<noteq> [] \<and> batch_bytes ser_entry b \<le> MAX_FRAME"
  using batch_entries_bounded [of ser_entry "[]" "[]" files] budget_le_frame
  unfolding batch_bytes_simps by (simp add: batches_ok_def)

section \<open>Properties\<close>

text \<open>
  Splitting loses nothing: over all frames of a split index the file entries, in order, are the
  index itself, except for entries too large for any frame, which are left out; every frame but a
  lone whole index is a part numbered by its position, and exactly the last part is marked final.
\<close>

theorem split_index_complete:
  assumes "ps = split_index_parts ser ser_entry lamport files leases"
  shows "ps = [Index lamport files leases]
    \<or> (concat (map msg_files ps) = filter (fits ser_entry) files
       \<and> (\<forall>i < length ps. is_part i (Suc i = length ps) lamport (ps ! i)))"
  using assms index_parts_of_numbered
  by (auto simp: split_index_parts_cases index_parts_of_files batch_entries_concat)

definition demo_ser_entry :: "entry \<Rightarrow> bytes option" where
  "demo_ser_entry e = Some (map (\<lambda>c. of_nat (of_char c)) (fst e))"

fun demo_ser :: "msg \<Rightarrow> bytes option" where
  "demo_ser (IndexPart _ _ _ fs ls) = Some (concat (map (\<lambda>e. the (demo_ser_entry e)) fs) @ map (\<lambda>_. 0) ls)"
| "demo_ser _ = None"

theorem split_index_complete_witness:
  "split_index_parts demo_ser demo_ser_entry 3 [(''a'', tombstone [] 0), (''b'', tombstone [] 0)] []
     = [Index 3 [(''a'', tombstone [] 0), (''b'', tombstone [] 0)] []]
   \<or> (concat (map msg_files
         (split_index_parts demo_ser demo_ser_entry 3 [(''a'', tombstone [] 0), (''b'', tombstone [] 0)] []))
       = filter (fits demo_ser_entry) [(''a'', tombstone [] 0), (''b'', tombstone [] 0)]
      \<and> (\<forall>i < length (split_index_parts demo_ser demo_ser_entry 3 [(''a'', tombstone [] 0), (''b'', tombstone [] 0)] []).
           is_part i (Suc i = length (split_index_parts demo_ser demo_ser_entry 3
             [(''a'', tombstone [] 0), (''b'', tombstone [] 0)] [])) 3
             (split_index_parts demo_ser demo_ser_entry 3 [(''a'', tombstone [] 0), (''b'', tombstone [] 0)] [] ! i)))"
  by (rule split_index_complete [OF refl])

text \<open>
  No frame of a split index exceeds the cap, however large the index and however many leases
  ride along: the only thing used of postcard is that a part without leases encodes in at most 256
  bytes plus the budgeted length of its entries.
\<close>

theorem split_index_frames_fit:
  assumes part_size: "\<And>seq fin fs. encoded_len ser (IndexPart seq fin lamport fs []) \<le> batch_bytes ser_entry fs"
    and "p \<in> set (split_index_parts ser ser_entry lamport files leases)"
  shows "encoded_len ser p \<le> MAX_FRAME"
proof -
  let ?bs = "batch_entries ser_entry files [] 256 []"
  have small: "encoded_len ser (IndexPart seq fin lamport b []) \<le> MAX_FRAME" if "b \<in> set ?bs" for seq fin b
    using part_size [of seq fin b] batches_bounded [OF that] by linarith
  have lease_part: "encoded_len ser (leases_only_part ser seq lamport leases) \<le> MAX_FRAME" for seq
    using leases_only_part_shape [of ser seq lamport leases] part_size [of seq True "[]"]
    by (auto simp: batch_bytes_def MAX_FRAME_def)
  have parts: "?thesis" if mem: "p \<in> set (index_parts_of ser lamport leases ?bs)"
  proof (cases "?bs = []")
    case True
    then show ?thesis using mem lease_part by (simp add: index_parts_of_def)
  next
    case False
    then consider (batch) seq fin b where "b \<in> set ?bs" and "p = IndexPart seq fin lamport b []"
      | (fits) "encoded_len ser p \<le> MAX_FRAME" | (leases) seq where "p = leases_only_part ser seq lamport leases"
      using mem last_in_set [OF False]
      by (auto simp: index_parts_of_def Let_def split: if_splits dest!: enumerate_member)
    then show ?thesis by cases (use small lease_part in auto)
  qed
  show ?thesis
    using assms(2) parts by (auto simp: split_index_parts_cases split: if_splits)
qed

lemma demo_part_size: "encoded_len demo_ser (IndexPart seq fin lamport fs []) \<le> batch_bytes demo_ser_entry fs"
  by (induction fs) (auto simp: encoded_len_def batch_bytes_def entry_len_def demo_ser_entry_def)

theorem split_index_frames_fit_witness:
  "encoded_len demo_ser (IndexPart 0 True 3 [(''a'', tombstone [] 0)] []) \<le> MAX_FRAME"
proof (rule split_index_frames_fit [OF demo_part_size])
  show "IndexPart 0 True 3 [(''a'', tombstone [] 0)] []
      \<in> set (split_index_parts demo_ser demo_ser_entry 3 [(''a'', tombstone [] 0)] [])"
    by (simp add: split_index_parts_cases index_parts_of_def encoded_len_def MAX_FRAME_def
        entry_len_def demo_ser_entry_def INDEX_PART_BUDGET_def Let_def)
qed

end
