(* ===== verification/RelPath.thy ===== *)
theory RelPath
  imports Proto
begin

text \<open>
  Remote index handling (\<^verbatim>\<open>src/sync/index.rs\<close>): the sanitizer every remote path passes, the
  Windows portability check, and the comparison of a remote index with the local one.  The
  specification of the sanitizer is lexical resolution of a path below a root directory: an accepted
  path names a file strictly below the root and outside the metadata directory.
\<close>

section \<open>Sanitizing\<close>

definition MAX_PATH_LEN :: nat where "MAX_PATH_LEN = 4096"
definition META_DIR :: string where "META_DIR = ''.tazamun''"

datatype path_error =
  PathEmpty | TooLong | Nul | Backslash | Absolute | DriveLetter | BadSegment | Reserved

fun check_segments :: "string list \<Rightarrow> path_error option" where
  "check_segments [] = None"
| "check_segments (seg # segs) =
     (if seg = [] \<or> seg = ''.'' \<or> seg = ''..'' then Some BadSegment
      else if eq_ignore_ascii_case seg META_DIR then Some Reserved
      else check_segments segs)"

definition sanitize_rel_path :: "string \<Rightarrow> (relpath, path_error) res" where
  "sanitize_rel_path input =
     (if input = [] then Err PathEmpty
      else if length input > MAX_PATH_LEN then Err TooLong
      else if CHR 0x00 \<in> set input then Err Nul
      else if length input \<ge> 2 \<and> is_ascii_alphabetic (input ! 0) \<and> input ! 1 = CHR '':'' then Err DriveLetter
      else if CHR 0x5C \<in> set input then Err Backslash
      else if starts_with input ''/'' then Err Absolute
      else case check_segments (split_on CHR ''/'' input) of
             Some e \<Rightarrow> Err e
           | None \<Rightarrow> Ok input)"

section \<open>Portability\<close>

definition WINDOWS_RESERVED :: "string list" where
  "WINDOWS_RESERVED =
     [''CON'', ''PRN'', ''AUX'', ''NUL'', ''COM1'', ''COM2'', ''COM3'', ''COM4'', ''COM5'', ''COM6'',
      ''COM7'', ''COM8'', ''COM9'', ''LPT1'', ''LPT2'', ''LPT3'', ''LPT4'', ''LPT5'', ''LPT6'',
      ''LPT7'', ''LPT8'', ''LPT9'']"

text \<open>The three reasons the source formats into a message, with what the message quotes.\<close>

datatype violation = InvalidChar string char | StrippedEnd string | DeviceName string string

definition invalid_char :: "char \<Rightarrow> bool" where
  "invalid_char ch \<longleftrightarrow> ch \<in> set ''<>:|?*'' \<or> ch = CHR 0x22 \<or> ascii_code ch < 32"

definition segment_violation :: "string \<Rightarrow> violation option" where
  "segment_violation seg =
     (case find invalid_char seg of
        Some ch \<Rightarrow> Some (InvalidChar seg ch)
      | None \<Rightarrow>
          if ends_with seg ''.'' \<or> ends_with seg '' '' then Some (StrippedEnd seg)
          else let stem = hd (split_on CHR ''.'' seg) in
            if list_ex (eq_ignore_ascii_case stem) WINDOWS_RESERVED then Some (DeviceName seg stem)
            else None)"

definition portability_violation :: "string \<Rightarrow> violation option" where
  "portability_violation rel = find_map segment_violation (split_on CHR ''/'' rel)"

section \<open>Comparing a remote index\<close>

record index_diff =
  d_pull :: "relpath list"
  d_conflicts :: "relpath list"

fun diff :: "(relpath, file_record) btree \<Rightarrow> (relpath \<times> file_record) list \<Rightarrow> index_diff \<Rightarrow> index_diff" where
  "diff local [] out = out"
| "diff local ((path, rec) # remote) out =
     diff local remote
       (case bt_get local path of
          None \<Rightarrow> if \<not> fr_deleted rec then out\<lparr>d_pull := d_pull out @ [path]\<rparr> else out
        | Some mine \<Rightarrow>
            (case compare (fr_vv mine) (fr_vv rec) of
               Before \<Rightarrow> out\<lparr>d_pull := d_pull out @ [path]\<rparr>
             | Concurrent \<Rightarrow> out\<lparr>d_conflicts := d_conflicts out @ [path]\<rparr>
             | _ \<Rightarrow> out))"

definition index_diff_of :: "(relpath, file_record) btree \<Rightarrow> (relpath \<times> file_record) list \<Rightarrow> index_diff" where
  "index_diff_of local remote = diff local remote \<lparr>d_pull = [], d_conflicts = []\<rparr>"

section \<open>Lexical resolution below a root\<close>

text \<open>
  How an operating system walks a relative path from a directory, as lists of names: an empty name
  and \<open>.\<close> stay, \<open>..\<close> goes up, anything else goes down.
\<close>

fun walk :: "string list \<Rightarrow> string list \<Rightarrow> string list" where
  "walk dir [] = dir"
| "walk dir (seg # segs) =
     (if seg = [] \<or> seg = ''.'' then walk dir segs
      else if seg = ''..'' then walk (butlast dir) segs
      else walk (dir @ [seg]) segs)"

lemma check_segments_None_iff:
  "check_segments segs = None \<longleftrightarrow>
     (\<forall>seg \<in> set segs. seg \<noteq> [] \<and> seg \<noteq> ''.'' \<and> seg \<noteq> ''..'' \<and> \<not> eq_ignore_ascii_case seg META_DIR)"
  by (induction segs) auto

lemma walk_plain:
  "\<forall>seg \<in> set segs. seg \<noteq> [] \<and> seg \<noteq> ''.'' \<and> seg \<noteq> ''..'' \<Longrightarrow> walk dir segs = dir @ segs"
  by (induction segs arbitrary: dir) auto

lemma sanitize_Ok:
  "sanitize_rel_path input = Ok p \<Longrightarrow> p = input \<and> check_segments (split_on CHR ''/'' input) = None"
  by (auto simp: sanitize_rel_path_def split: if_splits option.splits)

lemma sanitize_accepts_iff:
  "sanitize_rel_path input = Ok p \<longleftrightarrow>
     p = input \<and> input \<noteq> [] \<and> length input \<le> MAX_PATH_LEN
     \<and> CHR 0x00 \<notin> set input \<and> CHR 0x5C \<notin> set input
     \<and> \<not> (length input \<ge> 2 \<and> is_ascii_alphabetic (input ! 0) \<and> input ! 1 = CHR '':'')
     \<and> check_segments (split_on CHR ''/'' input) = None"
proof -
  have "check_segments (split_on CHR ''/'' input) \<noteq> None" if "starts_with input ''/''"
    using that by (auto simp: starts_with_iff)
  then show ?thesis
    by (auto simp: sanitize_rel_path_def split: if_splits option.splits)
qed

text \<open>
  C31. The sanitizer is exact and confines: a path is accepted, unchanged, exactly when it is non-empty,
  within the length cap, free of NUL, backslash and a drive prefix, and all its segments are proper
  names other than the metadata directory in any letter case; walking an accepted path from any
  directory ends strictly below that directory, at the segments of the path.
\<close>

theorem sanitize_rel_path_confines:
  "sanitize_rel_path input = Ok p \<longleftrightarrow>
     p = input \<and> input \<noteq> [] \<and> length input \<le> MAX_PATH_LEN
     \<and> CHR 0x00 \<notin> set input \<and> CHR 0x5C \<notin> set input
     \<and> \<not> (length input \<ge> 2 \<and> is_ascii_alphabetic (input ! 0) \<and> input ! 1 = CHR '':'')
     \<and> (\<forall>root. walk root (split_on CHR ''/'' input) = root @ split_on CHR ''/'' input)
     \<and> list_all (\<lambda>seg. seg \<noteq> [] \<and> seg \<noteq> ''.'' \<and> seg \<noteq> ''..'' \<and> \<not> eq_ignore_ascii_case seg META_DIR)
         (split_on CHR ''/'' input)"
  unfolding sanitize_accepts_iff check_segments_None_iff list_all_iff by (auto intro: walk_plain)

section \<open>Lemmas on the comparison\<close>

definition wants_pull :: "(relpath, file_record) btree \<Rightarrow> relpath \<times> file_record \<Rightarrow> bool" where
  "wants_pull local e \<longleftrightarrow>
     (case bt_get local (fst e) of
        None \<Rightarrow> \<not> fr_deleted (snd e)
      | Some mine \<Rightarrow> vle (fr_vv mine) (fr_vv (snd e)) \<and> \<not> vle (fr_vv (snd e)) (fr_vv mine))"

definition in_conflict :: "(relpath, file_record) btree \<Rightarrow> relpath \<times> file_record \<Rightarrow> bool" where
  "in_conflict local e \<longleftrightarrow>
     is_some_and (\<lambda>mine. \<not> vle (fr_vv mine) (fr_vv (snd e)) \<and> \<not> vle (fr_vv (snd e)) (fr_vv mine))
       (bt_get local (fst e))"

lemma diff_accumulates:
  "diff local remote out =
     \<lparr>d_pull = d_pull out @ map fst (filter (wants_pull local) remote),
      d_conflicts = d_conflicts out @ map fst (filter (in_conflict local) remote)\<rparr>"
proof (induction local remote out rule: diff.induct)
  case (2 local path rec remote out)
  then show ?case
    by (cases "bt_get local path") (auto simp: wants_pull_def in_conflict_def vc.cmp_spec)
qed simp

text \<open>
  C35. The comparison of two indexes is exact and never mutual: against a remote index a node pulls, in
  order, exactly the live files it lacks and the records strictly dominating its own, and reports as
  conflicts exactly the incomparable ones; for a path both nodes hold, the two nodes agree on a
  conflict and never both pull it.
\<close>

theorem diff_exact_and_antisymmetric:
  "index_diff_of local remote =
     \<lparr>d_pull = map fst (filter (wants_pull local) remote),
      d_conflicts = map fst (filter (in_conflict local) remote)\<rparr>
   \<and> (bt_get local p = Some mine \<and> bt_get local' p = Some theirs \<longrightarrow>
        (in_conflict local (p, theirs) \<longleftrightarrow> in_conflict local' (p, mine))
        \<and> \<not> (wants_pull local (p, theirs) \<and> wants_pull local' (p, mine))
        \<and> \<not> (wants_pull local (p, theirs) \<and> in_conflict local (p, theirs)))"
  by (auto simp: index_diff_of_def diff_accumulates wants_pull_def in_conflict_def)

definition demo_rec :: "vclock \<Rightarrow> file_record" where
  "demo_rec vv = \<lparr>fr_size = 1, fr_manifest = empty_manifest, fr_vv = vv, fr_deleted = False, fr_updated_at_ms = 0\<rparr>"

theorem diff_exact_and_antisymmetric_witness:
  "index_diff_of [(''f'', demo_rec [(''a'', 1)])] [(''f'', demo_rec [(''b'', 1)])] =
     \<lparr>d_pull = [], d_conflicts = [''f'']\<rparr>
   \<and> (in_conflict [(''f'', demo_rec [(''a'', 1)])] (''f'', demo_rec [(''b'', 1)]) \<longleftrightarrow>
      in_conflict [(''f'', demo_rec [(''b'', 1)])] (''f'', demo_rec [(''a'', 1)]))"
proof
  show "index_diff_of [(''f'', demo_rec [(''a'', 1)])] [(''f'', demo_rec [(''b'', 1)])] =
      \<lparr>d_pull = [], d_conflicts = [''f'']\<rparr>"
    by code_simp
  show "in_conflict [(''f'', demo_rec [(''a'', 1)])] (''f'', demo_rec [(''b'', 1)]) \<longleftrightarrow>
      in_conflict [(''f'', demo_rec [(''b'', 1)])] (''f'', demo_rec [(''a'', 1)])"
    using diff_exact_and_antisymmetric
      [of "[(''f'', demo_rec [(''a'', 1)])]" "[]" "''f''" "demo_rec [(''a'', 1)]"
          "[(''f'', demo_rec [(''b'', 1)])]" "demo_rec [(''b'', 1)]"]
    by (simp add: bt_get_def)
qed

end
