(* ===== verification/Locks.thy ===== *)
theory Locks
  imports Proto
begin

text \<open>
  The lease state machine (\<^verbatim>\<open>src/locks.rs\<close>): one \<open>lock_table\<close> per node, with a state per path
  (absence is free), and one function per method of \<^verbatim>\<open>LockTable\<close>, each returning the updated table
  with its result.  The injected \<^verbatim>\<open>now\<close> is an argument, as in the source.
\<close>

section \<open>State\<close>

definition LEASE_TTL :: duration where "LEASE_TTL = from_secs 90"
definition LEASE_RENEW :: duration where "LEASE_RENEW = from_secs 30"
definition ACQUIRE_TIMEOUT :: duration where "ACQUIRE_TIMEOUT = from_secs 8"
definition MIN_LEASE_TTL :: duration where "MIN_LEASE_TTL = from_secs 10"
definition MAX_LEASE_TTL :: duration where "MAX_LEASE_TTL = from_secs (24 * 60 * 60)"
definition MAX_TRACKED_LEASES :: nat where "MAX_TRACKED_LEASES = 4096"

lemmas lease_consts [tz_defs] = LEASE_TTL_def LEASE_RENEW_def ACQUIRE_TIMEOUT_def MIN_LEASE_TTL_def
  MAX_LEASE_TTL_def MAX_TRACKED_LEASES_def from_secs_def

type_synonym node_id = string

record lock_timings =
  lt_ttl :: duration
  lt_renew :: duration
  lt_acquire_timeout :: duration

definition default_timings :: lock_timings where
  "default_timings = \<lparr>lt_ttl = LEASE_TTL, lt_renew = LEASE_RENEW, lt_acquire_timeout = ACQUIRE_TIMEOUT\<rparr>"

datatype lock_state =
    PendingLocal u64 "node_id set" "node_id set" instant
  | Held node_id u64 instant instant

datatype decision = Grant | GrantAndAbortMine | Deny deny_reason

datatype acquired = Acquired

datatype start_error = AlreadyHeld node_id | AlreadyPending

record swept =
  sw_expired :: "(relpath \<times> node_id) list"
  sw_timed_out :: "relpath list"

record lock_table =
  tb_me :: node_id
  tb_timings :: lock_timings
  tb_states :: "(relpath, lock_state) btree"
  tb_max_leases :: nat

section \<open>Operations\<close>

definition new_table :: "node_id \<Rightarrow> lock_timings \<Rightarrow> lock_table" where
  "new_table me timings =
     \<lparr>tb_me = me, tb_timings = timings, tb_states = [], tb_max_leases = MAX_TRACKED_LEASES\<rparr>"

definition state_of :: "lock_table \<Rightarrow> relpath \<Rightarrow> lock_state option" where
  "state_of t path = bt_get (tb_states t) path"

definition put_state :: "relpath \<Rightarrow> lock_state \<Rightarrow> lock_table \<Rightarrow> lock_table" where
  "put_state path s t = t\<lparr>tb_states := bt_insert path s (tb_states t)\<rparr>"

definition drop_state :: "relpath \<Rightarrow> lock_table \<Rightarrow> lock_table" where
  "drop_state path t = t\<lparr>tb_states := bt_remove path (tb_states t)\<rparr>"

definition at_capacity_for_new :: "lock_table \<Rightarrow> relpath \<Rightarrow> bool" where
  "at_capacity_for_new t path \<longleftrightarrow>
     \<not> bt_contains (tb_states t) path \<and> length (tb_states t) \<ge> tb_max_leases t"

definition set_timings :: "lock_timings \<Rightarrow> lock_table \<Rightarrow> lock_table" where
  "set_timings timings t = t\<lparr>tb_timings := timings\<rparr>"

definition ttl_from_ms :: "u64 \<Rightarrow> duration" where
  "ttl_from_ms ttl_ms = clamp MIN_LEASE_TTL MAX_LEASE_TTL (from_millis (unat ttl_ms))"

definition prune_expired :: "relpath \<Rightarrow> instant \<Rightarrow> lock_table \<Rightarrow> lock_table" where
  "prune_expired path now t =
     (case state_of t path of
        Some (Held _ _ expires _) \<Rightarrow> if expires \<le> now then drop_state path t else t
      | _ \<Rightarrow> t)"

definition start_request ::
  "relpath \<Rightarrow> u64 \<Rightarrow> node_id set \<Rightarrow> instant \<Rightarrow> lock_table \<Rightarrow> (unit, start_error) res \<times> lock_table" where
  "start_request path lamport voters now t0 =
     (let t = prune_expired path now t0 in
      case state_of t path of
        Some (Held holder _ _ _) \<Rightarrow> (Err (AlreadyHeld holder), t)
      | Some (PendingLocal _ _ _ _) \<Rightarrow> (Err AlreadyPending, t)
      | None \<Rightarrow>
          (Ok (), put_state path
             (PendingLocal lamport voters {} (now + lt_acquire_timeout (tb_timings t))) t))"

definition on_grant :: "relpath \<Rightarrow> node_id \<Rightarrow> instant \<Rightarrow> lock_table \<Rightarrow> acquired option \<times> lock_table" where
  "on_grant path from now t =
     (case state_of t path of
        Some (PendingLocal lamport needed granted deadline) \<Rightarrow>
          if from \<notin> needed then (None, t)
          else let granted' = insert from granted in
            if needed \<subseteq> granted'
            then (Some Acquired,
                  put_state path (Held (tb_me t) lamport (now + lt_ttl (tb_timings t)) now) t)
            else (None, put_state path (PendingLocal lamport needed granted' deadline) t)
      | _ \<Rightarrow> (None, t))"

definition on_deny :: "relpath \<Rightarrow> lock_table \<Rightarrow> bool \<times> lock_table" where
  "on_deny path t =
     (case state_of t path of
        Some (PendingLocal _ _ _ _) \<Rightarrow> (True, drop_state path t)
      | _ \<Rightarrow> (False, t))"

definition on_remote_request ::
  "relpath \<Rightarrow> node_id \<Rightarrow> u64 \<Rightarrow> u64 \<Rightarrow> instant \<Rightarrow> lock_table \<Rightarrow> decision \<times> lock_table" where
  "on_remote_request path holder lamport ttl_ms now t0 =
     (let t = prune_expired path now t0; ttl = ttl_from_ms ttl_ms in
      if at_capacity_for_new t path then (Deny Unavailable, t)
      else case state_of t path of
        Some (Held h held_lamport _ since) \<Rightarrow>
          if h = holder
          then (Grant, put_state path (Held holder (max held_lamport lamport) (now + ttl) since) t)
          else (Deny (DenyHeld h), t)
      | Some (PendingLocal my_lamport _ _ _) \<Rightarrow>
          if (lamport, holder) < (my_lamport, tb_me t)
          then (GrantAndAbortMine, put_state path (Held holder lamport (now + ttl) now) t)
          else (Deny TieLost, t)
      | None \<Rightarrow> (Grant, put_state path (Held holder lamport (now + ttl) now) t))"

definition on_release :: "relpath \<Rightarrow> node_id \<Rightarrow> lock_table \<Rightarrow> lock_table" where
  "on_release path from t =
     (case state_of t path of
        Some (Held holder _ _ _) \<Rightarrow> if holder = from then drop_state path t else t
      | _ \<Rightarrow> t)"

definition on_renew :: "relpath \<Rightarrow> node_id \<Rightarrow> u64 \<Rightarrow> instant \<Rightarrow> lock_table \<Rightarrow> lock_table" where
  "on_renew path from ttl_ms now t =
     (case state_of t path of
        Some (Held holder lamport _ since) \<Rightarrow>
          if holder = from then put_state path (Held holder lamport (now + ttl_from_ms ttl_ms) since) t
          else t
      | _ \<Rightarrow> t)"

definition renew_own :: "relpath \<Rightarrow> instant \<Rightarrow> lock_table \<Rightarrow> lock_table" where
  "renew_own path now t =
     (case state_of t path of
        Some (Held holder lamport _ since) \<Rightarrow>
          if holder = tb_me t
          then put_state path (Held holder lamport (now + lt_ttl (tb_timings t)) since) t
          else t
      | _ \<Rightarrow> t)"

definition observe_lease ::
  "relpath \<Rightarrow> node_id \<Rightarrow> u64 \<Rightarrow> u64 \<Rightarrow> instant \<Rightarrow> lock_table \<Rightarrow> lock_table" where
  "observe_lease path holder lamport expires_in_ms now t0 =
     (let t = prune_expired path now t0 in
      if at_capacity_for_new t path then t
      else let expires = now + ttl_from_ms expires_in_ms in
        case state_of t path of
          None \<Rightarrow> put_state path (Held holder lamport expires now) t
        | Some (Held h l _ since) \<Rightarrow>
            if h = holder \<or> (lamport, holder) < (l, h)
            then put_state path (Held holder lamport expires (if h = holder then since else now)) t
            else t
        | Some (PendingLocal _ _ _ _) \<Rightarrow> t)"

fun lacks_vote :: "node_id \<Rightarrow> lock_state \<Rightarrow> bool" where
  "lacks_vote i (PendingLocal _ needed granted _) \<longleftrightarrow> i \<in> needed \<and> i \<notin> granted"
| "lacks_vote i (Held _ _ _ _) \<longleftrightarrow> False"

definition on_peer_down :: "node_id \<Rightarrow> lock_table \<Rightarrow> relpath list \<times> lock_table" where
  "on_peer_down i t =
     (let aborted = map fst (filter (\<lambda>(p, s). lacks_vote i s) (tb_states t))
      in (aborted, fold drop_state aborted t))"

fun sweep_loop :: "instant \<Rightarrow> relpath list \<Rightarrow> lock_table \<Rightarrow> swept \<Rightarrow> swept \<times> lock_table" where
  "sweep_loop now [] t out = (out, t)"
| "sweep_loop now (p # ps) t out =
     (case state_of t p of
        Some (Held holder _ expires _) \<Rightarrow>
          if expires \<le> now
          then sweep_loop now ps (drop_state p t) (out\<lparr>sw_expired := sw_expired out @ [(p, holder)]\<rparr>)
          else sweep_loop now ps t out
      | Some (PendingLocal _ _ _ deadline) \<Rightarrow>
          if deadline \<le> now
          then sweep_loop now ps (drop_state p t) (out\<lparr>sw_timed_out := sw_timed_out out @ [p]\<rparr>)
          else sweep_loop now ps t out
      | None \<Rightarrow> sweep_loop now ps t out)"

definition sweep :: "instant \<Rightarrow> lock_table \<Rightarrow> swept \<times> lock_table" where
  "sweep now t = sweep_loop now (bt_keys (tb_states t)) t \<lparr>sw_expired = [], sw_timed_out = []\<rparr>"

definition holder_of :: "lock_table \<Rightarrow> relpath \<Rightarrow> node_id option" where
  "holder_of t path = (case state_of t path of Some (Held holder _ _ _) \<Rightarrow> Some holder | _ \<Rightarrow> None)"

definition is_held_by_me :: "lock_table \<Rightarrow> relpath \<Rightarrow> bool" where
  "is_held_by_me t path \<longleftrightarrow>
     (case state_of t path of Some (Held holder _ _ _) \<Rightarrow> holder = tb_me t | _ \<Rightarrow> False)"

definition self_held_paths :: "lock_table \<Rightarrow> relpath list" where
  "self_held_paths t =
     map fst (filter (\<lambda>(p, s). case s of Held holder _ _ _ \<Rightarrow> holder = tb_me t | _ \<Rightarrow> False) (tb_states t))"

definition held_leases :: "lock_table \<Rightarrow> instant \<Rightarrow> (relpath \<times> node_id \<times> u64 \<times> duration \<times> duration) list" where
  "held_leases t now =
     List.map_filter
       (\<lambda>(p, s). case s of
           Held holder lamport expires since \<Rightarrow> Some (p, holder, lamport, expires - now, now - since)
         | _ \<Rightarrow> None)
       (tb_states t)"

definition pending_lamport :: "lock_table \<Rightarrow> relpath \<Rightarrow> u64 option" where
  "pending_lamport t path = (case state_of t path of Some (PendingLocal lamport _ _ _) \<Rightarrow> Some lamport | _ \<Rightarrow> None)"

definition pending_votes :: "lock_table \<Rightarrow> relpath \<Rightarrow> (node_id set \<times> node_id set) option" where
  "pending_votes t path =
     (case state_of t path of Some (PendingLocal _ needed granted _) \<Rightarrow> Some (needed, granted) | _ \<Rightarrow> None)"

lemmas lock_ops [tz_defs] = start_request_def on_grant_def on_deny_def on_remote_request_def on_release_def
  on_renew_def renew_own_def observe_lease_def prune_expired_def Let_def

section \<open>Reading the table back\<close>

lemma state_of_put [simp]: "state_of (put_state p s t) p' = (if p' = p then Some s else state_of t p')"
  by (simp add: state_of_def put_state_def)

lemma state_of_drop [simp]: "state_of (drop_state p t) p' = (if p' = p then None else state_of t p')"
  by (simp add: state_of_def drop_state_def)

lemma table_fields [simp]:
  "tb_me (put_state p s t) = tb_me t" "tb_me (drop_state p t) = tb_me t"
  "tb_timings (put_state p s t) = tb_timings t" "tb_timings (drop_state p t) = tb_timings t"
  "tb_max_leases (put_state p s t) = tb_max_leases t" "tb_max_leases (drop_state p t) = tb_max_leases t"
  by (simp_all add: put_state_def drop_state_def)

lemma state_of_set_timings [simp]: "state_of (set_timings k t) p = state_of t p"
  by (simp add: state_of_def set_timings_def)

lemma ttl_bounds: "MIN_LEASE_TTL \<le> ttl_from_ms ms \<and> ttl_from_ms ms \<le> MAX_LEASE_TTL"
  unfolding ttl_from_ms_def by (rule clamp_bounds) (simp add: tz_defs)

lemma ttl_pos [simp]: "0 < ttl_from_ms ms"
  using ttl_bounds [of ms] by (simp add: tz_defs)

lemma holder_of_Some_iff: "holder_of t p = Some h \<longleftrightarrow> (\<exists>l e s. state_of t p = Some (Held h l e s))"
  by (auto simp: holder_of_def split: option.splits lock_state.splits)

lemma is_held_by_me_iff: "is_held_by_me t p \<longleftrightarrow> holder_of t p = Some (tb_me t)"
  by (auto simp: is_held_by_me_def holder_of_def split: option.splits lock_state.splits)

end
