(* ===== verification/LockProps.thy ===== *)
theory LockProps
  imports Locks "HOL-Library.Multiset"
begin

text \<open>
  Properties of the lease table over arbitrary sequences of operations.  An event is one call of a
  method of \<^verbatim>\<open>LockTable\<close> with the injected time; \<open>run\<close> applies a sequence of them.  The lemma
  \<open>apply_op_effect\<close> lists everything one event can do to the state of one path; the properties are
  inductions over it.
\<close>

datatype lock_op =
    OpStart relpath u64 "node_id set"
  | OpGrant relpath node_id
  | OpDeny relpath
  | OpRequest relpath node_id u64 u64
  | OpRelease relpath node_id
  | OpRenew relpath node_id u64
  | OpRenewOwn relpath
  | OpObserve relpath node_id u64 u64
  | OpPeerDown node_id
  | OpSweep
  | OpTimings lock_timings

fun apply_op :: "lock_op \<Rightarrow> instant \<Rightarrow> lock_table \<Rightarrow> lock_table" where
  "apply_op (OpStart p l voters) now t = snd (start_request p l voters now t)"
| "apply_op (OpGrant p i) now t = snd (on_grant p i now t)"
| "apply_op (OpDeny p) now t = snd (on_deny p t)"
| "apply_op (OpRequest p h l ttl) now t = snd (on_remote_request p h l ttl now t)"
| "apply_op (OpRelease p h) now t = on_release p h t"
| "apply_op (OpRenew p h ttl) now t = on_renew p h ttl now t"
| "apply_op (OpRenewOwn p) now t = renew_own p now t"
| "apply_op (OpObserve p h l ms) now t = observe_lease p h l ms now t"
| "apply_op (OpPeerDown i) now t = snd (on_peer_down i t)"
| "apply_op OpSweep now t = snd (sweep now t)"
| "apply_op (OpTimings k) now t = set_timings k t"

type_synonym event = "lock_op \<times> instant"

definition run :: "event list \<Rightarrow> lock_table \<Rightarrow> lock_table" where
  "run evs t = fold (\<lambda>(op, now). apply_op op now) evs t"

lemma run_simps [simp]:
  "run [] t = t"
  "run ((op, now) # evs) t = run evs (apply_op op now t)"
  "run (evs @ evs') t = run evs' (run evs t)"
  by (simp_all add: run_def)

section \<open>Effects on one path\<close>

lemma fold_drop_state:
  "state_of (fold drop_state ps t) p = (if p \<in> set ps then None else state_of t p)"
  "tb_me (fold drop_state ps t) = tb_me t" "tb_timings (fold drop_state ps t) = tb_timings t"
  "tb_max_leases (fold drop_state ps t) = tb_max_leases t"
  by (induction ps arbitrary: t) auto

definition expired :: "instant \<Rightarrow> lock_state \<Rightarrow> bool" where
  "expired now s \<longleftrightarrow> (case s of Held _ _ e _ \<Rightarrow> e \<le> now | PendingLocal _ _ _ d \<Rightarrow> d \<le> now)"

lemma sweep_loop_state:
  "state_of (snd (sweep_loop now ps t out)) p =
     (case state_of t p of None \<Rightarrow> None
      | Some s \<Rightarrow> if p \<in> set ps \<and> expired now s then None else Some s)
   \<and> tb_me (snd (sweep_loop now ps t out)) = tb_me t
   \<and> tb_timings (snd (sweep_loop now ps t out)) = tb_timings t
   \<and> tb_max_leases (snd (sweep_loop now ps t out)) = tb_max_leases t"
  by (induction now ps t out rule: sweep_loop.induct)
    (auto simp: expired_def split: option.splits lock_state.splits)

lemma sweep_state:
  "state_of (snd (sweep now t)) p =
     (case state_of t p of None \<Rightarrow> None | Some s \<Rightarrow> if expired now s then None else Some s)"
  using sweep_loop_state [of now "bt_keys (tb_states t)" t _ p]
  by (auto simp: sweep_def bt_in_keys state_of_def split: option.splits)

lemma on_peer_down_state: "state_of (snd (on_peer_down i t)) p \<in> {state_of t p, None}"
  by (simp add: on_peer_down_def Let_def fold_drop_state)

lemma apply_op_fields [simp]:
  "tb_me (apply_op op now t) = tb_me t"
  "tb_max_leases (apply_op op now t) = tb_max_leases t"
  by (cases op; auto simp: lock_ops on_peer_down_def fold_drop_state sweep_def sweep_loop_state set_timings_def
      split: option.splits lock_state.splits)+

lemma apply_op_timings:
  "tb_timings (apply_op op now t) = (case op of OpTimings k \<Rightarrow> k | _ \<Rightarrow> tb_timings t)"
  by (cases op; auto simp: lock_ops on_peer_down_def fold_drop_state sweep_def sweep_loop_state set_timings_def
      split: option.splits lock_state.splits)

lemma run_me [simp]: "tb_me (run evs t) = tb_me t"
  by (induction evs arbitrary: t) (auto simp: run_def)

text \<open>Every way one event can change the state of \<open>p\<close>.\<close>

inductive effect :: "relpath \<Rightarrow> lock_op \<Rightarrow> instant \<Rightarrow> lock_table \<Rightarrow> lock_state option \<Rightarrow> lock_state option \<Rightarrow> bool"
  for p op now t where
  stay: "effect p op now t s s"
| gone: "effect p op now t s None"
| begun: "op = OpStart p l voters \<Longrightarrow>
    effect p op now t s (Some (PendingLocal l voters {} d))"
| vote: "op = OpGrant p i \<Longrightarrow> i \<in> needed \<Longrightarrow>
    effect p op now t (Some (PendingLocal l needed granted d)) (Some (PendingLocal l needed (insert i granted) d))"
| won: "op = OpGrant p i \<Longrightarrow> i \<in> needed \<Longrightarrow> needed \<subseteq> insert i granted \<Longrightarrow> e = now + lt_ttl (tb_timings t) \<Longrightarrow>
    effect p op now t (Some (PendingLocal l needed granted d)) (Some (Held (tb_me t) l e now))"
| renewed: "op = OpRenewOwn p \<Longrightarrow> e = now + lt_ttl (tb_timings t) \<Longrightarrow>
    effect p op now t (Some (Held (tb_me t) l e0 since)) (Some (Held (tb_me t) l e since))"
| lease: "op \<in> {OpRequest p h l' ms, OpRenew p h ms, OpObserve p h l' ms} \<Longrightarrow> e = now + ttl_from_ms ms \<Longrightarrow>
    effect p op now t s (Some (Held h l e since))"

lemma apply_op_effect: "effect p op now t (state_of t p) (state_of (apply_op op now t) p)"
proof (cases op)
  case (OpPeerDown i)
  then show ?thesis using on_peer_down_state [of i t p] by (auto intro: effect.intros)
next
  case OpSweep
  then show ?thesis by (auto simp: sweep_state intro: effect.intros split: option.splits)
qed (auto simp: lock_ops intro: effect.intros split: option.splits lock_state.splits)

inductive_cases effect_to_pending: "effect p op now t s (Some (PendingLocal l n g d))"
inductive_cases effect_to_held: "effect p op now t s (Some (Held h l e since))"

section \<open>Well-formed tables\<close>

definition lt_wf :: "lock_table \<Rightarrow> bool" where
  "lt_wf t \<longleftrightarrow> bt_wf (tb_states t)"

lemma lt_wf_basic [simp, tz_inv]:
  "lt_wf (new_table me k)"
  "lt_wf t \<Longrightarrow> lt_wf (put_state p s t)"
  "lt_wf t \<Longrightarrow> lt_wf (drop_state p t)"
  "lt_wf t \<Longrightarrow> lt_wf (prune_expired p now t)"
  by (auto simp: lt_wf_def new_table_def put_state_def drop_state_def prune_expired_def
      split: option.splits lock_state.splits)

lemma lt_wf_fold_drop: "lt_wf t \<Longrightarrow> lt_wf (fold drop_state ps t)"
  by (induction ps arbitrary: t) auto

lemma lt_wf_sweep_loop: "lt_wf t \<Longrightarrow> lt_wf (snd (sweep_loop now ps t out))"
  by (induction now ps t out rule: sweep_loop.induct) (auto split: option.splits lock_state.splits)

lemma lt_wf_apply_op [tz_inv]: "lt_wf t \<Longrightarrow> lt_wf (apply_op op now t)"
proof (cases op)
  case (OpTimings k)
  then show "lt_wf t \<Longrightarrow> ?thesis" by (simp add: lt_wf_def set_timings_def)
qed (auto simp: start_request_def on_grant_def on_deny_def on_remote_request_def on_release_def
    on_renew_def renew_own_def observe_lease_def Let_def on_peer_down_def lt_wf_fold_drop sweep_def lt_wf_sweep_loop
    split: option.splits lock_state.splits)

lemma lt_wf_run [tz_inv]: "lt_wf t \<Longrightarrow> lt_wf (run evs t)"
  by (induction evs arbitrary: t) (auto simp: run_def lt_wf_apply_op)

section \<open>Acquiring\<close>

definition votes_in :: "event list \<Rightarrow> relpath \<Rightarrow> node_id set" where
  "votes_in evs p = {i. \<exists>now. (OpGrant p i, now) \<in> set evs}"

lemma votes_in_mono [intro]: "i \<in> votes_in evs p \<Longrightarrow> i \<in> votes_in (evs @ evs') p"
  by (auto simp: votes_in_def)

lemma pending_has_votes:
  assumes "state_of (run evs (new_table me k)) p = Some (PendingLocal l needed granted d)"
  shows "\<exists>pre mid now. evs = pre @ (OpStart p l needed, now) # mid \<and> granted \<subseteq> votes_in mid p"
  using assms
proof (induction evs arbitrary: granted rule: rev_induct)
  case Nil
  then show ?case by (simp add: new_table_def state_of_def)
next
  case (snoc ev evs)
  obtain op now where ev: "ev = (op, now)" by fastforce
  let ?t = "run evs (new_table me k)"
  have "effect p op now ?t (state_of ?t p) (Some (PendingLocal l needed granted d))"
    using apply_op_effect [of p op now ?t] snoc.prems by (simp add: ev)
  then show ?case
  proof (elim effect_to_pending, goal_cases)
    case 1
    then obtain pre mid n where "evs = pre @ (OpStart p l needed, n) # mid" "granted \<subseteq> votes_in mid p"
      using snoc.IH [OF 1(1) [symmetric]] by blast
    then show ?thesis
      by (intro exI [of _ pre] exI [of _ "mid @ [ev]"] exI [of _ n]) auto
  next
    case 2
    then show ?thesis using ev by (intro exI [of _ evs] exI [of _ "[]"] exI [of _ now]) simp
  next
    case (3 i granted')
    then obtain pre mid n where "evs = pre @ (OpStart p l needed, n) # mid" "granted' \<subseteq> votes_in mid p"
      using snoc.IH [of granted'] by auto
    with 3 ev show ?thesis
      by (intro exI [of _ pre] exI [of _ "mid @ [ev]"] exI [of _ n]) (auto simp: votes_in_def)
  qed
qed

text \<open>
  A lease is acquired only with every vote: however a fresh table was driven, when a grant completes
  an acquire, the path was put up for vote by an earlier request and every voter of that request
  (the last one being the sender of this grant) has granted since; the node then records itself as
  the holder with the lamport of the request and its own TTL.
\<close>

theorem acquire_needs_every_voter:
  assumes "on_grant p i now (run evs (new_table me k)) = (Some Acquired, t')"
  shows "\<exists>pre l voters t0 mid. evs = pre @ (OpStart p l voters, t0) # mid
     \<and> i \<in> voters \<and> voters \<subseteq> insert i (votes_in mid p)
     \<and> state_of t' p = Some (Held me l (now + lt_ttl (tb_timings (run evs (new_table me k)))) now)"
proof -
  let ?t = "run evs (new_table me k)"
  obtain l needed granted d where s: "state_of ?t p = Some (PendingLocal l needed granted d)"
    and "i \<in> needed" and "needed \<subseteq> insert i granted"
    and "t' = put_state p (Held (tb_me ?t) l (now + lt_ttl (tb_timings ?t)) now) ?t"
    using assms by (auto simp: on_grant_def Let_def split: option.splits lock_state.splits if_splits)
  with pending_has_votes [OF s] show ?thesis by (auto simp: new_table_def) blast
qed

definition demo_votes :: "event list" where
  "demo_votes = [(OpStart ''f'' 1 {''b'', ''c''}, 0), (OpGrant ''f'' ''b'', 1), (OpGrant ''f'' ''x'', 2)]"

theorem acquire_needs_every_voter_witness:
  "\<exists>pre l voters t0 mid. demo_votes = pre @ (OpStart ''f'' l voters, t0) # mid
     \<and> ''c'' \<in> voters \<and> voters \<subseteq> insert ''c'' (votes_in mid ''f'')
     \<and> state_of (snd (on_grant ''f'' ''c'' 3 (run demo_votes (new_table ''a'' default_timings)))) ''f''
         = Some (Held ''a'' l (3 + lt_ttl (tb_timings (run demo_votes (new_table ''a'' default_timings)))) 3)"
proof (rule acquire_needs_every_voter)
  have "fst (on_grant ''f'' ''c'' 3 (run demo_votes (new_table ''a'' default_timings))) = Some Acquired"
    by (simp add: demo_votes_def new_table_def lock_ops state_of_def put_state_def bt_get_def)
  then show "on_grant ''f'' ''c'' 3 (run demo_votes (new_table ''a'' default_timings)) =
      (Some Acquired, snd (on_grant ''f'' ''c'' 3 (run demo_votes (new_table ''a'' default_timings))))"
    by (metis prod.collapse)
qed

section \<open>Ties\<close>

text \<open>
  Crossing requests are decided the same way on both sides: when two nodes with different ids both
  have a pending request for a path and receive each other's request, the one with the lower
  (lamport, id) denies the other with a lost tie and keeps its request, and the other grants and
  aborts its own; exactly one side gives way.
\<close>

theorem crossing_requests_agree:
  assumes "state_of ta p = Some (PendingLocal la na ga da)" and "state_of tb p = Some (PendingLocal lb nb gb db)"
    and "tb_me ta \<noteq> tb_me tb" and "(la, tb_me ta) < (lb, tb_me tb)"
  shows "fst (on_remote_request p (tb_me tb) lb ttl now ta) = Deny TieLost
    \<and> state_of (snd (on_remote_request p (tb_me tb) lb ttl now ta)) p = state_of ta p
    \<and> fst (on_remote_request p (tb_me ta) la ttl' now' tb) = GrantAndAbortMine
    \<and> holder_of (snd (on_remote_request p (tb_me ta) la ttl' now' tb)) p = Some (tb_me ta)"
proof -
  have "prune_expired p now ta = ta" "prune_expired p now' tb = tb"
    using assms(1,2) by (simp_all add: prune_expired_def)
  moreover have "\<not> at_capacity_for_new ta p" "\<not> at_capacity_for_new tb p"
    using assms(1,2) by (simp_all add: at_capacity_for_new_def bt_contains_def state_of_def)
  moreover have "\<not> (lb, tb_me tb) < (la, tb_me ta)"
    using assms(4) by (auto simp: less_prod_def)
  ultimately show ?thesis
    using assms by (simp add: on_remote_request_def Let_def holder_of_def)
qed

definition pending_at :: "node_id \<Rightarrow> u64 \<Rightarrow> node_id \<Rightarrow> lock_table" where
  "pending_at me l voter = snd (start_request ''f'' l {voter} 0 (new_table me default_timings))"

theorem crossing_requests_agree_witness:
  "fst (on_remote_request ''f'' ''b'' 4 0 1 (pending_at ''a'' 4 ''b'')) = Deny TieLost
   \<and> fst (on_remote_request ''f'' ''a'' 4 0 1 (pending_at ''b'' 4 ''a'')) = GrantAndAbortMine"
proof -
  let ?s = "\<lambda>v. PendingLocal 4 {v} {} 8000000000"
  have "state_of (pending_at ''a'' 4 ''b'') ''f'' = Some (?s ''b'')"
    and "state_of (pending_at ''b'' 4 ''a'') ''f'' = Some (?s ''a'')"
    and "tb_me (pending_at ''a'' 4 ''b'') = ''a''" and "tb_me (pending_at ''b'' 4 ''a'') = ''b''"
    by (simp_all add: pending_at_def new_table_def lock_ops state_of_def put_state_def bt_get_def
        default_timings_def lease_consts)
  then show ?thesis
    using crossing_requests_agree [of "pending_at ''a'' 4 ''b''" "''f''" 4 "{''b''}" "{}" 8000000000
        "pending_at ''b'' 4 ''a''" 4 "{''a''}" "{}" 8000000000 0 1 0 1]
    by (simp add: less_char_def)
qed

section \<open>A live lease is not given away\<close>

lemma on_peer_down_exact:
  assumes "lt_wf t"
  shows "state_of (snd (on_peer_down i t)) p =
    (case state_of t p of None \<Rightarrow> None | Some s \<Rightarrow> if lacks_vote i s then None else Some s)"
proof -
  have "p \<in> fst ` {x \<in> set (tb_states t). case x of (p, s) \<Rightarrow> lacks_vote i s} \<longleftrightarrow>
      is_some_and (lacks_vote i) (state_of t p)"
    using assms by (force simp: lt_wf_def bt_in_set_get state_of_def is_some_and_iff)
  then show ?thesis
    by (auto simp: on_peer_down_def Let_def fold_drop_state split: option.splits)
qed

definition disturbs :: "relpath \<Rightarrow> node_id \<Rightarrow> lock_op \<Rightarrow> bool" where
  "disturbs p h op \<longleftrightarrow>
     (case op of OpRelease q i \<Rightarrow> q = p \<and> i = h | OpObserve q i _ _ \<Rightarrow> q = p \<and> i \<noteq> h | _ \<Rightarrow> False)"

definition holds_until :: "lock_table \<Rightarrow> relpath \<Rightarrow> node_id \<Rightarrow> instant \<Rightarrow> bool" where
  "holds_until t p h e \<longleftrightarrow> (\<exists>l e' since. state_of t p = Some (Held h l e' since) \<and> e \<le> e')"

lemma live_lease_kept:
  assumes "lt_wf t" and h: "holds_until t p h e" and now: "now < e" "e \<le> now + MIN_LEASE_TTL"
    and quiet: "\<not> disturbs p h op" and other: "h \<noteq> tb_me t"
  shows "holds_until (apply_op op now t) p h e"
proof -
  obtain l e' since where s: "state_of t p = Some (Held h l e' since)" "e \<le> e'"
    using h by (auto simp: holds_until_def)
  have ttl: "e \<le> now + ttl_from_ms ms" for ms
    using now(2) ttl_bounds [of ms] by linarith
  show ?thesis
  proof (cases op)
    case (OpPeerDown i)
    then show ?thesis using s assms(1) by (simp add: holds_until_def on_peer_down_exact)
  next
    case OpSweep
    then show ?thesis using s now by (simp add: holds_until_def sweep_state expired_def)
  qed (use s now quiet other ttl in \<open>auto simp: holds_until_def disturbs_def lock_ops at_capacity_for_new_def
      split: option.splits lock_state.splits\<close>)
qed

lemma live_lease_kept_run:
  assumes "lt_wf t" and "holds_until t p h e" and "h \<noteq> tb_me t"
    and "\<forall>(op, now) \<in> set evs. now < e \<and> e \<le> now + MIN_LEASE_TTL \<and> \<not> disturbs p h op"
  shows "holds_until (run evs t) p h e"
  using assms
proof (induction evs arbitrary: t)
  case (Cons ev evs)
  obtain op now where ev: "ev = (op, now)" by fastforce
  have "holds_until (apply_op op now t) p h e"
    using Cons.prems ev by (intro live_lease_kept) auto
  then show ?case
    using Cons ev lt_wf_apply_op [of t op now] by auto
qed simp

lemma granted_holds:
  assumes "fst (on_remote_request p h l ttl now t) \<in> {Grant, GrantAndAbortMine}"
  shows "holds_until (snd (on_remote_request p h l ttl now t)) p h (now + MIN_LEASE_TTL)"
  using assms ttl_bounds [of ttl]
  by (auto simp: on_remote_request_def Let_def holds_until_def split: option.splits lock_state.splits if_splits)

lemma held_denies_others:
  assumes "holds_until t p h e" and "now < e" and "h' \<noteq> h"
  shows "fst (on_remote_request p h' l ttl now t) = Deny (DenyHeld h)"
  using assms
  by (auto simp: on_remote_request_def prune_expired_def Let_def holds_until_def at_capacity_for_new_def
      bt_contains_def state_of_def)



section \<open>No lease is parked\<close>

definition sane_timings :: "lock_timings \<Rightarrow> bool" where
  "sane_timings k \<longleftrightarrow> lt_ttl k \<le> MAX_LEASE_TTL"

definition leases_bounded :: "instant \<Rightarrow> lock_table \<Rightarrow> bool" where
  "leases_bounded T t \<longleftrightarrow> (\<forall>p h l e since. state_of t p = Some (Held h l e since) \<longrightarrow> e \<le> T + MAX_LEASE_TTL)"

lemma leases_boundedD: "leases_bounded T t \<Longrightarrow> state_of t p = Some (Held h l e since) \<Longrightarrow> e \<le> T + MAX_LEASE_TTL"
  unfolding leases_bounded_def by blast

lemma apply_op_bounded:
  assumes "leases_bounded T t" and "sane_timings (tb_timings t)" and "now \<le> T"
  shows "leases_bounded T (apply_op op now t)"
  unfolding leases_bounded_def
proof (intro allI impI)
  fix p h l e since
  assume "state_of (apply_op op now t) p = Some (Held h l e since)"
  then have "effect p op now t (state_of t p) (Some (Held h l e since))"
    using apply_op_effect [of p op now t] by simp
  then show "e \<le> T + MAX_LEASE_TTL"
  proof (elim effect_to_held, goal_cases)
    case 1
    then show ?case using leases_boundedD [OF assms(1)] by metis
  qed (use assms(2,3) ttl_bounds in \<open>auto simp: sane_timings_def intro!: add_mono\<close>)
qed

lemma run_bounded:
  assumes "leases_bounded T t" and "sane_timings (tb_timings t)"
    and "\<forall>(op, now) \<in> set evs. now \<le> T \<and> (\<forall>k. op = OpTimings k \<longrightarrow> sane_timings k)"
  shows "leases_bounded T (run evs t)"
  using assms
proof (induction evs arbitrary: t)
  case (Cons ev evs)
  obtain op now where ev: "ev = (op, now)" by fastforce
  have "sane_timings (tb_timings (apply_op op now t))"
    using Cons.prems ev by (auto simp: apply_op_timings split: lock_op.splits)
  then show ?case
    using Cons ev apply_op_bounded [of T t now op] by auto
qed simp

text \<open>
  C33. No lease can be parked: with the local TTL at most the maximum, whatever messages a node has seen
  up to time \<open>T\<close>, whatever TTLs they carried, a sweep one maximum lease time later frees every path that
  is not pending: no held lease survives.
\<close>

theorem sweep_frees_every_lease:
  assumes "sane_timings k" and "\<forall>(op, now) \<in> set evs. now \<le> T \<and> (\<forall>k. op = OpTimings k \<longrightarrow> sane_timings k)"
  shows "holder_of (snd (sweep (T + MAX_LEASE_TTL) (run evs (new_table me k)))) p = None"
proof -
  have "leases_bounded T (run evs (new_table me k))"
    by (rule run_bounded) (use assms in \<open>auto simp: leases_bounded_def new_table_def state_of_def\<close>)
  then show ?thesis
    by (auto simp: holder_of_def sweep_state expired_def dest: leases_boundedD split: option.splits lock_state.splits)
qed

theorem sweep_frees_every_lease_witness:
  "holder_of (snd (sweep (5 + MAX_LEASE_TTL)
     (run [(OpRequest ''f'' ''b'' 1 18446744073709551615, 5)] (new_table ''a'' default_timings)))) ''f'' = None"
  by (rule sweep_frees_every_lease) (auto simp: sane_timings_def default_timings_def lease_consts)

section \<open>The tracked-lease cap\<close>

lemma length_put: "lt_wf t \<Longrightarrow> length (tb_states (put_state p s t)) =
    (if bt_contains (tb_states t) p then length (tb_states t) else Suc (length (tb_states t)))"
  by (simp add: put_state_def lt_wf_def bt_length_insert)

lemma length_drop: "length (tb_states (drop_state p t)) \<le> length (tb_states t)"
  by (simp add: drop_state_def bt_length_remove)

lemma length_fold_drop: "length (tb_states (fold drop_state ps t)) \<le> length (tb_states t)"
  by (induction ps arbitrary: t) (auto intro: order.trans [OF _ length_drop])

lemma length_sweep: "length (tb_states (snd (sweep_loop now ps t out))) \<le> length (tb_states t)"
  by (induction now ps t out rule: sweep_loop.induct)
    (auto intro: order.trans [OF _ length_drop] split: option.splits lock_state.splits)

lemma length_prune: "length (tb_states (prune_expired p now t)) \<le> length (tb_states t)"
  by (auto simp: prune_expired_def length_drop split: option.splits lock_state.splits)

lemma prune_cap [simp]: "tb_max_leases (prune_expired p now t) = tb_max_leases t"
  by (auto simp: prune_expired_def split: option.splits lock_state.splits)

lemma contains_iff_state: "bt_contains (tb_states t) p \<longleftrightarrow> state_of t p \<noteq> None"
  by (simp add: bt_contains_def state_of_def)

lemma length_put_existing:
  "lt_wf t \<Longrightarrow> state_of t p = Some s' \<Longrightarrow> length (tb_states (put_state p s t)) = length (tb_states t)"
  by (simp add: length_put contains_iff_state)

lemma length_put_room:
  assumes "lt_wf t" and "\<not> at_capacity_for_new t p" and "length (tb_states t) \<le> n" and "tb_max_leases t \<le> n"
  shows "length (tb_states (put_state p s t)) \<le> n"
  using assms by (auto simp: length_put at_capacity_for_new_def)

lemma apply_op_length:
  assumes "lt_wf t" and "tb_max_leases t \<le> n" and "length (tb_states t) \<le> n" and "\<And>p l v. op \<noteq> OpStart p l v"
  shows "length (tb_states (apply_op op now t)) \<le> n"
proof (cases op)
  case (OpPeerDown i)
  then show ?thesis
    using order.trans [OF length_fold_drop assms(3)] by (simp add: on_peer_down_def Let_def)
next
  case OpSweep
  then show ?thesis using order.trans [OF length_sweep assms(3)] by (simp add: sweep_def)
next
  case (OpRequest p h l ttl)
  have "length (tb_states (prune_expired p now t)) \<le> n"
    using length_prune order.trans assms(3) by blast
  then show ?thesis
    using assms OpRequest
    by (auto simp: on_remote_request_def Let_def intro!: length_put_room split: option.splits lock_state.splits)
next
  case (OpObserve p h l ms)
  have "length (tb_states (prune_expired p now t)) \<le> n"
    using length_prune order.trans assms(3) by blast
  then show ?thesis
    using assms OpObserve
    by (auto simp: observe_lease_def Let_def intro!: length_put_room split: option.splits lock_state.splits)
qed (use assms in \<open>auto simp: on_grant_def on_deny_def on_release_def on_renew_def renew_own_def set_timings_def Let_def
    length_put_existing intro: order.trans [OF length_drop] split: option.splits lock_state.splits\<close>)

lemma apply_op_length_any:
  "lt_wf t \<Longrightarrow> length (tb_states (snd (start_request p l v now t))) \<le> Suc (length (tb_states t))"
  using length_prune [of p now t]
  by (auto simp: start_request_def Let_def length_put split: option.splits lock_state.splits)

definition starts :: "event list \<Rightarrow> nat" where
  "starts evs = length (filter (\<lambda>(op, _). case op of OpStart _ _ _ \<Rightarrow> True | _ \<Rightarrow> False) evs)"

lemma starts_simps [simp]:
  "starts [] = 0"
  "starts ((op, now) # evs) = (case op of OpStart _ _ _ \<Rightarrow> Suc (starts evs) | _ \<Rightarrow> starts evs)"
  by (simp_all add: starts_def split: lock_op.splits)

lemma run_length:
  assumes "lt_wf t" and "tb_max_leases t \<le> n" and "length (tb_states t) \<le> n"
  shows "length (tb_states (run evs t)) \<le> n + starts evs"
  using assms
proof (induction evs arbitrary: t n)
  case (Cons ev evs)
  obtain op now where ev: "ev = (op, now)" by fastforce
  let ?t = "apply_op op now t"
  have wf: "lt_wf ?t" by (rule lt_wf_apply_op [OF Cons.prems(1)])
  show ?case
  proof (cases "\<exists>p l v. op = OpStart p l v")
    case True
    then have "length (tb_states ?t) \<le> Suc n"
      using apply_op_length_any [OF Cons.prems(1)] Cons.prems(3) by (fastforce intro: order.trans)
    then show ?thesis using Cons.IH [OF wf, of "Suc n"] Cons.prems(2) True ev by auto
  next
    case False
    then have "length (tb_states ?t) \<le> n" by (intro apply_op_length Cons.prems) auto
    moreover have "starts (ev # evs) = starts evs" using False ev by (auto split: lock_op.splits)
    ultimately show ?thesis using Cons.IH [OF wf, of n] Cons.prems(2) ev by simp
  qed
qed simp

text \<open>
  What the cap bounds, and what it does not: under any sequence of operations the table tracks at most
  the cap plus one path per local request, so remote messages alone never take it past the cap; but a
  local request for a new path is not refused at capacity and grows the table beyond it, although the
  field is documented as the most distinct paths the table will ever track.
\<close>

theorem lease_cap_bounds_remote_growth:
  "length (tb_states (run evs (new_table me k))) \<le> MAX_TRACKED_LEASES + starts evs
   \<and> (lt_wf t \<and> state_of t p = None \<and> length (tb_states t) = tb_max_leases t \<longrightarrow>
        fst (start_request p l v now t) = Ok ()
        \<and> length (tb_states (snd (start_request p l v now t))) = Suc (tb_max_leases t))"
proof
  show "length (tb_states (run evs (new_table me k))) \<le> MAX_TRACKED_LEASES + starts evs"
    by (rule run_length) (auto simp: new_table_def lt_wf_def)
qed (auto simp: start_request_def prune_expired_def Let_def length_put contains_iff_state)

definition full_table :: lock_table where
  "full_table = (new_table ''a'' default_timings)\<lparr>tb_max_leases := 0\<rparr>"

theorem lease_cap_bounds_remote_growth_witness:
  "fst (start_request ''f'' 1 {''b''} 0 full_table) = Ok ()
   \<and> length (tb_states (snd (start_request ''f'' 1 {''b''} 0 full_table))) = Suc (tb_max_leases full_table)"
  using lease_cap_bounds_remote_growth [of "[]" "''a''" default_timings full_table "''f''" 1 "{''b''}" 0]
  by (simp add: full_table_def new_table_def lt_wf_def state_of_def)

section \<open>Gossip converges\<close>

type_synonym claim = "node_id \<times> u64 \<times> u64"

definition observe_claims :: "relpath \<Rightarrow> instant \<Rightarrow> claim list \<Rightarrow> lock_table \<Rightarrow> lock_table" where
  "observe_claims p now cs t = fold (\<lambda>(h, l, ms). observe_lease p h l ms now) cs t"

definition claim_key :: "claim \<Rightarrow> u64 \<times> node_id" where
  "claim_key c = (fst (snd c), fst c)"

definition lease_key :: "lock_table \<Rightarrow> relpath \<Rightarrow> (u64 \<times> node_id) option" where
  "lease_key t p = (case state_of t p of Some (Held h l _ _) \<Rightarrow> Some (l, h) | _ \<Rightarrow> None)"

definition live_at :: "relpath \<Rightarrow> instant \<Rightarrow> lock_table \<Rightarrow> bool" where
  "live_at p now t \<longleftrightarrow> (\<exists>h l e since. state_of t p = Some (Held h l e since) \<and> now < e)"

lemma observe_live:
  assumes "live_at p now t" and "lease_key t p = Some (l0, h0)" and "h \<noteq> h0"
  shows "live_at p now (observe_lease p h l ms now t)
    \<and> lease_key (observe_lease p h l ms now t) p = Some (min (l0, h0) (l, h))"
proof -
  have "min (l0, h0) (l, h) = (if (l, h) < (l0, h0) then (l, h) else (l0, h0))"
    by (metis min.strict_order_iff min.commute min_def not_less)
  then show ?thesis
    using assms
    by (auto simp: live_at_def lease_key_def observe_lease_def prune_expired_def at_capacity_for_new_def
        bt_contains_def state_of_def [symmetric] Let_def simp del: less_prod_simp)
qed

lemma observe_claims_min:
  assumes "live_at p now t" and "lease_key t p = Some k0" and "distinct (map fst cs)" and "snd k0 \<notin> fst ` set cs"
  shows "lease_key (observe_claims p now cs t) p = Some (Min (insert k0 (claim_key ` set cs)))"
  using assms
proof (induction cs arbitrary: t k0)
  case (Cons c cs)
  obtain h l ms where c: "c = (h, l, ms)" by (cases c) auto
  obtain l0 h0 where k0: "k0 = (l0, h0)" by fastforce
  let ?t = "observe_lease p h l ms now t"
  have step: "live_at p now ?t" "lease_key ?t p = Some (min k0 (l, h))"
    using observe_live [of p now t l0 h0 h l ms] Cons.prems c k0 by auto
  have "snd (min k0 (l, h)) \<notin> fst ` set cs"
    using Cons.prems c by (auto simp: min_def)
  then have "lease_key (observe_claims p now cs ?t) p = Some (Min (insert (min k0 (l, h)) (claim_key ` set cs)))"
    using Cons.IH [OF step] Cons.prems(3) by simp
  moreover have "Min (insert (min k0 (l, h)) (claim_key ` set cs)) = Min (insert k0 (insert (l, h) (claim_key ` set cs)))"
    by (cases "cs = []") (simp_all add: Min_insert min.assoc)
  ultimately show ?case by (simp add: c observe_claims_def claim_key_def)
qed (simp add: observe_claims_def)

lemma observe_claims_free:
  assumes "state_of t p = None" and "length (tb_states t) < tb_max_leases t"
    and "cs \<noteq> []" and "distinct (map fst cs)"
  shows "lease_key (observe_claims p now cs t) p = Some (Min (claim_key ` set cs))"
proof -
  obtain h l ms rest where cs: "cs = (h, l, ms) # rest" using assms(3) by (cases cs) auto
  let ?t = "observe_lease p h l ms now t"
  have "live_at p now ?t" "lease_key ?t p = Some (l, h)"
    using assms(1,2) by (auto simp: live_at_def lease_key_def observe_lease_def prune_expired_def
        at_capacity_for_new_def Let_def)
  from observe_claims_min [OF this, of rest] assms(4) show ?thesis
    by (auto simp: cs observe_claims_def claim_key_def)
qed

text \<open>
  Gossiped leases converge: two nodes that learn the same conflicting claims on a free path (one claim
  per holder) in any two orders, at any two times and from any two peers, record the same holder and
  lamport, the least (lamport, id) claimed.
\<close>

theorem observed_leases_converge:
  assumes "mset cs = mset cs'" and "cs \<noteq> []" and "distinct (map fst cs)"
    and "state_of t p = None" and "length (tb_states t) < tb_max_leases t"
    and "state_of t' p = None" and "length (tb_states t') < tb_max_leases t'"
  shows "lease_key (observe_claims p now cs t) p = lease_key (observe_claims p now' cs' t') p
    \<and> lease_key (observe_claims p now cs t) p = Some (Min (claim_key ` set cs))"
proof -
  have "cs' \<noteq> []" using assms(1,2) by (metis mset_zero_iff)
  moreover have "set cs' = set cs" using assms(1) by (metis set_mset_mset)
  moreover have "distinct (map fst cs')"
    using assms(1,3) by (metis mset_eq_imp_distinct_iff mset_map)
  ultimately show ?thesis
    using observe_claims_free [OF assms(4,5,2,3)] observe_claims_free [OF assms(6,7), of cs'] by simp
qed

theorem observed_leases_converge_witness:
  "lease_key (observe_claims ''f'' 0 [(''c'', 2, 0), (''b'', 2, 9)] (new_table ''a'' default_timings)) ''f'' =
   lease_key (observe_claims ''f'' 7 [(''b'', 2, 9), (''c'', 2, 0)] (new_table ''d'' default_timings)) ''f''"
  using observed_leases_converge [of "[(''c'', 2, 0), (''b'', 2, 9)]" "[(''b'', 2, 9), (''c'', 2, 0)]"
      "new_table ''a'' default_timings" "''f''" "new_table ''d'' default_timings" 0 7]
  by (simp add: new_table_def state_of_def MAX_TRACKED_LEASES_def)

section \<open>The sweep\<close>

fun lease_lapsed :: "instant \<Rightarrow> lock_state option \<Rightarrow> bool" where
  "lease_lapsed now (Some (Held _ _ e _)) \<longleftrightarrow> e \<le> now"
| "lease_lapsed now _ \<longleftrightarrow> False"

fun request_lapsed :: "instant \<Rightarrow> lock_state option \<Rightarrow> bool" where
  "request_lapsed now (Some (PendingLocal _ _ _ d)) \<longleftrightarrow> d \<le> now"
| "request_lapsed now _ \<longleftrightarrow> False"

lemma filter_after_drop:
  "p \<notin> set ps \<Longrightarrow> filter (\<lambda>q. P (state_of (drop_state p t) q)) ps = filter (\<lambda>q. P (state_of t q)) ps"
  by (rule filter_cong) auto

lemma sweep_loop_out:
  assumes "distinct ps"
  shows "sw_timed_out (fst (sweep_loop now ps t out)) =
      sw_timed_out out @ filter (\<lambda>p. request_lapsed now (state_of t p)) ps
    \<and> map fst (sw_expired (fst (sweep_loop now ps t out))) =
      map fst (sw_expired out) @ filter (\<lambda>p. lease_lapsed now (state_of t p)) ps"
  using assms
proof (induction now ps t out rule: sweep_loop.induct)
  case (2 now p ps t out)
  show ?case
  proof (cases "state_of t p")
    case (Some s)
    with 2 show ?thesis
      by (cases s) (simp_all add: filter_after_drop del: state_of_drop)
  qed (use 2 in simp)
qed simp

text \<open>
  The sweep is exact: it drops exactly the held leases whose expiry and the pending requests whose
  deadline has come, keeps every other entry unchanged, and reports the dropped paths in key order,
  the expired ones and the timed-out ones separately.
\<close>

theorem sweep_exact:
  assumes "lt_wf t"
  shows "state_of (snd (sweep now t)) p =
      (case state_of t p of None \<Rightarrow> None | Some s \<Rightarrow> if expired now s then None else Some s)
    \<and> sw_timed_out (fst (sweep now t)) =
        filter (\<lambda>p. request_lapsed now (state_of t p)) (bt_keys (tb_states t))
    \<and> map fst (sw_expired (fst (sweep now t))) =
        filter (\<lambda>p. lease_lapsed now (state_of t p)) (bt_keys (tb_states t))"
proof -
  have "distinct (bt_keys (tb_states t))"
    using assms bt_wf_distinct by (auto simp: lt_wf_def bt_keys_def)
  from sweep_loop_out [OF this] show ?thesis
    using sweep_state [of now t p] by (simp add: sweep_def)
qed

theorem sweep_exact_witness:
  "state_of (snd (sweep 9 (new_table ''a'' default_timings))) ''f'' = None
   \<and> sw_timed_out (fst (sweep 9 (new_table ''a'' default_timings))) = []"
  using sweep_exact [of "new_table ''a'' default_timings" 9 "''f''"]
  by (simp add: lt_wf_def new_table_def state_of_def bt_keys_def)

end
