(* ===== verification/LockNet.thy ===== *)
theory LockNet
  imports LockProps
begin

text \<open>
  The lease protocol between daemons.  A network state holds one lock table and one lamport clock per
  node and a FIFO queue per ordered pair of nodes (the control connections); an action is one turn of
  one daemon: a local lock request (\<^verbatim>\<open>handle_lock\<close>), the delivery of the next control message
  (\<^verbatim>\<open>on_ctl\<close>), an acquire timeout (\<^verbatim>\<open>on_acquire_timeout\<close>), a release
  (\<^verbatim>\<open>release_own_lease\<close>, \<^verbatim>\<open>finish_unlock\<close>) or a renewal (\<^verbatim>\<open>on_renew_tick\<close>), all of
  \<^verbatim>\<open>src/daemon.rs\<close>, over the table operations of theory \<open>Locks\<close>.  Membership is fixed and all links
  are up: connects, disconnects and index gossip are not actions here.  An action is enabled only while
  no lease it looks at has expired, so the theorems are about the votes and not about clock drift.
\<close>

record net =
  nt_tab :: "node_id \<Rightarrow> lock_table"
  nt_lam :: "node_id \<Rightarrow> u64"
  nt_chan :: "node_id \<Rightarrow> node_id \<Rightarrow> msg list"

definition init_net :: "lock_timings \<Rightarrow> net" where
  "init_net k = \<lparr>nt_tab = (\<lambda>i. new_table i k), nt_lam = (\<lambda>_. 0), nt_chan = (\<lambda>_ _. [])\<rparr>"

definition set_tab :: "node_id \<Rightarrow> lock_table \<Rightarrow> net \<Rightarrow> net" where
  "set_tab i t n = n\<lparr>nt_tab := (nt_tab n)(i := t)\<rparr>"

definition set_lam :: "node_id \<Rightarrow> u64 \<Rightarrow> net \<Rightarrow> net" where
  "set_lam i l n = n\<lparr>nt_lam := (nt_lam n)(i := l)\<rparr>"

definition send :: "node_id \<Rightarrow> node_id \<Rightarrow> msg \<Rightarrow> net \<Rightarrow> net" where
  "send i j m n = n\<lparr>nt_chan := (\<lambda>s d. if s = i \<and> d = j then nt_chan n s d @ [m] else nt_chan n s d)\<rparr>"

definition broadcast :: "node_id set \<Rightarrow> node_id \<Rightarrow> msg \<Rightarrow> net \<Rightarrow> net" where
  "broadcast N i m n =
     n\<lparr>nt_chan := (\<lambda>s d. if s = i \<and> d \<in> N - {i} then nt_chan n s d @ [m] else nt_chan n s d)\<rparr>"

definition pop :: "node_id \<Rightarrow> node_id \<Rightarrow> net \<Rightarrow> net" where
  "pop j i n = n\<lparr>nt_chan := (\<lambda>s d. if s = j \<and> d = i then tl (nt_chan n s d) else nt_chan n s d)\<rparr>"

section \<open>Turns of one daemon\<close>

definition ttl_ms_of :: "lock_table \<Rightarrow> u64" where
  "ttl_ms_of t = of_nat (as_millis (lt_ttl (tb_timings t)))"

definition lock_turn :: "node_id set \<Rightarrow> node_id \<Rightarrow> relpath \<Rightarrow> instant \<Rightarrow> net \<Rightarrow> net" where
  "lock_turn N i p now n =
     (let t = nt_tab n i in
      if holder_of t p \<noteq> None \<or> pending_lamport t p \<noteq> None then n
      else let lamport = nt_lam n i + 1; n1 = set_lam i lamport n in
        case start_request p lamport (N - {i}) now t of
          (Inl _, t') \<Rightarrow> set_tab i t' n1
        | (Inr _, t') \<Rightarrow> broadcast N i (LockReq p lamport (ttl_ms_of t)) (set_tab i t' n1))"

text \<open>The lock messages of \<open>on_ctl\<close>, for a sender whose role may lock.\<close>

fun recv :: "node_id set \<Rightarrow> node_id \<Rightarrow> node_id \<Rightarrow> instant \<Rightarrow> msg \<Rightarrow> net \<Rightarrow> net" where
  "recv N i from now (LockReq p lamport ttl_ms) n =
     (let n1 = set_lam i (max (nt_lam n i) lamport) n;
          (d, t') = on_remote_request p from lamport ttl_ms now (nt_tab n i);
          n2 = set_tab i t' n1
      in case d of
           Grant \<Rightarrow> send i from (LockGrant p) n2
         | GrantAndAbortMine \<Rightarrow> send i from (LockGrant p) (broadcast N i (LockRelease p) n2)
         | Deny reason \<Rightarrow> send i from (LockDeny p reason) n2)"
| "recv N i from now (LockGrant p) n = set_tab i (snd (on_grant p from now (nt_tab n i))) n"
| "recv N i from now (LockDeny p reason) n =
     (let (was, t') = on_deny p (nt_tab n i); n1 = set_tab i t' n
      in if was then broadcast N i (LockRelease p) n1 else n1)"
| "recv N i from now (LockRelease p) n = set_tab i (on_release p from (nt_tab n i)) n"
| "recv N i from now (LockRenew p lamport ttl_ms) n =
     set_tab i (on_renew p from ttl_ms now (nt_tab n i)) (set_lam i (max (nt_lam n i) lamport) n)"
| "recv N i from now _ n = n"

definition timeout_turn :: "node_id set \<Rightarrow> node_id \<Rightarrow> relpath \<Rightarrow> net \<Rightarrow> net" where
  "timeout_turn N i p n =
     (if pending_lamport (nt_tab n i) p = None then n
      else broadcast N i (LockRelease p) (set_tab i (snd (on_deny p (nt_tab n i))) n))"

definition release_turn :: "node_id set \<Rightarrow> node_id \<Rightarrow> relpath \<Rightarrow> net \<Rightarrow> net" where
  "release_turn N i p n =
     (if \<not> is_held_by_me (nt_tab n i) p then n
      else broadcast N i (LockFreed p) (broadcast N i (LockRelease p) (set_tab i (on_release p i (nt_tab n i)) n)))"

definition renew_turn :: "node_id set \<Rightarrow> node_id \<Rightarrow> relpath \<Rightarrow> instant \<Rightarrow> net \<Rightarrow> net" where
  "renew_turn N i p now n =
     (if \<not> is_held_by_me (nt_tab n i) p then n
      else broadcast N i (LockRenew p (nt_lam n i) (ttl_ms_of (nt_tab n i)))
             (set_tab i (renew_own p now (nt_tab n i)) n))"

section \<open>Actions and reachable networks\<close>

datatype action =
    ALock node_id relpath instant
  | ADeliver node_id node_id instant
  | ATimeout node_id relpath
  | ARelease node_id relpath
  | ARenew node_id relpath instant

definition unexpired :: "instant \<Rightarrow> lock_table \<Rightarrow> bool" where
  "unexpired now t \<longleftrightarrow> list_all (\<lambda>(p, s). case s of Held _ _ e _ \<Rightarrow> now < e | _ \<Rightarrow> True) (tb_states t)"

fun act :: "node_id set \<Rightarrow> action \<Rightarrow> net \<Rightarrow> net option" where
  "act N (ALock i p now) n = (if i \<in> N \<and> unexpired now (nt_tab n i) then Some (lock_turn N i p now n) else None)"
| "act N (ADeliver j i now) n =
     (if i \<in> N \<and> j \<in> N \<and> i \<noteq> j \<and> unexpired now (nt_tab n i)
      then (case nt_chan n j i of [] \<Rightarrow> None | m # _ \<Rightarrow> Some (recv N i j now m (pop j i n)))
      else None)"
| "act N (ATimeout i p) n = (if i \<in> N then Some (timeout_turn N i p n) else None)"
| "act N (ARelease i p) n = (if i \<in> N then Some (release_turn N i p n) else None)"
| "act N (ARenew i p now) n = (if i \<in> N \<and> unexpired now (nt_tab n i) then Some (renew_turn N i p now n) else None)"

fun is_req :: "relpath \<Rightarrow> msg \<Rightarrow> bool" where
  "is_req p (LockReq q _ _) \<longleftrightarrow> q = p"
| "is_req p _ \<longleftrightarrow> False"

text \<open>
  The discipline under which the votes are sound: a node requests a path only when none of its
  earlier requests for it is still on the way to a voter, and no earlier grant still on the way back.
\<close>

definition drained :: "node_id set \<Rightarrow> action \<Rightarrow> net \<Rightarrow> bool" where
  "drained N a n \<longleftrightarrow>
     (case a of
        ALock i p _ \<Rightarrow> (\<forall>j \<in> N - {i}. (\<forall>m \<in> set (nt_chan n i j). \<not> is_req p m) \<and> LockGrant p \<notin> set (nt_chan n j i))
      | _ \<Rightarrow> True)"

inductive reach :: "node_id set \<Rightarrow> lock_timings \<Rightarrow> (action \<Rightarrow> net \<Rightarrow> bool) \<Rightarrow> net \<Rightarrow> bool" for N k G where
  init: "reach N k G (init_net k)"
| turn: "reach N k G n \<Longrightarrow> G a n \<Longrightarrow> act N a n = Some n' \<Longrightarrow> reach N k G n'"

fun exec :: "node_id set \<Rightarrow> action list \<Rightarrow> net \<Rightarrow> net option" where
  "exec N [] n = Some n"
| "exec N (a # as) n = (case act N a n of None \<Rightarrow> None | Some n' \<Rightarrow> exec N as n')"

lemma exec_reach: "exec N as n = Some n' \<Longrightarrow> reach N k (\<lambda>_ _. True) n \<Longrightarrow> reach N k (\<lambda>_ _. True) n'"
  by (induction N as n rule: exec.induct) (auto intro: reach.turn split: option.splits)

lemma net_simps [simp]:
  "nt_tab (set_tab i t n) = (nt_tab n)(i := t)" "nt_chan (set_tab i t n) = nt_chan n"
  "nt_tab (set_lam i l n) = nt_tab n" "nt_chan (set_lam i l n) = nt_chan n"
  "nt_tab (send i j m n) = nt_tab n" "nt_tab (broadcast N i m n) = nt_tab n" "nt_tab (pop j i n) = nt_tab n"
  "nt_chan (send i j m n) s d = (if s = i \<and> d = j then nt_chan n s d @ [m] else nt_chan n s d)"
  "nt_chan (broadcast N i m n) s d = (if s = i \<and> d \<in> N - {i} then nt_chan n s d @ [m] else nt_chan n s d)"
  "nt_chan (pop j i n) s d = (if s = j \<and> d = i then tl (nt_chan n s d) else nt_chan n s d)"
  "nt_lam (set_tab i t n) = nt_lam n" "nt_lam (set_lam i l n) = (nt_lam n)(i := l)"
  "nt_lam (send i j m n) = nt_lam n" "nt_lam (broadcast N i m n) = nt_lam n" "nt_lam (pop j i n) = nt_lam n"
  by (simp_all add: set_tab_def set_lam_def send_def broadcast_def pop_def)

section \<open>A double holder\<close>

definition double_trace :: "action list" where
  "double_trace =
     [ALock ''a'' ''f'' 0, ALock ''b'' ''f'' 0, ATimeout ''a'' ''f'', ADeliver ''b'' ''a'' 0,
      ADeliver ''a'' ''b'' 0, ADeliver ''a'' ''b'' 0, ALock ''b'' ''f'' 0, ADeliver ''a'' ''b'' 0,
      ADeliver ''b'' ''a'' 0, ALock ''a'' ''f'' 0, ADeliver ''b'' ''a'' 0]"

definition both_hold :: "net option \<Rightarrow> bool" where
  "both_hold r \<longleftrightarrow> is_some_and (\<lambda>n. is_held_by_me (nt_tab n ''a'') ''f'' \<and> is_held_by_me (nt_tab n ''b'') ''f'') r"

lemmas net_eval = lock_turn_def timeout_turn_def release_turn_def init_net_def new_table_def default_timings_def
  holder_of_def pending_lamport_def is_held_by_me_def unexpired_def ttl_ms_of_def
  lock_ops state_of_def put_state_def drop_state_def bt_get_def bt_remove_def at_capacity_for_new_def bt_contains_def
  ttl_from_ms_def clamp_def from_millis_def as_millis_def lease_consts

text \<open>
  The votes are not tied to a request: two nodes on reliable FIFO links, starting from empty tables and
  with no lease expiring, can both come to hold the lease of the same path.  A grant answers a path and
  not a particular request, so a grant to an abandoned request that is still on the way completes the
  next request, although its voter has meanwhile been released from it.
\<close>

theorem stale_grants_give_two_holders:
  "\<exists>n. reach {''a'', ''b''} default_timings (\<lambda>_ _. True) n
     \<and> is_held_by_me (nt_tab n ''a'') ''f'' \<and> is_held_by_me (nt_tab n ''b'') ''f''"
proof -
  have "both_hold (exec {''a'', ''b''} double_trace (init_net default_timings))"
    by (simp add: double_trace_def both_hold_def net_eval, auto)
  then obtain n where "exec {''a'', ''b''} double_trace (init_net default_timings) = Some n"
    and "is_held_by_me (nt_tab n ''a'') ''f'' \<and> is_held_by_me (nt_tab n ''b'') ''f''"
    by (auto simp: both_hold_def is_some_and_iff)
  then show ?thesis using exec_reach reach.init by blast
qed

section \<open>One turn, seen from one path\<close>

definition interested :: "node_id \<Rightarrow> lock_state option \<Rightarrow> bool" where
  "interested i s \<longleftrightarrow> (case s of Some (PendingLocal _ _ _ _) \<Rightarrow> True | Some (Held h _ _ _) \<Rightarrow> h = i | None \<Rightarrow> False)"

fun ctl :: "relpath \<Rightarrow> msg \<Rightarrow> bool" where
  "ctl p (LockReq q _ _) \<longleftrightarrow> q = p"
| "ctl p (LockRelease q) \<longleftrightarrow> q = p"
| "ctl p _ \<longleftrightarrow> False"

definition link :: "net \<Rightarrow> relpath \<Rightarrow> node_id \<Rightarrow> node_id \<Rightarrow> msg list" where
  "link n p i k = filter (ctl p) (nt_chan n i k)"

definition held_by :: "lock_state option \<Rightarrow> node_id option" where
  "held_by s = (case s of Some (Held h _ _ _) \<Rightarrow> Some h | _ \<Rightarrow> None)"

lemma holder_of_held_by: "holder_of t p = held_by (state_of t p)"
  by (simp add: holder_of_def held_by_def)

lemma held_by_simps [simp]:
  "held_by None = None" "held_by (Some (Held h l e s)) = Some h" "held_by (Some (PendingLocal l v g d)) = None"
  by (simp_all add: held_by_def)

lemma interested_simps [simp]:
  "\<not> interested i None" "interested i (Some (Held h l e s)) \<longleftrightarrow> h = i" "interested i (Some (PendingLocal l v g d))"
  by (simp_all add: interested_def)

lemma unexpiredD: "unexpired now t \<Longrightarrow> state_of t p = Some (Held h l e s) \<Longrightarrow> now < e"
  by (force simp: unexpired_def list_all_iff state_of_def bt_get_def dest: map_of_SomeD)

lemma unexpired_prune: "unexpired now t \<Longrightarrow> prune_expired p now t = t"
  by (auto simp: prune_expired_def dest!: unexpiredD split: option.splits lock_state.splits)

lemma recv_frame:
  "x \<noteq> i \<Longrightarrow> nt_tab (recv N i j now m n) x = nt_tab n x"
  "x \<noteq> i \<Longrightarrow> nt_chan (recv N i j now m n) x d = nt_chan n x d"
  by (cases m; auto simp: Let_def split: prod.splits decision.splits)+

text \<open>How the requester's own state and its outgoing requests and releases move together.\<close>

inductive side :: "node_id \<Rightarrow> node_id set \<Rightarrow> relpath \<Rightarrow> node_id \<Rightarrow> msg option \<Rightarrow> lock_state option \<Rightarrow> lock_state option \<Rightarrow> msg list \<Rightarrow> bool"
  for i N p j m where
  same: "side i N p j m s s []"
| idle: "\<not> interested i s \<Longrightarrow> \<not> interested i s' \<Longrightarrow> side i N p j m s s' []"
| vote: "m = Some (LockGrant p) \<Longrightarrow> side i N p j m (Some (PendingLocal l v g d)) (Some (PendingLocal l v (insert j g) d)) []"
| won: "m = Some (LockGrant p) \<Longrightarrow> v \<subseteq> insert j g \<Longrightarrow> side i N p j m (Some (PendingLocal l v g d)) (Some (Held i l e since)) []"
| quit: "interested i s \<Longrightarrow> \<not> interested i s' \<Longrightarrow> side i N p j m s s' [LockRelease p]"
| keep: "side i N p j m (Some (Held i l e since)) (Some (Held i l' e' since')) []"
| ask: "m = None \<Longrightarrow> \<not> interested i s \<Longrightarrow> is_req p r \<Longrightarrow> side i N p j m s (Some (PendingLocal l (N - {i}) {} d)) [r]"

lemma recv_side:
  assumes "unexpired now (nt_tab n i)" and "tb_me (nt_tab n i) = i" and "j \<noteq> i" and "k \<in> N" and "k \<noteq> i"
  shows "\<exists>out. side i N p j (Some m) (state_of (nt_tab n i) p) (state_of (nt_tab (recv N i j now m n) i) p) out
    \<and> link (recv N i j now m n) p i k = link n p i k @ out"
proof (cases m)
  case (LockReq q l ms)
  then show ?thesis
    using assms unfolding link_def
    by (cases "q = p")
      (auto 4 4 simp: on_remote_request_def unexpired_prune Let_def intro: side.intros
        split: option.splits lock_state.splits if_splits)
next
  case (LockGrant q)
  then show ?thesis
    using assms unfolding link_def
    by (cases "q = p") (auto 4 4 simp: on_grant_def Let_def intro: side.intros split: option.splits lock_state.splits)
next
  case (LockDeny q r)
  then show ?thesis
    using assms unfolding link_def
    by (cases "q = p") (auto 4 4 simp: on_deny_def Let_def intro: side.intros split: option.splits lock_state.splits)
next
  case (LockRelease q)
  then show ?thesis
    using assms unfolding link_def
    by (cases "q = p") (auto 4 4 simp: on_release_def Let_def intro: side.intros split: option.splits lock_state.splits)
next
  case (LockRenew q l ms)
  then show ?thesis
    using assms unfolding link_def
    by (cases "q = p") (auto 4 4 simp: on_renew_def Let_def intro: side.intros split: option.splits lock_state.splits)
qed (auto simp: link_def intro: side.intros)

text \<open>How a voter's record of the holder and its grants move together.\<close>

lemma recv_voter:
  assumes "unexpired now (nt_tab n k)" and "tb_me (nt_tab n k) = k" and "i \<noteq> k" and "j \<noteq> k"
  shows "holder_of (nt_tab n k) p = Some i \<Longrightarrow> \<not> (j = i \<and> m = LockRelease p)
      \<Longrightarrow> holder_of (nt_tab (recv N k j now m n) k) p = Some i"
    and "LockGrant p \<in> set (nt_chan (recv N k j now m n) k i) \<Longrightarrow> LockGrant p \<notin> set (nt_chan n k i)
      \<Longrightarrow> j = i \<and> is_req p m \<and> holder_of (nt_tab (recv N k j now m n) k) p = Some i"
  using assms
  by (cases m; auto simp: holder_of_def on_remote_request_def on_grant_def on_deny_def on_release_def on_renew_def
      unexpired_prune Let_def at_capacity_for_new_def bt_contains_def state_of_def [symmetric]
      split: option.splits lock_state.splits if_splits)+

lemma local_turns_frame:
  "x \<noteq> i \<Longrightarrow> nt_tab (lock_turn N i p now n) x = nt_tab n x"
  "x \<noteq> i \<Longrightarrow> nt_chan (lock_turn N i p now n) x d = nt_chan n x d"
  "x \<noteq> i \<Longrightarrow> nt_tab (timeout_turn N i p n) x = nt_tab n x"
  "x \<noteq> i \<Longrightarrow> nt_chan (timeout_turn N i p n) x d = nt_chan n x d"
  "x \<noteq> i \<Longrightarrow> nt_tab (release_turn N i p n) x = nt_tab n x"
  "x \<noteq> i \<Longrightarrow> nt_chan (release_turn N i p n) x d = nt_chan n x d"
  "x \<noteq> i \<Longrightarrow> nt_tab (renew_turn N i p now n) x = nt_tab n x"
  "x \<noteq> i \<Longrightarrow> nt_chan (renew_turn N i p now n) x d = nt_chan n x d"
  by (auto simp: lock_turn_def timeout_turn_def release_turn_def renew_turn_def Let_def split: prod.splits sum.splits)

lemma on_deny_fields [simp]: "tb_me (snd (on_deny p t)) = tb_me t"
  by (auto simp: on_deny_def split: option.splits lock_state.splits)

fun actor :: "action \<Rightarrow> node_id" where
  "actor (ALock i _ _) = i" | "actor (ADeliver _ i _) = i" | "actor (ATimeout i _) = i"
| "actor (ARelease i _) = i" | "actor (ARenew i _ _) = i"

fun is_deliver :: "action \<Rightarrow> bool" where
  "is_deliver (ADeliver _ _ _) \<longleftrightarrow> True"
| "is_deliver _ \<longleftrightarrow> False"

lemmas turn_defs = lock_turn_def timeout_turn_def release_turn_def renew_turn_def

lemma local_voter:
  assumes "act N a n = Some n'" and "actor a = k" and "\<not> is_deliver a"
    and "tb_me (nt_tab n k) = k" and "i \<noteq> k"
  shows "holder_of (nt_tab n k) p = Some i \<Longrightarrow> holder_of (nt_tab n' k) p = Some i"
    and "LockGrant p \<in> set (nt_chan n' k i) \<longleftrightarrow> LockGrant p \<in> set (nt_chan n k i)"
  using assms
  by (cases a; auto simp: turn_defs is_held_by_me_iff holder_of_def pending_lamport_def start_request_def unexpired_prune
      on_deny_def on_release_def renew_own_def Let_def split: option.splits lock_state.splits if_splits)+

lemma local_side:
  assumes "act N a n = Some n'" and "actor a = i" and "\<not> is_deliver a"
    and "tb_me (nt_tab n i) = i" and "k \<in> N" and "k \<noteq> i"
  shows "\<exists>out. side i N p i None (state_of (nt_tab n i) p) (state_of (nt_tab n' i) p) out
    \<and> link n' p i k = link n p i k @ out"
proof (cases a)
  case (ALock x q now)
  then show ?thesis
    using assms unfolding link_def
    by (cases "q = p") (auto 4 4 simp: lock_turn_def holder_of_def pending_lamport_def start_request_def
        unexpired_prune Let_def intro: side.intros split: option.splits lock_state.splits if_splits)
next
  case (ATimeout x q)
  then show ?thesis
    using assms unfolding link_def
    by (cases "q = p") (auto 4 4 simp: timeout_turn_def pending_lamport_def on_deny_def
        intro: side.intros split: option.splits lock_state.splits if_splits)
next
  case (ARelease x q)
  then show ?thesis
    using assms unfolding link_def
    by (cases "q = p") (auto 4 4 simp: release_turn_def is_held_by_me_def on_release_def
        intro: side.intros split: option.splits lock_state.splits if_splits)
next
  case (ARenew x q now)
  then show ?thesis
    using assms unfolding link_def
    by (cases "q = p") (auto 4 4 simp: renew_turn_def is_held_by_me_def renew_own_def
        intro: side.intros split: option.splits lock_state.splits if_splits)
qed (use assms in simp)

section \<open>The invariant between a requester and a voter\<close>

text \<open>
  For node \<open>i\<close> with state \<open>s\<close>, the requests and releases \<open>c\<close> of \<open>i\<close> on the way to \<open>k\<close>, whether a grant of
  \<open>k\<close> is on its way to \<open>i\<close> (\<open>g\<close>), and the holder \<open>hk\<close> that \<open>k\<close> records: a pending request is either
  still on the way, or answered, and then a grant means that \<open>k\<close> records \<open>i\<close>; a holder is recorded by
  every other node; a node without request has released what it asked for.
\<close>

definition pair_ok :: "node_id set \<Rightarrow> relpath \<Rightarrow> node_id \<Rightarrow> node_id \<Rightarrow> lock_state option \<Rightarrow> msg list \<Rightarrow> bool
    \<Rightarrow> node_id option \<Rightarrow> bool" where
  "pair_ok N p i k s c g hk \<longleftrightarrow>
     (\<forall>l v gr d. s = Some (PendingLocal l v gr d) \<longrightarrow> v = N - {i}
        \<and> (c \<noteq> [] \<and> (\<forall>m \<in> set (butlast c). \<not> is_req p m) \<and> is_req p (last c) \<and> k \<notin> gr \<and> \<not> g
           \<or> c = [] \<and> (k \<in> gr \<or> g \<longrightarrow> hk = Some i)))
     \<and> (held_by s = Some i \<longrightarrow> c = [] \<and> hk = Some i)
     \<and> (\<not> interested i s \<longrightarrow> c = [] \<or> \<not> is_req p (last c))"

lemma pair_ok_voter:
  assumes "pair_ok N p i k s c g hk" and "hk = Some i \<longrightarrow> hk' = Some i" and "g' \<longrightarrow> g"
  shows "pair_ok N p i k s c g' hk'"
  using assms unfolding pair_ok_def by blast

lemma pair_ok_deliver:
  assumes "pair_ok N p i k s (m # c) g hk" and "m \<noteq> LockRelease p \<longrightarrow> hk = Some i \<longrightarrow> hk' = Some i"
    and "g' \<longrightarrow> \<not> g \<longrightarrow> is_req p m \<and> hk' = Some i"
  shows "pair_ok N p i k s c g' hk'"
  using assms unfolding pair_ok_def by (cases c) auto

lemma held_by_Some_iff: "held_by s = Some i \<longleftrightarrow> (\<exists>l e t. s = Some (Held i l e t))"
  by (auto simp: held_by_def split: option.splits lock_state.splits)

lemma interested_cases: "interested i s \<longleftrightarrow> held_by s = Some i \<or> (\<exists>l v g d. s = Some (PendingLocal l v g d))"
  by (auto simp: held_by_def interested_def split: option.splits lock_state.splits)

lemma pair_ok_side:
  assumes "side i N p j m s s' out" and "pair_ok N p i k s c g hk" and "k \<in> N" and "k \<noteq> i"
    and "g' \<longrightarrow> g" and "m = Some (LockGrant p) \<and> j = k \<longrightarrow> g"
    and "m = None \<and> (\<exists>r \<in> set out. is_req p r) \<longrightarrow> \<not> g \<and> (\<forall>m \<in> set c. \<not> is_req p m)"
  shows "pair_ok N p i k s' (c @ out) g' hk"
  using assms(1)
proof cases
  case same
  then show ?thesis using pair_ok_voter [OF assms(2), of hk g'] assms(5) by simp
next
  case idle
  then show ?thesis using assms(2) by (auto simp: pair_ok_def interested_cases)
next
  case (vote l v gr d)
  then show ?thesis using assms by (auto simp: pair_ok_def)
next
  case (won v gr l d e since)
  then show ?thesis using assms by (auto simp: pair_ok_def)
next
  case quit
  then show ?thesis by (auto simp: pair_ok_def interested_cases)
next
  case (keep l e since l' e' since')
  then show ?thesis using assms(2) by (auto simp: pair_ok_def)
next
  case (ask r l d)
  have "m = None \<and> (\<exists>r \<in> set out. is_req p r)" using ask by simp
  then have "\<not> g'" and "\<forall>m \<in> set c. \<not> is_req p m" using assms(5,7) by blast+
  with ask show ?thesis by (simp add: pair_ok_def butlast_append)
qed

definition net_inv :: "node_id set \<Rightarrow> net \<Rightarrow> bool" where
  "net_inv N n \<longleftrightarrow>
     (\<forall>i. tb_me (nt_tab n i) = i)
     \<and> (\<forall>p. \<forall>i \<in> N. \<forall>k \<in> N. i \<noteq> k \<longrightarrow>
          pair_ok N p i k (state_of (nt_tab n i) p) (link n p i k) (LockGrant p \<in> set (nt_chan n k i))
            (holder_of (nt_tab n k) p))"

lemma net_inv_init: "net_inv N (init_net k)"
  by (auto simp: net_inv_def init_net_def new_table_def state_of_def link_def pair_ok_def)

lemma recv_me: "tb_me (nt_tab (recv N i j now m n) x) = tb_me (nt_tab n x)"
  by (cases m; auto simp: lock_ops Let_def split: prod.splits decision.splits option.splits lock_state.splits if_splits)

lemma local_me: "act N a n = Some n' \<Longrightarrow> \<not> is_deliver a \<Longrightarrow> tb_me (nt_tab n' x) = tb_me (nt_tab n x)"
  by (cases a) (auto simp: turn_defs lock_ops Let_def split: option.splits lock_state.splits if_splits)

lemma local_frame:
  assumes "act N a n = Some n'" and "\<not> is_deliver a" and "x \<noteq> actor a"
  shows "nt_tab n' x = nt_tab n x" and "nt_chan n' x d = nt_chan n x d"
  using assms by (cases a; auto simp: local_turns_frame split: if_splits)+

lemma local_asks_drained:
  assumes "act N a n = Some n'" and "actor a = i" and "drained N a n" and "\<not> is_deliver a"
    and "k \<in> N" and "k \<noteq> i" and "link n' p i k = link n p i k @ out" and "r \<in> set out" and "is_req p r"
  shows "LockGrant p \<notin> set (nt_chan n k i) \<and> (\<forall>m \<in> set (link n p i k). \<not> is_req p m)"
proof -
  have "\<exists>now. a = ALock i p now"
    using assms by (cases a) (auto simp: turn_defs link_def Let_def split: if_splits prod.splits sum.splits)
  then show ?thesis
    using assms(3,5,6) by (auto simp: drained_def link_def)
qed

lemma net_inv_local:
  assumes inv: "net_inv N n" and a: "act N a n = Some n'" "drained N a n" "\<not> is_deliver a"
  shows "net_inv N n'"
  unfolding net_inv_def
proof (intro conjI allI ballI impI)
  show "tb_me (nt_tab n' i) = i" for i
    using inv local_me [OF a(1,3)] by (simp add: net_inv_def)
  fix p i k assume ik: "i \<in> N" "k \<in> N" "i \<noteq> k"
  let ?ok = "\<lambda>n. pair_ok N p i k (state_of (nt_tab n i) p) (link n p i k) (LockGrant p \<in> set (nt_chan n k i))
      (holder_of (nt_tab n k) p)"
  have ok: "?ok n" and me: "tb_me (nt_tab n i) = i" "tb_me (nt_tab n k) = k" using inv ik by (auto simp: net_inv_def)
  consider (req) "actor a = i" | (vote) "actor a = k" | (other) "actor a \<noteq> i" "actor a \<noteq> k" by blast
  then show "?ok n'"
  proof cases
    case req
    then obtain out where out: "side i N p i None (state_of (nt_tab n i) p) (state_of (nt_tab n' i) p) out"
        "link n' p i k = link n p i k @ out"
      using local_side [OF a(1) req a(3) me(1) ik(2)] ik by blast
    have same: "nt_tab n' k = nt_tab n k" "nt_chan n' k i = nt_chan n k i"
      using local_frame [OF a(1,3)] req ik by auto
    have "\<not> LockGrant p \<in> set (nt_chan n k i) \<and> (\<forall>m \<in> set (link n p i k). \<not> is_req p m)"
      if "\<exists>r \<in> set out. is_req p r"
      using that local_asks_drained [OF a(1) req a(2,3) ik(2) _ out(2)] ik by blast
    then show ?thesis
      unfolding same out(2) by (intro pair_ok_side [OF out(1) ok ik(2)]) (use ik in simp_all)
  next
    case vote
    have same: "nt_tab n' i = nt_tab n i" "link n' p i k = link n p i k"
      using local_frame [OF a(1,3)] vote ik by (auto simp: link_def)
    show ?thesis
      using pair_ok_voter [OF ok] local_voter [OF a(1) vote a(3) me(2) ik(3)] by (simp add: same)
  next
    case other
    then show ?thesis using ok local_frame [OF a(1,3)] by (simp add: link_def)
  qed
qed

lemma net_inv_deliver:
  assumes inv: "net_inv N n" and ji: "i \<in> N" "j \<in> N" "i \<noteq> j" and live: "unexpired now (nt_tab n i)"
    and ch: "nt_chan n j i = m # ms"
  shows "net_inv N (recv N i j now m (pop j i n))"
  unfolding net_inv_def
proof (intro conjI allI ballI impI)
  let ?n = "recv N i j now m (pop j i n)"
  show "tb_me (nt_tab ?n x) = x" for x
    using inv by (simp add: net_inv_def recv_me)
  fix p x k assume xk: "x \<in> N" "k \<in> N" "x \<noteq> k"
  let ?ok = "\<lambda>n. pair_ok N p x k (state_of (nt_tab n x) p) (link n p x k) (LockGrant p \<in> set (nt_chan n k x))
      (holder_of (nt_tab n k) p)"
  have ok: "?ok n" and me: "tb_me (nt_tab n i) = i" using inv xk by (auto simp: net_inv_def)
  consider (req) "x = i" | (vote) "k = i" | (other) "x \<noteq> i" "k \<noteq> i" by blast
  then show "?ok ?n"
  proof cases
    case req
    then obtain out where out: "side i N p j (Some m) (state_of (nt_tab n i) p) (state_of (nt_tab ?n i) p) out"
        "link ?n p i k = link n p i k @ out"
      using recv_side [of now "pop j i n" i j k N p m] live me ji xk by (auto simp: link_def)
    have "nt_tab ?n k = nt_tab n k" "nt_chan ?n k i = (if k = j then ms else nt_chan n k i)"
      using recv_frame [of k i] req xk ch by auto
    then show ?thesis
      using pair_ok_side [OF out(1), of k "link n p i k"] ok xk ch req by (auto simp: out(2))
  next
    case vote
    have same: "nt_tab ?n x = nt_tab n x" "nt_chan ?n x k = (if x = j then ms else nt_chan n x k)"
      using recv_frame [of x i] vote xk ch by auto
    have hold: "holder_of (nt_tab n i) p = Some x \<Longrightarrow> \<not> (j = x \<and> m = LockRelease p) \<Longrightarrow> holder_of (nt_tab ?n i) p = Some x"
      and gr: "LockGrant p \<in> set (nt_chan ?n i x) \<Longrightarrow> LockGrant p \<notin> set (nt_chan n i x)
        \<Longrightarrow> j = x \<and> is_req p m \<and> holder_of (nt_tab ?n i) p = Some x"
      using recv_voter [where now = now and n = "pop j i n" and k = i and i = x and j = j and N = N and m = m and p = p]
        live me ji xk vote by auto
    show ?thesis
    proof (cases "x = j \<and> ctl p m")
      case True
      then have "link n p x k = m # link ?n p x k" using ch vote same by (simp add: link_def)
      then have "pair_ok N p x k (state_of (nt_tab n x) p) (m # link ?n p x k) (LockGrant p \<in> set (nt_chan n k x))
          (holder_of (nt_tab n k) p)"
        using ok by simp
      then show ?thesis
        unfolding same(1) by (rule pair_ok_deliver) (use hold gr vote True in auto)
    next
      case False
      then have "link ?n p x k = link n p x k" and "\<not> (j = x \<and> m = LockRelease p)" and "\<not> (j = x \<and> is_req p m)"
        using ch vote same by (cases m; auto simp: link_def)+
      then show ?thesis using pair_ok_voter [OF ok] hold gr vote same by auto
    qed
  next
    case other
    then show ?thesis using ok recv_frame [of _ i N j now m "pop j i n"] by (simp add: link_def)
  qed
qed

lemma reach_inv: "reach N k (drained N) n \<Longrightarrow> net_inv N n"
proof (induction rule: reach.induct)
  case (turn n a n')
  show ?case
  proof (cases "is_deliver a")
    case True
    then obtain j i now where "a = ADeliver j i now" by (cases a) auto
    with turn show ?thesis by (auto intro!: net_inv_deliver split: if_splits list.splits)
  next
    case False
    with turn show ?thesis by (blast intro: net_inv_local)
  qed
qed (rule net_inv_init)


definition good_trace :: "action list" where
  "good_trace = [ALock ''a'' ''f'' 0, ADeliver ''a'' ''b'' 0, ADeliver ''b'' ''a'' 0]"

fun exec_if :: "(action \<Rightarrow> net \<Rightarrow> bool) \<Rightarrow> node_id set \<Rightarrow> action list \<Rightarrow> net \<Rightarrow> net option" where
  "exec_if G N [] n = Some n"
| "exec_if G N (a # as) n = (if G a n then case act N a n of None \<Rightarrow> None | Some n' \<Rightarrow> exec_if G N as n' else None)"

lemma exec_if_reach: "exec_if G N as n = Some n' \<Longrightarrow> reach N k G n \<Longrightarrow> reach N k G n'"
  by (induction G N as n rule: exec_if.induct) (auto intro: reach.turn split: option.splits if_splits)

lemma good_trace_run:
  "is_some_and (\<lambda>n. is_held_by_me (nt_tab n ''a'') ''f'')
     (exec_if (drained {''a'', ''b''}) {''a'', ''b''} good_trace (init_net default_timings))"
  by (simp add: good_trace_def drained_def net_eval)


end
