(* ===== verification/Decimal.thy ===== *)
theory Decimal
  imports Session
begin

text \<open>
  Decimal numbers as Rust prints and parses them: \<open>show_nat\<close> is \<^verbatim>\<open>Display\<close> of an unsigned integer and
  \<open>parse_unsigned\<close> is \<^verbatim>\<open>str::parse\<close> at a type with the given greatest value (an optional plus sign,
  then at least one digit, refused when the value does not fit).
\<close>

definition digit_char :: "nat \<Rightarrow> char" where
  "digit_char d = char_of (48 + d)"

fun show_nat :: "nat \<Rightarrow> string" where
  "show_nat n = (if n < 10 then [digit_char n] else show_nat (n div 10) @ [digit_char (n mod 10)])"

declare show_nat.simps [simp del]

fun digits_value :: "nat \<Rightarrow> string \<Rightarrow> nat option" where
  "digits_value acc [] = Some acc"
| "digits_value acc (c # cs) =
     (if is_ascii_digit c then digits_value (acc * 10 + (ascii_code c - 48)) cs else None)"

definition parse_unsigned :: "nat \<Rightarrow> string \<Rightarrow> nat option" where
  "parse_unsigned greatest s =
     (let ds = (if s \<noteq> [] \<and> hd s = CHR ''+'' then tl s else s) in
      if ds = [] then None
      else case digits_value 0 ds of
             None \<Rightarrow> None
           | Some v \<Rightarrow> if v \<le> greatest then Some v else None)"

lemma digit_char_code [simp]: "d < 10 \<Longrightarrow> ascii_code (digit_char d) = 48 + d"
  by (simp add: digit_char_def ascii_code_def of_char_of)

lemma is_digit_digit_char [simp]: "d < 10 \<Longrightarrow> is_ascii_digit (digit_char d)"
  by (simp add: is_ascii_digit_def)

lemma digits_value_append:
  "digits_value acc (s @ t) = (case digits_value acc s of None \<Rightarrow> None | Some v \<Rightarrow> digits_value v t)"
  by (induction s arbitrary: acc) auto

lemma digits_value_show [simp]: "digits_value 0 (show_nat n) = Some n"
proof (induction n rule: show_nat.induct)
  case (1 n)
  then show ?case
    by (subst show_nat.simps) (simp add: digits_value_append)
qed

lemma show_nat_digits: "\<forall>c \<in> set (show_nat n). is_ascii_digit c"
proof (induction n rule: show_nat.induct)
  case (1 n)
  then show ?case by (subst show_nat.simps) auto
qed

lemma show_nat_not_Nil [simp]: "show_nat n \<noteq> []"
  by (subst show_nat.simps) auto

lemma show_nat_no_plus: "show_nat n \<noteq> CHR ''+'' # r"
proof
  assume "show_nat n = CHR ''+'' # r"
  then have "is_ascii_digit CHR ''+''" using show_nat_digits [of n] by simp
  then show False by (simp add: is_ascii_digit_def ascii_code_def)
qed

lemma parse_show [simp]:
  assumes "n \<le> greatest"
  shows "parse_unsigned greatest (show_nat n) = Some n"
proof -
  have "hd (show_nat n) \<noteq> CHR ''+''"
    using show_nat_no_plus [of n "tl (show_nat n)"] show_nat_not_Nil [of n] by (metis list.collapse)
  with assms show ?thesis by (simp add: parse_unsigned_def)
qed

lemma parse_unsigned_bound: "parse_unsigned greatest s = Some v \<Longrightarrow> v \<le> greatest"
  by (auto simp: parse_unsigned_def Let_def split: if_splits option.splits)

lemma digit_not_letter: "is_ascii_digit c \<Longrightarrow> to_ascii_lower c = c"
  by (simp add: to_ascii_lower_def is_ascii_upper_def is_ascii_digit_def)

lemma map_lower_show [simp]: "map to_ascii_lower (show_nat n) = show_nat n"
  using show_nat_digits [of n] by (simp add: map_idI digit_not_letter)

lemma plain_show [simp]: "plain_ascii (show_nat n)"
  using show_nat_digits [of n] by (auto simp: plain_ascii_def is_ascii_digit_def)

lemma show_nat_nonzero: "0 < n \<Longrightarrow> show_nat n \<noteq> ''0''"
proof
  assume "0 < n" and "show_nat n = ''0''"
  then have "digits_value 0 ''0'' = Some n" by (metis digits_value_show)
  with \<open>0 < n\<close> show False by (simp add: is_ascii_digit_def ascii_code_def)
qed

lemma show_nat_letter: "c \<in> set (show_nat n) \<Longrightarrow> 48 \<le> ascii_code c \<and> ascii_code c \<le> 57"
  using show_nat_digits [of n] by (simp add: is_ascii_digit_def)

end
