(* ===== verification/Config.thy ===== *)
theory Config
  imports Decimal RelPath LockProps
begin

text \<open>
  Per-session configuration (\<^verbatim>\<open>src/state.rs\<close>): node roles, the configuration record, the single parser
  \<open>set_value\<close> behind every way of setting a key, the restriction \<open>set_live_value\<close> of it for a running
  daemon, and the effective timings.  The duration syntax (humantime) and relay URLs are parameters.
  The invariant \<open>config_ok\<close> is what the parser maintains of the numeric and path-valued settings.
\<close>

section \<open>Roles\<close>

datatype node_role = Editor | Viewer | Archive

definition can_edit :: "node_role \<Rightarrow> bool" where
  "can_edit r \<longleftrightarrow> r = Editor"

fun role_str :: "node_role \<Rightarrow> string" where
  "role_str Editor = ''editor''"
| "role_str Viewer = ''viewer''"
| "role_str Archive = ''archive''"

definition to_ascii_lowercase :: "string \<Rightarrow> string" where
  "to_ascii_lowercase s = map to_ascii_lower s"

datatype config_error =
    UnknownRole string | InvalidSize string | SizeOverflows string | InvalidSubtree string path_error
  | ExpectedOnOff string | InvalidRelay string | InvalidDuration string | InvalidPort string | PortTooLow
  | UnknownChannel string | InvalidDepth string | DepthCap | UnknownKey string | NeedsRestart string | NonLiveKey string

definition role_parse :: "string \<Rightarrow> (node_role, config_error) res" where
  "role_parse value =
     (let v = to_ascii_lowercase (trim value) in
      if v = ''editor'' then Ok Editor
      else if v = ''viewer'' then Ok Viewer
      else if v = ''archive'' then Ok Archive
      else Err (UnknownRole v))"

fun role_code :: "node_role \<Rightarrow> u8" where
  "role_code Editor = ROLE_EDITOR"
| "role_code Viewer = ROLE_VIEWER"
| "role_code Archive = ROLE_ARCHIVE"

definition from_code :: "u8 \<Rightarrow> node_role" where
  "from_code code = (if code = ROLE_EDITOR then Editor else if code = ROLE_ARCHIVE then Archive else Viewer)"

section \<open>The configuration\<close>

definition MIN_ACQUIRE_TIMEOUT :: duration where "MIN_ACQUIRE_TIMEOUT = from_secs 2"
definition MAX_ACQUIRE_TIMEOUT :: duration where "MAX_ACQUIRE_TIMEOUT = from_secs 60"
definition WAIT_TIMEOUT :: duration where "WAIT_TIMEOUT = from_secs (10 * 60)"
definition DASHBOARD_PORT :: u16 where "DASHBOARD_PORT = 8787"

lemmas config_consts [tz_defs] = MIN_ACQUIRE_TIMEOUT_def MAX_ACQUIRE_TIMEOUT_def WAIT_TIMEOUT_def DASHBOARD_PORT_def

record session_config =
  c_relay :: string
  c_lan :: bool
  c_airgap :: bool
  c_lease_ttl_ms :: u64
  c_acquire_timeout_ms :: u64
  c_autolock :: bool
  c_strict :: bool
  c_role :: node_role
  c_wait_timeout_ms :: u64
  c_dashboard_port :: u16
  c_update_channel :: string
  c_junk_filter :: bool
  c_sync_only :: string
  c_sync_skip :: string
  c_max_file_size :: u64
  c_history_depth :: nat
  c_max_down :: u64
  c_audit :: bool
  c_hooks :: bool
  c_notify :: bool

definition default_config :: session_config where
  "default_config =
     \<lparr>c_relay = ''default'', c_lan = True, c_airgap = False,
      c_lease_ttl_ms = of_nat (as_millis LEASE_TTL), c_acquire_timeout_ms = of_nat (as_millis ACQUIRE_TIMEOUT),
      c_autolock = False, c_strict = True, c_role = Editor,
      c_wait_timeout_ms = of_nat (as_millis WAIT_TIMEOUT), c_dashboard_port = DASHBOARD_PORT,
      c_update_channel = ''stable'', c_junk_filter = True, c_sync_only = '''', c_sync_skip = '''',
      c_max_file_size = 0, c_history_depth = 0, c_max_down = 0, c_audit = True, c_hooks = True, c_notify = False\<rparr>"

definition U64_MAX :: nat where "U64_MAX = 2 ^ 64 - 1"

definition size_suffix :: "string \<Rightarrow> string \<times> u64" where
  "size_suffix v =
     (case strip_suffix ''gb'' v of Some n \<Rightarrow> (n, 1024 * 1024 * 1024)
      | None \<Rightarrow> case strip_suffix ''mb'' v of Some n \<Rightarrow> (n, 1024 * 1024)
      | None \<Rightarrow> case strip_suffix ''kb'' v of Some n \<Rightarrow> (n, 1024)
      | None \<Rightarrow> case strip_suffix ''b'' v of Some n \<Rightarrow> (n, 1)
      | None \<Rightarrow> (v, 1))"

definition parse_size :: "string \<Rightarrow> (u64, config_error) res" where
  "parse_size value =
     (let v = to_ascii_lowercase (trim value) in
      if v = [] \<or> v = ''0'' \<or> v = ''off'' \<or> v = ''unlimited'' then Ok 0
      else let (num, mult) = size_suffix v in
        case parse_unsigned U64_MAX (trim num) of
          None \<Rightarrow> Err (InvalidSize value)
        | Some n \<Rightarrow> (case checked_mul (of_nat n) mult of None \<Rightarrow> Err (SizeOverflows value) | Some b \<Rightarrow> Ok b))"

definition validate_subtree :: "string \<Rightarrow> (string, config_error) res" where
  "validate_subtree value =
     (let v = trim_matches CHR ''/'' (trim value) in
      if v = [] then Ok []
      else case sanitize_rel_path v of Inl e \<Rightarrow> Err (InvalidSubtree value e) | Inr p \<Rightarrow> Ok p)"

definition fmt_size :: "u64 \<Rightarrow> string" where
  "fmt_size b =
     (let n = unat b in
      if n = 0 then ''unlimited''
      else if n mod (1024 * 1024 * 1024) = 0 then show_nat (n div (1024 * 1024 * 1024)) @ ''GB''
      else if n mod (1024 * 1024) = 0 then show_nat (n div (1024 * 1024)) @ ''MB''
      else if n mod 1024 = 0 then show_nat (n div 1024) @ ''KB''
      else show_nat n @ ''B'')"

definition parse_on_off :: "string \<Rightarrow> (bool, config_error) res" where
  "parse_on_off value =
     (let v = to_ascii_lowercase (trim value) in
      if v = ''on'' \<or> v = ''true'' \<or> v = ''yes'' \<or> v = ''1'' then Ok True
      else if v = ''off'' \<or> v = ''false'' \<or> v = ''no'' \<or> v = ''0'' then Ok False
      else Err (ExpectedOnOff v))"

definition enforce_readonly :: "session_config \<Rightarrow> bool" where
  "enforce_readonly c \<longleftrightarrow> c_strict c \<or> \<not> can_edit (c_role c)"

section \<open>Setting a key\<close>

text \<open>
  The syntax libraries: humantime's duration parser and printer, and the relay URL parser with its
  canonical printing.
\<close>

record config_lib =
  cl_parse_duration :: "string \<Rightarrow> duration option"
  cl_format_duration :: "duration \<Rightarrow> string"
  cl_relay_url :: "string \<Rightarrow> string option"

datatype relay_choice = RelayDefault | RelayCustom string | RelayDisabled

definition relay_parse :: "config_lib \<Rightarrow> string \<Rightarrow> (relay_choice, config_error) res" where
  "relay_parse lib s =
     (let v = trim s in
      if v = ''default'' \<or> v = [] then Ok RelayDefault
      else if v = ''none'' \<or> v = ''disabled'' \<or> v = ''off'' then Ok RelayDisabled
      else case cl_relay_url lib v of None \<Rightarrow> Err (InvalidRelay v) | Some u \<Rightarrow> Ok (RelayCustom u))"

fun to_config_string :: "relay_choice \<Rightarrow> string" where
  "to_config_string RelayDefault = ''default''"
| "to_config_string RelayDisabled = ''none''"
| "to_config_string (RelayCustom url) = url"

definition clamp_dur :: "config_lib \<Rightarrow> string \<Rightarrow> duration \<Rightarrow> duration \<Rightarrow> (duration, config_error) res" where
  "clamp_dur lib value lo hi =
     (case cl_parse_duration lib (trim value) of
        None \<Rightarrow> Err (InvalidDuration value)
      | Some raw \<Rightarrow> Ok (clamp lo hi raw))"

definition and_then :: "('a, 'e) res \<Rightarrow> ('a \<Rightarrow> ('b, 'e) res) \<Rightarrow> ('b, 'e) res" where
  "and_then r f = (case r of Inl e \<Rightarrow> Inl e | Inr x \<Rightarrow> f x)"

definition on_off :: "bool \<Rightarrow> string" where
  "on_off b = (if b then ''on'' else ''off'')"

fun skip_parts :: "string list \<Rightarrow> string list \<Rightarrow> (string list, config_error) res" where
  "skip_parts [] parts = Ok parts"
| "skip_parts (raw # raws) parts =
     and_then (validate_subtree raw) (\<lambda>v. skip_parts raws (if v = [] then parts else parts @ [v]))"

definition depth_of :: "string \<Rightarrow> (nat, config_error) res" where
  "depth_of value =
     (let v = trim value in
      if eq_ignore_ascii_case v ''auto'' then Ok 0
      else case parse_unsigned U64_MAX v of None \<Rightarrow> Err (InvalidDepth value) | Some n \<Rightarrow> Ok n)"

type_synonym set_result = "(session_config \<times> string, config_error) res"

text \<open>The key names the parser knows; the two spellings of the dashboard port are one key.\<close>

datatype config_key =
    KRelay | KLan | KAirgap | KStrict | KRole | KAutolock | KLeaseTtl | KAcquireTimeout | KWaitTimeout | KDashboardPort
  | KUpdateChannel | KJunkFilter | KAudit | KHooks | KNotify | KSyncOnly | KSyncSkip | KMaxFileSize | KHistoryDepth | KMaxDown

definition key_table :: "(string \<times> config_key) list" where
  "key_table =
     [(''relay'', KRelay), (''lan'', KLan), (''airgap'', KAirgap), (''strict'', KStrict), (''role'', KRole),
      (''autolock'', KAutolock), (''lease-ttl'', KLeaseTtl), (''acquire-timeout'', KAcquireTimeout),
      (''wait-timeout'', KWaitTimeout), (''dashboard-port'', KDashboardPort), (''dashboard.port'', KDashboardPort),
      (''update-channel'', KUpdateChannel), (''junk-filter'', KJunkFilter), (''audit'', KAudit), (''hooks'', KHooks),
      (''notify'', KNotify), (''sync-only'', KSyncOnly), (''sync-skip'', KSyncSkip), (''max-file-size'', KMaxFileSize),
      (''history-depth'', KHistoryDepth), (''max-down'', KMaxDown)]"

definition set_bool ::
  "string \<Rightarrow> ((bool \<Rightarrow> bool) \<Rightarrow> session_config \<Rightarrow> session_config) \<Rightarrow> string \<Rightarrow> session_config \<Rightarrow> set_result" where
  "set_bool key upd value c = and_then (parse_on_off value) (\<lambda>b. Ok (upd (\<lambda>_. b) c, key @ '' = '' @ on_off b))"

fun set_key :: "config_lib \<Rightarrow> config_key \<Rightarrow> string \<Rightarrow> session_config \<Rightarrow> set_result" where
  "set_key lib KRelay value c =
     and_then (relay_parse lib value) (\<lambda>ch.
       let c' = c\<lparr>c_relay := to_config_string ch\<rparr> in Ok (c', ''relay = '' @ c_relay c'))"
| "set_key lib KLan value c = set_bool ''lan'' c_lan_update value c"
| "set_key lib KAirgap value c = set_bool ''airgap'' c_airgap_update value c"
| "set_key lib KStrict value c =
     and_then (parse_on_off value) (\<lambda>b.
       Ok (c\<lparr>c_strict := b\<rparr>, ''strict = '' @ (if b then ''on'' else ''off (easy mode)'')))"
| "set_key lib KRole value c =
     and_then (role_parse value) (\<lambda>r. Ok (c\<lparr>c_role := r\<rparr>, ''role = '' @ role_str r))"
| "set_key lib KAutolock value c = set_bool ''autolock'' c_autolock_update value c"
| "set_key lib KLeaseTtl value c =
     and_then (clamp_dur lib value MIN_LEASE_TTL MAX_LEASE_TTL) (\<lambda>d.
       Ok (c\<lparr>c_lease_ttl_ms := of_nat (as_millis d)\<rparr>, ''lease-ttl = '' @ cl_format_duration lib d))"
| "set_key lib KAcquireTimeout value c =
     and_then (clamp_dur lib value MIN_ACQUIRE_TIMEOUT MAX_ACQUIRE_TIMEOUT) (\<lambda>d.
       Ok (c\<lparr>c_acquire_timeout_ms := of_nat (as_millis d)\<rparr>, ''acquire-timeout = '' @ cl_format_duration lib d))"
| "set_key lib KWaitTimeout value c =
     and_then (clamp_dur lib value (from_secs 10) MAX_LEASE_TTL) (\<lambda>d.
       Ok (c\<lparr>c_wait_timeout_ms := of_nat (as_millis d)\<rparr>, ''wait-timeout = '' @ cl_format_duration lib d))"
| "set_key lib KDashboardPort value c =
     (case parse_unsigned 65535 (trim value) of
        None \<Rightarrow> Err (InvalidPort value)
      | Some p \<Rightarrow>
          if p < 1024 then Err PortTooLow
          else Ok (c\<lparr>c_dashboard_port := of_nat p\<rparr>,
                   ''dashboard-port = '' @ show_nat p @ '' (effective on next start)''))"
| "set_key lib KUpdateChannel value c =
     (let v = to_ascii_lowercase (trim value) in
      if v \<noteq> ''stable'' \<and> v \<noteq> ''beta'' then Err (UnknownChannel value)
      else Ok (c\<lparr>c_update_channel := v\<rparr>, ''update-channel = '' @ v))"
| "set_key lib KJunkFilter value c = set_bool ''junk-filter'' c_junk_filter_update value c"
| "set_key lib KAudit value c = set_bool ''audit'' c_audit_update value c"
| "set_key lib KHooks value c = set_bool ''hooks'' c_hooks_update value c"
| "set_key lib KNotify value c = set_bool ''notify'' c_notify_update value c"
| "set_key lib KSyncOnly value c =
     and_then (validate_subtree value) (\<lambda>v.
       Ok (c\<lparr>c_sync_only := v\<rparr>,
           if v = [] then ''sync-only cleared (carrying everything)'' else ''sync-only = '' @ v @ ''/''))"
| "set_key lib KSyncSkip value c =
     and_then (skip_parts (split_on CHR '','' value) []) (\<lambda>parts.
       let s = join_with '','' parts in
       Ok (c\<lparr>c_sync_skip := s\<rparr>, if s = [] then ''sync-skip cleared'' else ''sync-skip = '' @ s))"
| "set_key lib KMaxFileSize value c =
     and_then (parse_size value) (\<lambda>b.
       Ok (c\<lparr>c_max_file_size := b\<rparr>, ''max-file-size = '' @ fmt_size b @ '' (new paths only)''))"
| "set_key lib KHistoryDepth value c =
     and_then (depth_of value) (\<lambda>n.
       if n > 1000 then Err DepthCap
       else Ok (c\<lparr>c_history_depth := n\<rparr>, ''history-depth = '' @ (if n = 0 then ''auto'' else show_nat n)))"
| "set_key lib KMaxDown value c =
     and_then (parse_size value) (\<lambda>b.
       Ok (c\<lparr>c_max_down := b\<rparr>, ''max-down = '' @ (if b = 0 then ''unlimited'' else fmt_size b @ ''/s'')))"

definition set_value :: "config_lib \<Rightarrow> string \<Rightarrow> string \<Rightarrow> session_config \<Rightarrow> set_result" where
  "set_value lib key value c =
     (case map_of key_table key of None \<Rightarrow> Err (UnknownKey key) | Some k \<Rightarrow> set_key lib k value c)"

definition live_keys :: "string list" where
  "live_keys =
     [''autolock'', ''lease-ttl'', ''acquire-timeout'', ''wait-timeout'', ''dashboard-port'', ''dashboard.port'',
      ''update-channel'', ''max-down'', ''audit'', ''hooks'', ''notify'']"

definition restart_keys :: "string list" where
  "restart_keys =
     [''relay'', ''lan'', ''airgap'', ''strict'', ''role'', ''junk-filter'', ''sync-only'', ''sync-skip'', ''max-file-size'']"

definition set_live_value :: "config_lib \<Rightarrow> string \<Rightarrow> string \<Rightarrow> session_config \<Rightarrow> set_result" where
  "set_live_value lib key value c =
     (if key \<in> set live_keys then set_value lib key value c
      else if key \<in> set restart_keys then Err (NeedsRestart key)
      else Err (NonLiveKey key))"

section \<open>Effective timings\<close>

definition lease_ttl :: "session_config \<Rightarrow> duration" where
  "lease_ttl c = clamp MIN_LEASE_TTL MAX_LEASE_TTL (from_millis (unat (c_lease_ttl_ms c)))"

definition lease_renew :: "session_config \<Rightarrow> duration" where
  "lease_renew c = lease_ttl c div 3"

definition acquire_timeout :: "session_config \<Rightarrow> duration" where
  "acquire_timeout c = clamp MIN_ACQUIRE_TIMEOUT MAX_ACQUIRE_TIMEOUT (from_millis (unat (c_acquire_timeout_ms c)))"

definition wait_timeout :: "session_config \<Rightarrow> duration" where
  "wait_timeout c = from_millis (unat (c_wait_timeout_ms c))"

definition config_timings :: "session_config \<Rightarrow> lock_timings" where
  "config_timings c = \<lparr>lt_ttl = lease_ttl c, lt_renew = lease_renew c, lt_acquire_timeout = acquire_timeout c\<rparr>"

section \<open>Sizes\<close>

lemma strip_suffix_append [simp]: "strip_suffix p (s @ p) = Some s"
  by (simp add: strip_suffix_Some_iff)

lemma strip_suffix_wrong:
  "p \<noteq> [] \<Longrightarrow> q \<noteq> [] \<Longrightarrow> last p \<noteq> last q \<Longrightarrow> strip_suffix p (s @ q) = None"
  by (metis last_appendR not_None_eq strip_suffix_Some_iff)

lemma strip_suffix_digits:
  assumes "length p = 2" and "\<not> is_ascii_digit (hd p)" and "length q = 1"
  shows "strip_suffix p (show_nat n @ q) = None"
proof (rule ccontr)
  obtain a b where p: "p = [a, b]" using assms(1) by (cases p; cases "tl p") auto
  obtain c where q: "q = [c]" using assms(3) by (cases q) auto
  assume "strip_suffix p (show_nat n @ q) \<noteq> None"
  then obtain r where "show_nat n @ [c] = r @ [a, b]"
    by (auto simp: strip_suffix_Some_iff p q)
  then have "show_nat n = r @ [a]" by (metis append.assoc append_Cons append_Nil butlast_snoc)
  then have "is_ascii_digit a" using show_nat_digits [of n] by simp
  with assms(2) show False by (simp add: p)
qed

lemma size_suffix_show:
  "size_suffix (show_nat n @ ''gb'') = (show_nat n, 1024 * 1024 * 1024)"
  "size_suffix (show_nat n @ ''mb'') = (show_nat n, 1024 * 1024)"
  "size_suffix (show_nat n @ ''kb'') = (show_nat n, 1024)"
  "size_suffix (show_nat n @ ''b'') = (show_nat n, 1)"
proof -
  have g: "strip_suffix ''gb'' (show_nat n @ x # ''b'') = None" if "x \<noteq> CHR ''g''" for x
    using that by (auto simp: strip_suffix_def)
  have m: "strip_suffix ''mb'' (show_nat n @ x # ''b'') = None" if "x \<noteq> CHR ''m''" for x
    using that by (auto simp: strip_suffix_def)
  show "size_suffix (show_nat n @ ''gb'') = (show_nat n, 1024 * 1024 * 1024)"
    "size_suffix (show_nat n @ ''mb'') = (show_nat n, 1024 * 1024)"
    "size_suffix (show_nat n @ ''kb'') = (show_nat n, 1024)"
    by (simp_all add: size_suffix_def g m)
  show "size_suffix (show_nat n @ ''b'') = (show_nat n, 1)"
    by (simp add: size_suffix_def strip_suffix_digits is_ascii_digit_def ascii_code_def)
qed

lemma plain_ascii_append [simp]: "plain_ascii (s @ t) \<longleftrightarrow> plain_ascii s \<and> plain_ascii t"
  by (auto simp: plain_ascii_def)

lemma lower_units:
  "map to_ascii_lower ''GB'' = ''gb''" "map to_ascii_lower ''MB'' = ''mb''" "map to_ascii_lower ''KB'' = ''kb''"
  "map to_ascii_lower ''B'' = ''b''"
  by code_simp+

lemma unit_not_keyword:
  assumes "u \<in> {''gb'', ''mb'', ''kb'', ''b''}"
  shows "show_nat n @ u \<noteq> ''0''" "show_nat n @ u \<noteq> ''off''" "show_nat n @ u \<noteq> ''unlimited''"
proof -
  have ne: "show_nat n @ u \<noteq> k" if "last k \<noteq> CHR ''b''" for k using that assms by auto
  show "show_nat n @ u \<noteq> ''0''" "show_nat n @ u \<noteq> ''off''" "show_nat n @ u \<noteq> ''unlimited''"
    by (rule ne, simp)+
qed

lemma parse_size_unit:
  assumes "(U, u, w) \<in> {(''GB'', ''gb'', 1024 * 1024 * 1024), (''MB'', ''mb'', 1024 * 1024), (''KB'', ''kb'', 1024), (''B'', ''b'', 1 :: u64)}"
    and "unat b = n * unat w"
  shows "parse_size (show_nat n @ U) = Ok b"
proof -
  have low: "to_ascii_lowercase (trim (show_nat n @ U)) = show_nat n @ u"
  proof -
    have "plain_ascii U" using assms(1) by (auto simp: plain_ascii_def ascii_code_def)
    moreover have "map to_ascii_lower U = u" using assms(1) lower_units by auto
    ultimately show ?thesis by (simp add: trim_plain_ascii to_ascii_lowercase_def)
  qed
  have suf: "size_suffix (show_nat n @ u) = (show_nat n, w)"
    using assms(1) size_suffix_show [of n] by auto
  have u: "u \<in> {''gb'', ''mb'', ''kb'', ''b''}" and "unat w \<noteq> 0" using assms(1) by auto
  then have "n \<le> unat b" using assms(2) by (cases "unat w") auto
  moreover have lt: "unat b < 2 ^ 64" using unsigned_less [of b, where ?'a = nat] by simp
  ultimately have n: "n \<le> U64_MAX" "unat (of_nat n :: u64) = n"
    by (simp_all add: U64_MAX_def unsigned_of_nat take_bit_nat_eq_self)
  then have "checked_mul (of_nat n) w = Some b"
    using assms(2) lt by (simp add: checked_mul_Some_iff)
  then show ?thesis
    unfolding parse_size_def low suf Let_def
    using unit_not_keyword [OF u, of n] n by (simp add: trim_plain_ascii)
qed

text \<open>
  Sizes round-trip: whatever byte ceiling is displayed, parsing the displayed text gives the same
  ceiling back, through the unit the printer chose, the sentinel for no ceiling, and without overflow.
\<close>

theorem size_roundtrip: "parse_size (fmt_size b) = Ok b"
proof -
  let ?n = "unat b"
  have div: "?n mod k = 0 \<Longrightarrow> ?n = ?n div k * k" for k by auto
  consider "?n = 0" | "?n \<noteq> 0" "?n mod (1024 * 1024 * 1024) = 0"
    | "?n \<noteq> 0" "?n mod (1024 * 1024 * 1024) \<noteq> 0" "?n mod (1024 * 1024) = 0"
    | "?n \<noteq> 0" "?n mod (1024 * 1024 * 1024) \<noteq> 0" "?n mod (1024 * 1024) \<noteq> 0" "?n mod 1024 = 0"
    | "?n \<noteq> 0" "?n mod (1024 * 1024 * 1024) \<noteq> 0" "?n mod (1024 * 1024) \<noteq> 0" "?n mod 1024 \<noteq> 0"
    by blast
  then show ?thesis
  proof cases
    case 1
    then have "fmt_size b = ''unlimited''" "b = 0" by (simp_all add: fmt_size_def unsigned_eq_0_iff)
    moreover have "parse_size ''unlimited'' = Ok 0"
      by (simp add: parse_size_def trim_plain_ascii plain_ascii_def ascii_code_def to_ascii_lowercase_def
          to_ascii_lower_def is_ascii_upper_def)
    ultimately show ?thesis by simp
  next
    case 2
    then have "parse_size (show_nat (?n div (1024 * 1024 * 1024)) @ ''GB'') = Ok b"
      by (intro parse_size_unit [where u = "''gb''" and w = "1024 * 1024 * 1024"]) (use div [OF 2(2)] in simp_all)
    with 2 show ?thesis by (simp add: fmt_size_def)
  next
    case 3
    then have "parse_size (show_nat (?n div (1024 * 1024)) @ ''MB'') = Ok b"
      by (intro parse_size_unit [where u = "''mb''" and w = "1024 * 1024"]) (use div [OF 3(3)] in simp_all)
    with 3 show ?thesis by (simp add: fmt_size_def)
  next
    case 4
    then have "parse_size (show_nat (?n div 1024) @ ''KB'') = Ok b"
      by (intro parse_size_unit [where u = "''kb''" and w = "1024"]) (use div [OF 4(4)] in simp_all)
    with 4 show ?thesis by (simp add: fmt_size_def)
  next
    case 5
    have "parse_size (show_nat ?n @ ''B'') = Ok b"
      by (intro parse_size_unit [where u = "''b''" and w = "1"]) simp_all
    with 5 show ?thesis by (simp add: fmt_size_def)
  qed
qed

section \<open>Setting keys keeps the configuration sane\<close>

definition ms_between :: "duration \<Rightarrow> duration \<Rightarrow> u64 \<Rightarrow> bool" where
  "ms_between lo hi ms \<longleftrightarrow> lo \<le> from_millis (unat ms) \<and> from_millis (unat ms) \<le> hi"

definition subtree_ok :: "string \<Rightarrow> bool" where
  "subtree_ok v \<longleftrightarrow> v = [] \<or> sanitize_rel_path v = Ok v"

definition config_ok :: "session_config \<Rightarrow> bool" where
  "config_ok c \<longleftrightarrow>
     ms_between MIN_LEASE_TTL MAX_LEASE_TTL (c_lease_ttl_ms c)
     \<and> ms_between MIN_ACQUIRE_TIMEOUT MAX_ACQUIRE_TIMEOUT (c_acquire_timeout_ms c)
     \<and> ms_between (from_secs 10) MAX_LEASE_TTL (c_wait_timeout_ms c)
     \<and> 1024 \<le> unat (c_dashboard_port c)
     \<and> c_update_channel c \<in> {''stable'', ''beta''}
     \<and> c_history_depth c \<le> 1000
     \<and> subtree_ok (c_sync_only c)
     \<and> list_all subtree_ok (split_on CHR '','' (c_sync_skip c))"

lemma default_config_ok: "config_ok default_config"
  by (simp add: config_ok_def default_config_def ms_between_def lease_consts config_consts as_millis_def from_millis_def
      subtree_ok_def)

lemma and_then_Ok_iff: "and_then r f = Ok y \<longleftrightarrow> (\<exists>x. r = Ok x \<and> f x = Ok y)"
  by (auto simp: and_then_def split: sum.splits)

lemma clamp_dur_ms:
  assumes "clamp_dur lib value lo hi = Ok d" and "lo \<le> hi" and "lo = from_millis l" and "hi \<le> from_millis (2 ^ 64 - 1)"
  shows "ms_between lo hi (of_nat (as_millis d))"
proof -
  have d: "lo \<le> d" "d \<le> hi"
    using assms(1) clamp_bounds [OF assms(2)] by (auto simp: clamp_dur_def split: option.splits)
  have "l \<le> d div 1000000" using d(1) assms(3) by (simp add: from_millis_def less_eq_div_iff_mult_less_eq)
  moreover have "d div 1000000 \<le> 2 ^ 64 - 1"
  proof -
    have "d \<le> (2 ^ 64 - 1) * 1000000" using d(2) assms(4) by (simp add: from_millis_def)
    then have "d div 1000000 \<le> (2 ^ 64 - 1) * 1000000 div 1000000" by (rule div_le_mono)
    then show ?thesis by simp
  qed
  moreover have "d div 1000000 * 1000000 \<le> d" by simp
  ultimately show ?thesis
    using d(2) assms(3)
    by (simp add: ms_between_def as_millis_def from_millis_def unsigned_of_nat take_bit_nat_eq_self)
qed

lemma validate_subtree_ok: "validate_subtree raw = Ok v \<Longrightarrow> subtree_ok v"
  by (auto simp: validate_subtree_def subtree_ok_def Let_def dest: sanitize_Ok split: if_splits sum.splits)

lemma trim_subset: "set (trim_matches x s) \<subseteq> set s"
  by (auto simp: trim_matches_def dest!: set_dropWhileD)

lemma strip_any_subset: "strip_any ps s = Some r \<Longrightarrow> set r \<subseteq> set s"
  by (induction ps) (auto simp: strip_prefix_Some_iff split: option.splits)

lemma strip_all_subset: "set (strip_all n ps s) \<subseteq> set s"
proof (induction n arbitrary: s)
  case (Suc n)
  then show ?case by (auto dest!: strip_any_subset split: option.splits)
qed simp

lemma set_trim_subset: "set (trim s) \<subseteq> set s"
proof -
  have "set (trim_end t) \<subseteq> set t" for t
    using strip_all_subset [of _ "map rev white_space" "rev t"] by (simp add: trim_end_def)
  moreover have "set (trim_start s) \<subseteq> set s" by (simp add: trim_start_def strip_all_subset)
  ultimately show ?thesis unfolding trim_def by blast
qed

lemma validate_subtree_subset: "validate_subtree raw = Ok v \<Longrightarrow> set v \<subseteq> set raw"
  using trim_subset [of "CHR ''/''" "trim raw"] set_trim_subset [of raw]
  by (auto simp: validate_subtree_def Let_def dest: sanitize_Ok split: if_splits sum.splits)

lemma skip_parts_ok:
  assumes "skip_parts raws parts = Ok ps" and "\<forall>w \<in> set raws. x \<notin> set w"
    and "\<forall>v \<in> set parts. subtree_ok v \<and> x \<notin> set v"
  shows "\<forall>v \<in> set ps. subtree_ok v \<and> x \<notin> set v"
  using assms
proof (induction raws arbitrary: parts)
  case (Cons raw raws)
  from Cons.prems(1) obtain v where v: "validate_subtree raw = Ok v"
    and rest: "skip_parts raws (if v = [] then parts else parts @ [v]) = Ok ps"
    by (auto simp: and_then_Ok_iff)
  have "subtree_ok v \<and> x \<notin> set v"
    using validate_subtree_ok [OF v] validate_subtree_subset [OF v] Cons.prems(2) by auto
  then have "\<forall>w \<in> set (if v = [] then parts else parts @ [v]). subtree_ok w \<and> x \<notin> set w"
    using Cons.prems(3) by auto
  with Cons.prems(2) show ?case by (intro Cons.IH [OF rest]) simp_all
qed simp

lemma skip_value_ok:
  assumes "skip_parts (split_on CHR '','' value) [] = Ok parts"
  shows "list_all subtree_ok (split_on CHR '','' (join_with '','' parts))"
proof (cases "parts = []")
  case False
  have "\<forall>v \<in> set parts. subtree_ok v \<and> CHR '','' \<notin> set v"
    by (rule skip_parts_ok [OF assms]) (auto dest: split_on_no_sep)
  with False show ?thesis by (simp add: split_join list_all_iff)
qed (simp add: subtree_ok_def)

lemma timing_ranges:
  "MIN_LEASE_TTL \<le> MAX_LEASE_TTL" "MIN_LEASE_TTL = from_millis 10000" "MAX_LEASE_TTL \<le> from_millis (2 ^ 64 - 1)"
  "MIN_ACQUIRE_TIMEOUT \<le> MAX_ACQUIRE_TIMEOUT" "MIN_ACQUIRE_TIMEOUT = from_millis 2000"
  "MAX_ACQUIRE_TIMEOUT \<le> from_millis (2 ^ 64 - 1)" "from_secs 10 \<le> MAX_LEASE_TTL" "from_secs 10 = from_millis 10000"
  by (simp_all add: lease_consts config_consts from_millis_def)

lemma port_ok: "p \<le> 65535 \<Longrightarrow> unat (of_nat p :: u16) = p"
  by (simp add: unsigned_of_nat take_bit_nat_eq_self)

lemma set_bool_Ok_iff: "set_bool key upd value c = Ok (c', note) \<longleftrightarrow>
    (\<exists>b. parse_on_off value = Ok b \<and> c' = upd (\<lambda>_. b) c \<and> note = key @ '' = '' @ on_off b)"
  by (auto simp: set_bool_def and_then_Ok_iff)

lemma set_value_ok:
  assumes "set_value lib key value c = Ok (c', note)" and "config_ok c"
  shows "config_ok c'"
proof -
  note durs = clamp_dur_ms [OF _ timing_ranges(1,2,3)] clamp_dur_ms [OF _ timing_ranges(4,5,6)]
    clamp_dur_ms [OF _ timing_ranges(7,8,3)]
  obtain k where "set_key lib k value c = Ok (c', note)"
    using assms(1) by (auto simp: set_value_def split: option.splits)
  with assms(2) show ?thesis
    by (cases k) (auto simp: config_ok_def set_bool_Ok_iff and_then_Ok_iff Let_def port_ok
        dest: parse_unsigned_bound validate_subtree_ok skip_value_ok durs split: if_splits option.splits)
qed

definition live_kinds :: "config_key set" where
  "live_kinds = {KAutolock, KLeaseTtl, KAcquireTimeout, KWaitTimeout, KDashboardPort, KUpdateChannel, KMaxDown, KAudit,
     KHooks, KNotify}"

lemma live_key_kinds: "key \<in> set live_keys \<Longrightarrow> map_of key_table key = Some k \<Longrightarrow> k \<in> live_kinds"
proof -
  have "list_all (\<lambda>key. \<forall>k. map_of key_table key = Some k \<longrightarrow> k \<in> live_kinds) live_keys"
    by (simp add: live_keys_def key_table_def live_kinds_def)
  then show "key \<in> set live_keys \<Longrightarrow> map_of key_table key = Some k \<Longrightarrow> k \<in> live_kinds"
    by (auto simp: list_all_iff)
qed

lemma config_ok_timings:
  "config_ok c \<Longrightarrow> lease_ttl c = from_millis (unat (c_lease_ttl_ms c))
     \<and> acquire_timeout c = from_millis (unat (c_acquire_timeout_ms c))"
  by (simp add: config_ok_def ms_between_def lease_ttl_def acquire_timeout_def clamp_id)

text \<open>
  C38. Every accepted setting keeps the configuration sane: whatever key and text are given, if the parser
  accepts them, a configuration whose timings, port, channel, history depth and selective-sync subtrees
  were in range is so again; the effective lease TTL and acquire timeout are then exactly the stored
  ones, and the lock table gets a TTL within the bound under which leases cannot be parked.
\<close>

theorem set_value_keeps_config_ok:
  assumes "set_value lib key value c = Ok (c', note)" and "config_ok c"
  shows "config_ok c' \<and> lease_ttl c' = from_millis (unat (c_lease_ttl_ms c'))
    \<and> acquire_timeout c' = from_millis (unat (c_acquire_timeout_ms c'))
    \<and> sane_timings (config_timings c')"
proof -
  have "sane_timings (config_timings c')"
    using clamp_bounds [OF timing_ranges(1)] by (simp add: sane_timings_def config_timings_def lease_ttl_def)
  then show ?thesis using set_value_ok [OF assms] config_ok_timings by blast
qed

definition demo_lib :: config_lib where
  "demo_lib = \<lparr>cl_parse_duration = (\<lambda>s. map_option from_secs (parse_unsigned U64_MAX s)), cl_format_duration = show_nat,
     cl_relay_url = Some\<rparr>"

theorem set_value_keeps_config_ok_witness:
  "config_ok (default_config\<lparr>c_sync_only := ''docs''\<rparr>)
   \<and> set_value demo_lib ''sync-only'' ''docs'' default_config = Ok (default_config\<lparr>c_sync_only := ''docs''\<rparr>, ''sync-only = docs/'')"
proof
  show set: "set_value demo_lib ''sync-only'' ''docs'' default_config = Ok (default_config\<lparr>c_sync_only := ''docs''\<rparr>, ''sync-only = docs/'')"
    by (simp add: set_value_def key_table_def and_then_def validate_subtree_def trim_plain_ascii plain_ascii_def ascii_code_def
        trim_matches_def sanitize_rel_path_def MAX_PATH_LEN_def starts_with_def is_ascii_alphabetic_def
        is_ascii_upper_def is_ascii_lower_def META_DIR_def eq_ignore_ascii_case_def to_ascii_lower_def)
  show "config_ok (default_config\<lparr>c_sync_only := ''docs''\<rparr>)"
    using set_value_keeps_config_ok [OF set default_config_ok] by blast
qed

text \<open>The settings a running daemon does not change.\<close>

definition restart_part ::
  "session_config \<Rightarrow> (string \<times> bool \<times> bool) \<times> (bool \<times> node_role \<times> bool) \<times> (string \<times> string \<times> u64 \<times> nat)" where
  "restart_part c = ((c_relay c, c_lan c, c_airgap c), (c_strict c, c_role c, c_junk_filter c),
     (c_sync_only c, c_sync_skip c, c_max_file_size c, c_history_depth c))"

text \<open>
  A running daemon cannot be reconfigured into another enforcement or topology: whatever key and text a
  live change carries, if it is accepted then the relay, LAN and airgap settings, strict mode, the
  role, the junk filter, the selective-sync subtrees, the size ceiling and the history depth are as before, so
  whether files are clamped read-only is as before; the keys it accepts mean what they mean offline.
\<close>

theorem live_value_keeps_enforcement:
  assumes "set_live_value lib key value c = Ok (c', note)"
  shows "set_value lib key value c = Ok (c', note)
    \<and> c_relay c' = c_relay c \<and> c_lan c' = c_lan c \<and> c_airgap c' = c_airgap c \<and> c_strict c' = c_strict c
    \<and> c_role c' = c_role c \<and> c_junk_filter c' = c_junk_filter c \<and> c_sync_only c' = c_sync_only c
    \<and> c_sync_skip c' = c_sync_skip c \<and> c_max_file_size c' = c_max_file_size c
    \<and> c_history_depth c' = c_history_depth c \<and> enforce_readonly c' = enforce_readonly c"
proof -
  have set: "set_value lib key value c = Ok (c', note)" and key: "key \<in> set live_keys"
    using assms by (auto simp: set_live_value_def split: if_splits)
  obtain k where "set_key lib k value c = Ok (c', note)" and "k \<in> live_kinds"
    using set live_key_kinds [OF key] by (auto simp: set_value_def split: option.splits)
  then show ?thesis
    using set by (cases k) (auto simp: live_kinds_def set_bool_Ok_iff and_then_Ok_iff Let_def enforce_readonly_def
        split: if_splits option.splits)
qed

lemma live_value_restart_part: "set_live_value lib key value c = Ok (c', note) \<Longrightarrow> restart_part c' = restart_part c"
  by (auto simp: restart_part_def dest: live_value_keeps_enforcement)

theorem live_value_keeps_enforcement_witness:
  "c_strict (default_config\<lparr>c_notify := True\<rparr>) = c_strict default_config
   \<and> set_live_value demo_lib ''notify'' ''on'' default_config = Ok (default_config\<lparr>c_notify := True\<rparr>, ''notify = on'')"
proof
  show set: "set_live_value demo_lib ''notify'' ''on'' default_config = Ok (default_config\<lparr>c_notify := True\<rparr>, ''notify = on'')"
    by (simp add: set_live_value_def live_keys_def set_value_def key_table_def set_bool_def and_then_def parse_on_off_def
        trim_plain_ascii plain_ascii_def ascii_code_def to_ascii_lowercase_def to_ascii_lower_def is_ascii_upper_def on_off_def)
  show "c_strict (default_config\<lparr>c_notify := True\<rparr>) = c_strict default_config"
    using live_value_keeps_enforcement [OF set] by blast
qed

end
