(* ===== verification/Versions.thy ===== *)
theory Versions
  imports Config
begin

text \<open>
  The persisted state of a session folder (\<^verbatim>\<open>AppState\<close> of \<^verbatim>\<open>src/state.rs\<close>) and the version history
  over it (\<^verbatim>\<open>src/versions.rs\<close>): pushing a replaced record, pruning to the effective depth, tags and pins,
  and the chunk comparison of two versions.
\<close>

section \<open>The persisted state\<close>

record version_entry =
  ve_manifest :: manifest_ref
  ve_vv :: vclock
  ve_ts_ms :: u64
  ve_size :: u64
  ve_tag :: "string option"
  ve_pinned :: bool

record unapplied_entry =
  ue_record :: file_record
  ue_reason :: string

record app_state =
  as_version :: u32
  as_mode :: string
  as_iroh_secret_key :: string
  as_session_secret :: string
  as_lamport :: u64
  as_config :: session_config
  as_files :: "(relpath, file_record) btree"
  as_known_members :: "(string, addr_wire) btree"
  as_history :: "(relpath, version_entry list) btree"
  as_unapplied :: "(relpath, unapplied_entry) btree"
  as_pulling :: "(relpath, file_record) btree"
  as_admin_public_key :: "string option"
  as_admin_secret_key :: "string option"
  as_my_grant :: "signed_grant option"
  as_peer_names :: "(string, string) btree"

definition new_state :: "string \<Rightarrow> string \<Rightarrow> app_state" where
  "new_state iroh_secret_key_hex session_secret_hex =
     \<lparr>as_version = 1, as_mode = ''strict'', as_iroh_secret_key = iroh_secret_key_hex,
      as_session_secret = session_secret_hex, as_lamport = 0, as_config = default_config, as_files = [],
      as_known_members = [], as_history = [], as_unapplied = [], as_pulling = [], as_admin_public_key = None,
      as_admin_secret_key = None, as_my_grant = None, as_peer_names = []\<rparr>"

definition enforcing_roles :: "app_state \<Rightarrow> bool" where
  "enforcing_roles st \<longleftrightarrow> as_admin_public_key st \<noteq> None"

section \<open>History\<close>

definition HISTORY_KEEP :: nat where "HISTORY_KEEP = 5"
definition ARCHIVE_HISTORY_KEEP :: nat where "ARCHIVE_HISTORY_KEEP = 25"

definition effective_depth :: "session_config \<Rightarrow> nat" where
  "effective_depth c =
     (if c_history_depth c > 0 then c_history_depth c
      else case c_role c of Archive \<Rightarrow> ARCHIVE_HISTORY_KEEP | _ \<Rightarrow> HISTORY_KEEP)"

fun retain_from :: "nat \<Rightarrow> nat \<Rightarrow> version_entry list \<Rightarrow> version_entry list" where
  "retain_from idx depth [] = []"
| "retain_from idx depth (e # es) =
     (if idx < depth \<or> ve_pinned e then e # retain_from (Suc idx) depth es else retain_from (Suc idx) depth es)"

definition prune_to_depth :: "version_entry list \<Rightarrow> nat \<Rightarrow> version_entry list" where
  "prune_to_depth es depth = retain_from 0 depth es"

definition history_of :: "app_state \<Rightarrow> relpath \<Rightarrow> version_entry list" where
  "history_of st path = unwrap_or [] (bt_get (as_history st) path)"

definition entry_of :: "file_record \<Rightarrow> version_entry" where
  "entry_of r =
     \<lparr>ve_manifest = fr_manifest r, ve_vv = fr_vv r, ve_ts_ms = fr_updated_at_ms r, ve_size = fr_size r,
      ve_tag = None, ve_pinned = False\<rparr>"

definition push :: "relpath \<Rightarrow> file_record \<Rightarrow> app_state \<Rightarrow> app_state" where
  "push path replaced st =
     (if fr_deleted replaced then st
      else st\<lparr>as_history := bt_insert path
        (prune_to_depth (entry_of replaced # history_of st path) (effective_depth (as_config st))) (as_history st)\<rparr>)"

definition list_history :: "app_state \<Rightarrow> relpath \<Rightarrow> (nat \<times> u64 \<times> u64 \<times> string option \<times> bool) list" where
  "list_history st path =
     map (\<lambda>(i, e). (i, ve_ts_ms e, ve_size e, ve_tag e, ve_pinned e)) (enumerate 0 (history_of st path))"

definition untag :: "string option \<Rightarrow> version_entry \<Rightarrow> version_entry" where
  "untag name e = (if name \<noteq> None \<and> ve_tag e = name then e\<lparr>ve_tag := None\<rparr> else e)"

definition tag :: "relpath \<Rightarrow> nat \<Rightarrow> string option \<Rightarrow> app_state \<Rightarrow> bool \<times> app_state" where
  "tag path n name st =
     (case bt_get (as_history st) path of
        None \<Rightarrow> (False, st)
      | Some es \<Rightarrow>
          if n \<ge> length es then (False, st)
          else let es' = map (untag name) es in
            (True, st\<lparr>as_history := bt_insert path (es'[n := (es' ! n)\<lparr>ve_tag := name\<rparr>]) (as_history st)\<rparr>))"

definition set_pinned :: "relpath \<Rightarrow> nat \<Rightarrow> bool \<Rightarrow> app_state \<Rightarrow> bool \<times> app_state" where
  "set_pinned path n pinned st =
     (case bt_get (as_history st) path of
        None \<Rightarrow> (False, st)
      | Some es \<Rightarrow>
          if n \<ge> length es then (False, st)
          else (True, st\<lparr>as_history := bt_insert path (es[n := (es ! n)\<lparr>ve_pinned := pinned\<rparr>]) (as_history st)\<rparr>))"

definition history_entry :: "app_state \<Rightarrow> relpath \<Rightarrow> nat \<Rightarrow> version_entry option" where
  "history_entry st path n =
     (case bt_get (as_history st) path of
        None \<Rightarrow> None
      | Some es \<Rightarrow> if n < length es then Some (es ! n) else None)"

fun position :: "('a \<Rightarrow> bool) \<Rightarrow> 'a list \<Rightarrow> nat option" where
  "position P [] = None"
| "position P (x # xs) = (if P x then Some 0 else map_option Suc (position P xs))"

definition index_of_tag :: "app_state \<Rightarrow> relpath \<Rightarrow> string \<Rightarrow> nat option" where
  "index_of_tag st path name =
     (case bt_get (as_history st) path of None \<Rightarrow> None | Some es \<Rightarrow> position (\<lambda>e. ve_tag e = Some name) es)"

definition disk_bytes :: "app_state \<Rightarrow> relpath \<Rightarrow> u64" where
  "disk_bytes st path = sum_list (map ve_size (history_of st path))"

fun footprint_loop :: "version_entry list list \<Rightarrow> nat \<times> nat \<times> u64 \<Rightarrow> nat \<times> nat \<times> u64" where
  "footprint_loop [] acc = acc"
| "footprint_loop (es # ess) (paths, versions, bytes) =
     (if es = [] then footprint_loop ess (paths, versions, bytes)
      else footprint_loop ess (Suc paths, versions + length es, bytes + sum_list (map ve_size es)))"

definition footprint :: "app_state \<Rightarrow> nat \<times> nat \<times> u64" where
  "footprint st = footprint_loop (map snd (as_history st)) (0, 0, 0)"

section \<open>Comparing versions by chunks\<close>

record diff_stat =
  ds_old_chunks :: nat
  ds_new_chunks :: nat
  ds_identical :: nat
  ds_added :: nat
  ds_removed :: nat
  ds_moved :: nat
  ds_old_bytes :: u64
  ds_new_bytes :: u64
  ds_transfer_bytes :: u64

definition identical_content :: "diff_stat \<Rightarrow> bool" where
  "identical_content d \<longleftrightarrow> ds_added d = 0 \<and> ds_removed d = 0 \<and> ds_old_chunks d = ds_new_chunks d"

fun scan_new :: "bytes set \<Rightarrow> chunk_ref list \<Rightarrow> bytes set \<Rightarrow> nat \<Rightarrow> u64 \<Rightarrow> nat \<times> u64" where
  "scan_new old_hashes [] counted identical transfer = (identical, transfer)"
| "scan_new old_hashes (c # cs) counted identical transfer =
     (if cr_hash c \<in> old_hashes then scan_new old_hashes cs counted (Suc identical) transfer
      else if cr_hash c \<notin> counted
      then scan_new old_hashes cs (insert (cr_hash c) counted) identical (transfer + ucast (cr_len c))
      else scan_new old_hashes cs counted identical transfer)"

definition diff_chunks :: "chunk_ref list \<Rightarrow> chunk_ref list \<Rightarrow> diff_stat" where
  "diff_chunks old new =
     (let old_hashes = cr_hash ` set old; new_hashes = cr_hash ` set new;
          (identical, transfer) = scan_new old_hashes new {} 0 0;
          common = min (length old) (length new);
          same_pos = length (filter (\<lambda>i. cr_hash (old ! i) = cr_hash (new ! i)) [0..<common]);
          both_content = length (filter (\<lambda>c. cr_hash c \<in> old_hashes) new)
      in \<lparr>ds_old_chunks = length old, ds_new_chunks = length new, ds_identical = identical,
          ds_added = card (new_hashes - old_hashes), ds_removed = card (old_hashes - new_hashes),
          ds_moved = both_content - same_pos,
          ds_old_bytes = sum_list (map (\<lambda>c. ucast (cr_len c)) old),
          ds_new_bytes = sum_list (map (\<lambda>c. ucast (cr_len c)) new),
          ds_transfer_bytes = transfer\<rparr>)"

section \<open>Retention\<close>

lemma retain_from_eq:
  "retain_from idx depth es = take (depth - idx) es @ filter ve_pinned (drop (depth - idx) es)"
proof (induction idx depth es rule: retain_from.induct)
  case (2 idx depth e es)
  have "depth - Suc idx = depth - idx - 1" by simp
  with 2 show ?case by (cases "depth - idx") auto
qed simp

lemma prune_to_depth_eq: "prune_to_depth es depth = take depth es @ filter ve_pinned (drop depth es)"
  by (simp add: prune_to_depth_def retain_from_eq)

lemma effective_depth_pos: "0 < effective_depth c"
  by (auto simp: effective_depth_def HISTORY_KEEP_def ARCHIVE_HISTORY_KEEP_def split: node_role.splits)

lemma history_of_push:
  "\<not> fr_deleted r \<Longrightarrow> history_of (push p r st) q =
     (if q = p then prune_to_depth (entry_of r # history_of st p) (effective_depth (as_config st)) else history_of st q)"
  by (simp add: push_def history_of_def)

text \<open>
  Retention: pushing a replaced live record puts it first, keeps of the older versions exactly the newest
  up to the effective depth and, beyond it, the pinned ones, in order; so no pinned version of any path is
  ever dropped, and the length exceeds the effective depth by at most the number of pinned versions.
\<close>

theorem push_retention:
  fixes st :: app_state
  assumes "\<not> fr_deleted r"
  defines "d \<equiv> effective_depth (as_config st)"
  shows "history_of (push p r st) p = entry_of r # take (d - 1) (history_of st p)
           @ filter ve_pinned (drop (d - 1) (history_of st p))
    \<and> filter ve_pinned (history_of (push p r st) q) = filter ve_pinned (history_of st q)
    \<and> length (history_of (push p r st) p) \<le> d + length (filter ve_pinned (history_of st p))
    \<and> (q \<noteq> p \<longrightarrow> history_of (push p r st) q = history_of st q)"
proof -
  obtain d' where d: "d = Suc d'" using effective_depth_pos [of "as_config st"] by (cases d) (auto simp: d_def)
  have eq: "history_of (push p r st) p = entry_of r # take d' (history_of st p) @ filter ve_pinned (drop d' (history_of st p))"
    using assms(1) d by (simp add: history_of_push prune_to_depth_eq d_def)
  have pins: "filter ve_pinned (take d' es) @ filter ve_pinned (drop d' es) = filter ve_pinned es" for es
    by (metis append_take_drop_id filter_append)
  have "length (filter ve_pinned (drop d' es)) \<le> length (filter ve_pinned es)" for es
    using pins [of es] by (metis le_add2 length_append)
  from this [of "history_of st p"]
  have "length (history_of (push p r st) p) \<le> d + length (filter ve_pinned (history_of st p))"
    unfolding eq d by simp
  moreover have "\<not> ve_pinned (entry_of r)" by (simp add: entry_of_def)
  ultimately show ?thesis
    using assms(1) eq d pins by (cases "q = p") (simp_all add: history_of_push [OF assms(1)])
qed

theorem push_retention_witness:
  "length (history_of (push ''f'' (demo_rec []) (new_state '''' '''')) ''f'') \<le> 5
   \<and> history_of (push ''f'' (demo_rec []) (new_state '''' '''')) ''f'' = [entry_of (demo_rec [])]"
  using push_retention [of "demo_rec []" "''f''" "new_state '''' ''''" "''f''"]
  by (simp add: demo_rec_def new_state_def default_config_def history_of_def effective_depth_def HISTORY_KEEP_def)

section \<open>Tags\<close>

definition tags_unique :: "version_entry list \<Rightarrow> bool" where
  "tags_unique es \<longleftrightarrow>
     (\<forall>i < length es. \<forall>j < length es. ve_tag (es ! i) \<noteq> None \<and> ve_tag (es ! i) = ve_tag (es ! j) \<longrightarrow> i = j)"

lemma position_Some_iff: "position P xs = Some n \<longleftrightarrow> n < length xs \<and> P (xs ! n) \<and> (\<forall>i < n. \<not> P (xs ! i))"
proof (induction xs arbitrary: n)
  case (Cons x xs)
  then show ?case
    by (cases n) (auto simp: less_Suc_eq_0_disj)
qed simp

lemma tags_unique_filter_drop:
  "tags_unique es \<longleftrightarrow> distinct (filter (\<lambda>t. t \<noteq> None) (map ve_tag es))"
proof (induction es)
  case (Cons e es)
  have "tags_unique (e # es) \<longleftrightarrow> tags_unique es \<and> (ve_tag e \<noteq> None \<longrightarrow> ve_tag e \<notin> ve_tag ` set es)"
  proof -
    have "ve_tag e \<notin> ve_tag ` set es \<longleftrightarrow> (\<forall>j < length es. ve_tag e \<noteq> ve_tag (es ! j))"
      by (metis image_iff in_set_conv_nth)
    then show ?thesis
      unfolding tags_unique_def length_Cons All_less_Suc2 nth_Cons_0 nth_Cons_Suc
      by (simp del: not_None_eq, fastforce)
  qed
  then show ?case using Cons.IH by (auto simp: image_iff)
qed (simp add: tags_unique_def)

lemma tags_unique_prune:
  "tags_unique es \<Longrightarrow> tags_unique (prune_to_depth es depth)"
  unfolding tags_unique_filter_drop prune_to_depth_eq map_append filter_append
proof -
  assume dist: "distinct (filter (\<lambda>t. t \<noteq> None) (map ve_tag es))"
  have "filter (\<lambda>t. t \<noteq> None) (map ve_tag es) =
      filter (\<lambda>t. t \<noteq> None) (map ve_tag (take depth es)) @ filter (\<lambda>t. t \<noteq> None) (map ve_tag (drop depth es))"
    by (metis append_take_drop_id filter_append map_append)
  moreover have "distinct (filter (\<lambda>t. t \<noteq> None) (map ve_tag (filter ve_pinned xs)))"
    if "distinct (filter (\<lambda>t. t \<noteq> None) (map ve_tag xs))" for xs
    using that by (induction xs) (auto simp: image_iff, metis)
  ultimately show "distinct (filter (\<lambda>t. t \<noteq> None) (map ve_tag (take depth es)) @
      filter (\<lambda>t. t \<noteq> None) (map ve_tag (filter ve_pinned (drop depth es))))"
    using dist by auto
qed

lemma tags_unique_push: "tags_unique (history_of st p) \<Longrightarrow> tags_unique (history_of (push p r st) p)"
proof (cases "fr_deleted r")
  case False
  assume "tags_unique (history_of st p)"
  then have "tags_unique (entry_of r # history_of st p)"
    by (simp add: tags_unique_filter_drop entry_of_def)
  then show ?thesis using False by (simp add: history_of_push tags_unique_prune)
qed (simp add: push_def)

text \<open>
  A tag names one version: naming an existing version succeeds, afterwards the name resolves to exactly
  that version, every other version keeps its own tag unless it bore this name, and tags stay unique
  within the path, through further pushes too.
\<close>

theorem tag_resolves:
  fixes name :: string
  assumes "bt_get (as_history st) p = Some es" and "n < length es" and "tags_unique es"
  defines "st' \<equiv> snd (tag p n (Some name) st)"
  shows "fst (tag p n (Some name) st)
    \<and> index_of_tag st' p name = Some n
    \<and> tags_unique (history_of st' p) \<and> tags_unique (history_of (push p r st') p)
    \<and> (\<forall>i < length es. i \<noteq> n \<and> ve_tag (es ! i) \<noteq> Some name \<longrightarrow> history_of st' p ! i = es ! i)"
proof -
  let ?es = "map (untag (Some name)) es"
  let ?new = "?es[n := (?es ! n)\<lparr>ve_tag := Some name\<rparr>]"
  have get: "bt_get (as_history st') p = Some ?new" and ok: "fst (tag p n (Some name) st)"
    using assms(1,2) by (simp_all add: st'_def tag_def Let_def)
  have other: "ve_tag (?es ! i) \<noteq> Some name" if "i < length es" for i
    using that by (simp add: untag_def)
  have tags: "ve_tag (?new ! i) = (if i = n then Some name else if ve_tag (es ! i) = Some name then None else ve_tag (es ! i))"
    if "i < length es" for i
    using that assms(2) by (simp add: nth_list_update untag_def)
  have uniq: "tags_unique ?new"
    unfolding tags_unique_def
  proof (intro allI impI)
    fix i j assume "i < length ?new" "j < length ?new" "ve_tag (?new ! i) \<noteq> None \<and> ve_tag (?new ! i) = ve_tag (?new ! j)"
    then show "i = j"
      using assms(3) tags [of i] tags [of j] unfolding tags_unique_def by (metis (no_types) length_list_update length_map)
  qed
  have "index_of_tag st' p name = Some n"
    using get assms(2) other by (auto simp: index_of_tag_def position_Some_iff nth_list_update)
  moreover have "history_of st' p = ?new" using get by (simp add: history_of_def)
  ultimately show ?thesis
    using ok uniq tags_unique_push [of st' p r] by (auto simp: nth_list_update untag_def)
qed

definition tagged_demo :: app_state where
  "tagged_demo = push ''f'' (demo_rec [(''a'', 1)]) (push ''f'' (demo_rec []) (new_state '''' ''''))"

theorem tag_resolves_witness:
  "index_of_tag (snd (tag ''f'' 1 (Some ''v1'') tagged_demo)) ''f'' ''v1'' = Some 1"
proof -
  have "bt_get (as_history tagged_demo) ''f'' = Some [entry_of (demo_rec [(''a'', 1)]), entry_of (demo_rec [])]"
    by (simp add: tagged_demo_def push_def new_state_def demo_rec_def history_of_def bt_get_def prune_to_depth_def
        default_config_def effective_depth_def HISTORY_KEEP_def entry_of_def)
  from tag_resolves [OF this, of 1 "''v1''" "demo_rec []"] show ?thesis
    by (simp add: tags_unique_filter_drop entry_of_def)
qed

section \<open>The comparison\<close>

text \<open>
  What the comparison calls identical: two versions are reported as having identical content exactly
  when they have equally many chunks and the same set of chunk hashes.  That is weaker than equal
  content: swapping two different chunks changes the bytes of the file, yet is reported identical,
  with the swapped chunks counted as moved.
\<close>

theorem identical_content_is_order_blind:
  "(identical_content (diff_chunks old new) \<longleftrightarrow>
      length old = length new \<and> cr_hash ` set old = cr_hash ` set new)
   \<and> identical_content (diff_chunks [\<lparr>cr_hash = [1], cr_len = 3\<rparr>, \<lparr>cr_hash = [2], cr_len = 3\<rparr>]
        [\<lparr>cr_hash = [2], cr_len = 3\<rparr>, \<lparr>cr_hash = [1], cr_len = 3\<rparr>])
   \<and> ds_moved (diff_chunks [\<lparr>cr_hash = [1], cr_len = 3\<rparr>, \<lparr>cr_hash = [2], cr_len = 3\<rparr>]
        [\<lparr>cr_hash = [2], cr_len = 3\<rparr>, \<lparr>cr_hash = [1], cr_len = 3\<rparr>]) = 2"
proof (intro conjI)
  have "card (A - B) = 0 \<longleftrightarrow> A \<subseteq> B" if "finite A" for A B :: "bytes set"
    using that by (simp add: card_eq_0_iff)
  then show "identical_content (diff_chunks old new) \<longleftrightarrow> length old = length new \<and> cr_hash ` set old = cr_hash ` set new"
    by (simp add: identical_content_def diff_chunks_def Let_def case_prod_beta) blast
qed code_simp+

end
