(* ===== verification/Conflicts.thy ===== *)
theory Conflicts
  imports Versions
begin

text \<open>
  The quarantine: the guard rails that fill it (\<^verbatim>\<open>src/guard.rs\<close>) and the conflict center over it
  (\<^verbatim>\<open>src/conflicts.rs\<close>).  A session folder is the record \<open>folder\<close>: the working files with their read-only
  bit, the preserved copies by file name, and the lines of the advisory index.  BLAKE3 is a parameter.
\<close>

section \<open>The folder\<close>

record file_data =
  fd_bytes :: bytes
  fd_readonly :: bool

record index_line =
  il_name :: string
  il_path :: string
  il_reason :: string
  il_ts_ms :: u64
  il_size :: u64

record copy_data =
  cd_bytes :: bytes
  cd_mtime_ms :: u64

record folder =
  fo_files :: "(relpath, file_data) btree"
  fo_copies :: "(string, copy_data) btree"
  fo_index :: "index_line list"

section \<open>Guard rails\<close>

definition apply_mode :: "relpath \<Rightarrow> bool \<Rightarrow> folder \<Rightarrow> folder" where
  "apply_mode p readonly fo =
     (case bt_get (fo_files fo) p of
        None \<Rightarrow> fo
      | Some f \<Rightarrow> fo\<lparr>fo_files := bt_insert p (f\<lparr>fd_readonly := readonly\<rparr>) (fo_files fo)\<rparr>)"

definition set_readonly :: "relpath \<Rightarrow> folder \<Rightarrow> folder" where
  "set_readonly p fo = apply_mode p True fo"

definition set_writable :: "relpath \<Rightarrow> folder \<Rightarrow> folder" where
  "set_writable p fo = apply_mode p False fo"

fun enforce_loop :: "bool \<Rightarrow> (relpath \<times> file_record) list \<Rightarrow> folder \<Rightarrow> folder" where
  "enforce_loop strict [] fo = fo"
| "enforce_loop strict ((rel, r) # rest) fo =
     enforce_loop strict rest
       (if fr_deleted r then fo else if strict then set_readonly rel fo else set_writable rel fo)"

definition enforce_all :: "app_state \<Rightarrow> bool \<Rightarrow> folder \<Rightarrow> folder" where
  "enforce_all st strict fo = enforce_loop strict (as_files st) fo"

definition hex_digit :: "nat \<Rightarrow> char" where
  "hex_digit d = (if d < 10 then char_of (48 + d) else char_of (55 + d))"

definition unreserved :: "char \<Rightarrow> bool" where
  "unreserved c \<longleftrightarrow> is_ascii_alphanumeric c \<or> c = CHR ''.'' \<or> c = CHR ''_'' \<or> c = CHR ''-''"

definition encode_byte :: "char \<Rightarrow> string" where
  "encode_byte c =
     (if unreserved c then [c] else [CHR ''%'', hex_digit (ascii_code c div 16), hex_digit (ascii_code c mod 16)])"

definition percent_encode :: "string \<Rightarrow> string" where
  "percent_encode s = concat (map encode_byte s)"

definition MAX_ENCODED :: nat where "MAX_ENCODED = 180"

text \<open>The output of \<open>percent_encode\<close> is ASCII, so every byte offset is a character boundary.\<close>

definition quarantine_name :: "(string \<Rightarrow> string) \<Rightarrow> relpath \<Rightarrow> string" where
  "quarantine_name hash_hex rel =
     (let encoded = percent_encode rel in
      if length encoded \<le> MAX_ENCODED then encoded
      else take MAX_ENCODED encoded @ ''---'' @ hash_hex rel)"

definition rust_div :: "int \<Rightarrow> int \<Rightarrow> int" where
  "rust_div a b = (if a < 0 then - ((- a) div b) else a div b)"

definition civil_from_days :: "int \<Rightarrow> int \<times> int \<times> int" where
  "civil_from_days z0 =
     (let z = z0 + 719468;
          era = rust_div (if z \<ge> 0 then z else z - 146096) 146097;
          doe = z - era * 146097;
          yoe = rust_div (doe - rust_div doe 1460 + rust_div doe 36524 - rust_div doe 146096) 365;
          y = yoe + era * 400;
          doy = doe - (365 * yoe + rust_div yoe 4 - rust_div yoe 100);
          mp = rust_div (5 * doy + 2) 153;
          d = doy - rust_div (153 * mp + 2) 5 + 1;
          m = (if mp < 10 then mp + 3 else mp - 9)
      in (if m \<le> 2 then y + 1 else y, m, d))"

definition pad0 :: "nat \<Rightarrow> int \<Rightarrow> string" where
  "pad0 w n = (let s = show_nat (nat n) in replicate (w - length s) CHR ''0'' @ s)"

definition utc_timestamp :: "u64 \<Rightarrow> string" where
  "utc_timestamp epoch_ms =
     (let t = int (unat epoch_ms); secs = t div 1000; ms = t mod 1000;
          rem = secs mod 86400; (y, mo, d) = civil_from_days (secs div 86400)
      in pad0 4 y @ pad0 2 mo @ pad0 2 d @ ''T'' @ pad0 2 (rem div 3600) @ pad0 2 (rem mod 3600 div 60)
         @ pad0 2 (rem mod 60) @ pad0 3 ms @ ''Z'')"

definition copy_name :: "(string \<Rightarrow> string) \<Rightarrow> u64 \<Rightarrow> relpath \<Rightarrow> string" where
  "copy_name hash_hex now_ms rel = utc_timestamp now_ms @ ''__'' @ quarantine_name hash_hex rel"

definition append_index :: "string \<Rightarrow> string \<Rightarrow> string \<Rightarrow> u64 \<Rightarrow> u64 \<Rightarrow> folder \<Rightarrow> folder" where
  "append_index name rel reason ts_ms sz fo =
     fo\<lparr>fo_index := fo_index fo @ [\<lparr>il_name = name, il_path = rel, il_reason = reason, il_ts_ms = ts_ms, il_size = sz\<rparr>]\<rparr>"

datatype guard_error = GuardIo relpath

definition quarantine ::
  "(string \<Rightarrow> string) \<Rightarrow> u64 \<Rightarrow> relpath \<Rightarrow> string \<Rightarrow> folder \<Rightarrow> (string, guard_error) res \<times> folder" where
  "quarantine hash_hex now_ms rel reason fo =
     (let name = copy_name hash_hex now_ms rel in
      case bt_get (fo_files fo) rel of
        None \<Rightarrow> (Err (GuardIo rel), fo)
      | Some f \<Rightarrow>
          (Ok name, append_index name rel reason now_ms (of_nat (length (fd_bytes f)))
             (fo\<lparr>fo_copies := bt_insert name \<lparr>cd_bytes = fd_bytes f, cd_mtime_ms = now_ms\<rparr> (fo_copies fo)\<rparr>)))"

section \<open>The conflict center\<close>

record conflict_entry =
  ce_name :: string
  ce_path :: "string option"
  ce_reason :: "string option"
  ce_ts_ms :: u64
  ce_size :: u64

definition hex_value :: "char \<Rightarrow> nat option" where
  "hex_value c =
     (let n = ascii_code c in
      if 48 \<le> n \<and> n \<le> 57 then Some (n - 48)
      else if 65 \<le> n \<and> n \<le> 70 then Some (n - 55)
      else if 97 \<le> n \<and> n \<le> 102 then Some (n - 87)
      else None)"

fun decode_bytes :: "string \<Rightarrow> string option" where
  "decode_bytes [] = Some []"
| "decode_bytes (c # s) =
     (if c = CHR ''%'' then
        (case s of
           h # l # rest \<Rightarrow>
             (case (hex_value h, hex_value l) of
                (Some hi, Some lo) \<Rightarrow> map_option (Cons (char_of (hi * 16 + lo))) (decode_bytes rest)
              | _ \<Rightarrow> None)
         | _ \<Rightarrow> None)
      else map_option (Cons c) (decode_bytes s))"

text \<open>Whether a byte list is UTF-8, as \<^verbatim>\<open>String::from_utf8\<close> decides it.\<close>

definition in_range :: "nat \<Rightarrow> nat \<Rightarrow> char \<Rightarrow> bool" where
  "in_range lo hi c \<longleftrightarrow> lo \<le> ascii_code c \<and> ascii_code c \<le> hi"

fun utf8_ok :: "string \<Rightarrow> bool" where
  "utf8_ok [] \<longleftrightarrow> True"
| "utf8_ok (b # s) \<longleftrightarrow>
     (if in_range 0 0x7F b then utf8_ok s
      else case s of
        [] \<Rightarrow> False
      | c1 # s1 \<Rightarrow>
          if in_range 0xC2 0xDF b then in_range 0x80 0xBF c1 \<and> utf8_ok s1
          else case s1 of
            [] \<Rightarrow> False
          | c2 # s2 \<Rightarrow>
              if in_range 0xE0 0xEF b then
                (if ascii_code b = 0xE0 then in_range 0xA0 0xBF c1
                 else if ascii_code b = 0xED then in_range 0x80 0x9F c1 else in_range 0x80 0xBF c1)
                \<and> in_range 0x80 0xBF c2 \<and> utf8_ok s2
              else case s2 of
                [] \<Rightarrow> False
              | c3 # s3 \<Rightarrow>
                  in_range 0xF0 0xF4 b
                  \<and> (if ascii_code b = 0xF0 then in_range 0x90 0xBF c1
                     else if ascii_code b = 0xF4 then in_range 0x80 0x8F c1 else in_range 0x80 0xBF c1)
                  \<and> in_range 0x80 0xBF c2 \<and> in_range 0x80 0xBF c3 \<and> utf8_ok s3)"

definition percent_decode :: "string \<Rightarrow> string option" where
  "percent_decode s =
     (case decode_bytes s of None \<Rightarrow> None | Some out \<Rightarrow> if utf8_ok out then Some out else None)"

fun contains_sub :: "string \<Rightarrow> string \<Rightarrow> bool" where
  "contains_sub p [] \<longleftrightarrow> p = []"
| "contains_sub p (c # s) \<longleftrightarrow> starts_with (c # s) p \<or> contains_sub p s"

fun split_once :: "string \<Rightarrow> string \<Rightarrow> (string \<times> string) option" where
  "split_once p [] = (if p = [] then Some ([], []) else None)"
| "split_once p (c # s) =
     (case strip_prefix p (c # s) of
        Some r \<Rightarrow> Some ([], r)
      | None \<Rightarrow> map_option (\<lambda>(a, b). (c # a, b)) (split_once p s))"

definition path_from_name :: "string \<Rightarrow> string option" where
  "path_from_name name =
     (case split_once ''__'' name of
        None \<Rightarrow> None
      | Some (_, encoded) \<Rightarrow> if contains_sub ''---'' encoded then None else percent_decode encoded)"

definition list_entry :: "index_line list \<Rightarrow> string \<times> copy_data \<Rightarrow> conflict_entry" where
  "list_entry lines e =
     (let sz = of_nat (length (cd_bytes (snd e))) in
      case find (\<lambda>l. il_name l = fst e) (rev lines) of
        Some ix \<Rightarrow> \<lparr>ce_name = fst e, ce_path = Some (il_path ix), ce_reason = Some (il_reason ix),
                     ce_ts_ms = il_ts_ms ix, ce_size = sz\<rparr>
      | None \<Rightarrow> \<lparr>ce_name = fst e, ce_path = path_from_name (fst e), ce_reason = None,
                  ce_ts_ms = cd_mtime_ms (snd e), ce_size = sz\<rparr>)"

definition list_conflicts :: "folder \<Rightarrow> conflict_entry list" where
  "list_conflicts fo =
     rev (sort_key (\<lambda>e. (ce_ts_ms e, ce_name e)) (map (list_entry (fo_index fo)) (fo_copies fo)))"

definition valid_id :: "string \<Rightarrow> bool" where
  "valid_id i \<longleftrightarrow>
     i \<noteq> [] \<and> length i \<le> 255 \<and> \<not> starts_with i ''.''
     \<and> CHR ''/'' \<notin> set i \<and> CHR 0x5C \<notin> set i \<and> CHR '':'' \<notin> set i
     \<and> \<not> contains_sub ''..'' i \<and> CHR 0x00 \<notin> set i"

datatype conflict_error = InvalidId string | NoMatch string | Ambiguous string nat | NoCopy string

definition resolve_id :: "conflict_entry list \<Rightarrow> string \<Rightarrow> (conflict_entry, conflict_error) res" where
  "resolve_id entries i =
     (if \<not> valid_id i then Err (InvalidId i)
      else let matches = filter (\<lambda>e. ce_name e = i \<or> starts_with (ce_name e) i) entries in
        case matches of
          [e] \<Rightarrow> Ok e
        | [] \<Rightarrow> Err (NoMatch i)
        | _ \<Rightarrow> Err (Ambiguous i (length matches)))"

text \<open>
  A valid id has no separator, so joining it onto the conflicts directory names an entry of that
  directory; what remains of \<open>copy_path\<close> is the id check and the existence check.
\<close>

definition copy_path :: "folder \<Rightarrow> string \<Rightarrow> (copy_data, conflict_error) res" where
  "copy_path fo name =
     (if \<not> valid_id name then Err (InvalidId name)
      else case bt_get (fo_copies fo) name of None \<Rightarrow> Err (NoCopy name) | Some c \<Rightarrow> Ok c)"

definition rewrite_index_without :: "string list \<Rightarrow> folder \<Rightarrow> folder" where
  "rewrite_index_without names fo = fo\<lparr>fo_index := filter (\<lambda>l. il_name l \<notin> set names) (fo_index fo)\<rparr>"

definition discard :: "string \<Rightarrow> folder \<Rightarrow> (u64, conflict_error) res \<times> folder" where
  "discard name fo =
     (case copy_path fo name of
        Inl e \<Rightarrow> (Err e, fo)
      | Inr c \<Rightarrow>
          (Ok (of_nat (length (cd_bytes c))),
           rewrite_index_without [name] (fo\<lparr>fo_copies := bt_remove name (fo_copies fo)\<rparr>)))"

definition select_prunable :: "conflict_entry list \<Rightarrow> u64 \<Rightarrow> u64 \<Rightarrow> conflict_entry list" where
  "select_prunable entries now_ms older_than_ms =
     (let cutoff = saturating_sub now_ms older_than_ms in filter (\<lambda>e. ce_ts_ms e < cutoff) entries)"

fun prune_loop ::
  "string list \<Rightarrow> folder \<Rightarrow> string list \<Rightarrow> u64 \<Rightarrow> conflict_error list \<Rightarrow> (string list \<times> u64 \<times> conflict_error list) \<times> folder" where
  "prune_loop [] fo removed freed errors = ((removed, freed, errors), fo)"
| "prune_loop (name # names) fo removed freed errors =
     (case copy_path fo name of
        Inr c \<Rightarrow> prune_loop names (fo\<lparr>fo_copies := bt_remove name (fo_copies fo)\<rparr>) (removed @ [name])
                   (freed + of_nat (length (cd_bytes c))) errors
      | Inl e \<Rightarrow> prune_loop names fo removed freed (errors @ [e]))"

definition prune :: "string list \<Rightarrow> folder \<Rightarrow> (string list \<times> u64 \<times> conflict_error list) \<times> folder" where
  "prune names fo =
     (let (r, fo') = prune_loop names fo [] 0 [] in
      (r, if fst r \<noteq> [] then rewrite_index_without (fst r) fo' else fo'))"

fun rsplit_once :: "char \<Rightarrow> string \<Rightarrow> (string \<times> string) option" where
  "rsplit_once c [] = None"
| "rsplit_once c (x # xs) =
     (case rsplit_once c xs of
        Some (a, b) \<Rightarrow> Some (x # a, b)
      | None \<Rightarrow> if x = c then Some ([], xs) else None)"

definition stem_ext :: "string \<Rightarrow> string \<times> string" where
  "stem_ext rel =
     (case rsplit_once CHR ''.'' rel of
        Some (s, e) \<Rightarrow>
          if CHR ''/'' \<notin> set e \<and> s \<noteq> [] \<and> \<not> ends_with s ''/'' \<and> e \<noteq> [] then (s, CHR ''.'' # e) else (rel, [])
      | None \<Rightarrow> (rel, []))"

fun trim_end_matches :: "char \<Rightarrow> string \<Rightarrow> string" where
  "trim_end_matches c s = rev (dropWhile (\<lambda>x. x = c) (rev s))"

definition both_name :: "string \<Rightarrow> u64 \<Rightarrow> (string \<Rightarrow> bool) \<Rightarrow> string" where
  "both_name rel ts_ms taken =
     (let ts = trim_end_matches CHR ''Z'' (utc_timestamp ts_ms);
          (stem, ext) = stem_ext rel;
          base = stem @ ''.conflict-'' @ ts @ ext
      in if \<not> taken base then base
         else case find (\<lambda>n. \<not> taken (stem @ ''.conflict-'' @ ts @ ''-'' @ show_nat n @ ext)) [2..<10001] of
                Some n \<Rightarrow> stem @ ''.conflict-'' @ ts @ ''-'' @ show_nat n @ ext
              | None \<Rightarrow> base)"

end
