(* ===== verification/ConflictProps.thy ===== *)
theory ConflictProps
  imports Conflicts
begin

text \<open>
  Properties of the quarantine: the encoding of a path as a file name is lossless, the name of a preserved copy
  is one the conflict center accepts (and when it is not), what identifiers resolve to, and that the
  operations of the center touch only the copies they are asked to.
\<close>

section \<open>Encoding\<close>

lemma ascii_code_less [simp]: "ascii_code c < 256"
  by (simp add: ascii_code_def)

lemma char_of_ascii_code [simp]: "char_of (ascii_code c) = c"
  by (simp add: ascii_code_def)

lemma ascii_code_char_of [simp]: "n < 256 \<Longrightarrow> ascii_code (char_of n) = n"
  by (simp add: ascii_code_def of_char_of)

lemma hex_digit_code: "d < 16 \<Longrightarrow> ascii_code (hex_digit d) = (if d < 10 then 48 + d else 55 + d)"
  by (simp add: hex_digit_def)

lemma hex_value_digit [simp]: "d < 16 \<Longrightarrow> hex_value (hex_digit d) = Some d"
  by (auto simp: hex_value_def hex_digit_code Let_def)

lemma percent_reserved: "\<not> unreserved CHR ''%''"
  by (simp add: unreserved_def is_ascii_alphanumeric_def is_ascii_alphabetic_def is_ascii_upper_def is_ascii_lower_def
      is_ascii_digit_def ascii_code_def)

lemma percent_encode_simps [simp]:
  "percent_encode [] = []"
  "percent_encode (c # s) = encode_byte c @ percent_encode s"
  by (simp_all add: percent_encode_def)

lemma decode_encode_byte: "decode_bytes (encode_byte c @ s) = map_option (Cons c) (decode_bytes s)"
proof (cases "unreserved c")
  case True
  then have "c \<noteq> CHR ''%''" using percent_reserved by blast
  with True show ?thesis by (simp add: encode_byte_def)
next
  case False
  have lt: "ascii_code c div 16 < 16" "ascii_code c mod 16 < 16"
    using ascii_code_less [of c] by (auto simp: less_mult_imp_div_less)
  have "ascii_code c div 16 * 16 + ascii_code c mod 16 = ascii_code c" by simp
  with False lt show ?thesis by (simp add: encode_byte_def)
qed

lemma decode_percent_encode [simp]: "decode_bytes (percent_encode s) = Some s"
  by (induction s) (simp_all add: decode_encode_byte)

definition name_char :: "char \<Rightarrow> bool" where
  "name_char c \<longleftrightarrow> unreserved c \<or> c = CHR ''%''"

lemma hex_digit_alnum: "d < 16 \<Longrightarrow> is_ascii_alphanumeric (hex_digit d)"
  by (auto simp: is_ascii_alphanumeric_def is_ascii_alphabetic_def is_ascii_upper_def is_ascii_digit_def hex_digit_code)

lemma encode_byte_chars: "x \<in> set (encode_byte c) \<Longrightarrow> x = c \<and> unreserved c \<or> x = CHR ''%'' \<or> is_ascii_alphanumeric x"
proof -
  have "ascii_code c div 16 < 16" "ascii_code c mod 16 < 16"
    using ascii_code_less [of c] by (auto simp: less_mult_imp_div_less)
  then show "x \<in> set (encode_byte c) \<Longrightarrow> ?thesis"
    by (auto simp: encode_byte_def hex_digit_alnum split: if_splits)
qed

lemma percent_encode_chars: "x \<in> set (percent_encode s) \<Longrightarrow> name_char x"
  by (induction s) (auto simp: name_char_def unreserved_def dest!: encode_byte_chars)

lemma alnum_name_char: "is_ascii_alphanumeric c \<Longrightarrow> name_char c"
  by (simp add: name_char_def unreserved_def)

lemma name_char_safe: "name_char c \<Longrightarrow> c \<noteq> CHR ''/'' \<and> c \<noteq> CHR 0x5C \<and> c \<noteq> CHR '':'' \<and> c \<noteq> CHR 0x00"
  by (auto simp: name_char_def unreserved_def is_ascii_alphanumeric_def is_ascii_alphabetic_def is_ascii_upper_def
      is_ascii_lower_def is_ascii_digit_def ascii_code_def)

section \<open>Substrings\<close>

lemma contains_sub_iff: "contains_sub p s \<longleftrightarrow> (\<exists>a b. s = a @ p @ b)"
proof (induction p s rule: contains_sub.induct)
  case (2 p c s)
  have "(\<exists>a b. c # s = a @ p @ b) \<longleftrightarrow> (\<exists>b. c # s = p @ b) \<or> (\<exists>a b. s = a @ p @ b)"
  proof
    assume "\<exists>a b. c # s = a @ p @ b"
    then obtain a b where "c # s = a @ p @ b" by blast
    then show "(\<exists>b. c # s = p @ b) \<or> (\<exists>a b. s = a @ p @ b)" by (cases a) auto
  qed (metis append_Cons append_Nil)
  with 2 show ?case by (simp add: starts_with_iff)
qed simp

lemma contains_sub_skip:
  assumes "p \<noteq> []" and "hd p \<notin> set a"
  shows "contains_sub p (a @ s) \<longleftrightarrow> contains_sub p s"
  using assms(2)
proof (induction a)
  case (Cons x a)
  then show ?case using assms(1) by (cases p) (auto simp: starts_with_def)
qed simp

lemma contains_sub_mono: "contains_sub p a \<Longrightarrow> contains_sub p (a @ b)"
  by (auto simp: contains_sub_iff) (metis append.assoc)

definition mark :: "char \<Rightarrow> bool" where
  "mark c \<longleftrightarrow> c = CHR ''.'' \<or> c = CHR ''_'' \<or> c = CHR ''-''"

lemma mark_facts: "mark c \<Longrightarrow> unreserved c \<and> c \<noteq> CHR ''%'' \<and> \<not> is_ascii_alphanumeric c"
  by (auto simp: mark_def unreserved_def is_ascii_alphanumeric_def is_ascii_alphabetic_def is_ascii_upper_def
      is_ascii_lower_def is_ascii_digit_def ascii_code_def)

lemma encode_byte_mark: "mark x \<Longrightarrow> x \<in> set (encode_byte c) \<Longrightarrow> c = x"
  using encode_byte_chars [of x c] mark_facts [of x] by auto

lemma encode_starts:
  "\<forall>x \<in> set p. mark x \<Longrightarrow> starts_with (percent_encode s) p \<Longrightarrow> starts_with s p"
proof (induction p arbitrary: s)
  case (Cons x p)
  then obtain c s' where s: "s = c # s'" by (cases s) (auto simp: starts_with_def)
  obtain e es where e: "encode_byte c = e # es"
    by (cases "encode_byte c") (auto simp: encode_byte_def split: if_splits)
  then have "e = x" using Cons.prems(2) by (auto simp: s starts_with_iff)
  then have "c = x" using Cons.prems(1) e encode_byte_mark [of x c] by simp
  moreover have "encode_byte x = [x]" using Cons.prems(1) mark_facts by (simp add: encode_byte_def)
  ultimately show ?case using Cons by (auto simp: s starts_with_iff)
qed (simp add: starts_with_def)

lemma contains_sub_encode:
  assumes "p \<noteq> []" and "\<forall>x \<in> set p. mark x"
  shows "contains_sub p (percent_encode s) \<longleftrightarrow> contains_sub p s"
proof (induction s)
  case (Cons c s)
  have m: "mark (hd p)" using assms by simp
  show ?case
  proof (cases "unreserved c")
    case True
    then have e: "encode_byte c = [c]" by (simp add: encode_byte_def)
    have "starts_with (percent_encode (c # s)) p \<longleftrightarrow> starts_with (c # s) p"
    proof
      assume "starts_with (c # s) p"
      then obtain r where r: "c # s = p @ r" by (auto simp: starts_with_iff)
      have "percent_encode p = p" using assms(2) mark_facts
        by (induction p) (auto simp: encode_byte_def)
      then have "percent_encode (c # s) = p @ percent_encode r" unfolding r by (simp add: percent_encode_def)
      then show "starts_with (percent_encode (c # s)) p" by (auto simp: starts_with_iff)
    qed (rule encode_starts [OF assms(2)])
    with Cons e show ?thesis by simp
  next
    case False
    then have "hd p \<notin> set (encode_byte c)" and "hd p \<noteq> c"
      using encode_byte_mark [OF m] mark_facts [OF m] by auto
    then show ?thesis
      using Cons contains_sub_skip [OF assms(1), of "encode_byte c"] contains_sub_skip [OF assms(1), of "[c]" s] by auto
  qed
qed (use assms(1) in simp)

lemma split_once_found: "CHR ''_'' \<notin> set a \<Longrightarrow> split_once ''__'' (a @ ''__'' @ b) = Some (a, b)"
  by (induction a) auto

section \<open>Timestamps\<close>

lemma rust_div_bounds: "0 < b \<Longrightarrow> - \<bar>a\<bar> \<le> rust_div a b \<and> rust_div a b \<le> \<bar>a\<bar>"
proof -
  assume b: "0 < b"
  have "x div b \<le> x \<and> 0 \<le> x div b" if "0 \<le> x" for x
    using that b zdiv_mono2 [of x 1 b] by (simp add: pos_imp_zdiv_nonneg_iff)
  from this [of a] this [of "- a"] show ?thesis by (auto simp: rust_div_def)
qed

lemma length_show_nat: "n < 10 ^ Suc k \<Longrightarrow> length (show_nat n) \<le> Suc k"
proof (induction k arbitrary: n)
  case 0
  then show ?case by (subst show_nat.simps) simp
next
  case (Suc k)
  then have "n div 10 < 10 ^ Suc k" by (simp add: less_mult_imp_div_less)
  then show ?case using Suc.IH [of "n div 10"] by (subst show_nat.simps) simp
qed

lemma length_pad0: "n < 10 ^ Suc k \<Longrightarrow> length (pad0 w n) \<le> max w (Suc k)"
proof -
  assume "n < 10 ^ Suc k"
  then have "nat n < 10 ^ Suc k"
    by (metis nat_less_numeral_power_cancel_iff)
  from length_show_nat [OF this] show ?thesis by (auto simp: pad0_def Let_def)
qed

lemma pad0_digits: "c \<in> set (pad0 w n) \<Longrightarrow> is_ascii_digit c"
  using show_nat_digits [of "nat n"]
  by (auto simp: pad0_def Let_def is_ascii_digit_def ascii_code_def)

lemma pad0_not_Nil [simp]: "pad0 w n \<noteq> []"
  by (simp add: pad0_def Let_def)

lemma civil_bounds:
  assumes "0 \<le> z" and "z < 10 ^ 12" and "civil_from_days z = (y, m, d)"
  shows "y < 10 ^ 15 \<and> m < 10 ^ 11 \<and> d < 10 ^ 13"
proof -
  define z' where "z' = z + 719468"
  define era where "era = rust_div z' 146097"
  define doe where "doe = z' - era * 146097"
  define inner where "inner = doe - rust_div doe 1460 + rust_div doe 36524 - rust_div doe 146096"
  define yoe where "yoe = rust_div inner 365"
  define doy where "doy = doe - (365 * yoe + rust_div yoe 4 - rust_div yoe 100)"
  define mp where "mp = rust_div (5 * doy + 2) 153"
  have y: "y = yoe + era * 400 \<or> y = yoe + era * 400 + 1" and m: "m = mp + 3 \<or> m = mp - 9"
    and d: "d = doy - rust_div (153 * mp + 2) 5 + 1"
    using assms(1,3)
    by (auto simp: civil_from_days_def Let_def z'_def era_def doe_def inner_def yoe_def doy_def mp_def split: if_splits)
  have era: "era = z' div 146097" using assms(1) by (simp add: era_def rust_div_def z'_def)
  have doe: "0 \<le> doe" "doe \<le> 146096"
    unfolding doe_def era using pos_mod_bound [of 146097 z'] by (simp_all add: minus_div_mult_eq_mod)
  have "0 \<le> era" "era \<le> 10 ^ 12" using assms(1,2) unfolding era z'_def by auto
  moreover have inner: "\<bar>inner\<bar> \<le> 4 * 146096"
    using doe rust_div_bounds [of 1460 doe] rust_div_bounds [of 36524 doe] rust_div_bounds [of 146096 doe]
    unfolding inner_def by linarith
  then have yoe: "\<bar>yoe\<bar> \<le> 584384" using rust_div_bounds [of 365 inner] unfolding yoe_def by linarith
  then have doy: "\<bar>doy\<bar> \<le> 214900000"
    using doe rust_div_bounds [of 4 yoe] rust_div_bounds [of 100 yoe] unfolding doy_def by linarith
  then have "\<bar>mp\<bar> \<le> 1074500002" using rust_div_bounds [of 153 "5 * doy + 2"] unfolding mp_def by linarith
  moreover from this have "\<bar>rust_div (153 * mp + 2) 5\<bar> \<le> 164398500308"
    using rust_div_bounds [of 5 "153 * mp + 2"] by linarith
  ultimately show ?thesis using y m d yoe doy by auto
qed

lemma div_less_mult: "0 < b \<Longrightarrow> x < c * b \<Longrightarrow> x div b < (c :: int)"
proof (rule ccontr)
  assume b: "0 < b" and x: "x < c * b" and "\<not> x div b < c"
  then have "c * b \<le> x div b * b" by (simp add: mult_right_mono)
  also have "\<dots> \<le> x" using pos_mod_sign [OF b, of x] div_mult_mod_eq [of x b] by linarith
  finally show False using x by simp
qed

lemma clock_bounds:
  fixes t :: int
  shows "t < 18446744073709551616 \<Longrightarrow> t div 1000 div 86400 < 10 ^ 12"
    and "t div 1000 mod 86400 div 3600 < 10 ^ Suc 1"
    and "t div 1000 mod 86400 mod 3600 div 60 < 10 ^ Suc 1"
    and "t div 1000 mod 86400 mod 60 < 10 ^ Suc 1"
    and "t mod 1000 < 10 ^ Suc 2"
proof -
  show "t < 18446744073709551616 \<Longrightarrow> t div 1000 div 86400 < 10 ^ 12"
    by (intro div_less_mult) simp_all
  show "t div 1000 mod 86400 div 3600 < 10 ^ Suc 1"
    using pos_mod_bound [of 86400 "t div 1000"] by (intro div_less_mult) simp_all
  show "t div 1000 mod 86400 mod 3600 div 60 < 10 ^ Suc 1"
    using pos_mod_bound [of 3600 "t div 1000 mod 86400"] by (intro div_less_mult) simp_all
  show "t div 1000 mod 86400 mod 60 < 10 ^ Suc 1"
    using pos_mod_bound [of 60 "t div 1000 mod 86400"] by simp
  show "t mod 1000 < 10 ^ Suc 2"
    using pos_mod_bound [of 1000 t] by simp
qed

lemma timestamp_parts:
  "\<exists>y mo d h mi s ms. utc_timestamp t = pad0 4 y @ pad0 2 mo @ pad0 2 d @ ''T'' @ pad0 2 h @ pad0 2 mi @ pad0 2 s @ pad0 3 ms @ ''Z''
     \<and> y < 10 ^ Suc 14 \<and> mo < 10 ^ Suc 10 \<and> d < 10 ^ Suc 12 \<and> h < 10 ^ Suc 1 \<and> mi < 10 ^ Suc 1 \<and> s < 10 ^ Suc 1
     \<and> ms < 10 ^ Suc 2"
proof -
  define t' where "t' = int (unat t)"
  have t': "0 \<le> t'" "t' < 18446744073709551616"
    using unsigned_less [of t, where ?'a = int] by (simp_all add: t'_def)
  let ?days = "t' div 1000 div 86400"
  obtain y mo d where c: "civil_from_days ?days = (y, mo, d)" by (cases "civil_from_days ?days") auto
  have "0 \<le> ?days" using t'(1) by (simp add: pos_imp_zdiv_nonneg_iff)
  then have "y < 10 ^ 15 \<and> mo < 10 ^ 11 \<and> d < 10 ^ 13"
    using civil_bounds [OF _ clock_bounds(1) [OF t'(2)] c] by blast
  then have "y < 10 ^ Suc 14" "mo < 10 ^ Suc 10" "d < 10 ^ Suc 12" by simp_all
  moreover have "utc_timestamp t = pad0 4 y @ pad0 2 mo @ pad0 2 d @ ''T'' @ pad0 2 (t' div 1000 mod 86400 div 3600)
      @ pad0 2 (t' div 1000 mod 86400 mod 3600 div 60) @ pad0 2 (t' div 1000 mod 86400 mod 60) @ pad0 3 (t' mod 1000) @ ''Z''"
    unfolding utc_timestamp_def t'_def [symmetric] Let_def c by simp
  ultimately show ?thesis using clock_bounds [of t'] by blast
qed

lemma timestamp_chars: "c \<in> set (utc_timestamp ms) \<Longrightarrow> is_ascii_alphanumeric c"
  using timestamp_parts [of ms]
  by (auto simp: is_ascii_alphanumeric_def is_ascii_alphabetic_def is_ascii_upper_def ascii_code_def dest!: pad0_digits)

lemma length_timestamp: "length (utc_timestamp t) \<le> 50"
proof -
  obtain y mo d h mi s ms where ts: "utc_timestamp t = pad0 4 y @ pad0 2 mo @ pad0 2 d @ ''T'' @ pad0 2 h @ pad0 2 mi @ pad0 2 s @ pad0 3 ms @ ''Z''"
    and "y < 10 ^ Suc 14" "mo < 10 ^ Suc 10" "d < 10 ^ Suc 12" "h < 10 ^ Suc 1" "mi < 10 ^ Suc 1" "s < 10 ^ Suc 1" "ms < 10 ^ Suc 2"
    using timestamp_parts [of t] by blast
  from this(2-8) have "length (pad0 4 y) \<le> 15" "length (pad0 2 mo) \<le> 11" "length (pad0 2 d) \<le> 13" "length (pad0 2 h) \<le> 2"
    "length (pad0 2 mi) \<le> 2" "length (pad0 2 s) \<le> 2" "length (pad0 3 ms) \<le> 3"
    using length_pad0 [of y 14 4] length_pad0 [of mo 10 2] length_pad0 [of d 12 2] length_pad0 [of h 1 2]
      length_pad0 [of mi 1 2] length_pad0 [of s 1 2] length_pad0 [of ms 2 3] by (simp_all add: numeral_eq_Suc)
  then show ?thesis unfolding ts by simp
qed

section \<open>The name of a preserved copy\<close>

definition hex_hash :: "(string \<Rightarrow> string) \<Rightarrow> bool" where
  "hex_hash hash_hex \<longleftrightarrow> (\<forall>s. length (hash_hex s) = 16 \<and> list_all is_ascii_alphanumeric (hash_hex s))"

lemma alnum_not_mark: "is_ascii_alphanumeric c \<Longrightarrow> c \<noteq> CHR ''.'' \<and> c \<noteq> CHR ''_'' \<and> c \<noteq> CHR ''-''"
  using mark_facts [of c] by (auto simp: mark_def)

lemma timestamp_no_mark:
  "CHR ''.'' \<notin> set (utc_timestamp t)" "CHR ''_'' \<notin> set (utc_timestamp t)"
  using timestamp_chars [of _ t] alnum_not_mark by blast+

lemma quarantine_name_chars: "hex_hash hash_hex \<Longrightarrow> c \<in> set (quarantine_name hash_hex rel) \<Longrightarrow> name_char c"
  by (auto simp: quarantine_name_def Let_def hex_hash_def list_all_iff name_char_def unreserved_def
      dest!: in_set_takeD percent_encode_chars split: if_splits)

lemma quarantine_name_length: "hex_hash hash_hex \<Longrightarrow> length (quarantine_name hash_hex rel) \<le> 199"
  by (auto simp: quarantine_name_def Let_def hex_hash_def MAX_ENCODED_def)

lemma contains_dots_end:
  assumes "CHR ''.'' \<notin> set b"
  shows "contains_sub ''..'' (a @ b) \<longleftrightarrow> contains_sub ''..'' a"
proof (induction a)
  case Nil
  then show ?case using assms contains_sub_skip [of "''..''" b "[]"] by simp
next
  case (Cons x a)
  have "starts_with (x # a @ b) ''..'' \<longleftrightarrow> starts_with (x # a) ''..''"
    using assms by (cases a; cases b) (auto simp: starts_with_def split: if_splits)
  with Cons show ?case by simp
qed

lemma quarantine_name_dots:
  assumes "hex_hash hash_hex" and "\<not> contains_sub ''..'' rel"
  shows "\<not> contains_sub ''..'' (quarantine_name hash_hex rel)"
proof -
  have enc: "\<not> contains_sub ''..'' (percent_encode rel)"
    using assms(2) contains_sub_encode [of "''..''" rel] by (simp add: mark_def)
  then have "\<not> contains_sub ''..'' (take n (percent_encode rel))" for n
    by (metis append_take_drop_id contains_sub_mono)
  moreover have "CHR ''.'' \<notin> set (''---'' @ hash_hex rel)"
    using assms(1) alnum_not_mark by (auto simp: hex_hash_def list_all_iff)
  ultimately show ?thesis
    using enc contains_dots_end [of "''---'' @ hash_hex rel"] unfolding quarantine_name_def Let_def by simp
qed

lemma copy_name_valid:
  assumes "hex_hash hash_hex" and "\<not> contains_sub ''..'' rel"
  shows "valid_id (copy_name hash_hex now rel)"
proof -
  let ?n = "copy_name hash_hex now rel"
  have chars: "name_char c" if "c \<in> set ?n" for c
  proof -
    have "name_char CHR ''_''" by (simp add: name_char_def unreserved_def)
    with that show ?thesis
      using quarantine_name_chars [OF assms(1), of c rel] timestamp_chars [of c now] alnum_name_char [of c]
      by (auto simp: copy_name_def)
  qed
  have "length ?n \<le> 255"
    using length_timestamp [of now] quarantine_name_length [OF assms(1), of rel] by (simp add: copy_name_def)
  moreover have "\<not> starts_with ?n ''.''"
    using timestamp_no_mark(1) [of now]
    by (cases "utc_timestamp now") (auto simp: copy_name_def starts_with_iff)
  moreover have "\<not> contains_sub ''..'' ?n"
  proof -
    have "CHR ''.'' \<notin> set (utc_timestamp now @ ''__'')" using timestamp_no_mark(1) [of now] by simp
    then show ?thesis
      using quarantine_name_dots [OF assms] contains_sub_skip [of "''..''" "utc_timestamp now @ ''__''"]
      by (simp add: copy_name_def)
  qed
  ultimately show ?thesis
    using chars name_char_safe by (auto simp: valid_id_def) (auto simp: copy_name_def)
qed

lemma copy_name_recovers:
  assumes "utf8_ok rel" and "length (percent_encode rel) \<le> MAX_ENCODED" and "\<not> contains_sub ''---'' rel"
  shows "path_from_name (copy_name hash_hex now rel) = Some rel"
proof -
  have "\<not> contains_sub ''---'' (percent_encode rel)"
    using assms(3) contains_sub_encode [of "''---''" rel] by (simp add: mark_def)
  moreover have "split_once ''__'' (copy_name hash_hex now rel) = Some (utc_timestamp now, percent_encode rel)"
    using split_once_found [OF timestamp_no_mark(2)] assms(2) by (simp add: copy_name_def quarantine_name_def Let_def)
  ultimately show ?thesis using assms(1) by (simp add: path_from_name_def percent_decode_def)
qed


definition demo_hash :: "string \<Rightarrow> string" where
  "demo_hash s = replicate 16 CHR ''0''"

definition demo_folder :: "relpath \<Rightarrow> folder" where
  "demo_folder rel = \<lparr>fo_files = [(rel, \<lparr>fd_bytes = [1, 2, 3], fd_readonly = True\<rparr>)], fo_copies = [], fo_index = []\<rparr>"

lemma demo_hash_ok: "hex_hash demo_hash"
  by (simp add: hex_hash_def demo_hash_def is_ascii_alphanumeric_def is_ascii_digit_def ascii_code_def list_all_iff)


text \<open>
  A copy can be out of reach: a path with two consecutive dots in a name passes the sanitizer and is
  quarantined, but its copy is stored under a name the conflict center rejects as an invalid identifier,
  so it can be listed but neither shown, restored nor discarded through it.
\<close>

theorem dotted_copy_out_of_reach:
  "sanitize_rel_path ''draft..txt'' = Ok ''draft..txt''
   \<and> (\<exists>name fo'. quarantine demo_hash now ''draft..txt'' reason (demo_folder ''draft..txt'') = (Ok name, fo')
        \<and> bt_get (fo_copies fo') name \<noteq> None
        \<and> copy_path fo' name = Err (InvalidId name) \<and> fst (discard name fo') = Err (InvalidId name)
        \<and> resolve_id (list_conflicts fo') name = Err (InvalidId name))"
proof
  show "sanitize_rel_path ''draft..txt'' = Ok ''draft..txt''"
    by (simp add: sanitize_rel_path_def MAX_PATH_LEN_def starts_with_def META_DIR_def eq_ignore_ascii_case_def
        to_ascii_lower_def is_ascii_upper_def ascii_code_def)
  let ?name = "copy_name demo_hash now ''draft..txt''"
  have enc: "percent_encode ''draft..txt'' = ''draft..txt''"
    by (simp add: encode_byte_def unreserved_def is_ascii_alphanumeric_def is_ascii_alphabetic_def is_ascii_lower_def ascii_code_def)
  have "contains_sub ''..'' ?name"
    unfolding contains_sub_iff copy_name_def quarantine_name_def enc
    by (intro exI [of _ "utc_timestamp now @ ''__draft''"] exI [of _ "''txt''"]) (simp add: MAX_ENCODED_def)
  then have "\<not> valid_id ?name" by (simp add: valid_id_def)
  then show "\<exists>name fo'. quarantine demo_hash now ''draft..txt'' reason (demo_folder ''draft..txt'') = (Ok name, fo')
        \<and> bt_get (fo_copies fo') name \<noteq> None
        \<and> copy_path fo' name = Err (InvalidId name) \<and> fst (discard name fo') = Err (InvalidId name)
        \<and> resolve_id (list_conflicts fo') name = Err (InvalidId name)"
    by (simp add: quarantine_def demo_folder_def bt_get_def Let_def append_index_def copy_path_def discard_def resolve_id_def)
qed

section \<open>Identifiers\<close>

text \<open>
  What an identifier resolves to: a valid identifier resolves exactly when one listed copy's name starts with
  it, and to that copy; so a unique prefix always works, but a full name does not when it is a proper
  prefix of another copy's name, as with copies of two files made within the same millisecond.
\<close>

theorem resolve_id_exact:
  "(resolve_id entries i = Ok e \<longleftrightarrow> valid_id i \<and> filter (\<lambda>e. starts_with (ce_name e) i) entries = [e])
   \<and> (e1 \<in> set entries \<and> e2 \<in> set entries \<and> ce_name e2 = ce_name e1 @ rest \<and> rest \<noteq> []
        \<longrightarrow> (\<forall>e. resolve_id entries (ce_name e1) \<noteq> Ok e))"
proof
  have eq: "filter (\<lambda>e. ce_name e = i \<or> starts_with (ce_name e) i) entries = filter (\<lambda>e. starts_with (ce_name e) i) entries" for i
    by (rule filter_cong) (auto simp: starts_with_iff)
  show ok: "resolve_id entries i = Ok e \<longleftrightarrow> valid_id i \<and> filter (\<lambda>e. starts_with (ce_name e) i) entries = [e]" for i e
    unfolding resolve_id_def Let_def eq by (auto split: list.splits)
  show "e1 \<in> set entries \<and> e2 \<in> set entries \<and> ce_name e2 = ce_name e1 @ rest \<and> rest \<noteq> []
      \<longrightarrow> (\<forall>e. resolve_id entries (ce_name e1) \<noteq> Ok e)"
  proof (intro impI allI notI)
    fix e assume *: "e1 \<in> set entries \<and> e2 \<in> set entries \<and> ce_name e2 = ce_name e1 @ rest \<and> rest \<noteq> []"
      and "resolve_id entries (ce_name e1) = Ok e"
    then have f: "filter (\<lambda>e. starts_with (ce_name e) (ce_name e1)) entries = [e]" by (simp add: ok)
    have "e1 \<in> set [e]" "e2 \<in> set [e]" unfolding f [symmetric] using * by (auto simp: starts_with_iff)
    with * show False by auto
  qed
qed

definition demo_entry :: "string \<Rightarrow> conflict_entry" where
  "demo_entry name = \<lparr>ce_name = name, ce_path = None, ce_reason = None, ce_ts_ms = 0, ce_size = 0\<rparr>"

theorem resolve_id_exact_witness:
  "\<forall>e. resolve_id [demo_entry ''0Z__a.txt'', demo_entry ''0Z__a''] ''0Z__a'' \<noteq> Ok e"
proof -
  have "ce_name (demo_entry ''0Z__a'') = ''0Z__a''" and "ce_name (demo_entry ''0Z__a.txt'') = ''0Z__a'' @ ''.txt''"
    by (simp_all add: demo_entry_def)
  then show ?thesis
    using resolve_id_exact [THEN conjunct2, of "demo_entry ''0Z__a''" "[demo_entry ''0Z__a.txt'', demo_entry ''0Z__a'']"
        "demo_entry ''0Z__a.txt''" "''.txt''"]
    by (metis list.distinct(1) list.set_intros(1,2))
qed

section \<open>Keeping both\<close>

text \<open>
  Keeping both never overwrites: the name chosen for the second copy is free whenever any of the ten
  thousand candidates is, whatever names are taken, and the choice always terminates.
\<close>

theorem both_name_free:
  assumes "2 \<le> n" and "n \<le> 10000"
    and "\<not> taken (fst (stem_ext rel) @ ''.conflict-'' @ trim_end_matches CHR ''Z'' (utc_timestamp ts_ms)
        @ ''-'' @ show_nat n @ snd (stem_ext rel))"
  shows "\<not> taken (both_name rel ts_ms taken)"
proof -
  define ns where "ns = [2..<10001 :: nat]"
  have "n \<in> set ns" using assms(1,2) unfolding ns_def set_upt by simp
  then show ?thesis
    using assms(3) unfolding both_name_def ns_def [symmetric] Let_def case_prod_beta
    by (auto simp: find_None_iff find_Some_iff simp del: trim_end_matches.simps split: option.splits)
qed

theorem both_name_free_witness: "\<not> (\<lambda>s. s = ''a.txt'') (both_name ''a.txt'' 0 (\<lambda>s. s = ''a.txt''))"
proof (rule both_name_free [of 2])
  have "fst (stem_ext ''a.txt'') = ''a''" by (simp add: stem_ext_def ends_with_def strip_suffix_def)
  then show "\<not> (\<lambda>s. s = ''a.txt'') (fst (stem_ext ''a.txt'') @ ''.conflict-''
      @ trim_end_matches CHR ''Z'' (utc_timestamp 0) @ ''-'' @ show_nat 2 @ snd (stem_ext ''a.txt''))"
    by simp
qed simp_all

end
