(* ===== verification/Query.thy ===== *)
theory Query
  imports Conflicts
begin

text \<open>
  Server-side queries (\<^verbatim>\<open>src/daemon.rs\<close>, from \<^verbatim>\<open>files_json_capped\<close> to \<^verbatim>\<open>cap_detail\<close>, and
  \<^verbatim>\<open>handle_file_query\<close>) and the audit log they page through (\<^verbatim>\<open>src/audit.rs\<close>): pattern
  compilation and matching, selection and paging of the index, byte budgets, audit filters and the incremental
  reader.  Scalar-wise Unicode case folding is a parameter; on ASCII it is the ASCII folding.
\<close>

section \<open>Patterns\<close>

definition QUERY_PATTERN_MAX :: nat where "QUERY_PATTERN_MAX = 256"
definition QUERY_PATTERN_WILDCARDS_MAX :: nat where "QUERY_PATTERN_WILDCARDS_MAX = 16"
definition QUERY_PAGE_BUDGET :: nat where "QUERY_PAGE_BUDGET = 700 * 1024"
definition FILE_QUERY_LIMIT_MAX :: nat where "FILE_QUERY_LIMIT_MAX = 500"
definition FILE_QUERY_LIMIT_DEFAULT :: nat where "FILE_QUERY_LIMIT_DEFAULT = 100"
definition MAX_VV_ENTRIES :: nat where "MAX_VV_ENTRIES = 4096"

definition record_acceptable :: "file_record \<Rightarrow> bool" where
  "record_acceptable r \<longleftrightarrow> length (fr_vv r) \<le> MAX_VV_ENTRIES"

definition files_json_capped ::
  "(relpath, file_record) btree \<Rightarrow> nat \<Rightarrow> (string \<times> u64 \<times> bool \<times> vclock) list \<times> nat \<times> bool" where
  "files_json_capped files cap =
     (map (\<lambda>(p, r). (p, fr_size r, fr_deleted r, fr_vv r)) (take cap files), length files, length files > cap)"

datatype query_error =
    PatternTooLong | TooManyWildcards | PatNul | PatBackslash | PatAbsolute | PatDriveLetter | PatBadSegment | PatReserved
  | BadSort string

fun query_code :: "query_error \<Rightarrow> string" where
  "query_code (BadSort _) = ''bad_request''"
| "query_code _ = ''bad_pattern''"

text \<open>A folded pattern: its folded scalars, and its folded bytes when it is ASCII.\<close>

record folded =
  fp_chars :: "nat list"
  fp_ascii :: "string option"

definition all_ascii :: "string \<Rightarrow> bool" where
  "all_ascii s \<longleftrightarrow> list_all is_ascii s"

definition fold_bytes :: "string \<Rightarrow> string" where
  "fold_bytes s = map to_ascii_lower s"

definition new_folded :: "(string \<Rightarrow> nat list) \<Rightarrow> string \<Rightarrow> folded" where
  "new_folded fold_chars pattern =
     \<lparr>fp_chars = fold_chars pattern, fp_ascii = (if all_ascii pattern then Some (fold_bytes pattern) else None)\<rparr>"

datatype path_matcher = MatchAll | Substring folded | Glob folded

fun any_start :: "'a list \<Rightarrow> 'a list \<Rightarrow> nat \<Rightarrow> bool" where
  "any_start hay needle 0 \<longleftrightarrow> take (length needle) hay = needle"
| "any_start hay needle (Suc n) \<longleftrightarrow>
     take (length needle) hay = needle \<or> any_start (tl hay) needle n"

definition contains_folded :: "'a list \<Rightarrow> 'a list \<Rightarrow> bool" where
  "contains_folded hay needle \<longleftrightarrow>
     (if needle = [] then True
      else if length needle > length hay then False
      else any_start hay needle (length hay - length needle))"

text \<open>
  The two pointers are the suffixes of pattern and text still to match; the backtrack mark holds the
  pattern after the most recent star and the text at which it was passed.
\<close>

function glob_loop :: "'a \<Rightarrow> 'a \<Rightarrow> 'a list \<Rightarrow> 'a list \<Rightarrow> ('a list \<times> 'a list) option \<Rightarrow> bool" where
  "glob_loop star question ps s bt =
     (case s of
        [] \<Rightarrow> dropWhile (\<lambda>x. x = star) ps = []
      | c # s' \<Rightarrow>
          if ps \<noteq> [] \<and> (hd ps = question \<or> hd ps = c) then glob_loop star question (tl ps) s' bt
          else if ps \<noteq> [] \<and> hd ps = star then glob_loop star question (tl ps) s (Some (tl ps, s))
          else case bt of
                 None \<Rightarrow> False
               | Some (r, mark) \<Rightarrow> glob_loop star question r (tl mark) (Some (r, tl mark)))"
  by pat_completeness auto
termination
proof (relation "measures [\<lambda>(_, _, ps, _, bt). max (length ps) (case bt of None \<Rightarrow> 0 | Some (r, _) \<Rightarrow> length r),
      \<lambda>(_, _, _, _, bt). case bt of None \<Rightarrow> 0 | Some (_, mark) \<Rightarrow> length mark, \<lambda>(_, _, _, s, _). length s]", goal_cases)
  case (2 star question ps s bt c s')
  then show ?case by (cases ps) (auto split: option.splits)
next
  case (3 star question ps s bt c s')
  then show ?case by (cases ps) (auto split: option.splits)
next
  case (4 star question ps s bt c s' x r mark)
  then show ?case by (cases mark) (auto simp: max_def)
qed simp

declare glob_loop.simps [simp del]

definition glob_match :: "'a list \<Rightarrow> 'a list \<Rightarrow> 'a \<Rightarrow> 'a \<Rightarrow> bool" where
  "glob_match pat s star question = glob_loop star question pat s None"

fun matches :: "(string \<Rightarrow> nat list) \<Rightarrow> path_matcher \<Rightarrow> string \<Rightarrow> bool" where
  "matches fold_chars MatchAll path = True"
| "matches fold_chars (Substring pat) path =
     (case fp_ascii pat of
        Some needle \<Rightarrow>
          if all_ascii path then contains_folded (fold_bytes path) needle
          else contains_folded (fold_chars path) (fp_chars pat)
      | None \<Rightarrow> contains_folded (fold_chars path) (fp_chars pat))"
| "matches fold_chars (Glob pat) path =
     (case fp_ascii pat of
        Some needle \<Rightarrow>
          if all_ascii path then glob_match needle (fold_bytes path) CHR ''*'' CHR ''?''
          else glob_match (fp_chars pat) (fold_chars path) 42 63
      | None \<Rightarrow> glob_match (fp_chars pat) (fold_chars path) 42 63)"

definition char_count :: "string \<Rightarrow> nat" where
  "char_count s = length (filter (\<lambda>c. \<not> in_range 0x80 0xBF c) s)"

fun pattern_segments :: "string list \<Rightarrow> query_error option" where
  "pattern_segments [] = None"
| "pattern_segments (seg # segs) =
     (if seg = ''.'' \<or> seg = ''..'' then Some PatBadSegment
      else if eq_ignore_ascii_case seg META_DIR then Some PatReserved
      else pattern_segments segs)"

definition compile_pattern :: "(string \<Rightarrow> nat list) \<Rightarrow> string \<Rightarrow> (path_matcher, query_error) res" where
  "compile_pattern fold_chars raw =
     (let pattern = trim raw in
      if pattern = [] then Ok MatchAll
      else if char_count pattern > QUERY_PATTERN_MAX then Err PatternTooLong
      else if CHR 0x00 \<in> set pattern then Err PatNul
      else if length pattern \<ge> 2 \<and> is_ascii_alphabetic (pattern ! 0) \<and> pattern ! 1 = CHR '':'' then Err PatDriveLetter
      else if CHR 0x5C \<in> set pattern then Err PatBackslash
      else if starts_with pattern ''/'' then Err PatAbsolute
      else case pattern_segments (split_on CHR ''/'' pattern) of
        Some e \<Rightarrow> Err e
      | None \<Rightarrow>
          let wildcards = length (filter (\<lambda>c. c = CHR ''*'' \<or> c = CHR ''?'') pattern) in
          if wildcards > QUERY_PATTERN_WILDCARDS_MAX then Err TooManyWildcards
          else let f = new_folded fold_chars pattern in Ok (if wildcards = 0 then Substring f else Glob f))"

section \<open>Selecting and paging\<close>

datatype file_sort = SortPath | SortSize

fun sort_str :: "file_sort \<Rightarrow> string" where
  "sort_str SortPath = ''path''"
| "sort_str SortSize = ''size''"

definition parse_file_sort :: "string option \<Rightarrow> (file_sort, query_error) res" where
  "parse_file_sort raw =
     (let v = (case raw of None \<Rightarrow> ''path'' | Some s \<Rightarrow> trim s) in
      if v = [] \<or> v = ''path'' \<or> v = ''name'' then Ok SortPath
      else if v = ''size'' \<or> v = ''bytes'' then Ok SortSize
      else Err (BadSort v))"

definition clamp_limit :: "nat option \<Rightarrow> nat \<Rightarrow> nat \<Rightarrow> nat" where
  "clamp_limit requested dflt most = min (unwrap_or dflt requested) most"

definition next_offset :: "nat \<Rightarrow> nat \<Rightarrow> nat \<Rightarrow> nat option" where
  "next_offset offset returned matched =
     (let next = offset + returned in if returned > 0 \<and> next < matched then Some next else None)"

record file_page =
  pg_rows :: "(relpath \<times> file_record) list"
  pg_matched :: nat
  pg_scanned :: nat

fun path_scan ::
  "(string \<Rightarrow> bool) \<Rightarrow> bool \<Rightarrow> nat \<Rightarrow> nat \<Rightarrow> (relpath \<times> file_record) list \<Rightarrow> file_page \<Rightarrow> file_page" where
  "path_scan matcher include_deleted offset end_at [] pg = pg"
| "path_scan matcher include_deleted offset end_at ((path, r) # es) pg =
     (if fr_deleted r \<and> \<not> include_deleted then path_scan matcher include_deleted offset end_at es pg
      else let pg1 = pg\<lparr>pg_scanned := Suc (pg_scanned pg)\<rparr> in
        if \<not> matcher path then path_scan matcher include_deleted offset end_at es pg1
        else let pg2 = (if pg_matched pg1 \<ge> offset \<and> pg_matched pg1 < end_at
                        then pg1\<lparr>pg_rows := pg_rows pg1 @ [(path, r)]\<rparr> else pg1) in
          path_scan matcher include_deleted offset end_at es (pg2\<lparr>pg_matched := Suc (pg_matched pg2)\<rparr>))"

definition size_order :: "bool \<Rightarrow> (relpath \<times> file_record) list \<Rightarrow> (relpath \<times> file_record) list" where
  "size_order desc hits =
     (let sorted = sort_key (\<lambda>(p, r). (fr_size r, p)) hits in if desc then rev sorted else sorted)"

definition select_files ::
  "(relpath, file_record) btree \<Rightarrow> (string \<Rightarrow> bool) \<Rightarrow> bool \<Rightarrow> file_sort \<Rightarrow> bool \<Rightarrow> nat \<Rightarrow> nat \<Rightarrow> file_page" where
  "select_files files matcher include_deleted srt desc offset limit =
     (case srt of
        SortPath \<Rightarrow>
          path_scan matcher include_deleted offset (offset + limit) (if desc then rev files else files)
            \<lparr>pg_rows = [], pg_matched = 0, pg_scanned = 0\<rparr>
      | SortSize \<Rightarrow>
          let tested = filter (\<lambda>(p, r). \<not> (fr_deleted r \<and> \<not> include_deleted)) files;
              hits = filter (\<lambda>(p, r). matcher p) tested
          in \<lparr>pg_rows = take limit (drop offset (size_order desc hits)), pg_matched = length hits,
              pg_scanned = length tested\<rparr>)"

fun fill_loop :: "('a \<Rightarrow> nat) \<Rightarrow> 'a list \<Rightarrow> nat \<Rightarrow> 'a list \<Rightarrow> 'a list \<times> bool" where
  "fill_loop cost [] budget out = (out, False)"
| "fill_loop cost (x # xs) budget out =
     (let budget' = budget - cost x in
      if budget' = 0 \<and> out \<noteq> [] then (out, True) else fill_loop cost xs budget' (out @ [x]))"

definition fill_budget :: "('a \<Rightarrow> nat) \<Rightarrow> 'a list \<Rightarrow> 'a list \<times> bool" where
  "fill_budget cost xs = fill_loop cost xs QUERY_PAGE_BUDGET []"

definition json_cost :: "string \<Rightarrow> nat" where
  "json_cost s = length s * 6"

definition valid_peer_filter :: "string \<Rightarrow> bool" where
  "valid_peer_filter s \<longleftrightarrow> s \<noteq> [] \<and> length s \<le> 64 \<and> list_all is_ascii_alphanumeric s"

definition valid_audit_kind :: "string \<Rightarrow> bool" where
  "valid_audit_kind s \<longleftrightarrow>
     s \<noteq> [] \<and> length s \<le> 64 \<and> list_all (\<lambda>c. is_ascii_alphanumeric c \<or> c = CHR ''-'' \<or> c = CHR ''_'') s"

definition is_scope_reason :: "string \<Rightarrow> bool" where
  "is_scope_reason reason \<longleftrightarrow>
     starts_with reason ''junk filter'' \<or> starts_with reason ''ignored by''
     \<or> starts_with reason ''outside this node's'' \<or> starts_with reason ''file is ''"

fun char_boundary_at :: "string \<Rightarrow> nat \<Rightarrow> nat" where
  "char_boundary_at d 0 = 0"
| "char_boundary_at d (Suc n) =
     (if Suc n < length d \<and> in_range 0x80 0xBF (d ! Suc n) then char_boundary_at d n else Suc n)"

definition cap_detail :: "string \<Rightarrow> string" where
  "cap_detail d = (if length d > 512 then take (char_boundary_at d 512) d @ bytes_of [0xE2, 0x80, 0xA6] else d)"

text \<open>The file query of the daemon: what is returned of the page, and where to continue.\<close>

record files_query =
  fq_pattern :: "string option"
  fq_sort :: "string option"
  fq_desc :: bool
  fq_include_deleted :: bool
  fq_offset :: nat
  fq_limit :: "nat option"

record files_reply =
  fy_rows :: "(relpath \<times> file_record) list"
  fy_matched :: nat
  fy_scanned :: nat
  fy_limit :: nat
  fy_next_offset :: "nat option"
  fy_truncated :: bool
  fy_index_total :: nat

definition row_cost :: "relpath \<times> file_record \<Rightarrow> nat" where
  "row_cost e = json_cost (fst e) + 224"

definition handle_file_query ::
  "(string \<Rightarrow> nat list) \<Rightarrow> (relpath, file_record) btree \<Rightarrow> files_query \<Rightarrow> (files_reply, query_error) res" where
  "handle_file_query fold_chars files q =
     (case compile_pattern fold_chars (unwrap_or [] (fq_pattern q)) of
        Inl e \<Rightarrow> Err e
      | Inr matcher \<Rightarrow>
          (case parse_file_sort (fq_sort q) of
             Inl e \<Rightarrow> Err e
           | Inr srt \<Rightarrow>
               let limit = clamp_limit (fq_limit q) FILE_QUERY_LIMIT_DEFAULT FILE_QUERY_LIMIT_MAX;
                   page = select_files files (matches fold_chars matcher) (fq_include_deleted q) srt (fq_desc q)
                     (fq_offset q) limit;
                   (rows, truncated) = fill_budget row_cost (pg_rows page)
               in Ok \<lparr>fy_rows = rows, fy_matched = pg_matched page, fy_scanned = pg_scanned page, fy_limit = limit,
                      fy_next_offset = next_offset (fq_offset q) (length rows) (pg_matched page),
                      fy_truncated = truncated, fy_index_total = length files\<rparr>))"

section \<open>The audit log\<close>

record audit_event =
  ae_ts_ms :: u64
  ae_kind :: string
  ae_path :: "string option"
  ae_peer :: "string option"
  ae_detail :: "string option"

record audit_filter =
  af_path :: "string option"
  af_peer :: "string option"
  af_since_ms :: "u64 option"
  af_kinds :: "string list"

definition filter_matches :: "audit_filter \<Rightarrow> audit_event \<Rightarrow> bool" where
  "filter_matches f e \<longleftrightarrow>
     (if af_path f \<noteq> None \<and> ae_path e \<noteq> af_path f then False
      else if is_some_and (\<lambda>peer. \<not> is_some_and (\<lambda>x. starts_with x peer) (ae_peer e)) (af_peer f) then False
      else if is_some_and (\<lambda>since. ae_ts_ms e < since) (af_since_ms f) then False
      else if af_kinds f \<noteq> [] \<and> ae_kind e \<notin> set (af_kinds f) then False
      else True)"

fun split_inclusive :: "string \<Rightarrow> string list" where
  "split_inclusive [] = []"
| "split_inclusive (c # s) =
     (if c = CHR 0x0A then [c] # split_inclusive s
      else case split_inclusive s of [] \<Rightarrow> [[c]] | w # ws \<Rightarrow> (c # w) # ws)"

fun follow_loop ::
  "(string \<Rightarrow> audit_event option) \<Rightarrow> audit_filter \<Rightarrow> string list \<Rightarrow> audit_event list \<times> nat \<Rightarrow> audit_event list \<times> nat" where
  "follow_loop parse f [] acc = acc"
| "follow_loop parse f (line # ls) (out, consumed) =
     (if \<not> ends_with line [CHR 0x0A] then (out, consumed)
      else follow_loop parse f ls
        (case parse (trim_end line) of
           Some e \<Rightarrow> if filter_matches f e then out @ [e] else out
         | None \<Rightarrow> out,
         consumed + length line))"

definition read_since_offset ::
  "(string \<Rightarrow> audit_event option) \<Rightarrow> audit_filter \<Rightarrow> string option \<Rightarrow> nat \<Rightarrow> audit_event list \<times> nat" where
  "read_since_offset parse f file from =
     (case file of
        None \<Rightarrow> ([], 0)
      | Some content \<Rightarrow>
          let len = length content; start = (if from > len then len else from); buf = drop start content in
          if \<not> utf8_ok buf then ([], len) else follow_loop parse f (split_inclusive buf) ([], start))"

definition audit_page :: "audit_event list \<Rightarrow> bool \<Rightarrow> nat \<Rightarrow> nat \<Rightarrow> audit_event list" where
  "audit_page events newest_first offset limit =
     take limit (drop offset (if newest_first then rev events else events))"

end
