(* ===== verification/QueryProps.thy ===== *)
theory QueryProps
  imports Query
begin

text \<open>
  Properties of the queries: the glob matcher against its declarative meaning, paging that loses and repeats
  nothing, and incremental reading of the audit log.
\<close>

section \<open>What a glob means\<close>

fun glob_spec :: "'a \<Rightarrow> 'a \<Rightarrow> 'a list \<Rightarrow> 'a list \<Rightarrow> bool" where
  "glob_spec star question [] s \<longleftrightarrow> s = []"
| "glob_spec star question (x # ps) s \<longleftrightarrow>
     (if x = star then \<exists>n \<le> length s. glob_spec star question ps (drop n s)
      else s \<noteq> [] \<and> (x = question \<or> x = hd s) \<and> glob_spec star question ps (tl s))"

lemma spec_star_iff:
  "glob_spec star q (star # ps) s \<longleftrightarrow> glob_spec star q ps s \<or> (s \<noteq> [] \<and> glob_spec star q (star # ps) (tl s))"
proof (cases s)
  case (Cons c s')
  have "(\<exists>n \<le> Suc (length s'). glob_spec star q ps (drop n (c # s'))) \<longleftrightarrow>
      glob_spec star q ps (c # s') \<or> (\<exists>n \<le> length s'. glob_spec star q ps (drop n s'))"
    by (metis (no_types, opaque_lifting) Suc_le_mono drop0 drop_Suc_Cons not0_implies_Suc zero_le)
  then show ?thesis by (simp add: Cons)
qed simp

lemma spec_star_suffix: "glob_spec star q (star # ps) t \<Longrightarrow> glob_spec star q (star # ps) (w @ t)"
  by (induction w) (simp_all add: spec_star_iff [of star q ps "_ # _"] del: glob_spec.simps)

lemma spec_literal_prefix:
  assumes "star \<notin> set u" and "glob_spec star q (u @ ps) t"
  shows "length u \<le> length t \<and> glob_spec star q ps (drop (length u) t)"
  using assms
proof (induction u arbitrary: t)
  case (Cons x u)
  then show ?case by (cases t) auto
qed simp

definition resume :: "'a \<Rightarrow> 'a \<Rightarrow> ('a list \<times> 'a list) option \<Rightarrow> bool" where
  "resume star q bt \<longleftrightarrow>
     (case bt of None \<Rightarrow> False | Some (r, mark) \<Rightarrow> mark \<noteq> [] \<and> glob_spec star q (star # r) (tl mark))"

definition tracks :: "'a \<Rightarrow> 'a list \<Rightarrow> 'a list \<Rightarrow> ('a list \<times> 'a list) option \<Rightarrow> bool" where
  "tracks star ps s bt \<longleftrightarrow>
     (case bt of None \<Rightarrow> True
      | Some (r, mark) \<Rightarrow> \<exists>u w. r = u @ ps \<and> mark = w @ s \<and> length u = length w \<and> star \<notin> set u)"

text \<open>Passing a later star loses nothing: whatever the earlier mark could still match, the later one can too.\<close>

lemma later_star_subsumes:
  assumes "tracks star (star # ps) s bt" and "resume star q bt"
  shows "glob_spec star q (star # ps) s"
proof -
  obtain r mark u w where bt: "bt = Some (r, mark)" and r: "r = u @ star # ps" and m: "mark = w @ s"
    and len: "length u = length w" and u: "star \<notin> set u"
    using assms by (auto simp: tracks_def resume_def split: option.splits)
  have "mark \<noteq> []" and "glob_spec star q (star # r) (tl mark)"
    using assms(2) by (auto simp: resume_def bt)
  then obtain n where n: "n \<le> length (tl mark)" "glob_spec star q (u @ star # ps) (drop n (tl mark))"
    unfolding r by auto
  let ?t = "drop (length u) (drop n (tl mark))"
  have "length u \<le> length (drop n (tl mark))" and t: "glob_spec star q (star # ps) ?t"
    using spec_literal_prefix [OF u n(2)] by blast+
  moreover have "?t = drop (Suc n) s"
  proof -
    have "?t = drop (length u + Suc n) mark" by (metis drop_Suc drop_drop)
    then show ?thesis by (simp add: m len)
  qed
  ultimately show ?thesis
    using spec_star_suffix [of star q ps "drop (Suc n) s" "take (Suc n) s"] by (metis append_take_drop_id)
qed

lemma tracks_advance:
  assumes "tracks star (x # ps) (c # s) bt" and "x \<noteq> star"
  shows "tracks star ps s bt"
proof (cases bt)
  case (Some p)
  obtain r mark u w where bt: "bt = Some (r, mark)" and r: "r = u @ x # ps" and m: "mark = w @ c # s"
    and len: "length u = length w" and u: "star \<notin> set u"
    using assms(1) Some by (cases p) (auto simp: tracks_def)
  have "r = (u @ [x]) @ ps" "mark = (w @ [c]) @ s" "length (u @ [x]) = length (w @ [c])" "star \<notin> set (u @ [x])"
    using assms(2) r m len u by auto
  then show ?thesis unfolding tracks_def bt option.case prod.case by blast
qed (simp add: tracks_def)

lemma resume_too_short:
  assumes "tracks star (x # ps) [c] bt" and "x \<noteq> star"
  shows "\<not> resume star q bt"
proof
  assume res: "resume star q bt"
  obtain r mark u w where bt: "bt = Some (r, mark)" and r: "r = u @ x # ps" and m: "mark = w @ [c]"
    and len: "length u = length w" and u: "star \<notin> set u"
    using assms(1) res by (auto simp: tracks_def resume_def split: option.splits)
  obtain n where "glob_spec star q ((u @ [x]) @ ps) (drop n (tl mark))"
    using res by (auto simp: resume_def bt r)
  moreover have "star \<notin> set (u @ [x])" using u assms(2) by auto
  ultimately have "length (u @ [x]) \<le> length (drop n (tl mark))"
    using spec_literal_prefix [of star "u @ [x]" q ps "drop n (tl mark)"] by blast
  then show False by (simp add: m len)
qed

fun mark_set :: "('a list \<times> 'a list) option \<Rightarrow> 'a set" where
  "mark_set None = {}"
| "mark_set (Some (r, m)) = set m"

lemma glob_loop_correct:
  assumes "star \<notin> set s" and "tracks star ps s bt"
    and "question \<noteq> star" and "star \<notin> mark_set bt"
  shows "glob_loop star question ps s bt \<longleftrightarrow> glob_spec star question ps s \<or> (s \<noteq> [] \<and> resume star question bt)"
  using assms
proof (induction star question ps s bt rule: glob_loop.induct)
  case (1 star question ps s bt)
  show ?case
  proof (cases s)
    case Nil
    have "glob_spec star question ps [] \<longleftrightarrow> dropWhile (\<lambda>x. x = star) ps = []"
      by (induction ps) auto
    with Nil show ?thesis by (simp add: glob_loop.simps)
  next
    case (Cons c s')
    let ?lit = "ps \<noteq> [] \<and> (hd ps = question \<or> hd ps = c)" and ?star = "ps \<noteq> [] \<and> hd ps = star"
    consider (lit) x ps' where "ps = x # ps'" "x = question \<or> x = c" | (star) ps' where "ps = star # ps'" "\<not> ?lit"
      | (retry) "\<not> ?lit" "\<not> ?star"
      by (cases ps) auto
    then show ?thesis
    proof cases
      case lit
      then have x: "x \<noteq> star" using "1.prems"(1,3) Cons by auto
      have tr: "tracks star ps' s' bt"
        using tracks_advance [of star x ps' c s' bt] "1.prems"(2) x Cons lit(1) by simp
      have "glob_loop star question ps' s' bt \<longleftrightarrow> glob_spec star question ps' s' \<or> (s' \<noteq> [] \<and> resume star question bt)"
      proof -
        have "glob_loop star question (tl ps) s' bt \<longleftrightarrow>
            glob_spec star question (tl ps) s' \<or> (s' \<noteq> [] \<and> resume star question bt)"
          by (rule "1.IH"(1) [of c s']) (use lit tr "1.prems"(1,3,4) Cons in auto)
        then show ?thesis using lit(1) by simp
      qed
      moreover have "s' = [] \<Longrightarrow> \<not> resume star question bt"
        using resume_too_short [of star x ps' c bt question] "1.prems"(2) Cons lit(1) x by simp
      ultimately show ?thesis
        using lit x Cons by (subst glob_loop.simps) auto
    next
      case star
      have "glob_loop star question ps' s (Some (ps', s)) \<longleftrightarrow> glob_spec star question (star # ps') s"
        using "1.IH"(2) [of c s'] star "1.prems"(1,3) Cons
        by (simp add: tracks_def resume_def spec_star_iff [of star question ps' "c # s'"] del: glob_spec.simps)
      moreover have "resume star question bt \<Longrightarrow> glob_spec star question (star # ps') s"
        using later_star_subsumes [of star ps' s bt question] "1.prems"(2) star(1) by simp
      ultimately show ?thesis
        using star Cons by (subst glob_loop.simps) (auto simp del: glob_spec.simps)
    next
      case retry
      have no: "\<not> glob_spec star question ps s"
        using retry Cons by (cases ps) auto
      show ?thesis
      proof (cases bt)
        case None
        then show ?thesis using no retry Cons by (subst glob_loop.simps) (auto simp: resume_def)
      next
        case (Some p)
        obtain r mark where bt: "bt = Some (r, mark)" using Some by (cases p) auto
        have m: "mark \<noteq> []" using "1.prems"(2) Cons by (auto simp: bt tracks_def)
        have "star \<notin> set (tl mark)" using "1.prems"(4) m by (auto simp: bt dest: list.set_sel(2))
        then have "glob_loop star question r (tl mark) (Some (r, tl mark)) \<longleftrightarrow> glob_spec star question (star # r) (tl mark)"
          using "1.IH"(3) [of c s' "(r, mark)" r mark] Cons retry(1,2) bt "1.prems"(3)
          by (simp add: tracks_def resume_def spec_star_iff [of star question r "tl mark"] del: glob_spec.simps)
        then show ?thesis
          using no retry Cons m by (subst glob_loop.simps) (auto simp: bt resume_def simp del: glob_spec.simps)
      qed
    qed
  qed
qed

text \<open>
  C39. The two-pointer matcher is the glob it claims to be: for text without a literal star it accepts exactly
  when some choice of a stretch of text for every star (empty stretches and slashes included) and of
  one element for every question mark makes the pattern equal the whole text; a single backtrack mark suffices,
  and the loop always terminates.
\<close>

theorem glob_match_correct:
  assumes "star \<notin> set s" and "question \<noteq> star"
  shows "glob_match pat s star question \<longleftrightarrow> glob_spec star question pat s"
  unfolding glob_match_def
  using glob_loop_correct [of star s pat None question] assms by (simp add: tracks_def resume_def)

theorem glob_match_correct_witness:
  "glob_match ''*.t?t'' ''a/b.txt'' CHR ''*'' CHR ''?'' \<longleftrightarrow> glob_spec CHR ''*'' CHR ''?'' ''*.t?t'' ''a/b.txt''"
  by (rule glob_match_correct) simp_all

text \<open>
  A literal star in a file name breaks the match: the matcher compares the pattern's star with a star of the
  text as ordinary characters first and then forgets that it was a wildcard, so a name that the pattern
  denotes is not found, although a glob is documented to let its star span anything.
\<close>

theorem glob_misses_literal_star:
  "glob_spec CHR ''*'' CHR ''?'' ''*b'' ''*ab'' \<and> \<not> glob_match ''*b'' ''*ab'' CHR ''*'' CHR ''?''"
proof
  show "glob_spec CHR ''*'' CHR ''?'' ''*b'' ''*ab''"
    by (simp add: exI [of _ 2])
  show "\<not> glob_match ''*b'' ''*ab'' CHR ''*'' CHR ''?''"
    by (simp add: glob_match_def glob_loop.simps)
qed

section \<open>Paging\<close>

definition is_hit :: "(string \<Rightarrow> bool) \<Rightarrow> bool \<Rightarrow> relpath \<times> file_record \<Rightarrow> bool" where
  "is_hit matcher include_deleted e \<longleftrightarrow> (\<not> fr_deleted (snd e) \<or> include_deleted) \<and> matcher (fst e)"

definition all_hits ::
  "(relpath, file_record) btree \<Rightarrow> (string \<Rightarrow> bool) \<Rightarrow> bool \<Rightarrow> file_sort \<Rightarrow> bool \<Rightarrow> (relpath \<times> file_record) list" where
  "all_hits files matcher include_deleted srt desc =
     (let hits = filter (is_hit matcher include_deleted) files in
      case srt of SortPath \<Rightarrow> if desc then rev hits else hits | SortSize \<Rightarrow> size_order desc hits)"

definition window :: "nat \<Rightarrow> nat \<Rightarrow> nat \<Rightarrow> 'a list \<Rightarrow> 'a list" where
  "window offset end_at n xs = map snd (filter (\<lambda>(i, _). offset \<le> i \<and> i < end_at) (enumerate n xs))"

lemma window_eq: "window offset end_at n xs = take (end_at - max offset n) (drop (offset - n) xs)"
proof (induction xs arbitrary: n)
  case (Cons x xs)
  consider "n < offset" | "offset \<le> n" "n < end_at" | "offset \<le> n" "end_at \<le> n" by linarith
  then show ?case
  proof cases
    case 1
    then have "offset - n = Suc (offset - Suc n)" "max offset (Suc n) = max offset n" by auto
    with 1 Cons show ?thesis by (simp add: window_def)
  next
    case 2
    then have "end_at - max offset n = Suc (end_at - max offset (Suc n))" "offset - n = 0" "offset - Suc n = 0" by auto
    with 2 Cons show ?thesis by (simp add: window_def)
  next
    case 3
    then have "end_at - max offset n = 0" "end_at - max offset (Suc n) = 0" by auto
    with 3 Cons show ?thesis by (simp add: window_def)
  qed
qed (simp add: window_def)

lemma path_scan_window:
  "pg_rows (path_scan matcher incl offset end_at es pg) =
      pg_rows pg @ window offset end_at (pg_matched pg) (filter (is_hit matcher incl) es)
    \<and> pg_matched (path_scan matcher incl offset end_at es pg) = pg_matched pg + length (filter (is_hit matcher incl) es)"
proof (induction matcher incl offset end_at es pg rule: path_scan.induct)
  case (2 matcher incl offset end_at path r es pg)
  then show ?case
    by (cases "fr_deleted r \<and> \<not> incl"; cases "matcher path") (auto simp: Let_def is_hit_def window_def)
qed (simp add: window_def)

lemma length_size_order [simp]: "length (size_order desc hits) = length hits"
  by (simp add: size_order_def Let_def)

lemma select_files_page:
  "pg_rows (select_files files matcher incl srt desc offset limit) =
      take limit (drop offset (all_hits files matcher incl srt desc))
   \<and> pg_matched (select_files files matcher incl srt desc offset limit) = length (all_hits files matcher incl srt desc)"
proof (cases srt)
  case SortPath
  then show ?thesis
    using path_scan_window [of matcher incl offset "offset + limit" "if desc then rev files else files"]
    by (auto simp: select_files_def all_hits_def Let_def window_eq rev_filter)
next
  case SortSize
  have "filter (\<lambda>(p, r). matcher p) (filter (\<lambda>(p, r). \<not> (fr_deleted r \<and> \<not> incl)) files) = filter (is_hit matcher incl) files"
    by (auto simp: is_hit_def case_prod_beta intro!: filter_cong)
  with SortSize show ?thesis by (simp add: select_files_def all_hits_def Let_def)
qed

lemma fill_loop_prefix:
  "\<exists>n. fst (fill_loop cost xs budget out) = out @ take n xs \<and> (out = [] \<and> xs \<noteq> [] \<longrightarrow> n > 0)"
proof (induction cost xs budget out rule: fill_loop.induct)
  case (2 cost x xs budget out)
  show ?case
  proof (cases "budget - cost x = 0 \<and> out \<noteq> []")
    case True
    then show ?thesis by (auto simp: Let_def intro: exI [of _ 0])
  next
    case False
    then obtain n where "fst (fill_loop cost xs (budget - cost x) (out @ [x])) = (out @ [x]) @ take n xs"
      using 2 [OF refl] by (auto simp: Let_def)
    with False show ?thesis by (auto simp: Let_def intro!: exI [of _ "Suc n"])
  qed
qed simp

lemma fill_budget_prefix: "\<exists>n. fst (fill_budget cost xs) = take n xs \<and> (xs \<noteq> [] \<longrightarrow> n > 0)"
  using fill_loop_prefix [of cost xs QUERY_PAGE_BUDGET "[]"] by (simp add: fill_budget_def)

fun collect :: "(string \<Rightarrow> nat list) \<Rightarrow> (relpath, file_record) btree \<Rightarrow> nat \<Rightarrow> files_query \<Rightarrow> (relpath \<times> file_record) list" where
  "collect fold_chars files 0 q = []"
| "collect fold_chars files (Suc n) q =
     (case handle_file_query fold_chars files q of
        Inl _ \<Rightarrow> []
      | Inr y \<Rightarrow> fy_rows y @ (case fy_next_offset y of None \<Rightarrow> [] | Some off \<Rightarrow> collect fold_chars files n (q\<lparr>fq_offset := off\<rparr>)))"

lemma take_cut: "xs = take k (take n ys) \<Longrightarrow> xs = take (length xs) ys"
  by (metis append_eq_conv_conj append_take_drop_id take_take)

lemma collect_from:
  fixes files :: "(relpath, file_record) btree"
  assumes "compile_pattern fold_chars (unwrap_or [] (fq_pattern q)) = Ok m" and "parse_file_sort (fq_sort q) = Ok srt"
    and "fq_limit q \<noteq> Some 0"
  defines "H \<equiv> all_hits files (matches fold_chars m) (fq_include_deleted q) srt (fq_desc q)"
  shows "length H - fq_offset q \<le> n \<Longrightarrow> collect fold_chars files n q = drop (fq_offset q) H"
  using assms(1,2,3) unfolding H_def
proof (induction n arbitrary: q)
  case (Suc n)
  let ?H = "all_hits files (matches fold_chars m) (fq_include_deleted q) srt (fq_desc q)"
  let ?limit = "clamp_limit (fq_limit q) FILE_QUERY_LIMIT_DEFAULT FILE_QUERY_LIMIT_MAX"
  let ?rows = "take ?limit (drop (fq_offset q) ?H)"
  have limit: "?limit > 0"
    using Suc.prems(4)
    by (cases "fq_limit q") (auto simp: clamp_limit_def FILE_QUERY_LIMIT_DEFAULT_def FILE_QUERY_LIMIT_MAX_def)
  obtain k where k: "fst (fill_budget row_cost ?rows) = take k ?rows" "?rows \<noteq> [] \<longrightarrow> k > 0"
    using fill_budget_prefix by blast
  define got where "got = take k ?rows"
  have reply: "handle_file_query fold_chars files q = Ok y \<longrightarrow> fy_rows y = got
      \<and> fy_next_offset y = next_offset (fq_offset q) (length got) (length ?H)" for y
    using Suc.prems(2,3) k(1) select_files_page [of files "matches fold_chars m"]
    by (auto simp: handle_file_query_def Let_def got_def case_prod_beta)
  obtain y where y: "handle_file_query fold_chars files q = Ok y"
    using Suc.prems(2,3) by (simp add: handle_file_query_def Let_def case_prod_beta)
  have got: "got = take (length got) (drop (fq_offset q) ?H)"
    by (rule take_cut) (auto simp: got_def)
  show ?case
  proof (cases "next_offset (fq_offset q) (length got) (length ?H)")
    case None
    then have "length got = 0 \<or> length ?H \<le> fq_offset q + length got" by (auto simp: next_offset_def Let_def split: if_splits)
    moreover have "length ?H \<le> fq_offset q" if "length got = 0"
      using that k(2) limit by (auto simp: got_def)
    ultimately have "length (drop (fq_offset q) ?H) \<le> length got" by auto
    then have "drop (fq_offset q) ?H = got" using got take_all [of "drop (fq_offset q) ?H"] by simp
    then show ?thesis using reply y None by simp
  next
    case (Some off)
    then have off: "off = fq_offset q + length got" "length got > 0" "off < length ?H"
      by (auto simp: next_offset_def Let_def split: if_splits)
    have "length ?H - off \<le> n" using Suc.prems(1) off by linarith
    then have "collect fold_chars files n (q\<lparr>fq_offset := off\<rparr>) = drop off ?H"
      using Suc.IH [of "q\<lparr>fq_offset := off\<rparr>"] Suc.prems off by simp
    moreover have "got @ drop off ?H = drop (fq_offset q) ?H"
      using got off(1) append_take_drop_id [of "length got" "drop (fq_offset q) ?H"] by (simp add: add.commute)
    ultimately show ?thesis using reply y Some by simp
  qed
qed simp

text \<open>
  Paging shows everything exactly once: starting at offset zero and following the next offset a reply
  names, whatever the page size asked for and however often the byte budget cuts a page short, the pages
  of a query concatenate to the full list of matching files in the requested order.
\<close>

theorem file_query_pages_complete:
  assumes "compile_pattern fold_chars (unwrap_or [] (fq_pattern q)) = Ok m" and "parse_file_sort (fq_sort q) = Ok srt"
    and "fq_limit q \<noteq> Some 0" and "fq_offset q = 0" and "length files \<le> n"
  shows "collect fold_chars files n q =
    all_hits files (matches fold_chars m) (fq_include_deleted q) srt (fq_desc q)"
proof -
  have "length (all_hits files (matches fold_chars m) (fq_include_deleted q) srt (fq_desc q)) \<le> length files"
    by (cases srt) (auto simp: all_hits_def Let_def)
  then show ?thesis
    using collect_from [OF assms(1,2,3), of files n] assms(4,5) by simp
qed

definition demo_query :: files_query where
  "demo_query = \<lparr>fq_pattern = None, fq_sort = None, fq_desc = False, fq_include_deleted = False, fq_offset = 0, fq_limit = Some 1\<rparr>"

theorem file_query_pages_complete_witness:
  "collect (map ascii_code) [(''a'', demo_rec []), (''b'', demo_rec [])] 2 demo_query =
     [(''a'', demo_rec []), (''b'', demo_rec [])]"
proof -
  have "collect (map ascii_code) [(''a'', demo_rec []), (''b'', demo_rec [])] 2 demo_query =
      all_hits [(''a'', demo_rec []), (''b'', demo_rec [])] (matches (map ascii_code) MatchAll) False SortPath False"
    using file_query_pages_complete [of "map ascii_code" demo_query MatchAll SortPath
        "[(''a'', demo_rec []), (''b'', demo_rec [])]" 2]
    by (simp add: demo_query_def compile_pattern_def trim_def trim_start_def trim_end_def parse_file_sort_def)
  then show ?thesis by (simp add: all_hits_def is_hit_def demo_rec_def)
qed

end
