(* ===== verification/AuditProps.thy ===== *)
theory AuditProps
  imports Query
begin

text \<open>
  The audit follower: polls of a growing log compose to one poll, and the torn-character case in which they do not.
\<close>

section \<open>Following the audit log\<close>

definition whole_lines :: "string \<Rightarrow> bool" where
  "whole_lines p \<longleftrightarrow> p = [] \<or> last p = CHR 0x0A"

text \<open>One encoded character: what the validity check consumes in one step.\<close>

fun utf8_char :: "string \<Rightarrow> bool" where
  "utf8_char [b] \<longleftrightarrow> in_range 0 0x7F b"
| "utf8_char [b, c1] \<longleftrightarrow> in_range 0xC2 0xDF b \<and> in_range 0x80 0xBF c1"
| "utf8_char [b, c1, c2] \<longleftrightarrow> in_range 0xE0 0xEF b
     \<and> (if ascii_code b = 0xE0 then in_range 0xA0 0xBF c1
        else if ascii_code b = 0xED then in_range 0x80 0x9F c1 else in_range 0x80 0xBF c1)
     \<and> in_range 0x80 0xBF c2"
| "utf8_char [b, c1, c2, c3] \<longleftrightarrow> in_range 0xF0 0xF4 b
     \<and> (if ascii_code b = 0xF0 then in_range 0x90 0xBF c1
        else if ascii_code b = 0xF4 then in_range 0x80 0x8F c1 else in_range 0x80 0xBF c1)
     \<and> in_range 0x80 0xBF c2 \<and> in_range 0x80 0xBF c3"
| "utf8_char _ \<longleftrightarrow> False"

fun_cases utf8_charE: "utf8_char c"

lemma utf8_char_step: "utf8_char c \<Longrightarrow> utf8_ok (c @ r) \<longleftrightarrow> utf8_ok r"
  by (elim utf8_charE; simp only: append.simps) (subst utf8_ok.simps, (auto simp: in_range_def simp del: utf8_ok.simps split: if_splits)[1])+

lemma utf8_first_char:
  assumes "utf8_ok (b # s)"
  obtains c r where "b # s = c @ r" "utf8_char c" "utf8_ok r"
proof -
  have "\<exists>n. n \<le> length (b # s) \<and> utf8_char (take n (b # s))"
  proof (cases s)
    case Nil
    then show ?thesis using assms by (auto split: if_splits intro!: exI [of _ 1])
  next
    case s: (Cons c1 s1)
    show ?thesis
    proof (cases s1)
      case Nil
      then show ?thesis using assms s
        by (subst (asm) utf8_ok.simps) (auto split: if_splits intro: exI [of _ 1] exI [of _ 2])
    next
      case s1: (Cons c2 s2)
      have 1: "?thesis" if "in_range 0 0x7F b" using that by (intro exI [of _ 1]) simp
      have 2: "?thesis" if "in_range 0xC2 0xDF b \<and> in_range 0x80 0xBF c1"
        using that s by (intro exI [of _ 2]) simp
      have 3: "?thesis" if "utf8_char [b, c1, c2]"
        using that s s1 by (intro exI [of _ 3]) (simp add: numeral_3_eq_3 del: utf8_char.simps)
      have 4: "?thesis" if "utf8_char [b, c1, c2, hd s2]" "s2 \<noteq> []"
        using that s s1 by (intro exI [of _ 4]) (cases s2, simp_all add: eval_nat_numeral del: utf8_char.simps)
      show ?thesis
        using assms 1 2 3 4 s s1 by (subst (asm) utf8_ok.simps) (auto split: if_splits list.splits simp del: utf8_ok.simps)
    qed
  qed
  then obtain n where "utf8_char (take n (b # s))" by blast
  then show ?thesis using that [of "take n (b # s)" "drop n (b # s)"] utf8_char_step [of _ "drop n (b # s)"] assms
    by (metis append_take_drop_id)
qed

lemma utf8_append: "utf8_ok x \<Longrightarrow> utf8_ok (x @ y) \<longleftrightarrow> utf8_ok y"
proof (induction "length x" arbitrary: x rule: less_induct)
  case less
  show ?case
  proof (cases x)
    case (Cons b s)
    obtain c r where c: "x = c @ r" "utf8_char c" "utf8_ok r"
      using utf8_first_char [of b s] less.prems Cons by metis
    have "length r < length x" using c by (cases c) auto
    then show ?thesis using less.hyps [of r] c utf8_char_step [of c "r @ y"] by simp
  qed simp
qed

lemma newline: "in_range lo hi (CHR 0x0A) \<longleftrightarrow> lo \<le> 10 \<and> 10 \<le> hi"
  by (simp add: in_range_def ascii_code_def)

lemma whole_lines_utf8: "whole_lines p \<Longrightarrow> utf8_ok (p @ q) \<Longrightarrow> utf8_ok p"
proof (induction "length p" arbitrary: p rule: less_induct)
  case less
  show ?case
  proof (cases p)
    case (Cons b s)
    obtain c r where c: "p @ q = c @ r" "utf8_char c" "utf8_ok r"
      using utf8_first_char [of b "s @ q"] less.prems Cons by (metis append_Cons)
    from c(1) consider u where "p = c @ u" "u @ q = r" | u where "u \<noteq> []" "c = p @ u" "q = u @ r"
      by (metis append_eq_append_conv2 append_self_conv)
    then show ?thesis
    proof cases
      case (1 u)
      have "length u < length p" using 1 c(2) by (cases c) auto
      moreover have "whole_lines u" using less.prems(1) 1 by (cases "u = []") (auto simp: whole_lines_def)
      ultimately show ?thesis using less.hyps [of u] 1 c utf8_char_step [of c u] by simp
    next
      case (2 u)
      have "last p = CHR 0x0A" using less.prems(1) Cons by (simp add: whole_lines_def)
      then have "CHR 0x0A \<in> set p" using Cons last_in_set [of p] by simp
      moreover have "length p < length c" using 2 by simp
      ultimately have False using c(2) 2 Cons less.prems(1) by (elim utf8_charE) (auto simp: newline Cons_eq_append_conv split: if_splits)
      then show ?thesis ..
    qed
  qed simp
qed

lemma split_lines_append:
  "whole_lines p \<Longrightarrow> split_inclusive (p @ q) = split_inclusive p @ split_inclusive q"
proof (induction p)
  case (Cons c p)
  show ?case
  proof (cases "p = []")
    case False
    then have "split_inclusive p \<noteq> []" by (cases p) (auto split: list.splits)
    with False Cons show ?thesis by (auto simp: whole_lines_def split: list.splits)
  qed (use Cons in \<open>simp add: whole_lines_def\<close>)
qed simp

lemma split_lines_whole: "whole_lines p \<Longrightarrow> l \<in> set (split_inclusive p) \<Longrightarrow> ends_with l [CHR 0x0A]"
proof (induction p arbitrary: l)
  case (Cons c p)
  have "split_inclusive p \<noteq> []" if "p \<noteq> []" using that by (cases p) (auto split: list.splits)
  moreover have "\<exists>r. c # x = r @ [CHR 0x0A]" if "\<exists>r. x = r @ [CHR 0x0A]" for x
    using that by (metis append_Cons)
  ultimately show ?case using Cons
    by (cases "p = []") (auto simp: whole_lines_def ends_with_iff split: list.splits if_splits)
qed simp

lemma concat_split_inclusive [simp]: "concat (split_inclusive s) = s"
  by (induction s) (auto split: list.splits)

lemma follow_whole:
  assumes "\<forall>l \<in> set ls. ends_with l [CHR 0x0A]"
  shows "follow_loop parse f (ls @ ms) (out, n) =
     follow_loop parse f ms (out @ fst (follow_loop parse f ls ([], k)), n + length (concat ls))"
  using assms
proof (induction ls arbitrary: ms out n k)
  case (Cons l ls)
  let ?new = "\<lambda>out. case parse (trim_end l) of Some e \<Rightarrow> if filter_matches f e then out @ [e] else out | None \<Rightarrow> out"
  have new: "?new out = out @ ?new []" by (auto split: option.splits)
  have "fst (follow_loop parse f ls (?new [], k + length l)) = ?new [] @ fst (follow_loop parse f ls ([], k))"
    using Cons.IH [where ms = "[]" and out = "?new []" and n = "k + length l" and k = k] Cons.prems by simp
  then show ?case
    using Cons.IH [where out = "?new out" and n = "n + length l" and k = k] Cons.prems new by (simp add: add.assoc)
qed simp

lemma follow_torn: "CHR 0x0A \<notin> set t \<Longrightarrow> follow_loop parse f (split_inclusive t) acc = acc"
proof -
  assume t: "CHR 0x0A \<notin> set t"
  then have "split_inclusive t = (if t = [] then [] else [t])"
    by (induction t) (auto split: list.splits)
  with t show ?thesis by (cases acc) (auto simp: ends_with_iff)
qed

lemma split_at_last_line: "\<exists>p t. s = p @ t \<and> whole_lines p \<and> CHR 0x0A \<notin> set t"
proof (cases "CHR 0x0A \<in> set s")
  case True
  then obtain p t where "s = p @ CHR 0x0A # t" "CHR 0x0A \<notin> set t" by (meson split_list_last)
  then show ?thesis by (intro exI [of _ "p @ [CHR 0x0A]"] exI [of _ t]) (simp add: whole_lines_def)
qed (auto simp: whole_lines_def)

lemma follow_lines:
  assumes "whole_lines p"
  shows "follow_loop parse f (split_inclusive (p @ q)) (out, n) =
     follow_loop parse f (split_inclusive q) (out @ fst (follow_loop parse f (split_inclusive p) ([], 0)), n + length p)"
  using follow_whole [of "split_inclusive p" parse f "split_inclusive q" out n 0]
    split_lines_append [OF assms] split_lines_whole [OF assms] by simp

lemma follow_out: "follow_loop parse f (split_inclusive q) (out, n) =
    (out @ fst (follow_loop parse f (split_inclusive q) ([], k)), snd (follow_loop parse f (split_inclusive q) ([], n)))"
proof -
  obtain p t where q: "q = p @ t" "whole_lines p" "CHR 0x0A \<notin> set t" using split_at_last_line by blast
  show ?thesis using follow_lines [OF q(2), of parse f t] follow_torn [OF q(3), of parse f] by (simp add: q(1))
qed

text \<open>
  Following the log loses and repeats nothing: when the log only grows and what is read is whole characters, a poll
  followed by a second poll from the offset the first returned yields, in order, exactly the events and the offset
  of one poll over the grown file; in particular a line that was half written at the first poll is delivered by the second.
\<close>

theorem follow_polls_compose:
  assumes "read_since_offset parse f (Some content) pos = (out1, mid)"
    and "read_since_offset parse f (Some (content @ added)) mid = (out2, fin)"
    and "pos \<le> length content" and "utf8_ok (drop pos content)" and "utf8_ok added"
  shows "read_since_offset parse f (Some (content @ added)) pos = (out1 @ out2, fin)"
proof -
  obtain p t where b: "drop pos content = p @ t" "whole_lines p" "CHR 0x0A \<notin> set t"
    using split_at_last_line by blast
  have utf: "utf8_ok (drop pos content @ added)" using utf8_append assms(4,5) by blast
  have first: "out1 = fst (follow_loop parse f (split_inclusive p) ([], 0))" "mid = pos + length p"
    using assms(1,3,4) follow_lines [OF b(2), of parse f t "[]" pos] follow_torn [OF b(3), of parse f]
    by (auto simp: read_since_offset_def Let_def b(1))
  have len: "pos + length p \<le> length content" using arg_cong [OF b(1), of length] assms(3) by simp
  have "drop mid content = t" using b(1) first(2) by (metis add.commute append_eq_conv_conj drop_drop)
  moreover have "utf8_ok (t @ added)" using whole_lines_utf8 [OF b(2)] utf8_append [of p "t @ added"] utf b(1) by simp
  ultimately have second: "(out2, fin) = follow_loop parse f (split_inclusive (t @ added)) ([], mid)"
    using assms(2) len first(2) by (simp add: read_since_offset_def Let_def)
  have "read_since_offset parse f (Some (content @ added)) pos = follow_loop parse f (split_inclusive (t @ added)) (out1, mid)"
    using utf assms(3) follow_lines [OF b(2), of parse f "t @ added" "[]" pos] first
    by (simp add: read_since_offset_def Let_def b(1))
  also have "\<dots> = (out1 @ out2, fin)"
    using second follow_out [of parse f "t @ added" out1 mid mid] by (metis fst_conv snd_conv)
  finally show ?thesis .
qed

theorem follow_polls_compose_witness:
  "read_since_offset (\<lambda>s. None) \<lparr>af_path = None, af_peer = None, af_since_ms = None, af_kinds = []\<rparr>
     (Some (''a'' @ [CHR 0x0A])) 0 = ([] @ [], 2)"
  by (rule follow_polls_compose [where content = "''a''" and added = "[CHR 0x0A]" and mid = 0])
    (simp_all add: read_since_offset_def Let_def in_range_def ends_with_iff ascii_code_def)

text \<open>
  A torn character makes a follower skip an event: when a poll happens between the two bytes of one
  character, the read fails as a whole and the offset still moves to the end of the file, so the line is never
  delivered, neither by this poll nor by the next, although an incomplete line is meant to be left for the next poll.
\<close>

theorem torn_character_skips_event:
  fixes parse :: "string \<Rightarrow> audit_event option" and f :: audit_filter
  defines "line \<equiv> bytes_of [0x22, 0xC3, 0xA9, 0x22, 0x0A]"
  shows "fst (read_since_offset parse f (Some (take 2 line)) 0) = []
    \<and> snd (read_since_offset parse f (Some (take 2 line)) 0) = 2
    \<and> read_since_offset parse f (Some line) 2 = ([], 5)
    \<and> read_since_offset parse f (Some line) 0 = (case parse (trim_end line) of Some e \<Rightarrow> if filter_matches f e then [e] else [] | None \<Rightarrow> [], 5)"
proof -
  have line: "line = [CHR 0x22, CHR 0xC3, CHR 0xA9, CHR 0x22, CHR 0x0A]" unfolding line_def bytes_of_def by code_simp
  have whole: "utf8_ok line" "\<not> utf8_ok (take 2 line)" "\<not> utf8_ok (drop 2 line)"
    unfolding line by code_simp+
  have "split_inclusive line = [line]" "ends_with line [CHR 0x0A]" "length line = 5"
    unfolding line by (simp_all add: ends_with_iff)
  with whole show ?thesis by (auto simp: read_since_offset_def Let_def split: option.splits)
qed

end
