(* ===== verification/Ignore.thy ===== *)
theory Ignore
  imports Query
begin

text \<open>
  The sync-scope policy (\<^verbatim>\<open>src/sync/ignore.rs\<close>): which paths a node carries and why another is held.
  The gitignore library is a parameter: from the rule lines it builds, if it can, the predicate that
  \<^verbatim>\<open>matched_path_or_any_parents(path, false).is_ignore()\<close> computes.
\<close>

section \<open>The policy\<close>

definition IGNORE_FILE :: relpath where "IGNORE_FILE = ''.tazamunignore''"

definition JUNK_PATTERNS :: "string list" where
  "JUNK_PATTERNS =
     [''*.swp'', ''*.swo'', ''*.swx'', ''.*.sw?'', ''*~'', ''.#*'', [CHR 0x5C] @ ''#*#'', ''~$*'', ''.DS_Store'', ''._*'',
      ''.AppleDouble'', ''Thumbs.db'', ''desktop.ini'', ''*:Zone.Identifier'']"

datatype verdict = VSync | VJunk | VUserIgnored | VSkipped | VTooLarge u64 u64

definition is_sync :: "verdict \<Rightarrow> bool" where
  "is_sync v \<longleftrightarrow> v = VSync"

fun verdict_reason :: "verdict \<Rightarrow> string" where
  "verdict_reason VSync = ''synced''"
| "verdict_reason VJunk = ''junk filter (built-in preset; see .tazamunignore docs)''"
| "verdict_reason VUserIgnored = ''ignored by '' @ IGNORE_FILE"
| "verdict_reason VSkipped = ''outside this node's selective-sync scope''"
| "verdict_reason (VTooLarge sz cap) =
     ''file is '' @ show_nat (unat sz) @ '' bytes, over the '' @ show_nat (unat cap) @ ''-byte max-file-size ceiling''"

record ignore_set =
  ig_matcher :: "(string \<Rightarrow> bool) option"
  ig_only :: "string option"
  ig_skip :: "string list"
  ig_max_file_size :: u64
  ig_junk_enabled :: bool
  ig_user_matcher :: "(string \<Rightarrow> bool) option"

definition normalize_subtree :: "string \<Rightarrow> string option" where
  "normalize_subtree value = (let v = trim_matches CHR ''/'' (trim value) in if v = [] then None else Some v)"

text \<open>\<^verbatim>\<open>str::lines\<close>: a final newline ends the last line, and one carriage return before a newline is dropped.\<close>

definition drop_cr :: "string \<Rightarrow> string" where
  "drop_cr l = unwrap_or l (strip_suffix [CHR 0x0D] l)"

fun lines_of :: "string list \<Rightarrow> string list" where
  "lines_of [] = []"
| "lines_of (l # ls) = (case strip_suffix [CHR 0x0A] l of None \<Rightarrow> l | Some b \<Rightarrow> drop_cr b) # lines_of ls"

definition text_lines :: "string \<Rightarrow> string list" where
  "text_lines s = lines_of (split_inclusive s)"

definition build_ignore ::
  "(string list \<Rightarrow> (string \<Rightarrow> bool) option) \<Rightarrow> string \<Rightarrow> bool \<Rightarrow> string \<Rightarrow> string \<Rightarrow> u64 \<Rightarrow> ignore_set" where
  "build_ignore gitignore user_rules junk_filter sync_only sync_skip max_file_size =
     \<lparr>ig_matcher = gitignore ((if junk_filter then JUNK_PATTERNS else []) @ text_lines user_rules),
      ig_only = normalize_subtree sync_only,
      ig_skip = List.map_filter normalize_subtree (split_on CHR '','' sync_skip),
      ig_max_file_size = max_file_size,
      ig_junk_enabled = junk_filter,
      ig_user_matcher = gitignore (text_lines user_rules)\<rparr>"

definition in_subtree :: "string \<Rightarrow> string \<Rightarrow> bool" where
  "in_subtree path subtree \<longleftrightarrow>
     path = subtree \<or> is_some_and (\<lambda>rest. starts_with rest ''/'') (strip_prefix subtree path)"

definition verdict_of :: "ignore_set \<Rightarrow> relpath \<Rightarrow> u64 option \<Rightarrow> verdict" where
  "verdict_of ig path sz =
     (if path = IGNORE_FILE then VSync
      else if is_some_and (\<lambda>only. \<not> in_subtree path only) (ig_only ig) then VSkipped
      else if list_ex (in_subtree path) (ig_skip ig) then VSkipped
      else if is_some_and (\<lambda>m. m path) (ig_matcher ig) then
        (if is_some_and (\<lambda>u. u path) (ig_user_matcher ig) then VUserIgnored
         else if ig_junk_enabled ig then VJunk else VUserIgnored)
      else if ig_max_file_size ig > 0 \<and> is_some_and (\<lambda>n. n > ig_max_file_size ig) sz then
        VTooLarge (unwrap_or 0 sz) (ig_max_file_size ig)
      else VSync)"

section \<open>Scope reasons and subtrees\<close>

text \<open>Every hold is recognised as a scope hold, so it is released when the rules relax.\<close>

lemma held_reason_is_scope: "\<not> is_sync v \<Longrightarrow> is_scope_reason (verdict_reason v)"
  by (cases v) (auto simp: is_sync_def is_scope_reason_def starts_with_def)

lemma ignore_file_syncs [simp]: "verdict_of ig IGNORE_FILE sz = VSync"
  by (simp add: verdict_of_def)

text \<open>A subtree contains exactly the paths whose segments begin with the segments of the subtree.\<close>

lemma split_on_append: "split_on c (s @ c # r) = split_on c s @ split_on c r"
  by (induction s) (auto split: list.splits)

lemma join_with_append:
  "ws \<noteq> [] \<Longrightarrow> vs \<noteq> [] \<Longrightarrow> join_with sep (ws @ vs) = join_with sep ws @ sep @ join_with sep vs"
proof (induction ws)
  case (Cons w ws)
  then show ?case by (cases "ws = []") (auto simp: join_with_Cons)
qed simp

lemma in_subtree_segments:
  "in_subtree path subtree \<longleftrightarrow> (\<exists>rest. split_on CHR ''/'' path = split_on CHR ''/'' subtree @ rest)"
proof
  assume "in_subtree path subtree"
  then consider "path = subtree" | r where "path = subtree @ CHR ''/'' # r"
    by (fastforce simp: in_subtree_def is_some_and_def strip_prefix_Some_iff starts_with_def split: option.splits)
  then show "\<exists>rest. split_on CHR ''/'' path = split_on CHR ''/'' subtree @ rest"
    by cases (auto simp: split_on_append)
next
  assume "\<exists>rest. split_on CHR ''/'' path = split_on CHR ''/'' subtree @ rest"
  then obtain rest where r: "split_on CHR ''/'' path = split_on CHR ''/'' subtree @ rest" ..
  have "path = join_with ''/'' (split_on CHR ''/'' subtree @ rest)" using join_split [of "CHR ''/''" path] by (simp add: r)
  then have "path = subtree \<or> (\<exists>t. path = subtree @ CHR ''/'' # t)"
    by (cases "rest = []") (auto simp: join_with_append)
  then show "in_subtree path subtree"
    by (auto simp: in_subtree_def is_some_and_def strip_prefix_Some_iff starts_with_def)
qed

end
