(* ===== verification/Actor.thy ===== *)
theory Actor
  imports Ignore RelPath Locks
begin

text \<open>
  The state of the daemon's actor (\<^verbatim>\<open>struct Actor\<close> of \<^verbatim>\<open>src/daemon.rs\<close>) and the helpers its handlers share.
  The actor owns all session state and handles one event at a time; a handler is a function from the state to the state.
  What a handler starts or sends is appended to \<open>ac_out\<close>: control messages, replies to the local client, and
  the tasks it spawns, whose completions are later events.  The endpoint id is its printed form, whose order is
  the order of the keys.  Log lines, meters and the telemetry fields are left out.
\<close>

section \<open>Ambient calls\<close>

text \<open>
  What a handler reads from outside its own state: the clock, the platform, the outcome of file system calls that can
  fail for reasons outside the folder (\<open>dv_copy_ok\<close>, \<open>dv_remove_ok\<close>, \<open>dv_rename_ok\<close>, \<open>dv_mkdir_ok\<close> for the parent
  directories, \<open>dv_chmod_ok\<close> for setting a file read-only), and the libraries (BLAKE3,
  Unicode lower-casing, quoted printing, the gitignore builder, the signature check with its hex key decoding, postcard,
  the bytes of an endpoint id and the parser of the relay URL, and the random jitter of a redial).
\<close>

record daemon_env =
  dv_now :: instant
  dv_now_ms :: u64
  dv_windows :: bool
  dv_copy_ok :: "relpath \<Rightarrow> bool"
  dv_remove_ok :: "relpath \<Rightarrow> bool"
  dv_rename_ok :: "relpath \<Rightarrow> bool"
  dv_mkdir_ok :: "relpath \<Rightarrow> bool"
  dv_chmod_ok :: "relpath \<Rightarrow> bool"
  dv_hash_hex :: "string \<Rightarrow> string"
  dv_to_lowercase :: "string \<Rightarrow> string"
  dv_debug :: "string \<Rightarrow> string"
  dv_debug_char :: "char \<Rightarrow> string"
  dv_gitignore :: "string list \<Rightarrow> (string \<Rightarrow> bool) option"
  dv_decode_hex32 :: "string \<Rightarrow> bytes option"
  dv_verify :: "signed_grant \<Rightarrow> bytes \<Rightarrow> bool"
  dv_ser :: "msg \<Rightarrow> bytes option"
  dv_ser_entry :: "relpath \<times> file_record \<Rightarrow> bytes option"
  dv_id_bytes :: "node_id \<Rightarrow> bytes"
  dv_endpoint_id :: "bytes \<Rightarrow> node_id option"
  dv_parse_url :: "string \<Rightarrow> string option"
  dv_jitter :: u16

section \<open>State\<close>

definition MAX_PEERS :: nat where "MAX_PEERS = 128"
definition MAX_CONCURRENT_PULLS :: nat where "MAX_CONCURRENT_PULLS = 32"
definition MAX_PULL_BACKLOG :: nat where "MAX_PULL_BACKLOG = 8192"
definition MAX_WAITLIST_ENTRIES :: nat where "MAX_WAITLIST_ENTRIES = 4096"
definition MAX_INDEX_PARTS :: u32 where "MAX_INDEX_PARTS = 4096"
definition MAX_INDEX_ENTRIES :: nat where "MAX_INDEX_ENTRIES = 262144"
definition AUTOLOCK_IDLE_RELEASE :: duration where "AUTOLOCK_IDLE_RELEASE = from_secs 60"
definition REDIAL_BACKOFF_MIN :: duration where "REDIAL_BACKOFF_MIN = from_secs 1"
definition REDIAL_BACKOFF_MAX :: duration where "REDIAL_BACKOFF_MAX = from_secs 60"
definition MUTE_WINDOW :: duration where "MUTE_WINDOW = from_secs 2"

type_synonym waiter = nat

record peer_handle =
  ph_conn_id :: nat
  ph_initiated_by_me :: bool

record member_info =
  mi_addr :: endpoint_addr
  mi_last_seen :: instant

record pull_job =
  pj_from :: node_id
  pj_record :: file_record
  pj_attempts :: u32
  pj_queued :: "(node_id \<times> file_record) option"

record staged =
  st_bytes :: bytes

record deferred_apply =
  da_from :: node_id
  da_record :: file_record
  da_staged :: "staged option"

datatype inspection = Clean | Differs | Unindexed | MissingIndexed

datatype inspect_cause = CauseWatch | CauseUnlock waiter

datatype publish_cause = PubEdit | PubUnlock waiter | PubImport

datatype response = RespOk | RespErr string

datatype effect =
    Send node_id msg
  | CloseConn node_id
  | Reply waiter response
  | Observe string "relpath option" "node_id option"
  | Persist
  | StartGc
  | StartPull relpath node_id file_record "node_id list"
  | RetryTimer relpath
  | StartInspect relpath "file_record option" inspect_cause
  | StartPublish relpath publish_cause
  | StartViolation relpath file_record bool string
  | StartRestore relpath file_record "string option"
  | StartHistoryRestore relpath version_entry waiter
  | StartConflictCopy relpath string waiter
  | StartAutolock relpath bool
  | AcquireTimer relpath u64
  | StartDial node_id endpoint_addr
  | RedialTimer node_id duration
  | JoinPeers node_id

record actor =
  ac_me :: node_id
  ac_state :: app_state
  ac_folder :: folder
  ac_locks :: lock_table
  ac_timings :: lock_timings
  ac_peers :: "(node_id, peer_handle) btree"
  ac_peer_index :: "(node_id, (relpath, file_record) btree) btree"
  ac_peer_roles :: "(node_id, u8) btree"
  ac_index_received :: "node_id set"
  ac_index_staging :: "(node_id, u32 \<times> (relpath, file_record) btree) btree"
  ac_members :: "(node_id, member_info) btree"
  ac_dialing :: "node_id set"
  ac_redial_scheduled :: "node_id set"
  ac_backoff :: "(node_id, duration) btree"
  ac_fast_redial_used :: "node_id set"
  ac_pending_pulls :: "(relpath, pull_job) btree"
  ac_pull_backlog :: "(relpath \<times> node_id \<times> file_record) list"
  ac_deferred :: "(relpath, deferred_apply) btree"
  ac_pending_acquires :: "(relpath, u64 \<times> waiter) btree"
  ac_pending_unlocks :: "relpath set"
  ac_my_waits :: "(relpath, node_id \<times> instant) btree"
  ac_interest :: "(relpath, node_id set) btree"
  ac_autolock_idle :: "(relpath, instant) btree"
  ac_autolock_pending :: "(relpath, string option \<times> bool) btree"
  ac_warned :: "relpath set"
  ac_ignore :: ignore_set
  ac_held_local :: "(relpath, string) btree"
  ac_muted :: "(relpath, instant) btree"
  ac_busy :: "relpath set"
  ac_recheck :: "relpath set"
  ac_gc_running :: bool
  ac_gc_dirty :: bool
  ac_out :: "effect list"

section \<open>Helpers\<close>

definition emit :: "effect \<Rightarrow> actor \<Rightarrow> actor" where
  "emit e a = a\<lparr>ac_out := ac_out a @ [e]\<rparr>"

definition send_to :: "node_id \<Rightarrow> msg \<Rightarrow> actor \<Rightarrow> actor" where
  "send_to i m a = (if bt_contains (ac_peers a) i then emit (Send i m) a else a)"

definition broadcast_all :: "msg \<Rightarrow> actor \<Rightarrow> actor" where
  "broadcast_all m a = a\<lparr>ac_out := ac_out a @ map (\<lambda>i. Send i m) (bt_keys (ac_peers a))\<rparr>"

definition files_of :: "actor \<Rightarrow> (relpath, file_record) btree" where
  "files_of a = as_files (ac_state a)"

definition put_record :: "relpath \<Rightarrow> file_record \<Rightarrow> actor \<Rightarrow> actor" where
  "put_record rel r a = a\<lparr>ac_state := (ac_state a)\<lparr>as_files := bt_insert rel r (files_of a)\<rparr>\<rparr>"

definition persist :: "actor \<Rightarrow> actor" where
  "persist a =
     (let a1 = emit Persist a in
      if ac_gc_running a1 then a1\<lparr>ac_gc_dirty := True\<rparr> else emit StartGc (a1\<lparr>ac_gc_running := True\<rparr>))"

definition see_lamport :: "u64 \<Rightarrow> actor \<Rightarrow> actor" where
  "see_lamport l a = a\<lparr>ac_state := (ac_state a)\<lparr>as_lamport := max (as_lamport (ac_state a)) l\<rparr>\<rparr>"

definition tick_lamport :: "actor \<Rightarrow> actor" where
  "tick_lamport a = a\<lparr>ac_state := (ac_state a)\<lparr>as_lamport := as_lamport (ac_state a) + 1\<rparr>\<rparr>"

definition mute :: "daemon_env \<Rightarrow> relpath \<Rightarrow> actor \<Rightarrow> actor" where
  "mute env rel a = a\<lparr>ac_muted := bt_insert rel (dv_now env) (ac_muted a)\<rparr>"

definition is_muted :: "daemon_env \<Rightarrow> relpath \<Rightarrow> actor \<Rightarrow> bool \<times> actor" where
  "is_muted env rel a =
     (let kept = bt_retain (\<lambda>_ t. dv_now env - t < MUTE_WINDOW) (ac_muted a)
      in (bt_contains kept rel, a\<lparr>ac_muted := kept\<rparr>))"

definition with_folder :: "(folder \<Rightarrow> folder) \<Rightarrow> actor \<Rightarrow> actor" where
  "with_folder f a = a\<lparr>ac_folder := f (ac_folder a)\<rparr>"

definition settle_mode :: "relpath \<Rightarrow> actor \<Rightarrow> actor" where
  "settle_mode rel a =
     with_folder (if enforce_readonly (as_config (ac_state a)) then set_readonly rel else set_writable rel) a"

definition disk_file :: "actor \<Rightarrow> relpath \<Rightarrow> file_data option" where
  "disk_file a rel = bt_get (fo_files (ac_folder a)) rel"

definition disk_size :: "actor \<Rightarrow> relpath \<Rightarrow> u64 option" where
  "disk_size a rel = map_option (\<lambda>f. of_nat (length (fd_bytes f))) (disk_file a rel)"

text \<open>Quarantining, with the copy itself subject to the file system.\<close>

definition try_quarantine :: "daemon_env \<Rightarrow> relpath \<Rightarrow> string \<Rightarrow> actor \<Rightarrow> string option \<times> actor" where
  "try_quarantine env rel reason a =
     (if \<not> dv_copy_ok env rel then (None, a)
      else case quarantine (dv_hash_hex env) (dv_now_ms env) rel reason (ac_folder a) of
        (Inl _, fo) \<Rightarrow> (None, a\<lparr>ac_folder := fo\<rparr>)
      | (Inr name, fo) \<Rightarrow> (Some name, a\<lparr>ac_folder := fo\<rparr>))"

text \<open>
  Removing and replacing a working file: \<^verbatim>\<open>win_fs::remove_file\<close> succeeds on a missing file, and
  \<^verbatim>\<open>win_fs::persist_temp\<close> renames the staged file, which is writable, over the target.
\<close>

definition remove_disk :: "daemon_env \<Rightarrow> relpath \<Rightarrow> actor \<Rightarrow> bool \<times> actor" where
  "remove_disk env rel a =
     (if disk_file a rel = None then (True, a)
      else if \<not> dv_remove_ok env rel then (False, a)
      else (True, with_folder (\<lambda>fo. fo\<lparr>fo_files := bt_remove rel (fo_files fo)\<rparr>) a))"

definition replace_disk :: "daemon_env \<Rightarrow> relpath \<Rightarrow> bytes \<Rightarrow> actor \<Rightarrow> bool \<times> actor" where
  "replace_disk env rel bs a =
     (if \<not> dv_rename_ok env rel then (False, a)
      else (True, with_folder (\<lambda>fo. fo\<lparr>fo_files := bt_insert rel \<lparr>fd_bytes = bs, fd_readonly = False\<rparr> (fo_files fo)\<rparr>) a))"

text \<open>
  Putting staged bytes in place: make the parent directories, clear the read-only mark, rename over; \<open>install_settled\<close>
  also sets the file read-only again in strict mode, and fails when that fails.
\<close>

definition install_disk :: "daemon_env \<Rightarrow> relpath \<Rightarrow> bytes \<Rightarrow> actor \<Rightarrow> bool \<times> actor" where
  "install_disk env rel bs a =
     (if \<not> dv_mkdir_ok env rel then (False, a) else replace_disk env rel bs (with_folder (set_writable rel) a))"

definition install_settled :: "daemon_env \<Rightarrow> relpath \<Rightarrow> bytes \<Rightarrow> actor \<Rightarrow> bool \<times> actor" where
  "install_settled env rel bs a =
     (case install_disk env rel bs a of
        (False, a1) \<Rightarrow> (False, a1)
      | (True, a1) \<Rightarrow>
          if \<not> enforce_readonly (as_config (ac_state a1)) then (True, a1)
          else if dv_chmod_ok env rel then (True, with_folder (set_readonly rel) a1)
          else (False, a1))"

section \<open>Guards of local edits\<close>

definition peer_may_lock :: "node_id \<Rightarrow> actor \<Rightarrow> bool" where
  "peer_may_lock i a \<longleftrightarrow>
     \<not> enforcing_roles (ac_state a) \<or> is_some_and role_can_edit (bt_get (ac_peer_roles a) i)"

definition role_edit_guard :: "actor \<Rightarrow> response option" where
  "role_edit_guard a = (if can_edit (c_role (as_config (ac_state a))) then None else Some (RespErr ''role_forbidden''))"

text \<open>The first peer, in key order, whose advertised version of the path is not covered by the local one.\<close>

definition ahead_of :: "vclock \<Rightarrow> relpath \<Rightarrow> actor \<Rightarrow> bool" where
  "ahead_of local_vv rel a \<longleftrightarrow>
     list_ex (\<lambda>(i, ix). bt_contains (ac_peers a) i
        \<and> is_some_and (\<lambda>theirs. compare local_vv (fr_vv theirs) \<in> {Before, Concurrent}) (bt_get ix rel)) (ac_peer_index a)"

text \<open>The error code of \<^verbatim>\<open>strict_edit_guard\<close> with the precondition it names, if it refuses.\<close>

definition strict_edit_guard :: "relpath \<Rightarrow> actor \<Rightarrow> (string \<times> string) option" where
  "strict_edit_guard rel a =
     (if ac_peers a = [] then Some (''strict_offline'', ''REACHABILITY'')
      else if list_ex (\<lambda>i. i \<notin> ac_index_received a) (bt_keys (ac_peers a)) then Some (''syncing'', ''FRESHNESS'')
      else if bt_contains (ac_pending_pulls a) rel \<or> bt_contains (ac_deferred a) rel then Some (''not_fresh'', ''FRESHNESS'')
      else if rel \<in> ac_busy a then Some (''busy'', ''FRESHNESS'')
      else if ahead_of (case bt_get (files_of a) rel of None \<Rightarrow> [] | Some r \<Rightarrow> fr_vv r) rel a
           then Some (''not_fresh'', ''FRESHNESS'')
      else None)"

definition autolock_eligible :: "relpath \<Rightarrow> actor \<Rightarrow> bool" where
  "autolock_eligible rel a \<longleftrightarrow>
     (let c = as_config (ac_state a) in
      can_edit (c_role c) \<and> (c_autolock c \<or> \<not> c_strict c) \<and> holder_of (ac_locks a) rel = None
      \<and> \<not> bt_contains (ac_autolock_pending a) rel)"

definition scope_hold_reason :: "relpath \<Rightarrow> actor \<Rightarrow> string option" where
  "scope_hold_reason rel a =
     (let v = verdict_of (ac_ignore a) rel (disk_size a rel) in if is_sync v then None else Some (verdict_reason v))"

definition is_live :: "file_record option \<Rightarrow> bool" where
  "is_live r \<longleftrightarrow> is_some_and (\<lambda>r. \<not> fr_deleted r) r"

end
