(* ===== verification/Pulls.thy ===== *)
theory Pulls
  imports Actor
begin

text \<open>
  Reconciling with a peer and pulling its versions (\<^verbatim>\<open>src/daemon.rs\<close>, from \<^verbatim>\<open>reconcile\<close> to
  \<^verbatim>\<open>finish_pull\<close>): which remote records are pulled, the bounded set of running pulls with its backlog,
  and how a staged version or a tombstone replaces the local one.
\<close>

section \<open>Running pulls and the backlog\<close>

definition swarm_peers :: "relpath \<Rightarrow> file_record \<Rightarrow> node_id \<Rightarrow> actor \<Rightarrow> node_id list" where
  "swarm_peers rel r primary a =
     primary # map fst (filter (\<lambda>(i, ix). i \<noteq> primary \<and> bt_contains (ac_peers a) i
       \<and> is_some_and (\<lambda>x. \<not> fr_deleted x \<and> fr_manifest x = fr_manifest r) (bt_get ix rel)) (ac_peer_index a))"

definition start_pull :: "relpath \<Rightarrow> node_id \<Rightarrow> file_record \<Rightarrow> actor \<Rightarrow> actor" where
  "start_pull rel src r a =
     (let froms = swarm_peers rel r src a;
          a1 = (if bt_get (as_pulling (ac_state a)) rel \<noteq> Some r
                then persist (a\<lparr>ac_state := (ac_state a)\<lparr>as_pulling := bt_insert rel r (as_pulling (ac_state a))\<rparr>\<rparr>)
                else a)
      in emit (StartPull rel src r froms) a1)"

definition new_job :: "node_id \<Rightarrow> file_record \<Rightarrow> pull_job" where
  "new_job src r = \<lparr>pj_from = src, pj_record = r, pj_attempts = 0, pj_queued = None\<rparr>"

definition admit_pull :: "relpath \<Rightarrow> node_id \<Rightarrow> file_record \<Rightarrow> actor \<Rightarrow> actor" where
  "admit_pull rel src r a =
     start_pull rel src r (a\<lparr>ac_pending_pulls := bt_insert rel (new_job src r) (ac_pending_pulls a)\<rparr>)"

fun put_slot :: "relpath \<times> node_id \<times> file_record \<Rightarrow> (relpath \<times> node_id \<times> file_record) list \<Rightarrow> (relpath \<times> node_id \<times> file_record) list" where
  "put_slot e [] = []"
| "put_slot e (x # xs) = (if fst x = fst e then e # xs else x # put_slot e xs)"

definition enqueue_pull_backlog :: "relpath \<Rightarrow> node_id \<Rightarrow> file_record \<Rightarrow> actor \<Rightarrow> actor" where
  "enqueue_pull_backlog rel src r a =
     (let q = ac_pull_backlog a in
      if list_ex (\<lambda>e. fst e = rel) q then a\<lparr>ac_pull_backlog := put_slot (rel, src, r) q\<rparr>
      else if length q < MAX_PULL_BACKLOG then a\<lparr>ac_pull_backlog := q @ [(rel, src, r)]\<rparr>
      else a)"

fun min_index :: "('a \<Rightarrow> 'k::linorder) \<Rightarrow> 'a list \<Rightarrow> nat option" where
  "min_index f [] = None"
| "min_index f (x # xs) =
     (case min_index f xs of
        None \<Rightarrow> Some 0
      | Some i \<Rightarrow> if f x \<le> f (xs ! i) then Some 0 else Some (Suc i))"

definition backlog_key :: "actor \<Rightarrow> relpath \<times> node_id \<times> file_record \<Rightarrow> bool \<times> u64" where
  "backlog_key a e =
     (case e of (rel, _, r) \<Rightarrow>
        (\<not> (bt_contains (ac_my_waits a) rel \<or> bt_contains (ac_pending_acquires a) rel), fr_size r))"

definition pick_backlog_index :: "actor \<Rightarrow> nat option" where
  "pick_backlog_index a = min_index (backlog_key a) (ac_pull_backlog a)"

definition remove_at :: "nat \<Rightarrow> 'a list \<Rightarrow> 'a list" where
  "remove_at i xs = take i xs @ drop (Suc i) xs"

lemma min_index_lt: "min_index f xs = Some i \<Longrightarrow> i < length xs"
  by (induction xs arbitrary: i) (auto split: option.splits if_splits)

lemma backlog_start_pull [simp]: "ac_pull_backlog (start_pull rel src r a) = ac_pull_backlog a"
  by (simp add: start_pull_def persist_def emit_def Let_def)

lemma backlog_admit [simp]: "ac_pull_backlog (admit_pull rel src r a) = ac_pull_backlog a"
  by (simp add: admit_pull_def)

function drain_pull_backlog :: "actor \<Rightarrow> actor" where
  "drain_pull_backlog a =
     (if length (ac_pending_pulls a) \<ge> MAX_CONCURRENT_PULLS then a
      else case pick_backlog_index a of
        None \<Rightarrow> a
      | Some i \<Rightarrow>
          let (rel, src, r) = ac_pull_backlog a ! i;
              a1 = a\<lparr>ac_pull_backlog := remove_at i (ac_pull_backlog a)\<rparr>
          in if bt_contains (ac_pending_pulls a1) rel \<or> is_held_by_me (ac_locks a1) rel then drain_pull_backlog a1
             else drain_pull_backlog (admit_pull rel src r a1))"
  by auto
termination
  by (relation "measure (\<lambda>a. length (ac_pull_backlog a))")
    (auto simp: pick_backlog_index_def remove_at_def dest: min_index_lt)

declare drain_pull_backlog.simps [simp del]

text \<open>What removing one entry and admitting one pull keep, draining keeps.\<close>

lemma drain_keeps:
  assumes "P a" and "\<And>b i. P b \<Longrightarrow> P (b\<lparr>ac_pull_backlog := remove_at i (ac_pull_backlog b)\<rparr>)"
    and "\<And>b rel src r. P b \<Longrightarrow> length (ac_pending_pulls b) < MAX_CONCURRENT_PULLS \<Longrightarrow> P (admit_pull rel src r b)"
  shows "P (drain_pull_backlog a)"
  using assms(1)
proof (induction a rule: drain_pull_backlog.induct)
  case (1 a)
  show ?case
  proof (cases "length (ac_pending_pulls a) \<ge> MAX_CONCURRENT_PULLS \<or> pick_backlog_index a = None")
    case True
    then show ?thesis using "1.prems" by (subst drain_pull_backlog.simps) auto
  next
    case False
    then obtain i where i: "pick_backlog_index a = Some i" by blast
    obtain rel src r where e: "ac_pull_backlog a ! i = (rel, src, r)" by (metis prod_cases3)
    define a1 where "a1 = a\<lparr>ac_pull_backlog := remove_at i (ac_pull_backlog a)\<rparr>"
    have a1: "P a1" using assms(2) "1.prems" by (simp add: a1_def)
    moreover have "P (admit_pull rel src r a1)" using assms(3) a1 False by (simp add: a1_def)
    ultimately have "P (if bt_contains (ac_pending_pulls a1) rel \<or> is_held_by_me (ac_locks a1) rel then drain_pull_backlog a1
        else drain_pull_backlog (admit_pull rel src r a1))"
      using "1.IH" [OF _ i refl e [symmetric] refl a1_def] False by auto
    then show ?thesis
      using False by (subst drain_pull_backlog.simps) (simp add: i e Let_def flip: a1_def)
  qed
qed

definition finish_pull :: "relpath \<Rightarrow> actor \<Rightarrow> actor" where
  "finish_pull rel a =
     drain_pull_backlog
       (case bt_get (ac_pending_pulls a) rel of
          None \<Rightarrow> a
        | Some job \<Rightarrow>
            let a1 = a\<lparr>ac_pending_pulls := bt_remove rel (ac_pending_pulls a)\<rparr> in
            case pj_queued job of None \<Rightarrow> a1 | Some (src, r) \<Rightarrow> admit_pull rel src r a1)"

section \<open>Applying a remote version\<close>

text \<open>The file system part: a tombstone removes the file, a staged version replaces it and takes the settled mode.\<close>

definition apply_on_disk :: "daemon_env \<Rightarrow> relpath \<Rightarrow> file_record \<Rightarrow> staged option \<Rightarrow> actor \<Rightarrow> bool \<times> actor" where
  "apply_on_disk env rel r st a =
     (if fr_deleted r then remove_disk env rel (with_folder (set_writable rel) a)
      else case st of
        None \<Rightarrow> (False, a)
      | Some s \<Rightarrow> install_settled env rel (st_bytes s) a)"

text \<open>
  Applying can change the ignore file and then re-reads the rules, which reconciles the records held so far; what
  happens then is the argument \<open>rebuild\<close>, tied below.
\<close>

definition preserve_edit :: "daemon_env \<Rightarrow> relpath \<Rightarrow> actor \<Rightarrow> actor" where
  "preserve_edit env rel a =
     (if is_some_and (\<lambda>f. \<not> fd_readonly f) (disk_file a rel)
      then snd (try_quarantine env rel ''edit-vs-remote'' a) else a)"

definition push_prev :: "relpath \<Rightarrow> actor \<Rightarrow> actor" where
  "push_prev rel a =
     (case bt_get (files_of a) rel of None \<Rightarrow> a | Some p \<Rightarrow> a\<lparr>ac_state := push rel p (ac_state a)\<rparr>)"

definition merged_vv :: "relpath \<Rightarrow> file_record \<Rightarrow> actor \<Rightarrow> vclock" where
  "merged_vv rel r a =
     (case bt_get (files_of a) rel of None \<Rightarrow> fr_vv r | Some p \<Rightarrow> merge (fr_vv p) (fr_vv r))"

definition commit_applied :: "(actor \<Rightarrow> actor) \<Rightarrow> relpath \<Rightarrow> node_id \<Rightarrow> file_record \<Rightarrow> actor \<Rightarrow> actor" where
  "commit_applied rebuild rel src r a =
     (let b = put_record rel r a;
          b1 = persist (b\<lparr>ac_state := (ac_state b)\<lparr>as_pulling := bt_remove rel (as_pulling (ac_state b))\<rparr>\<rparr>);
          b2 = emit (Observe ''pull-applied'' (Some rel) (Some src)) b1
      in if rel = IGNORE_FILE then rebuild b2 else b2)"

definition apply_newer ::
  "(actor \<Rightarrow> actor) \<Rightarrow> daemon_env \<Rightarrow> relpath \<Rightarrow> node_id \<Rightarrow> file_record \<Rightarrow> staged option \<Rightarrow> actor \<Rightarrow> actor" where
  "apply_newer rebuild env rel src r st a =
     (let a1 = mute env rel (preserve_edit env rel a);
          vv = merged_vv rel r a1;
          (ok, a2) = apply_on_disk env rel r st (push_prev rel a1)
      in finish_pull rel (if ok then commit_applied rebuild rel src (r\<lparr>fr_vv := vv\<rparr>) a2 else a2))"

definition apply_remote_with ::
  "(actor \<Rightarrow> actor) \<Rightarrow> daemon_env \<Rightarrow> relpath \<Rightarrow> node_id \<Rightarrow> file_record \<Rightarrow> staged option \<Rightarrow> actor \<Rightarrow> actor" where
  "apply_remote_with rebuild env rel src r st a =
     (if rel \<in> ac_busy a then
        a\<lparr>ac_deferred := bt_insert rel \<lparr>da_from = src, da_record = r, da_staged = st\<rparr> (ac_deferred a)\<rparr>
      else if is_some_and (\<lambda>mine. compare (fr_vv mine) (fr_vv r) \<in> {Equal, After}) (bt_get (files_of a) rel) then
        finish_pull rel a
      else apply_newer rebuild env rel src r st a)"

section \<open>Deciding what to pull\<close>

definition to_ascii_uppercase :: "string \<Rightarrow> string" where
  "to_ascii_uppercase s = map (\<lambda>c. if is_ascii_lower c then char_of (ascii_code c - 32) else c) s"

fun violation_text :: "daemon_env \<Rightarrow> violation \<Rightarrow> string" where
  "violation_text env (InvalidChar seg ch) =
     ''segment '' @ dv_debug env seg @ '' contains '' @ dv_debug_char env ch @ '', invalid in Windows file names''"
| "violation_text env (StrippedEnd seg) =
     ''segment '' @ dv_debug env seg @ '' ends with a dot or space, which Windows strips''"
| "violation_text env (DeviceName seg stem) =
     ''segment '' @ dv_debug env seg @ '' is a reserved Windows device name ('' @ to_ascii_uppercase stem @ '')''"

definition portability_reason :: "daemon_env \<Rightarrow> relpath \<Rightarrow> actor \<Rightarrow> string option" where
  "portability_reason env rel a =
     (case portability_violation rel of
        Some v \<Rightarrow> Some (violation_text env v)
      | None \<Rightarrow>
          map_option (\<lambda>(p, _). ''case-fold collision with already-indexed '' @ dv_debug env p
              @ '' (NTFS is case-insensitive)'')
            (find (\<lambda>(p, r). \<not> fr_deleted r \<and> p \<noteq> rel \<and> dv_to_lowercase env p = dv_to_lowercase env rel) (files_of a)))"

definition hold_record :: "relpath \<Rightarrow> file_record \<Rightarrow> string \<Rightarrow> actor \<Rightarrow> actor" where
  "hold_record rel r reason a =
     (if is_some_and (\<lambda>e. fr_vv (ue_record e) = fr_vv r) (bt_get (as_unapplied (ac_state a)) rel) then a
      else persist (a\<lparr>ac_state := (ac_state a)\<lparr>as_unapplied :=
             bt_insert rel \<lparr>ue_record = r, ue_reason = reason\<rparr> (as_unapplied (ac_state a))\<rparr>\<rparr>))"

definition drop_unapplied :: "relpath \<Rightarrow> actor \<Rightarrow> actor" where
  "drop_unapplied rel a =
     (if bt_contains (as_unapplied (ac_state a)) rel
      then persist (a\<lparr>ac_state := (ac_state a)\<lparr>as_unapplied := bt_remove rel (as_unapplied (ac_state a))\<rparr>\<rparr>)
      else a)"

text \<open>The part of \<^verbatim>\<open>maybe_pull\<close> after the scope and portability gates.\<close>

definition queue_pull :: "relpath \<Rightarrow> node_id \<Rightarrow> file_record \<Rightarrow> actor \<Rightarrow> actor" where
  "queue_pull rel src r a =
     (case bt_get (ac_pending_pulls a) rel of
        Some job \<Rightarrow>
          if fr_manifest (pj_record job) = fr_manifest r \<and> fr_vv (pj_record job) = fr_vv r then a
          else a\<lparr>ac_pending_pulls := bt_insert rel (job\<lparr>pj_queued := Some (src, r)\<rparr>) (ac_pending_pulls a)\<rparr>
      | None \<Rightarrow>
          if length (ac_pending_pulls a) \<ge> MAX_CONCURRENT_PULLS then enqueue_pull_backlog rel src r a
          else admit_pull rel src r a)"

definition maybe_pull_with :: "(actor \<Rightarrow> actor) \<Rightarrow> daemon_env \<Rightarrow> relpath \<Rightarrow> node_id \<Rightarrow> file_record \<Rightarrow> actor \<Rightarrow> actor" where
  "maybe_pull_with rebuild env rel src r a =
     (if is_held_by_me (ac_locks a) rel then a
      else if fr_deleted r then apply_remote_with rebuild env rel src r None (drop_unapplied rel a)
      else
        let v = verdict_of (ac_ignore a) rel (Some (fr_size r)) in
        if \<not> is_live (bt_get (files_of a) rel) \<and> \<not> is_sync v then hold_record rel r (verdict_reason v) a
        else case portability_reason env rel a of
          None \<Rightarrow> queue_pull rel src r a
        | Some reason \<Rightarrow>
            if dv_windows env then hold_record rel r reason a
            else queue_pull rel src r (a\<lparr>ac_warned := insert rel (ac_warned a)\<rparr>))"

definition maybe_clear_unapplied :: "relpath \<Rightarrow> file_record \<Rightarrow> actor \<Rightarrow> actor" where
  "maybe_clear_unapplied rel r a = (if fr_deleted r then drop_unapplied rel a else a)"

definition preserve_loser :: "daemon_env \<Rightarrow> relpath \<Rightarrow> actor \<Rightarrow> actor" where
  "preserve_loser env rel a =
     (if disk_file a rel = None then a
      else case try_quarantine env rel ''concurrent-versions'' a of
        (None, b) \<Rightarrow> b
      | (Some _, b) \<Rightarrow> emit (Observe ''quarantine'' (Some rel) None) b)"

definition on_concurrent_with :: "(actor \<Rightarrow> actor) \<Rightarrow> daemon_env \<Rightarrow> relpath \<Rightarrow> node_id \<Rightarrow> file_record \<Rightarrow> actor \<Rightarrow> actor" where
  "on_concurrent_with rebuild env rel src r a =
     (if ac_me a > src then
        (case bt_get (files_of a) rel of
           None \<Rightarrow> a
         | Some mine \<Rightarrow>
             let r' = mine\<lparr>fr_vv := inc (merge (fr_vv mine) (fr_vv r)) (ac_me a), fr_updated_at_ms := dv_now_ms env\<rparr>;
                 a1 = persist (tick_lamport (put_record rel r' a))
             in broadcast_all (FileMeta rel r' (as_lamport (ac_state a1))) a1)
      else maybe_pull_with rebuild env rel src r (preserve_loser env rel a))"

definition reconcile_one_with :: "(actor \<Rightarrow> actor) \<Rightarrow> daemon_env \<Rightarrow> node_id \<Rightarrow> relpath \<Rightarrow> file_record \<Rightarrow> actor \<Rightarrow> actor" where
  "reconcile_one_with rebuild env src rel r a0 =
     (let a = maybe_clear_unapplied rel r a0 in
      case bt_get (files_of a) rel of
        None \<Rightarrow> if fr_deleted r then a else maybe_pull_with rebuild env rel src r a
      | Some mine \<Rightarrow>
          (case compare (fr_vv mine) (fr_vv r) of
             Before \<Rightarrow> maybe_pull_with rebuild env rel src r a
           | Concurrent \<Rightarrow> on_concurrent_with rebuild env rel src r a
           | _ \<Rightarrow> a))"

section \<open>Re-reading the rules\<close>

definition text_of_bytes :: "bytes \<Rightarrow> string" where
  "text_of_bytes bs = map (\<lambda>b. char_of (unat b)) bs"

definition load_ignore_set :: "daemon_env \<Rightarrow> folder \<Rightarrow> session_config \<Rightarrow> ignore_set" where
  "load_ignore_set env fo c =
     (let t = (case bt_get (fo_files fo) IGNORE_FILE of
                 None \<Rightarrow> []
               | Some f \<Rightarrow> let s = text_of_bytes (fd_bytes f) in if utf8_ok s then s else [])
      in build_ignore (dv_gitignore env) t (c_junk_filter c) (c_sync_only c) (c_sync_skip c) (c_max_file_size c))"

definition advert_of :: "relpath \<Rightarrow> actor \<Rightarrow> (node_id \<times> file_record) option" where
  "advert_of rel a = find_map (\<lambda>(i, ix). map_option (\<lambda>r. (i, r)) (bt_get ix rel)) (ac_peer_index a)"

definition release_one :: "(actor \<Rightarrow> actor) \<Rightarrow> daemon_env \<Rightarrow> relpath \<Rightarrow> actor \<Rightarrow> actor" where
  "release_one rebuild env rel a =
     (let a1 = a\<lparr>ac_state := (ac_state a)\<lparr>as_unapplied := bt_remove rel (as_unapplied (ac_state a))\<rparr>\<rparr> in
      case advert_of rel a1 of None \<Rightarrow> a1 | Some (src, r) \<Rightarrow> reconcile_one_with rebuild env src rel r a1)"

definition rebuild_with :: "(actor \<Rightarrow> actor) \<Rightarrow> daemon_env \<Rightarrow> actor \<Rightarrow> actor" where
  "rebuild_with rebuild env a =
     (let ig = load_ignore_set env (ac_folder a) (as_config (ac_state a));
          a1 = a\<lparr>ac_ignore := ig,
                 ac_held_local := bt_retain (\<lambda>rel _. \<not> is_sync (verdict_of ig rel (disk_size a rel))) (ac_held_local a)\<rparr>;
          release = map fst (filter (\<lambda>(rel, e). is_scope_reason (ue_reason e)
             \<and> is_sync (verdict_of ig rel (Some (fr_size (ue_record e))))) (as_unapplied (ac_state a1)))
      in if release = [] then a1 else persist (fold (release_one rebuild env) release a1))"

text \<open>
  A released record can only apply the ignore file itself if that file was held, and releasing it removes it from the
  held records; the re-read it causes therefore meets it no more, and two levels are all there is.
\<close>

definition rebuild_ignore :: "daemon_env \<Rightarrow> actor \<Rightarrow> actor" where
  "rebuild_ignore env = rebuild_with (rebuild_with id env) env"

definition apply_remote :: "daemon_env \<Rightarrow> relpath \<Rightarrow> node_id \<Rightarrow> file_record \<Rightarrow> staged option \<Rightarrow> actor \<Rightarrow> actor" where
  "apply_remote env = apply_remote_with (rebuild_ignore env) env"

definition maybe_pull :: "daemon_env \<Rightarrow> relpath \<Rightarrow> node_id \<Rightarrow> file_record \<Rightarrow> actor \<Rightarrow> actor" where
  "maybe_pull env = maybe_pull_with (rebuild_ignore env) env"

definition on_concurrent :: "daemon_env \<Rightarrow> relpath \<Rightarrow> node_id \<Rightarrow> file_record \<Rightarrow> actor \<Rightarrow> actor" where
  "on_concurrent env = on_concurrent_with (rebuild_ignore env) env"

definition reconcile_one :: "daemon_env \<Rightarrow> node_id \<Rightarrow> relpath \<Rightarrow> file_record \<Rightarrow> actor \<Rightarrow> actor" where
  "reconcile_one env = reconcile_one_with (rebuild_ignore env) env"

definition reconcile :: "daemon_env \<Rightarrow> node_id \<Rightarrow> actor \<Rightarrow> actor" where
  "reconcile env src a =
     (case bt_get (ac_peer_index a) src of
        None \<Rightarrow> a
      | Some remote \<Rightarrow>
          let d = index_diff_of (files_of a) remote;
              gone = filter (\<lambda>rel. is_some_and fr_deleted (bt_get remote rel)) (bt_keys (as_unapplied (ac_state a)));
              on_rel = (\<lambda>f rel b. case bt_get remote rel of None \<Rightarrow> b | Some r \<Rightarrow> f rel r b);
              a1 = fold (on_rel maybe_clear_unapplied) gone a;
              a2 = fold (on_rel (\<lambda>rel r. maybe_pull env rel src r)) (d_pull d) a1
          in fold (on_rel (\<lambda>rel r. on_concurrent env rel src r)) (d_conflicts d) a2)"

section \<open>The end of a pull\<close>

definition on_pull_retry :: "relpath \<Rightarrow> actor \<Rightarrow> actor" where
  "on_pull_retry rel a =
     (case bt_get (ac_pending_pulls a) rel of None \<Rightarrow> a | Some job \<Rightarrow> start_pull rel (pj_from job) (pj_record job) a)"

definition on_pull_staged ::
  "daemon_env \<Rightarrow> relpath \<Rightarrow> node_id \<Rightarrow> file_record \<Rightarrow> staged option \<Rightarrow> actor \<Rightarrow> actor" where
  "on_pull_staged env rel src r result a =
     (case result of
        Some s \<Rightarrow> apply_remote env rel src r (Some s) a
      | None \<Rightarrow>
          (case bt_get (ac_pending_pulls a) rel of
             None \<Rightarrow> finish_pull rel a
           | Some job \<Rightarrow>
               let job' = job\<lparr>pj_attempts := pj_attempts job + 1\<rparr>;
                   a1 = a\<lparr>ac_pending_pulls := bt_insert rel job' (ac_pending_pulls a)\<rparr>
               in if pj_attempts job' < 5 \<and> bt_contains (ac_peers a1) src then emit (RetryTimer rel) a1
                  else finish_pull rel a1))"

end
