(* ===== verification/Edits.thy ===== *)
theory Edits
  imports Pulls
begin

text \<open>
  Local changes (\<^verbatim>\<open>src/daemon.rs\<close>): the watch pipeline, publishing under a lease, tombstones, violations and their
  reversal, autolock, and releasing a lease.  The bodies of the tasks the handlers spawn are the functions
  \<open>inspect_outcome\<close>, \<open>violation_task\<close> and \<open>autolock_task\<close>; their results come back as the handlers' arguments.
\<close>

section \<open>Watching\<close>

definition inspect :: "relpath \<Rightarrow> inspect_cause \<Rightarrow> actor \<Rightarrow> actor" where
  "inspect rel cause a =
     emit (StartInspect rel (bt_get (files_of a) rel) cause) (a\<lparr>ac_busy := insert rel (ac_busy a)\<rparr>)"

text \<open>\<open>same\<close> is the transfer component's comparison of a file with a record, which can fail.\<close>

definition inspect_outcome ::
  "(file_record \<Rightarrow> bytes \<Rightarrow> bool option) \<Rightarrow> relpath \<Rightarrow> file_record option \<Rightarrow> folder \<Rightarrow> inspection option" where
  "inspect_outcome same rel r fo =
     (case (r, bt_get (fo_files fo) rel) of
        (None, None) \<Rightarrow> Some Clean
      | (None, Some _) \<Rightarrow> Some Unindexed
      | (Some x, None) \<Rightarrow> Some (if fr_deleted x then Clean else MissingIndexed)
      | (Some x, Some f) \<Rightarrow>
          if fr_deleted x then Some Unindexed
          else map_option (\<lambda>eq. if eq then Clean else Differs) (same x (fd_bytes f)))"

definition unbusy :: "daemon_env \<Rightarrow> relpath \<Rightarrow> actor \<Rightarrow> actor" where
  "unbusy env rel a =
     (let a1 = a\<lparr>ac_busy := ac_busy a - {rel}\<rparr>;
          a2 = (case bt_get (ac_deferred a1) rel of
                  None \<Rightarrow> a1
                | Some d \<Rightarrow> apply_remote env rel (da_from d) (da_record d) (da_staged d)
                              (a1\<lparr>ac_deferred := bt_remove rel (ac_deferred a1)\<rparr>))
      in if rel \<in> ac_recheck a2 then inspect rel CauseWatch (a2\<lparr>ac_recheck := ac_recheck a2 - {rel}\<rparr>) else a2)"

definition on_watch :: "daemon_env \<Rightarrow> relpath \<Rightarrow> actor \<Rightarrow> actor" where
  "on_watch env rel a0 =
     (case is_muted env rel a0 of
        (True, a) \<Rightarrow> a
      | (False, a) \<Rightarrow>
          if rel \<in> ac_busy a then a\<lparr>ac_recheck := insert rel (ac_recheck a)\<rparr>
          else if rel = IGNORE_FILE then inspect rel CauseWatch (rebuild_ignore env a)
          else if \<not> is_live (bt_get (files_of a) rel) then
            (let sz = disk_size a rel; v = verdict_of (ac_ignore a) rel sz in
             if \<not> is_sync v then
               a\<lparr>ac_held_local := (if sz \<noteq> None then bt_insert rel (verdict_reason v) (ac_held_local a)
                                  else bt_remove rel (ac_held_local a))\<rparr>
             else inspect rel CauseWatch (a\<lparr>ac_held_local := bt_remove rel (ac_held_local a)\<rparr>))
          else inspect rel CauseWatch a)"

section \<open>Publishing\<close>

record published =
  pb_manifest :: manifest_ref
  pb_size :: u64

definition spawn_publish :: "relpath \<Rightarrow> publish_cause \<Rightarrow> actor \<Rightarrow> actor" where
  "spawn_publish rel cause a = emit (StartPublish rel cause) (a\<lparr>ac_busy := insert rel (ac_busy a)\<rparr>)"

definition announce_freed :: "relpath \<Rightarrow> actor \<Rightarrow> actor" where
  "announce_freed rel a = broadcast_all (LockFreed rel) a"

definition announce_record :: "relpath \<Rightarrow> file_record \<Rightarrow> actor \<Rightarrow> actor" where
  "announce_record rel r a =
     (let a1 = persist (tick_lamport (put_record rel r a)) in broadcast_all (FileMeta rel r (as_lamport (ac_state a1))) a1)"

definition finish_unlock :: "relpath \<Rightarrow> bool \<Rightarrow> waiter \<Rightarrow> actor \<Rightarrow> actor" where
  "finish_unlock rel published_ok reply a =
     (let a1 = a\<lparr>ac_pending_unlocks := ac_pending_unlocks a - {rel}, ac_locks := on_release rel (ac_me a) (ac_locks a),
                 ac_autolock_idle := bt_remove rel (ac_autolock_idle a)\<rparr>;
          a2 = announce_freed rel (broadcast_all (LockRelease rel) (settle_mode rel a1))
      in if published_ok then emit (Reply reply RespOk) (emit (Observe ''unlock'' (Some rel) None) a2)
         else emit (Reply reply (RespErr ''publish_failed'')) a2)"

definition release_own_lease :: "relpath \<Rightarrow> actor \<Rightarrow> actor" where
  "release_own_lease rel a =
     (if \<not> is_held_by_me (ac_locks a) rel then a
      else
        let a1 = a\<lparr>ac_locks := on_release rel (ac_me a) (ac_locks a),
                   ac_autolock_idle := bt_remove rel (ac_autolock_idle a)\<rparr>
        in emit (Observe ''unlock'' (Some rel) None)
             (announce_freed rel (broadcast_all (LockRelease rel) (settle_mode rel a1))))"

definition commit_publish :: "daemon_env \<Rightarrow> relpath \<Rightarrow> published \<Rightarrow> actor \<Rightarrow> actor" where
  "commit_publish env rel p a =
     (let prev = bt_get (files_of a) rel in
      if is_some_and (\<lambda>r. \<not> fr_deleted r \<and> fr_manifest r = pb_manifest p \<and> fr_size r = pb_size p) prev then a
      else
        let vv = inc (case prev of None \<Rightarrow> [] | Some r \<Rightarrow> fr_vv r) (ac_me a);
            a1 = (case prev of None \<Rightarrow> a | Some r \<Rightarrow> a\<lparr>ac_state := push rel r (ac_state a)\<rparr>);
            r' = \<lparr>fr_size = pb_size p, fr_manifest = pb_manifest p, fr_vv = vv, fr_deleted = False,
                  fr_updated_at_ms = dv_now_ms env\<rparr>
        in emit (Observe ''publish'' (Some rel) None) (announce_record rel r' a1))"

definition on_publish_done ::
  "daemon_env \<Rightarrow> relpath \<Rightarrow> published option \<Rightarrow> publish_cause \<Rightarrow> actor \<Rightarrow> actor" where
  "on_publish_done env rel result cause a =
     (let allowed = is_held_by_me (ac_locks a) rel \<or> cause = PubImport;
          (done, a1) =
            (case result of
               Some p \<Rightarrow> if allowed then (Some p, a) else (None, a)
             | None \<Rightarrow> (None, if cause = PubEdit then a\<lparr>ac_recheck := insert rel (ac_recheck a)\<rparr> else a));
          a2 = (case done of
                  None \<Rightarrow> a1
                | Some p \<Rightarrow>
                    let b = commit_publish env rel p a1 in if cause = PubImport then settle_mode rel b else b)
      in case cause of
           PubUnlock reply \<Rightarrow> finish_unlock rel (done \<noteq> None) reply (unbusy env rel a2)
         | _ \<Rightarrow> unbusy env rel a2)"

definition commit_tombstone :: "daemon_env \<Rightarrow> relpath \<Rightarrow> actor \<Rightarrow> actor" where
  "commit_tombstone env rel a =
     (case bt_get (files_of a) rel of
        None \<Rightarrow> a
      | Some prev \<Rightarrow>
          if fr_deleted prev then a
          else announce_record rel (tombstone (inc (fr_vv prev) (ac_me a)) (dv_now_ms env))
                 (a\<lparr>ac_state := push rel prev (ac_state a)\<rparr>))"

section \<open>Violations\<close>

definition spawn_violation :: "daemon_env \<Rightarrow> relpath \<Rightarrow> bool \<Rightarrow> string \<Rightarrow> actor \<Rightarrow> actor" where
  "spawn_violation env rel quarantine_first reason a =
     (case bt_get (files_of a) rel of
        None \<Rightarrow> unbusy env rel a
      | Some r \<Rightarrow> emit (StartViolation rel r quarantine_first reason) (a\<lparr>ac_busy := insert rel (ac_busy a)\<rparr>))"

definition violation_task :: "daemon_env \<Rightarrow> relpath \<Rightarrow> bool \<Rightarrow> string \<Rightarrow> actor \<Rightarrow> string option \<times> actor" where
  "violation_task env rel quarantine_first reason a =
     (if quarantine_first then try_quarantine env rel reason a else (None, a))"

definition on_violation_staged ::
  "daemon_env \<Rightarrow> relpath \<Rightarrow> staged option \<Rightarrow> string option \<Rightarrow> bool \<Rightarrow> actor \<Rightarrow> actor" where
  "on_violation_staged env rel result quarantined preserve_required a =
     (if preserve_required \<and> quarantined = None then unbusy env rel a
      else case result of
        None \<Rightarrow> unbusy env rel a
      | Some s \<Rightarrow>
          (case install_settled env rel (st_bytes s) (mute env rel a) of
             (True, a1) \<Rightarrow>
               unbusy env rel (if quarantined \<noteq> None then emit (Observe ''quarantine'' (Some rel) None) a1 else a1)
           | (False, a1) \<Rightarrow> unbusy env rel a1))"

definition violation_new_file :: "daemon_env \<Rightarrow> relpath \<Rightarrow> actor \<Rightarrow> actor" where
  "violation_new_file env rel a =
     (case try_quarantine env rel ''new-file'' a of
        (None, a1) \<Rightarrow> a1
      | (Some _, a1) \<Rightarrow> snd (remove_disk env rel (with_folder (set_writable rel) (mute env rel a1))))"

section \<open>Autolock\<close>

definition spawn_autolock :: "relpath \<Rightarrow> bool \<Rightarrow> actor \<Rightarrow> actor" where
  "spawn_autolock rel new_file a = emit (StartAutolock rel new_file) (a\<lparr>ac_busy := insert rel (ac_busy a)\<rparr>)"

definition autolock_task :: "daemon_env \<Rightarrow> relpath \<Rightarrow> actor \<Rightarrow> string option \<times> actor" where
  "autolock_task env rel a = try_quarantine env rel ''autolock'' a"

definition autolock_fail :: "daemon_env \<Rightarrow> relpath \<Rightarrow> string option \<Rightarrow> bool \<Rightarrow> actor \<Rightarrow> actor" where
  "autolock_fail env rel quarantined new_file a =
     (let a1 = a\<lparr>ac_autolock_pending := bt_remove rel (ac_autolock_pending a)\<rparr> in
      if quarantined = None then unbusy env rel a1
      else if new_file then
        unbusy env rel (snd (remove_disk env rel (with_folder (set_writable rel) (mute env rel a1))))
      else case bt_get (files_of a1) rel of
        None \<Rightarrow> unbusy env rel a1
      | Some r \<Rightarrow> emit (StartRestore rel r quarantined) a1)"

definition NO_WAITER :: waiter where "NO_WAITER = 0"

definition ttl_ms :: "actor \<Rightarrow> u64" where
  "ttl_ms a = of_nat (as_millis (lt_ttl (ac_timings a)))"

definition begin_autolock_acquire :: "daemon_env \<Rightarrow> relpath \<Rightarrow> string option \<Rightarrow> bool \<Rightarrow> actor \<Rightarrow> actor" where
  "begin_autolock_acquire env rel quarantined new_file a0 =
     (let a = a0\<lparr>ac_busy := ac_busy a0 - {rel}\<rparr> in
      if strict_edit_guard rel a \<noteq> None then autolock_fail env rel quarantined new_file a
      else
        let a1 = tick_lamport (a\<lparr>ac_busy := insert rel (ac_busy a)\<rparr>);
            lamport = as_lamport (ac_state a1);
            (res, t) = start_request rel lamport (set (bt_keys (ac_peers a1))) (dv_now env) (ac_locks a1);
            a2 = a1\<lparr>ac_locks := t\<rparr>
        in case res of
             Inl _ \<Rightarrow> autolock_fail env rel quarantined new_file a2
           | Inr _ \<Rightarrow>
               let a3 = broadcast_all (LockReq rel lamport (ttl_ms a2))
                          (a2\<lparr>ac_autolock_pending := bt_insert rel (quarantined, new_file) (ac_autolock_pending a2)\<rparr>)
               in emit (AcquireTimer rel lamport)
                    (a3\<lparr>ac_pending_acquires := bt_insert rel (lamport, NO_WAITER) (ac_pending_acquires a3)\<rparr>))"

definition autolock_succeed :: "daemon_env \<Rightarrow> relpath \<Rightarrow> actor \<Rightarrow> bool \<times> actor" where
  "autolock_succeed env rel a =
     (if \<not> bt_contains (ac_autolock_pending a) rel then (False, a)
      else (True, spawn_publish rel PubEdit
        (a\<lparr>ac_autolock_pending := bt_remove rel (ac_autolock_pending a),
           ac_autolock_idle := bt_insert rel (dv_now env + AUTOLOCK_IDLE_RELEASE) (ac_autolock_idle a)\<rparr>)))"

section \<open>The result of an inspection\<close>

definition reset_idle :: "daemon_env \<Rightarrow> relpath \<Rightarrow> actor \<Rightarrow> actor" where
  "reset_idle env rel a =
     (if bt_contains (ac_autolock_idle a) rel
      then a\<lparr>ac_autolock_idle := bt_insert rel (dv_now env + AUTOLOCK_IDLE_RELEASE) (ac_autolock_idle a)\<rparr> else a)"

definition on_inspected :: "daemon_env \<Rightarrow> relpath \<Rightarrow> inspection option \<Rightarrow> inspect_cause \<Rightarrow> actor \<Rightarrow> actor" where
  "on_inspected env rel outcome cause a =
     (case (outcome, cause) of
        (None, CauseUnlock reply) \<Rightarrow> unbusy env rel (emit (Reply reply (RespErr ''inspect_failed'')) a)
      | (None, CauseWatch) \<Rightarrow> unbusy env rel a
      | (Some Clean, CauseUnlock reply) \<Rightarrow> finish_unlock rel True reply (unbusy env rel a)
      | (Some MissingIndexed, CauseUnlock reply) \<Rightarrow>
          finish_unlock rel True reply (unbusy env rel (commit_tombstone env rel a))
      | (Some _, CauseUnlock reply) \<Rightarrow> spawn_publish rel (PubUnlock reply) a
      | (Some Clean, CauseWatch) \<Rightarrow> unbusy env rel a
      | (Some MissingIndexed, CauseWatch) \<Rightarrow>
          if is_held_by_me (ac_locks a) rel then unbusy env rel (commit_tombstone env rel a)
          else spawn_violation env rel False [] a
      | (Some Differs, CauseWatch) \<Rightarrow>
          if is_held_by_me (ac_locks a) rel then spawn_publish rel PubEdit (reset_idle env rel a)
          else if autolock_eligible rel a then spawn_autolock rel False a
          else spawn_violation env rel True ''forced-write'' a
      | (Some Unindexed, CauseWatch) \<Rightarrow>
          if is_held_by_me (ac_locks a) rel then spawn_publish rel PubEdit (reset_idle env rel a)
          else if autolock_eligible rel a then spawn_autolock rel True a
          else unbusy env rel (violation_new_file env rel a))"

end
