(* ===== verification/Dial.thy ===== *)
theory Dial
  imports Actor
begin

text \<open>
  Who the daemon tries to reach (\<^verbatim>\<open>src/daemon.rs\<close>): the addresses it knows, one dial at a time per member, one
  immediate redial after a loss, and redials on a doubling delay after that.
\<close>

definition known_member_addr :: "daemon_env \<Rightarrow> node_id \<Rightarrow> actor \<Rightarrow> endpoint_addr option" where
  "known_member_addr env i a =
     (case bt_get (ac_members a) i of
        Some info \<Rightarrow> Some (mi_addr info)
      | None \<Rightarrow> Option.bind (bt_get (as_known_members (ac_state a)) i)
          (to_endpoint_addr (\<lambda>b. dv_endpoint_id env b \<noteq> None) (dv_parse_url env)))"

definition dial :: "daemon_env \<Rightarrow> node_id \<Rightarrow> actor \<Rightarrow> actor" where
  "dial env i a =
     (if i = ac_me a \<or> bt_contains (ac_peers a) i \<or> i \<in> ac_dialing a then a
      else case known_member_addr env i a of
        None \<Rightarrow> a
      | Some addr \<Rightarrow> emit (StartDial i addr) (a\<lparr>ac_dialing := insert i (ac_dialing a)\<rparr>))"

definition next_backoff :: "duration option \<Rightarrow> duration" where
  "next_backoff d = (case d of None \<Rightarrow> REDIAL_BACKOFF_MIN | Some d \<Rightarrow> min (d * 2) REDIAL_BACKOFF_MAX)"

definition schedule_redial :: "daemon_env \<Rightarrow> node_id \<Rightarrow> actor \<Rightarrow> actor" where
  "schedule_redial env i a =
     (if bt_contains (ac_peers a) i \<or> i \<in> ac_redial_scheduled a then a
      else
        let next = next_backoff (bt_get (ac_backoff a) i); delay = next + from_millis (unat (dv_jitter env) mod 250) in
        emit (RedialTimer i delay)
          (a\<lparr>ac_backoff := bt_insert i next (ac_backoff a), ac_redial_scheduled := insert i (ac_redial_scheduled a)\<rparr>))"

definition on_dial_failed :: "daemon_env \<Rightarrow> node_id \<Rightarrow> actor \<Rightarrow> actor" where
  "on_dial_failed env i a = schedule_redial env i (a\<lparr>ac_dialing := ac_dialing a - {i}\<rparr>)"

definition on_retry_dial :: "daemon_env \<Rightarrow> node_id \<Rightarrow> actor \<Rightarrow> actor" where
  "on_retry_dial env i a = dial env i (a\<lparr>ac_redial_scheduled := ac_redial_scheduled a - {i}\<rparr>)"

text \<open>After a connection was lost: one immediate redial, then the delays.\<close>

definition redial_lost :: "daemon_env \<Rightarrow> node_id \<Rightarrow> actor \<Rightarrow> actor" where
  "redial_lost env i a =
     (if \<not> (bt_contains (ac_members a) i \<or> known_member_addr env i a \<noteq> None) then a
      else if i \<in> ac_fast_redial_used a then schedule_redial env i a
      else dial env i (a\<lparr>ac_fast_redial_used := insert i (ac_fast_redial_used a)\<rparr>))"

text \<open>An authenticated connection settles the member's dialling state.\<close>

definition settle_member :: "daemon_env \<Rightarrow> node_id \<Rightarrow> actor \<Rightarrow> actor" where
  "settle_member env i a =
     (let info = unwrap_or \<lparr>mi_addr = \<lparr>ea_id = dv_id_bytes env i, ea_addrs = []\<rparr>, mi_last_seen = dv_now env\<rparr>
            (bt_get (ac_members a) i)
      in a\<lparr>ac_dialing := ac_dialing a - {i}, ac_backoff := bt_remove i (ac_backoff a),
           ac_fast_redial_used := ac_fast_redial_used a - {i},
           ac_members := bt_insert i (info\<lparr>mi_last_seen := dv_now env\<rparr>) (ac_members a)\<rparr>)"

datatype member_event = Seen node_id endpoint_addr | NeighborUp node_id | NeighborDown node_id

fun on_member :: "daemon_env \<Rightarrow> member_event \<Rightarrow> actor \<Rightarrow> actor" where
  "on_member env (Seen i addr) a =
     (if i = ac_me a then a
      else
        let wire = from_endpoint_addr addr; st = ac_state a;
            a1 = (if bt_get (as_known_members st) i \<noteq> Some wire
                  then persist (a\<lparr>ac_state := st\<lparr>as_known_members := bt_insert i wire (as_known_members st)\<rparr>\<rparr>) else a);
            a2 = a1\<lparr>ac_members := bt_insert i \<lparr>mi_addr = addr, mi_last_seen = dv_now env\<rparr> (ac_members a1)\<rparr>
        in if \<not> bt_contains (ac_peers a2) i \<and> i \<notin> ac_dialing a2 \<and> i \<notin> ac_redial_scheduled a2 then dial env i a2 else a2)"
| "on_member env (NeighborUp i) a =
     (if i \<noteq> ac_me a \<and> \<not> bt_contains (ac_peers a) i \<and> i \<notin> ac_dialing a then dial env i a else a)"
| "on_member env (NeighborDown i) a = a"

definition dial_known_members :: "daemon_env \<Rightarrow> actor \<Rightarrow> actor" where
  "dial_known_members env a =
     (let ids = filter (\<lambda>i. i \<noteq> ac_me a) (List.map_filter (\<lambda>(_, w). dv_endpoint_id env (aw_id w)) (as_known_members (ac_state a)))
      in fold (dial env) ids a)"

end
