(* ===== verification/Ctl.thy ===== *)
theory Ctl
  imports Edits Dial
begin

text \<open>
  The actor's dealings with its peers (\<^verbatim>\<open>src/daemon.rs\<close>): connections coming and going, the staged index
  exchange, roles, the control messages, and the timers that keep leases and pulls moving.
\<close>

section \<open>Connections\<close>

definition abort_acquire :: "relpath \<Rightarrow> actor \<Rightarrow> actor" where
  "abort_acquire rel a =
     (let a1 = broadcast_all (LockRelease rel) a in
      case bt_get (ac_pending_acquires a1) rel of
        None \<Rightarrow> a1
      | Some (_, w) \<Rightarrow>
          emit (Reply w (RespErr ''voter_lost'')) (a1\<lparr>ac_pending_acquires := bt_remove rel (ac_pending_acquires a1)\<rparr>))"

definition on_peer_gone :: "daemon_env \<Rightarrow> node_id \<Rightarrow> nat \<Rightarrow> actor \<Rightarrow> actor" where
  "on_peer_gone env i conn_id a =
     (if map_option ph_conn_id (bt_get (ac_peers a) i) \<noteq> Some conn_id then a
      else
        let a1 = (emit (CloseConn i) a)\<lparr>ac_peers := bt_remove i (ac_peers a),
                   ac_peer_index := bt_remove i (ac_peer_index a), ac_peer_roles := bt_remove i (ac_peer_roles a),
                   ac_index_received := ac_index_received a - {i}, ac_index_staging := bt_remove i (ac_index_staging a)\<rparr>;
            a2 = emit (Observe ''peer-offline'' None (Some i)) a1;
            (aborted, t) = on_peer_down i (ac_locks a2)
        in redial_lost env i (fold abort_acquire aborted (a2\<lparr>ac_locks := t\<rparr>)))"

text \<open>What the control loop does with a peer that breaks the protocol: the handle is taken out first.\<close>

definition expel :: "daemon_env \<Rightarrow> node_id \<Rightarrow> actor \<Rightarrow> actor" where
  "expel env i a =
     (case bt_get (ac_peers a) i of
        None \<Rightarrow> a
      | Some h \<Rightarrow> on_peer_gone env i (ph_conn_id h) ((emit (CloseConn i) a)\<lparr>ac_peers := bt_remove i (ac_peers a)\<rparr>))"

definition lease_info_of :: "relpath \<times> node_id \<times> u64 \<times> duration \<times> duration \<Rightarrow> lease_info" where
  "lease_info_of l =
     (case l of (path, holder, lamport, left, _) \<Rightarrow>
        \<lparr>li_path = path, li_holder = holder, li_lamport = lamport, li_expires_in_ms = of_nat (as_millis left)\<rparr>)"

definition build_index_parts :: "daemon_env \<Rightarrow> actor \<Rightarrow> msg list" where
  "build_index_parts env a =
     split_index_parts (dv_ser env) (dv_ser_entry env) (as_lamport (ac_state a)) (files_of a)
       (map lease_info_of (held_leases (ac_locks a) (dv_now env)))"

definition initiator :: "node_id \<Rightarrow> node_id \<Rightarrow> bool \<Rightarrow> node_id" where
  "initiator me i by_me = (if by_me then me else i)"

definition accept_peer :: "daemon_env \<Rightarrow> node_id \<Rightarrow> peer_handle \<Rightarrow> actor \<Rightarrow> actor" where
  "accept_peer env i h a =
     (let a1 = settle_member env i (emit (Observe ''peer-connected'' None (Some i)) a);
          a2 = a1\<lparr>ac_out := ac_out a1 @ map (Send i) (build_index_parts env a1)
                  @ (case as_my_grant (ac_state a1) of None \<Rightarrow> [] | Some g \<Rightarrow> [Send i (Identity g)])\<rparr>
      in emit (JoinPeers i) (a2\<lparr>ac_peers := bt_insert i h (ac_peers a2)\<rparr>))"

definition on_authed :: "daemon_env \<Rightarrow> node_id \<Rightarrow> nat \<Rightarrow> bool \<Rightarrow> actor \<Rightarrow> actor" where
  "on_authed env i conn_id initiated_by_me a =
     (let h = \<lparr>ph_conn_id = conn_id, ph_initiated_by_me = initiated_by_me\<rparr> in
      if i = ac_me a then emit (CloseConn i) a
      else case bt_get (ac_peers a) i of
        None \<Rightarrow> if length (ac_peers a) \<ge> MAX_PEERS then emit (CloseConn i) a else accept_peer env i h a
      | Some old \<Rightarrow>
          if initiator (ac_me a) i initiated_by_me < initiator (ac_me a) i (ph_initiated_by_me old)
          then accept_peer env i h ((emit (CloseConn i) a)\<lparr>ac_peers := bt_remove i (ac_peers a)\<rparr>)
          else emit (CloseConn i) a)"

section \<open>The index exchange\<close>

definition observe_leases :: "daemon_env \<Rightarrow> lease_info list \<Rightarrow> lock_table \<Rightarrow> lock_table" where
  "observe_leases env ls t =
     fold (\<lambda>l t. case sanitize_rel_path (li_path l) of
         Inl _ \<Rightarrow> t
       | Inr clean \<Rightarrow> observe_lease clean (li_holder l) (li_lamport l) (li_expires_in_ms l) (dv_now env) t) ls t"

definition commit_peer_index ::
  "daemon_env \<Rightarrow> node_id \<Rightarrow> (relpath, file_record) btree \<Rightarrow> lease_info list \<Rightarrow> actor \<Rightarrow> actor" where
  "commit_peer_index env i ix ls a =
     reconcile env i (a\<lparr>ac_peer_index := bt_insert i ix (ac_peer_index a),
       ac_index_received := insert i (ac_index_received a), ac_locks := observe_leases env ls (ac_locks a)\<rparr>)"

definition take_record :: "relpath \<times> file_record \<Rightarrow> (relpath, file_record) btree \<Rightarrow> (relpath, file_record) btree" where
  "take_record e ix =
     (if \<not> record_acceptable (snd e) then ix
      else case sanitize_rel_path (fst e) of Inl _ \<Rightarrow> ix | Inr clean \<Rightarrow> bt_insert clean (snd e) ix)"

definition on_index_part ::
  "daemon_env \<Rightarrow> node_id \<Rightarrow> u32 \<Rightarrow> bool \<Rightarrow> (relpath \<times> file_record) list \<Rightarrow> lease_info list \<Rightarrow> actor \<Rightarrow> actor" where
  "on_index_part env i seq final files ls a =
     (let (next, ix) = unwrap_or (0, []) (bt_get (ac_index_staging a) i) in
      if seq \<noteq> next \<or> seq \<ge> MAX_INDEX_PARTS \<or> length ix + length files > MAX_INDEX_ENTRIES
      then expel env i (a\<lparr>ac_index_staging := bt_remove i (ac_index_staging a)\<rparr>)
      else
        let ix' = fold take_record files ix in
        if \<not> final then a\<lparr>ac_index_staging := bt_insert i (next + 1, ix') (ac_index_staging a)\<rparr>
        else commit_peer_index env i ix' ls (a\<lparr>ac_index_staging := bt_remove i (ac_index_staging a)\<rparr>))"

section \<open>Control messages\<close>

definition admin_public_bytes :: "daemon_env \<Rightarrow> app_state \<Rightarrow> bytes option" where
  "admin_public_bytes env st = Option.bind (as_admin_public_key st) (dv_decode_hex32 env)"

definition on_peer_identity :: "daemon_env \<Rightarrow> node_id \<Rightarrow> signed_grant \<Rightarrow> actor \<Rightarrow> actor" where
  "on_peer_identity env i g a =
     (case admin_public_bytes env (ac_state a) of
        None \<Rightarrow> a
      | Some pub \<Rightarrow>
          if \<not> dv_verify env g pub \<or> is_expired (sg_grant g) (dv_now_ms env)
          then a\<lparr>ac_peer_roles := bt_remove i (ac_peer_roles a)\<rparr>
          else a\<lparr>ac_peer_roles := bt_insert i (g_role (sg_grant g)) (ac_peer_roles a)\<rparr>)"

definition forget_acquire :: "relpath \<Rightarrow> actor \<Rightarrow> actor" where
  "forget_acquire rel a = a\<lparr>ac_pending_acquires := bt_remove rel (ac_pending_acquires a)\<rparr>"

definition reply_acquire :: "relpath \<Rightarrow> response \<Rightarrow> actor \<Rightarrow> actor" where
  "reply_acquire rel resp a =
     (case bt_get (ac_pending_acquires a) rel of
        None \<Rightarrow> a
      | Some (_, w) \<Rightarrow> emit (Reply w resp) (forget_acquire rel a))"

definition on_lock_req :: "daemon_env \<Rightarrow> node_id \<Rightarrow> relpath \<Rightarrow> u64 \<Rightarrow> u64 \<Rightarrow> actor \<Rightarrow> actor" where
  "on_lock_req env i rel lamport ttl a =
     (if \<not> peer_may_lock i a then send_to i (LockDeny rel RoleForbidden) a
      else
        let (d, t) = on_remote_request rel i lamport ttl (dv_now env) (ac_locks a); a1 = a\<lparr>ac_locks := t\<rparr> in
        case d of
          Grant \<Rightarrow> send_to i (LockGrant rel) a1
        | Deny reason \<Rightarrow> send_to i (LockDeny rel reason) a1
        | GrantAndAbortMine \<Rightarrow>
            let a2 = (case bt_get (ac_autolock_pending a1) rel of
                        Some (q, nf) \<Rightarrow>
                          autolock_fail env rel q nf
                            ((forget_acquire rel a1)\<lparr>ac_autolock_pending := bt_remove rel (ac_autolock_pending a1)\<rparr>)
                      | None \<Rightarrow> reply_acquire rel (RespErr ''tie_lost'') a1)
            in send_to i (LockGrant rel) (broadcast_all (LockRelease rel) a2))"

definition on_lock_grant :: "daemon_env \<Rightarrow> node_id \<Rightarrow> relpath \<Rightarrow> actor \<Rightarrow> actor" where
  "on_lock_grant env i rel a =
     (case on_grant rel i (dv_now env) (ac_locks a) of
        (None, t) \<Rightarrow> a\<lparr>ac_locks := t\<rparr>
      | (Some Acquired, t) \<Rightarrow>
          let a1 = with_folder (set_writable rel) (a\<lparr>ac_locks := t\<rparr>);
              (auto, a2) = autolock_succeed env rel
                (a1\<lparr>ac_my_waits := bt_remove rel (ac_my_waits a1), ac_interest := bt_remove rel (ac_interest a1)\<rparr>)
          in emit (Observe (if auto then ''autolock'' else ''lock'') (Some rel) None) (reply_acquire rel RespOk a2))"

fun deny_code :: "deny_reason \<Rightarrow> string" where
  "deny_code (DenyHeld by) = ''lease_held''"
| "deny_code TieLost = ''tie_lost''"
| "deny_code Unavailable = ''unavailable''"
| "deny_code RoleForbidden = ''role_forbidden''"

definition on_lock_deny :: "daemon_env \<Rightarrow> relpath \<Rightarrow> deny_reason \<Rightarrow> actor \<Rightarrow> actor" where
  "on_lock_deny env rel reason a =
     (case on_deny rel (ac_locks a) of
        (False, t) \<Rightarrow> a\<lparr>ac_locks := t\<rparr>
      | (True, t) \<Rightarrow>
          let a1 = broadcast_all (LockRelease rel) (a\<lparr>ac_locks := t\<rparr>) in
          case bt_get (ac_autolock_pending a1) rel of
            Some (q, nf) \<Rightarrow>
              autolock_fail env rel q nf
                ((forget_acquire rel a1)\<lparr>ac_autolock_pending := bt_remove rel (ac_autolock_pending a1)\<rparr>)
          | None \<Rightarrow> reply_acquire rel (RespErr (deny_code reason)) a1)"

definition on_interest :: "node_id \<Rightarrow> relpath \<Rightarrow> actor \<Rightarrow> actor" where
  "on_interest i rel a =
     (if \<not> bt_contains (ac_interest a) rel \<and> length (ac_interest a) \<ge> MAX_WAITLIST_ENTRIES then a
      else a\<lparr>ac_interest := bt_insert rel (insert i (unwrap_or {} (bt_get (ac_interest a) rel))) (ac_interest a)\<rparr>)"

text \<open>A handler that needs a clean path does nothing on a hostile one.\<close>

definition with_path :: "relpath \<Rightarrow> (relpath \<Rightarrow> actor \<Rightarrow> actor) \<Rightarrow> actor \<Rightarrow> actor" where
  "with_path path f a = (case sanitize_rel_path path of Inl _ \<Rightarrow> a | Inr rel \<Rightarrow> f rel a)"

definition on_file_meta :: "daemon_env \<Rightarrow> node_id \<Rightarrow> relpath \<Rightarrow> file_record \<Rightarrow> actor \<Rightarrow> actor" where
  "on_file_meta env i rel r a =
     (if \<not> record_acceptable r then a
      else reconcile_one env i rel r
        (a\<lparr>ac_peer_index := bt_insert i (bt_insert rel r (unwrap_or [] (bt_get (ac_peer_index a) i))) (ac_peer_index a)\<rparr>))"

fun handle_msg :: "daemon_env \<Rightarrow> node_id \<Rightarrow> msg \<Rightarrow> actor \<Rightarrow> actor" where
  "handle_msg env i (Hello _) a = expel env i a"
| "handle_msg env i (HelloAck _ _) a = expel env i a"
| "handle_msg env i (Proof _) a = expel env i a"
| "handle_msg env i (Index lamport files ls) a =
     (let a1 = see_lamport lamport a in
      commit_peer_index env i (fold take_record files []) ls
        (a1\<lparr>ac_index_staging := bt_remove i (ac_index_staging a1)\<rparr>))"
| "handle_msg env i (IndexPart seq final lamport files ls) a = on_index_part env i seq final files ls (see_lamport lamport a)"
| "handle_msg env i (FileMeta path r lamport) a =
     with_path path (\<lambda>rel. on_file_meta env i rel r) (see_lamport lamport a)"
| "handle_msg env i (LockReq path lamport ttl) a =
     with_path path (\<lambda>rel. on_lock_req env i rel lamport ttl) (see_lamport lamport a)"
| "handle_msg env i (LockGrant path) a = with_path path (on_lock_grant env i) a"
| "handle_msg env i (LockDeny path reason) a = with_path path (\<lambda>rel. on_lock_deny env rel reason) a"
| "handle_msg env i (LockRelease path) a =
     with_path path (\<lambda>rel a. a\<lparr>ac_locks := on_release rel i (ac_locks a)\<rparr>) a"
| "handle_msg env i (LockRenew path lamport ttl) a =
     with_path path (\<lambda>rel a. a\<lparr>ac_locks := on_renew rel i ttl (dv_now env) (ac_locks a)\<rparr>) (see_lamport lamport a)"
| "handle_msg env i Bye a =
     (case bt_get (ac_peers a) i of None \<Rightarrow> a | Some h \<Rightarrow> on_peer_gone env i (ph_conn_id h) a)"
| "handle_msg env i (LockInterest path) a = with_path path (on_interest i) a"
| "handle_msg env i (LockFreed path) a = with_path path (\<lambda>rel a. a\<lparr>ac_interest := bt_remove rel (ac_interest a)\<rparr>) a"
| "handle_msg env i (Identity g) a = on_peer_identity env i g a"

definition on_ctl :: "daemon_env \<Rightarrow> node_id \<Rightarrow> msg \<Rightarrow> actor \<Rightarrow> actor" where
  "on_ctl env i m a = (if bt_contains (ac_peers a) i then handle_msg env i m a else a)"

end
