(* ===== verification/Handlers.thy ===== *)
theory Handlers
  imports Ctl
begin

text \<open>
  The requests of the local client and the timers (\<^verbatim>\<open>src/daemon.rs\<close>): locking and unlocking, history
  operations, applying a preserved copy, live configuration, the lease sweep, renewal, start-up and shutdown.
  A request's reply channel is a number; a reply is \<open>RespOk\<close> or the error code.
\<close>

section \<open>Leases on request\<close>

definition fail_with :: "waiter \<Rightarrow> string \<Rightarrow> actor \<Rightarrow> actor" where
  "fail_with w code a = emit (Reply w (RespErr code)) a"

definition on_clean :: "string \<Rightarrow> waiter \<Rightarrow> (relpath \<Rightarrow> actor \<Rightarrow> actor) \<Rightarrow> actor \<Rightarrow> actor" where
  "on_clean path w f a = (case sanitize_rel_path path of Inl _ \<Rightarrow> fail_with w ''bad_path'' a | Inr rel \<Rightarrow> f rel a)"

definition request_lease :: "daemon_env \<Rightarrow> waiter \<Rightarrow> relpath \<Rightarrow> actor \<Rightarrow> actor" where
  "request_lease env w rel a =
     (let a1 = tick_lamport a;
          lamport = as_lamport (ac_state a1);
          (res, t) = start_request rel lamport (set (bt_keys (ac_peers a1))) (dv_now env) (ac_locks a1);
          a2 = a1\<lparr>ac_locks := t\<rparr>
      in case res of
           Inl _ \<Rightarrow> fail_with w ''lease_held'' a2
         | Inr _ \<Rightarrow>
             let a3 = broadcast_all (LockReq rel lamport (ttl_ms a2)) a2
             in emit (AcquireTimer rel lamport)
                  (a3\<lparr>ac_pending_acquires := bt_insert rel (lamport, w) (ac_pending_acquires a3)\<rparr>))"

definition handle_lock :: "daemon_env \<Rightarrow> string \<Rightarrow> waiter \<Rightarrow> actor \<Rightarrow> actor" where
  "handle_lock env path w =
     on_clean path w (\<lambda>rel a.
       case role_edit_guard a of
         Some err \<Rightarrow> emit (Reply w err) a
       | None \<Rightarrow>
           if is_held_by_me (ac_locks a) rel then emit (Reply w RespOk) a
           else if holder_of (ac_locks a) rel \<noteq> None then fail_with w ''lease_held'' a
           else if bt_contains (ac_pending_acquires a) rel then fail_with w ''busy'' a
           else case strict_edit_guard rel a of
             Some (code, _) \<Rightarrow> fail_with w code a
           | None \<Rightarrow> request_lease env w rel a)"

definition on_acquire_timeout :: "daemon_env \<Rightarrow> relpath \<Rightarrow> u64 \<Rightarrow> actor \<Rightarrow> actor" where
  "on_acquire_timeout env rel lamport a =
     (if \<not> is_some_and (\<lambda>(l, _). l = lamport) (bt_get (ac_pending_acquires a) rel) then a
      else
        let a1 = broadcast_all (LockRelease rel) (a\<lparr>ac_locks := snd (on_deny rel (ac_locks a))\<rparr>) in
        case bt_get (ac_autolock_pending a) rel of
          Some (q, nf) \<Rightarrow>
            autolock_fail env rel q nf
              ((forget_acquire rel a1)\<lparr>ac_autolock_pending := bt_remove rel (ac_autolock_pending a1)\<rparr>)
        | None \<Rightarrow>
            (case bt_get (ac_pending_acquires a1) rel of
               None \<Rightarrow> a1
             | Some (_, w) \<Rightarrow>
                 emit (Reply w (RespErr ''timeout'')) (emit (Observe ''lock-denied'' (Some rel) None) (forget_acquire rel a1))))"

definition handle_unlock :: "string \<Rightarrow> waiter \<Rightarrow> actor \<Rightarrow> actor" where
  "handle_unlock path w =
     on_clean path w (\<lambda>rel a.
       case role_edit_guard a of
         Some err \<Rightarrow> emit (Reply w err) a
       | None \<Rightarrow>
           if \<not> is_held_by_me (ac_locks a) rel then fail_with w ''not_held'' a
           else if rel \<in> ac_busy a \<or> rel \<in> ac_pending_unlocks a then fail_with w ''busy'' a
           else inspect rel (CauseUnlock w) (a\<lparr>ac_pending_unlocks := insert rel (ac_pending_unlocks a)\<rparr>))"

definition handle_lock_wait :: "daemon_env \<Rightarrow> string \<Rightarrow> waiter \<Rightarrow> actor \<Rightarrow> actor" where
  "handle_lock_wait env path w =
     on_clean path w (\<lambda>rel a.
       case holder_of (ac_locks a) rel of
         None \<Rightarrow> emit (Reply w RespOk) a
       | Some h \<Rightarrow>
           if h = ac_me a then emit (Reply w RespOk) a
           else emit (Reply w RespOk) (broadcast_all (LockInterest rel)
             (a\<lparr>ac_my_waits := bt_insert rel (h, dv_now env + wait_timeout (as_config (ac_state a))) (ac_my_waits a)\<rparr>)))"

section \<open>History and preserved copies\<close>

definition commit_meta :: "waiter \<Rightarrow> bool \<times> app_state \<Rightarrow> actor \<Rightarrow> actor" where
  "commit_meta w res a =
     (case res of
        (True, st) \<Rightarrow> emit (Reply w RespOk) (persist (a\<lparr>ac_state := st\<rparr>))
      | (False, _) \<Rightarrow> fail_with w ''no_history'' a)"

definition handle_tag :: "string \<Rightarrow> nat \<Rightarrow> string option \<Rightarrow> waiter \<Rightarrow> actor \<Rightarrow> actor" where
  "handle_tag path n name w = on_clean path w (\<lambda>rel a. commit_meta w (tag rel n name (ac_state a)) a)"

definition handle_pin :: "string \<Rightarrow> nat \<Rightarrow> bool \<Rightarrow> waiter \<Rightarrow> actor \<Rightarrow> actor" where
  "handle_pin path n pinned w = on_clean path w (\<lambda>rel a. commit_meta w (set_pinned rel n pinned (ac_state a)) a)"

definition handle_restore :: "string \<Rightarrow> nat \<Rightarrow> waiter \<Rightarrow> actor \<Rightarrow> actor" where
  "handle_restore path n w =
     on_clean path w (\<lambda>rel a.
       case role_edit_guard a of
         Some err \<Rightarrow> emit (Reply w err) a
       | None \<Rightarrow>
           if ac_peers a = [] then fail_with w ''strict_offline'' a
           else if \<not> is_held_by_me (ac_locks a) rel then fail_with w ''not_held'' a
           else if rel \<in> ac_busy a then fail_with w ''busy'' a
           else case history_entry (ac_state a) rel n of
             None \<Rightarrow> fail_with w ''no_history'' a
           | Some e \<Rightarrow> emit (StartHistoryRestore rel e w) (a\<lparr>ac_busy := insert rel (ac_busy a)\<rparr>))"

definition on_restore_staged ::
  "daemon_env \<Rightarrow> relpath \<Rightarrow> version_entry \<Rightarrow> staged option \<Rightarrow> waiter \<Rightarrow> actor \<Rightarrow> actor" where
  "on_restore_staged env rel e result w a =
     (if \<not> is_held_by_me (ac_locks a) rel then unbusy env rel (fail_with w ''not_held'' a)
      else case result of
        None \<Rightarrow> unbusy env rel (fail_with w ''restore_failed'' a)
      | Some s \<Rightarrow>
          (case install_disk env rel (st_bytes s) (mute env rel a) of
             (False, a1) \<Rightarrow> unbusy env rel (fail_with w ''restore_failed'' a1)
           | (True, a1) \<Rightarrow>
               let prev = bt_get (files_of a1) rel;
                   vv = inc (case prev of None \<Rightarrow> [] | Some r \<Rightarrow> fr_vv r) (ac_me a1);
                   a2 = (case prev of None \<Rightarrow> a1 | Some r \<Rightarrow> a1\<lparr>ac_state := push rel r (ac_state a1)\<rparr>);
                   r' = \<lparr>fr_size = ve_size e, fr_manifest = ve_manifest e, fr_vv = vv, fr_deleted = False,
                         fr_updated_at_ms = dv_now_ms env\<rparr>
               in unbusy env rel (emit (Reply w RespOk)
                    (emit (Observe ''restore'' (Some rel) None) (announce_record rel r' a2)))))"

definition handle_conflict_apply :: "string \<Rightarrow> string \<Rightarrow> waiter \<Rightarrow> actor \<Rightarrow> actor" where
  "handle_conflict_apply name target w a =
     (case copy_path (ac_folder a) name of
        Inl _ \<Rightarrow> fail_with w ''unknown_conflict'' a
      | Inr _ \<Rightarrow>
          on_clean target w (\<lambda>rel a.
            case role_edit_guard a of
              Some err \<Rightarrow> emit (Reply w err) a
            | None \<Rightarrow>
                if ac_peers a = [] then fail_with w ''strict_offline'' a
                else if \<not> is_held_by_me (ac_locks a) rel then fail_with w ''not_held'' a
                else if disk_file a rel \<noteq> None \<and> \<not> is_live (bt_get (files_of a) rel) then fail_with w ''target_exists'' a
                else if rel \<in> ac_busy a then fail_with w ''busy'' a
                else emit (StartConflictCopy rel name w) (a\<lparr>ac_busy := insert rel (ac_busy a)\<rparr>)) a)"

definition on_conflict_applied :: "daemon_env \<Rightarrow> relpath \<Rightarrow> bytes option \<Rightarrow> waiter \<Rightarrow> actor \<Rightarrow> actor" where
  "on_conflict_applied env rel result w a =
     (case result of
        None \<Rightarrow> fail_with w ''apply_failed'' (unbusy env rel a)
      | Some bs \<Rightarrow>
          if \<not> is_held_by_me (ac_locks a) rel then fail_with w ''lease_lost'' (unbusy env rel a)
          else case install_disk env rel bs (mute env rel a) of
            (ok, a1) \<Rightarrow>
              let a2 = unbusy env rel a1 in if ok then emit (Reply w RespOk) a2 else fail_with w ''apply_failed'' a2)"

section \<open>Configuration and names\<close>

definition handle_config_set :: "config_lib \<Rightarrow> string \<Rightarrow> string \<Rightarrow> waiter \<Rightarrow> actor \<Rightarrow> actor" where
  "handle_config_set lib key value w a =
     (case set_live_value lib key value (as_config (ac_state a)) of
        Inl _ \<Rightarrow> fail_with w ''bad_config'' a
      | Inr (c, _) \<Rightarrow>
          let a1 = a\<lparr>ac_state := (ac_state a)\<lparr>as_config := c\<rparr>\<rparr>;
              a2 = (if key = ''lease-ttl'' \<or> key = ''acquire-timeout''
                    then a1\<lparr>ac_timings := config_timings c, ac_locks := set_timings (config_timings c) (ac_locks a1)\<rparr>
                    else a1)
          in emit (Reply w RespOk) (persist a2))"

definition resolve_peer_id :: "daemon_env \<Rightarrow> (string \<Rightarrow> bool) \<Rightarrow> node_id list \<Rightarrow> string \<Rightarrow> node_id option" where
  "resolve_peer_id env valid_id_hex known needle0 =
     (let needle = dv_to_lowercase env (trim needle0) in
      if needle = [] then None
      else case filter (\<lambda>i. starts_with i needle) known of
        [i] \<Rightarrow> Some i
      | [] \<Rightarrow> if valid_id_hex needle then Some needle else None
      | _ \<Rightarrow> None)"

definition handle_peer_name ::
  "daemon_env \<Rightarrow> (string \<Rightarrow> bool) \<Rightarrow> node_id list \<Rightarrow> string \<Rightarrow> string option \<Rightarrow> waiter \<Rightarrow> actor \<Rightarrow> actor" where
  "handle_peer_name env valid_id_hex known i name w a =
     (case resolve_peer_id env valid_id_hex known i of
        None \<Rightarrow> fail_with w ''unknown_peer'' a
      | Some full \<Rightarrow>
          let n = trim (unwrap_or [] name); names = as_peer_names (ac_state a) in
          if n = [] then
            emit (Reply w RespOk) (persist (a\<lparr>ac_state := (ac_state a)\<lparr>as_peer_names := bt_remove full names\<rparr>\<rparr>))
          else if length n > 64 then fail_with w ''bad_name'' a
          else emit (Reply w RespOk) (persist (a\<lparr>ac_state := (ac_state a)\<lparr>as_peer_names := bt_insert full n names\<rparr>\<rparr>)))"

section \<open>Timers\<close>

definition on_expired :: "relpath \<times> node_id \<Rightarrow> actor \<Rightarrow> actor" where
  "on_expired e a =
     (case e of (rel, holder) \<Rightarrow>
        let a1 = (if holder = ac_me a then settle_mode rel a else a)
        in announce_freed rel (a1\<lparr>ac_autolock_idle := bt_remove rel (ac_autolock_idle a1)\<rparr>))"

definition on_timed_out :: "daemon_env \<Rightarrow> relpath \<Rightarrow> actor \<Rightarrow> actor" where
  "on_timed_out env rel a =
     (let a1 = broadcast_all (LockRelease rel) a in
      case bt_get (ac_autolock_pending a1) rel of
        Some (q, nf) \<Rightarrow>
          autolock_fail env rel q nf
            ((forget_acquire rel a1)\<lparr>ac_autolock_pending := bt_remove rel (ac_autolock_pending a1)\<rparr>)
      | None \<Rightarrow> reply_acquire rel (RespErr ''timeout'') a1)"

definition on_sweep :: "daemon_env \<Rightarrow> actor \<Rightarrow> actor" where
  "on_sweep env a =
     (let now = dv_now env;
          idle = map fst (filter (\<lambda>(rel, deadline). deadline \<le> now \<and> is_held_by_me (ac_locks a) rel) (ac_autolock_idle a));
          a1 = fold release_own_lease idle a;
          a2 = a1\<lparr>ac_autolock_idle := bt_retain (\<lambda>_ d. d > now) (ac_autolock_idle a1)\<rparr>;
          (sw, t) = sweep now (ac_locks a2);
          a3 = fold on_expired (sw_expired sw) (a2\<lparr>ac_locks := t\<rparr>);
          a4 = a3\<lparr>ac_my_waits := bt_retain (\<lambda>_ w. \<not> snd w \<le> now) (ac_my_waits a3)\<rparr>
      in fold (on_timed_out env) (sw_timed_out sw) a4)"

definition renew_one :: "daemon_env \<Rightarrow> relpath \<Rightarrow> actor \<Rightarrow> actor" where
  "renew_one env rel a =
     broadcast_all (LockRenew rel (as_lamport (ac_state a)) (ttl_ms a)) (a\<lparr>ac_locks := renew_own rel (dv_now env) (ac_locks a)\<rparr>)"

definition on_renew_tick :: "daemon_env \<Rightarrow> actor \<Rightarrow> actor" where
  "on_renew_tick env a = fold (renew_one env) (self_held_paths (ac_locks a)) a"

definition start_gc :: "actor \<Rightarrow> actor" where
  "start_gc a = (if ac_gc_running a then a else emit StartGc (a\<lparr>ac_gc_running := True\<rparr>))"

definition on_gc_done :: "actor \<Rightarrow> actor" where
  "on_gc_done a =
     (let a1 = a\<lparr>ac_gc_running := False, ac_gc_dirty := False\<rparr> in if ac_gc_dirty a then start_gc a1 else a1)"

section \<open>Start and stop\<close>

definition genesis :: "app_state \<Rightarrow> bool" where
  "genesis st \<longleftrightarrow> as_files st = [] \<and> as_known_members st = [] \<and> as_history st = []"

definition import_one :: "relpath \<Rightarrow> actor \<Rightarrow> actor" where
  "import_one rel a =
     (case scope_hold_reason rel a of
        Some reason \<Rightarrow> a\<lparr>ac_held_local := bt_insert rel reason (ac_held_local a)\<rparr>
      | None \<Rightarrow> spawn_publish rel PubImport a)"

definition scan_one :: "daemon_env \<Rightarrow> relpath \<Rightarrow> actor \<Rightarrow> actor" where
  "scan_one env rel a =
     (case (if is_live (bt_get (files_of a) rel) then None else scope_hold_reason rel a) of
        Some reason \<Rightarrow> a\<lparr>ac_held_local := bt_insert rel reason (ac_held_local a)\<rparr>
      | None \<Rightarrow>
          (case bt_get (files_of a) rel of
             Some r \<Rightarrow>
               if fr_deleted r then
                 unbusy env rel (violation_new_file env rel (a\<lparr>ac_busy := insert rel (ac_busy a)\<rparr>))
               else if unwrap_or (- 1) (disk_size a rel) \<noteq> fr_size r then spawn_violation env rel True ''offline-edit'' a
               else a
           | None \<Rightarrow> unbusy env rel (violation_new_file env rel (a\<lparr>ac_busy := insert rel (ac_busy a)\<rparr>))))"

definition satisfied :: "app_state \<Rightarrow> relpath \<Rightarrow> file_record \<Rightarrow> bool" where
  "satisfied st p target \<longleftrightarrow>
     is_some_and (\<lambda>cur. compare (fr_vv cur) (fr_vv target) \<in> {Equal, After}) (bt_get (as_files st) p)"

definition drop_satisfied :: "actor \<Rightarrow> actor" where
  "drop_satisfied a =
     (let st = ac_state a; kept = bt_retain (\<lambda>p target. \<not> satisfied st p target) (as_pulling st) in
      if kept = as_pulling st then a else persist (a\<lparr>ac_state := st\<lparr>as_pulling := kept\<rparr>\<rparr>))"

definition startup_scan :: "daemon_env \<Rightarrow> relpath list \<Rightarrow> actor \<Rightarrow> actor" where
  "startup_scan env on_disk a =
     (if genesis (ac_state a) then fold import_one on_disk a
      else
        let a1 = fold (scan_one env) on_disk a;
            missing = map fst (filter (\<lambda>(p, r). \<not> fr_deleted r \<and> p \<notin> set on_disk) (files_of a1));
            a2 = fold (\<lambda>rel b. spawn_violation env rel False [] (b\<lparr>ac_busy := insert rel (ac_busy b)\<rparr>)) missing a1
        in drop_satisfied a2)"

definition graceful_shutdown :: "actor \<Rightarrow> actor" where
  "graceful_shutdown a =
     (let a1 = fold (\<lambda>rel b. broadcast_all (LockRelease rel) (settle_mode rel b)) (self_held_paths (ac_locks a)) a;
          a2 = broadcast_all Bye a1;
          a3 = a2\<lparr>ac_out := ac_out a2 @ map CloseConn (bt_keys (ac_peers a2)), ac_peers := []\<rparr>
      in persist a3)"

end
