(* ===== verification/DaemonFrame.thy ===== *)
theory DaemonFrame
  imports Handlers
begin

text \<open>
  What the pull side of the daemon leaves alone.  A relation between the states before and after a handler is closed
  under composition (locale \<open>step_rel\<close>); the relation \<open>frame\<close> says that connections, roles, the peers' indexes and
  the lease table are untouched, that nothing but harmless effects is appended, and that the index only grows:
  no path leaves it and no version vector moves back.
\<close>

section \<open>Relations closed under composition\<close>

locale step_rel =
  fixes R :: "'s \<Rightarrow> 's \<Rightarrow> bool"
  assumes refl: "R a a"
    and trans: "R a b \<Longrightarrow> R b c \<Longrightarrow> R a c"
begin

lemma fold: "(\<And>x b. x \<in> set xs \<Longrightarrow> R b (f x b)) \<Longrightarrow> R a (fold f xs a)"
proof (induction xs arbitrary: a)
  case (Cons x xs)
  have "R a (f x a)" using Cons.prems by simp
  moreover have "R (f x a) (fold f xs (f x a))" using Cons by simp
  ultimately show ?case using trans by simp
qed (simp add: refl)

end

section \<open>The frame of a pull\<close>

definition grows :: "actor \<Rightarrow> actor \<Rightarrow> bool" where
  "grows a a' \<longleftrightarrow> (\<forall>p r. bt_get (files_of a) p = Some r \<longrightarrow>
     (\<exists>r'. bt_get (files_of a') p = Some r' \<and> vle (fr_vv r) (fr_vv r')))"

fun is_grant :: "effect \<Rightarrow> bool" where
  "is_grant (Send _ (LockGrant _)) \<longleftrightarrow> True"
| "is_grant _ \<longleftrightarrow> False"

definition out_ext :: "actor \<Rightarrow> actor \<Rightarrow> bool" where
  "out_ext a a' \<longleftrightarrow> (\<exists>es. ac_out a' = ac_out a @ es \<and> list_all (\<lambda>e. \<not> is_grant e) es)"

definition same_links :: "actor \<Rightarrow> actor \<Rightarrow> bool" where
  "same_links a a' \<longleftrightarrow>
     ac_me a' = ac_me a \<and> ac_locks a' = ac_locks a \<and> ac_timings a' = ac_timings a \<and> ac_peers a' = ac_peers a
     \<and> ac_peer_index a' = ac_peer_index a \<and> ac_peer_roles a' = ac_peer_roles a
     \<and> ac_index_received a' = ac_index_received a \<and> ac_index_staging a' = ac_index_staging a
     \<and> as_admin_public_key (ac_state a') = as_admin_public_key (ac_state a)
     \<and> as_config (ac_state a') = as_config (ac_state a)
     \<and> ac_autolock_pending a' = ac_autolock_pending a"

definition frame :: "actor \<Rightarrow> actor \<Rightarrow> bool" where
  "frame a a' \<longleftrightarrow> same_links a a' \<and> out_ext a a' \<and> grows a a'"

interpretation gr: step_rel grows
proof
  show "grows a a" for a by (auto simp: grows_def intro: vc.le_refl)
  show "grows a b \<Longrightarrow> grows b c \<Longrightarrow> grows a c" for a b c
    unfolding grows_def by (meson vc.le_trans)
qed

interpretation oe: step_rel out_ext
proof
  show "out_ext a a" for a by (auto simp: out_ext_def)
  show "out_ext a b \<Longrightarrow> out_ext b c \<Longrightarrow> out_ext a c" for a b c by (auto simp: out_ext_def)
qed

interpretation fr: step_rel frame
proof
  show "frame a a" for a by (simp add: frame_def gr.refl oe.refl same_links_def)
  show "frame a b \<Longrightarrow> frame b c \<Longrightarrow> frame a c" for a b c
    using gr.trans [of a b c] oe.trans [of a b c] by (simp add: frame_def same_links_def)
qed

named_theorems frames \<open>frame lemmas of the daemon operations\<close>

section \<open>Small steps\<close>

lemma vle_merge: "vle a (merge a b)"
proof -
  have "vv_at a k \<le> vv_at (fold merge_step b a) k" for k
  proof (induction b arbitrary: a)
    case (Cons e b)
    have "vv_at a k \<le> vv_at (merge_step e a) k" by (simp add: vv_at_merge_step)
    then show ?case using Cons [of "merge_step e a"] by (simp add: order.trans)
  qed simp
  then show ?thesis by (simp add: vle_def merge_def)
qed

lemma grows_same_files: "files_of a' = files_of a \<Longrightarrow> grows a a'"
  by (auto simp: grows_def intro: vc.le_refl)

lemma out_ext_same: "ac_out a' = ac_out a \<Longrightarrow> out_ext a a'"
  by (simp add: out_ext_def)

lemma frame_same:
  "same_links a a' \<Longrightarrow> files_of a' = files_of a \<Longrightarrow> ac_out a' = ac_out a \<Longrightarrow> frame a a'"
  by (simp add: frame_def grows_same_files out_ext_same)

lemma frame_put_record:
  assumes "\<And>p. bt_get (files_of a) rel = Some p \<Longrightarrow> vle (fr_vv p) (fr_vv r)"
  shows "frame a (put_record rel r a)"
  using assms
  by (auto simp: frame_def same_links_def out_ext_def grows_def put_record_def files_of_def intro: vc.le_refl)

lemma frame_emit [frames]: "\<not> is_grant e \<Longrightarrow> frame a (emit e a)"
  by (auto simp: frame_def same_links_def out_ext_def emit_def files_of_def intro!: grows_same_files)

lemma frame_broadcast [frames]: "(\<And>p. m \<noteq> LockGrant p) \<Longrightarrow> frame a (broadcast_all m a)"
  by (cases m) (auto simp: frame_def same_links_def out_ext_def broadcast_all_def files_of_def list_all_iff
      intro!: grows_same_files)

lemma frame_upd [frames]:
  "frame a (a\<lparr>ac_pending_pulls := x1\<rparr>)" "frame a (a\<lparr>ac_pull_backlog := x2\<rparr>)" "frame a (a\<lparr>ac_deferred := x3\<rparr>)"
  "frame a (a\<lparr>ac_muted := x4\<rparr>)" "frame a (a\<lparr>ac_folder := x5\<rparr>)" "frame a (a\<lparr>ac_busy := x6\<rparr>)"
  "frame a (a\<lparr>ac_recheck := x7\<rparr>)" "frame a (a\<lparr>ac_warned := x8\<rparr>)" "frame a (a\<lparr>ac_held_local := x9\<rparr>)"
  "frame a (a\<lparr>ac_ignore := y1, ac_held_local := y2\<rparr>)" "frame a (a\<lparr>ac_gc_running := y3\<rparr>)" "frame a (a\<lparr>ac_gc_dirty := y4\<rparr>)"
  by (auto intro!: frame_same simp: same_links_def files_of_def)

lemma frame_state [frames]:
  "frame a (a\<lparr>ac_state := (ac_state a)\<lparr>as_pulling := x1\<rparr>\<rparr>)" "frame a (a\<lparr>ac_state := (ac_state a)\<lparr>as_unapplied := x2\<rparr>\<rparr>)"
  "frame a (a\<lparr>ac_state := push rel r (ac_state a)\<rparr>)" "frame a (tick_lamport a)" "frame a (see_lamport l a)"
  by (auto intro!: frame_same simp: same_links_def files_of_def push_def tick_lamport_def see_lamport_def)

lemma frame_with_folder [frames]: "frame a (with_folder f a)"
  unfolding with_folder_def by (rule frames)

lemma frame_mute [frames]: "frame a (mute env rel a)"
  unfolding mute_def by (rule frames)

lemma frame_persist [frames]: "frame a (persist a)"
  by (auto simp: frame_def same_links_def out_ext_def persist_def emit_def Let_def files_of_def intro!: grows_same_files)

lemma frame_try_quarantine [frames]: "frame a (snd (try_quarantine env rel reason a))"
  by (auto simp: try_quarantine_def fr.refl split: prod.splits sum.splits intro: frames)

section \<open>Pulling\<close>

lemma frame_start_pull [frames]: "frame a (start_pull rel src r a)"
  unfolding start_pull_def Let_def
  by (rule fr.trans [OF _ frame_emit]) (auto intro: fr.trans frames fr.refl)

lemma frame_admit_pull [frames]: "frame a (admit_pull rel src r a)"
  unfolding admit_pull_def by (rule fr.trans [OF _ frame_start_pull]) (rule frames)

lemma frame_enqueue [frames]: "frame a (enqueue_pull_backlog rel src r a)"
  by (auto simp: enqueue_pull_backlog_def Let_def fr.refl intro: frames)

lemma frame_drain [frames]: "frame a (drain_pull_backlog a)"
  by (rule drain_keeps) (auto intro: fr.refl fr.trans frames)

lemma frame_finish_pull [frames]: "frame a (finish_pull rel a)"
  unfolding finish_pull_def
  by (rule fr.trans [OF _ frame_drain])
    (auto simp: Let_def fr.refl split: option.splits intro: frames fr.trans)

section \<open>Applying\<close>

lemma frame_remove_disk [frames]: "frame a (snd (remove_disk env rel a))"
  by (auto simp: remove_disk_def fr.refl intro: frames)

lemma frame_replace_disk [frames]: "frame a (snd (replace_disk env rel bs a))"
  by (auto simp: replace_disk_def fr.refl intro: frames)

lemma frame_install_disk [frames]: "frame a (snd (install_disk env rel bs a))"
  using fr.trans [OF frame_with_folder frame_replace_disk] by (auto simp: install_disk_def fr.refl)

lemma frame_install_settled [frames]: "frame a (snd (install_settled env rel bs a))"
  using frame_install_disk [of a env rel bs] fr.trans [OF _ frame_with_folder]
  by (auto simp: install_settled_def split: prod.splits bool.splits)

lemma frame_apply_on_disk [frames]: "frame a (snd (apply_on_disk env rel r st a))"
  using fr.trans [OF frame_with_folder frame_remove_disk] frame_install_settled
  by (auto simp: apply_on_disk_def fr.refl split: option.splits)

lemma files_apply_on_disk [simp]: "files_of (snd (apply_on_disk env rel r st a)) = files_of a"
  by (auto simp: apply_on_disk_def remove_disk_def replace_disk_def install_disk_def install_settled_def with_folder_def
      files_of_def split: option.splits)

lemma files_push_prev [simp]: "files_of (push_prev rel a) = files_of a"
  by (auto simp: push_prev_def files_of_def push_def split: option.splits)

lemma frame_preserve_edit [frames]: "frame a (preserve_edit env rel a)"
  by (simp add: preserve_edit_def fr.refl frames)

lemma frame_push_prev [frames]: "frame a (push_prev rel a)"
  by (auto simp: push_prev_def fr.refl split: option.splits intro: frames)

lemma frame_commit_applied:
  assumes "\<And>b. frame b (rebuild b)" and "\<And>p. bt_get (files_of a) rel = Some p \<Longrightarrow> vle (fr_vv p) (fr_vv r)"
  shows "frame a (commit_applied rebuild rel src r a)"
proof -
  let ?b = "put_record rel r a"
  have "frame a ?b" using assms(2) by (rule frame_put_record)
  then have "frame a (emit (Observe ''pull-applied'' (Some rel) (Some src))
    (persist (?b\<lparr>ac_state := (ac_state ?b)\<lparr>as_pulling := bt_remove rel (as_pulling (ac_state ?b))\<rparr>\<rparr>)))"
    by (intro fr.trans [OF _ frame_emit] fr.trans [OF _ frame_persist] fr.trans [OF _ frame_state(1)]) auto
  then show ?thesis using assms(1) fr.trans by (auto simp: commit_applied_def Let_def)
qed

lemma frame_apply_newer:
  assumes "\<And>b. frame b (rebuild b)"
  shows "frame a (apply_newer rebuild env rel src r st a)"
proof -
  define a1 where "a1 = mute env rel (preserve_edit env rel a)"
  define a2 where "a2 = snd (apply_on_disk env rel r st (push_prev rel a1))"
  define c where "c = commit_applied rebuild rel src (r\<lparr>fr_vv := merged_vv rel r a1\<rparr>) a2"
  have a2: "frame a a2" unfolding a1_def a2_def
    by (intro fr.trans [OF _ frame_apply_on_disk] fr.trans [OF _ frame_push_prev] fr.trans [OF _ frame_mute]
        frame_preserve_edit)
  have "frame a2 c" unfolding c_def
    by (rule frame_commit_applied [OF assms]) (auto simp: a2_def merged_vv_def vle_merge)
  then have "frame a (finish_pull rel (if fst (apply_on_disk env rel r st (push_prev rel a1)) then c else a2))"
    using a2 by (intro fr.trans [OF _ frame_finish_pull]) (auto intro: fr.trans)
  then show ?thesis
    by (simp only: apply_newer_def Let_def case_prod_beta a1_def [symmetric] a2_def [symmetric] c_def [symmetric])
qed

lemma frame_apply_remote_with:
  "(\<And>b. frame b (rebuild b)) \<Longrightarrow> frame a (apply_remote_with rebuild env rel src r st a)"
  by (auto simp: apply_remote_with_def intro: frames frame_apply_newer)

section \<open>Deciding\<close>

lemma frame_hold_record [frames]: "frame a (hold_record rel r reason a)"
  by (auto simp: hold_record_def fr.refl intro: frames fr.trans)

lemma frame_drop_unapplied [frames]: "frame a (drop_unapplied rel a)"
  by (auto simp: drop_unapplied_def fr.refl intro: frames fr.trans)

lemma frame_clear_unapplied [frames]: "frame a (maybe_clear_unapplied rel r a)"
  by (simp add: maybe_clear_unapplied_def fr.refl frames)

lemma frame_queue_pull [frames]: "frame a (queue_pull rel src r a)"
  by (auto simp: queue_pull_def fr.refl split: option.splits intro: frames)

lemma frame_maybe_pull_with:
  assumes "\<And>b. frame b (rebuild b)"
  shows "frame a (maybe_pull_with rebuild env rel src r a)"
proof -
  have "frame a (apply_remote_with rebuild env rel src r None (drop_unapplied rel a))"
    using frame_apply_remote_with [OF assms] frame_drop_unapplied fr.trans by blast
  moreover have "frame a (queue_pull rel src r (a\<lparr>ac_warned := insert rel (ac_warned a)\<rparr>))"
    by (rule fr.trans [OF _ frame_queue_pull]) (rule frames)
  ultimately show ?thesis
    by (auto simp: maybe_pull_with_def Let_def fr.refl split: option.splits intro: frames)
qed

lemma frame_preserve_loser [frames]: "frame a (preserve_loser env rel a)"
  using frame_try_quarantine [of a env rel "''concurrent-versions''"]
  by (auto simp: preserve_loser_def fr.refl split: prod.splits option.splits intro: fr.trans [OF _ frame_emit])

lemma frame_on_concurrent_with:
  assumes "\<And>b. frame b (rebuild b)"
  shows "frame a (on_concurrent_with rebuild env rel src r a)"
proof (cases "ac_me a > src")
  case True
  show ?thesis
  proof (cases "bt_get (files_of a) rel")
    case None
    with True show ?thesis by (simp add: on_concurrent_with_def fr.refl)
  next
    case (Some mine)
    define r' where "r' = mine\<lparr>fr_vv := inc (merge (fr_vv mine) (fr_vv r)) (ac_me a), fr_updated_at_ms := dv_now_ms env\<rparr>"
    have "vle (fr_vv mine) (fr_vv r')" using vc.le_trans [OF vle_merge vle_inc] by (simp add: r'_def)
    then have "frame a (put_record rel r' a)" using Some by (intro frame_put_record) simp
    then have "frame a (broadcast_all (FileMeta rel r' l) (persist (tick_lamport (put_record rel r' a))))" for l
      by (intro fr.trans [OF _ frame_broadcast] fr.trans [OF _ frame_persist] fr.trans [OF _ frame_state(4)]) auto
    with True Some show ?thesis by (simp add: on_concurrent_with_def Let_def r'_def)
  qed
next
  case False
  have "frame a (maybe_pull_with rebuild env rel src r (preserve_loser env rel a))"
    using frame_maybe_pull_with [OF assms] frame_preserve_loser fr.trans by blast
  with False show ?thesis by (simp add: on_concurrent_with_def)
qed

lemma frame_reconcile_one_with:
  assumes "\<And>b. frame b (rebuild b)"
  shows "frame a (reconcile_one_with rebuild env src rel r a)"
  unfolding reconcile_one_with_def Let_def
  by (rule fr.trans [OF frame_clear_unapplied [of _ rel r]])
    (auto simp: fr.refl split: option.splits causality.splits
      intro: frame_maybe_pull_with [OF assms] frame_on_concurrent_with [OF assms])

lemma frame_release_one:
  assumes "\<And>b. frame b (rebuild b)"
  shows "frame a (release_one rebuild env rel a)"
proof -
  let ?a1 = "a\<lparr>ac_state := (ac_state a)\<lparr>as_unapplied := bt_remove rel (as_unapplied (ac_state a))\<rparr>\<rparr>"
  have "frame a ?a1" by (rule frames)
  then show ?thesis
    using frame_reconcile_one_with [OF assms] fr.trans by (auto simp: release_one_def Let_def split: option.splits)
qed

lemma frame_rebuild_with:
  assumes "\<And>b. frame b (rebuild b)"
  shows "frame a (rebuild_with rebuild env a)"
proof -
  have 1: "frame a (a\<lparr>ac_ignore := x, ac_held_local := y\<rparr>)" for x y by (rule frames)
  have 2: "frame b (fold (release_one rebuild env) rels b)" for rels b
    by (rule fr.fold) (rule frame_release_one [OF assms])
  have "frame a (persist (fold (release_one rebuild env) rels (a\<lparr>ac_ignore := x, ac_held_local := y\<rparr>)))" for rels x y
    using fr.trans [OF fr.trans [OF 1 2] frame_persist] .
  with 1 show ?thesis by (simp add: rebuild_with_def Let_def)
qed

lemma frame_rebuild_ignore [frames]: "frame a (rebuild_ignore env a)"
  unfolding rebuild_ignore_def by (intro frame_rebuild_with) (simp add: fr.refl)

lemma frame_apply_remote [frames]: "frame a (apply_remote env rel src r st a)"
  unfolding apply_remote_def by (rule frame_apply_remote_with) (rule frames)

lemma frame_maybe_pull [frames]: "frame a (maybe_pull env rel src r a)"
  unfolding maybe_pull_def by (rule frame_maybe_pull_with) (rule frames)

lemma frame_on_concurrent [frames]: "frame a (on_concurrent env rel src r a)"
  unfolding on_concurrent_def by (rule frame_on_concurrent_with) (rule frames)

lemma frame_reconcile_one [frames]: "frame a (reconcile_one env src rel r a)"
  unfolding reconcile_one_def by (rule frame_reconcile_one_with) (rule frames)

lemma frame_reconcile [frames]: "frame a (reconcile env src a)"
proof (cases "bt_get (ac_peer_index a) src")
  case (Some remote)
  have on: "frame b (case bt_get remote rel of None \<Rightarrow> b | Some r \<Rightarrow> f rel r b)" if "\<And>rel r b. frame b (f rel r b)" for f rel b
    using that by (auto simp: fr.refl split: option.splits)
  have "frame a (fold (\<lambda>rel b. case bt_get remote rel of None \<Rightarrow> b | Some r \<Rightarrow> f1 rel r b) xs a)"
    if "\<And>rel r b. frame b (f1 rel r b)" for f1 xs a
    by (rule fr.fold) (rule on [OF that])
  note fr.trans [OF fr.trans [OF this this] this]
  from this [of maybe_clear_unapplied "\<lambda>rel r. maybe_pull env rel src r" "\<lambda>rel r. on_concurrent env rel src r"]
  show ?thesis using Some by (simp add: reconcile_def Let_def frames)
qed (simp add: reconcile_def fr.refl)

lemma frame_on_pull_staged [frames]: "frame a (on_pull_staged env rel src r result a)"
proof -
  have "frame a (finish_pull rel (a\<lparr>ac_pending_pulls := x\<rparr>))" "frame a (emit (RetryTimer rel) (a\<lparr>ac_pending_pulls := x\<rparr>))" for x
    by (rule fr.trans [OF frame_upd(1)], rule frames, simp?)+
  then show ?thesis by (auto simp: on_pull_staged_def Let_def split: option.splits intro: frames)
qed

lemma frame_pull_retry [frames]: "frame a (on_pull_retry rel a)"
  by (auto simp: on_pull_retry_def fr.refl split: option.splits intro: frames)

section \<open>Watching\<close>

lemma frame_inspect [frames]: "frame a (inspect rel cause a)"
  unfolding inspect_def by (rule fr.trans [OF _ frame_emit]) (simp_all add: frames)

lemma frame_unbusy [frames]: "frame a (unbusy env rel a)"
proof -
  let ?a1 = "a\<lparr>ac_busy := ac_busy a - {rel}\<rparr>"
  define a2 where "a2 = (case bt_get (ac_deferred ?a1) rel of
      None \<Rightarrow> ?a1
    | Some d \<Rightarrow> apply_remote env rel (da_from d) (da_record d) (da_staged d)
                  (?a1\<lparr>ac_deferred := bt_remove rel (ac_deferred ?a1)\<rparr>))"
  have "frame a ?a1" by (rule frames)
  moreover have "frame ?a1 a2"
    unfolding a2_def by (auto simp: fr.refl split: option.splits intro: fr.trans [OF frame_upd(3) frame_apply_remote])
  ultimately have "frame a a2" using fr.trans by blast
  moreover have "frame a2 (inspect rel CauseWatch (a2\<lparr>ac_recheck := x\<rparr>))" for x
    using fr.trans [OF frame_upd(7) frame_inspect] .
  ultimately have "frame a (inspect rel CauseWatch (a2\<lparr>ac_recheck := x\<rparr>))" "frame a a2" for x
    using fr.trans by blast+
  then show ?thesis by (simp add: unbusy_def Let_def a2_def)
qed

end
