(* ===== verification/Daemon.thy ===== *)
theory Daemon
  imports DaemonFrame
begin

text \<open>
  The event loop (\<^verbatim>\<open>Actor::run\<close> of \<^verbatim>\<open>src/daemon.rs\<close>): the events, their dispatch, and a run of the daemon as a sequence
  of events, each with the ambient values it saw.  The work of the two tasks that touch the folder before they report is
  an event of its own (\<open>EvViolationTask\<close>, \<open>EvAutolockTask\<close>), since it interleaves with the handlers.
\<close>

section \<open>Events\<close>

datatype event =
    EvAuthed node_id nat bool
  | EvMsg node_id msg
  | EvGone node_id nat
  | EvDialFailed node_id
  | EvRetryDial node_id
  | EvMember member_event
  | EvWatch relpath
  | EvInspected relpath "inspection option" inspect_cause
  | EvPublishDone relpath "published option" publish_cause
  | EvPullStaged relpath node_id file_record "staged option"
  | EvPullRetry relpath
  | EvViolationTask relpath bool string
  | EvViolationStaged relpath "staged option" "string option" bool
  | EvAutolockTask relpath
  | EvAutolockReady relpath "string option" bool
  | EvRestoreStaged relpath version_entry "staged option" waiter
  | EvConflictApplied relpath "bytes option" waiter
  | EvGcDone
  | EvGcTick
  | EvLock string waiter
  | EvUnlock string waiter
  | EvLockWait string waiter
  | EvTag string nat "string option" waiter
  | EvPin string nat bool waiter
  | EvRestore string nat waiter
  | EvConflictApply string string waiter
  | EvConfigSet config_lib string string waiter
  | EvPeerName "string \<Rightarrow> bool" "node_id list" string "string option" waiter
  | EvAcquireTimeout relpath u64
  | EvSweep
  | EvRenew
  | EvShutdown

fun dispatch :: "daemon_env \<Rightarrow> event \<Rightarrow> actor \<Rightarrow> actor" where
  "dispatch env (EvAuthed i conn_id by_me) a = on_authed env i conn_id by_me a"
| "dispatch env (EvMsg i m) a = on_ctl env i m a"
| "dispatch env (EvGone i conn_id) a = on_peer_gone env i conn_id a"
| "dispatch env (EvDialFailed i) a = on_dial_failed env i a"
| "dispatch env (EvRetryDial i) a = on_retry_dial env i a"
| "dispatch env (EvMember m) a = on_member env m a"
| "dispatch env (EvWatch rel) a = on_watch env rel a"
| "dispatch env (EvInspected rel outcome cause) a = on_inspected env rel outcome cause a"
| "dispatch env (EvPublishDone rel result cause) a = on_publish_done env rel result cause a"
| "dispatch env (EvPullStaged rel src r result) a = on_pull_staged env rel src r result a"
| "dispatch env (EvPullRetry rel) a = on_pull_retry rel a"
| "dispatch env (EvViolationTask rel qf reason) a = snd (violation_task env rel qf reason a)"
| "dispatch env (EvViolationStaged rel result q pres) a = on_violation_staged env rel result q pres a"
| "dispatch env (EvAutolockTask rel) a = snd (autolock_task env rel a)"
| "dispatch env (EvAutolockReady rel q nf) a = begin_autolock_acquire env rel q nf a"
| "dispatch env (EvRestoreStaged rel e result w) a = on_restore_staged env rel e result w a"
| "dispatch env (EvConflictApplied rel result w) a = on_conflict_applied env rel result w a"
| "dispatch env EvGcDone a = on_gc_done a"
| "dispatch env EvGcTick a = start_gc a"
| "dispatch env (EvLock path w) a = handle_lock env path w a"
| "dispatch env (EvUnlock path w) a = handle_unlock path w a"
| "dispatch env (EvLockWait path w) a = handle_lock_wait env path w a"
| "dispatch env (EvTag path n name w) a = handle_tag path n name w a"
| "dispatch env (EvPin path n pinned w) a = handle_pin path n pinned w a"
| "dispatch env (EvRestore path n w) a = handle_restore path n w a"
| "dispatch env (EvConflictApply name target w) a = handle_conflict_apply name target w a"
| "dispatch env (EvConfigSet lib key value w) a = handle_config_set lib key value w a"
| "dispatch env (EvPeerName valid known i name w) a = handle_peer_name env valid known i name w a"
| "dispatch env (EvAcquireTimeout rel lamport) a = on_acquire_timeout env rel lamport a"
| "dispatch env EvSweep a = on_sweep env a"
| "dispatch env EvRenew a = on_renew_tick env a"
| "dispatch env EvShutdown a = graceful_shutdown a"

text \<open>The actor as \<^verbatim>\<open>spawn\<close> builds it from the persisted state, after the modes of the working files are enforced.\<close>

definition new_actor :: "daemon_env \<Rightarrow> node_id \<Rightarrow> lock_timings \<Rightarrow> app_state \<Rightarrow> folder \<Rightarrow> actor" where
  "new_actor env me timings st fo0 =
     (let fo = enforce_all st (enforce_readonly (as_config st)) fo0 in
      \<lparr>ac_me = me, ac_state = st, ac_folder = fo, ac_locks = new_table me timings, ac_timings = timings, ac_peers = [],
       ac_peer_index = [], ac_peer_roles = [], ac_index_received = {}, ac_index_staging = [],
       ac_members = [], ac_dialing = {}, ac_redial_scheduled = {}, ac_backoff = [], ac_fast_redial_used = {}, ac_pending_pulls = [],
       ac_pull_backlog = [], ac_deferred = [], ac_pending_acquires = [], ac_pending_unlocks = {}, ac_my_waits = [],
       ac_interest = [], ac_autolock_idle = [], ac_autolock_pending = [], ac_warned = {},
       ac_ignore = load_ignore_set env fo (as_config st), ac_held_local = [], ac_muted = [], ac_busy = {}, ac_recheck = {},
       ac_gc_running = False, ac_gc_dirty = False, ac_out = []\<rparr>)"

fun is_shutdown :: "event \<Rightarrow> bool" where
  "is_shutdown EvShutdown \<longleftrightarrow> True"
| "is_shutdown _ \<longleftrightarrow> False"

fun run :: "(daemon_env \<times> event) list \<Rightarrow> actor \<Rightarrow> actor" where
  "run [] a = a"
| "run ((env, ev) # evs) a = (if is_shutdown ev then dispatch env ev a else run evs (dispatch env ev a))"

text \<open>The whole life of the daemon: dial the known members, scan the folder, then handle events until told to stop.\<close>

definition daemon_run :: "daemon_env \<Rightarrow> relpath list \<Rightarrow> (daemon_env \<times> event) list \<Rightarrow> actor \<Rightarrow> actor" where
  "daemon_run env on_disk evs a = run evs (startup_scan env on_disk (dial_known_members env a))"

section \<open>The part of the state that syncing changes\<close>

text \<open>
  The index, the running pulls and the backlog; every other field is out of the reach of an invariant that is
  stated over these three.
\<close>

type_synonym sync_core =
  "(relpath, file_record) btree \<times> (relpath, pull_job) btree \<times> (relpath \<times> node_id \<times> file_record) list"

definition core :: "actor \<Rightarrow> sync_core" where
  "core a = (files_of a, ac_pending_pulls a, ac_pull_backlog a)"

definition core_put :: "relpath \<Rightarrow> file_record \<Rightarrow> sync_core \<Rightarrow> sync_core" where
  "core_put rel r c = (bt_insert rel r (fst c), snd c)"

lemma core_eqI: "files_of a' = files_of a \<Longrightarrow> ac_pending_pulls a' = ac_pending_pulls a \<Longrightarrow>
    ac_pull_backlog a' = ac_pull_backlog a \<Longrightarrow> core a' = core a"
  by (simp add: core_def)

lemma fst_core [simp]: "fst (core a) = files_of a"
  by (simp add: core_def)

lemma core_simps [simp]:
  "core (emit e a) = core a" "core (broadcast_all m a) = core a" "core (send_to i m a) = core a"
  "core (persist a) = core a" "core (tick_lamport a) = core a" "core (see_lamport l a) = core a"
  "core (mute env rel a) = core a" "core (with_folder g a) = core a" "core (settle_mode rel a) = core a"
  "core (put_record rel r a) = core_put rel r (core a)"
  "core (snd (remove_disk env rel a)) = core a" "core (snd (replace_disk env rel bs a)) = core a"
  "core (snd (try_quarantine env rel reason a)) = core a"
  "core (a\<lparr>ac_state := push rel r (ac_state a)\<rparr>) = core a"
  by (auto simp: core_def core_put_def files_of_def emit_def broadcast_all_def send_to_def persist_def Let_def
      tick_lamport_def see_lamport_def mute_def with_folder_def settle_mode_def put_record_def remove_disk_def
      replace_disk_def try_quarantine_def push_def split: prod.splits sum.splits)

lemma core_install [simp]: "core (snd (install_disk env rel bs a)) = core a" "core (snd (install_settled env rel bs a)) = core a"
proof -
  have i: "core (snd (install_disk env rel bs a)) = core a" by (simp add: install_disk_def)
  then show "core (snd (install_disk env rel bs a)) = core a" .
  from i show "core (snd (install_settled env rel bs a)) = core a"
    by (auto simp: install_settled_def split: prod.splits bool.splits)
qed

lemma core_upd [simp]:
  "core (a\<lparr>ac_locks := x1\<rparr>) = core a" "core (a\<lparr>ac_peers := x2\<rparr>) = core a"
  "core (a\<lparr>ac_pending_acquires := x3\<rparr>) = core a" "core (a\<lparr>ac_autolock_pending := x4\<rparr>) = core a"
  "core (a\<lparr>ac_autolock_idle := x5\<rparr>) = core a" "core (a\<lparr>ac_busy := x6\<rparr>) = core a"
  "core (a\<lparr>ac_recheck := x7\<rparr>) = core a" "core (a\<lparr>ac_my_waits := x8\<rparr>) = core a"
  "core (a\<lparr>ac_interest := x9\<rparr>) = core a" "core (a\<lparr>ac_index_staging := y1\<rparr>) = core a"
  "core (a\<lparr>ac_peer_roles := y2\<rparr>) = core a" "core (a\<lparr>ac_peer_index := y3\<rparr>) = core a"
  "core (a\<lparr>ac_held_local := y4\<rparr>) = core a" "core (a\<lparr>ac_muted := y5\<rparr>) = core a"
  "core (a\<lparr>ac_out := y6\<rparr>) = core a" "core (a\<lparr>ac_pending_unlocks := y7\<rparr>) = core a"
  "core (a\<lparr>ac_index_received := y8\<rparr>) = core a" "core (a\<lparr>ac_gc_running := z1\<rparr>) = core a"
  "core (a\<lparr>ac_gc_dirty := z2\<rparr>) = core a" "core (a\<lparr>ac_timings := z3\<rparr>) = core a"
  "core (a\<lparr>ac_folder := z4\<rparr>) = core a" "core (a\<lparr>ac_state := (ac_state a)\<lparr>as_peer_names := z5\<rparr>\<rparr>) = core a"
  "core (a\<lparr>ac_state := (ac_state a)\<lparr>as_config := z6\<rparr>\<rparr>) = core a" "core (a\<lparr>ac_deferred := z7\<rparr>) = core a"
  "core (a\<lparr>ac_state := (ac_state a)\<lparr>as_pulling := z8\<rparr>\<rparr>) = core a" "core (a\<lparr>ac_warned := z9\<rparr>) = core a"
  "core (a\<lparr>ac_state := (ac_state a)\<lparr>as_unapplied := v1\<rparr>\<rparr>) = core a" "core (a\<lparr>ac_ignore := v2\<rparr>) = core a"
  "core (a\<lparr>ac_members := v3\<rparr>) = core a" "core (a\<lparr>ac_dialing := v4\<rparr>) = core a"
  "core (a\<lparr>ac_redial_scheduled := v5\<rparr>) = core a" "core (a\<lparr>ac_backoff := v6\<rparr>) = core a"
  "core (a\<lparr>ac_fast_redial_used := v7\<rparr>) = core a"
  "core (a\<lparr>ac_state := (ac_state a)\<lparr>as_known_members := v8\<rparr>\<rparr>) = core a"
  by (simp_all add: core_def files_of_def)

lemma files_core: "core a = core b \<Longrightarrow> files_of a = files_of b"
  by (simp add: core_def)

lemma core_ops [simp]:
  "core (spawn_publish rel pcause a) = core a" "core (announce_freed rel a) = core a"
  "core (finish_unlock rel ok w a) = core a" "core (release_own_lease rel a) = core a"
  "core (spawn_autolock rel nf a) = core a" "core (snd (autolock_succeed env rel a)) = core a"
  "core (reset_idle env rel a) = core a" "core (fail_with w code a) = core a"
  "core (forget_acquire rel a) = core a" "core (reply_acquire rel resp a) = core a"
  "core (violation_new_file env rel a) = core a"
  "core (announce_record rel r a) = core_put rel r (core a)" "core (inspect rel cause a) = core a"
  "core (preserve_edit env rel a) = core a" "core (push_prev rel a) = core a"
  "core (snd (apply_on_disk env rel r st a)) = core a" "core (hold_record rel r reason a) = core a"
  "core (drop_unapplied rel a) = core a" "core (maybe_clear_unapplied rel r a) = core a" "core (preserve_loser env rel a) = core a"
  by (auto simp: spawn_publish_def announce_freed_def finish_unlock_def release_own_lease_def spawn_autolock_def
      autolock_succeed_def reset_idle_def fail_with_def forget_acquire_def reply_acquire_def
      violation_new_file_def announce_record_def inspect_def preserve_edit_def push_prev_def apply_on_disk_def
      hold_record_def drop_unapplied_def maybe_clear_unapplied_def preserve_loser_def Let_def case_prod_beta
      split: option.splits prod.splits bool.splits)

lemma core_dial [simp]: "core (dial env i a) = core a" "core (schedule_redial env i a) = core a"
  by (auto simp: dial_def schedule_redial_def Let_def split: option.splits)

lemma core_dialling [simp]:
  "core (redial_lost env i a) = core a" "core (settle_member env i a) = core a" "core (on_member env m a) = core a"
  "core (on_dial_failed env i a) = core a" "core (on_retry_dial env i a) = core a" "core (start_gc a) = core a"
  by (cases m; auto simp: redial_lost_def settle_member_def on_dial_failed_def on_retry_dial_def start_gc_def Let_def)+

lemma core_start_pull [simp]: "core (start_pull rel src r a) = core a"
  by (simp add: start_pull_def Let_def)

lemma files_pulling [simp]:
  "files_of (admit_pull rel src r a) = files_of a" "files_of (drain_pull_backlog a) = files_of a"
  "files_of (finish_pull rel a) = files_of a" "files_of (queue_pull rel src r a) = files_of a"
proof -
  have admit: "files_of (admit_pull rel src r b) = files_of b" for rel src r b
    by (simp add: files_of_def admit_pull_def start_pull_def persist_def emit_def Let_def)
  then show "files_of (admit_pull rel src r a) = files_of a" .
  have drain: "files_of (drain_pull_backlog b) = files_of b" for b
    by (rule drain_keeps [where P = "\<lambda>c. files_of c = files_of b"]) (simp_all add: admit, simp add: files_of_def)
  then show "files_of (drain_pull_backlog a) = files_of a" .
  have upd: "files_of (b\<lparr>ac_pending_pulls := x\<rparr>) = files_of b" "files_of (b\<lparr>ac_pull_backlog := y\<rparr>) = files_of b" for b x y
    by (simp_all add: files_of_def)
  show "files_of (finish_pull rel a) = files_of a"
    by (auto simp: finish_pull_def Let_def drain admit upd split: option.splits)
  show "files_of (queue_pull rel src r a) = files_of a"
    by (auto simp: queue_pull_def enqueue_pull_backlog_def Let_def admit upd split: option.splits)
qed

section \<open>A concrete daemon\<close>

definition demo_env :: daemon_env where
  "demo_env =
     \<lparr>dv_now = 0, dv_now_ms = 0, dv_windows = False, dv_copy_ok = (\<lambda>_. True), dv_remove_ok = (\<lambda>_. True),
      dv_rename_ok = (\<lambda>_. True), dv_mkdir_ok = (\<lambda>_. True), dv_chmod_ok = (\<lambda>_. True), dv_hash_hex = (\<lambda>s. s), dv_to_lowercase = (\<lambda>s. s), dv_debug = (\<lambda>s. s),
      dv_debug_char = (\<lambda>c. [c]), dv_gitignore = (\<lambda>_. None), dv_decode_hex32 = (\<lambda>_. Some []), dv_verify = (\<lambda>_ _. True),
      dv_ser = (\<lambda>_. Some []), dv_ser_entry = (\<lambda>_. Some []), dv_id_bytes = (\<lambda>_. []),
      dv_endpoint_id = (\<lambda>_. None), dv_parse_url = Some, dv_jitter = 0\<rparr>"

definition no_ignore :: ignore_set where
  "no_ignore = \<lparr>ig_matcher = None, ig_only = None, ig_skip = [], ig_max_file_size = 0, ig_junk_enabled = False,
     ig_user_matcher = None\<rparr>"

definition demo_actor :: "node_id \<Rightarrow> actor" where
  "demo_actor me =
     \<lparr>ac_me = me, ac_state = new_state [] [], ac_folder = \<lparr>fo_files = [], fo_copies = [], fo_index = []\<rparr>,
      ac_locks = new_table me default_timings, ac_timings = default_timings, ac_peers = [],
      ac_peer_index = [], ac_peer_roles = [], ac_index_received = {}, ac_index_staging = [],
      ac_members = [], ac_dialing = {}, ac_redial_scheduled = {}, ac_backoff = [], ac_fast_redial_used = {}, ac_pending_pulls = [],
      ac_pull_backlog = [], ac_deferred = [], ac_pending_acquires = [], ac_pending_unlocks = {}, ac_my_waits = [],
      ac_interest = [], ac_autolock_idle = [], ac_autolock_pending = [], ac_warned = {},
      ac_ignore = no_ignore, ac_held_local = [], ac_muted = [], ac_busy = {}, ac_recheck = {},
      ac_gc_running = False, ac_gc_dirty = False, ac_out = []\<rparr>"

definition demo_record :: "vclock \<Rightarrow> file_record" where
  "demo_record vv = \<lparr>fr_size = 1, fr_manifest = Inline [], fr_vv = vv, fr_deleted = False, fr_updated_at_ms = 0\<rparr>"

definition demo_files :: "(relpath, file_record) btree \<Rightarrow> actor \<Rightarrow> actor" where
  "demo_files F a = a\<lparr>ac_state := (ac_state a)\<lparr>as_files := F\<rparr>\<rparr>"

lemma files_demo [simp]: "files_of (demo_files F a) = F"
  by (simp add: demo_files_def files_of_def)

end
