(* ===== verification/ActorInv.thy ===== *)
theory ActorInv
  imports Daemon
begin

text \<open>
  Invariants of the daemon over whole runs.  The locale \<open>sync_inv\<close> is the contract of an invariant on the index, the
  running pulls and the backlog: it survives committing a record that dominates the one it replaces, ending a pull,
  queueing a pull and counting an attempt.  Inside it, every handler is shown to keep the invariant once, and so does every run.
  It is interpreted twice: for the growth of the index and for the bounds on the pulls.
\<close>

locale sync_inv =
  fixes Q :: "sync_core \<Rightarrow> bool"
  assumes put: "Q c \<Longrightarrow> (\<And>p. bt_get (fst c) rel = Some p \<Longrightarrow> vle (fr_vv p) (fr_vv r)) \<Longrightarrow> Q (core_put rel r c)"
    and finish: "Q (core a) \<Longrightarrow> Q (core (finish_pull rel a))"
    and queue: "Q (core a) \<Longrightarrow> Q (core (queue_pull rel src r a))"
    and attempt: "Q (core a) \<Longrightarrow> bt_get (ac_pending_pulls a) rel = Some job \<Longrightarrow>
      Q (core (a\<lparr>ac_pending_pulls := bt_insert rel job' (ac_pending_pulls a)\<rparr>))"
begin

lemma commit_applied:
  assumes "\<And>b. Q (core b) \<Longrightarrow> Q (core (rebuild b))" and "Q (core a)"
    and "\<And>p. bt_get (files_of a) rel = Some p \<Longrightarrow> vle (fr_vv p) (fr_vv r)"
  shows "Q (core (commit_applied rebuild rel src r a))"
  using assms by (auto simp: commit_applied_def Let_def intro!: put assms(1))

lemma apply_remote_with:
  assumes "\<And>b. Q (core b) \<Longrightarrow> Q (core (rebuild b))" and "Q (core a)"
  shows "Q (core (apply_remote_with rebuild env rel src r st a))"
proof -
  define a1 where "a1 = mute env rel (preserve_edit env rel a)"
  define a2 where "a2 = snd (apply_on_disk env rel r st (push_prev rel a1))"
  have c: "core a2 = core a1" "core a1 = core a" by (simp_all add: a2_def a1_def)
  have "Q (core (commit_applied rebuild rel src (r\<lparr>fr_vv := merged_vv rel r a1\<rparr>) a2))"
    using assms c files_core [OF c(1)] by (intro commit_applied) (auto simp: merged_vv_def vle_merge)
  then have "Q (core (finish_pull rel (if ok then commit_applied rebuild rel src (r\<lparr>fr_vv := merged_vv rel r a1\<rparr>) a2 else a2)))" for ok
    using assms(2) c by (intro finish) auto
  then have "Q (core (apply_newer rebuild env rel src r st a))"
    by (simp only: apply_newer_def Let_def case_prod_beta a1_def [symmetric] a2_def [symmetric])
  then show ?thesis using assms(2) finish [of a rel] by (simp add: apply_remote_with_def)
qed

lemma maybe_pull_with:
  assumes "\<And>b. Q (core b) \<Longrightarrow> Q (core (rebuild b))" and "Q (core a)"
  shows "Q (core (maybe_pull_with rebuild env rel src r a))"
  using assms(2) by (auto simp: maybe_pull_with_def Let_def split: option.splits intro!: queue apply_remote_with [OF assms(1)])

lemma on_concurrent_with:
  assumes "\<And>b. Q (core b) \<Longrightarrow> Q (core (rebuild b))" and "Q (core a)"
  shows "Q (core (on_concurrent_with rebuild env rel src r a))"
  using assms(2) vc.le_trans [OF vle_merge vle_inc]
  by (auto simp: on_concurrent_with_def Let_def split: option.splits intro!: put maybe_pull_with [OF assms(1)])

lemma reconcile_one_with:
  assumes "\<And>b. Q (core b) \<Longrightarrow> Q (core (rebuild b))" and "Q (core a)"
  shows "Q (core (reconcile_one_with rebuild env src rel r a))"
  using assms(2)
  by (auto simp: reconcile_one_with_def Let_def split: option.splits causality.splits
      intro!: maybe_pull_with [OF assms(1)] on_concurrent_with [OF assms(1)])

lemma fold_op: "(\<And>x b. Q (core b) \<Longrightarrow> Q (core (f x b))) \<Longrightarrow> Q (core a) \<Longrightarrow> Q (core (fold f xs a))"
  by (induction xs arbitrary: a) auto

lemma rebuild_with:
  assumes "\<And>b. Q (core b) \<Longrightarrow> Q (core (rebuild b))" and "Q (core a)"
  shows "Q (core (rebuild_with rebuild env a))"
proof -
  have "Q (core (release_one rebuild env rel b))" if "Q (core b)" for rel b
    using that by (auto simp: release_one_def Let_def split: option.splits intro!: reconcile_one_with [OF assms(1)])
  then show ?thesis using assms(2) by (auto simp: rebuild_with_def Let_def intro!: fold_op)
qed

lemma rebuild_ignore: "Q (core a) \<Longrightarrow> Q (core (rebuild_ignore env a))"
  unfolding rebuild_ignore_def by (intro rebuild_with) auto

lemma apply_remote: "Q (core a) \<Longrightarrow> Q (core (apply_remote env rel src r st a))"
  unfolding apply_remote_def by (intro apply_remote_with rebuild_ignore)

lemma maybe_pull: "Q (core a) \<Longrightarrow> Q (core (maybe_pull env rel src r a))"
  unfolding maybe_pull_def by (intro maybe_pull_with rebuild_ignore)

lemma on_concurrent: "Q (core a) \<Longrightarrow> Q (core (on_concurrent env rel src r a))"
  unfolding on_concurrent_def by (intro on_concurrent_with rebuild_ignore)

lemma reconcile_one: "Q (core a) \<Longrightarrow> Q (core (reconcile_one env src rel r a))"
  unfolding reconcile_one_def by (intro reconcile_one_with rebuild_ignore)

lemmas syncing = apply_remote maybe_pull on_concurrent reconcile_one

lemma reconcile: "Q (core a) \<Longrightarrow> Q (core (reconcile env src a))"
proof (cases "bt_get (ac_peer_index a) src")
  case (Some remote)
  assume a: "Q (core a)"
  have step: "Q (core (fold (\<lambda>rel b. case bt_get remote rel of None \<Rightarrow> b | Some r \<Rightarrow> f rel r b) xs b))"
    if "Q (core b)" and "\<And>rel r b. Q (core b) \<Longrightarrow> Q (core (f rel r b))" for f xs b
    by (rule fold_op) (auto intro: that split: option.splits)
  show ?thesis
    using Some a by (auto simp: reconcile_def Let_def intro!: step syncing)
qed (simp add: reconcile_def)

lemma pull_staged: "Q (core a) \<Longrightarrow> Q (core (on_pull_staged env rel src r result a))"
  by (auto simp: on_pull_staged_def Let_def split: option.splits intro!: syncing finish attempt)

lemma unbusy: "Q (core a) \<Longrightarrow> Q (core (unbusy env rel a))"
  by (auto simp: unbusy_def Let_def split: option.splits intro!: syncing)

section \<open>Local changes\<close>

lemma commit_publish: "Q (core a) \<Longrightarrow> Q (core (commit_publish env rel p a))"
  by (auto simp: commit_publish_def Let_def vle_inc split: option.splits intro!: put)

lemma commit_tombstone: "Q (core a) \<Longrightarrow> Q (core (commit_tombstone env rel a))"
  by (auto simp: commit_tombstone_def tombstone_def vle_inc split: option.splits intro!: put)

lemma spawn_violation: "Q (core a) \<Longrightarrow> Q (core (spawn_violation env rel q reason a))"
  by (auto simp: spawn_violation_def split: option.splits intro: unbusy)

lemma autolock_fail: "Q (core a) \<Longrightarrow> Q (core (autolock_fail env rel q nf a))"
  by (auto simp: autolock_fail_def Let_def split: option.splits intro!: unbusy)

lemma begin_autolock: "Q (core a) \<Longrightarrow> Q (core (begin_autolock_acquire env rel q nf a))"
  by (auto simp: begin_autolock_acquire_def Let_def case_prod_beta split: sum.splits intro!: autolock_fail)

lemma publish_done: "Q (core a) \<Longrightarrow> Q (core (on_publish_done env rel result cause a))"
  by (auto simp: on_publish_done_def Let_def split: option.splits publish_cause.splits intro!: unbusy commit_publish)

lemma core_restore: "install_settled env rel bs (mute env rel a) = (ok, b) \<Longrightarrow> core b = core a"
  using core_install(2) [of env rel bs "mute env rel a"] by simp

lemma core_replace: "install_disk env rel bs (mute env rel a) = (ok, b) \<Longrightarrow> core b = core a \<and> files_of b = files_of a"
  using core_install(1) [of env rel bs "mute env rel a"] by (auto intro: files_core)

lemma violation_staged: "Q (core a) \<Longrightarrow> Q (core (on_violation_staged env rel result q pres a))"
  by (auto simp: on_violation_staged_def split: option.splits prod.splits bool.splits dest!: core_restore intro!: unbusy)

lemma on_watch: "Q (core a) \<Longrightarrow> Q (core (on_watch env rel a))"
  by (auto simp: on_watch_def is_muted_def Let_def split: bool.splits intro!: rebuild_ignore)

lemma on_inspected: "Q (core a) \<Longrightarrow> Q (core (on_inspected env rel outcome cause a))"
  by (auto simp: on_inspected_def split: option.splits inspect_cause.splits inspection.splits
      intro!: unbusy commit_tombstone spawn_violation)

lemma restore_staged: "Q (core a) \<Longrightarrow> Q (core (on_restore_staged env rel e result w a))"
  by (auto simp: on_restore_staged_def Let_def vle_inc split: option.splits prod.splits bool.splits
      dest!: core_replace intro!: unbusy put)

lemma conflict_applied: "Q (core a) \<Longrightarrow> Q (core (on_conflict_applied env rel result w a))"
  by (auto simp: on_conflict_applied_def Let_def split: option.splits prod.splits dest!: core_replace intro!: unbusy)

section \<open>Peers, requests and timers\<close>

lemma core_abort_acquire [simp]: "core (abort_acquire rel a) = core a"
  by (auto simp: abort_acquire_def Let_def split: option.splits)

lemma peer_gone: "Q (core a) \<Longrightarrow> Q (core (on_peer_gone env i conn a))"
  by (auto simp: on_peer_gone_def Let_def case_prod_beta intro!: fold_op)

lemma expel: "Q (core a) \<Longrightarrow> Q (core (expel env i a))"
  by (auto simp: expel_def split: option.splits intro!: peer_gone)

lemma authed: "Q (core a) \<Longrightarrow> Q (core (on_authed env i conn by_me a))"
  by (auto simp: on_authed_def accept_peer_def Let_def split: option.splits)

lemma commit_index: "Q (core a) \<Longrightarrow> Q (core (commit_peer_index env i ix ls a))"
  by (auto simp: commit_peer_index_def intro!: reconcile)

lemma lock_req: "Q (core a) \<Longrightarrow> Q (core (on_lock_req env i rel lamport ttl a))"
  by (auto simp: on_lock_req_def Let_def split: decision.splits option.splits prod.splits intro!: autolock_fail)

lemma lock_grant: "Q (core a) \<Longrightarrow> Q (core (on_lock_grant env i rel a))"
  by (auto simp: on_lock_grant_def Let_def case_prod_beta split: option.splits acquired.splits prod.splits)

lemma lock_deny: "Q (core a) \<Longrightarrow> Q (core (on_lock_deny env rel reason a))"
  by (auto simp: on_lock_deny_def Let_def split: option.splits prod.splits bool.splits intro!: autolock_fail)

lemma on_ctl: "Q (core a) \<Longrightarrow> Q (core (on_ctl env i m a))"
  by (cases m)
    (auto simp: on_ctl_def with_path_def on_index_part_def on_file_meta_def on_interest_def on_peer_identity_def Let_def
      split: prod.splits sum.splits option.splits
      intro!: expel commit_index reconcile_one lock_req lock_grant lock_deny peer_gone)

lemma handlers:
  "Q (core a) \<Longrightarrow> Q (core (handle_lock env path w a))"
  "Q (core a) \<Longrightarrow> Q (core (handle_unlock path w a))"
  "Q (core a) \<Longrightarrow> Q (core (handle_lock_wait env path w a))"
  "Q (core a) \<Longrightarrow> Q (core (handle_restore path n w a))"
  "Q (core a) \<Longrightarrow> Q (core (handle_conflict_apply name path w a))"
  "Q (core a) \<Longrightarrow> Q (core (handle_config_set lib key value w a))"
  "Q (core a) \<Longrightarrow> Q (core (handle_peer_name env valid known path nm w a))"
  "Q (core a) \<Longrightarrow> Q (core (on_acquire_timeout env rel lamport a))"
  by (auto simp: handle_lock_def on_clean_def request_lease_def Let_def case_prod_beta split: sum.splits option.splits)
    (auto simp: handle_unlock_def handle_lock_wait_def handle_restore_def handle_conflict_apply_def handle_config_set_def
      handle_peer_name_def on_acquire_timeout_def on_clean_def Let_def
      split: sum.splits option.splits prod.splits intro!: autolock_fail)

lemma commit_meta: "as_files st = as_files (ac_state a) \<Longrightarrow> Q (core a) \<Longrightarrow> Q (core (commit_meta w (ok, st) a))"
proof -
  assume "as_files st = as_files (ac_state a)" and "Q (core a)"
  moreover from this have "core (a\<lparr>ac_state := st\<rparr>) = core a" by (simp add: core_def files_of_def)
  ultimately show ?thesis by (cases ok) (auto simp: commit_meta_def)
qed

lemma metadata:
  assumes "Q (core a)"
  shows "Q (core (handle_tag path n name w a))" and "Q (core (handle_pin path n pinned w a))"
proof -
  have "as_files (snd (tag rel n name st)) = as_files st" "as_files (snd (set_pinned rel n pinned st)) = as_files st" for rel st
    by (auto simp: tag_def set_pinned_def Let_def split: option.splits)
  then have "Q (core (commit_meta w (tag rel n name (ac_state a)) a))" "Q (core (commit_meta w (set_pinned rel n pinned (ac_state a)) a))" for rel
    using commit_meta [OF _ assms] by (metis prod.collapse)+
  with assms show "Q (core (handle_tag path n name w a))" and "Q (core (handle_pin path n pinned w a))"
    by (auto simp: handle_tag_def handle_pin_def on_clean_def split: sum.splits)
qed

lemma on_sweep: "Q (core a) \<Longrightarrow> Q (core (on_sweep env a))"
proof -
  assume a: "Q (core a)"
  have 1: "Q (core b) \<Longrightarrow> Q (core (on_expired e b))" for e b by (cases e) (simp add: on_expired_def Let_def)
  have 2: "Q (core b) \<Longrightarrow> Q (core (on_timed_out env rel b))" for rel b
    by (auto simp: on_timed_out_def Let_def split: option.splits intro!: autolock_fail)
  have 3: "Q (core (fold release_own_lease rels a))" for rels by (rule fold_op [OF _ a]) simp
  show ?thesis
    unfolding on_sweep_def Let_def case_prod_beta
    by (rule fold_op [OF 2]) (simp_all, rule fold_op [OF 1], simp_all add: 3)
qed

lemma on_renew_tick: "Q (core a) \<Longrightarrow> Q (core (on_renew_tick env a))"
  unfolding on_renew_tick_def by (rule fold_op) (simp_all add: renew_one_def)

lemma shutdown: "Q (core a) \<Longrightarrow> Q (core (graceful_shutdown a))"
  by (auto simp: graceful_shutdown_def Let_def intro!: fold_op)

lemma dispatch: "Q (core a) \<Longrightarrow> Q (core (dispatch env ev a))"
  by (cases ev)
    (auto simp: violation_task_def autolock_task_def on_gc_done_def on_pull_retry_def Let_def split: option.splits
      intro!: authed on_ctl peer_gone on_watch on_inspected publish_done pull_staged violation_staged begin_autolock
        restore_staged conflict_applied handlers metadata on_sweep on_renew_tick shutdown)

lemma run: "Q (core a) \<Longrightarrow> Q (core (run evs a))"
  by (induction evs a rule: run.induct) (auto intro: dispatch)

lemma startup: "Q (core a) \<Longrightarrow> Q (core (startup_scan env on_disk a))"
proof -
  assume a: "Q (core a)"
  have 1: "Q (core (fold import_one xs a))" for xs
    by (rule fold_op) (auto simp: import_one_def a split: option.splits)
  have 2: "Q (core (fold (scan_one env) xs a))" for xs
    by (rule fold_op) (auto simp: scan_one_def a split: option.splits intro!: unbusy spawn_violation)
  have 3: "Q (core (fold (\<lambda>rel b. spawn_violation env rel False [] (b\<lparr>ac_busy := insert rel (ac_busy b)\<rparr>)) xs
      (fold (scan_one env) on_disk a)))" for xs
    by (rule fold_op) (auto intro!: spawn_violation 2)
  then show ?thesis using 1 by (auto simp: startup_scan_def drop_satisfied_def Let_def)
qed

lemma daemon_run: "Q (core a) \<Longrightarrow> Q (core (daemon_run env on_disk evs a))"
proof -
  assume "Q (core a)"
  then have "Q (core (dial_known_members env a))" by (auto simp: dial_known_members_def Let_def intro!: fold_op)
  then show ?thesis unfolding daemon_run_def by (intro run startup)
qed

end

section \<open>The index only grows\<close>

definition grown :: "(relpath, file_record) btree \<Rightarrow> sync_core \<Rightarrow> bool" where
  "grown F c \<longleftrightarrow>
     (\<forall>p r. bt_get F p = Some r \<longrightarrow> (\<exists>r'. bt_get (fst c) p = Some r' \<and> vle (fr_vv r) (fr_vv r')))"

lemma grown_frame: "frame a a' \<Longrightarrow> grown F (core a) \<Longrightarrow> grown F (core a')"
  unfolding frame_def grows_def grown_def fst_core by (meson vc.le_trans)

interpretation gi: sync_inv "grown F" for F
proof
  show "grown F (core_put rel r c)" if "grown F c" "\<And>p. bt_get (fst c) rel = Some p \<Longrightarrow> vle (fr_vv p) (fr_vv r)" for c rel r
    using that unfolding grown_def core_put_def by (auto, metis vc.le_trans)
  show "grown F (core (a\<lparr>ac_pending_pulls := bt_insert rel job' (ac_pending_pulls a)\<rparr>))" if "grown F (core a)" for a rel job'
    using that by (simp add: grown_def core_def files_of_def)
qed (auto intro: grown_frame frames)

text \<open>
  C2. The index never regresses: over any run of the daemon, that is the startup scan of the folder and any sequence of peer connections and messages (hostile
  ones included), watcher events, task results, local requests and timers, with any clock values and file system
  failures, every path that was in the index is still there and its version vector dominates or equals the earlier one.
\<close>

theorem index_never_regresses:
  assumes "bt_get (files_of a) p = Some r"
  shows "\<exists>r'. bt_get (files_of (daemon_run env on_disk evs a)) p = Some r' \<and> compare (fr_vv r) (fr_vv r') \<in> {Equal, Before}"
proof -
  have "grown (files_of a) (core a)" by (auto simp: grown_def intro: vc.le_refl)
  then have "grown (files_of a) (core (daemon_run env on_disk evs a))" by (rule gi.daemon_run)
  then show ?thesis using assms unfolding grown_def vc.cmp_spec fst_core by fastforce
qed

theorem index_never_regresses_witness:
  "\<exists>r'. bt_get (files_of (daemon_run demo_env [''x''] [(demo_env, EvWatch ''x''), (demo_env, EvSweep)] (demo_files [(''x'', demo_record [(''a'', 1)])] (demo_actor ''a'')))) ''x'' = Some r'
     \<and> compare [(''a'', 1)] (fr_vv r') \<in> {Equal, Before}"
  using index_never_regresses [of "demo_files [(''x'', demo_record [(''a'', 1)])] (demo_actor ''a'')" "''x''"
      "demo_record [(''a'', 1)]" demo_env "[''x'']" "[(demo_env, EvWatch ''x''), (demo_env, EvSweep)]"]
  by (simp add: bt_get_def demo_record_def)

section \<open>Pulls stay bounded\<close>

definition pulls_ok :: "sync_core \<Rightarrow> bool" where
  "pulls_ok c \<longleftrightarrow>
     (case c of (_, pp, bl) \<Rightarrow>
        bt_wf pp \<and> length pp \<le> MAX_CONCURRENT_PULLS \<and> length bl \<le> MAX_PULL_BACKLOG \<and> distinct (map fst bl))"

lemma length_remove_present:
  assumes "bt_get m k \<noteq> None"
  shows "length (bt_remove k m) < length m"
proof -
  obtain v where "(k, v) \<in> set m" using assms unfolding bt_get_def by (meson map_of_SomeD not_None_eq)
  then show ?thesis unfolding bt_remove_def by (intro length_filter_less) auto
qed

lemma length_insert_present:
  assumes "bt_wf m" and "bt_get m k \<noteq> None"
  shows "length (bt_insert k v m) = length m"
  using bt_length_insert [OF assms(1), of k v] assms(2) by (simp add: bt_contains_iff)

lemma put_slot_fst [simp]: "map fst (put_slot e q) = map fst q"
  by (induction q) auto

lemma put_slot_length [simp]: "length (put_slot e q) = length q"
  by (induction q) auto

lemma pulls_ok_admit:
  "pulls_ok (core a) \<Longrightarrow> length (ac_pending_pulls a) < MAX_CONCURRENT_PULLS \<Longrightarrow> pulls_ok (core (admit_pull rel src r a))"
  using bt_length_insert [of "ac_pending_pulls a" rel "new_job src r"]
  by (auto simp: pulls_ok_def admit_pull_def core_def files_of_def start_pull_def Let_def persist_def emit_def)

lemma remove_at_fst: "distinct (map fst q) \<Longrightarrow> distinct (map fst (remove_at i q))"
  using set_take_disj_set_drop_if_distinct [of "map fst q" i "Suc i"]
  by (simp add: remove_at_def distinct_take distinct_drop flip: take_map drop_map)

lemma pulls_ok_drain: "pulls_ok (core a) \<Longrightarrow> pulls_ok (core (drain_pull_backlog a))"
proof (rule drain_keeps)
  show "pulls_ok (core (b\<lparr>ac_pull_backlog := remove_at i (ac_pull_backlog b)\<rparr>))" if "pulls_ok (core b)" for b i
    using that by (auto simp: pulls_ok_def core_def remove_at_fst) (simp add: remove_at_def)
qed (auto intro: pulls_ok_admit)

lemma pulls_ok_finish: "pulls_ok (core a) \<Longrightarrow> pulls_ok (core (finish_pull rel a))"
proof -
  assume a: "pulls_ok (core a)"
  let ?a1 = "a\<lparr>ac_pending_pulls := bt_remove rel (ac_pending_pulls a)\<rparr>"
  have a1: "pulls_ok (core ?a1)"
    using a bt_length_remove [of rel "ac_pending_pulls a"] by (auto simp: pulls_ok_def core_def)
  have "pulls_ok (core (admit_pull rel src r ?a1))" if "bt_get (ac_pending_pulls a) rel \<noteq> None" for src r
    using pulls_ok_admit [OF a1] length_remove_present [OF that] a by (auto simp: pulls_ok_def core_def)
  with a a1 show ?thesis by (auto simp: finish_pull_def Let_def split: option.splits intro!: pulls_ok_drain)
qed

lemma pulls_ok_queue: "pulls_ok (core a) \<Longrightarrow> pulls_ok (core (queue_pull rel src r a))"
proof -
  assume a: "pulls_ok (core a)"
  have "pulls_ok (core (enqueue_pull_backlog rel src r a))"
    using a put_slot_length [of "(rel, src, r)" "ac_pull_backlog a"]
    by (auto simp: pulls_ok_def core_def enqueue_pull_backlog_def Let_def files_of_def list_ex_iff)
  with a show ?thesis
    using length_insert_present [of "ac_pending_pulls a" rel] pulls_ok_admit [of a rel src r]
    by (auto simp: queue_pull_def pulls_ok_def core_def files_of_def split: option.splits)
qed

interpretation pb: sync_inv pulls_ok
proof
  show "pulls_ok (core_put rel r c)" if "pulls_ok c" for c rel r
    using that by (auto simp: pulls_ok_def core_put_def split: prod.splits)
  show "pulls_ok (core (a\<lparr>ac_pending_pulls := bt_insert rel job' (ac_pending_pulls a)\<rparr>))"
    if "pulls_ok (core a)" "bt_get (ac_pending_pulls a) rel = Some job" for a rel job job'
    using that length_insert_present [of "ac_pending_pulls a" rel job'] by (auto simp: pulls_ok_def core_def)
qed (auto intro: pulls_ok_finish pulls_ok_queue)

text \<open>
  C34. Peers cannot exhaust the node through pulls: from a freshly started daemon, over any run, at most
  \<^const>\<open>MAX_CONCURRENT_PULLS\<close> pulls run at once and at most \<^const>\<open>MAX_PULL_BACKLOG\<close> wait, each for a different path,
  whatever indexes and records the peers advertise.
\<close>

theorem pulls_stay_bounded:
  "length (ac_pending_pulls (daemon_run env on_disk evs (new_actor env me timings st fo))) \<le> MAX_CONCURRENT_PULLS
   \<and> length (ac_pull_backlog (daemon_run env on_disk evs (new_actor env me timings st fo))) \<le> MAX_PULL_BACKLOG
   \<and> distinct (map fst (ac_pull_backlog (daemon_run env on_disk evs (new_actor env me timings st fo))))"
proof -
  have "pulls_ok (core (new_actor env me timings st fo))" by (simp add: pulls_ok_def core_def new_actor_def Let_def)
  then have "pulls_ok (core (daemon_run env on_disk evs (new_actor env me timings st fo)))" by (rule pb.daemon_run)
  then show ?thesis by (simp add: pulls_ok_def core_def)
qed

end
