(* ===== verification/PullProps.thy ===== *)
theory PullProps
  imports ActorInv
begin

text \<open>
  Two more facts about the running daemon: the index stays a well-formed map (the contract \<open>sync_inv\<close> once more), and the
  draining loop ends with nothing left to do.
\<close>

section \<open>The index is a map\<close>

definition index_wf :: "sync_core \<Rightarrow> bool" where
  "index_wf c \<longleftrightarrow> bt_wf (fst c)"

lemma index_wf_files: "files_of b = files_of a \<Longrightarrow> index_wf (core a) \<Longrightarrow> index_wf (core b)"
  by (simp add: index_wf_def)

interpretation iw: sync_inv index_wf
proof
  show "index_wf (core_put rel r c)" if "index_wf c" for c rel r
    using that by (simp add: index_wf_def core_put_def)
  show "index_wf (core (finish_pull rel a))" if "index_wf (core a)" for rel a
    by (rule index_wf_files [OF _ that]) simp
  show "index_wf (core (queue_pull rel src r a))" if "index_wf (core a)" for rel src r a
    by (rule index_wf_files [OF _ that]) simp
  show "index_wf (core (a\<lparr>ac_pending_pulls := bt_insert rel job' (ac_pending_pulls a)\<rparr>))" if "index_wf (core a)" for a rel job'
    using that by (simp add: index_wf_def files_of_def)
qed

text \<open>
  The index of the daemon is a map at all times: if the persisted index has every path once, in order, then so has the index
  after the startup scan and any sequence of events.
\<close>

theorem index_stays_well_formed:
  assumes "bt_wf (as_files st)"
  shows "bt_wf (files_of (daemon_run env on_disk evs (new_actor env' me timings st fo)))
    \<and> distinct (bt_keys (files_of (daemon_run env on_disk evs (new_actor env' me timings st fo))))"
proof -
  have "index_wf (core (new_actor env' me timings st fo))"
    using assms by (simp add: index_wf_def new_actor_def files_of_def Let_def)
  then have "index_wf (core (daemon_run env on_disk evs (new_actor env' me timings st fo)))" by (rule iw.daemon_run)
  then show ?thesis by (simp add: index_wf_def bt_wf_distinct bt_keys_def)
qed

theorem index_stays_well_formed_witness:
  "bt_wf (files_of (daemon_run demo_env [] [(demo_env, EvWatch ''x'')]
     (new_actor demo_env ''a'' default_timings ((new_state [] [])\<lparr>as_files := [(''x'', demo_record [])]\<rparr>)
       \<lparr>fo_files = [], fo_copies = [], fo_index = []\<rparr>)))"
  using index_stays_well_formed [of "(new_state [] [])\<lparr>as_files := [(''x'', demo_record [])]\<rparr>"] by (simp add: bt_wf_def)

section \<open>Draining\<close>

lemma pick_none: "pick_backlog_index a = None \<longleftrightarrow> ac_pull_backlog a = []"
proof -
  have "min_index f xs = None \<longleftrightarrow> xs = []" for f :: "relpath \<times> node_id \<times> file_record \<Rightarrow> _" and xs
    by (cases xs) (auto split: option.splits)
  then show ?thesis by (simp add: pick_backlog_index_def)
qed

text \<open>
  The loop that hands out pull slots terminates and leaves nothing undone: when a pull has ended, either every slot is taken
  again or no path waits in the backlog.
\<close>

theorem finish_pull_saturates:
  "length (ac_pending_pulls (finish_pull rel a)) \<ge> MAX_CONCURRENT_PULLS \<or> ac_pull_backlog (finish_pull rel a) = []"
proof -
  have "length (ac_pending_pulls (drain_pull_backlog b)) \<ge> MAX_CONCURRENT_PULLS \<or> ac_pull_backlog (drain_pull_backlog b) = []" for b
  proof (induction b rule: drain_pull_backlog.induct)
    case (1 b)
    show ?case
    proof (cases "length (ac_pending_pulls b) \<ge> MAX_CONCURRENT_PULLS")
      case True
      moreover from True have "drain_pull_backlog b = b" by (subst drain_pull_backlog.simps) simp
      ultimately show ?thesis by simp
    next
      case False
      show ?thesis
      proof (cases "pick_backlog_index b")
        case None
        moreover from None have "drain_pull_backlog b = b" by (subst drain_pull_backlog.simps) simp
        ultimately show ?thesis by (simp add: pick_none)
      next
        case (Some i)
        obtain p src r where e: "ac_pull_backlog b ! i = (p, src, r)" by (metis prod_cases3)
        define b1 where "b1 = b\<lparr>ac_pull_backlog := remove_at i (ac_pull_backlog b)\<rparr>"
        have "drain_pull_backlog b =
            (if bt_contains (ac_pending_pulls b1) p \<or> is_held_by_me (ac_locks b1) p then drain_pull_backlog b1
             else drain_pull_backlog (admit_pull p src r b1))"
          using False by (subst drain_pull_backlog.simps) (simp add: Some e Let_def flip: b1_def)
        then show ?thesis using "1.IH" [OF _ Some refl e [symmetric] refl b1_def] False by auto
      qed
    qed
  qed
  then show ?thesis by (simp add: finish_pull_def)
qed

end
