(* ===== verification/DialProps.thy ===== *)
theory DialProps
  imports Daemon
begin

text \<open>
  Reaching members: a member that cannot be reached is tried for ever, on delays that double up to the cap; and a dial whose connection
  is refused locally leaves the member marked as being dialled.
\<close>

section \<open>Redialling\<close>

text \<open>One failed attempt and the timer it sets, \<open>n\<close> times over.\<close>

primrec failed_attempts :: "daemon_env \<Rightarrow> node_id \<Rightarrow> nat \<Rightarrow> (daemon_env \<times> event) list" where
  "failed_attempts env i 0 = []"
| "failed_attempts env i (Suc n) = (env, EvDialFailed i) # (env, EvRetryDial i) # failed_attempts env i n"

definition redial_delay :: "daemon_env \<Rightarrow> nat \<Rightarrow> duration" where
  "redial_delay env k = min (2 ^ k * REDIAL_BACKOFF_MIN) REDIAL_BACKOFF_MAX + from_millis (unat (dv_jitter env) mod 250)"

definition unreached :: "daemon_env \<Rightarrow> node_id \<Rightarrow> endpoint_addr \<Rightarrow> actor \<Rightarrow> bool" where
  "unreached env i addr a \<longleftrightarrow> i \<in> ac_dialing a \<and> i \<noteq> ac_me a \<and> \<not> bt_contains (ac_peers a) i \<and> i \<notin> ac_redial_scheduled a
     \<and> known_member_addr env i a = Some addr"

lemma attempt_fails:
  assumes "unreached env i addr a"
  defines "d \<equiv> next_backoff (bt_get (ac_backoff a) i)"
  defines "a' \<equiv> dispatch env (EvRetryDial i) (dispatch env (EvDialFailed i) a)"
  shows "unreached env i addr a'" and "bt_get (ac_backoff a') i = Some d"
    and "ac_out a' = ac_out a @ [RedialTimer i (d + from_millis (unat (dv_jitter env) mod 250)), StartDial i addr]"
  using assms
  by (auto simp: unreached_def known_member_addr_def on_dial_failed_def on_retry_dial_def schedule_redial_def dial_def emit_def
      Let_def split: option.splits)

lemma next_backoff_power:
  "next_backoff None = min (2 ^ 0 * REDIAL_BACKOFF_MIN) REDIAL_BACKOFF_MAX"
  "next_backoff (Some (min (2 ^ k * REDIAL_BACKOFF_MIN) REDIAL_BACKOFF_MAX)) = min (2 ^ Suc k * REDIAL_BACKOFF_MIN) REDIAL_BACKOFF_MAX"
proof -
  show "next_backoff None = min (2 ^ 0 * REDIAL_BACKOFF_MIN) REDIAL_BACKOFF_MAX"
    by (simp add: next_backoff_def REDIAL_BACKOFF_MIN_def REDIAL_BACKOFF_MAX_def from_secs_def)
  show "next_backoff (Some (min (2 ^ k * REDIAL_BACKOFF_MIN) REDIAL_BACKOFF_MAX)) = min (2 ^ Suc k * REDIAL_BACKOFF_MIN) REDIAL_BACKOFF_MAX"
    by (simp add: next_backoff_def min_def)
qed

lemma attempts_from:
  assumes "unreached env i addr a" and "next_backoff (bt_get (ac_backoff a) i) = min (2 ^ k * REDIAL_BACKOFF_MIN) REDIAL_BACKOFF_MAX"
  shows "unreached env i addr (run (failed_attempts env i n) a)
    \<and> ac_out (run (failed_attempts env i n) a)
      = ac_out a @ concat (map (\<lambda>j. [RedialTimer i (redial_delay env j), StartDial i addr]) [k..<k + n])"
  using assms
proof (induction n arbitrary: a k)
  case (Suc n)
  let ?a = "dispatch env (EvRetryDial i) (dispatch env (EvDialFailed i) a)"
  note step = attempt_fails [OF Suc.prems(1)]
  have doubled: "next_backoff (bt_get (ac_backoff ?a) i) = min (2 ^ Suc k * REDIAL_BACKOFF_MIN) REDIAL_BACKOFF_MAX"
    unfolding step(2) Suc.prems(2) by (rule next_backoff_power)
  have "[k..<k + Suc n] = k # [Suc k..<Suc k + n]" by (simp add: upt_conv_Cons)
  then show ?case
    using Suc.IH [OF step(1) doubled] step(3) by (simp add: Suc.prems(2) redial_delay_def del: dispatch.simps upt_Suc)
qed simp

text \<open>
  A known member that cannot be reached is never given up: after any number of failed dials in a row it is being dialled
  again, and the delays before the attempts were one second, two, four and so on up to the cap of a minute, plus the jitter
  of less than 250 ms, one timer and one dial for each failure.
\<close>

theorem failed_dials_retry_forever:
  assumes "i \<in> ac_dialing a" and "i \<noteq> ac_me a" and "\<not> bt_contains (ac_peers a) i" and "i \<notin> ac_redial_scheduled a"
    and "known_member_addr env i a = Some addr" and "bt_get (ac_backoff a) i = None"
  shows "i \<in> ac_dialing (run (failed_attempts env i n) a)
    \<and> ac_out (run (failed_attempts env i n) a)
      = ac_out a @ concat (map (\<lambda>k. [RedialTimer i (redial_delay env k), StartDial i addr]) [0..<n])"
proof -
  have "unreached env i addr a" using assms by (simp add: unreached_def)
  moreover have "next_backoff (bt_get (ac_backoff a) i) = min (2 ^ 0 * REDIAL_BACKOFF_MIN) REDIAL_BACKOFF_MAX"
    unfolding assms(6) by (rule next_backoff_power)
  ultimately show ?thesis using attempts_from [of env i addr a 0 n] by (simp add: unreached_def)
qed

definition demo_dialling :: actor where
  "demo_dialling = (demo_actor ''a'')\<lparr>ac_dialing := {''b''},
     ac_members := [(''b'', \<lparr>mi_addr = \<lparr>ea_id = [], ea_addrs = []\<rparr>, mi_last_seen = 0\<rparr>)]\<rparr>"

theorem failed_dials_retry_forever_witness:
  "''b'' \<in> ac_dialing (run (failed_attempts demo_env ''b'' 3) demo_dialling)
    \<and> ac_out (run (failed_attempts demo_env ''b'' 3) demo_dialling)
      = concat (map (\<lambda>k. [RedialTimer ''b'' (redial_delay demo_env k), StartDial ''b'' \<lparr>ea_id = [], ea_addrs = []\<rparr>]) [0..<3])"
  using failed_dials_retry_forever [of "''b''" demo_dialling demo_env "\<lparr>ea_id = [], ea_addrs = []\<rparr>" 3]
  by (simp add: demo_dialling_def demo_actor_def known_member_addr_def bt_contains_def bt_get_def)

section \<open>A refused connection\<close>

text \<open>
  When the table of peers is full, the connection that our own dial brought up is closed, and nothing takes the member out of
  the set of members being dialled: no gossip about it starts a dial again, even when the table has room.
\<close>

lemma refused_dial_stays_marked:
  assumes "i \<in> ac_dialing a" and "i \<noteq> ac_me a" and "\<not> bt_contains (ac_peers a) i" and "length (ac_peers a) \<ge> MAX_PEERS"
  shows "i \<in> ac_dialing (dispatch env (EvAuthed i c True) a)"
    and "\<not> bt_contains (ac_peers (dispatch env (EvAuthed i c True) a)) i"
  using assms by (auto simp: on_authed_def emit_def bt_contains_iff split: option.splits)

lemma marked_member_not_dialled:
  assumes "i \<in> ac_dialing a"
  shows "dial env i a = a" and "dispatch env (EvMember (NeighborUp i)) a = a"
    and "StartDial i addr \<in> set (ac_out (dispatch env (EvMember (Seen i addr')) a)) \<Longrightarrow> StartDial i addr \<in> set (ac_out a)"
  using assms by (auto simp: dial_def persist_def emit_def Let_def split: if_splits)

end
