(* ===== verification/RoleProps.thy ===== *)
theory RoleProps
  imports ActorInv
begin

text \<open>
  Role enforcement on the granting side: in a session with an admin key, a lease is granted to a peer only after that peer
  presented an unexpired editor grant signed by the admin.  The projection \<open>rcore\<close> is all that matters for this: what is fixed
  for the life of the daemon (the admin key and the settings that need a restart), the recorded roles, and the grants sent; every
  handler but four leaves it as it is.
\<close>

definition fixed_part :: "actor \<Rightarrow> string option \<times> (string \<times> bool \<times> bool) \<times> (bool \<times> node_role \<times> bool) \<times> (string \<times> string \<times> u64 \<times> nat)" where
  "fixed_part a = (as_admin_public_key (ac_state a), restart_part (as_config (ac_state a)))"

definition rcore ::
  "actor \<Rightarrow> (string option \<times> (string \<times> bool \<times> bool) \<times> (bool \<times> node_role \<times> bool) \<times> (string \<times> string \<times> u64 \<times> nat))
     \<times> (node_id, u8) btree \<times> effect list" where
  "rcore a = (fixed_part a, ac_peer_roles a, filter is_grant (ac_out a))"

lemma rcore_frame: "frame a a' \<Longrightarrow> rcore a' = rcore a"
  by (auto simp: rcore_def fixed_part_def frame_def same_links_def out_ext_def list_all_iff filter_empty_conv)

lemmas rcore_pulling [simp] =
  rcore_frame [OF frame_unbusy] rcore_frame [OF frame_rebuild_ignore] rcore_frame [OF frame_inspect]
  rcore_frame [OF frame_on_pull_staged] rcore_frame [OF frame_pull_retry] rcore_frame [OF frame_reconcile]
  rcore_frame [OF frame_reconcile_one] rcore_frame [OF frame_persist] rcore_frame [OF frame_mute]
  rcore_frame [OF frame_with_folder] rcore_frame [OF frame_try_quarantine] rcore_frame [OF frame_remove_disk]
  rcore_frame [OF frame_replace_disk] rcore_frame [OF frame_state(3)] rcore_frame [OF frame_state(4)]
  rcore_frame [OF frame_state(5)]

lemma rcore_emit [simp]: "\<not> is_grant e \<Longrightarrow> rcore (emit e a) = rcore a"
  by (simp add: rcore_def fixed_part_def emit_def)

lemma rcore_broadcast [simp]: "(\<And>p. m \<noteq> LockGrant p) \<Longrightarrow> rcore (broadcast_all m a) = rcore a"
  by (rule rcore_frame [OF frame_broadcast])

lemma rcore_upd [simp]:
  "rcore (a\<lparr>ac_locks := x1\<rparr>) = rcore a" "rcore (a\<lparr>ac_peers := x2\<rparr>) = rcore a"
  "rcore (a\<lparr>ac_pending_acquires := x3\<rparr>) = rcore a" "rcore (a\<lparr>ac_autolock_pending := x4\<rparr>) = rcore a"
  "rcore (a\<lparr>ac_autolock_idle := x5\<rparr>) = rcore a" "rcore (a\<lparr>ac_busy := x6\<rparr>) = rcore a"
  "rcore (a\<lparr>ac_recheck := x7\<rparr>) = rcore a" "rcore (a\<lparr>ac_my_waits := x8\<rparr>) = rcore a"
  "rcore (a\<lparr>ac_interest := x9\<rparr>) = rcore a" "rcore (a\<lparr>ac_index_staging := y1\<rparr>) = rcore a"
  "rcore (a\<lparr>ac_peer_index := y3\<rparr>) = rcore a"
  "rcore (a\<lparr>ac_held_local := y4\<rparr>) = rcore a" "rcore (a\<lparr>ac_muted := y5\<rparr>) = rcore a"
  "rcore (a\<lparr>ac_pending_unlocks := y7\<rparr>) = rcore a"
  "rcore (a\<lparr>ac_index_received := y8\<rparr>) = rcore a" "rcore (a\<lparr>ac_gc_running := z1\<rparr>) = rcore a"
  "rcore (a\<lparr>ac_gc_dirty := z2\<rparr>) = rcore a" "rcore (a\<lparr>ac_timings := z3\<rparr>) = rcore a"
  "rcore (a\<lparr>ac_state := (ac_state a)\<lparr>as_peer_names := z5\<rparr>\<rparr>) = rcore a"
  "rcore (a\<lparr>ac_members := v3\<rparr>) = rcore a" "rcore (a\<lparr>ac_dialing := v4\<rparr>) = rcore a"
  "rcore (a\<lparr>ac_redial_scheduled := v5\<rparr>) = rcore a" "rcore (a\<lparr>ac_backoff := v6\<rparr>) = rcore a"
  "rcore (a\<lparr>ac_fast_redial_used := v7\<rparr>) = rcore a"
  "rcore (a\<lparr>ac_state := (ac_state a)\<lparr>as_known_members := v8\<rparr>\<rparr>) = rcore a"
  "rcore (a\<lparr>ac_state := (ac_state a)\<lparr>as_pulling := v9\<rparr>\<rparr>) = rcore a"
  by (simp_all add: rcore_def fixed_part_def)

lemma rcore_config:
  "restart_part c = restart_part (as_config (ac_state a)) \<Longrightarrow> rcore (a\<lparr>ac_state := (ac_state a)\<lparr>as_config := c\<rparr>\<rparr>) = rcore a"
  by (simp add: rcore_def fixed_part_def)

lemma rcore_dial [simp]: "rcore (dial env i a) = rcore a" "rcore (schedule_redial env i a) = rcore a"
  by (auto simp: dial_def schedule_redial_def Let_def split: option.splits)

lemma rcore_dialling [simp]:
  "rcore (redial_lost env i a) = rcore a" "rcore (settle_member env i a) = rcore a" "rcore (on_member env m a) = rcore a"
  "rcore (on_dial_failed env i a) = rcore a" "rcore (on_retry_dial env i a) = rcore a" "rcore (start_gc a) = rcore a"
  by (cases m; auto simp: redial_lost_def settle_member_def on_dial_failed_def on_retry_dial_def start_gc_def Let_def)+

lemma rcore_fold: "(\<And>x b. rcore (f x b) = rcore b) \<Longrightarrow> rcore (fold f xs a) = rcore a"
  by (induction xs arbitrary: a) auto

lemma rcore_put [simp]: "rcore (put_record rel r a) = rcore a"
  by (simp add: rcore_def fixed_part_def put_record_def)

lemma rcore_ops [simp]:
  "rcore (settle_mode rel a) = rcore a" "rcore (spawn_publish rel pcause a) = rcore a" "rcore (announce_freed rel a) = rcore a"
  "rcore (finish_unlock rel ok w a) = rcore a" "rcore (release_own_lease rel a) = rcore a"
  "rcore (spawn_autolock rel nf a) = rcore a" "rcore (snd (autolock_succeed env rel a)) = rcore a"
  "rcore (reset_idle env rel a) = rcore a" "rcore (fail_with w code a) = rcore a"
  "rcore (forget_acquire rel a) = rcore a" "rcore (reply_acquire rel resp a) = rcore a"
  "rcore (announce_record rel r a) = rcore a"
  by (auto simp: settle_mode_def spawn_publish_def announce_freed_def finish_unlock_def release_own_lease_def
      spawn_autolock_def autolock_succeed_def reset_idle_def fail_with_def forget_acquire_def reply_acquire_def
      announce_record_def Let_def split: option.splits)

lemma rcore_pair: "rcore (snd p) = rcore a \<Longrightarrow> p = (x, b) \<Longrightarrow> rcore b = rcore a"
  by simp

lemma rcore_disk [simp]:
  "rcore (violation_new_file env rel a) = rcore a"
  by (auto simp: violation_new_file_def split: prod.splits bool.splits option.splits
      dest!: rcore_pair [OF rcore_frame [OF frame_try_quarantine]])

lemma rcore_local [simp]:
  "rcore (commit_publish env rel p a) = rcore a" "rcore (commit_tombstone env rel a) = rcore a"
  "rcore (spawn_violation env rel q reason a) = rcore a" "rcore (autolock_fail env rel qid nf a) = rcore a"
  by (auto simp: commit_publish_def commit_tombstone_def spawn_violation_def autolock_fail_def Let_def split: option.splits)

lemma rcore_tasks [simp]:
  "rcore (begin_autolock_acquire env rel qid nf a) = rcore a" "rcore (on_watch env rel a) = rcore a"
  "rcore (on_publish_done env rel presult cause a) = rcore a" "rcore (on_inspected env rel outcome icause a) = rcore a"
  by (auto simp: begin_autolock_acquire_def on_watch_def is_muted_def on_publish_done_def on_inspected_def Let_def case_prod_beta
      split: sum.splits bool.splits option.splits publish_cause.splits inspect_cause.splits inspection.splits)

lemma rcore_staged [simp]:
  "rcore (on_violation_staged env rel result q pres a) = rcore a"
  "rcore (on_restore_staged env rel e result w a) = rcore a" "rcore (on_conflict_applied env rel cresult w a) = rcore a"
  by (auto simp: on_violation_staged_def on_restore_staged_def on_conflict_applied_def Let_def
      split: option.splits prod.splits bool.splits
      dest!: rcore_pair [OF rcore_frame [OF frame_install_disk]] rcore_pair [OF rcore_frame [OF frame_install_settled]])

lemma rcore_commit_meta:
  assumes "as_admin_public_key st = as_admin_public_key (ac_state a)" and "as_config st = as_config (ac_state a)"
  shows "rcore (commit_meta w (ok, st) a) = rcore a"
proof -
  have "rcore (a\<lparr>ac_state := st\<rparr>) = rcore a" using assms by (simp add: rcore_def fixed_part_def)
  then show ?thesis by (cases ok) (auto simp: commit_meta_def)
qed

lemma rcore_handlers [simp]:
  "rcore (handle_lock env path w a) = rcore a" "rcore (handle_unlock path w a) = rcore a"
  "rcore (handle_lock_wait env path w a) = rcore a" "rcore (handle_restore path n w a) = rcore a"
  "rcore (handle_conflict_apply name path w a) = rcore a" "rcore (handle_config_set lib key value w a) = rcore a"
  "rcore (handle_peer_name env valid known path nm w a) = rcore a" "rcore (on_acquire_timeout env rel lamport a) = rcore a"
  by (auto simp: handle_lock_def request_lease_def handle_unlock_def handle_lock_wait_def handle_restore_def
      handle_conflict_apply_def handle_config_set_def handle_peer_name_def on_acquire_timeout_def on_clean_def Let_def
      case_prod_beta rcore_config live_value_restart_part split: sum.splits option.splits prod.splits)

lemma rcore_metadata [simp]:
  "rcore (handle_tag path n name w a) = rcore a" "rcore (handle_pin path n pinned w a) = rcore a"
proof -
  have "as_admin_public_key (snd (tag rel n name st)) = as_admin_public_key st \<and> as_config (snd (tag rel n name st)) = as_config st"
    "as_admin_public_key (snd (set_pinned rel n pinned st)) = as_admin_public_key st \<and> as_config (snd (set_pinned rel n pinned st)) = as_config st" for rel st
    by (auto simp: tag_def set_pinned_def Let_def split: option.splits)
  then have "rcore (commit_meta w (tag rel n name (ac_state a)) a) = rcore a"
    "rcore (commit_meta w (set_pinned rel n pinned (ac_state a)) a) = rcore a" for rel
    using rcore_commit_meta by (metis prod.collapse)+
  then show "rcore (handle_tag path n name w a) = rcore a" "rcore (handle_pin path n pinned w a) = rcore a"
    by (auto simp: handle_tag_def handle_pin_def on_clean_def split: sum.splits)
qed

lemma rcore_timers [simp]:
  "rcore (on_sweep env a) = rcore a" "rcore (on_renew_tick env a) = rcore a" "rcore (graceful_shutdown a) = rcore a"
proof -
  have "rcore (on_expired e b) = rcore b" for e b by (cases e) (simp add: on_expired_def Let_def)
  moreover have "rcore (on_timed_out env rel b) = rcore b" for rel b by (auto simp: on_timed_out_def Let_def split: option.splits)
  ultimately show "rcore (on_sweep env a) = rcore a"
    unfolding on_sweep_def Let_def case_prod_beta by (simp add: rcore_fold)
  show "rcore (on_renew_tick env a) = rcore a" by (simp add: on_renew_tick_def rcore_fold renew_one_def)
  have "rcore (b\<lparr>ac_out := ac_out b @ map CloseConn xs, ac_peers := []\<rparr>) = rcore b" for b xs
    by (simp add: rcore_def fixed_part_def filter_empty_conv)
  then show "rcore (graceful_shutdown a) = rcore a" by (simp add: graceful_shutdown_def Let_def rcore_fold)
qed

lemma rcore_disk_tasks [simp]:
  "rcore (snd (violation_task env rel qf reason a)) = rcore a" "rcore (snd (autolock_task env rel a)) = rcore a"
  "rcore (on_gc_done a) = rcore a"
  by (auto simp: violation_task_def autolock_task_def on_gc_done_def Let_def split: prod.splits option.splits
      dest!: rcore_pair [OF rcore_frame [OF frame_try_quarantine]] rcore_pair [OF rcore_frame [OF frame_remove_disk]])

lemma rcore_start [simp]: "rcore (startup_scan env on_disk (dial_known_members env a)) = rcore a"
proof -
  have "rcore (import_one rel b) = rcore b" "rcore (scan_one env rel b) = rcore b" for rel b
    by (auto simp: import_one_def scan_one_def split: option.splits)
  then show ?thesis by (simp add: startup_scan_def drop_satisfied_def dial_known_members_def Let_def rcore_fold)
qed

section \<open>Roles may be forgotten\<close>

definition roles_shrink :: "actor \<Rightarrow> actor \<Rightarrow> bool" where
  "roles_shrink a a' \<longleftrightarrow>
     fst (rcore a') = fst (rcore a) \<and> snd (snd (rcore a')) = snd (snd (rcore a))
     \<and> (\<forall>i v. bt_get (fst (snd (rcore a'))) i = Some v \<longrightarrow> bt_get (fst (snd (rcore a))) i = Some v)"

interpretation rs: step_rel roles_shrink
  by unfold_locales (auto simp: roles_shrink_def)

lemma roles_shrink_same: "rcore a' = rcore a \<Longrightarrow> roles_shrink a a'"
  by (simp add: roles_shrink_def rcore_def)

lemma roles_shrink_gone: "roles_shrink a (on_peer_gone env i c a)"
proof -
  have drop: "rcore (abort_acquire rel b) = rcore b" for rel b
    by (auto simp: abort_acquire_def Let_def split: option.splits)
  show ?thesis
    by (auto simp: on_peer_gone_def Let_def case_prod_beta roles_shrink_def rcore_fold [OF drop] intro: rs.refl)
      (auto simp: rcore_def fixed_part_def emit_def split: if_splits)
qed

lemma roles_shrink_expel: "roles_shrink a (expel env i a)"
proof -
  have "roles_shrink a ((emit (CloseConn i) a)\<lparr>ac_peers := bt_remove i (ac_peers a)\<rparr>)"
    by (rule roles_shrink_same) simp
  then show ?thesis using rs.trans roles_shrink_gone rs.refl by (auto simp: expel_def split: option.splits)
qed

lemma leases_only_no_grant: "leases_only_part ser seq lamport ls \<noteq> LockGrant p"
  by (induction ser seq lamport ls rule: leases_only_part.induct) (subst leases_only_part.simps, simp add: Let_def)

lemma split_index_no_grant: "LockGrant p \<notin> set (split_index_parts ser ser_entry lamport files ls)"
  using leases_only_no_grant [of ser _ lamport ls p, symmetric]
  by (auto simp: split_index_parts_def index_parts_of_def Let_def)

lemma rcore_links [simp]:
  "rcore (on_authed env i c by_me a) = rcore a" "rcore (commit_peer_index env i ix ls a) = rcore a"
  "rcore (on_file_meta env i rel r a) = rcore a" "rcore (on_interest i rel a) = rcore a"
  "rcore (on_lock_grant env i rel a) = rcore a" "rcore (on_lock_deny env rel reason a) = rcore a"
proof -
  have parts: "filter is_grant (map (Send i) (build_index_parts env b)) = []" for b
    using split_index_no_grant
    by (auto simp: filter_empty_conv build_index_parts_def is_grant.simps elim!: is_grant.elims)
  have "rcore (accept_peer env i h b) = rcore b" for h b
    by (auto simp: accept_peer_def settle_member_def Let_def rcore_def fixed_part_def emit_def parts split: option.splits)
  then show "rcore (on_authed env i c by_me a) = rcore a"
    by (auto simp: on_authed_def Let_def split: option.splits)
  show "rcore (commit_peer_index env i ix ls a) = rcore a" by (simp add: commit_peer_index_def)
  show "rcore (on_file_meta env i rel r a) = rcore a" by (simp add: on_file_meta_def)
  show "rcore (on_interest i rel a) = rcore a" by (simp add: on_interest_def)
  show "rcore (on_lock_grant env i rel a) = rcore a"
    by (auto simp: on_lock_grant_def Let_def case_prod_beta split: prod.splits option.splits acquired.splits)
  show "rcore (on_lock_deny env rel reason a) = rcore a"
    by (auto simp: on_lock_deny_def Let_def split: prod.splits bool.splits option.splits)
qed

text \<open>Two messages bear on the roles and the grants; every other event at most forgets roles.\<close>

fun role_event :: "event \<Rightarrow> bool" where
  "role_event (EvMsg _ (LockReq _ _ _)) \<longleftrightarrow> True"
| "role_event (EvMsg _ (Identity _)) \<longleftrightarrow> True"
| "role_event _ \<longleftrightarrow> False"

lemma with_path_rcore: "(\<And>rel b. rcore (f rel b) = rcore b) \<Longrightarrow> rcore (with_path p f a) = rcore a"
  by (auto simp: with_path_def split: sum.splits)

lemma rcore_see_lamport [simp]: "rcore (see_lamport l a) = rcore a"
  by (simp add: rcore_def fixed_part_def see_lamport_def)

lemma index_part_shrinks: "roles_shrink a (on_index_part env i seq final files ls a)"
proof -
  have st: "roles_shrink a (a\<lparr>ac_index_staging := st\<rparr>)" for st by (rule roles_shrink_same) simp
  have "roles_shrink a (expel env i (a\<lparr>ac_index_staging := st\<rparr>))" for st
    by (rule rs.trans [OF st roles_shrink_expel])
  moreover have "roles_shrink a (commit_peer_index env i ix ls (a\<lparr>ac_index_staging := st\<rparr>))" for ix st
    by (rule roles_shrink_same) simp
  ultimately show ?thesis using st by (simp add: on_index_part_def Let_def case_prod_beta)
qed

lemma msg_shrinks: "\<not> role_event (EvMsg i m) \<Longrightarrow> roles_shrink a (handle_msg env i m a)"
proof (cases m)
  case (IndexPart seq final lamport files ls)
  have "roles_shrink a (see_lamport lamport a)" by (rule roles_shrink_same) simp
  then show ?thesis using IndexPart rs.trans index_part_shrinks by simp
next
  case Bye
  then show ?thesis by (auto intro: rs.refl roles_shrink_gone split: option.splits)
qed (auto simp: Let_def with_path_rcore intro: roles_shrink_expel roles_shrink_same)

lemma dispatch_shrinks: "\<not> role_event ev \<Longrightarrow> roles_shrink a (dispatch env ev a)"
proof (cases ev)
  case (EvMsg i m)
  assume "\<not> role_event ev"
  then show ?thesis using EvMsg msg_shrinks [of i m a env] by (simp add: on_ctl_def rs.refl)
qed (auto intro: roles_shrink_same roles_shrink_gone)

section \<open>What a running daemon keeps\<close>

lemma lock_req_core:
  "rcore (on_lock_req env i rel lamport ttl a) = rcore a
    \<or> peer_may_lock i a \<and> rcore (on_lock_req env i rel lamport ttl a) =
        (fst (rcore a), fst (snd (rcore a)), snd (snd (rcore a)) @ [Send i (LockGrant rel)])"
proof -
  have grant: "rcore (send_to i (LockGrant rel) b) =
      (if bt_contains (ac_peers b) i then (fst (rcore b), fst (snd (rcore b)), snd (snd (rcore b)) @ [Send i (LockGrant rel)])
       else rcore b)" for b
    by (simp add: send_to_def rcore_def fixed_part_def emit_def)
  have deny: "rcore (send_to i (LockDeny rel reason) b) = rcore b" for b reason
    by (simp add: send_to_def)
  show ?thesis
    by (auto simp: on_lock_req_def Let_def case_prod_beta grant deny split: decision.splits option.splits)
qed

lemma fixed_shrink: "roles_shrink a a' \<Longrightarrow> fixed_part a' = fixed_part a"
  by (simp add: roles_shrink_def rcore_def)

lemma fixed_dispatch: "fixed_part (dispatch env ev a) = fixed_part a"
proof (cases "role_event ev")
  case False
  then show ?thesis using fixed_shrink dispatch_shrinks by blast
next
  case True
  have req: "fixed_part (on_lock_req env i rel lamport ttl b) = fixed_part b" for i rel lamport ttl b
    using lock_req_core [of env i rel lamport ttl b] by (auto simp: rcore_def)
  have see: "fixed_part (see_lamport l a) = fixed_part a" for l by (simp add: see_lamport_def fixed_part_def)
  have ident: "fixed_part (on_peer_identity env i g b) = fixed_part b" for i g b
    by (auto simp: on_peer_identity_def fixed_part_def split: option.splits)
  from True show ?thesis
    by (cases ev rule: role_event.cases) (auto simp: on_ctl_def with_path_def req see ident split: sum.splits)
qed

lemma fixed_run: "fixed_part (run evs a) = fixed_part a"
  by (induction evs a rule: run.induct) (auto simp: fixed_dispatch)

section \<open>Provenance of the grants\<close>

text \<open>The sender of a message presented a grant for the role that the admin key verifies and that has not expired.\<close>

definition presented :: "string \<Rightarrow> (daemon_env \<times> event) list \<Rightarrow> node_id \<Rightarrow> u8 \<Rightarrow> bool" where
  "presented k evs i v \<longleftrightarrow> (\<exists>env g pub. (env, EvMsg i (Identity g)) \<in> set evs \<and> dv_decode_hex32 env k = Some pub
     \<and> dv_verify env g pub \<and> \<not> is_expired (sg_grant g) (dv_now_ms env) \<and> g_role (sg_grant g) = v)"

definition proven :: "string \<Rightarrow> (daemon_env \<times> event) list \<Rightarrow> actor \<Rightarrow> bool" where
  "proven k evs a \<longleftrightarrow> as_admin_public_key (ac_state a) = Some k
     \<and> (\<forall>i v. bt_get (ac_peer_roles a) i = Some v \<longrightarrow> presented k evs i v)
     \<and> (\<forall>i p. Send i (LockGrant p) \<in> set (ac_out a) \<longrightarrow> presented k evs i ROLE_EDITOR)"

lemma presented_more: "presented k evs i v \<Longrightarrow> presented k (evs @ es) i v"
  unfolding presented_def by fastforce

lemma grant_in_rcore: "Send i (LockGrant p) \<in> set (ac_out a) \<longleftrightarrow> Send i (LockGrant p) \<in> set (snd (snd (rcore a)))"
  by (simp add: rcore_def)

lemma proven_shrink: "proven k evs a \<Longrightarrow> roles_shrink a a' \<Longrightarrow> proven k (evs @ es) a'"
  by (auto simp: proven_def roles_shrink_def grant_in_rcore intro!: presented_more) (auto simp: rcore_def fixed_part_def)

lemma proven_lock_req:
  assumes "proven k evs a"
  shows "proven k (evs @ es) (on_lock_req env i rel lamport ttl a)"
proof (cases "rcore (on_lock_req env i rel lamport ttl a) = rcore a")
  case True
  then show ?thesis using assms proven_shrink roles_shrink_same by blast
next
  case False
  then have r: "peer_may_lock i a" "rcore (on_lock_req env i rel lamport ttl a) =
      (fst (rcore a), fst (snd (rcore a)), snd (snd (rcore a)) @ [Send i (LockGrant rel)])"
    using lock_req_core by blast+
  have "presented k evs i ROLE_EDITOR"
    using r(1) assms
    by (auto simp: peer_may_lock_def proven_def enforcing_roles_def is_some_and_def role_can_edit_def split: option.splits)
  then have "presented k (evs @ es) i ROLE_EDITOR" by (rule presented_more)
  moreover have "as_admin_public_key (ac_state (on_lock_req env i rel lamport ttl a)) = as_admin_public_key (ac_state a)"
    "ac_peer_roles (on_lock_req env i rel lamport ttl a) = ac_peer_roles a"
    using r(2) by (simp_all add: rcore_def fixed_part_def)
  ultimately show ?thesis
    using assms by (auto simp: proven_def grant_in_rcore r(2) intro: presented_more)
qed

lemma proven_identity:
  assumes "proven k evs a"
  shows "proven k (evs @ [(env, EvMsg i (Identity g))]) (on_peer_identity env i g a)"
proof -
  have "presented k (evs @ [(env, EvMsg i (Identity g))]) i (g_role (sg_grant g))"
    if "dv_decode_hex32 env k = Some pub" "dv_verify env g pub" "\<not> is_expired (sg_grant g) (dv_now_ms env)" for pub
    using that unfolding presented_def by force
  then show ?thesis using assms
    by (auto simp: proven_def on_peer_identity_def admin_public_bytes_def split: option.splits intro: presented_more)
qed

lemma proven_dispatch:
  assumes "proven k evs a"
  shows "proven k (evs @ [(env, ev)]) (dispatch env ev a)"
proof (cases "role_event ev")
  case False
  then show ?thesis using assms proven_shrink dispatch_shrinks by blast
next
  case True
  have same: "proven k (evs @ es) b" if "rcore b = rcore a" for b es
    using assms that proven_shrink roles_shrink_same by blast
  have see: "proven k (evs @ []) (see_lamport l a)" for l by (rule same) simp
  from True show ?thesis
    using proven_lock_req [OF see] proven_identity [OF assms]
    by (cases ev rule: role_event.cases)
      (auto simp: on_ctl_def with_path_def same split: sum.splits)
qed

lemma proven_run: "proven k pre a \<Longrightarrow> proven k (pre @ evs) (run evs a)"
proof (induction evs a arbitrary: pre rule: run.induct)
  case (2 env ev evs a)
  have step: "proven k (pre @ [(env, ev)]) (dispatch env ev a)" using "2.prems" by (rule proven_dispatch)
  show ?case
  proof (cases "is_shutdown ev")
    case True
    then show ?thesis using proven_shrink [OF step rs.refl, of evs] by simp
  next
    case False
    then show ?thesis using "2.IH" [OF False step] by simp
  qed
qed simp

text \<open>
  C4. Role enforcement: in a session with an admin key, from the start of the daemon and whatever happens (any peers, messages, clock values and task results),
  every lease grant the daemon ever sends goes to a peer that presented, earlier in the run, an editor
  grant which the admin's key verified and which had not expired when it arrived.
\<close>

theorem grants_need_signed_editor:
  assumes "as_admin_public_key (ac_state a) = Some k" and "ac_peer_roles a = []" and "ac_out a = []"
    and "Send i (LockGrant p) \<in> set (ac_out (daemon_run env0 on_disk evs a))"
  shows "\<exists>env g pub. (env, EvMsg i (Identity g)) \<in> set evs \<and> dv_decode_hex32 env k = Some pub
     \<and> dv_verify env g pub \<and> \<not> is_expired (sg_grant g) (dv_now_ms env) \<and> g_role (sg_grant g) = ROLE_EDITOR"
proof -
  have "proven k [] a" using assms(1-3) by (simp add: proven_def)
  then have "proven k ([] @ []) (startup_scan env0 on_disk (dial_known_members env0 a))"
    by (rule proven_shrink) (rule roles_shrink_same, simp)
  then have "proven k ([] @ evs) (daemon_run env0 on_disk evs a)" unfolding daemon_run_def by (intro proven_run) simp
  then have "presented k evs i ROLE_EDITOR" using assms(4) unfolding proven_def by auto
  then show ?thesis unfolding presented_def .
qed

definition demo_admin :: actor where
  "demo_admin = (demo_actor ''a'')\<lparr>ac_state := (new_state [] [])\<lparr>as_admin_public_key := Some ''k''\<rparr>,
     ac_peers := [(''b'', \<lparr>ph_conn_id = 0, ph_initiated_by_me = True\<rparr>)]\<rparr>"

definition demo_grant :: signed_grant where
  "demo_grant = \<lparr>sg_grant = \<lparr>g_role = ROLE_EDITOR, g_invite_id = [], g_issued_ms = 0, g_expiry_ms = 0\<rparr>, sg_sig = []\<rparr>"

theorem grants_need_signed_editor_witness:
  "\<exists>env g pub. (env, EvMsg ''b'' (Identity g)) \<in> set [(demo_env, EvMsg ''b'' (Identity demo_grant)), (demo_env, EvMsg ''b'' (LockReq ''x'' 1 0))]
     \<and> dv_decode_hex32 env ''k'' = Some pub
     \<and> dv_verify env g pub \<and> \<not> is_expired (sg_grant g) (dv_now_ms env) \<and> g_role (sg_grant g) = ROLE_EDITOR"
proof -
  have x: "sanitize_rel_path ''x'' = Inr ''x''" by code_simp
  have 1: "dispatch demo_env (EvMsg ''b'' (Identity demo_grant)) demo_admin = demo_admin\<lparr>ac_peer_roles := [(''b'', ROLE_EDITOR)]\<rparr>"
    by (simp add: on_ctl_def on_peer_identity_def admin_public_bytes_def demo_admin_def demo_actor_def demo_env_def demo_grant_def
        is_expired_def bt_contains_def bt_get_def)
  have 2: "fst (on_remote_request ''x'' ''b'' 1 0 now (new_table ''a'' default_timings)) = Grant" for now
    by (simp add: on_remote_request_def prune_expired_def new_table_def state_of_def at_capacity_for_new_def MAX_TRACKED_LEASES_def Let_def)
  have "Send ''b'' (LockGrant ''x'') \<in> set (ac_out (dispatch demo_env (EvMsg ''b'' (LockReq ''x'' 1 0)) (demo_admin\<lparr>ac_peer_roles := [(''b'', ROLE_EDITOR)]\<rparr>)))"
    by (simp add: on_ctl_def demo_admin_def demo_actor_def see_lamport_def with_path_def x on_lock_req_def peer_may_lock_def
        is_some_and_def role_can_edit_def bt_contains_def bt_get_def 2 case_prod_beta send_to_def emit_def Let_def)
  moreover have "startup_scan demo_env [] (dial_known_members demo_env demo_admin) = demo_admin"
    by (simp add: startup_scan_def dial_known_members_def genesis_def demo_admin_def demo_actor_def new_state_def List.map_filter_def)
  ultimately show ?thesis
    by (intro grants_need_signed_editor [of demo_admin "''k''" "''b''" "''x''" demo_env "[]"])
      (simp_all only: daemon_run_def run.simps is_shutdown.simps if_False 1, simp_all add: demo_admin_def demo_actor_def)
qed

end
