(* ===== verification/IndexExchange.thy ===== *)
theory IndexExchange
  imports ActorInv IndexParts
begin

text \<open>
  The index exchange end to end: the frames one daemon builds on connect (\<^verbatim>\<open>build_index_parts\<close>, through
  \<^verbatim>\<open>split_index_parts\<close>) fed to the control loop of the other (\<^verbatim>\<open>on_ctl\<close>), which stages them and commits the whole.
\<close>

section \<open>Reassembling a sorted index\<close>

definition sane_entry :: "relpath \<times> file_record \<Rightarrow> bool" where
  "sane_entry e \<longleftrightarrow> sanitize_rel_path (fst e) = Ok (fst e) \<and> record_acceptable (snd e)"

lemma bt_insert_snoc: "(\<forall>e \<in> set m. fst e < k) \<Longrightarrow> bt_insert k v m = m @ [(k, v)]"
  by (induction k v m rule: bt_insert.induct) auto

lemma take_records:
  assumes "bt_wf (pre @ es)" and "\<forall>e \<in> set es. sane_entry e"
  shows "fold take_record es pre = pre @ es"
  using assms
proof (induction es arbitrary: pre)
  case (Cons e es)
  obtain k v where e: "e = (k, v)" by fastforce
  have "take_record e pre = pre @ [e]"
    using Cons.prems bt_insert_snoc [of pre k v]
    by (auto simp: e take_record_def sane_entry_def bt_wf_def sorted_wrt_append)
  then show ?case using Cons.IH [of "pre @ [e]"] Cons.prems by simp
qed simp

section \<open>Receiving the parts\<close>

lemma part_seq_ok:
  assumes "n < 4096"
  shows "\<not> (of_nat n :: u32) \<ge> MAX_INDEX_PARTS"
proof -
  have "unat (of_nat n :: u32) = n" using assms by (simp add: unat_of_nat)
  then show ?thesis using assms by (simp add: MAX_INDEX_PARTS_def word_le_nat_alt)
qed

lemma reconcile_links [simp]:
  "ac_peer_index (reconcile env src a) = ac_peer_index a" "ac_index_received (reconcile env src a) = ac_index_received a"
  "ac_index_staging (reconcile env src a) = ac_index_staging a" "ac_peers (reconcile env src a) = ac_peers a"
  using frame_reconcile [of a env src] by (simp_all add: frame_def same_links_def)

lemma see_lamport_links [simp]:
  "ac_peer_index (see_lamport l a) = ac_peer_index a" "ac_index_received (see_lamport l a) = ac_index_received a"
  "ac_index_staging (see_lamport l a) = ac_index_staging a" "ac_peers (see_lamport l a) = ac_peers a"
  by (simp_all add: see_lamport_def)

definition staged_at :: "node_id \<Rightarrow> nat \<Rightarrow> (relpath, file_record) btree \<Rightarrow> actor \<Rightarrow> bool" where
  "staged_at i n pre a \<longleftrightarrow> unwrap_or (0, []) (bt_get (ac_index_staging a) i) = (of_nat n, pre) \<and> bt_contains (ac_peers a) i"

lemma recv_part:
  assumes "staged_at i n pre a" and "is_part n final lam m" and "n < 4096"
    and "bt_wf (pre @ msg_files m)" and "\<forall>e \<in> set (msg_files m). sane_entry e"
    and "length pre + length (msg_files m) \<le> MAX_INDEX_ENTRIES"
  shows "\<not> final \<Longrightarrow> staged_at i (Suc n) (pre @ msg_files m) (on_ctl env i m a)
      \<and> ac_index_received (on_ctl env i m a) = ac_index_received a \<and> ac_peer_index (on_ctl env i m a) = ac_peer_index a"
    and "final \<Longrightarrow> bt_get (ac_peer_index (on_ctl env i m a)) i = Some (pre @ msg_files m)
      \<and> i \<in> ac_index_received (on_ctl env i m a) \<and> bt_get (ac_index_staging (on_ctl env i m a)) i = None"
proof -
  obtain files ls where m: "m = IndexPart (of_nat n) final lam files ls"
    using assms(2) by (cases m) auto
  have st: "unwrap_or (0, []) (bt_get (ac_index_staging a) i) = (of_nat n, pre)" and p: "bt_contains (ac_peers a) i"
    using assms(1) by (simp_all add: staged_at_def)
  have ix: "fold take_record files pre = pre @ files" using take_records assms(4,5) by (simp add: m)
  have ok: "\<not> (of_nat n :: u32) \<ge> MAX_INDEX_PARTS" by (rule part_seq_ok [OF assms(3)])
  note step = on_ctl_def p m on_index_part_def st ix commit_peer_index_def
  have len: "\<not> length pre + length files > MAX_INDEX_ENTRIES" using assms(6) by (simp add: m)
  show "\<not> final \<Longrightarrow> staged_at i (Suc n) (pre @ msg_files m) (on_ctl env i m a)
      \<and> ac_index_received (on_ctl env i m a) = ac_index_received a \<and> ac_peer_index (on_ctl env i m a) = ac_peer_index a"
    using ok len p by (simp add: step staged_at_def add.commute)
  show "final \<Longrightarrow> bt_get (ac_peer_index (on_ctl env i m a)) i = Some (pre @ msg_files m)
      \<and> i \<in> ac_index_received (on_ctl env i m a) \<and> bt_get (ac_index_staging (on_ctl env i m a)) i = None"
    using ok len by (simp add: step)
qed

definition parts_from :: "nat \<Rightarrow> u64 \<Rightarrow> msg list \<Rightarrow> bool" where
  "parts_from n lam ms \<longleftrightarrow> (\<forall>k < length ms. is_part (n + k) (Suc k = length ms) lam (ms ! k))"

lemma parts_from_Cons:
  "parts_from n lam (m # ms) \<longleftrightarrow> is_part n (ms = []) lam m \<and> parts_from (Suc n) lam ms"
  unfolding parts_from_def
  by (auto simp: less_Suc_eq_0_disj nth_Cons' split: nat.splits)

lemma recv_parts:
  assumes "staged_at i n pre a" and "parts_from n lam ms" and "ms \<noteq> []" and "n + length ms \<le> 4096"
    and "bt_wf (pre @ concat (map msg_files ms))" and "\<forall>e \<in> set (concat (map msg_files ms)). sane_entry e"
    and "length (pre @ concat (map msg_files ms)) \<le> MAX_INDEX_ENTRIES"
  shows "bt_get (ac_peer_index (fold (on_ctl env i) ms a)) i = Some (pre @ concat (map msg_files ms))
    \<and> i \<in> ac_index_received (fold (on_ctl env i) ms a)
    \<and> (\<forall>k < length ms. ac_index_received (fold (on_ctl env i) (take k ms) a) = ac_index_received a)"
  using assms
proof (induction ms arbitrary: a n pre)
  case (Cons m ms)
  have part: "is_part n (ms = []) lam m" and rest: "parts_from (Suc n) lam ms"
    using Cons.prems(2) by (simp_all add: parts_from_Cons)
  have wf: "bt_wf (pre @ msg_files m)" using Cons.prems(5) by (auto simp: bt_wf_def sorted_wrt_append)
  note one = recv_part [OF Cons.prems(1) part _ wf, of env]
  show ?case
  proof (cases "ms = []")
    case True
    then show ?thesis using one(2) Cons.prems by simp
  next
    case False
    then have "staged_at i (Suc n) (pre @ msg_files m) (on_ctl env i m a)
        \<and> ac_index_received (on_ctl env i m a) = ac_index_received a"
      using one(1) Cons.prems by simp
    with Cons.IH [of "Suc n" "pre @ msg_files m" "on_ctl env i m a"] Cons.prems rest False show ?thesis
      by (auto simp: less_Suc_eq_0_disj)
  qed
qed simp

section \<open>Properties\<close>

text \<open>
  C6. The index exchange works end to end: when a connected peer's frames arrive in order and its index fits the
  documented limits, the receiver ends with exactly the sender's index on record for that peer and the peer counts as synced,
  and at no earlier frame is it counted as synced, so no edit is admitted on a partial view.
\<close>

theorem index_exchange_complete:
  assumes "bt_contains (ac_peers a) i" and "bt_get (ac_index_staging a) i = None"
    and "bt_wf (files_of s)" and "\<forall>e \<in> set (files_of s). sane_entry e \<and> fits (dv_ser_entry senv) e"
    and "length (files_of s) \<le> MAX_INDEX_ENTRIES" and "length (build_index_parts senv s) \<le> 4096"
  shows "bt_get (ac_peer_index (fold (on_ctl env i) (build_index_parts senv s) a)) i = Some (files_of s)
    \<and> i \<in> ac_index_received (fold (on_ctl env i) (build_index_parts senv s) a)
    \<and> (\<forall>k < length (build_index_parts senv s).
         ac_index_received (fold (on_ctl env i) (take k (build_index_parts senv s)) a) = ac_index_received a)"
proof -
  define ls where "ls = map lease_info_of (held_leases (ac_locks s) (dv_now senv))"
  define lam where "lam = as_lamport (ac_state s)"
  have ps: "build_index_parts senv s = split_index_parts (dv_ser senv) (dv_ser_entry senv) lam (files_of s) ls"
    by (simp add: build_index_parts_def ls_def lam_def)
  have all: "filter (fits (dv_ser_entry senv)) (files_of s) = files_of s" using assms(4) by (simp add: filter_id_conv)
  show ?thesis
  proof (cases "build_index_parts senv s = [Index lam (files_of s) ls]")
    case True
    moreover have "fold take_record (files_of s) [] = files_of s" using take_records [of "[]" "files_of s"] assms(3,4) by simp
    ultimately show ?thesis using assms(1) by (simp add: on_ctl_def commit_peer_index_def Let_def)
  next
    case False
    let ?ps = "index_parts_of (dv_ser senv) lam ls (batch_entries (dv_ser_entry senv) (files_of s) [] 256 [])"
    have split: "build_index_parts senv s = ?ps" using False by (auto simp: ps split_index_parts_cases)
    have files: "concat (map msg_files ?ps) = files_of s" using all by (simp add: index_parts_of_files batch_entries_concat)
    have "parts_from 0 lam ?ps" using index_parts_of_numbered by (simp add: parts_from_def)
    moreover have "?ps \<noteq> []" by (simp add: index_parts_of_def Let_def)
    moreover have "staged_at i 0 [] a" using assms(1,2) by (simp add: staged_at_def)
    ultimately show ?thesis
      using recv_parts [of i 0 "[]" a lam ?ps env] assms(3,4,5,6) by (simp add: split files)
  qed
qed

definition linked :: "node_id \<Rightarrow> actor \<Rightarrow> actor" where
  "linked i a = a\<lparr>ac_peers := [(i, \<lparr>ph_conn_id = 1, ph_initiated_by_me = True\<rparr>)]\<rparr>"

lemma linked_simps [simp]:
  "bt_contains (ac_peers (linked i a)) i" "ac_index_staging (linked i a) = ac_index_staging a"
  by (simp_all add: linked_def bt_contains_def bt_get_def)

lemma sane_x: "sane_entry (''x'', demo_record [])"
  by (simp add: sane_entry_def demo_record_def sanitize_rel_path_def record_acceptable_def MAX_VV_ENTRIES_def
      MAX_PATH_LEN_def META_DIR_def eq_ignore_ascii_case_def starts_with_def)

theorem index_exchange_complete_witness:
  "bt_get (ac_peer_index (fold (on_ctl demo_env ''b'') (build_index_parts demo_env
      (demo_files [(''x'', demo_record [])] (demo_actor ''b''))) (linked ''b'' (demo_actor ''a'')))) ''b''
     = Some [(''x'', demo_record [])]"
proof -
  let ?s = "demo_files [(''x'', demo_record [])] (demo_actor ''b'')"
  have "length (build_index_parts demo_env ?s) \<le> 4096"
    by (simp add: build_index_parts_def split_index_parts_def encoded_len_def demo_env_def)
  moreover have "fits (dv_ser_entry demo_env) (''x'', demo_record [])"
    by (simp add: fits_def entry_len_def demo_env_def MAX_FRAME_def)
  moreover have "bt_get (ac_index_staging (demo_actor ''a'')) ''b'' = None" by (simp add: demo_actor_def)
  ultimately show ?thesis
    using index_exchange_complete [of "linked ''b'' (demo_actor ''a'')" "''b''" ?s demo_env demo_env] sane_x
    by (simp add: MAX_INDEX_ENTRIES_def bt_wf_def)
qed

end
