(* ===== verification/Golden.thy ===== *)
theory Golden
  imports Daemon ConflictProps
begin

text \<open>
  The golden invariant of the daemon, as far as remote events can threaten it: bytes that a user wrote to a working file are
  never destroyed by what a peer sends.  A writable file keeps its bytes on disk or its bytes become a conflict copy.
  Most handlers leave the folder alone (the rules \<open>folder_*\<close>); the ones that apply a version are followed step by step
  through the relation \<open>R\<close> of the interpretation \<open>kp\<close>.
\<close>

section \<open>Handlers that leave the folder alone\<close>

lemma folder_upd [simp]:
  "ac_folder (emit e a) = ac_folder a" "ac_folder (broadcast_all m a) = ac_folder a" "ac_folder (send_to i m a) = ac_folder a"
  "ac_folder (persist a) = ac_folder a" "ac_folder (tick_lamport a) = ac_folder a" "ac_folder (see_lamport l a) = ac_folder a"
  "ac_folder (mute env rel a) = ac_folder a" "ac_folder (put_record rel r a) = ac_folder a"
  "ac_folder (with_folder g a) = g (ac_folder a)"
  by (simp_all add: emit_def broadcast_all_def send_to_def persist_def Let_def tick_lamport_def see_lamport_def mute_def
      put_record_def with_folder_def)

lemma folder_fold: "(\<And>x b. ac_folder (f x b) = ac_folder b) \<Longrightarrow> ac_folder (fold f xs a) = ac_folder a"
  by (induction xs arbitrary: a) auto

lemma folder_pulling [simp]:
  "ac_folder (start_pull rel src r a) = ac_folder a" "ac_folder (admit_pull rel src r a) = ac_folder a"
  "ac_folder (enqueue_pull_backlog rel src r a) = ac_folder a" "ac_folder (queue_pull rel src r a) = ac_folder a"
  "ac_folder (hold_record rel r reason a) = ac_folder a" "ac_folder (drop_unapplied rel a) = ac_folder a"
  "ac_folder (maybe_clear_unapplied rel r a) = ac_folder a" "ac_folder (push_prev rel a) = ac_folder a"
  by (auto simp: start_pull_def admit_pull_def enqueue_pull_backlog_def queue_pull_def hold_record_def drop_unapplied_def
      maybe_clear_unapplied_def push_prev_def Let_def split: option.splits)

lemma folder_drain [simp]: "ac_folder (drain_pull_backlog a) = ac_folder a"
  by (rule drain_keeps [where P = "\<lambda>b. ac_folder b = ac_folder a"]) simp_all

lemma folder_finish [simp]: "ac_folder (finish_pull rel a) = ac_folder a"
  by (auto simp: finish_pull_def Let_def split: option.splits)

lemma folder_links [simp]:
  "ac_folder (dial env i a) = ac_folder a" "ac_folder (schedule_redial env i a) = ac_folder a"
  "ac_folder (forget_acquire rel a) = ac_folder a" "ac_folder (reply_acquire rel resp a) = ac_folder a"
  "ac_folder (abort_acquire rel a) = ac_folder a" "ac_folder (settle_member env i a) = ac_folder a"
  "ac_folder (on_interest i rel a) = ac_folder a" "ac_folder (on_peer_identity env i g a) = ac_folder a"
  by (auto simp: dial_def schedule_redial_def forget_acquire_def reply_acquire_def abort_acquire_def settle_member_def
      on_interest_def on_peer_identity_def Let_def split: option.splits)

lemma folder_gone [simp]: "ac_folder (on_peer_gone env i c a) = ac_folder a"
  by (auto simp: on_peer_gone_def redial_lost_def Let_def case_prod_beta folder_fold)

lemma folder_peers [simp]:
  "ac_folder (expel env i a) = ac_folder a" "ac_folder (on_authed env i c by_me a) = ac_folder a"
  by (auto simp: expel_def on_authed_def accept_peer_def Let_def split: option.splits)

section \<open>One path followed through a handler\<close>

lemma copy_name_inj:
  assumes "copy_name h now p = copy_name h now q" and "h p = h q \<Longrightarrow> p = q"
  shows "p = q"
proof -
  have n: "quarantine_name h p = quarantine_name h q" using assms(1) by (simp add: copy_name_def)
  have len: "length (percent_encode r) \<le> MAX_ENCODED \<longleftrightarrow> length (quarantine_name h r) \<le> MAX_ENCODED" for r
    by (simp add: quarantine_name_def Let_def not_le)
  show ?thesis
  proof (cases "length (percent_encode p) \<le> MAX_ENCODED")
    case True
    moreover from True have "length (percent_encode q) \<le> MAX_ENCODED" using n len [of p] len [of q] by simp
    ultimately have "percent_encode p = percent_encode q" using n by (simp add: quarantine_name_def Let_def)
    then show ?thesis by (metis decode_percent_encode option.inject)
  next
    case False
    moreover from False have "\<not> length (percent_encode q) \<le> MAX_ENCODED" using n len [of p] len [of q] by simp
    ultimately have "h p = h q" using n by (simp add: quarantine_name_def Let_def)
    then show ?thesis by (rule assms(2))
  qed
qed

definition copied :: "daemon_env \<Rightarrow> relpath \<Rightarrow> bytes \<Rightarrow> actor \<Rightarrow> bool" where
  "copied env q bs a \<longleftrightarrow>
     map_option cd_bytes (bt_get (fo_copies (ac_folder a)) (copy_name (dv_hash_hex env) (dv_now_ms env) q)) = Some bs"

definition kept :: "daemon_env \<Rightarrow> relpath \<Rightarrow> bytes \<Rightarrow> actor \<Rightarrow> bool" where
  "kept env q bs a \<longleftrightarrow>
     disk_file a q = Some \<lparr>fd_bytes = bs, fd_readonly = False\<rparr> \<or> disk_file a q = None \<and> copied env q bs a"

definition unambiguous :: "daemon_env \<Rightarrow> relpath \<Rightarrow> bool" where
  "unambiguous env q \<longleftrightarrow> dv_copy_ok env q \<and> (\<forall>p. dv_hash_hex env p = dv_hash_hex env q \<longrightarrow> p = q)"

interpretation kp: step_rel "\<lambda>a a'. kept env q bs a \<longrightarrow> kept env q bs a'" for env q bs
  by unfold_locales auto

lemma kept_folder: "ac_folder a' = ac_folder a \<Longrightarrow> kept env q bs a' = kept env q bs a"
  by (simp add: kept_def copied_def disk_file_def)

lemma kept_writable: "kept env q bs a \<Longrightarrow> kept env q bs (with_folder (set_writable rel) a)"
  by (auto simp: kept_def copied_def disk_file_def set_writable_def apply_mode_def split: option.splits)

lemma try_quarantine_files [simp]:
  "fo_files (ac_folder (snd (try_quarantine env rel reason a))) = fo_files (ac_folder a)"
  by (auto simp: try_quarantine_def quarantine_def append_index_def Let_def split: option.splits)

lemma copied_quarantine:
  assumes "unambiguous env q" and "copied env q bs a"
    and "rel = q \<Longrightarrow> map_option fd_bytes (disk_file a q) \<in> {None, Some bs}"
  shows "copied env q bs (snd (try_quarantine env rel reason a))"
proof (cases "rel = q")
  case True
  then show ?thesis using assms(2,3)
    by (auto simp: copied_def try_quarantine_def quarantine_def append_index_def disk_file_def Let_def split: option.splits)
next
  case False
  then have "copy_name (dv_hash_hex env) (dv_now_ms env) q \<noteq> copy_name (dv_hash_hex env) (dv_now_ms env) rel"
    using assms(1) copy_name_inj unfolding unambiguous_def by metis
  then show ?thesis using assms(2)
    by (auto simp: copied_def try_quarantine_def quarantine_def append_index_def Let_def split: option.splits)
qed

lemma quarantine_copies:
  assumes "unambiguous env q" and "disk_file a q = Some f"
  shows "copied env q (fd_bytes f) (snd (try_quarantine env q reason a))"
  using assms by (auto simp: copied_def try_quarantine_def quarantine_def append_index_def disk_file_def unambiguous_def Let_def)

lemma kept_quarantine:
  assumes "unambiguous env q" and "kept env q bs a"
  shows "kept env q bs (snd (try_quarantine env rel reason a))"
  using assms copied_quarantine [OF assms(1), of bs a rel reason]
  by (auto simp: kept_def) (auto simp: disk_file_def)

section \<open>Applying a version\<close>

lemma kept_preserve:
  assumes "unambiguous env q" and "kept env q bs a"
  shows "kept env q bs (preserve_edit env rel a)"
    and "rel = q \<Longrightarrow> copied env q bs (preserve_edit env rel a)"
  using kept_quarantine [OF assms, of rel "''edit-vs-remote''"] assms(2)
    quarantine_copies [OF assms(1), of a "\<lparr>fd_bytes = bs, fd_readonly = False\<rparr>" "''edit-vs-remote''"]
  by (auto simp: preserve_edit_def is_some_and_def) (auto simp: kept_def)

lemma kept_remove:
  assumes "kept env q bs a" and "rel = q \<Longrightarrow> copied env q bs a"
  shows "kept env q bs (snd (remove_disk env rel (with_folder (set_writable rel) a)))"
  using assms kept_writable [OF assms(1), of rel]
  by (auto simp: remove_disk_def kept_def copied_def disk_file_def set_writable_def apply_mode_def split: option.splits)

lemma folder_commit: "rel \<noteq> IGNORE_FILE \<Longrightarrow> ac_folder (commit_applied rebuild rel src r a) = ac_folder a"
  by (simp add: commit_applied_def Let_def)

lemma kept_commit:
  assumes "\<And>b. kept env q bs b \<Longrightarrow> kept env q bs (rebuild b)" and "kept env q bs a"
  shows "kept env q bs (commit_applied rebuild rel src r a)"
proof -
  have "kept env q bs (emit e (persist (b\<lparr>ac_state := st\<rparr>)))" if "ac_folder b = ac_folder a" for b e st
    using assms(2) that kept_folder [of "emit e (persist (b\<lparr>ac_state := st\<rparr>))" a] by simp
  then show ?thesis using assms(1) by (simp add: commit_applied_def Let_def)
qed

lemma kept_finish: "kept env q bs (finish_pull rel a) = kept env q bs a"
  by (rule kept_folder) simp

lemma kept_tombstone:
  assumes "\<And>b. kept env q bs b \<Longrightarrow> kept env q bs (rebuild b)" and "unambiguous env q" and "kept env q bs a" and "fr_deleted r"
  shows "kept env q bs (apply_newer rebuild env rel src r st a)"
proof -
  define a1 where "a1 = push_prev rel (mute env rel (preserve_edit env rel a))"
  have same: "ac_folder a1 = ac_folder (preserve_edit env rel a)" by (simp add: a1_def)
  have "kept env q bs a1" using kept_folder [OF same] kept_preserve(1) [OF assms(2,3)] by simp
  moreover have "rel = q \<Longrightarrow> copied env q bs a1" using same kept_preserve(2) [OF assms(2,3)] by (simp add: copied_def)
  ultimately have "kept env q bs (snd (apply_on_disk env rel r st a1))"
    using kept_remove assms(4) by (simp add: apply_on_disk_def)
  then show ?thesis
    unfolding apply_newer_def Let_def case_prod_beta kept_finish a1_def by (simp add: kept_commit [where rebuild = rebuild, OF assms(1)])
qed

definition saved :: "daemon_env \<Rightarrow> relpath \<Rightarrow> bytes \<Rightarrow> actor \<Rightarrow> bool" where
  "saved env q bs a \<longleftrightarrow> map_option fd_bytes (disk_file a q) = Some bs \<or> copied env q bs a"

lemma kept_saved: "kept env q bs a \<Longrightarrow> saved env q bs a"
  by (auto simp: kept_def saved_def)

lemma install_elsewhere:
  "(rel \<noteq> q \<longrightarrow> disk_file (snd (install_settled env rel b a)) q = disk_file a q)
   \<and> fo_copies (ac_folder (snd (install_settled env rel b a))) = fo_copies (ac_folder a)"
  by (auto simp: install_settled_def install_disk_def replace_disk_def disk_file_def set_writable_def set_readonly_def
      apply_mode_def split: option.splits)

lemma saved_staged:
  assumes "unambiguous env q" and "kept env q bs a" and "rel \<noteq> IGNORE_FILE" and "\<not> fr_deleted r"
  shows "saved env q bs (apply_newer rebuild env rel src r st a)"
proof -
  define a1 where "a1 = push_prev rel (mute env rel (preserve_edit env rel a))"
  define a2 where "a2 = snd (apply_on_disk env rel r st a1)"
  have same: "ac_folder a1 = ac_folder (preserve_edit env rel a)" by (simp add: a1_def)
  have k: "kept env q bs a1" using kept_folder [OF same] kept_preserve(1) [OF assms(1,2)] by simp
  have c: "rel = q \<Longrightarrow> copied env q bs a1" using same kept_preserve(2) [OF assms(1,2)] by (simp add: copied_def)
  have "saved env q bs a2"
  proof (cases st)
    case None
    then show ?thesis using k assms(4) kept_saved by (simp add: a2_def apply_on_disk_def)
  next
    case (Some s)
    then have "a2 = snd (install_settled env rel (st_bytes s) a1)" using assms(4) by (simp add: a2_def apply_on_disk_def)
    then show ?thesis using k c install_elsewhere [of rel q env "st_bytes s" a1]
      by (cases "rel = q") (auto simp: saved_def kept_def copied_def)
  qed
  moreover have "ac_folder (apply_newer rebuild env rel src r st a) = ac_folder a2"
    using assms(3) by (simp add: apply_newer_def Let_def case_prod_beta folder_commit a2_def a1_def)
  ultimately show ?thesis by (simp add: saved_def copied_def disk_file_def)
qed

section \<open>Deciding and re-reading\<close>

lemma kept_maybe_pull:
  assumes "\<And>b. kept env q bs b \<Longrightarrow> kept env q bs (rebuild b)" and "unambiguous env q" and "kept env q bs a"
  shows "kept env q bs (maybe_pull_with rebuild env rel src r a)"
proof -
  have same: "kept env q bs (f a)" if "ac_folder (f a) = ac_folder a" for f
    using kept_folder [OF that] assms(3) by simp
  have "kept env q bs (apply_remote_with rebuild env rel src r None (drop_unapplied rel a))" if "fr_deleted r"
    using kept_tombstone [where rebuild = rebuild, OF assms(1,2) same [of "drop_unapplied rel"] that] same [of "drop_unapplied rel"]
    by (auto simp: apply_remote_with_def kept_finish kept_folder [of "drop_unapplied rel a\<lparr>ac_deferred := x\<rparr>" "drop_unapplied rel a" for x])
  then show ?thesis
    using same [of "hold_record rel r reason" for reason] same [of "queue_pull rel src r"]
      same [of "\<lambda>b. queue_pull rel src r (b\<lparr>ac_warned := w\<rparr>)" for w] assms(3)
    by (auto simp: maybe_pull_with_def Let_def split: option.splits)
qed

lemma kept_concurrent:
  assumes "\<And>b. kept env q bs b \<Longrightarrow> kept env q bs (rebuild b)" and "unambiguous env q" and "kept env q bs a"
  shows "kept env q bs (on_concurrent_with rebuild env rel src r a)"
proof -
  have "kept env q bs (preserve_loser env rel a)"
    using kept_quarantine [OF assms(2,3), of rel "''concurrent-versions''"] assms(3) kept_folder [OF folder_upd(1)]
    by (auto simp: preserve_loser_def split: prod.splits option.splits)
  then have "kept env q bs (maybe_pull_with rebuild env rel src r (preserve_loser env rel a))"
    using kept_maybe_pull [where rebuild = rebuild, OF assms(1,2)] by simp
  moreover have "kept env q bs (broadcast_all m (persist (tick_lamport (put_record rel r' a))))" for m r'
    using assms(3) kept_folder [of "broadcast_all m (persist (tick_lamport (put_record rel r' a)))" a] by simp
  ultimately show ?thesis using assms(3) by (auto simp: on_concurrent_with_def Let_def split: option.splits)
qed

lemma kept_reconcile_one:
  assumes "\<And>b. kept env q bs b \<Longrightarrow> kept env q bs (rebuild b)" and "unambiguous env q" and "kept env q bs a"
  shows "kept env q bs (reconcile_one_with rebuild env src rel r a)"
proof -
  have "kept env q bs (maybe_clear_unapplied rel r a)" using kept_folder [OF folder_pulling(7)] assms(3) by simp
  then show ?thesis
    using kept_maybe_pull [where rebuild = rebuild, OF assms(1,2)] kept_concurrent [where rebuild = rebuild, OF assms(1,2)]
    by (auto simp: reconcile_one_with_def Let_def split: option.splits causality.splits)
qed

lemma kept_rebuild:
  assumes "\<And>b. kept env q bs b \<Longrightarrow> kept env q bs (rebuild b)" and "unambiguous env q" and "kept env q bs a"
  shows "kept env q bs (rebuild_with rebuild env a)"
proof -
  have "kept env q bs b \<longrightarrow> kept env q bs (release_one rebuild env rel b)" for rel b
    using kept_reconcile_one [where rebuild = rebuild, OF assms(1,2)] kept_folder [of "b\<lparr>ac_state := st\<rparr>" b for st]
    by (auto simp: release_one_def Let_def split: option.splits)
  then have "kept env q bs b \<Longrightarrow> kept env q bs (fold (release_one rebuild env) rels b)" for rels b
    using kp.fold [of rels env q bs "release_one rebuild env" b] by simp
  moreover have "kept env q bs (a\<lparr>ac_ignore := ig, ac_held_local := h\<rparr>)" for ig h
    using kept_folder [of "a\<lparr>ac_ignore := ig, ac_held_local := h\<rparr>" a] assms(3) by simp
  ultimately show ?thesis using kept_folder [OF folder_upd(4)] by (auto simp: rebuild_with_def Let_def)
qed

lemma kept_rebuild_ignore: "unambiguous env q \<Longrightarrow> kept env q bs a \<Longrightarrow> kept env q bs (rebuild_ignore env a)"
  unfolding rebuild_ignore_def by (intro kept_rebuild) auto

lemma kept_reconcile:
  assumes "unambiguous env q" and "kept env q bs a"
  shows "kept env q bs (reconcile env src a)"
proof (cases "bt_get (ac_peer_index a) src")
  case (Some remote)
  note rb = kept_rebuild_ignore [OF assms(1)]
  have fold: "kept env q bs (fold (\<lambda>rel b. case bt_get remote rel of None \<Rightarrow> b | Some r \<Rightarrow> f rel r b) rels b)"
    if "\<And>rel r b. kept env q bs b \<Longrightarrow> kept env q bs (f rel r b)" and "kept env q bs b" for f rels b
    using that by (induction rels arbitrary: b) (auto split: option.splits)
  show ?thesis
    unfolding reconcile_def maybe_pull_def on_concurrent_def Let_def
    using Some assms(2) kept_folder [OF folder_pulling(7)]
    by (auto intro!: fold kept_maybe_pull [where rebuild = "rebuild_ignore env", OF rb assms(1)]
        kept_concurrent [where rebuild = "rebuild_ignore env", OF rb assms(1)])
qed (use assms in \<open>simp add: reconcile_def\<close>)

section \<open>Remote events\<close>

text \<open>
  What happens because of peers: connections, control messages, gossip, and the end of a pull.  The pull of the ignore file
  is left out: applying it re-reads the rules, which can apply further held records in the same step.
\<close>

fun remote_event :: "event \<Rightarrow> bool" where
  "remote_event (EvAuthed _ _ _) \<longleftrightarrow> True"
| "remote_event (EvMsg _ _) \<longleftrightarrow> True"
| "remote_event (EvGone _ _) \<longleftrightarrow> True"
| "remote_event (EvDialFailed _) \<longleftrightarrow> True"
| "remote_event (EvRetryDial _) \<longleftrightarrow> True"
| "remote_event (EvMember _) \<longleftrightarrow> True"
| "remote_event (EvPullStaged rel _ _ _) \<longleftrightarrow> rel \<noteq> IGNORE_FILE"
| "remote_event (EvPullRetry _) \<longleftrightarrow> True"
| "remote_event _ \<longleftrightarrow> False"

lemma folder_remote [simp]:
  "ac_folder (on_member env m a) = ac_folder a" "ac_folder (on_dial_failed env i a) = ac_folder a"
  "ac_folder (on_retry_dial env i a) = ac_folder a" "ac_folder (on_pull_retry rel a) = ac_folder a"
  by (cases m; auto simp: on_dial_failed_def on_retry_dial_def on_pull_retry_def Let_def split: option.splits)+

lemma folder_locks:
  assumes "ac_autolock_pending a = []"
  shows "ac_folder (on_lock_req env i rel lamport ttl a) = ac_folder a" "ac_folder (on_lock_deny env rel reason a) = ac_folder a"
  using assms
  by (auto simp: on_lock_req_def on_lock_deny_def Let_def broadcast_all_def split: prod.splits decision.splits option.splits bool.splits)

lemma kept_upd [simp]:
  "kept env q bs (a\<lparr>ac_peer_index := x1\<rparr>) = kept env q bs a" "kept env q bs (a\<lparr>ac_index_received := x2\<rparr>) = kept env q bs a"
  "kept env q bs (a\<lparr>ac_locks := x3\<rparr>) = kept env q bs a" "kept env q bs (a\<lparr>ac_index_staging := x4\<rparr>) = kept env q bs a"
  "kept env q bs (a\<lparr>ac_interest := x5\<rparr>) = kept env q bs a" "kept env q bs (see_lamport l a) = kept env q bs a"
  "kept env q bs (expel env i a) = kept env q bs a" "kept env q bs (on_interest i rel a) = kept env q bs a"
  "kept env q bs (on_peer_gone env i c a) = kept env q bs a" "kept env q bs (on_peer_identity env i g a) = kept env q bs a"
  by (simp_all add: kept_def copied_def disk_file_def)

lemma kept_grant:
  assumes "ac_autolock_pending a = []" and "kept env q bs a"
  shows "kept env q bs (on_lock_grant env i rel a)"
proof -
  have "kept env q bs (with_folder (set_writable rel) a)" using assms(2) by (rule kept_writable)
  moreover have "ac_folder (on_lock_grant env i rel a) = ac_folder (with_folder (set_writable rel) a)
      \<or> ac_folder (on_lock_grant env i rel a) = ac_folder a"
    using assms(1) by (auto simp: on_lock_grant_def autolock_succeed_def Let_def with_folder_def bt_contains_def
        split: prod.splits option.splits acquired.splits)
  ultimately show ?thesis using assms(2) kept_folder by metis
qed

lemma kept_commit_index:
  "unambiguous env q \<Longrightarrow> kept env q bs a \<Longrightarrow> kept env q bs (commit_peer_index env i ix ls a)"
  unfolding commit_peer_index_def by (rule kept_reconcile) simp_all

lemma kept_index_part:
  "unambiguous env q \<Longrightarrow> kept env q bs a \<Longrightarrow> kept env q bs (on_index_part env i seq final files ls a)"
  by (auto simp: on_index_part_def Let_def case_prod_beta intro!: kept_commit_index)

lemma kept_file_meta:
  "unambiguous env q \<Longrightarrow> kept env q bs a \<Longrightarrow> kept env q bs (on_file_meta env i rel r a)"
  unfolding on_file_meta_def reconcile_one_def
  by (auto intro: kept_reconcile_one [where rebuild = "rebuild_ignore env"] kept_rebuild_ignore)

lemma kept_ctl:
  assumes "unambiguous env q" and "kept env q bs a" and "ac_autolock_pending a = []"
  shows "kept env q bs (on_ctl env i m a)"
proof -
  have see: "kept env q bs (see_lamport l a)" "ac_autolock_pending (see_lamport l a) = []" for l
    using assms by simp (simp add: assms(3) see_lamport_def)
  have lock: "kept env q bs (on_lock_req env i rel l ttl (see_lamport l' a))" "kept env q bs (on_lock_deny env rel reason a)"
    for rel l l' ttl reason
    using assms see folder_locks [OF see(2)] folder_locks [OF assms(3)] by (metis kept_folder)+
  have "kept env q bs (handle_msg env i m a)"
    using assms(2) lock kept_grant [OF assms(3,2)]
    by (cases m)
      (auto simp: with_path_def Let_def split: sum.splits option.splits
        intro!: kept_commit_index kept_index_part kept_file_meta assms(1))
  then show ?thesis using assms(2) by (simp add: on_ctl_def)
qed

lemma saved_pull:
  assumes "unambiguous env q" and "kept env q bs a" and "rel \<noteq> IGNORE_FILE"
  shows "saved env q bs (on_pull_staged env rel src r result a)"
proof (cases result)
  case None
  have "ac_folder (on_pull_staged env rel src r result a) = ac_folder a"
    by (auto simp: None on_pull_staged_def Let_def split: option.splits)
  then show ?thesis using assms(2) kept_folder kept_saved by metis
next
  case (Some s)
  have "kept env q bs (finish_pull rel a)" "kept env q bs (a\<lparr>ac_deferred := d\<rparr>)" for d
    using assms(2) by (simp_all add: kept_def copied_def disk_file_def)
  moreover have "saved env q bs (apply_newer (rebuild_ignore env) env rel src r (Some s) a)"
    using saved_staged [OF assms] kept_tombstone [where rebuild = "rebuild_ignore env", OF kept_rebuild_ignore assms(1,2)] assms(1) kept_saved
    by (cases "fr_deleted r") blast+
  ultimately show ?thesis using kept_saved by (auto simp: Some on_pull_staged_def apply_remote_def apply_remote_with_def)
qed


definition demo_edit :: actor where
  "demo_edit = (demo_actor ''a'')\<lparr>ac_folder := \<lparr>fo_files = [(''x'', \<lparr>fd_bytes = [1, 2], fd_readonly = False\<rparr>)], fo_copies = [], fo_index = []\<rparr>,
     ac_peers := [(''b'', \<lparr>ph_conn_id = 0, ph_initiated_by_me = True\<rparr>)]\<rparr>"


section \<open>Without the copy\<close>

text \<open>
  The copy is best effort: when it fails, the version of the peer replaces the edited bytes all the same and no copy of them exists.
\<close>

lemma failed_copy_loses_edit:
  defines "env \<equiv> demo_env\<lparr>dv_copy_ok := \<lambda>_. False\<rparr>"
  defines "a' \<equiv> dispatch env (EvPullStaged ''x'' ''b'' (demo_record [(''b'', 1)]) (Some \<lparr>st_bytes = [7]\<rparr>)) demo_edit"
  shows "map_option fd_bytes (disk_file a' ''x'') = Some [7] \<and> fo_copies (ac_folder a') = []"
proof -
  have "bt_get (files_of (mute env ''x'' demo_edit)) ''x'' = None" by (simp add: mute_def demo_edit_def demo_actor_def files_of_def new_state_def bt_get_def)
  moreover have "bt_get (files_of demo_edit) ''x'' = None" by (simp add: demo_edit_def demo_actor_def files_of_def new_state_def bt_get_def)
  moreover have "''x'' \<notin> ac_busy demo_edit" by (simp add: demo_edit_def demo_actor_def)
  moreover have "preserve_edit env ''x'' demo_edit = demo_edit"
    by (simp add: preserve_edit_def try_quarantine_def env_def)
  moreover have "''x'' \<noteq> IGNORE_FILE" by (simp add: IGNORE_FILE_def)
  ultimately have "ac_folder a' = ac_folder (snd (install_settled env ''x'' [7] (mute env ''x'' demo_edit)))"
    by (simp add: a'_def on_pull_staged_def apply_remote_def apply_remote_with_def apply_newer_def push_prev_def
        Let_def case_prod_beta folder_commit is_some_and_def apply_on_disk_def demo_record_def)
  moreover have "fo_files (ac_folder demo_edit) = [(''x'', \<lparr>fd_bytes = [1, 2], fd_readonly = False\<rparr>)]" "fo_copies (ac_folder demo_edit) = []"
    by (simp_all add: demo_edit_def)
  ultimately show ?thesis
    by (auto simp: disk_file_def install_settled_def install_disk_def replace_disk_def env_def demo_env_def
        set_writable_def set_readonly_def apply_mode_def bt_get_def)
qed

end
