(* ===== verification/Converge.thy ===== *)
theory Converge
  imports Golden
begin

text \<open>
  Two nodes with concurrent versions of a path end with the same version: the node with the higher id keeps its content under
  a clock that dominates both and announces it; the other applies what it announces.
\<close>

lemma files_commit: "p \<noteq> IGNORE_FILE \<Longrightarrow> files_of (commit_applied rebuild p src r a) = bt_insert p r (files_of a)"
proof -
  assume "p \<noteq> IGNORE_FILE"
  then have "core (commit_applied rebuild p src r a) = core_put p r (core a)"
    by (simp add: commit_applied_def Let_def)
  then have "fst (core (commit_applied rebuild p src r a)) = fst (core_put p r (core a))" by simp
  then show ?thesis by (simp add: core_put_def)
qed

lemma concurrent_merge_dominates:
  assumes "compare x y = Concurrent" and "bt_wf y"
  shows "compare x (inc (merge x y) i) = Before" and "compare y (inc (merge x y) i) = Before"
proof -
  have n: "\<not> vle x y" "\<not> vle y x" using assms(1) by (simp_all add: vc.cmp_iff)
  have m: "vle x (merge x y)" "vle y (merge x y)" using assms(2) by (auto intro: vc.join_ub1 vc.join_ub2)
  have le: "vle x (inc (merge x y) i)" "vle y (inc (merge x y) i)" using m vle_inc vc.le_trans by blast+
  moreover have "\<not> vle (inc (merge x y) i) x" "\<not> vle (inc (merge x y) i) y"
    using n m vle_inc vc.le_trans by meson+
  ultimately show "compare x (inc (merge x y) i) = Before" "compare y (inc (merge x y) i) = Before"
    by (simp_all add: vc.cmp_iff)
qed

text \<open>The winner's half: what the higher node keeps and announces.\<close>

definition reasserted :: "daemon_env \<Rightarrow> node_id \<Rightarrow> file_record \<Rightarrow> file_record \<Rightarrow> file_record" where
  "reasserted env me mine theirs = mine\<lparr>fr_vv := inc (merge (fr_vv mine) (fr_vv theirs)) me, fr_updated_at_ms := dv_now_ms env\<rparr>"

lemma winner_reasserts:
  assumes "src < ac_me a" and "bt_get (files_of a) p = Some mine"
  shows "bt_get (files_of (on_concurrent env p src r a)) p = Some (reasserted env (ac_me a) mine r)"
    and "i \<in> set (bt_keys (ac_peers a)) \<Longrightarrow>
      \<exists>lam. Send i (FileMeta p (reasserted env (ac_me a) mine r) lam) \<in> set (ac_out (on_concurrent env p src r a))"
  using assms
  by (auto simp: on_concurrent_def on_concurrent_with_def Let_def reasserted_def files_of_def put_record_def broadcast_all_def
      persist_def emit_def tick_lamport_def)

text \<open>The other half: a staged version that dominates the local one is committed with the joined clock.\<close>

lemma staged_commits:
  assumes "bt_get (files_of a) p = Some mine" and "compare (fr_vv mine) (fr_vv r) = Before" and "p \<notin> ac_busy a"
    and "p \<noteq> IGNORE_FILE" and "dv_rename_ok env p" "dv_mkdir_ok env p" "dv_chmod_ok env p" "dv_remove_ok env p"
  shows "bt_get (files_of (on_pull_staged env p src r (Some s) a)) p = Some (r\<lparr>fr_vv := merge (fr_vv mine) (fr_vv r)\<rparr>)"
    and "map_option fd_bytes (disk_file (on_pull_staged env p src r (Some s) a) p)
      = (if fr_deleted r then None else Some (st_bytes s))"
proof -
  define a1 where "a1 = mute env p (preserve_edit env p a)"
  define b where "b = push_prev p a1"
  have f: "files_of a1 = files_of a"
    unfolding a1_def by (rule files_core) simp
  have ok: "fst (apply_on_disk env p r (Some s) b)"
    using assms(5-8) by (simp add: apply_on_disk_def install_settled_def install_disk_def replace_disk_def remove_disk_def)
  have step: "on_pull_staged env p src r (Some s) a =
      finish_pull p (commit_applied (rebuild_ignore env) p src (r\<lparr>fr_vv := merge (fr_vv mine) (fr_vv r)\<rparr>)
        (snd (apply_on_disk env p r (Some s) b)))"
    using assms(1-3) ok f
    by (simp add: on_pull_staged_def apply_remote_def apply_remote_with_def is_some_and_def apply_newer_def Let_def
        case_prod_beta merged_vv_def flip: a1_def b_def)
  show "bt_get (files_of (on_pull_staged env p src r (Some s) a)) p = Some (r\<lparr>fr_vv := merge (fr_vv mine) (fr_vv r)\<rparr>)"
    using assms(4) by (simp add: step files_commit)
  have "ac_folder (on_pull_staged env p src r (Some s) a) = ac_folder (snd (apply_on_disk env p r (Some s) b))"
    using assms(4) by (simp add: step folder_commit)
  then show "map_option fd_bytes (disk_file (on_pull_staged env p src r (Some s) a) p)
      = (if fr_deleted r then None else Some (st_bytes s))"
    using assms(5-8) by (auto simp: disk_file_def apply_on_disk_def install_settled_def install_disk_def replace_disk_def
        remove_disk_def set_readonly_def set_writable_def apply_mode_def split: option.splits)
qed


definition demo_pair :: "node_id \<Rightarrow> node_id \<Rightarrow> file_record \<Rightarrow> actor" where
  "demo_pair me peer r = (demo_files [(''x'', r)] (demo_actor me))\<lparr>ac_peers := [(peer, \<lparr>ph_conn_id = 0, ph_initiated_by_me = True\<rparr>)]\<rparr>"


end
