(* ===== verification/Faults.thy ===== *)
theory Faults
  imports Daemon
begin

text \<open>
  Places where the daemon does not do what its comments and messages say.  Each lemma shows the step that goes wrong
  for every state that meets its premises.
\<close>

lemma unbusy_plain:
  "bt_get (ac_deferred a) rel = None \<Longrightarrow> rel \<notin> ac_recheck a \<Longrightarrow> unbusy env rel a = a\<lparr>ac_busy := ac_busy a - {rel}\<rparr>"
  by (simp add: unbusy_def)

section \<open>Unlocking\<close>

text \<open>
  An unlock whose inspection fails is answered with an error, but the path stays in the set of pending unlocks: every later
  unlock of the leased path is refused as busy, while the lease is renewed on every tick.
\<close>

lemma failed_unlock_wedges:
  fixes env :: daemon_env and w :: waiter
  assumes "rel \<in> ac_pending_unlocks a" and "bt_get (ac_deferred a) rel = None" and "rel \<notin> ac_recheck a"
  defines "a' \<equiv> dispatch env (EvInspected rel None (CauseUnlock w)) a"
  assumes "sanitize_rel_path rel = Inr rel" and "is_held_by_me (ac_locks a) rel" and "role_edit_guard a = None"
  shows "rel \<in> ac_pending_unlocks a'" and "dispatch env' (EvUnlock rel w') a' = emit (Reply w' (RespErr ''busy'')) a'"
proof -
  have a': "a' = (emit (Reply w (RespErr ''inspect_failed'')) a)\<lparr>ac_busy := ac_busy a - {rel}\<rparr>"
    using assms(2,3) by (simp add: a'_def on_inspected_def unbusy_plain emit_def)
  show p: "rel \<in> ac_pending_unlocks a'" using assms(1) by (simp add: a' emit_def)
  have "role_edit_guard a' = None" "is_held_by_me (ac_locks a') rel"
    using assms(6,7) by (simp_all add: a' emit_def role_edit_guard_def)
  then show "dispatch env' (EvUnlock rel w') a' = emit (Reply w' (RespErr ''busy'')) a'"
    using p assms(5) by (simp add: handle_unlock_def on_clean_def fail_with_def)
qed

section \<open>Peers that leave\<close>

text \<open>
  A peer dropped for breaking the protocol is taken out of the peer table first, so that the clean-up for a lost peer sees a
  stale connection and does nothing: its index, its role and its mark as synchronised stay.
\<close>

lemma expelled_peer_leaves_state:
  "ac_peer_index (expel env i a) = ac_peer_index a \<and> ac_peer_roles (expel env i a) = ac_peer_roles a
   \<and> ac_index_received (expel env i a) = ac_index_received a \<and> ac_locks (expel env i a) = ac_locks a"
  by (auto simp: expel_def on_peer_gone_def emit_def split: option.splits)

text \<open>
  An automatic acquisition whose voter is lost is forgotten, but neither its entry in the table of automatic acquisitions nor the
  busy mark is cleared: its timer finds nothing to end, and the path is not eligible for an automatic lease again.
\<close>

lemma lost_voter_wedges_autolock:
  assumes "bt_get (ac_autolock_pending a) rel = Some q" and "rel \<in> ac_busy a"
  defines "a' \<equiv> abort_acquire rel a"
  shows "\<not> autolock_eligible rel a'" and "rel \<in> ac_busy a'" and "dispatch env (EvAcquireTimeout rel lamport) a' = a'"
  using assms
  by (auto simp: abort_acquire_def autolock_eligible_def on_acquire_timeout_def broadcast_all_def emit_def bt_contains_iff
      is_some_and_def Let_def split: option.splits)

text \<open>
  A connection that replaces a duplicate keeps the index parts staged on the old one, so that the first part of the new
  stream does not continue the old count and the peer is dropped.
\<close>

lemma replaced_connection_is_dropped:
  fixes env :: daemon_env and c :: nat
  assumes "bt_get (ac_index_staging a) i = Some (n, ix)" and "n \<noteq> 0" and "i \<noteq> ac_me a"
    and "bt_get (ac_peers a) i = Some h" and "initiator (ac_me a) i by_me < initiator (ac_me a) i (ph_initiated_by_me h)"
  defines "a' \<equiv> dispatch env (EvAuthed i c by_me) a"
  shows "\<not> bt_contains (ac_peers (dispatch env' (EvMsg i (IndexPart 0 final lamport files ls)) a')) i"
proof -
  have st: "bt_get (ac_index_staging a') i = Some (n, ix)" "bt_contains (ac_peers a') i"
    using assms by (simp_all add: a'_def on_authed_def accept_peer_def settle_member_def emit_def Let_def)
  define b where "b = (see_lamport lamport a')\<lparr>ac_index_staging := bt_remove i (ac_index_staging a')\<rparr>"
  have "dispatch env' (EvMsg i (IndexPart 0 final lamport files ls)) a' = expel env' i b"
    using st assms(2) by (simp add: on_ctl_def on_index_part_def b_def see_lamport_def)
  then show ?thesis
    by (auto simp: expel_def on_peer_gone_def emit_def bt_contains_iff split: option.splits)
qed

section \<open>Bytes that are not kept\<close>

text \<open>
  An automatic lease on a new file that fails deletes the file, whatever it holds by then: the copy was taken before the
  request went out, and what the user wrote while the votes were out is in no copy.
\<close>

lemma autolock_fail_drops_later_write:
  fixes name :: string
  assumes "disk_file a rel \<noteq> None" and "dv_remove_ok env rel" and "bt_get (ac_deferred a) rel = None" and "rel \<notin> ac_recheck a"
  defines "a' \<equiv> autolock_fail env rel (Some name) True a"
  shows "disk_file a' rel = None \<and> fo_copies (ac_folder a') = fo_copies (ac_folder a)"
proof -
  define b where "b = with_folder (set_writable rel) (mute env rel (a\<lparr>ac_autolock_pending := bt_remove rel (ac_autolock_pending a)\<rparr>))"
  have d: "disk_file b rel \<noteq> None" "fo_copies (ac_folder b) = fo_copies (ac_folder a)"
    using assms(1) by (auto simp: b_def disk_file_def with_folder_def mute_def set_writable_def apply_mode_def split: option.splits)
  define b' where "b' = snd (remove_disk env rel b)"
  have b': "disk_file b' rel = None" "fo_copies (ac_folder b') = fo_copies (ac_folder a)"
    "bt_get (ac_deferred b') rel = None" "rel \<notin> ac_recheck b'"
    using d assms(2-4) by (auto simp: b'_def b_def remove_disk_def with_folder_def disk_file_def mute_def)
  have "a' = unbusy env rel b'" by (simp add: a'_def autolock_fail_def b'_def b_def)
  then show ?thesis using b' by (simp add: unbusy_plain disk_file_def)
qed

text \<open>Restoring a historical version under a lease overwrites an edit that was not published yet, and no copy of it is made.\<close>

lemma restore_drops_leased_edit:
  fixes e :: version_entry and s :: staged and w :: waiter
  assumes "is_held_by_me (ac_locks a) rel" and "dv_mkdir_ok env rel" and "dv_rename_ok env rel"
    and "bt_get (ac_deferred a) rel = None" and "rel \<notin> ac_recheck a"
  defines "a' \<equiv> dispatch env (EvRestoreStaged rel e (Some s) w) a"
  shows "map_option fd_bytes (disk_file a' rel) = Some (st_bytes s) \<and> fo_copies (ac_folder a') = fo_copies (ac_folder a)"
proof -
  define b where "b = snd (install_disk env rel (st_bytes s) (mute env rel a))"
  have b: "install_disk env rel (st_bytes s) (mute env rel a) = (True, b)"
    "map_option fd_bytes (disk_file b rel) = Some (st_bytes s)" "fo_copies (ac_folder b) = fo_copies (ac_folder a)"
    "bt_get (ac_deferred b) rel = None" "rel \<notin> ac_recheck b"
    using assms(2-5)
    by (auto simp: b_def install_disk_def replace_disk_def with_folder_def disk_file_def mute_def set_writable_def apply_mode_def
        split: option.splits)
  have u: "ac_folder (announce_record rel r c) = ac_folder c" "ac_deferred (announce_record rel r c) = ac_deferred c"
    "ac_recheck (announce_record rel r c) = ac_recheck c" for r c
    by (simp_all add: announce_record_def put_record_def tick_lamport_def persist_def emit_def broadcast_all_def Let_def)
  show ?thesis
    using assms(1) b
    by (auto simp: a'_def on_restore_staged_def Let_def unbusy_plain u emit_def disk_file_def split: option.splits)
qed

end
