(* ===== verification/Chunker.thy ===== *)
theory Chunker
  imports Proto
begin

text \<open>
  Content-defined chunking (\<^verbatim>\<open>src/sync/chunker.rs\<close>).  The cut scanner FastCDC and the hash BLAKE3 are libraries and
  parameters: \<open>fastcdc\<close> gives the cuts of a buffer as offsets and lengths, and its documented behaviour is the locale
  \<open>cdc\<close>.  Three routines are modelled: over a slice, over a stream through a sliding window, and the pipelined one for
  files, whose hashed batches come back in any order.  A reader is the list of what its reads return, a short read
  returning less than asked for; a sink is a state with an update that can fail.
\<close>

definition CDC_MIN :: nat where "CDC_MIN = 16 * 1024"
definition CDC_AVG :: nat where "CDC_AVG = 64 * 1024"
definition CDC_MAX :: nat where "CDC_MAX = 256 * 1024"
definition STREAM_WINDOW :: nat where "STREAM_WINDOW = 8 * 1024 * 1024"
definition SEG :: nat where "SEG = 4 * 1024 * 1024"
definition CARRY :: nat where "CARRY = 2 * CDC_MAX"

datatype chunk_error = ReadFailed | SinkClosed | NoFinalCut | BatchLost

type_synonym cuts = "(nat \<times> nat) list"
type_synonym batch = "(chunk_ref \<times> bytes) list"
type_synonym 's sink = "chunk_ref \<Rightarrow> bytes \<Rightarrow> 's \<Rightarrow> (chunk_error + 's)"
type_synonym reader = "(chunk_error + bytes) list"
type_synonym 's emitted = "chunk_ref list \<times> u64 \<times> 's"

section \<open>A slice\<close>

definition chunk_ref_of :: "(bytes \<Rightarrow> bytes) \<Rightarrow> bytes \<Rightarrow> chunk_ref" where
  "chunk_ref_of blake3 data = \<lparr>cr_hash = blake3 data, cr_len = of_nat (length data)\<rparr>"

definition slice :: "bytes \<Rightarrow> nat \<times> nat \<Rightarrow> bytes" where
  "slice buf c = take (snd c) (drop (fst c) buf)"

definition hash_batch :: "(bytes \<Rightarrow> bytes) \<Rightarrow> bytes \<Rightarrow> cuts \<Rightarrow> bool \<Rightarrow> batch" where
  "hash_batch blake3 buf cuts copy =
     map (\<lambda>c. (chunk_ref_of blake3 (slice buf c), if copy then slice buf c else [])) cuts"

definition chunk_bytes :: "(bytes \<Rightarrow> cuts) \<Rightarrow> (bytes \<Rightarrow> bytes) \<Rightarrow> bytes \<Rightarrow> chunk_ref list" where
  "chunk_bytes fastcdc blake3 data =
     (if data = [] then [] else map fst (hash_batch blake3 data (fastcdc data) False))"

section \<open>Emitting\<close>

fun emit_batch :: "'s sink \<Rightarrow> batch \<Rightarrow> 's emitted \<Rightarrow> chunk_error + 's emitted" where
  "emit_batch sink [] em = Inr em"
| "emit_batch sink ((r, data) # b) (refs, sz, s) =
     (case sink r data s of
        Inl e \<Rightarrow> Inl e
      | Inr s' \<Rightarrow> emit_batch sink b (refs @ [r], sz + ucast (cr_len r), s'))"

section \<open>A stream through a window\<close>

text \<open>Filling the buffer up to its capacity; a read of no bytes is the end.\<close>

fun fill :: "nat \<Rightarrow> reader \<Rightarrow> bytes \<Rightarrow> chunk_error + (bytes \<times> reader \<times> bool)" where
  "fill cap [] buf = Inr (buf, [], length buf < cap)"
| "fill cap (rd # rds) buf =
     (if length buf \<ge> cap then Inr (buf, rd # rds, False)
      else case rd of
        Inl e \<Rightarrow> Inl e
      | Inr bs \<Rightarrow>
          if bs = [] then Inr (buf, rds, True)
          else let room = cap - length buf in
            if length bs \<le> room then fill cap rds (buf @ bs)
            else Inr (buf @ take room bs, Inr (drop room bs) # rds, False))"

text \<open>The cuts that more input cannot move, and how far they reach.\<close>

definition final_cuts :: "(bytes \<Rightarrow> cuts) \<Rightarrow> bool \<Rightarrow> bytes \<Rightarrow> cuts" where
  "final_cuts fastcdc eof buf = takeWhile (\<lambda>c. eof \<or> fst c + CDC_MAX \<le> length buf) (fastcdc buf)"

definition consumed :: "cuts \<Rightarrow> nat" where
  "consumed cuts = (if cuts = [] then 0 else fst (last cuts) + snd (last cuts))"

partial_function (option) window_loop ::
  "(bytes \<Rightarrow> cuts) \<Rightarrow> (bytes \<Rightarrow> bytes) \<Rightarrow> nat \<Rightarrow> 's sink \<Rightarrow> reader \<Rightarrow> bytes \<Rightarrow> bool \<Rightarrow> 's emitted
     \<Rightarrow> (chunk_error + 's emitted) option" where
  "window_loop fastcdc blake3 cap sink rds buf eof em =
     (case (if eof then Inr (buf, rds, True) else fill cap rds buf) of
        Inl e \<Rightarrow> Some (Inl e)
      | Inr (buf', rds', eof') \<Rightarrow>
          if buf' = [] then Some (Inr em)
          else
            let cuts = final_cuts fastcdc eof' buf' in
            if cuts = [] then Some (Inl NoFinalCut)
            else case emit_batch sink (hash_batch blake3 buf' cuts True) em of
              Inl e \<Rightarrow> Some (Inl e)
            | Inr em' \<Rightarrow>
                let rest = drop (consumed cuts) buf' in
                if eof' \<and> rest = [] then Some (Inr em')
                else window_loop fastcdc blake3 cap sink rds' rest eof' em')"

definition chunk_stream_windowed ::
  "(bytes \<Rightarrow> cuts) \<Rightarrow> (bytes \<Rightarrow> bytes) \<Rightarrow> nat \<Rightarrow> 's sink \<Rightarrow> reader \<Rightarrow> 's \<Rightarrow> (chunk_error + 's emitted) option" where
  "chunk_stream_windowed fastcdc blake3 window sink rds s =
     window_loop fastcdc blake3 (max window (2 * CDC_MAX)) sink rds [] False ([], 0, s)"

definition chunk_stream ::
  "(bytes \<Rightarrow> cuts) \<Rightarrow> (bytes \<Rightarrow> bytes) \<Rightarrow> 's sink \<Rightarrow> reader \<Rightarrow> 's \<Rightarrow> (chunk_error + 's emitted) option" where
  "chunk_stream fastcdc blake3 sink rds s = chunk_stream_windowed fastcdc blake3 STREAM_WINDOW sink rds s"

section \<open>A file through the pipeline\<close>

text \<open>The reader thread: segments of \<open>seg\<close> bytes, the last one short or empty and marked as the end.\<close>

partial_function (option) read_segments :: "nat \<Rightarrow> reader \<Rightarrow> (chunk_error + (bytes \<times> bool)) list option" where
  "read_segments seg rds =
     (case fill seg rds [] of
        Inl e \<Rightarrow> Some [Inl e]
      | Inr (bs, rds', eof) \<Rightarrow>
          if eof then Some [Inr (bs, True)]
          else Option.bind (read_segments seg rds') (\<lambda>fs. Some (Inr (bs, False) # fs)))"

text \<open>
  The scanning thread: the tail that is not final yet is carried in front of the next segment; every window yields one
  batch.  The batches are hashed on a pool and come back in any order, numbered.
\<close>

fun scan_file :: "(bytes \<Rightarrow> cuts) \<Rightarrow> (bytes \<Rightarrow> bytes) \<Rightarrow> (chunk_error + (bytes \<times> bool)) list \<Rightarrow> bytes \<Rightarrow> batch list \<Rightarrow> chunk_error + batch list" where
  "scan_file fastcdc blake3 [] carry out = Inr out"
| "scan_file fastcdc blake3 (Inl e # fs) carry out = Inl e"
| "scan_file fastcdc blake3 (Inr (bs, eof) # fs) carry out =
     (let view = carry @ bs; cuts = final_cuts fastcdc eof view in
      if cuts = [] then (if eof \<and> view = [] then Inr out else Inl NoFinalCut)
      else
        let out' = out @ [hash_batch blake3 view cuts True] in
        if eof then Inr out' else scan_file fastcdc blake3 fs (drop (consumed cuts) view) out')"

text \<open>Ordered emission: a batch waits until its number is next in line.\<close>

lemma bt_remove_shorter:
  assumes "bt_get m k = Some v"
  shows "length (bt_remove k m) < length m"
proof -
  have "(k, v) \<in> set m" using assms unfolding bt_get_def by (rule map_of_SomeD)
  then show ?thesis unfolding bt_remove_def by (intro length_filter_less) auto
qed

function emit_ready :: "'s sink \<Rightarrow> (nat, batch) btree \<Rightarrow> nat \<Rightarrow> 's emitted \<Rightarrow> chunk_error + ((nat, batch) btree \<times> nat \<times> 's emitted)" where
  "emit_ready sink pending next em =
     (case bt_get pending next of
        None \<Rightarrow> Inr (pending, next, em)
      | Some b \<Rightarrow>
          (case emit_batch sink b em of
             Inl e \<Rightarrow> Inl e
           | Inr em' \<Rightarrow> emit_ready sink (bt_remove next pending) (Suc next) em'))"
  by pat_completeness auto
termination
  by (relation "measure (\<lambda>(_, pending, _). length pending)") (auto intro: bt_remove_shorter)

declare emit_ready.simps [simp del]

fun emit_arrivals ::
  "'s sink \<Rightarrow> batch list \<Rightarrow> nat list \<Rightarrow> (nat, batch) btree \<times> nat \<times> 's emitted \<Rightarrow> chunk_error + ((nat, batch) btree \<times> nat \<times> 's emitted)" where
  "emit_arrivals sink batches [] st = Inr st"
| "emit_arrivals sink batches (i # is) (pending, next, em) =
     (case emit_ready sink (bt_insert i (batches ! i) pending) next em of
        Inl e \<Rightarrow> Inl e
      | Inr st \<Rightarrow> emit_arrivals sink batches is st)"

text \<open>\<open>order\<close> is the order in which the hashed batches come back.\<close>

definition chunk_file ::
  "(bytes \<Rightarrow> cuts) \<Rightarrow> (bytes \<Rightarrow> bytes) \<Rightarrow> (nat \<Rightarrow> nat list) \<Rightarrow> 's sink \<Rightarrow> reader \<Rightarrow> 's \<Rightarrow> (chunk_error + (chunk_ref list \<times> u64 \<times> 's)) option" where
  "chunk_file fastcdc blake3 order sink rds s =
     (case read_segments SEG rds of
        None \<Rightarrow> None
      | Some fs \<Rightarrow>
          Some (case scan_file fastcdc blake3 fs [] [] of
             Inl e \<Rightarrow> Inl e
           | Inr batches \<Rightarrow>
               (case emit_arrivals sink batches (order (length batches)) ([], 0, [], 0, s) of
                  Inl e \<Rightarrow> Inl e
                | Inr (_, next, em) \<Rightarrow> if next < length batches then Inl BatchLost else Inr em)))"

end
