(* ===== verification/ContentTransfer.thy ===== *)
theory ContentTransfer
  imports Chunker Versions
begin

text \<open>
  Moving content (\<^verbatim>\<open>src/sync/transfer.rs\<close>): publishing a file into the blob store, resolving manifests, the swarm loop that
  fetches missing chunks over several connections, assembling the staging file, and the set of blobs that garbage
  collection must keep.  The blob store is a library: it is a map from hashes to contents, with \<open>add_ok\<close> telling which
  additions succeed; \<open>blake3\<close>, postcard (\<open>ser_refs\<close>, \<open>de_refs\<close>) and the network are parameters.  Temporary tags, which only keep
  the store's own collector away from blobs in use, are left out.
\<close>

definition INLINE_MANIFEST_MAX :: nat where "INLINE_MANIFEST_MAX = 256"
definition FETCH_CONCURRENCY :: nat where "FETCH_CONCURRENCY = 16"
definition SWARM_PEERS :: nat where "SWARM_PEERS = 4"
definition MAX_CHUNK_RETRIES :: nat where "MAX_CHUNK_RETRIES = 5"
definition MAX_MANIFEST_BYTES :: nat where "MAX_MANIFEST_BYTES = MAX_CHUNKS_PER_FILE * 48"

datatype transfer_error =
  TIo | TChunk chunk_error | TStore | TFetch | TManifestInvalid | TChunkMismatch

type_synonym store = "(bytes, bytes) btree"

section \<open>Publishing\<close>

definition add_bytes :: "(bytes \<Rightarrow> bytes) \<Rightarrow> bytes \<Rightarrow> store \<Rightarrow> store" where
  "add_bytes blake3 data st = bt_insert (blake3 data) data st"

text \<open>Each chunk goes into the store as it comes, with the hash the store computed for it.\<close>

definition store_sink :: "(bytes \<Rightarrow> bytes) \<Rightarrow> (bytes \<Rightarrow> bool) \<Rightarrow> (store \<times> bytes list) sink" where
  "store_sink blake3 add_ok r data s =
     (if add_ok data then Inr (add_bytes blake3 data (fst s), snd s @ [blake3 data]) else Inl SinkClosed)"

definition build_manifest ::
  "(bytes \<Rightarrow> bytes) \<Rightarrow> (bytes \<Rightarrow> bool) \<Rightarrow> (chunk_ref list \<Rightarrow> bytes option) \<Rightarrow> chunk_ref list \<Rightarrow> store
     \<Rightarrow> transfer_error + (manifest_ref \<times> store)" where
  "build_manifest blake3 add_ok ser_refs refs st =
     (if length refs \<le> INLINE_MANIFEST_MAX then Inr (Inline refs, st)
      else case ser_refs refs of
        None \<Rightarrow> Inl TManifestInvalid
      | Some bs \<Rightarrow> if add_ok bs then Inr (Blob (blake3 bs), add_bytes blake3 bs st) else Inl TStore)"

text \<open>A blob the store refuses ends the publication with the store's error, which the model's sink passes on as \<open>SinkClosed\<close>.\<close>

definition publish_local ::
  "(bytes \<Rightarrow> cuts) \<Rightarrow> (bytes \<Rightarrow> bytes) \<Rightarrow> (bytes \<Rightarrow> bool) \<Rightarrow> (chunk_ref list \<Rightarrow> bytes option) \<Rightarrow> (nat \<Rightarrow> nat list) \<Rightarrow> reader \<Rightarrow> store
     \<Rightarrow> (transfer_error + (manifest_ref \<times> u64 \<times> store)) option" where
  "publish_local fastcdc blake3 add_ok ser_refs order rds st =
     (case chunk_file fastcdc blake3 order (store_sink blake3 add_ok) rds (st, []) of
        None \<Rightarrow> None
      | Some (Inl e) \<Rightarrow> Some (Inl (if e = SinkClosed then TStore else TChunk e))
      | Some (Inr (refs, sz, st1, hashes)) \<Rightarrow>
          Some (if list_ex (\<lambda>(h, r). h \<noteq> cr_hash r) (zip hashes refs) then Inl TChunkMismatch
                else case build_manifest blake3 add_ok ser_refs refs st1 of
                  Inl e \<Rightarrow> Inl e
                | Inr (m, st2) \<Rightarrow> Inr (m, sz, st2)))"

section \<open>Manifests\<close>

text \<open>\<open>fetch\<close> is the connection to ask for a missing manifest blob, if there is one.\<close>

definition manifest_blob :: "(bytes \<Rightarrow> bytes option) option \<Rightarrow> bytes \<Rightarrow> store \<Rightarrow> transfer_error + store" where
  "manifest_blob fetch h st =
     (if bt_contains st h then Inr st
      else case fetch of
        None \<Rightarrow> Inl TManifestInvalid
      | Some f \<Rightarrow> (case f h of None \<Rightarrow> Inl TFetch | Some b \<Rightarrow> Inr (bt_insert h b st)))"

definition check_refs :: "chunk_ref list \<Rightarrow> u64 \<Rightarrow> store \<Rightarrow> transfer_error + (chunk_ref list \<times> store)" where
  "check_refs refs expected st =
     (case check_manifest refs expected of Inl _ \<Rightarrow> Inl TManifestInvalid | Inr _ \<Rightarrow> Inr (refs, st))"

definition resolve_manifest ::
  "(bytes \<Rightarrow> chunk_ref list option) \<Rightarrow> (bytes \<Rightarrow> bytes option) option \<Rightarrow> manifest_ref \<Rightarrow> u64 \<Rightarrow> store
     \<Rightarrow> transfer_error + (chunk_ref list \<times> store)" where
  "resolve_manifest de_refs fetch m expected st =
     (case m of
        Inline refs \<Rightarrow> check_refs refs expected st
      | Blob h \<Rightarrow>
          (case manifest_blob fetch h st of
             Inl e \<Rightarrow> Inl e
           | Inr st1 \<Rightarrow>
               (case bt_get st1 h of
                  None \<Rightarrow> Inl TStore
                | Some bs \<Rightarrow>
                    if length bs > MAX_MANIFEST_BYTES then Inl TManifestInvalid
                    else (case decode_blob de_refs bs of Inl _ \<Rightarrow> Inl TManifestInvalid | Inr refs \<Rightarrow> check_refs refs expected st1))))"

section \<open>Assembling\<close>

fun assemble :: "chunk_ref list \<Rightarrow> store \<Rightarrow> transfer_error + bytes" where
  "assemble [] st = Inr []"
| "assemble (r # rs) st =
     (case bt_get st (cr_hash r) of
        None \<Rightarrow> Inl TStore
      | Some b \<Rightarrow>
          if of_nat (length b) \<noteq> cr_len r then Inl TChunkMismatch
          else (case assemble rs st of Inl e \<Rightarrow> Inl e | Inr bs \<Rightarrow> Inr (b @ bs)))"

definition materialize ::
  "(bytes \<Rightarrow> chunk_ref list option) \<Rightarrow> manifest_ref \<Rightarrow> u64 \<Rightarrow> store \<Rightarrow> transfer_error + bytes" where
  "materialize de_refs m expected st =
     (case resolve_manifest de_refs None m expected st of Inl e \<Rightarrow> Inl e | Inr (refs, st1) \<Rightarrow> assemble refs st1)"

text \<open>Whether a file on disk is what the record says; \<open>file\<close> is the reader of the file, if there is one.\<close>

definition disk_matches ::
  "(bytes \<Rightarrow> cuts) \<Rightarrow> (bytes \<Rightarrow> bytes) \<Rightarrow> (nat \<Rightarrow> nat list) \<Rightarrow> (bytes \<Rightarrow> chunk_ref list option) \<Rightarrow> (u64 \<times> reader) option \<Rightarrow> file_record
     \<Rightarrow> store \<Rightarrow> (transfer_error + bool) option" where
  "disk_matches fastcdc blake3 order de_refs file record st =
     (case file of
        None \<Rightarrow> Some (Inr (fr_deleted record))
      | Some (len, rds) \<Rightarrow>
          if fr_deleted record \<or> len \<noteq> fr_size record then Some (Inr False)
          else case resolve_manifest de_refs None (fr_manifest record) (fr_size record) st of
            Inl e \<Rightarrow> Some (Inl e)
          | Inr (want, _) \<Rightarrow>
              map_option (\<lambda>res. case res of Inl e \<Rightarrow> Inl (TChunk e) | Inr (got, _) \<Rightarrow> Inr (want = got))
                (chunk_file fastcdc blake3 order (\<lambda>_ _ s. Inr s) rds ()))"

section \<open>The swarm\<close>

fun live_loop :: "nat \<Rightarrow> bool list \<Rightarrow> u64 \<Rightarrow> nat option \<times> u64" where
  "live_loop 0 conns rr = (None, rr)"
| "live_loop (Suc k) conns rr =
     (let i = unat rr mod length conns in if conns ! i then (Some i, rr + 1) else live_loop k conns (rr + 1))"

definition next_live_conn :: "bool list \<Rightarrow> u64 \<Rightarrow> nat option \<times> u64" where
  "next_live_conn conns rr = (if conns = [] then (None, rr) else live_loop (length conns) conns rr)"

text \<open>
  The state of the fetch loop: the queue, the fetches in flight with their connection, which connections are live, how often
  each failed, the attempts per chunk, the rotation, and the store.
\<close>

record fetch_state =
  fs_queue :: "bytes list"
  fs_inflight :: "(bytes \<times> nat) list"
  fs_conns :: "bool list"
  fs_fails :: "nat list"
  fs_attempts :: "(bytes, nat) btree"
  fs_rr :: u64
  fs_store :: store

datatype fetch_outcome = Running fetch_state | Fetched fetch_state | FetchFailed

fun fill_pipeline :: "bytes list \<Rightarrow> fetch_state \<Rightarrow> fetch_state" where
  "fill_pipeline [] s = s\<lparr>fs_queue := []\<rparr>"
| "fill_pipeline (h # q) s =
     (if length (fs_inflight s) \<ge> FETCH_CONCURRENCY then s\<lparr>fs_queue := h # q\<rparr>
      else case next_live_conn (fs_conns s) (fs_rr s) of
        (None, rr) \<Rightarrow> s\<lparr>fs_queue := h # q, fs_rr := rr\<rparr>
      | (Some ci, rr) \<Rightarrow> fill_pipeline q (s\<lparr>fs_inflight := fs_inflight s @ [(h, ci)], fs_rr := rr\<rparr>))"

definition settle :: "fetch_state \<Rightarrow> fetch_outcome" where
  "settle s =
     (let s' = fill_pipeline (fs_queue s) s in
      if fs_inflight s' \<noteq> [] then Running s' else if fs_queue s' = [] then Fetched s' else FetchFailed)"

definition drop_inflight :: "nat \<Rightarrow> fetch_state \<Rightarrow> fetch_state" where
  "drop_inflight i s = s\<lparr>fs_inflight := take i (fs_inflight s) @ drop (Suc i) (fs_inflight s)\<rparr>"

definition chunk_fetched :: "nat \<Rightarrow> bytes \<Rightarrow> fetch_state \<Rightarrow> fetch_outcome" where
  "chunk_fetched i data s =
     settle ((drop_inflight i s)\<lparr>fs_store := bt_insert (fst (fs_inflight s ! i)) data (fs_store s)\<rparr>)"

definition chunk_failed :: "nat \<Rightarrow> fetch_state \<Rightarrow> fetch_outcome" where
  "chunk_failed i s =
     (let (h, ci) = fs_inflight s ! i; n = unwrap_or 0 (bt_get (fs_attempts s) h) + 1 in
      if n > MAX_CHUNK_RETRIES then FetchFailed
      else
        let f = fs_fails s ! ci + 1; s1 = drop_inflight i s in
        settle (s1\<lparr>fs_attempts := bt_insert h n (fs_attempts s), fs_fails := (fs_fails s)[ci := f],
                   fs_conns := (if f \<ge> 3 then (fs_conns s)[ci := False] else fs_conns s), fs_queue := fs_queue s @ [h]\<rparr>))"

text \<open>One turn of the loop: any fetch in flight ends, with the content of its hash or with an error.\<close>

inductive fetch_step :: "(bytes \<Rightarrow> bytes) \<Rightarrow> fetch_outcome \<Rightarrow> fetch_outcome \<Rightarrow> bool" for blake3 where
  fetched: "i < length (fs_inflight s) \<Longrightarrow> blake3 data = fst (fs_inflight s ! i) \<Longrightarrow> fetch_step blake3 (Running s) (chunk_fetched i data s)"
| failed: "i < length (fs_inflight s) \<Longrightarrow> fetch_step blake3 (Running s) (chunk_failed i s)"

inductive_cases fetch_stepE: "fetch_step blake3 o1 o2"

text \<open>The hashes to fetch: each missing one once, in the order of the manifest.\<close>

fun missing_loop :: "chunk_ref list \<Rightarrow> store \<Rightarrow> bytes list \<Rightarrow> bytes list" where
  "missing_loop [] st seen = []"
| "missing_loop (r # rs) st seen =
     (if cr_hash r \<in> set seen then missing_loop rs st seen
      else if bt_contains st (cr_hash r) then missing_loop rs st (cr_hash r # seen)
      else cr_hash r # missing_loop rs st (cr_hash r # seen))"

text \<open>
  The start of a pull: an inline manifest is taken as it is, a manifest blob is resolved over the first peer that answers;
  \<open>reached\<close> tells for each advertising peer whether its connection comes up.
\<close>

definition pull_refs ::
  "(bytes \<Rightarrow> chunk_ref list option) \<Rightarrow> (bytes \<Rightarrow> bytes option) option \<Rightarrow> file_record \<Rightarrow> store \<Rightarrow> transfer_error + (chunk_ref list \<times> store)" where
  "pull_refs de_refs dialled record st =
     (case fr_manifest record of
        Inline refs \<Rightarrow> Inr (refs, st)
      | Blob h \<Rightarrow> (case dialled of None \<Rightarrow> Inl TFetch | Some f \<Rightarrow> resolve_manifest de_refs (Some f) (Blob h) (fr_size record) st))"

definition pull_start :: "bool list \<Rightarrow> chunk_ref list \<Rightarrow> store \<Rightarrow> fetch_outcome" where
  "pull_start reached refs st =
     (let missing = missing_loop refs st []; n = length (filter id (take SWARM_PEERS reached));
          s = \<lparr>fs_queue = missing, fs_inflight = [], fs_conns = replicate n True, fs_fails = replicate n 0, fs_attempts = [],
               fs_rr = 0, fs_store = st\<rparr>
      in if missing = [] then Fetched s else if n = 0 then FetchFailed else settle s)"

inductive pull_stage ::
  "(bytes \<Rightarrow> bytes) \<Rightarrow> (bytes \<Rightarrow> chunk_ref list option) \<Rightarrow> (bytes \<Rightarrow> bytes option) option \<Rightarrow> bool list \<Rightarrow> file_record \<Rightarrow> store
     \<Rightarrow> transfer_error + bytes \<Rightarrow> bool" for blake3 de_refs dialled reached rc st where
  bad_manifest: "pull_refs de_refs dialled rc st = Inl e \<Longrightarrow> pull_stage blake3 de_refs dialled reached rc st (Inl e)"
| gave_up: "pull_refs de_refs dialled rc st = Inr (refs, st1) \<Longrightarrow>
    (fetch_step blake3)\<^sup>*\<^sup>* (pull_start reached refs st1) FetchFailed \<Longrightarrow> pull_stage blake3 de_refs dialled reached rc st (Inl TFetch)"
| staged: "pull_refs de_refs dialled rc st = Inr (refs, st1) \<Longrightarrow>
    (fetch_step blake3)\<^sup>*\<^sup>* (pull_start reached refs st1) (Fetched s) \<Longrightarrow>
    pull_stage blake3 de_refs dialled reached rc st (assemble refs (fs_store s))"

section \<open>Garbage collection\<close>

definition manifest_live :: "(bytes \<Rightarrow> chunk_ref list option) \<Rightarrow> store \<Rightarrow> manifest_ref \<Rightarrow> bytes list" where
  "manifest_live de_refs st m =
     (case m of
        Inline refs \<Rightarrow> map cr_hash refs
      | Blob h \<Rightarrow> h # (case Option.bind (bt_get st h) de_refs of None \<Rightarrow> [] | Some refs \<Rightarrow> map cr_hash refs))"

definition compute_live ::
  "(bytes \<Rightarrow> chunk_ref list option) \<Rightarrow> (relpath, file_record) btree \<Rightarrow> (relpath, version_entry list) btree \<Rightarrow> (relpath, file_record) btree
     \<Rightarrow> store \<Rightarrow> bytes list" where
  "compute_live de_refs files history pulling st =
     concat (map (manifest_live de_refs st)
       (map (fr_manifest \<circ> snd) files @ map ve_manifest (concat (map snd history)) @ map (fr_manifest \<circ> snd) pulling))"

text \<open>What the store's collector does with the protected set: everything else goes.\<close>

definition sweep_store :: "bytes list \<Rightarrow> store \<Rightarrow> store" where
  "sweep_store live st = bt_retain (\<lambda>h _. h \<in> set live) st"

end
