(* ===== verification/ChunkerProps.thy ===== *)
theory ChunkerProps
  imports Chunker
begin

text \<open>
  The three chunking routines agree: the sliding window and the pipeline emit exactly the chunks of the whole input, in
  order, for every way the reads and the hashed batches arrive.  The chunks cover the input, so putting them together gives it back.
\<close>

section \<open>What the scanner promises\<close>

text \<open>
  FastCDC cuts off a first chunk of at most the maximal size, which depends on no more input than that, and goes on with
  the rest.
\<close>

definition cdc_ok :: "(bytes \<Rightarrow> cuts) \<Rightarrow> bool" where
  "cdc_ok fastcdc \<longleftrightarrow> fastcdc [] = []
     \<and> (\<forall>xs. xs \<noteq> [] \<longrightarrow> (\<exists>n. 0 < n \<and> n \<le> CDC_MAX \<and> n \<le> length xs
          \<and> fastcdc xs = (0, n) # map (\<lambda>c. (n + fst c, snd c)) (fastcdc (drop n xs))))
     \<and> (\<forall>xs ys. xs \<noteq> [] \<longrightarrow> take CDC_MAX xs = take CDC_MAX ys \<longrightarrow> snd (hd (fastcdc xs)) = snd (hd (fastcdc ys)))"

definition chunks :: "(bytes \<Rightarrow> cuts) \<Rightarrow> bytes \<Rightarrow> bytes list" where
  "chunks fastcdc xs = map (slice xs) (fastcdc xs)"

lemma CDC_MAX_pos [simp]: "0 < CDC_MAX"
  by (simp add: CDC_MAX_def)

lemma cdc_step:
  assumes "cdc_ok f" and "xs \<noteq> []"
  obtains n where "0 < n" "n \<le> CDC_MAX" "n \<le> length xs"
    "f xs = (0, n) # map (\<lambda>c. (n + fst c, snd c)) (f (drop n xs))"
  using assms unfolding cdc_ok_def by blast

lemma cdc_first:
  assumes "cdc_ok f" and "xs \<noteq> []" and "take CDC_MAX xs = take CDC_MAX ys"
  shows "snd (hd (f xs)) = snd (hd (f ys))"
  using assms unfolding cdc_ok_def by blast

lemma slice_shift: "slice xs (n + o', l) = slice (drop n xs) (o', l)"
  by (simp add: slice_def add.commute)

lemma chunks_Nil [simp]: "cdc_ok f \<Longrightarrow> chunks f [] = []"
  by (simp add: chunks_def cdc_ok_def)

lemma chunks_step:
  assumes "f xs = (0, n) # map (\<lambda>c. (n + fst c, snd c)) (f (drop n xs))"
  shows "chunks f xs = take n xs # chunks f (drop n xs)"
  unfolding chunks_def assms by (simp add: slice_shift slice_def add.commute)

lemma concat_chunks: "cdc_ok f \<Longrightarrow> concat (chunks f xs) = xs"
proof (induction "length xs" arbitrary: xs rule: less_induct)
  case less
  show ?case
  proof (cases "xs = []")
    case False
    obtain n where n: "0 < n" "n \<le> length xs" "f xs = (0, n) # map (\<lambda>c. (n + fst c, snd c)) (f (drop n xs))"
      using cdc_step [OF less.prems False] by metis
    have "concat (chunks f (drop n xs)) = drop n xs" using n less.prems False by (intro less.hyps) auto
    then show ?thesis by (simp add: chunks_step [OF n(3)])
  qed (use less.prems in simp)
qed

lemma chunk_size: "cdc_ok f \<Longrightarrow> c \<in> set (chunks f xs) \<Longrightarrow> 0 < length c \<and> length c \<le> CDC_MAX"
proof (induction "length xs" arbitrary: xs rule: less_induct)
  case less
  show ?case
  proof (cases "xs = []")
    case False
    obtain n where n: "0 < n" "n \<le> CDC_MAX" "n \<le> length xs" "f xs = (0, n) # map (\<lambda>c. (n + fst c, snd c)) (f (drop n xs))"
      using cdc_step [OF less.prems(1) False] by metis
    show ?thesis using less.prems n False less.hyps [of "drop n xs"] by (auto simp: chunks_step [OF n(4)])
  qed (use less.prems in simp)
qed

section \<open>Final cuts\<close>

lemma final_shift:
  assumes "f xs = (0, n) # map (\<lambda>c. (n + fst c, snd c)) (f (drop n xs))" and "n \<le> length xs" and "eof \<or> CDC_MAX \<le> length xs"
  shows "final_cuts f eof xs = (0, n) # map (\<lambda>c. (n + fst c, snd c)) (final_cuts f eof (drop n xs))"
proof -
  have "((\<lambda>c. eof \<or> fst c + CDC_MAX \<le> length xs) \<circ> (\<lambda>c. (n + fst c, snd c)))
      = (\<lambda>c :: nat \<times> nat. eof \<or> fst c + CDC_MAX \<le> length (drop n xs))"
    using assms(2) by (auto simp: fun_eq_iff)
  then show ?thesis unfolding final_cuts_def assms(1) using assms(3) by (simp add: takeWhile_map)
qed

lemma final_none: "cdc_ok f \<Longrightarrow> \<not> eof \<Longrightarrow> length xs < CDC_MAX \<Longrightarrow> final_cuts f eof xs = []"
proof (cases "xs = []")
  case False
  assume a: "cdc_ok f" "\<not> eof" "length xs < CDC_MAX"
  obtain n where "f xs = (0, n) # map (\<lambda>c. (n + fst c, snd c)) (f (drop n xs))" using cdc_step [OF a(1) False] by metis
  then show ?thesis using a by (simp add: final_cuts_def)
qed (simp add: final_cuts_def cdc_ok_def)

lemma consumed_shift: "consumed ((0, n) # map (\<lambda>c. (n + fst c, snd c)) cuts) = n + consumed cuts"
  by (simp add: consumed_def last_map)

text \<open>Cuts that are final on a prefix are the first cuts of the whole.\<close>

lemma final_cuts_prefix:
  assumes "cdc_ok f"
  shows "map (slice buf) (final_cuts f False buf) @ chunks f (drop (consumed (final_cuts f False buf)) buf @ rest) = chunks f (buf @ rest)
    \<and> consumed (final_cuts f False buf) \<le> length buf \<and> length buf - consumed (final_cuts f False buf) < CDC_MAX"
proof (induction "length buf" arbitrary: buf rule: less_induct)
  case less
  show ?case
  proof (cases "length buf < CDC_MAX")
    case True
    then have "final_cuts f False buf = []" by (intro final_none [OF assms]) simp_all
    then show ?thesis using True by (simp add: consumed_def)
  next
    case False
    then have ne: "buf \<noteq> []" "buf @ rest \<noteq> []" using CDC_MAX_pos by auto
    obtain n where n: "0 < n" "n \<le> length buf" "f buf = (0, n) # map (\<lambda>c. (n + fst c, snd c)) (f (drop n buf))"
      using cdc_step [OF assms ne(1)] by metis
    obtain m where m: "f (buf @ rest) = (0, m) # map (\<lambda>c. (m + fst c, snd c)) (f (drop m (buf @ rest)))"
      using cdc_step [OF assms ne(2)] by metis
    have "m = n" using cdc_first [OF assms ne(1), of "buf @ rest"] False n m by simp
    then have whole: "chunks f (buf @ rest) = take n buf # chunks f (drop n buf @ rest)"
      using chunks_step [of f "buf @ rest" n] m n by simp
    have cuts: "final_cuts f False buf = (0, n) # map (\<lambda>c. (n + fst c, snd c)) (final_cuts f False (drop n buf))"
      using final_shift [OF n(3,2)] False by simp
    have sl: "slice buf (n + a, l) = slice (drop n buf) (a, l)" for a l by (rule slice_shift)
    have "length (drop n buf) < length buf" using n ne by simp
    note ih = less.hyps [OF this]
    define c where "c = consumed (final_cuts f False (drop n buf))"
    have bounds: "c \<le> length buf - n" "length buf - n - c < CDC_MAX" using ih by (simp_all add: c_def)
    have "map (slice buf) (final_cuts f False buf) = take n buf # map (slice (drop n buf)) (final_cuts f False (drop n buf))"
      unfolding cuts by (simp add: sl slice_def [of buf "(0, n)"])
    moreover have "drop (n + c) buf = drop c (drop n buf)" by (simp add: add.commute)
    moreover have "map (slice (drop n buf)) (final_cuts f False (drop n buf)) @ chunks f (drop c (drop n buf) @ rest) = chunks f (drop n buf @ rest)"
      using ih by (simp only: c_def)
    moreover have "consumed (final_cuts f False buf) = n + c" unfolding cuts consumed_shift c_def ..
    ultimately show ?thesis using bounds n(2) by (simp add: whole)
  qed
qed

lemma final_cuts_eof:
  assumes "cdc_ok f"
  shows "map (slice buf) (final_cuts f True buf) = chunks f buf" and "consumed (final_cuts f True buf) = length buf"
proof -
  have all: "final_cuts f True xs = f xs" for xs by (simp add: final_cuts_def)
  then show "map (slice buf) (final_cuts f True buf) = chunks f buf" by (simp add: chunks_def)
  have "consumed (f xs) = length xs" for xs
  proof (induction "length xs" arbitrary: xs rule: less_induct)
    case less
    show ?case
    proof (cases "xs = []")
      case False
      obtain n where n: "0 < n" "n \<le> length xs" "f xs = (0, n) # map (\<lambda>c. (n + fst c, snd c)) (f (drop n xs))"
        using cdc_step [OF assms False] by metis
      then have "consumed (f (drop n xs)) = length (drop n xs)" using False by (intro less.hyps) auto
      then show ?thesis using n(2) by (subst n(3)) (simp add: consumed_shift)
    qed (use assms in \<open>simp add: cdc_ok_def consumed_def\<close>)
  qed
  then show "consumed (final_cuts f True buf) = length buf" by (simp add: all)
qed

lemma final_progress:
  assumes "cdc_ok f" and "buf \<noteq> []" and "eof \<or> CDC_MAX \<le> length buf"
  shows "final_cuts f eof buf \<noteq> []" and "0 < consumed (final_cuts f eof buf)"
proof -
  obtain n where n: "0 < n" "n \<le> length buf" "f buf = (0, n) # map (\<lambda>c. (n + fst c, snd c)) (f (drop n buf))"
    using cdc_step [OF assms(1,2)] by metis
  show "final_cuts f eof buf \<noteq> []" "0 < consumed (final_cuts f eof buf)"
    unfolding final_shift [OF n(3,2) assms(3)] consumed_shift using n(1) by simp_all
qed

section \<open>Emission\<close>

definition batch_of :: "(bytes \<Rightarrow> cuts) \<Rightarrow> (bytes \<Rightarrow> bytes) \<Rightarrow> bytes \<Rightarrow> batch" where
  "batch_of f blake3 xs = map (\<lambda>d. (chunk_ref_of blake3 d, d)) (chunks f xs)"

lemma hash_batch_copy: "hash_batch blake3 buf cuts True = map (\<lambda>d. (chunk_ref_of blake3 d, d)) (map (slice buf) cuts)"
  by (simp add: hash_batch_def)

lemma chunk_bytes_chunks: "cdc_ok f \<Longrightarrow> chunk_bytes f blake3 xs = map (chunk_ref_of blake3) (chunks f xs)"
  by (auto simp: chunk_bytes_def hash_batch_def chunks_def comp_def cdc_ok_def)

lemma emit_batch_append:
  "emit_batch sink (b1 @ b2) em = (case emit_batch sink b1 em of Inl e \<Rightarrow> Inl e | Inr em' \<Rightarrow> emit_batch sink b2 em')"
  by (induction sink b1 em rule: emit_batch.induct) (auto split: sum.splits)

text \<open>One window: what it emits and what it leaves are together what the whole would emit.\<close>

lemma window_split:
  fixes buf :: bytes
  assumes "cdc_ok f" and "eof \<Longrightarrow> rest = []"
  defines "cuts \<equiv> final_cuts f eof buf"
  shows "hash_batch blake3 buf cuts True @ batch_of f blake3 (drop (consumed cuts) buf @ rest) = batch_of f blake3 (buf @ rest)"
proof (cases eof)
  case True
  then have "map (slice buf) cuts = chunks f buf" "consumed cuts = length buf"
    unfolding cuts_def using final_cuts_eof [OF assms(1)] by simp_all
  then show ?thesis using True assms(1,2) by (simp add: hash_batch_copy batch_of_def)
next
  case False
  then have "map (slice buf) cuts @ chunks f (drop (consumed cuts) buf @ rest) = chunks f (buf @ rest)"
    unfolding cuts_def using final_cuts_prefix [OF assms(1)] by simp
  then show ?thesis unfolding hash_batch_copy batch_of_def by (metis map_append)
qed

section \<open>Reading\<close>

definition readable :: "reader \<Rightarrow> bool" where
  "readable rds \<longleftrightarrow> (\<forall>rd \<in> set rds. \<exists>bs. rd = Inr bs \<and> bs \<noteq> [])"

definition content :: "reader \<Rightarrow> bytes" where
  "content rds = concat (map projr rds)"

lemma fill_reads:
  assumes "readable rds"
  shows "\<exists>buf' rds' eof. fill cap rds buf = Inr (buf', rds', eof) \<and> readable rds' \<and> buf' @ content rds' = buf @ content rds
    \<and> (eof \<longrightarrow> rds' = []) \<and> (\<not> eof \<longrightarrow> cap \<le> length buf')"
  using assms
proof (induction cap rds buf rule: fill.induct)
  case (2 cap rd rds buf)
  then obtain bs where rd: "rd = Inr bs" "bs \<noteq> []" "readable rds" by (auto simp: readable_def)
  show ?case
  proof (cases "length buf \<ge> cap \<or> length bs > cap - length buf")
    case True
    then show ?thesis using "2.prems" rd by (auto simp: readable_def content_def Let_def)
  next
    case False
    then have "\<exists>buf' rds' eof. fill cap rds (buf @ bs) = Inr (buf', rds', eof) \<and> readable rds' \<and> buf' @ content rds' = (buf @ bs) @ content rds
      \<and> (eof \<longrightarrow> rds' = []) \<and> (\<not> eof \<longrightarrow> cap \<le> length buf')"
      using rd by (intro "2.IH") (auto simp: Let_def)
    then show ?thesis using False rd by (simp add: Let_def content_def)
  qed
qed (auto simp: readable_def content_def)

lemma content_Nil [simp]: "content [] = []"
  by (simp add: content_def)

section \<open>The window\<close>

lemma window_loop_emits:
  assumes "cdc_ok f" and "CDC_MAX \<le> cap" and "readable rds" and "eof \<Longrightarrow> rds = []"
  shows "window_loop f blake3 cap sink rds buf eof em = Some (emit_batch sink (batch_of f blake3 (buf @ content rds)) em)"
  using assms(3,4)
proof (induction "length (buf @ content rds)" arbitrary: rds buf eof em rule: less_induct)
  case less
  obtain buf' rds' eof' where f: "(if eof then Inr (buf, rds, True) else fill cap rds buf) = Inr (buf', rds', eof')"
    and r: "readable rds'" "buf' @ content rds' = buf @ content rds" "eof' \<Longrightarrow> rds' = []" "\<not> eof' \<Longrightarrow> cap \<le> length buf'"
    using fill_reads [OF less.prems(1), of cap buf] less.prems by (cases eof) auto
  show ?case
  proof (cases "buf' = []")
    case True
    then have "eof'" using r(4) assms(2) CDC_MAX_pos by (cases eof') auto
    then have "buf @ content rds = []" using r True by simp
    moreover have "batch_of f blake3 [] = []" using assms(1) by (simp add: batch_of_def)
    ultimately show ?thesis using True by (subst window_loop.simps) (simp add: f)
  next
    case False
    define cuts where "cuts = final_cuts f eof' buf'"
    define rest where "rest = drop (consumed cuts) buf'"
    have "eof' \<or> CDC_MAX \<le> length buf'" using r(4) assms(2) by (cases eof') auto
    then have p: "cuts \<noteq> []" "0 < consumed cuts" unfolding cuts_def using final_progress [OF assms(1) False] by simp_all
    have ih: "window_loop f blake3 cap sink rds' rest eof' em' = Some (emit_batch sink (batch_of f blake3 (rest @ content rds')) em')" for em'
    proof (rule less.hyps)
      show "length (rest @ content rds') < length (buf @ content rds)"
        using p False r(2) [symmetric] by (simp add: rest_def)
    qed (use r in auto)
    have w: "hash_batch blake3 buf' cuts True @ batch_of f blake3 (rest @ content rds') = batch_of f blake3 (buf @ content rds)"
      unfolding cuts_def rest_def r(2) [symmetric] by (rule window_split [OF assms(1)]) (simp add: r(3))
    have "window_loop f blake3 cap sink rds buf eof em =
        (case emit_batch sink (hash_batch blake3 buf' cuts True) em of
           Inl e \<Rightarrow> Some (Inl e)
         | Inr em' \<Rightarrow> if eof' \<and> rest = [] then Some (Inr em') else window_loop f blake3 cap sink rds' rest eof' em')"
      using False p(1) by (subst window_loop.simps) (auto simp: f Let_def cuts_def rest_def split: sum.split)
    also have "\<dots> = Some (emit_batch sink (hash_batch blake3 buf' cuts True @ batch_of f blake3 (rest @ content rds')) em)"
      unfolding emit_batch_append ih using r(3) assms(1) by (auto simp: batch_of_def split: sum.splits)
    finally show ?thesis by (simp add: w)
  qed
qed

section \<open>The pipeline\<close>

lemma read_segments_reads:
  assumes "readable rds" and "0 < seg"
  shows "\<exists>bss lst. read_segments seg rds = Some (map (\<lambda>bs. Inr (bs, False)) bss @ [Inr (lst, True)])
    \<and> concat bss @ lst = content rds \<and> (\<forall>bs \<in> set bss. seg \<le> length bs)"
  using assms(1)
proof (induction "length (content rds)" arbitrary: rds rule: less_induct)
  case less
  obtain bs rds' eof where f: "fill seg rds [] = Inr (bs, rds', eof)" and r: "readable rds'" "bs @ content rds' = content rds"
    "eof \<Longrightarrow> rds' = []" "\<not> eof \<Longrightarrow> seg \<le> length bs"
    using fill_reads [OF less.prems, of seg "[]"] by auto
  show ?case
  proof (cases eof)
    case True
    then have "read_segments seg rds = Some (map (\<lambda>bs. Inr (bs, False)) [] @ [Inr (bs, True)])"
      by (subst read_segments.simps) (simp add: f)
    then show ?thesis using True r by (intro exI [of _ "[]"] exI [of _ bs]) simp
  next
    case False
    then have "length (content rds') < length (content rds)" using r(4) assms(2) r(2) [symmetric] by (cases bs) auto
    from less.hyps [OF this r(1)] obtain bss lst where
      ih: "read_segments seg rds' = Some (map (\<lambda>bs. Inr (bs, False)) bss @ [Inr (lst, True)])"
        "concat bss @ lst = content rds'" "\<forall>bs \<in> set bss. seg \<le> length bs"
      by blast
    have "read_segments seg rds = Some (map (\<lambda>bs. Inr (bs, False)) (bs # bss) @ [Inr (lst, True)])"
      using False by (subst read_segments.simps) (simp add: f ih(1))
    then show ?thesis using False r ih by (intro exI [of _ "bs # bss"] exI [of _ lst]) auto
  qed
qed

text \<open>The carried tail is always shorter than one maximal chunk, so it fits the room reserved for it.\<close>

lemma carry_fits: "cdc_ok f \<Longrightarrow> length (drop (consumed (final_cuts f False view)) view) < CDC_MAX"
  using final_cuts_prefix [of f view "[]"] by simp

lemma scan_file_batches:
  assumes "cdc_ok f" and "\<forall>bs \<in> set bss. CDC_MAX \<le> length bs"
  shows "\<exists>bs. scan_file f blake3 (map (\<lambda>bs. Inr (bs, False)) bss @ [Inr (lst, True)]) carry out = Inr (out @ bs)
    \<and> concat bs = batch_of f blake3 (carry @ concat bss @ lst)"
  using assms(2)
proof (induction bss arbitrary: carry out)
  case Nil
  let ?view = "carry @ lst"
  show ?case
  proof (cases "?view = []")
    case True
    moreover from True assms(1) have "final_cuts f True ?view = []" by (simp add: final_cuts_def cdc_ok_def)
    ultimately show ?thesis using assms(1) by (intro exI [of _ "[]"]) (simp add: batch_of_def)
  next
    case False
    have "final_cuts f True ?view \<noteq> []" using final_progress(1) [OF assms(1) False] by simp
    moreover have "hash_batch blake3 ?view (final_cuts f True ?view) True = batch_of f blake3 ?view"
      unfolding hash_batch_copy batch_of_def final_cuts_eof(1) [OF assms(1)] ..
    ultimately show ?thesis by (intro exI [of _ "[batch_of f blake3 ?view]"]) (simp add: Let_def)
  qed
next
  case (Cons bs bss)
  let ?view = "carry @ bs"
  define cuts where "cuts = final_cuts f False ?view"
  have len: "CDC_MAX \<le> length ?view" using Cons.prems by simp
  then have "?view \<noteq> []" using CDC_MAX_pos by (metis leD list.size(3))
  then have ne: "cuts \<noteq> []" unfolding cuts_def using final_progress(1) [OF assms(1), of ?view False] len by simp
  from Cons.IH [of "drop (consumed cuts) ?view" "out @ [hash_batch blake3 ?view cuts True]"] Cons.prems
  obtain b where ih: "scan_file f blake3 (map (\<lambda>bs. Inr (bs, False)) bss @ [Inr (lst, True)]) (drop (consumed cuts) ?view)
      (out @ [hash_batch blake3 ?view cuts True]) = Inr ((out @ [hash_batch blake3 ?view cuts True]) @ b)"
    "concat b = batch_of f blake3 (drop (consumed cuts) ?view @ concat bss @ lst)" by auto
  have "hash_batch blake3 ?view cuts True @ batch_of f blake3 (drop (consumed cuts) ?view @ concat bss @ lst)
      = batch_of f blake3 (?view @ concat bss @ lst)"
    unfolding cuts_def by (rule window_split [OF assms(1)]) simp
  then show ?case
    using ne ih by (intro exI [of _ "hash_batch blake3 ?view cuts True # b"]) (simp add: Let_def flip: cuts_def)
qed

section \<open>Ordered emission\<close>

text \<open>
  \<open>arrived A st\<close>: the batches numbered in \<open>A\<close> have come back, all before \<open>nx\<close> are emitted and the others of \<open>A\<close> wait.
\<close>

definition arrived :: "'s sink \<Rightarrow> batch list \<Rightarrow> 's emitted \<Rightarrow> nat set \<Rightarrow> (nat, batch) btree \<times> nat \<times> 's emitted \<Rightarrow> bool" where
  "arrived sink bs em0 A st \<longleftrightarrow>
     (case st of (pending, nx, em) \<Rightarrow>
        (\<forall>k. bt_get pending k = (if k \<in> A \<and> nx \<le> k then Some (bs ! k) else None))
        \<and> {..<nx} \<subseteq> A \<and> A \<subseteq> {..<length bs} \<and> emit_batch sink (concat (take nx bs)) em0 = Inr em)"

lemma emit_prefix_error:
  assumes "emit_batch sink (concat (take n bs)) em0 = Inl e"
  shows "emit_batch sink (concat bs) em0 = Inl e"
proof -
  have "concat bs = concat (take n bs) @ concat (drop n bs)" by (simp flip: concat_append)
  then show ?thesis using assms by (simp add: emit_batch_append)
qed

lemma emit_ready_arrived:
  assumes "arrived sink bs em0 A (pending, nx, em)"
  shows "case emit_ready sink pending nx em of
     Inl e \<Rightarrow> emit_batch sink (concat bs) em0 = Inl e
   | Inr st \<Rightarrow> arrived sink bs em0 A st \<and> fst (snd st) \<notin> A"
  using assms
proof (induction sink pending nx em rule: emit_ready.induct)
  case (1 sink pending nx em)
  show ?case
  proof (cases "bt_get pending nx")
    case None
    then have "nx \<notin> A" using "1.prems" by (auto simp: arrived_def split: if_splits)
    then show ?thesis using "1.prems" None by (subst emit_ready.simps) simp
  next
    case (Some b)
    then have b: "nx \<in> A" "nx < length bs" "b = bs ! nx" using "1.prems" by (auto simp: arrived_def split: if_splits)
    have em: "emit_batch sink (concat (take (Suc nx) bs)) em0 = emit_batch sink b em"
      using "1.prems" b by (simp add: take_Suc_conv_app_nth arrived_def emit_batch_append)
    show ?thesis
    proof (cases "emit_batch sink b em")
      case (Inl e)
      then show ?thesis using emit_prefix_error [of sink "Suc nx" bs em0 e] em Some by (subst emit_ready.simps) simp
    next
      case (Inr em')
      have "arrived sink bs em0 A (bt_remove nx pending, Suc nx, em')"
        using "1.prems" b em Inr by (auto simp: arrived_def lessThan_Suc)
      from "1.IH" [OF Some Inr this] show ?thesis using Some Inr by (subst emit_ready.simps) simp
    qed
  qed
qed

lemma emit_arrivals_all:
  assumes "arrived sink bs em0 A st" and "fst (snd st) \<notin> A" and "distinct js" and "set js \<inter> A = {}" and "A \<union> set js = {..<length bs}"
  shows "case emit_arrivals sink bs js st of
     Inl e \<Rightarrow> emit_batch sink (concat bs) em0 = Inl e
   | Inr (_, nx, em) \<Rightarrow> nx = length bs \<and> emit_batch sink (concat bs) em0 = Inr em"
  using assms
proof (induction "js" arbitrary: st A)
  case Nil
  obtain pending n em where st: "st = (pending, n, em)" by (metis prod_cases3)
  have "n = length bs" using Nil st by (auto simp: arrived_def)
  then show ?case using Nil.prems(1) st by (simp add: arrived_def)
next
  case (Cons i js)
  obtain pending n em where st: "st = (pending, n, em)" by (metis prod_cases3)
  have sub: "{..<n} \<subseteq> A" "i \<notin> A" using Cons.prems(1,4) st by (auto simp: arrived_def)
  have i: "i < length bs" "n \<le> i" using Cons.prems(5) sub by (auto simp: not_less [symmetric])
  have "arrived sink bs em0 (insert i A) (bt_insert i (bs ! i) pending, n, em)"
    using Cons.prems(1) i st by (auto simp: arrived_def)
  note step = emit_ready_arrived [OF this]
  show ?case
  proof (cases "emit_ready sink (bt_insert i (bs ! i) pending) n em")
    case (Inl e)
    then show ?thesis using step st by simp
  next
    case (Inr st')
    have "case emit_arrivals sink bs js st' of
       Inl e \<Rightarrow> emit_batch sink (concat bs) em0 = Inl e
     | Inr (_, nx, em) \<Rightarrow> nx = length bs \<and> emit_batch sink (concat bs) em0 = Inr em"
      using step Inr Cons.prems by (intro Cons.IH [of "insert i A"]) auto
    then show ?thesis using st Inr by simp
  qed
qed

lemma chunk_file_emits:
  assumes "cdc_ok fastcdc" and "readable rds" and "\<And>n. distinct (order n) \<and> set (order n) = {..<n}"
  shows "chunk_file fastcdc blake3 order sink rds s = Some (emit_batch sink (batch_of fastcdc blake3 (content rds)) ([], 0, s))"
proof -
  obtain bss lst where segs: "read_segments SEG rds = Some (map (\<lambda>bs. Inr (bs, False)) bss @ [Inr (lst, True)])"
    "concat bss @ lst = content rds" "\<forall>bs \<in> set bss. SEG \<le> length bs"
    using read_segments_reads [OF assms(2), of SEG] by (auto simp: SEG_def)
  have "CDC_MAX \<le> SEG" by (simp add: CDC_MAX_def SEG_def)
  then have "\<forall>bs \<in> set bss. CDC_MAX \<le> length bs" using segs(3) by fastforce
  then obtain bs where scan: "scan_file fastcdc blake3 (map (\<lambda>bs. Inr (bs, False)) bss @ [Inr (lst, True)]) [] [] = Inr bs"
    "concat bs = batch_of fastcdc blake3 (content rds)"
    using scan_file_batches [OF assms(1), of bss blake3 lst "[]" "[]"] segs(2) by auto
  have "arrived sink bs ([], 0, s) {} ([], 0, [], 0, s)" by (simp add: arrived_def)
  from emit_arrivals_all [OF this, of "order (length bs)"] assms(3) [of "length bs"]
  have "case emit_arrivals sink bs (order (length bs)) ([], 0, [], 0, s) of
     Inl e \<Rightarrow> emit_batch sink (concat bs) ([], 0, s) = Inl e
   | Inr (_, nx, em) \<Rightarrow> nx = length bs \<and> emit_batch sink (concat bs) ([], 0, s) = Inr em" by simp
  then show ?thesis unfolding chunk_file_def segs(1) by (auto simp: scan split: sum.splits)
qed

section \<open>Properties\<close>

text \<open>
  C10. Chunking does not depend on how a file is read: for every cut scanner that keeps its contract, every split of the content into
  reads, every order in which the hashed batches come back, and every sink, the sliding window and the pipeline both
  terminate and do exactly what emitting the chunks of the whole content in order does, up to the first failure of the sink.
\<close>

theorem chunking_is_canonical:
  assumes "cdc_ok fastcdc" and "readable rds" and "\<And>n. distinct (order n) \<and> set (order n) = {..<n}"
  shows "chunk_stream_windowed fastcdc blake3 window sink rds s = Some (emit_batch sink (batch_of fastcdc blake3 (content rds)) ([], 0, s))
    \<and> chunk_file fastcdc blake3 order sink rds s = Some (emit_batch sink (batch_of fastcdc blake3 (content rds)) ([], 0, s))"
proof
  show "chunk_stream_windowed fastcdc blake3 window sink rds s = Some (emit_batch sink (batch_of fastcdc blake3 (content rds)) ([], 0, s))"
    using window_loop_emits [OF assms(1) _ assms(2), of _ False blake3 sink "[]"]
    by (simp add: chunk_stream_windowed_def max_def)
qed (rule chunk_file_emits [OF assms])

text \<open>A scanner that keeps the contract: cuts of the maximal size.\<close>

function fixed_cdc :: "bytes \<Rightarrow> cuts" where
  "fixed_cdc xs =
     (if xs = [] then []
      else let n = min CDC_MAX (length xs) in (0, n) # map (\<lambda>c. (n + fst c, snd c)) (fixed_cdc (drop n xs)))"
  by pat_completeness auto
termination
  by (relation "measure length") auto

declare fixed_cdc.simps [simp del]

lemma fixed_cdc_ok: "cdc_ok fixed_cdc"
proof -
  have Nil: "fixed_cdc [] = []" by (simp add: fixed_cdc.simps)
  have step: "fixed_cdc xs = (0, min CDC_MAX (length xs)) # map (\<lambda>c. (min CDC_MAX (length xs) + fst c, snd c))
      (fixed_cdc (drop (min CDC_MAX (length xs)) xs))" if "xs \<noteq> []" for xs
    using that by (subst fixed_cdc.simps) (simp add: Let_def)
  have "snd (hd (fixed_cdc xs)) = snd (hd (fixed_cdc ys))" if "xs \<noteq> []" "take CDC_MAX xs = take CDC_MAX ys" for xs ys
  proof -
    have "min CDC_MAX (length xs) = min CDC_MAX (length ys)" using arg_cong [OF that(2), of length] by (simp add: min.commute)
    moreover have "ys \<noteq> []" using that by (auto simp: CDC_MAX_def)
    ultimately show ?thesis using step [OF that(1)] step [of ys] by simp
  qed
  moreover have "\<exists>n. 0 < n \<and> n \<le> CDC_MAX \<and> n \<le> length xs \<and> fixed_cdc xs = (0, n) # map (\<lambda>c. (n + fst c, snd c)) (fixed_cdc (drop n xs))"
    if "xs \<noteq> []" for xs
    using step [OF that] that by (intro exI [of _ "min CDC_MAX (length xs)"]) simp
  ultimately show ?thesis using Nil unfolding cdc_ok_def by blast
qed

definition collect :: "bytes list sink" where
  "collect r d s = Inr (s @ [d])"

theorem chunking_is_canonical_witness:
  "chunk_stream_windowed fixed_cdc (\<lambda>d. d) 4 collect [Inr [1, 2], Inr [3]] []
     = Some (emit_batch collect (batch_of fixed_cdc (\<lambda>d. d) (content [Inr [1, 2], Inr [3]])) ([], 0, []))
   \<and> chunk_file fixed_cdc (\<lambda>d. d) (\<lambda>n. rev [0..<n]) collect [Inr [1, 2], Inr [3]] []
     = Some (emit_batch collect (batch_of fixed_cdc (\<lambda>d. d) (content [Inr [1, 2], Inr [3]])) ([], 0, []))"
  by (rule chunking_is_canonical [OF fixed_cdc_ok]) (auto simp: readable_def)

text \<open>What a collecting sink ends with: the chunk list of the slice routine, the size, and the content itself in pieces.\<close>

lemma chunk_len_widens: "length d < 2 ^ 32 \<Longrightarrow> ucast (of_nat (length d) :: u32) = (of_nat (length d) :: u64)"
  by (simp add: word_eq_iff_unsigned [where ?'a = nat] unsigned_ucast_eq unsigned_of_nat take_bit_nat_eq_self)

lemma emit_collect:
  assumes "\<forall>d \<in> set ds. length d < 2 ^ 32"
  shows "emit_batch collect (map (\<lambda>d. (chunk_ref_of blake3 d, d)) ds) (refs, n, s)
    = Inr (refs @ map (chunk_ref_of blake3) ds, n + of_nat (length (concat ds)), s @ ds)"
  using assms
proof (induction ds arbitrary: refs n s)
  case (Cons d ds)
  then show ?case using chunk_len_widens [of d] by (simp add: collect_def chunk_ref_of_def add.assoc)
qed simp

lemma chunks_collected:
  assumes "cdc_ok f"
  shows "emit_batch collect (batch_of f blake3 xs) ([], 0, []) = Inr (chunk_bytes f blake3 xs, of_nat (length xs), chunks f xs)"
proof -
  have "\<forall>d \<in> set (chunks f xs). length d < 2 ^ 32"
    using chunk_size [OF assms] by (fastforce simp: CDC_MAX_def)
  then show ?thesis using emit_collect [of "chunks f xs" blake3 "[]" 0 "[]"] concat_chunks [OF assms]
    by (simp add: batch_of_def chunk_bytes_chunks [OF assms])
qed

text \<open>The chunk list of a content passes the manifest check for its size.\<close>

lemma chunk_sum_chunks:
  assumes "\<forall>d \<in> set ds. length d < 2 ^ 32"
  shows "chunk_sum (map (chunk_ref_of blake3) ds) = length (concat ds)"
  using assms
  by (induction ds) (simp_all add: chunk_sum_def chunk_ref_of_def unsigned_of_nat take_bit_nat_eq_self)

lemma manifest_size_ok:
  assumes "cdc_ok fastcdc" and "length (chunks fastcdc xs) \<le> MAX_CHUNKS_PER_FILE"
  shows "check_manifest (chunk_bytes fastcdc blake3 xs) (of_nat (length xs)) = Ok ()"
proof -
  have small: "\<forall>d \<in> set (chunks fastcdc xs). length d < 2 ^ 32"
    using chunk_size [OF assms(1)] by (fastforce simp: CDC_MAX_def)
  have sum: "chunk_sum (chunk_bytes fastcdc blake3 xs) = length xs"
    using chunk_sum_chunks [OF small] by (simp add: chunk_bytes_chunks [OF assms(1)] concat_chunks [OF assms(1)])
  have "chunk_sum (chunk_bytes fastcdc blake3 xs) < 2 ^ 64"
    using assms(2) by (intro capped_sum_small) (simp add: chunk_bytes_chunks [OF assms(1)])
  then show ?thesis
    using assms(2) sum
    by (simp add: check_manifest_iff chunk_bytes_chunks [OF assms(1)] unsigned_of_nat take_bit_nat_eq_self)
qed

lemma many_chunks_le: "cdc_ok f \<Longrightarrow> length (chunks f xs) \<le> length xs"
proof -
  assume f: "cdc_ok f"
  have "length ds \<le> length (concat ds)" if "\<forall>d \<in> set ds. 0 < length d" for ds :: "bytes list"
    using that
  proof (induction ds)
    case (Cons d ds)
    then have "1 \<le> length d" "length ds \<le> length (concat ds)" by (auto simp: Suc_le_eq)
    then show ?case by simp
  qed simp
  from this [of "chunks f xs"] chunk_size [OF f] show ?thesis by (simp add: concat_chunks [OF f])
qed

end
