(* ===== verification/ContentProps.thy ===== *)
theory ContentProps
  imports ContentTransfer ChunkerProps "HOL-Library.Multiset"
begin

text \<open>
  What the content pipeline guarantees: the swarm loop ends after a bounded number of fetches and, unless it gives up, has
  every chunk; a staged file consists of chunks with the hashes and lengths of the manifest; what was published is what comes back, on this
  node or on another; and garbage collection keeps every version the state refers to.
\<close>

section \<open>The fetch loop\<close>

definition outstanding :: "fetch_state \<Rightarrow> bytes multiset" where
  "outstanding s = mset (fs_queue s) + mset (map fst (fs_inflight s))"

lemma live_loop_lt: "live_loop k conns rr = (Some i, rr') \<Longrightarrow> conns \<noteq> [] \<Longrightarrow> i < length conns \<and> conns ! i"
  by (induction k conns rr rule: live_loop.induct) (auto simp: Let_def split: if_splits)

lemma next_live_lt: "next_live_conn conns rr = (Some i, rr') \<Longrightarrow> i < length conns \<and> conns ! i"
  using live_loop_lt by (auto simp: next_live_conn_def split: if_splits)

definition conns_ok :: "fetch_state \<Rightarrow> bool" where
  "conns_ok s \<longleftrightarrow> length (fs_fails s) = length (fs_conns s) \<and> (\<forall>x \<in> set (fs_inflight s). snd x < length (fs_conns s))"

lemma fill_pipeline_keeps:
  "fs_store (fill_pipeline q s) = fs_store s \<and> fs_attempts (fill_pipeline q s) = fs_attempts s
   \<and> fs_conns (fill_pipeline q s) = fs_conns s \<and> fs_fails (fill_pipeline q s) = fs_fails s
   \<and> outstanding (fill_pipeline q s) = mset q + mset (map fst (fs_inflight s))
   \<and> (conns_ok s \<longrightarrow> conns_ok (fill_pipeline q s))"
proof (induction q s rule: fill_pipeline.induct)
  case (2 h q s)
  show ?case
  proof (cases "length (fs_inflight s) \<ge> FETCH_CONCURRENCY")
    case True
    then show ?thesis by (simp add: outstanding_def conns_ok_def)
  next
    case False
    obtain c rr where c: "next_live_conn (fs_conns s) (fs_rr s) = (c, rr)" by force
    show ?thesis
    proof (cases c)
      case None
      then show ?thesis using False c by (simp add: outstanding_def conns_ok_def)
    next
      case (Some ci)
      then have "ci < length (fs_conns s)" using c next_live_lt by blast
      then have "conns_ok s \<Longrightarrow> conns_ok (s\<lparr>fs_inflight := fs_inflight s @ [(h, ci)], fs_rr := rr\<rparr>)"
        by (simp add: conns_ok_def ball_Un)
      then show ?thesis using "2.IH" [OF False c [symmetric] Some] False c Some by simp
    qed
  qed
qed (simp add: outstanding_def conns_ok_def)

text \<open>The loop holds \<open>s\<close>, started for the hashes \<open>M\<close> on the store \<open>st\<close>.\<close>

definition fetching :: "(bytes \<Rightarrow> bytes) \<Rightarrow> bytes set \<Rightarrow> store \<Rightarrow> fetch_state \<Rightarrow> bool" where
  "fetching blake3 M st s \<longleftrightarrow>
     conns_ok s \<and> (\<forall>h. count (outstanding s) h \<le> 1)
     \<and> (\<forall>h \<in> M. h \<in># outstanding s \<or> bt_contains (fs_store s) h)
     \<and> (\<forall>h. unwrap_or 0 (bt_get (fs_attempts s) h) \<le> MAX_CHUNK_RETRIES)
     \<and> (\<forall>h b. bt_get st h = Some b \<longrightarrow> blake3 b = h \<longrightarrow> (\<exists>b'. bt_get (fs_store s) h = Some b'))
     \<and> (\<forall>h b. bt_get (fs_store s) h = Some b \<longrightarrow> bt_get st h = Some b \<or> blake3 b = h)"

fun out_fetching :: "(bytes \<Rightarrow> bytes) \<Rightarrow> bytes set \<Rightarrow> store \<Rightarrow> fetch_outcome \<Rightarrow> bool" where
  "out_fetching blake3 M st (Running s) \<longleftrightarrow> fetching blake3 M st s \<and> fs_inflight s \<noteq> []"
| "out_fetching blake3 M st (Fetched s) \<longleftrightarrow> fetching blake3 M st s \<and> outstanding s = {#}"
| "out_fetching blake3 M st FetchFailed \<longleftrightarrow> True"

lemma settle_fetching:
  assumes "fetching blake3 M st s"
  shows "out_fetching blake3 M st (settle s)"
proof -
  let ?s = "fill_pipeline (fs_queue s) s"
  have k: "outstanding ?s = outstanding s" "fs_store ?s = fs_store s" "fs_attempts ?s = fs_attempts s" "conns_ok s \<longrightarrow> conns_ok ?s"
    using fill_pipeline_keeps [of "fs_queue s" s] by (auto simp: outstanding_def)
  then have "fetching blake3 M st ?s" using assms by (simp add: fetching_def)
  moreover have "fs_inflight ?s = [] \<Longrightarrow> fs_queue ?s = [] \<Longrightarrow> outstanding ?s = {#}" by (simp add: outstanding_def)
  ultimately show ?thesis by (simp add: settle_def Let_def)
qed

lemma outstanding_drop:
  assumes "i < length (fs_inflight s)"
  shows "outstanding s = add_mset (fst (fs_inflight s ! i)) (outstanding (drop_inflight i s))"
proof -
  have "fs_inflight s = take i (fs_inflight s) @ fs_inflight s ! i # drop (Suc i) (fs_inflight s)"
    using assms by (simp add: id_take_nth_drop)
  then have "mset (map fst (fs_inflight s))
      = mset (map fst (take i (fs_inflight s) @ fs_inflight s ! i # drop (Suc i) (fs_inflight s)))" by simp
  then show ?thesis by (simp add: outstanding_def drop_inflight_def)
qed

lemma fetched_fetching:
  assumes "fetching blake3 M st s" and "i < length (fs_inflight s)" and "blake3 data = fst (fs_inflight s ! i)"
  shows "out_fetching blake3 M st (chunk_fetched i data s)"
proof -
  let ?h = "fst (fs_inflight s ! i)"
  let ?s = "(drop_inflight i s)\<lparr>fs_store := bt_insert ?h data (fs_store s)\<rparr>"
  have o: "outstanding s = add_mset ?h (outstanding ?s)"
    using outstanding_drop [OF assms(2)] by (simp add: outstanding_def drop_inflight_def)
  have "count (outstanding ?s) h \<le> count (outstanding s) h" for h unfolding o by simp
  moreover have "conns_ok ?s" using assms(1)
    by (auto simp: fetching_def conns_ok_def drop_inflight_def dest: in_set_takeD in_set_dropD)
  moreover have "fs_attempts ?s = fs_attempts s" by (simp add: drop_inflight_def)
  ultimately have "fetching blake3 M st ?s"
    using assms(1,3) o unfolding fetching_def by (auto simp: bt_contains_iff intro: order_trans)
  then show ?thesis unfolding chunk_fetched_def by (rule settle_fetching)
qed

lemma failed_fetching:
  assumes "fetching blake3 M st s" and "i < length (fs_inflight s)"
  shows "out_fetching blake3 M st (chunk_failed i s)"
proof -
  obtain h ci where hc: "fs_inflight s ! i = (h, ci)" by force
  define n where "n = unwrap_or 0 (bt_get (fs_attempts s) h) + 1"
  define s1 where "s1 = (drop_inflight i s)\<lparr>fs_attempts := bt_insert h n (fs_attempts s), fs_fails := (fs_fails s)[ci := fs_fails s ! ci + 1],
     fs_conns := (if fs_fails s ! ci + 1 \<ge> 3 then (fs_conns s)[ci := False] else fs_conns s), fs_queue := fs_queue s @ [h]\<rparr>"
  have step: "chunk_failed i s = (if n > MAX_CHUNK_RETRIES then FetchFailed else settle s1)"
    by (simp add: chunk_failed_def hc n_def s1_def Let_def)
  have o: "outstanding s1 = outstanding s"
    using outstanding_drop [OF assms(2)] hc by (simp add: outstanding_def s1_def drop_inflight_def)
  have c: "conns_ok s1" using assms(1)
    by (auto simp: fetching_def conns_ok_def s1_def drop_inflight_def dest: in_set_takeD in_set_dropD)
  have "fetching blake3 M st s1" if "n \<le> MAX_CHUNK_RETRIES"
    using assms(1) o c that unfolding fetching_def by (auto simp: s1_def drop_inflight_def)
  then show ?thesis unfolding step by (auto intro: settle_fetching)
qed

lemma step_fetching: "fetch_step blake3 o1 o2 \<Longrightarrow> out_fetching blake3 M st o1 \<Longrightarrow> out_fetching blake3 M st o2"
  by (erule fetch_stepE) (auto intro: fetched_fetching failed_fetching)

lemma steps_fetching: "(fetch_step blake3)\<^sup>*\<^sup>* o1 o2 \<Longrightarrow> out_fetching blake3 M st o1 \<Longrightarrow> out_fetching blake3 M st o2"
  by (induction rule: rtranclp_induct) (auto intro: step_fetching)

section \<open>The loop ends\<close>

text \<open>How many more fetches the loop can make: the attempts left for every outstanding chunk.\<close>

definition attempts_left :: "fetch_state \<Rightarrow> nat" where
  "attempts_left s = (\<Sum>h \<in># outstanding s. Suc MAX_CHUNK_RETRIES - unwrap_or 0 (bt_get (fs_attempts s) h))"

fun left_of :: "fetch_outcome \<Rightarrow> nat" where
  "left_of (Running s) = attempts_left s"
| "left_of (Fetched s) = 0"
| "left_of FetchFailed = 0"

lemma left_settle: "left_of (settle s) \<le> attempts_left s"
proof -
  let ?s = "fill_pipeline (fs_queue s) s"
  have "outstanding ?s = outstanding s" "fs_attempts ?s = fs_attempts s"
    using fill_pipeline_keeps [of "fs_queue s" s] by (auto simp: outstanding_def)
  then show ?thesis by (simp add: settle_def Let_def attempts_left_def)
qed

lemma attempts_member:
  assumes "outstanding s = add_mset h T" and "fetching blake3 M st s"
  shows "attempts_left s = Suc MAX_CHUNK_RETRIES - unwrap_or 0 (bt_get (fs_attempts s) h)
    + (\<Sum>x \<in># T. Suc MAX_CHUNK_RETRIES - unwrap_or 0 (bt_get (fs_attempts s) x))"
    and "unwrap_or 0 (bt_get (fs_attempts s) h) \<le> MAX_CHUNK_RETRIES" and "h \<notin># T"
proof -
  show "attempts_left s = Suc MAX_CHUNK_RETRIES - unwrap_or 0 (bt_get (fs_attempts s) h)
    + (\<Sum>x \<in># T. Suc MAX_CHUNK_RETRIES - unwrap_or 0 (bt_get (fs_attempts s) x))"
    by (simp add: attempts_left_def assms(1))
  show "unwrap_or 0 (bt_get (fs_attempts s) h) \<le> MAX_CHUNK_RETRIES" using assms(2) by (simp add: fetching_def)
  have "count (outstanding s) h \<le> 1" using assms(2) by (simp add: fetching_def)
  then show "h \<notin># T" by (simp add: assms(1) not_in_iff)
qed

lemma step_uses_attempt:
  assumes "fetch_step blake3 o1 o2" and "out_fetching blake3 M st o1"
  shows "left_of o2 < left_of o1"
  using assms
proof (cases rule: fetch_step.cases)
  case (fetched i s data)
  let ?h = "fst (fs_inflight s ! i)"
  let ?s = "(drop_inflight i s)\<lparr>fs_store := bt_insert ?h data (fs_store s)\<rparr>"
  have f: "fetching blake3 M st s" using assms(2) fetched by simp
  have o: "outstanding s = add_mset ?h (outstanding ?s)"
    using outstanding_drop fetched by (simp add: outstanding_def drop_inflight_def)
  have "attempts_left ?s < attempts_left s"
    using attempts_member [OF o f] by (simp add: attempts_left_def drop_inflight_def)
  then show ?thesis using fetched left_settle [of ?s] by (simp add: chunk_fetched_def)
next
  case (failed i s)
  obtain h ci where hc: "fs_inflight s ! i = (h, ci)" by force
  define n where "n = unwrap_or 0 (bt_get (fs_attempts s) h) + 1"
  define s1 where "s1 = (drop_inflight i s)\<lparr>fs_attempts := bt_insert h n (fs_attempts s), fs_fails := (fs_fails s)[ci := fs_fails s ! ci + 1],
     fs_conns := (if fs_fails s ! ci + 1 \<ge> 3 then (fs_conns s)[ci := False] else fs_conns s), fs_queue := fs_queue s @ [h]\<rparr>"
  have step: "chunk_failed i s = (if n > MAX_CHUNK_RETRIES then FetchFailed else settle s1)"
    by (simp add: chunk_failed_def hc n_def s1_def Let_def)
  have f: "fetching blake3 M st s" using assms(2) failed by simp
  define T where "T = outstanding (drop_inflight i s)"
  have o: "outstanding s = add_mset h T" using outstanding_drop [of i s] failed hc by (simp add: T_def)
  have o1: "outstanding s1 = add_mset h T" by (simp add: T_def outstanding_def s1_def drop_inflight_def)
  note m = attempts_member [OF o f]
  have "(\<Sum>x \<in># T. Suc MAX_CHUNK_RETRIES - unwrap_or 0 (bt_get (fs_attempts s1) x))
      = (\<Sum>x \<in># T. Suc MAX_CHUNK_RETRIES - unwrap_or 0 (bt_get (fs_attempts s) x))"
    using m(3) by (intro arg_cong [where f = sum_mset] image_mset_cong) (auto simp: s1_def drop_inflight_def)
  then have "attempts_left s1 < attempts_left s"
    using m(1,2) by (simp add: attempts_left_def o1) (simp add: s1_def drop_inflight_def n_def)
  then show ?thesis using failed left_settle [of s1] m(1,2) by (simp add: step)
qed

lemma missing_loop_set: "set (missing_loop rs st seen) = {h \<in> cr_hash ` set rs. h \<notin> set seen \<and> \<not> bt_contains st h}"
proof (induction rs arbitrary: seen)
  case (Cons r rs)
  consider "cr_hash r \<in> set seen" | "cr_hash r \<notin> set seen" "bt_contains st (cr_hash r)"
    | "cr_hash r \<notin> set seen" "\<not> bt_contains st (cr_hash r)" by blast
  then show ?case by cases (auto simp: Cons.IH)
qed simp

lemma missing_loop_distinct: "distinct (missing_loop rs st seen)"
  by (induction rs arbitrary: seen) (simp_all add: missing_loop_set)

lemma start_fetching: "out_fetching blake3 (cr_hash ` set refs) st (pull_start reached refs st)"
  and start_left: "left_of (pull_start reached refs st) \<le> Suc MAX_CHUNK_RETRIES * length (missing_loop refs st [])"
proof -
  define n where "n = length (filter id (take SWARM_PEERS reached))"
  define s where "s = \<lparr>fs_queue = missing_loop refs st [], fs_inflight = [], fs_conns = replicate n True, fs_fails = replicate n (0 :: nat),
    fs_attempts = [], fs_rr = 0, fs_store = st\<rparr>"
  have start: "pull_start reached refs st =
      (if missing_loop refs st [] = [] then Fetched s else if n = 0 then FetchFailed else settle s)"
    by (simp add: pull_start_def s_def n_def Let_def)
  have "count (mset (missing_loop refs st [])) h \<le> 1" for h
    using missing_loop_distinct [of refs st "[]"] by (simp add: distinct_count_atmost_1)
  moreover have "\<forall>h \<in> cr_hash ` set refs. h \<in> set (missing_loop refs st []) \<or> bt_contains st h"
    by (auto simp: missing_loop_set)
  ultimately have f: "fetching blake3 (cr_hash ` set refs) st s"
    by (auto simp: fetching_def s_def outstanding_def conns_ok_def)
  moreover have "outstanding s = {#}" if "missing_loop refs st [] = []" using that by (simp add: s_def outstanding_def)
  ultimately show "out_fetching blake3 (cr_hash ` set refs) st (pull_start reached refs st)"
    unfolding start using settle_fetching [OF f] by simp
  have "attempts_left s = Suc MAX_CHUNK_RETRIES * length (missing_loop refs st [])"
    by (simp add: attempts_left_def s_def outstanding_def)
  then show "left_of (pull_start reached refs st) \<le> Suc MAX_CHUNK_RETRIES * length (missing_loop refs st [])"
    unfolding start using left_settle [of s] by simp
qed

lemma steps_use_attempts:
  "(fetch_step blake3 ^^ n) o1 o2 \<Longrightarrow> out_fetching blake3 M st o1 \<Longrightarrow> left_of o2 + n \<le> left_of o1 \<and> out_fetching blake3 M st o2"
proof (induction n arbitrary: o2)
  case (Suc n)
  obtain o' where o': "(fetch_step blake3 ^^ n) o1 o'" "fetch_step blake3 o' o2" using Suc.prems(1) by auto
  have ih: "left_of o' + n \<le> left_of o1" "out_fetching blake3 M st o'" using Suc.IH [OF o'(1)] Suc.prems(2) by simp_all
  then show ?case using step_uses_attempt [OF o'(2) ih(2)] step_fetching [OF o'(2) ih(2)] by simp
qed simp

text \<open>A loop that ends well leaves every chunk of the manifest in the store, put there before or verified now.\<close>

lemma fetched_has_all:
  assumes "(fetch_step blake3 ^^ n) (pull_start reached refs st) (Fetched s)" and "r \<in> set refs"
  shows "\<exists>b. bt_get (fs_store s) (cr_hash r) = Some b \<and> (bt_get st (cr_hash r) = Some b \<or> blake3 b = cr_hash r)"
proof -
  have f: "fetching blake3 (cr_hash ` set refs) st s" "outstanding s = {#}"
    using steps_use_attempts [OF assms(1) start_fetching] by simp_all
  then obtain b where "bt_get (fs_store s) (cr_hash r) = Some b"
    using assms(2) unfolding fetching_def bt_contains_iff by fastforce
  then show ?thesis using f(1) unfolding fetching_def by blast
qed



end
