(* ===== verification/ContentSafety.thy ===== *)
theory ContentSafety
  imports ContentProps
begin

text \<open>
  Content end to end: what is published is what this node materializes again and what any other node stages, whoever
  served the chunks; garbage collection keeps everything the state refers to; and a file of more chunks than the cap is published
  although nobody can take it.
\<close>

section \<open>Publishing\<close>

lemma emit_store_sink:
  assumes "\<forall>d \<in> set ds. length d < 2 ^ 32 \<and> add_ok d"
  shows "emit_batch (store_sink blake3 add_ok) (map (\<lambda>d. (chunk_ref_of blake3 d, d)) ds) (refs, n, st, hs)
    = Inr (refs @ map (chunk_ref_of blake3) ds, n + of_nat (length (concat ds)), fold (add_bytes blake3) ds st, hs @ map blake3 ds)"
  using assms
proof (induction ds arbitrary: refs n st hs)
  case (Cons d ds)
  then show ?case using chunk_len_widens [of d] by (simp add: store_sink_def chunk_ref_of_def add.assoc)
qed simp

lemma stored_before: "bt_get (fold (add_bytes blake3) ds st) h = bt_get st h" if "h \<notin> blake3 ` set ds"
  using that by (induction ds arbitrary: st) (simp_all add: add_bytes_def)

lemma stored_chunk: "bt_get (fold (add_bytes blake3) ds st) (blake3 d) = Some d" if "d \<in> set ds" and "\<And>b. blake3 b = blake3 d \<Longrightarrow> b = d"
  using that(1)
proof (induction ds arbitrary: st)
  case (Cons a ds)
  show ?case
  proof (cases "d \<in> set ds")
    case False
    then have "blake3 d \<notin> blake3 ` set ds" using that(2) by (metis imageE)
    then have "bt_get (fold (add_bytes blake3) ds (add_bytes blake3 d st)) (blake3 d) = bt_get (add_bytes blake3 d st) (blake3 d)"
      by (rule stored_before)
    also have "\<dots> = Some d" by (simp add: add_bytes_def)
    finally show ?thesis using Cons.prems False by auto
  qed (simp add: Cons.IH)
qed simp

lemma zip_own_hashes: "\<not> list_ex (\<lambda>(h, r). h \<noteq> cr_hash r) (zip (map blake3 ds) (map (chunk_ref_of blake3) ds))"
  by (induction ds) (simp_all add: chunk_ref_of_def)

text \<open>The chunking of a file as the publisher stores it.\<close>

lemma publish_local_eq:
  assumes "cdc_ok fastcdc" and "readable rds" and "\<And>n. distinct (order n) \<and> set (order n) = {..<n}"
    and "\<forall>d \<in> set (chunks fastcdc (content rds)). add_ok d"
  shows "publish_local fastcdc blake3 add_ok ser_refs order rds st =
    Some (case build_manifest blake3 add_ok ser_refs (chunk_bytes fastcdc blake3 (content rds))
                (fold (add_bytes blake3) (chunks fastcdc (content rds)) st) of
            Inl e \<Rightarrow> Inl e | Inr (m, st2) \<Rightarrow> Inr (m, of_nat (length (content rds)), st2))"
proof -
  let ?ds = "chunks fastcdc (content rds)"
  have "\<forall>d \<in> set ?ds. length d < 2 ^ 32 \<and> add_ok d"
    using chunk_size [OF assms(1)] assms(4) by (fastforce simp: CDC_MAX_def)
  from emit_store_sink [OF this, of blake3 "[]" 0 st "[]"]
  have "chunk_file fastcdc blake3 order (store_sink blake3 add_ok) rds (st, [])
      = Some (Inr (map (chunk_ref_of blake3) ?ds, of_nat (length (content rds)), fold (add_bytes blake3) ?ds st, map blake3 ?ds))"
    using chunk_file_emits [OF assms(1-3), of blake3 "store_sink blake3 add_ok" "(st, [])"] by (simp add: batch_of_def concat_chunks [OF assms(1)])
  then show ?thesis
    using zip_own_hashes [of blake3 ?ds] by (simp add: publish_local_def chunk_bytes_chunks [OF assms(1)])
qed

section \<open>Taking it back\<close>

lemma assemble_chunks:
  "\<forall>d \<in> set ds. bt_get st (blake3 d) = Some d \<Longrightarrow> assemble (map (chunk_ref_of blake3) ds) st = Inr (concat ds)"
  by (induction ds) (simp_all add: chunk_ref_of_def)

text \<open>
  A content that fits: few enough chunks, a manifest that postcard reads back, and no second preimages among the chunks
  and the manifest.
\<close>

definition transferable :: "(bytes \<Rightarrow> cuts) \<Rightarrow> (bytes \<Rightarrow> bytes) \<Rightarrow> (chunk_ref list \<Rightarrow> bytes option) \<Rightarrow> (bytes \<Rightarrow> chunk_ref list option) \<Rightarrow> bytes \<Rightarrow> bool" where
  "transferable fastcdc blake3 ser_refs de_refs xs \<longleftrightarrow>
     length (chunks fastcdc xs) \<le> MAX_CHUNKS_PER_FILE
     \<and> (\<exists>bs. ser_refs (chunk_bytes fastcdc blake3 xs) = Some bs \<and> de_refs bs = Some (chunk_bytes fastcdc blake3 xs)
          \<and> length bs \<le> MAX_MANIFEST_BYTES \<and> (\<forall>d \<in> insert bs (set (chunks fastcdc xs)). \<forall>b. blake3 b = blake3 d \<longrightarrow> b = d))"

text \<open>The manifest of a published file: in line, or a blob that decodes to the chunk list.\<close>

definition manifest_for :: "(bytes \<Rightarrow> bytes) \<Rightarrow> (chunk_ref list \<Rightarrow> bytes option) \<Rightarrow> chunk_ref list \<Rightarrow> manifest_ref" where
  "manifest_for blake3 ser_refs refs = (if length refs \<le> INLINE_MANIFEST_MAX then Inline refs else Blob (blake3 (the (ser_refs refs))))"

lemma build_manifest_ok:
  assumes "ser_refs refs = Some bs" and "add_ok bs"
  shows "build_manifest blake3 add_ok ser_refs refs st =
    Inr (manifest_for blake3 ser_refs refs, if length refs \<le> INLINE_MANIFEST_MAX then st else add_bytes blake3 bs st)"
  by (simp add: build_manifest_def manifest_for_def assms)

lemma resolve_published:
  assumes "cdc_ok fastcdc" and "transferable fastcdc blake3 ser_refs de_refs xs"
    and "\<And>b. length (chunk_bytes fastcdc blake3 xs) > INLINE_MANIFEST_MAX \<Longrightarrow> ser_refs (chunk_bytes fastcdc blake3 xs) = Some b \<Longrightarrow> bt_get st (blake3 b) = Some b"
  shows "resolve_manifest de_refs fetch (manifest_for blake3 ser_refs (chunk_bytes fastcdc blake3 xs)) (of_nat (length xs)) st
    = Inr (chunk_bytes fastcdc blake3 xs, st)"
proof -
  obtain bs where bs: "ser_refs (chunk_bytes fastcdc blake3 xs) = Some bs" "de_refs bs = Some (chunk_bytes fastcdc blake3 xs)"
    "length bs \<le> MAX_MANIFEST_BYTES" "length (chunks fastcdc xs) \<le> MAX_CHUNKS_PER_FILE"
    using assms(2) by (auto simp: transferable_def)
  have c: "check_refs (chunk_bytes fastcdc blake3 xs) (of_nat (length xs)) st' = Inr (chunk_bytes fastcdc blake3 xs, st')" for st'
    using manifest_size_ok [OF assms(1) bs(4), of blake3] by (simp add: check_refs_def)
  have "guard_count (chunk_bytes fastcdc blake3 xs) = Ok ()"
    using bs(4) by (simp add: guard_count_def chunk_bytes_chunks [OF assms(1)])
  then show ?thesis
    using assms(3) [OF _ bs(1)] bs(1-3)
    by (simp add: resolve_manifest_def manifest_for_def c manifest_blob_def bt_contains_iff decode_blob_def)
qed

text \<open>
  A file that was published comes back unchanged: publishing succeeds whenever the store accepts the chunks, the size it reports is
  the length of the file, and materializing the manifest from the store it leaves gives exactly the bytes that were read,
  however they were read and in whatever order the batches were hashed.
\<close>

theorem publish_then_materialize:
  assumes "cdc_ok fastcdc" and "readable rds" and "\<And>n. distinct (order n) \<and> set (order n) = {..<n}" and "\<And>d. add_ok d"
    and "transferable fastcdc blake3 ser_refs de_refs (content rds)"
  shows "\<exists>m st'. publish_local fastcdc blake3 add_ok ser_refs order rds st = Some (Inr (m, of_nat (length (content rds)), st'))
    \<and> materialize de_refs m (of_nat (length (content rds))) st' = Inr (content rds)"
proof -
  let ?xs = "content rds"
  let ?refs = "chunk_bytes fastcdc blake3 ?xs"
  let ?st = "fold (add_bytes blake3) (chunks fastcdc ?xs) st"
  obtain bs where bs: "ser_refs ?refs = Some bs" and pre: "\<And>b d. d \<in> insert bs (set (chunks fastcdc ?xs)) \<Longrightarrow> blake3 b = blake3 d \<Longrightarrow> b = d"
    using assms(5) by (auto simp: transferable_def)
  define st' where "st' = (if length ?refs \<le> INLINE_MANIFEST_MAX then ?st else add_bytes blake3 bs ?st)"
  have p: "publish_local fastcdc blake3 add_ok ser_refs order rds st
      = Some (Inr (manifest_for blake3 ser_refs ?refs, of_nat (length ?xs), st'))"
    using publish_local_eq [OF assms(1-3)] assms(4) by (simp add: build_manifest_ok [of ser_refs, OF bs] st'_def)
  have "bt_get st' (blake3 d) = Some d" if "d \<in> set (chunks fastcdc ?xs)" for d
    using stored_chunk [of d "chunks fastcdc ?xs" blake3 st] pre [of d] pre [of bs d] that by (auto simp: st'_def add_bytes_def)
  then have "assemble ?refs st' = Inr ?xs"
    using assemble_chunks [of "chunks fastcdc ?xs" st' blake3] by (simp add: chunk_bytes_chunks [OF assms(1)] concat_chunks [OF assms(1)])
  moreover have "resolve_manifest de_refs None (manifest_for blake3 ser_refs ?refs) (of_nat (length ?xs)) st' = Inr (?refs, st')"
    using bs by (intro resolve_published [OF assms(1,5)]) (simp add: st'_def add_bytes_def)
  ultimately have "materialize de_refs (manifest_for blake3 ser_refs ?refs) (of_nat (length ?xs)) st' = Inr ?xs"
    by (simp add: materialize_def)
  then show ?thesis using p by blast
qed

lemma fixed_chunks_small: "xs \<noteq> [] \<Longrightarrow> length xs \<le> CDC_MAX \<Longrightarrow> chunks fixed_cdc xs = [xs]"
  by (subst chunks_step [of fixed_cdc _ "length xs"]) (simp_all add: fixed_cdc.simps [of xs] fixed_cdc.simps [of "[]"] chunks_Nil fixed_cdc_ok)

lemma transferable_small:
  assumes "xs \<noteq> []" and "length xs \<le> CDC_MAX"
  shows "transferable fixed_cdc (\<lambda>d. d) (\<lambda>_. Some [0]) (\<lambda>_. Some [chunk_ref_of (\<lambda>d. d) xs]) xs"
  using fixed_chunks_small [OF assms]
  by (simp add: transferable_def chunk_bytes_chunks fixed_cdc_ok MAX_CHUNKS_PER_FILE_def MAX_MANIFEST_BYTES_def)

theorem publish_then_materialize_witness:
  "\<exists>m st'. publish_local fixed_cdc (\<lambda>d. d) (\<lambda>_. True) (\<lambda>_. Some [0]) (\<lambda>n. rev [0..<n]) [Inr [1, 2], Inr [3]] [] = Some (Inr (m, 3, st'))
    \<and> materialize (\<lambda>_. Some [chunk_ref_of (\<lambda>d. d) [1, 2, 3]]) m 3 st' = Inr [1, 2, 3]"
  using publish_then_materialize [of fixed_cdc "[Inr [1, 2], Inr [3]]" "\<lambda>n. rev [0..<n]" "\<lambda>_. True" "\<lambda>d. d" "\<lambda>_. Some [0]"
      "\<lambda>_. Some [chunk_ref_of (\<lambda>d. d) [1, 2, 3]]" "[]"] fixed_cdc_ok transferable_small [of "[1, 2, 3]"]
  by (simp add: readable_def content_def CDC_MAX_def atLeast0LessThan)

section \<open>Pulling it elsewhere\<close>

definition store_ok :: "(bytes \<Rightarrow> bytes) \<Rightarrow> store \<Rightarrow> bool" where
  "store_ok blake3 st \<longleftrightarrow> (\<forall>h b. bt_get st h = Some b \<longrightarrow> blake3 b = h)"

lemma store_ok_fetch: "store_ok blake3 st \<Longrightarrow> blake3 b = h \<Longrightarrow> store_ok blake3 (bt_insert h b st)"
  by (simp add: store_ok_def)

text \<open>The store's fetch verifies what a peer serves: it is filed under its own hash or refused.\<close>

definition serves_verified :: "(bytes \<Rightarrow> bytes) \<Rightarrow> (bytes \<Rightarrow> bytes option) option \<Rightarrow> bool" where
  "serves_verified blake3 dialled \<longleftrightarrow> (\<forall>f h b. dialled = Some f \<longrightarrow> f h = Some b \<longrightarrow> blake3 b = h)"

text \<open>What a pull takes as the chunk list of a published record.\<close>

lemma pull_refs_published:
  assumes "cdc_ok fastcdc" and "transferable fastcdc blake3 ser_refs de_refs xs" and "store_ok blake3 st"
    and "fr_manifest rc = manifest_for blake3 ser_refs (chunk_bytes fastcdc blake3 xs)" and "fr_size rc = of_nat (length xs)"
    and "serves_verified blake3 dialled"
  shows "pull_refs de_refs dialled rc st = Inl TFetch
    \<or> (\<exists>st1. pull_refs de_refs dialled rc st = Inr (chunk_bytes fastcdc blake3 xs, st1) \<and> store_ok blake3 st1)"
proof (cases "length (chunk_bytes fastcdc blake3 xs) \<le> INLINE_MANIFEST_MAX")
  case True
  then show ?thesis using assms(3,4) by (simp add: pull_refs_def manifest_for_def)
next
  case False
  obtain bs where bs: "ser_refs (chunk_bytes fastcdc blake3 xs) = Some bs" and pre: "\<And>b. blake3 b = blake3 bs \<Longrightarrow> b = bs"
    using assms(2) by (auto simp: transferable_def)
  have blob: "manifest_for blake3 ser_refs (chunk_bytes fastcdc blake3 xs) = Blob (blake3 bs)" using False bs by (simp add: manifest_for_def)
  have res: "resolve_manifest de_refs fetch (Blob (blake3 bs)) (of_nat (length xs)) st' = Inr (chunk_bytes fastcdc blake3 xs, st')"
    if "bt_get st' (blake3 bs) = Some bs" for st' fetch
    using that bs unfolding blob [symmetric] by (intro resolve_published [OF assms(1,2)]) simp
  show ?thesis
  proof (cases dialled)
    case (Some f)
    show ?thesis
    proof (cases "bt_get st (blake3 bs)")
      case None
      show ?thesis
      proof (cases "f (blake3 bs)")
        case (Some b)
        then have b: "b = bs" using assms(6) \<open>dialled = Some f\<close> pre unfolding serves_verified_def by blast
        have "resolve_manifest de_refs dialled (Blob (blake3 bs)) (of_nat (length xs)) st
          = resolve_manifest de_refs dialled (Blob (blake3 bs)) (of_nat (length xs)) (bt_insert (blake3 bs) bs st)"
          using None Some b \<open>dialled = Some f\<close> by (simp add: resolve_manifest_def manifest_blob_def bt_contains_iff)
        then show ?thesis
          using res [of "bt_insert (blake3 bs) bs st"] \<open>dialled = Some f\<close> store_ok_fetch [OF assms(3), of bs]
          by (simp add: pull_refs_def assms(4,5) blob)
      qed (use None \<open>dialled = Some f\<close> in \<open>simp add: pull_refs_def assms(4) blob resolve_manifest_def manifest_blob_def bt_contains_iff\<close>)
    next
      case (Some b)
      then have "b = bs" using assms(3) pre unfolding store_ok_def by blast
      then show ?thesis using Some res [of st] \<open>dialled = Some f\<close> assms(3) by (simp add: pull_refs_def assms(4,5) blob)
    qed
  qed (simp add: pull_refs_def assms(4) blob)
qed

lemma staged_published:
  assumes "cdc_ok fastcdc" and "transferable fastcdc blake3 ser_refs de_refs xs" and "store_ok blake3 st1"
    and "(fetch_step blake3)\<^sup>*\<^sup>* (pull_start reached (chunk_bytes fastcdc blake3 xs) st1) (Fetched s)"
  shows "assemble (chunk_bytes fastcdc blake3 xs) (fs_store s) = Inr xs"
proof -
  let ?ds = "chunks fastcdc xs"
  obtain n where n: "(fetch_step blake3 ^^ n) (pull_start reached (chunk_bytes fastcdc blake3 xs) st1) (Fetched s)"
    using assms(4) by (auto simp: rtranclp_power)
  have "bt_get (fs_store s) (blake3 d) = Some d" if d: "d \<in> set ?ds" for d
  proof -
    have "chunk_ref_of blake3 d \<in> set (chunk_bytes fastcdc blake3 xs)" using d by (simp add: chunk_bytes_chunks [OF assms(1)])
    from fetched_has_all [OF n this] obtain b where b: "bt_get (fs_store s) (blake3 d) = Some b"
      "bt_get st1 (blake3 d) = Some b \<or> blake3 b = blake3 d" by (auto simp: chunk_ref_of_def)
    then have "blake3 b = blake3 d" using assms(3) by (auto simp: store_ok_def)
    then show ?thesis using b(1) assms(2) d by (auto simp: transferable_def)
  qed
  then show ?thesis
    using assemble_chunks [of ?ds "fs_store s" blake3] by (simp add: chunk_bytes_chunks [OF assms(1)] concat_chunks [OF assms(1)])
qed


definition demo_record :: file_record where
  "demo_record = \<lparr>fr_size = 3, fr_manifest = Inline [chunk_ref_of (\<lambda>d. d) [1, 2, 3]], fr_vv = [], fr_deleted = False, fr_updated_at_ms = 0\<rparr>"


section \<open>Garbage collection\<close>

lemma assemble_cong: "(\<And>r. r \<in> set refs \<Longrightarrow> bt_get st1 (cr_hash r) = bt_get st2 (cr_hash r)) \<Longrightarrow> assemble refs st1 = assemble refs st2"
  by (induction refs) (simp_all split: option.split)

text \<open>A store in which the live blobs of a manifest are what they were materializes it as before.\<close>

lemma materialize_live:
  assumes "\<And>h. h \<in> set (manifest_live de_refs st m) \<Longrightarrow> bt_get st' h = bt_get st h"
  shows "materialize de_refs m expected st' = materialize de_refs m expected st"
proof (cases m)
  case (Inline refs)
  then have "assemble refs st' = assemble refs st" using assms by (intro assemble_cong) (simp add: manifest_live_def)
  then show ?thesis using Inline by (simp add: materialize_def resolve_manifest_def check_refs_def split: sum.split)
next
  case (Blob h)
  have h: "bt_get st' h = bt_get st h" using assms Blob by (simp add: manifest_live_def)
  show ?thesis
  proof (cases "Option.bind (bt_get st h) de_refs")
    case None
    then show ?thesis using h Blob
      by (auto simp: materialize_def resolve_manifest_def manifest_blob_def bt_contains_iff decode_blob_def Option.bind_eq_None_conv split: option.split)
  next
    case (Some refs)
    have "assemble refs st' = assemble refs st" using assms Blob Some by (intro assemble_cong) (simp add: manifest_live_def)
    moreover obtain bs where "bt_get st h = Some bs" "de_refs bs = Some refs" using Some by (auto simp: Option.bind_eq_Some_conv)
    ultimately show ?thesis using h Blob
      by (simp add: materialize_def resolve_manifest_def manifest_blob_def bt_contains_iff decode_blob_def check_refs_def split: sum.split)
  qed
qed

definition referenced :: "(relpath, file_record) btree \<Rightarrow> (relpath, version_entry list) btree \<Rightarrow> (relpath, file_record) btree \<Rightarrow> manifest_ref set" where
  "referenced files history pulling =
     fr_manifest ` snd ` set files \<union> ve_manifest ` (\<Union>vs \<in> snd ` set history. set vs) \<union> fr_manifest ` snd ` set pulling"

lemma live_subset: "m \<in> referenced files history pulling \<Longrightarrow> set (manifest_live de_refs st m) \<subseteq> set (compute_live de_refs files history pulling st)"
  unfolding referenced_def compute_live_def by fastforce

text \<open>
  C11. Garbage collection loses nothing that can still be asked for: after a sweep with the computed protected set, every manifest of
  the index, of the kept history and of the pulls in flight materializes exactly as it did before, or fails as it did before.
\<close>

theorem gc_keeps_every_version:
  assumes "bt_wf st" and "m \<in> referenced files history pulling"
  shows "materialize de_refs m expected (sweep_store (compute_live de_refs files history pulling st) st) = materialize de_refs m expected st"
proof (rule materialize_live)
  fix h assume "h \<in> set (manifest_live de_refs st m)"
  then have "h \<in> set (compute_live de_refs files history pulling st)" using live_subset assms(2) by blast
  then show "bt_get (sweep_store (compute_live de_refs files history pulling st) st) h = bt_get st h"
    by (simp add: sweep_store_def bt_get_retain [OF assms(1)] split: option.split)
qed

theorem gc_keeps_every_version_witness:
  "materialize (\<lambda>_. None) (fr_manifest demo_record) 3
     (sweep_store (compute_live (\<lambda>_. None) [(''a'', demo_record)] [] [] [([1, 2, 3], [1, 2, 3]), ([4], [4])]) [([1, 2, 3], [1, 2, 3]), ([4], [4])])
   = materialize (\<lambda>_. None) (fr_manifest demo_record) 3 [([1, 2, 3], [1, 2, 3]), ([4], [4])]"
  by (rule gc_keeps_every_version) (simp_all add: bt_wf_def referenced_def)

section \<open>The chunk cap\<close>

text \<open>
  The cap on chunks is checked by those who take a manifest, not by the one who makes it: a file of more than the capped number of chunks
  is published like any other, and its manifest is refused ever after, by the publisher's own restore and comparison too.
\<close>

theorem oversized_file_published_unusable:
  assumes "cdc_ok fastcdc" and "readable rds" and "\<And>n. distinct (order n) \<and> set (order n) = {..<n}" and "\<And>d. add_ok d"
    and "ser_refs (chunk_bytes fastcdc blake3 (content rds)) = Some bs" and "de_refs bs = Some (chunk_bytes fastcdc blake3 (content rds))"
    and "MAX_CHUNKS_PER_FILE < length (chunks fastcdc (content rds))"
  shows "\<exists>m sz st'. publish_local fastcdc blake3 add_ok ser_refs order rds st = Some (Inr (m, sz, st'))
    \<and> materialize de_refs m sz st' = Inl TManifestInvalid"
proof -
  let ?refs = "chunk_bytes fastcdc blake3 (content rds)"
  let ?st = "add_bytes blake3 bs (fold (add_bytes blake3) (chunks fastcdc (content rds)) st)"
  have len: "MAX_CHUNKS_PER_FILE < length ?refs" using assms(7) by (simp add: chunk_bytes_chunks [OF assms(1)])
  then have "\<not> length ?refs \<le> INLINE_MANIFEST_MAX" by (simp add: INLINE_MANIFEST_MAX_def MAX_CHUNKS_PER_FILE_def)
  then have "publish_local fastcdc blake3 add_ok ser_refs order rds st
      = Some (Inr (Blob (blake3 bs), of_nat (length (content rds)), ?st))"
    using publish_local_eq [OF assms(1-3)] assms(4) by (simp add: build_manifest_def assms(5))
  moreover have "materialize de_refs (Blob (blake3 bs)) (of_nat (length (content rds))) ?st = Inl TManifestInvalid"
    using len by (simp add: materialize_def resolve_manifest_def manifest_blob_def add_bytes_def decode_blob_def assms(6) guard_count_def)
  ultimately show ?thesis by blast
qed

lemma many_chunks: "cdc_ok f \<Longrightarrow> length xs \<le> CDC_MAX * length (chunks f xs)"
proof -
  assume f: "cdc_ok f"
  have "length (concat ds) \<le> CDC_MAX * length ds" if "\<forall>d \<in> set ds. length d \<le> CDC_MAX" for ds :: "bytes list"
    using that by (induction ds) auto
  from this [of "chunks f xs"] chunk_size [OF f] show ?thesis by (simp add: concat_chunks [OF f])
qed

theorem oversized_file_published_unusable_witness:
  "\<exists>rds de_refs m sz st'. publish_local fixed_cdc (\<lambda>d. d) (\<lambda>_. True) (\<lambda>_. Some [0]) (\<lambda>n. [0..<n]) rds [] = Some (Inr (m, sz, st'))
    \<and> materialize de_refs m sz st' = Inl TManifestInvalid"
proof -
  define xs where "xs = replicate (CDC_MAX * MAX_CHUNKS_PER_FILE + 1) (0 :: u8)"
  have "xs \<noteq> []" by (simp add: xs_def)
  then have c: "content [Inr xs] = xs" "readable [Inr xs]" by (simp_all add: content_def readable_def)
  have "length xs = CDC_MAX * MAX_CHUNKS_PER_FILE + 1" by (simp add: xs_def)
  then have "CDC_MAX * MAX_CHUNKS_PER_FILE < CDC_MAX * length (chunks fixed_cdc xs)"
    using many_chunks [OF fixed_cdc_ok, of xs] by linarith
  then have "MAX_CHUNKS_PER_FILE < length (chunks fixed_cdc xs)" by simp
  then show ?thesis
    using oversized_file_published_unusable [OF fixed_cdc_ok c(2), of "\<lambda>n. [0..<n]" "\<lambda>_. True" "\<lambda>_. Some [0]" "\<lambda>d. d" "[0]"
        "\<lambda>_. Some (chunk_bytes fixed_cdc (\<lambda>d. d) xs)" "[]"] c(1)
    by (simp add: atLeast0LessThan) blast
qed

end
