(* ===== verification/Handshake.thy ===== *)
theory Handshake
  imports Proto "HOL-Library.List_Lexorder"
begin

text \<open>
  The proof-of-secret handshake of a control connection (\<^verbatim>\<open>src/net/control.rs\<close>, and the accept handler of
  \<^verbatim>\<open>src/daemon.rs\<close>).  The transport authenticates the endpoint id of the other side; the handshake proves knowledge of the
  session's auth key.  HMAC-SHA256 is the parameter \<open>mac\<close>; an endpoint id is its 32 bytes.  What a stream delivers is an
  argument (a message or the error of the read), as is whether a write fails.
\<close>

section \<open>The two sides\<close>

type_synonym mac = "bytes \<Rightarrow> bytes \<Rightarrow> bytes"

definition LABEL_RESP :: bytes where "LABEL_RESP = [114, 101, 115, 112]"
definition LABEL_INIT :: bytes where "LABEL_INIT = [105, 110, 105, 116]"
definition MAX_INFLIGHT_HANDSHAKES :: nat where "MAX_INFLIGHT_HANDSHAKES = 64"

datatype handshake_error = Failed | Timeout | HsProto proto_error | HsConnection

definition proof_of :: "mac \<Rightarrow> bytes \<Rightarrow> bytes \<Rightarrow> bytes \<Rightarrow> bytes \<Rightarrow> bytes \<Rightarrow> bytes \<Rightarrow> bytes" where
  "proof_of mac auth_key label a b nonce_a nonce_b =
     (let (lo, hi) = (if a \<le> b then (a, b) else (b, a))
      in mac auth_key (label @ lo @ hi @ nonce_a @ nonce_b))"

definition verify_proof :: "bytes \<Rightarrow> bytes \<Rightarrow> bool" where
  "verify_proof expected got \<longleftrightarrow> expected = got"

text \<open>
  A side returns the messages it wrote and its verdict.  \<open>wr\<close> gives the error of a write, if it fails; the initiator opens
  the stream, the acceptor accepts it, which may fail (\<open>opened\<close>).
\<close>

type_synonym hs_run = "msg list \<times> (handshake_error + unit)"

definition initiator_finish :: "mac \<Rightarrow> (msg \<Rightarrow> proto_error option) \<Rightarrow> bytes \<Rightarrow> bytes \<Rightarrow> bytes \<Rightarrow> bytes \<Rightarrow> bytes \<Rightarrow> bytes \<Rightarrow> hs_run" where
  "initiator_finish mac wr auth_key me remote nonce_a nonce_b their_proof =
     (if \<not> verify_proof (proof_of mac auth_key LABEL_RESP me remote nonce_a nonce_b) their_proof then ([Hello nonce_a], Inl Failed)
      else
        let mine = Proof (proof_of mac auth_key LABEL_INIT me remote nonce_a nonce_b)
        in (case wr mine of Some e \<Rightarrow> ([Hello nonce_a], Inl (HsProto e)) | None \<Rightarrow> ([Hello nonce_a, mine], Inr ())))"

definition handshake_initiator ::
  "mac \<Rightarrow> bool \<Rightarrow> (msg \<Rightarrow> proto_error option) \<Rightarrow> bytes \<Rightarrow> bytes \<Rightarrow> bytes \<Rightarrow> bytes \<Rightarrow> (proto_error + msg) \<Rightarrow> hs_run" where
  "handshake_initiator mac opened wr auth_key me remote nonce_a reply =
     (if \<not> opened then ([], Inl HsConnection)
      else case wr (Hello nonce_a) of
        Some e \<Rightarrow> ([], Inl (HsProto e))
      | None \<Rightarrow>
          (case reply of
             Inl e \<Rightarrow> ([Hello nonce_a], Inl (HsProto e))
           | Inr (HelloAck nonce_b their_proof) \<Rightarrow> initiator_finish mac wr auth_key me remote nonce_a nonce_b their_proof
           | Inr _ \<Rightarrow> ([Hello nonce_a], Inl Failed)))"

definition acceptor_finish ::
  "mac \<Rightarrow> bytes \<Rightarrow> bytes \<Rightarrow> bytes \<Rightarrow> bytes \<Rightarrow> bytes \<Rightarrow> (proto_error + msg) \<Rightarrow> handshake_error + unit" where
  "acceptor_finish mac auth_key me remote nonce_a nonce_b answer =
     (case answer of
        Inl e \<Rightarrow> Inl (HsProto e)
      | Inr (Proof their_proof) \<Rightarrow>
          if verify_proof (proof_of mac auth_key LABEL_INIT me remote nonce_a nonce_b) their_proof then Inr () else Inl Failed
      | Inr _ \<Rightarrow> Inl Failed)"

definition handshake_acceptor ::
  "mac \<Rightarrow> bool \<Rightarrow> (msg \<Rightarrow> proto_error option) \<Rightarrow> bytes \<Rightarrow> bytes \<Rightarrow> bytes \<Rightarrow> bytes \<Rightarrow> (proto_error + msg) \<Rightarrow> (proto_error + msg) \<Rightarrow> hs_run" where
  "handshake_acceptor mac opened wr auth_key me remote nonce_b hello answer =
     (if \<not> opened then ([], Inl HsConnection)
      else case hello of
        Inl e \<Rightarrow> ([], Inl (HsProto e))
      | Inr (Hello nonce_a) \<Rightarrow>
          (let ack = HelloAck nonce_b (proof_of mac auth_key LABEL_RESP me remote nonce_a nonce_b)
           in case wr ack of
             Some e \<Rightarrow> ([], Inl (HsProto e))
           | None \<Rightarrow> ([ack], acceptor_finish mac auth_key me remote nonce_a nonce_b answer))
      | Inr _ \<Rightarrow> ([], Inl Failed))"

text \<open>Both run under a deadline; every failure closes the connection.\<close>

definition under_deadline :: "bool \<Rightarrow> handshake_error + unit \<Rightarrow> handshake_error + unit" where
  "under_deadline in_time verdict = (if in_time then verdict else Inl Timeout)"

text \<open>The accept handler: one of a bounded number of permits is held for the length of the handshake.\<close>

datatype accepted = AcceptBusy | AcceptAuthed | AcceptRefused

definition ctl_accept :: "nat \<Rightarrow> handshake_error + unit \<Rightarrow> accepted" where
  "ctl_accept inflight verdict =
     (if inflight \<ge> MAX_INFLIGHT_HANDSHAKES then AcceptBusy
      else case verdict of Inr _ \<Rightarrow> AcceptAuthed | Inl _ \<Rightarrow> AcceptRefused)"

end
