(* ===== verification/HandshakeProps.thy ===== *)
theory HandshakeProps
  imports Handshake
begin

text \<open>
  What the handshake proves.  Runs of many handshakes are traces of events, built by an inductive definition whose rules for
  members use the code's two functions; nodes without the key may send anything except proofs they have not seen.  An
  endpoint id is authenticated by the transport, so what is written on a connection comes from one of its two ends.
\<close>

section \<open>The proof binds what it should\<close>

lemma ordered_pair: "(if a \<le> b then (a, b) else (b, a)) = (if a' \<le> b' then (a', b') else (b', a')) \<longleftrightarrow> {a, b} = {a', b' :: 'a :: linorder}"
  by (auto simp: doubleton_eq_iff)

lemma labels [simp]: "length LABEL_RESP = 4" "length LABEL_INIT = 4" "LABEL_RESP \<noteq> LABEL_INIT" "LABEL_INIT \<noteq> LABEL_RESP"
  by (simp_all add: LABEL_RESP_def LABEL_INIT_def)

text \<open>With ids and nonces of fixed lengths the concatenation is unambiguous, up to the order of the two ids.\<close>

lemma proof_of_eq_iff:
  assumes "inj (mac key)" and "length l = length l'"
    and "length a = 32" "length b = 32" "length a' = 32" "length b' = 32" and "length na = length na'"
  shows "proof_of mac key l a b na nb = proof_of mac key l' a' b' na' nb' \<longleftrightarrow> l = l' \<and> {a, b} = {a', b'} \<and> na = na' \<and> nb = nb'"
proof -
  define p where "p = (if a \<le> b then (a, b) else (b, a))"
  define q where "q = (if a' \<le> b' then (a', b') else (b', a'))"
  have lens: "length (fst p) = 32" "length (snd p) = 32" "length (fst q) = 32" "length (snd q) = 32"
    using assms(3-6) by (auto simp: p_def q_def)
  have "proof_of mac key l a b na nb = proof_of mac key l' a' b' na' nb'
      \<longleftrightarrow> l @ fst p @ snd p @ na @ nb = l' @ fst q @ snd q @ na' @ nb'"
    using inj_eq [OF assms(1)] by (simp add: proof_of_def p_def q_def split_beta)
  also have "\<dots> \<longleftrightarrow> l = l' \<and> fst p = fst q \<and> snd p = snd q \<and> na = na' \<and> nb = nb'"
    using assms(2,7) lens by simp
  also have "\<dots> \<longleftrightarrow> l = l' \<and> p = q \<and> na = na' \<and> nb = nb'" by (auto simp: prod_eq_iff)
  finally show ?thesis unfolding p_def q_def ordered_pair .
qed

section \<open>Traces\<close>

record hs_conn =
  hc_init :: bytes
  hc_acc :: bytes
  hc_no :: nat

text \<open>\<open>Sent c True m\<close>: the initiator of \<open>c\<close> wrote \<open>m\<close>; \<open>Authed c True\<close>: the initiator of \<open>c\<close> has authenticated its peer.\<close>

datatype hs_event = Sent hs_conn bool msg | Authed hs_conn bool

definition end_of :: "hs_conn \<Rightarrow> bool \<Rightarrow> bytes" where
  "end_of c initiator = (if initiator then hc_init c else hc_acc c)"

fun proof_in :: "msg \<Rightarrow> bytes option" where
  "proof_in (HelloAck _ p) = Some p"
| "proof_in (Proof p) = Some p"
| "proof_in _ = None"

text \<open>A node without the key: any message, but a valid proof only if it has been on the network before.\<close>

definition sayable :: "mac \<Rightarrow> bytes \<Rightarrow> hs_event list \<Rightarrow> msg \<Rightarrow> bool" where
  "sayable mac key evs m \<longleftrightarrow>
     (\<forall>p. proof_in m = Some p \<longrightarrow> p \<in> range (mac key) \<longrightarrow> (\<exists>c i m'. Sent c i m' \<in> set evs \<and> proof_in m' = Some p))"

lemma sayable_seen: "Sent c i m \<in> set evs \<Longrightarrow> sayable mac key evs m"
  by (auto simp: sayable_def)

abbreviation initiator_says :: "mac \<Rightarrow> bytes \<Rightarrow> hs_conn \<Rightarrow> bytes \<Rightarrow> (proto_error + msg) \<Rightarrow> hs_run" where
  "initiator_says mac key c na reply \<equiv> handshake_initiator mac True (\<lambda>_. None) key (hc_init c) (hc_acc c) na reply"

abbreviation acceptor_says :: "mac \<Rightarrow> bytes \<Rightarrow> hs_conn \<Rightarrow> bytes \<Rightarrow> (proto_error + msg) \<Rightarrow> (proto_error + msg) \<Rightarrow> hs_run" where
  "acceptor_says mac key c nb hello answer \<equiv> handshake_acceptor mac True (\<lambda>_. None) key (hc_acc c) (hc_init c) nb hello answer"

definition conn_ok :: "hs_conn \<Rightarrow> bool" where
  "conn_ok c \<longleftrightarrow> length (hc_init c) = 32 \<and> length (hc_acc c) = 32 \<and> hc_init c \<noteq> hc_acc c"

inductive_set handshakes :: "mac \<Rightarrow> bytes \<Rightarrow> bytes set \<Rightarrow> hs_event list set" for mac key members where
  Nil: "[] \<in> handshakes mac key members"
| Outsider: "evs \<in> handshakes mac key members \<Longrightarrow> conn_ok c \<Longrightarrow> end_of c i \<notin> members \<Longrightarrow> sayable mac key evs m
    \<Longrightarrow> Sent c i m # evs \<in> handshakes mac key members"
| Opens: "evs \<in> handshakes mac key members \<Longrightarrow> conn_ok c \<Longrightarrow> hc_init c \<in> members \<Longrightarrow> length na = 16
    \<Longrightarrow> Sent c True (Hello na) # evs \<in> handshakes mac key members"
| Answers: "evs \<in> handshakes mac key members \<Longrightarrow> conn_ok c \<Longrightarrow> hc_acc c \<in> members \<Longrightarrow> length na = 16 \<Longrightarrow> length nb = 16
    \<Longrightarrow> Sent c True (Hello na) \<in> set evs \<Longrightarrow> m \<in> set (fst (acceptor_says mac key c nb (Inr (Hello na)) answer))
    \<Longrightarrow> Sent c False m # evs \<in> handshakes mac key members"
| Confirms: "evs \<in> handshakes mac key members \<Longrightarrow> conn_ok c \<Longrightarrow> hc_init c \<in> members \<Longrightarrow> length na = 16 \<Longrightarrow> length nb = 16
    \<Longrightarrow> Sent c True (Hello na) \<in> set evs \<Longrightarrow> Sent c False (HelloAck nb p) \<in> set evs
    \<Longrightarrow> initiator_says mac key c na (Inr (HelloAck nb p)) = (ms, Inr ()) \<Longrightarrow> m \<in> set ms
    \<Longrightarrow> Authed c True # Sent c True m # evs \<in> handshakes mac key members"
| Accepts: "evs \<in> handshakes mac key members \<Longrightarrow> conn_ok c \<Longrightarrow> hc_acc c \<in> members \<Longrightarrow> length na = 16 \<Longrightarrow> length nb = 16
    \<Longrightarrow> Sent c True (Hello na) \<in> set evs \<Longrightarrow> Sent c True (Proof p) \<in> set evs
    \<Longrightarrow> acceptor_says mac key c nb (Inr (Hello na)) (Inr (Proof p)) = (ms, Inr ()) \<Longrightarrow> set (map (Sent c False) ms) \<subseteq> set evs
    \<Longrightarrow> Authed c False # evs \<in> handshakes mac key members"

section \<open>Where a proof comes from\<close>

lemma proof_of_sym: "proof_of mac key l a b = proof_of mac key l b a"
  using linear [of a b] by (auto simp: proof_of_def fun_eq_iff)

lemma acceptor_writes [simp]:
  "fst (acceptor_says mac key c nb (Inr (Hello na)) answer) = [HelloAck nb (proof_of mac key LABEL_RESP (hc_init c) (hc_acc c) na nb)]"
  by (simp add: handshake_acceptor_def Let_def proof_of_sym [of mac key LABEL_RESP "hc_acc c"])

lemma acceptor_ok_iff:
  "acceptor_says mac key c nb (Inr (Hello na)) (Inr (Proof p)) = (ms, Inr ()) \<longleftrightarrow>
     p = proof_of mac key LABEL_INIT (hc_init c) (hc_acc c) na nb
     \<and> ms = [HelloAck nb (proof_of mac key LABEL_RESP (hc_init c) (hc_acc c) na nb)]"
  by (auto simp: handshake_acceptor_def acceptor_finish_def verify_proof_def Let_def proof_of_sym [of mac key _ "hc_acc c"] split: if_splits)

lemma initiator_ok_iff:
  "initiator_says mac key c na (Inr (HelloAck nb p)) = (ms, Inr ()) \<longleftrightarrow>
     p = proof_of mac key LABEL_RESP (hc_init c) (hc_acc c) na nb
     \<and> ms = [Hello na, Proof (proof_of mac key LABEL_INIT (hc_init c) (hc_acc c) na nb)]"
  by (auto simp: handshake_initiator_def initiator_finish_def verify_proof_def Let_def split: if_splits)

definition label_of :: "bool \<Rightarrow> bytes" where
  "label_of initiator = (if initiator then LABEL_INIT else LABEL_RESP)"

lemma label_of_eq [simp]: "label_of i = label_of j \<longleftrightarrow> i = j" "length (label_of i) = 4"
  by (simp_all add: label_of_def)

text \<open>A member computed \<open>p\<close> at its end \<open>i\<close> of the connection \<open>c\<close>, for a nonce the initiator of \<open>c\<close> sent.\<close>

definition made_at :: "mac \<Rightarrow> bytes \<Rightarrow> bytes set \<Rightarrow> hs_event list \<Rightarrow> bytes \<Rightarrow> hs_conn \<Rightarrow> bool \<Rightarrow> bytes \<Rightarrow> bytes \<Rightarrow> bool" where
  "made_at mac key members evs p c i na nb \<longleftrightarrow>
     conn_ok c \<and> end_of c i \<in> members \<and> length na = 16 \<and> length nb = 16 \<and> Sent c True (Hello na) \<in> set evs
     \<and> p = proof_of mac key (label_of i) (hc_init c) (hc_acc c) na nb \<and> (\<exists>m. Sent c i m \<in> set evs \<and> proof_in m = Some p)"

lemma made_later: "made_at mac key members evs p c i na nb \<Longrightarrow> made_at mac key members (e # evs) p c i na nb"
  by (auto simp: made_at_def)

lemma valid_proofs_are_made:
  "evs \<in> handshakes mac key members \<Longrightarrow> Sent d j m \<in> set evs \<Longrightarrow> proof_in m = Some p \<Longrightarrow> p \<in> range (mac key)
   \<Longrightarrow> \<exists>c i na nb. made_at mac key members evs p c i na nb"
proof (induction arbitrary: d j m rule: handshakes.induct)
  case Nil
  then show ?case by simp
next
  case (Outsider evs c i m')
  show ?case
  proof (cases "Sent d j m \<in> set evs")
    case False
    then have "m = m'" using Outsider.prems(1) by simp
    then obtain c1 i1 m1 where "Sent c1 i1 m1 \<in> set evs" "proof_in m1 = Some p"
      using Outsider.hyps(4) Outsider.prems(2,3) unfolding sayable_def by blast
    then have "\<exists>c i na nb. made_at mac key members evs p c i na nb" by (rule Outsider.IH [OF _ _ Outsider.prems(3)])
    then show ?thesis by (blast intro: made_later)
  qed (use Outsider.IH Outsider.prems in \<open>blast intro: made_later\<close>)
next
  case (Opens evs c na)
  then have "Sent d j m \<in> set evs" by auto
  then show ?case using Opens.IH Opens.prems by (blast intro: made_later)
next
  case (Answers evs c na nb m' answer)
  show ?case
  proof (cases "Sent d j m \<in> set evs")
    case False
    then have "made_at mac key members (Sent c False m' # evs) p c False na nb"
      using Answers.hyps Answers.prems unfolding made_at_def by (intro conjI exI [of _ m']) (auto simp: end_of_def label_of_def)
    then show ?thesis by blast
  qed (use Answers.IH Answers.prems in \<open>blast intro: made_later\<close>)
next
  case (Confirms evs c na nb p' ms m')
  show ?case
  proof (cases "Sent d j m \<in> set evs")
    case False
    then have "made_at mac key members (Authed c True # Sent c True m' # evs) p c True na nb"
      using Confirms.hyps Confirms.prems unfolding made_at_def initiator_ok_iff
      by (intro conjI exI [of _ m']) (auto simp: end_of_def label_of_def)
    then show ?thesis by blast
  qed (use Confirms.IH Confirms.prems in \<open>blast intro: made_later\<close>)
next
  case (Accepts evs c na nb p' ms)
  then have "Sent d j m \<in> set evs" by auto
  then show ?case using Accepts.IH Accepts.prems by (blast intro: made_later)
qed

text \<open>What an end that authenticated its peer has seen: the proof of the other role, for its own ids and nonces.\<close>

definition saw_proof :: "mac \<Rightarrow> bytes \<Rightarrow> hs_event list \<Rightarrow> hs_conn \<Rightarrow> bool \<Rightarrow> bool" where
  "saw_proof mac key evs c i \<longleftrightarrow>
     (\<exists>na nb d j m. length na = 16 \<and> length nb = 16 \<and> Sent c True (Hello na) \<in> set evs \<and> Sent d j m \<in> set evs
        \<and> proof_in m = Some (proof_of mac key (label_of (\<not> i)) (hc_init c) (hc_acc c) na nb))"

lemma saw_later: "saw_proof mac key evs c i \<Longrightarrow> saw_proof mac key (e # evs) c i"
  unfolding saw_proof_def by (meson list.set_intros(2))

lemma authed_saw_proof:
  "evs \<in> handshakes mac key members \<Longrightarrow> Authed c i \<in> set evs \<Longrightarrow> conn_ok c \<and> end_of c i \<in> members \<and> saw_proof mac key evs c i"
proof (induction rule: handshakes.induct)
  case (Confirms evs c' na nb p ms m)
  show ?case
  proof (cases "Authed c i \<in> set evs")
    case False
    then have ci: "c' = c" "i" using Confirms.prems by auto
    have "proof_in (HelloAck nb p) = Some (proof_of mac key (label_of False) (hc_init c') (hc_acc c') na nb)"
      using Confirms.hyps by (simp add: initiator_ok_iff label_of_def)
    then have "saw_proof mac key evs c' True" using Confirms.hyps unfolding saw_proof_def by (simp only: not_True_eq_False) blast
    then show ?thesis using ci Confirms.hyps by (auto simp: end_of_def intro!: saw_later)
  qed (use Confirms.IH in \<open>simp add: saw_later\<close>)
next
  case (Accepts evs c' na nb p ms)
  show ?case
  proof (cases "Authed c i \<in> set evs")
    case False
    then have ci: "c' = c" "\<not> i" using Accepts.prems by auto
    have "proof_in (Proof p) = Some (proof_of mac key (label_of True) (hc_init c') (hc_acc c') na nb)"
      using Accepts.hyps by (simp add: acceptor_ok_iff label_of_def)
    then have "saw_proof mac key evs c' False" using Accepts.hyps unfolding saw_proof_def by (simp only: not_False_eq_True) blast
    then show ?thesis using ci Accepts.hyps by (auto simp: end_of_def intro!: saw_later)
  qed (use Accepts.IH in \<open>simp add: saw_later\<close>)
qed (auto intro: saw_later)

section \<open>Properties\<close>

text \<open>Who computed the proof an end accepted: a member, in the other role, between the same two nodes and for the same nonces.\<close>

lemma authed_made:
  assumes "inj (mac key)" and "evs \<in> handshakes mac key members" and "Authed c i \<in> set evs"
  obtains d where "conn_ok d" "end_of d (\<not> i) \<in> members" "{hc_init d, hc_acc d} = {hc_init c, hc_acc c}"
    "\<exists>na. Sent c True (Hello na) \<in> set evs \<and> Sent d True (Hello na) \<in> set evs" "\<exists>m. Sent d (\<not> i) m \<in> set evs"
proof -
  have ok: "conn_ok c" using authed_saw_proof [OF assms(2,3)] by simp
  obtain na nb e j m where l: "length na = 16" "length nb = 16" and h: "Sent c True (Hello na) \<in> set evs" and m: "Sent e j m \<in> set evs"
    "proof_in m = Some (proof_of mac key (label_of (\<not> i)) (hc_init c) (hc_acc c) na nb)"
    using authed_saw_proof [OF assms(2,3)] unfolding saw_proof_def by blast
  let ?p = "proof_of mac key (label_of (\<not> i)) (hc_init c) (hc_acc c) na nb"
  have "?p \<in> range (mac key)" by (simp add: proof_of_def split_beta)
  from valid_proofs_are_made [OF assms(2) m this] obtain d i' na' nb' where d: "made_at mac key members evs ?p d i' na' nb'" by blast
  have dc: "conn_ok d" "end_of d i' \<in> members" "length na' = 16" "Sent d True (Hello na') \<in> set evs" "\<exists>m. Sent d i' m \<in> set evs"
    "?p = proof_of mac key (label_of i') (hc_init d) (hc_acc d) na' nb'" using d unfolding made_at_def by blast+
  have "label_of (\<not> i) = label_of i' \<and> {hc_init c, hc_acc c} = {hc_init d, hc_acc d} \<and> na = na' \<and> nb = nb'"
    using dc(6) proof_of_eq_iff [of mac key "label_of (\<not> i)" "label_of i'" "hc_init c" "hc_acc c" "hc_init d" "hc_acc d" na na' nb nb']
      assms(1) ok dc(1,3) l by (simp add: conn_ok_def)
  then show thesis using that [of d] dc h by auto
qed

text \<open>
  C7. An authenticated peer holds the session key, or the node has answered itself: when an end of a connection authenticates its
  peer, then the peer is a member, unless the very same node answered or confirmed the same nonce on a
  connection with that peer in which the roles were swapped.  No outsider gets in by making up or replaying messages of others.
\<close>

theorem authenticated_peer_is_member:
  assumes "inj (mac key)" and "evs \<in> handshakes mac key members" and "Authed c i \<in> set evs"
  shows "end_of c (\<not> i) \<in> members
    \<or> (\<exists>d na m. hc_init d = hc_acc c \<and> hc_acc d = hc_init c \<and> Sent c True (Hello na) \<in> set evs
         \<and> Sent d True (Hello na) \<in> set evs \<and> Sent d (\<not> i) m \<in> set evs)"
proof -
  obtain d where d: "conn_ok d" "end_of d (\<not> i) \<in> members" "{hc_init d, hc_acc d} = {hc_init c, hc_acc c}"
    "\<exists>na. Sent c True (Hello na) \<in> set evs \<and> Sent d True (Hello na) \<in> set evs" "\<exists>m. Sent d (\<not> i) m \<in> set evs"
    using authed_made [OF assms] by blast
  then consider "hc_init d = hc_init c" "hc_acc d = hc_acc c" | "hc_init d = hc_acc c" "hc_acc d = hc_init c"
    by (auto simp: doubleton_eq_iff)
  then show ?thesis
  proof cases
    case 1
    then have "end_of d (\<not> i) = end_of c (\<not> i)" by (simp add: end_of_def)
    then show ?thesis using d(2) by simp
  next
    case 2
    then show ?thesis using d(4,5) by blast
  qed
qed

definition nonce0 :: bytes where "nonce0 = replicate 16 0"
definition nonce1 :: bytes where "nonce1 = replicate 16 1"

lemma nonce_length [simp]: "length nonce0 = 16" "length nonce1 = 16"
  by (simp_all add: nonce0_def nonce1_def)

text \<open>An honest run reaches its end.\<close>

lemma honest_trace:
  assumes "conn_ok c" and "hc_init c \<in> members" and "hc_acc c \<in> members"
  shows "\<exists>evs \<in> handshakes mac key members. Authed c True \<in> set evs \<and> Authed c False \<in> set evs"
proof -
  let ?p = "proof_of mac key LABEL_RESP (hc_init c) (hc_acc c) nonce0 nonce1"
  let ?q = "proof_of mac key LABEL_INIT (hc_init c) (hc_acc c) nonce0 nonce1"
  have 1: "[Sent c True (Hello nonce0)] \<in> handshakes mac key members"
    using assms by (intro handshakes.Opens handshakes.Nil) simp_all
  have 2: "[Sent c False (HelloAck nonce1 ?p), Sent c True (Hello nonce0)] \<in> handshakes mac key members"
    using assms by (intro handshakes.Answers [OF 1, of _ nonce0 nonce1]) simp_all
  have 3: "[Authed c True, Sent c True (Proof ?q), Sent c False (HelloAck nonce1 ?p), Sent c True (Hello nonce0)] \<in> handshakes mac key members"
    using assms by (intro handshakes.Confirms [OF 2, of _ nonce0 nonce1 ?p "[Hello nonce0, Proof ?q]"]) (simp_all add: initiator_ok_iff)
  have "Authed c False # [Authed c True, Sent c True (Proof ?q), Sent c False (HelloAck nonce1 ?p), Sent c True (Hello nonce0)]
      \<in> handshakes mac key members"
    using assms by (intro handshakes.Accepts [OF 3, of _ nonce0 nonce1 ?q "[HelloAck nonce1 ?p]"]) (simp_all add: acceptor_ok_iff)
  then show ?thesis by (intro bexI) simp_all
qed

definition demo_conn :: hs_conn where
  "demo_conn = \<lparr>hc_init = replicate 32 0, hc_acc = replicate 32 1, hc_no = 0\<rparr>"

lemma demo_conn_ok: "conn_ok demo_conn"
  by (simp add: conn_ok_def demo_conn_def)

lemma append_mac_inj: "inj (\<lambda>x. k @ x)"
  by (simp add: inj_def)

theorem authenticated_peer_is_member_witness:
  "\<exists>evs \<in> handshakes (\<lambda>k x. k @ x) [7] {replicate 32 0, replicate 32 1}. Authed demo_conn True \<in> set evs
     \<and> (end_of demo_conn False \<in> {replicate 32 0, replicate 32 1}
        \<or> (\<exists>d na m. hc_init d = hc_acc demo_conn \<and> hc_acc d = hc_init demo_conn \<and> Sent demo_conn True (Hello na) \<in> set evs
             \<and> Sent d True (Hello na) \<in> set evs \<and> Sent d False m \<in> set evs))"
proof -
  obtain evs where evs: "evs \<in> handshakes (\<lambda>k x. k @ x) [7] {replicate 32 0, replicate 32 1}" "Authed demo_conn True \<in> set evs"
    using honest_trace [OF demo_conn_ok, of "{replicate 32 0, replicate 32 1}" "\<lambda>k x. k @ x" "[7]"] by (auto simp: demo_conn_def)
  from authenticated_peer_is_member [OF append_mac_inj evs] show ?thesis using evs by (intro bexI [of _ evs]) simp_all
qed

text \<open>
  The exception is real: a node without the key that is dialled by a member can have itself authenticated, in both roles, by handing the
  member's own nonce, answer and confirmation back to it on a connection it opens itself.
\<close>

theorem reflected_handshake_succeeds:
  assumes "hc_init c \<in> members" and "hc_acc c \<notin> members" and "conn_ok c"
  shows "\<exists>evs \<in> handshakes mac key members.
    Authed c True \<in> set evs \<and> Authed \<lparr>hc_init = hc_acc c, hc_acc = hc_init c, hc_no = n\<rparr> False \<in> set evs"
proof -
  define d where "d = \<lparr>hc_init = hc_acc c, hc_acc = hc_init c, hc_no = n\<rparr>"
  have d: "conn_ok d" "hc_acc d \<in> members" "hc_init d \<notin> members" using assms by (auto simp: d_def conn_ok_def)
  let ?p = "proof_of mac key LABEL_RESP (hc_init c) (hc_acc c) nonce0 nonce1"
  let ?q = "proof_of mac key LABEL_INIT (hc_init c) (hc_acc c) nonce0 nonce1"
  have dp: "proof_of mac key l (hc_init d) (hc_acc d) = proof_of mac key l (hc_init c) (hc_acc c)" for l
    by (simp add: d_def proof_of_sym [of mac key l "hc_acc c"])
  have 1: "[Sent c True (Hello nonce0)] \<in> handshakes mac key members"
    using assms by (intro handshakes.Opens handshakes.Nil) simp_all
  have 2: "Sent d True (Hello nonce0) # [Sent c True (Hello nonce0)] \<in> handshakes mac key members"
    using d by (intro handshakes.Outsider [OF 1]) (simp_all add: end_of_def sayable_def)
  have 3: "Sent d False (HelloAck nonce1 ?p) # Sent d True (Hello nonce0) # [Sent c True (Hello nonce0)] \<in> handshakes mac key members"
    using d by (intro handshakes.Answers [OF 2, of _ nonce0 nonce1]) (simp_all add: dp)
  have 4: "Sent c False (HelloAck nonce1 ?p) # Sent d False (HelloAck nonce1 ?p) # Sent d True (Hello nonce0) # [Sent c True (Hello nonce0)]
      \<in> handshakes mac key members" (is "?e4 \<in> _")
    using assms by (intro handshakes.Outsider [OF 3]) (simp_all add: end_of_def sayable_seen [of d False "HelloAck nonce1 ?p"])
  have 5: "Authed c True # Sent c True (Proof ?q) # ?e4 \<in> handshakes mac key members"
    using assms by (intro handshakes.Confirms [OF 4, of _ nonce0 nonce1 ?p "[Hello nonce0, Proof ?q]"]) (simp_all add: initiator_ok_iff)
  have 6: "Sent d True (Proof ?q) # Authed c True # Sent c True (Proof ?q) # ?e4 \<in> handshakes mac key members" (is "?e6 \<in> _")
    using d by (intro handshakes.Outsider [OF 5]) (simp_all add: end_of_def sayable_seen [of c True "Proof ?q"])
  have "Authed d False # ?e6 \<in> handshakes mac key members"
    using d by (intro handshakes.Accepts [OF 6, of _ nonce0 nonce1 ?q "[HelloAck nonce1 ?p]"]) (simp_all add: acceptor_ok_iff dp)
  then show ?thesis unfolding d_def [symmetric] by (intro bexI) simp_all
qed

theorem reflected_handshake_succeeds_witness:
  "\<exists>evs \<in> handshakes (\<lambda>k x. k @ x) [7] {replicate 32 0}.
    Authed demo_conn True \<in> set evs \<and> Authed \<lparr>hc_init = replicate 32 1, hc_acc = replicate 32 0, hc_no = 5\<rparr> False \<in> set evs"
  using reflected_handshake_succeeds [of demo_conn "{replicate 32 0}" "\<lambda>k x. k @ x" "[7]" 5] demo_conn_ok
  by (simp add: demo_conn_def)

lemma verdict_ok: "snd r = Inr () \<longleftrightarrow> (\<exists>ms. r = (ms, Inr ()))"
  by (cases r) simp

text \<open>
  Two honest ends complete the handshake exactly when they have the same key: the initiator accepts the acceptor's answer if and
  only if the keys agree, and then the acceptor accepts the initiator's confirmation.
\<close>

theorem handshake_needs_same_key:
  assumes "\<And>k k' x x'. length k = 32 \<Longrightarrow> length k' = 32 \<Longrightarrow> mac k x = mac k' x' \<Longrightarrow> k = k' \<and> x = x'" and "length ka = 32" and "length kb = 32"
  shows "\<exists>ack. fst (handshake_acceptor mac True (\<lambda>_. None) kb b a nb (Inr (Hello na)) answer) = [ack]
    \<and> (snd (handshake_initiator mac True (\<lambda>_. None) ka a b na (Inr ack)) = Inr () \<longleftrightarrow> ka = kb)
    \<and> (ka = kb \<longrightarrow> snd (handshake_acceptor mac True (\<lambda>_. None) kb b a nb (Inr (Hello na))
          (Inr (last (fst (handshake_initiator mac True (\<lambda>_. None) ka a b na (Inr ack)))))) = Inr ())"
proof -
  let ?c = "\<lparr>hc_init = a, hc_acc = b, hc_no = 0\<rparr>"
  let ?p = "\<lambda>k. proof_of mac k LABEL_RESP a b na nb"
  have key: "?p ka = ?p kb \<longleftrightarrow> ka = kb"
    using assms(1) [OF assms(2,3)] by (auto simp: proof_of_def split_beta)
  have "snd (initiator_says mac ka ?c na (Inr (HelloAck nb (?p kb)))) = Inr () \<longleftrightarrow> ka = kb"
    unfolding verdict_ok initiator_ok_iff using key by auto
  moreover have "snd (acceptor_says mac kb ?c nb (Inr (Hello na)) (Inr (last (fst (initiator_says mac ka ?c na (Inr (HelloAck nb (?p kb)))))))) = Inr ()"
    if "ka = kb"
  proof -
    have "initiator_says mac ka ?c na (Inr (HelloAck nb (?p kb))) = ([Hello na, Proof (proof_of mac kb LABEL_INIT a b na nb)], Inr ())"
      unfolding initiator_ok_iff using that by simp
    then show ?thesis unfolding verdict_ok using acceptor_ok_iff [of mac kb ?c nb na "proof_of mac kb LABEL_INIT a b na nb"] by simp
  qed
  ultimately show ?thesis using acceptor_writes [of mac kb ?c nb na answer] by simp
qed

theorem handshake_needs_same_key_witness:
  "\<exists>ack. fst (handshake_acceptor (\<lambda>k x. k @ x) True (\<lambda>_. None) (replicate 32 1) [4] [3] [6] (Inr (Hello [5])) (Inr Bye)) = [ack]
    \<and> (snd (handshake_initiator (\<lambda>k x. k @ x) True (\<lambda>_. None) (replicate 32 2) [3] [4] [5] (Inr ack)) = Inr () \<longleftrightarrow> replicate 32 (2 :: u8) = replicate 32 1)"
  using handshake_needs_same_key [of "\<lambda>k x. k @ x" "replicate 32 2" "replicate 32 1" "[4]" "[3]" "[6]" "[5]" "Inr Bye"] by auto

end
