(* ===== verification/OneShot.thy ===== *)
theory OneShot
  imports Chunker Handshake RelPath Ignore
begin

text \<open>
  The session-less transfer (\<^verbatim>\<open>src/oneshot.rs\<close>): the sender's tickets and manifest, both sides of its framed protocol, resuming from a
  staging file, and publishing the received files.  The destination folder is one map from paths to contents, in which
  the staging files live under \<^verbatim>\<open>.tazamun-recv/\<close>; what a stream delivers is a list of messages and read errors; \<open>wr\<close> gives the
  error of a write, if it fails.  Errors are the strings of the code.  Progress bars and the final pauses are left out.
\<close>

section \<open>Tickets\<close>

definition SEND_TICKET_PREFIX :: string where "SEND_TICKET_PREFIX = ''tzs1''"

text \<open>The bytes of the two labels, \<^verbatim>\<open>tazamun-send-sender\<close> and \<^verbatim>\<open>tazamun-send-receiver\<close>.\<close>

definition ascii_bytes :: "string \<Rightarrow> bytes" where
  "ascii_bytes s = map (\<lambda>c. of_nat (of_char c)) s"

definition HANDSHAKE_LABEL_SEND :: bytes where "HANDSHAKE_LABEL_SEND = ascii_bytes ''tazamun-send-sender''"
definition HANDSHAKE_LABEL_RECV :: bytes where "HANDSHAKE_LABEL_RECV = ascii_bytes ''tazamun-send-receiver''"

record send_ticket_wire =
  sw_version :: u8
  sw_secret :: bytes
  sw_ttl_secs :: u32
  sw_bootstrap :: "addr_wire list"

record send_ticket =
  st_secret :: bytes
  st_ttl_secs :: u32
  st_bootstrap :: "addr_wire list"

record send_codec =
  ser_send :: "send_ticket_wire \<Rightarrow> bytes option"
  de_send :: "bytes \<Rightarrow> send_ticket_wire option"
  send_b32_encode :: "bytes \<Rightarrow> string"
  send_b32_decode :: "string \<Rightarrow> bytes option"
  send_lower :: "string \<Rightarrow> string"
  send_upper :: "string \<Rightarrow> string"

definition encode_send_ticket :: "send_codec \<Rightarrow> send_ticket \<Rightarrow> string" where
  "encode_send_ticket sc t =
     SEND_TICKET_PREFIX @ send_lower sc (send_b32_encode sc (unwrap_or [] (ser_send sc
       \<lparr>sw_version = 1, sw_secret = st_secret t, sw_ttl_secs = st_ttl_secs t, sw_bootstrap = st_bootstrap t\<rparr>)))"

definition decode_send_ticket :: "send_codec \<Rightarrow> string \<Rightarrow> (send_ticket, ticket_error) res" where
  "decode_send_ticket sc s =
     (case strip_prefix SEND_TICKET_PREFIX (trim s) of
        None \<Rightarrow> Err BadPrefix
      | Some body \<Rightarrow>
          (case send_b32_decode sc (send_upper sc body) of
             None \<Rightarrow> Err BadEncoding
           | Some bs \<Rightarrow>
               (case de_send sc bs of
                  None \<Rightarrow> Err TicketMalformed
                | Some w \<Rightarrow>
                    if sw_version w \<noteq> 1 then Err (BadVersion (sw_version w))
                    else Ok \<lparr>st_secret = sw_secret w, st_ttl_secs = sw_ttl_secs w, st_bootstrap = sw_bootstrap w\<rparr>)))"

section \<open>Messages and frames\<close>

record send_entry =
  se_path :: string
  se_size :: u64
  se_chunks :: "chunk_ref list"

datatype send_msg =
    SHello bytes
  | SHelloAck bytes bytes
  | SProof bytes
  | SManifest "send_entry list"
  | SStart "u32 list"
  | SChunk bytes
  | SEntryDone
  | SAllDone
  | SReceived
  | SFail string

type_synonym frames = "(string + send_msg) list"

definition read_frame :: "(bytes \<Rightarrow> send_msg option) \<Rightarrow> bytes \<Rightarrow> string + (send_msg \<times> bytes)" where
  "read_frame de stream =
     (if length stream < 4 then Inl ''stream closed''
      else let n = from_be_bytes (take 4 stream) in
        if n = 0 \<or> n > MAX_FRAME then Inl (''frame length '' @ show_nat n @ '' out of bounds'')
        else if length stream < 4 + n then Inl ''stream closed mid-frame''
        else case de (take n (drop 4 stream)) of None \<Rightarrow> Inl ''bad frame'' | Some m \<Rightarrow> Inr (m, drop (4 + n) stream))"

definition write_frame :: "(send_msg \<Rightarrow> bytes option) \<Rightarrow> send_msg \<Rightarrow> string + bytes" where
  "write_frame ser m =
     (case ser m of
        None \<Rightarrow> Inl ''encode''
      | Some body \<Rightarrow>
          if length body > MAX_FRAME then Inl (''frame body '' @ show_nat (length body) @ '' exceeds cap'')
          else Inr (to_be_bytes (of_nat (length body)) @ body))"

text \<open>The error of a write whose stream takes everything.\<close>

definition frame_error :: "(send_msg \<Rightarrow> bytes option) \<Rightarrow> send_msg \<Rightarrow> string option" where
  "frame_error ser m = (case write_frame ser m of Inl e \<Rightarrow> Some e | Inr _ \<Rightarrow> None)"

fun next_frame :: "frames \<Rightarrow> string + (send_msg \<times> frames)" where
  "next_frame [] = Inl ''stream closed''"
| "next_frame (Inl e # fs) = Inl e"
| "next_frame (Inr m # fs) = Inr (m, fs)"

section \<open>The manifest of a path\<close>

definition entry_for :: "(bytes \<Rightarrow> cuts) \<Rightarrow> (bytes \<Rightarrow> bytes) \<Rightarrow> (nat \<Rightarrow> nat list) \<Rightarrow> reader \<Rightarrow> string \<Rightarrow> (string + send_entry) option" where
  "entry_for fastcdc blake3 order rds rel =
     map_option (\<lambda>r. case r of Inl e \<Rightarrow> Inl (''chunking '' @ rel) | Inr (chunks, sz, _) \<Rightarrow> Inr \<lparr>se_path = rel, se_size = sz, se_chunks = chunks\<rparr>)
       (chunk_file fastcdc blake3 order (\<lambda>_ _ s. Inr s) rds ())"

text \<open>A directory tree; the order of the children is the order in which the file system lists them.\<close>

datatype send_tree = TFile reader | TDir "(string \<times> send_tree) list"

text \<open>The files below a folder by their relative paths, without the two reserved directories.\<close>

fun collect_files :: "string \<Rightarrow> send_tree \<Rightarrow> (string \<times> reader) list" where
  "collect_files rel (TFile rds) = [(rel, rds)]"
| "collect_files rel (TDir children) =
     concat (map (\<lambda>(name, t). if name = ''.tazamun'' \<or> name = ''.tazamun-recv'' then []
                              else collect_files (if rel = [] then name else rel @ ''/'' @ name) t) children)"

definition offered :: "ignore_set \<Rightarrow> string \<Rightarrow> bool" where
  "offered ig rel = (case sanitize_rel_path rel of Inl _ \<Rightarrow> False | Inr sane \<Rightarrow> is_sync (verdict_of ig sane None))"

fun entries_of ::
  "(bytes \<Rightarrow> cuts) \<Rightarrow> (bytes \<Rightarrow> bytes) \<Rightarrow> (nat \<Rightarrow> nat list) \<Rightarrow> (string \<times> reader) list \<Rightarrow> (string + send_entry list) option" where
  "entries_of fastcdc blake3 order [] = Some (Inr [])"
| "entries_of fastcdc blake3 order ((rel, rds) # files) =
     (case entry_for fastcdc blake3 order rds rel of
        None \<Rightarrow> None
      | Some (Inl e) \<Rightarrow> Some (Inl e)
      | Some (Inr en) \<Rightarrow>
          map_option (\<lambda>r. case r of Inl e \<Rightarrow> Inl e | Inr ens \<Rightarrow> Inr (en # ens)) (entries_of fastcdc blake3 order files))"

text \<open>\<open>name\<close> is the name of the path, if it is UTF-8; \<open>matcher\<close> the gitignore library.\<close>

definition build_entries ::
  "(string list \<Rightarrow> (string \<Rightarrow> bool) option) \<Rightarrow> (bytes \<Rightarrow> cuts) \<Rightarrow> (bytes \<Rightarrow> bytes) \<Rightarrow> (nat \<Rightarrow> nat list) \<Rightarrow> string option \<Rightarrow> send_tree
     \<Rightarrow> (string + send_entry list) option" where
  "build_entries matcher fastcdc blake3 order name t =
     (case t of
        TFile rds \<Rightarrow>
          (case name of
             None \<Rightarrow> Some (Inl ''file has a non-UTF-8 name'')
           | Some n \<Rightarrow> entries_of fastcdc blake3 order [(n, rds)])
      | TDir _ \<Rightarrow>
          entries_of fastcdc blake3 order
            (filter (\<lambda>f. offered (build_ignore matcher [] True [] [] 0) (fst f)) (sort_key fst (collect_files [] t))))"

section \<open>The sender\<close>

text \<open>
  Streaming one file: chunks below the resume index are skipped.  A failed write is kept as \<open>pending\<close> and ends the streaming; it is
  reported before any error of the chunking.
\<close>

definition chunk_sink :: "(send_msg \<Rightarrow> string option) \<Rightarrow> u32 \<Rightarrow> (u32 \<times> send_msg list \<times> string option) sink" where
  "chunk_sink wr start r data st =
     (case st of (index, out, pending) \<Rightarrow>
        Inr (if pending \<noteq> None then st
             else if index < start then (index + 1, out, None)
             else case wr (SChunk data) of
               Some e \<Rightarrow> (index + 1, out, Some e)
             | None \<Rightarrow> (index + 1, out @ [SChunk data], None)))"

definition stream_entry ::
  "(bytes \<Rightarrow> cuts) \<Rightarrow> (bytes \<Rightarrow> bytes) \<Rightarrow> (nat \<Rightarrow> nat list) \<Rightarrow> (send_msg \<Rightarrow> string option) \<Rightarrow> reader \<Rightarrow> send_entry \<Rightarrow> u32 \<Rightarrow> (string + send_msg list) option" where
  "stream_entry fastcdc blake3 order wr rds en start =
     map_option (\<lambda>r. case r of
         Inl e \<Rightarrow> Inl (''re-chunking '' @ se_path en)
       | Inr (_, _, _, out, Some e) \<Rightarrow> Inl e
       | Inr (_, _, _, out, None) \<Rightarrow> (case wr SEntryDone of Some e \<Rightarrow> Inl e | None \<Rightarrow> Inr (out @ [SEntryDone])))
       (chunk_file fastcdc blake3 order (chunk_sink wr start) rds (0, [], None))"

text \<open>\<open>files\<close> opens the file of an entry.  What was written before an error is not tracked.\<close>

fun stream_entries ::
  "(bytes \<Rightarrow> cuts) \<Rightarrow> (bytes \<Rightarrow> bytes) \<Rightarrow> (nat \<Rightarrow> nat list) \<Rightarrow> (send_msg \<Rightarrow> string option) \<Rightarrow> (string \<Rightarrow> reader) \<Rightarrow> (send_entry \<times> u32) list
     \<Rightarrow> (string + send_msg list) option" where
  "stream_entries fastcdc blake3 order wr files [] = Some (case wr SAllDone of Some e \<Rightarrow> Inl e | None \<Rightarrow> Inr [SAllDone])"
| "stream_entries fastcdc blake3 order wr files ((en, start) # rest) =
     (case stream_entry fastcdc blake3 order wr (files (se_path en)) en start of
        None \<Rightarrow> None
      | Some (Inl e) \<Rightarrow> Some (Inl e)
      | Some (Inr out) \<Rightarrow>
          map_option (\<lambda>r. case r of Inl e \<Rightarrow> Inl e | Inr out' \<Rightarrow> Inr (out @ out')) (stream_entries fastcdc blake3 order wr files rest))"

definition serve_end :: "frames \<Rightarrow> string + unit" where
  "serve_end inp =
     (case next_frame inp of
        Inl e \<Rightarrow> Inl e
      | Inr (SReceived, _) \<Rightarrow> Inr ()
      | Inr (SFail msg, _) \<Rightarrow> Inl (''receiver reported: '' @ msg)
      | Inr _ \<Rightarrow> Inl ''expected Received'')"

definition serve_offer ::
  "(bytes \<Rightarrow> cuts) \<Rightarrow> (bytes \<Rightarrow> bytes) \<Rightarrow> (nat \<Rightarrow> nat list) \<Rightarrow> (send_msg \<Rightarrow> string option) \<Rightarrow> send_entry list \<Rightarrow> (string \<Rightarrow> reader) \<Rightarrow> frames
     \<Rightarrow> (send_msg list \<times> (string + unit)) option" where
  "serve_offer fastcdc blake3 order wr entries files inp =
     (case wr (SManifest entries) of
        Some e \<Rightarrow> Some ([], Inl e)
      | None \<Rightarrow>
          (case next_frame inp of
             Inl e \<Rightarrow> Some ([SManifest entries], Inl e)
           | Inr (SStart resume, inp') \<Rightarrow>
               if length resume \<noteq> length entries then Some ([SManifest entries], Inl ''receiver sent a malformed resume plan'')
               else map_option (\<lambda>r. case r of
                   Inl e \<Rightarrow> ([SManifest entries], Inl e)
                 | Inr out \<Rightarrow> (SManifest entries # out, serve_end inp'))
                 (stream_entries fastcdc blake3 order wr files (zip entries resume))
           | Inr _ \<Rightarrow> Some ([SManifest entries], Inl ''expected Start'')))"

definition serve_one ::
  "mac \<Rightarrow> (bytes \<Rightarrow> cuts) \<Rightarrow> (bytes \<Rightarrow> bytes) \<Rightarrow> (nat \<Rightarrow> nat list) \<Rightarrow> (send_msg \<Rightarrow> string option) \<Rightarrow> bytes \<Rightarrow> bytes \<Rightarrow> bytes \<Rightarrow> bytes
     \<Rightarrow> send_entry list \<Rightarrow> (string \<Rightarrow> reader) \<Rightarrow> frames \<Rightarrow> (send_msg list \<times> (string + unit)) option" where
  "serve_one mac fastcdc blake3 order wr secret me remote nonce_s entries files inp =
     (case next_frame inp of
        Inl e \<Rightarrow> Some ([], Inl e)
      | Inr (SHello nonce_r, inp1) \<Rightarrow>
          (let ack = SHelloAck nonce_s (proof_of mac secret HANDSHAKE_LABEL_SEND me remote nonce_r nonce_s)
           in case wr ack of
             Some e \<Rightarrow> Some ([], Inl e)
           | None \<Rightarrow>
               (case next_frame inp1 of
                  Inl e \<Rightarrow> Some ([ack], Inl e)
                | Inr (SProof their, inp2) \<Rightarrow>
                    if proof_of mac secret HANDSHAKE_LABEL_RECV me remote nonce_r nonce_s \<noteq> their
                    then Some ([ack], Inl ''receiver failed the proof-of-secret (wrong ticket?)'')
                    else map_option (\<lambda>(out, r). (ack # out, r)) (serve_offer fastcdc blake3 order wr entries files inp2)
                | Inr _ \<Rightarrow> Some ([ack], Inl ''expected Proof'')))
      | Inr _ \<Rightarrow> Some ([], Inl ''expected Hello''))"

text \<open>
  The accept loop: connections one after the other until one completes; a connection is given by the outcome of serving it, or
  None when it did not come up.  The end of the list is the deadline.
\<close>

fun serve_loop :: "(string + unit) option list \<Rightarrow> string + unit" where
  "serve_loop [] = Inl ''ticket expired before anyone received it''"
| "serve_loop (None # cs) = serve_loop cs"
| "serve_loop (Some (Inr _) # cs) = Inr ()"
| "serve_loop (Some (Inl e) # cs) = serve_loop cs"

section \<open>The receiver\<close>

type_synonym folder_map = "string \<Rightarrow> bytes option"

definition RECV_DIR :: string where "RECV_DIR = ''.tazamun-recv/''"

definition stage_path :: "string \<Rightarrow> nat \<Rightarrow> string" where
  "stage_path mid i = RECV_DIR @ mid @ ''/'' @ show_nat i"

definition validate_entry :: "send_entry \<Rightarrow> string + unit" where
  "validate_entry e =
     (case sanitize_rel_path (se_path e) of
        Inl _ \<Rightarrow> Inl (''manifest has a hostile path: '' @ se_path e)
      | Inr _ \<Rightarrow>
          (case check_manifest (se_chunks e) (se_size e) of
             Inl _ \<Rightarrow> Inl (''manifest for '' @ se_path e @ '' is inconsistent'')
           | Inr _ \<Rightarrow> Inr ()))"

fun validate_entries :: "send_entry list \<Rightarrow> string + unit" where
  "validate_entries [] = Inr ()"
| "validate_entries (e # es) = (case validate_entry e of Inl m \<Rightarrow> Inl m | Inr _ \<Rightarrow> validate_entries es)"

definition validate_manifest :: "send_entry list \<Rightarrow> string + unit" where
  "validate_manifest entries =
     (if length entries > MAX_CHUNKS_PER_FILE then Inl ''manifest lists an implausible number of files''
      else validate_entries entries)"

text \<open>How many leading chunks a staging file has, and how many bytes they take.\<close>

fun prefix_loop :: "(bytes \<Rightarrow> bytes) \<Rightarrow> chunk_ref list \<Rightarrow> bytes \<Rightarrow> nat \<times> nat" where
  "prefix_loop blake3 [] f = (0, 0)"
| "prefix_loop blake3 (c # cs) f =
     (let n = unat (cr_len c) in
      if length f < n \<or> blake3 (take n f) \<noteq> cr_hash c then (0, 0)
      else let (good, bytes) = prefix_loop blake3 cs (drop n f) in (Suc good, n + bytes))"

definition verified_prefix :: "(bytes \<Rightarrow> bytes) \<Rightarrow> send_entry \<Rightarrow> string \<Rightarrow> folder_map \<Rightarrow> u32 \<times> folder_map" where
  "verified_prefix blake3 en part fs =
     (case fs part of
        None \<Rightarrow> (0, fs)
      | Some f \<Rightarrow> (let (good, bytes) = prefix_loop blake3 (se_chunks en) f in (of_nat good, fs(part \<mapsto> take bytes f))))"

fun resume_plan :: "(bytes \<Rightarrow> bytes) \<Rightarrow> string \<Rightarrow> nat \<Rightarrow> send_entry list \<Rightarrow> folder_map \<Rightarrow> u32 list \<times> folder_map" where
  "resume_plan blake3 mid i [] fs = ([], fs)"
| "resume_plan blake3 mid i (e # es) fs =
     (let (r, fs1) = verified_prefix blake3 e (stage_path mid i) fs;
          (rs, fs2) = resume_plan blake3 mid (Suc i) es fs1
      in (r # rs, fs2))"

text \<open>
  One entry: chunks are appended to the staging file as they are verified, so the file keeps them when the transfer breaks
  off.  The result is the staging file and either the error, with what is told to the sender, or the index reached and the
  frames to come.
\<close>

definition chunk_ok :: "(bytes \<Rightarrow> bytes) \<Rightarrow> chunk_ref \<Rightarrow> bytes \<Rightarrow> bool" where
  "chunk_ok blake3 c data \<longleftrightarrow> blake3 data = cr_hash c \<and> of_nat (length data) = cr_len c"

fun recv_entry ::
  "(bytes \<Rightarrow> bytes) \<Rightarrow> send_entry \<Rightarrow> nat \<Rightarrow> bytes \<Rightarrow> frames \<Rightarrow> bytes \<times> ((send_msg list \<times> string) + (nat \<times> frames))" where
  "recv_entry blake3 en idx part [] = (part, Inl ([], ''stream closed''))"
| "recv_entry blake3 en idx part (Inl e # inp) = (part, Inl ([], e))"
| "recv_entry blake3 en idx part (Inr m # inp) =
     (case m of
        SChunk data \<Rightarrow>
          if idx \<ge> length (se_chunks en) then (part, Inl ([], ''sender sent an extra chunk for '' @ se_path en))
          else if \<not> chunk_ok blake3 (se_chunks en ! idx) data
          then (part, Inl ([SFail ''chunk failed verification''], ''chunk failed verification''))
          else recv_entry blake3 en (Suc idx) (part @ data) inp
      | SEntryDone \<Rightarrow> (part, Inr (idx, inp))
      | SFail msg \<Rightarrow> (part, Inl ([], ''sender aborted: '' @ msg))
      | _ \<Rightarrow> (part, Inl ([], ''expected Chunk or EntryDone'')))"

definition short_entry :: string where "short_entry = ''entry ended before all chunks arrived''"

fun recv_entries ::
  "(bytes \<Rightarrow> bytes) \<Rightarrow> string \<Rightarrow> nat \<Rightarrow> (send_entry \<times> u32) list \<Rightarrow> frames \<Rightarrow> folder_map \<Rightarrow> folder_map \<times> ((send_msg list \<times> string) + frames)" where
  "recv_entries blake3 mid i [] inp fs =
     (fs, case next_frame inp of
        Inl e \<Rightarrow> Inl ([], e)
      | Inr (SAllDone, inp') \<Rightarrow> Inr inp'
      | Inr (SFail msg, _) \<Rightarrow> Inl ([], ''sender aborted: '' @ msg)
      | Inr _ \<Rightarrow> Inl ([], ''expected AllDone''))"
| "recv_entries blake3 mid i ((en, start) # rest) inp fs =
     (case recv_entry blake3 en (unat start) (unwrap_or [] (fs (stage_path mid i))) inp of
        (part, r) \<Rightarrow>
          let fs1 = fs(stage_path mid i \<mapsto> part) in
          (case r of
             Inl e \<Rightarrow> (fs1, Inl e)
           | Inr (idx, inp') \<Rightarrow>
               if idx \<noteq> length (se_chunks en) then (fs1, Inl ([SFail short_entry], short_entry))
               else recv_entries blake3 mid (Suc i) rest inp' fs1))"

text \<open>
  Publishing: the parent directory is made, the old file removed, the staged one renamed into place; \<open>mk_ok\<close> and \<open>ren_ok\<close> tell
  which of these calls succeed.
\<close>

fun publish_entries :: "(string \<Rightarrow> bool) \<Rightarrow> (string \<Rightarrow> bool) \<Rightarrow> string \<Rightarrow> nat \<Rightarrow> send_entry list \<Rightarrow> folder_map \<Rightarrow> folder_map \<times> (string + unit)" where
  "publish_entries mk_ok ren_ok mid i [] fs = (fs, Inr ())"
| "publish_entries mk_ok ren_ok mid i (e # es) fs =
     (if \<not> mk_ok (se_path e) then (fs, Inl ''create_dir_all'')
      else
        let fs1 = fs(se_path e := None) in
        if \<not> ren_ok (se_path e) then (fs1, Inl (''publishing '' @ se_path e))
        else publish_entries mk_ok ren_ok mid (Suc i) es (fs1(se_path e := fs1 (stage_path mid i), stage_path mid i := None)))"

definition remove_recv_dir :: "folder_map \<Rightarrow> folder_map" where
  "remove_recv_dir fs = (\<lambda>p. if starts_with p RECV_DIR then None else fs p)"

record recv_env =
  re_mac :: mac
  re_blake3 :: "bytes \<Rightarrow> bytes"
  re_mid :: "send_entry list \<Rightarrow> string"
  re_wr :: "send_msg \<Rightarrow> string option"
  re_mk_ok :: "string \<Rightarrow> bool"
  re_ren_ok :: "string \<Rightarrow> bool"

text \<open>From the manifest on: the messages written, the folder, and the number of files received or the error.\<close>

definition recv_finish :: "recv_env \<Rightarrow> string \<Rightarrow> send_entry list \<Rightarrow> folder_map \<Rightarrow> send_msg list \<times> folder_map \<times> (string + nat)" where
  "recv_finish env mid entries fs =
     (case publish_entries (re_mk_ok env) (re_ren_ok env) mid 0 entries fs of
        (fs1, Inl e) \<Rightarrow> ([], fs1, Inl e)
      | (fs1, Inr _) \<Rightarrow>
          (case re_wr env SReceived of
             Some e \<Rightarrow> ([], remove_recv_dir fs1, Inl e)
           | None \<Rightarrow> ([SReceived], remove_recv_dir fs1, Inr (length entries))))"

definition recv_manifest :: "recv_env \<Rightarrow> send_entry list \<Rightarrow> frames \<Rightarrow> folder_map \<Rightarrow> send_msg list \<times> folder_map \<times> (string + nat)" where
  "recv_manifest env entries inp fs =
     (case validate_manifest entries of
        Inl e \<Rightarrow> ([], fs, Inl e)
      | Inr _ \<Rightarrow>
          let mid = re_mid env entries; (resume, fs1) = resume_plan (re_blake3 env) mid 0 entries fs
          in case re_wr env (SStart resume) of
            Some e \<Rightarrow> ([], fs1, Inl e)
          | None \<Rightarrow>
              (case recv_entries (re_blake3 env) mid 0 (zip entries resume) inp fs1 of
                 (fs2, Inl (out, e)) \<Rightarrow> (SStart resume # out, fs2, Inl e)
               | (fs2, Inr _) \<Rightarrow> (case recv_finish env mid entries fs2 of (out, fs3, r) \<Rightarrow> (SStart resume # out, fs3, r))))"

definition receive ::
  "recv_env \<Rightarrow> bytes \<Rightarrow> bytes \<Rightarrow> bytes \<Rightarrow> bytes \<Rightarrow> frames \<Rightarrow> folder_map \<Rightarrow> send_msg list \<times> folder_map \<times> (string + nat)" where
  "receive env secret me remote nonce_r inp fs =
     (case re_wr env (SHello nonce_r) of
        Some e \<Rightarrow> ([], fs, Inl e)
      | None \<Rightarrow>
          (case next_frame inp of
             Inl e \<Rightarrow> ([SHello nonce_r], fs, Inl e)
           | Inr (SHelloAck nonce_s their, inp1) \<Rightarrow>
               if proof_of (re_mac env) secret HANDSHAKE_LABEL_SEND remote me nonce_r nonce_s \<noteq> their
               then ([SHello nonce_r], fs, Inl ''sender failed the proof-of-secret (wrong ticket?)'')
               else
                 let mine = SProof (proof_of (re_mac env) secret HANDSHAKE_LABEL_RECV remote me nonce_r nonce_s)
                 in (case re_wr env mine of
                   Some e \<Rightarrow> ([SHello nonce_r], fs, Inl e)
                 | None \<Rightarrow>
                     (case next_frame inp1 of
                        Inl e \<Rightarrow> ([SHello nonce_r, mine], fs, Inl e)
                      | Inr (SManifest entries, inp2) \<Rightarrow>
                          (case recv_manifest env entries inp2 fs of (out, fs1, r) \<Rightarrow> (SHello nonce_r # mine # out, fs1, r))
                      | Inr _ \<Rightarrow> ([SHello nonce_r, mine], fs, Inl ''expected Manifest'')))
           | Inr _ \<Rightarrow> ([SHello nonce_r], fs, Inl ''expected HelloAck'')))"

text \<open>The address to dial: the first of the ticket's that is valid.\<close>

definition dial_address :: "(bytes \<Rightarrow> bool) \<Rightarrow> (string \<Rightarrow> string option) \<Rightarrow> send_ticket \<Rightarrow> string + endpoint_addr" where
  "dial_address id_ok parse_url t =
     (case List.map_filter (to_endpoint_addr id_ok parse_url) (st_bootstrap t) of
        [] \<Rightarrow> Inl ''ticket carries no reachable address''
      | a # _ \<Rightarrow> Inr a)"

end
