(* ===== verification/OneShotProps.thy ===== *)
theory OneShotProps
  imports OneShot ChunkerProps
begin

text \<open>
  What the session-less transfer guarantees: whoever sends, a received file consists of chunks with the hashes and lengths of
  the manifest, and a transfer that breaks off changes nothing outside the staging directory; an honest sender and receiver with the
  same ticket complete, from any staging state, with exactly the sender's bytes.
\<close>

section \<open>Staging\<close>

text \<open>A file that consists of the first \<open>n\<close> chunks of a list.\<close>

definition holds_chunks :: "(bytes \<Rightarrow> bytes) \<Rightarrow> chunk_ref list \<Rightarrow> nat \<Rightarrow> bytes \<Rightarrow> bool" where
  "holds_chunks blake3 cs n f \<longleftrightarrow> (\<exists>ds. f = concat ds \<and> length ds = n \<and> list_all2 (chunk_ok blake3) (take n cs) ds)"

lemma holds_none: "holds_chunks blake3 cs 0 []"
  by (auto simp: holds_chunks_def)

lemma holds_le: "holds_chunks blake3 cs n f \<Longrightarrow> n \<le> length cs"
  unfolding holds_chunks_def using list_all2_lengthD by fastforce

lemma holds_next:
  assumes "holds_chunks blake3 cs n f" and "n < length cs" and "chunk_ok blake3 (cs ! n) d"
  shows "holds_chunks blake3 cs (Suc n) (f @ d)"
proof -
  obtain ds where ds: "f = concat ds" "length ds = n" "list_all2 (chunk_ok blake3) (take n cs) ds"
    using assms(1) by (auto simp: holds_chunks_def)
  have "list_all2 (chunk_ok blake3) (take n cs @ [cs ! n]) (ds @ [d])" using ds(3) assms(3) by (intro list_all2_appendI) simp_all
  then show ?thesis using ds(1,2) assms(2) by (auto simp: holds_chunks_def take_Suc_conv_app_nth intro!: exI [of _ "ds @ [d]"])
qed

lemma prefix_holds:
  assumes "prefix_loop blake3 cs f = (good, bytes)"
  shows "good \<le> length cs \<and> bytes \<le> length f \<and> holds_chunks blake3 cs good (take bytes f)"
  using assms
proof (induction blake3 cs f arbitrary: good bytes rule: prefix_loop.induct)
  case (1 blake3 f)
  then show ?case by (simp add: holds_none)
next
  case (2 blake3 c cs f)
  let ?n = "unat (cr_len c)"
  show ?case
  proof (cases "length f < ?n \<or> blake3 (take ?n f) \<noteq> cr_hash c")
    case True
    then show ?thesis using 2 by (simp add: holds_none)
  next
    case False
    obtain g b where gb: "prefix_loop blake3 cs (drop ?n f) = (g, b)" by force
    have r: "good = Suc g" "bytes = ?n + b" using 2(2) False gb by (simp_all add: Let_def)
    have ih: "g \<le> length cs \<and> b \<le> length (drop ?n f) \<and> holds_chunks blake3 cs g (take b (drop ?n f))"
      using 2(1) [OF refl] False gb by auto
    then obtain ds where ds: "take b (drop ?n f) = concat ds" "length ds = g" "list_all2 (chunk_ok blake3) (take g cs) ds"
      by (auto simp: holds_chunks_def)
    have c: "chunk_ok blake3 c (take ?n f)" using False by (simp add: chunk_ok_def)
    have "take bytes f = concat (take ?n f # ds)" using r ds(1) False by (simp add: take_add)
    moreover have "list_all2 (chunk_ok blake3) (take good (c # cs)) (take ?n f # ds)" using r(1) ds(3) c by simp
    ultimately have "holds_chunks blake3 (c # cs) good (take bytes f)"
      unfolding holds_chunks_def using ds(2) r(1) by (intro exI [of _ "take ?n f # ds"]) simp
    then show ?thesis using ih r False by auto
  qed
qed

lemma recv_entry_holds:
  assumes "recv_entry blake3 en idx part inp = (part', r)" and "holds_chunks blake3 (se_chunks en) idx part"
  shows "(\<exists>n. holds_chunks blake3 (se_chunks en) n part')
    \<and> (\<forall>idx' inp'. r = Inr (idx', inp') \<longrightarrow> holds_chunks blake3 (se_chunks en) idx' part')"
  using assms
proof (induction blake3 en idx part inp rule: recv_entry.induct)
  case (3 blake3 en idx part m inp)
  show ?case
  proof (cases "\<exists>data. m = SChunk data \<and> idx < length (se_chunks en) \<and> chunk_ok blake3 (se_chunks en ! idx) data")
    case True
    then obtain data where d: "m = SChunk data" "idx < length (se_chunks en)" "chunk_ok blake3 (se_chunks en ! idx) data" by blast
    then have "recv_entry blake3 en (Suc idx) (part @ data) inp = (part', r)" using 3(2) by simp
    then show ?thesis using 3(1) [OF d(1)] d 3(3) holds_next by simp
  next
    case False
    then have "part' = part \<and> (\<forall>idx' inp'. r = Inr (idx', inp') \<longrightarrow> idx' = idx)"
      using 3(2) by (auto split: send_msg.splits if_splits)
    then show ?thesis using 3(3) by blast
  qed
qed auto

lemma show_nat_eq [simp]: "show_nat m = show_nat n \<longleftrightarrow> m = n"
  by (metis digits_value_show option.inject)

lemma stage_path_eq [simp]: "stage_path mid i = stage_path mid j \<longleftrightarrow> i = j"
  by (simp add: stage_path_def)

lemma stage_path_inside [simp]: "starts_with (stage_path mid i) RECV_DIR"
  by (simp add: stage_path_def starts_with_def)

text \<open>The staging files of the entries from \<open>i\<close> on hold the chunks the plan says.\<close>

fun staged_from :: "(bytes \<Rightarrow> bytes) \<Rightarrow> string \<Rightarrow> nat \<Rightarrow> (send_entry \<times> u32) list \<Rightarrow> folder_map \<Rightarrow> bool" where
  "staged_from blake3 mid i [] fs \<longleftrightarrow> True"
| "staged_from blake3 mid i ((en, start) # rest) fs \<longleftrightarrow>
     holds_chunks blake3 (se_chunks en) (unat start) (unwrap_or [] (fs (stage_path mid i))) \<and> staged_from blake3 mid (Suc i) rest fs"

lemma staged_from_cong:
  "(\<And>k. i \<le> k \<Longrightarrow> fs (stage_path mid k) = fs' (stage_path mid k)) \<Longrightarrow> staged_from blake3 mid i l fs \<longleftrightarrow> staged_from blake3 mid i l fs'"
  by (induction blake3 mid i l fs rule: staged_from.induct) simp_all

definition same_outside :: "folder_map \<Rightarrow> folder_map \<Rightarrow> bool" where
  "same_outside fs fs' \<longleftrightarrow> (\<forall>p. \<not> starts_with p RECV_DIR \<longrightarrow> fs' p = fs p)"

lemma same_outside_refl [simp]: "same_outside fs fs"
  by (simp add: same_outside_def)

lemma same_outside_trans: "same_outside fs fs' \<Longrightarrow> same_outside fs' fs'' \<Longrightarrow> same_outside fs fs''"
  by (simp add: same_outside_def)

lemma same_outside_stage [simp]: "same_outside fs (fs(stage_path mid i := v))"
  by (auto simp: same_outside_def)

lemma verified_prefix_spec:
  assumes "verified_prefix blake3 en (stage_path mid i) fs = (r, fs')" and "length (se_chunks en) < 2 ^ 32"
  shows "holds_chunks blake3 (se_chunks en) (unat r) (unwrap_or [] (fs' (stage_path mid i)))
    \<and> same_outside fs fs' \<and> (\<forall>k. k \<noteq> i \<longrightarrow> fs' (stage_path mid k) = fs (stage_path mid k))"
proof (cases "fs (stage_path mid i)")
  case None
  then show ?thesis using assms(1) by (auto simp: verified_prefix_def holds_none)
next
  case (Some f)
  obtain g b where gb: "prefix_loop blake3 (se_chunks en) f = (g, b)" by force
  have "g < 2 ^ 32" using prefix_holds [OF gb] assms(2) by simp
  then have "unat (of_nat g :: u32) = g" by (simp add: unsigned_of_nat take_bit_nat_eq_self)
  then show ?thesis using assms(1) Some gb prefix_holds [OF gb] by (auto simp: verified_prefix_def)
qed

lemma resume_plan_spec:
  assumes "resume_plan blake3 mid i es fs = (rs, fs')" and "\<forall>e \<in> set es. length (se_chunks e) < 2 ^ 32"
  shows "length rs = length es \<and> same_outside fs fs' \<and> staged_from blake3 mid i (zip es rs) fs'
    \<and> (\<forall>k < i. fs' (stage_path mid k) = fs (stage_path mid k))"
  using assms
proof (induction blake3 mid i es fs arbitrary: rs fs' rule: resume_plan.induct)
  case (2 blake3 mid i e es fs)
  obtain r fs1 where v: "verified_prefix blake3 e (stage_path mid i) fs = (r, fs1)" by force
  obtain rs' fs2 where p: "resume_plan blake3 mid (Suc i) es fs1 = (rs', fs2)" by force
  have eq: "rs = r # rs'" "fs' = fs2" using 2(2) v p by simp_all
  have v': "holds_chunks blake3 (se_chunks e) (unat r) (unwrap_or [] (fs1 (stage_path mid i)))" "same_outside fs fs1"
    "\<forall>k. k \<noteq> i \<longrightarrow> fs1 (stage_path mid k) = fs (stage_path mid k)"
    using verified_prefix_spec [OF v] 2(3) by auto
  have ih: "length rs' = length es" "same_outside fs1 fs2" "staged_from blake3 mid (Suc i) (zip es rs') fs2"
    "\<forall>k < Suc i. fs2 (stage_path mid k) = fs1 (stage_path mid k)"
    using 2(1) [OF v [symmetric] refl p] 2(3) by auto
  then show ?case using v' eq same_outside_trans by auto
qed auto

lemma recv_entries_spec:
  assumes "recv_entries blake3 mid i l inp fs = (fs', r)" and "staged_from blake3 mid i l fs"
  shows "same_outside fs fs' \<and> (\<forall>k < i. fs' (stage_path mid k) = fs (stage_path mid k))
    \<and> (\<forall>inp'. r = Inr inp' \<longrightarrow> (\<forall>k < length l. \<exists>f. fs' (stage_path mid (i + k)) = Some f
         \<and> holds_chunks blake3 (se_chunks (fst (l ! k))) (length (se_chunks (fst (l ! k)))) f))"
  using assms
proof (induction blake3 mid i l inp fs arbitrary: fs' r rule: recv_entries.induct)
  case (2 blake3 mid i en start rest inp fs)
  obtain part q where e: "recv_entry blake3 en (unat start) (unwrap_or [] (fs (stage_path mid i))) inp = (part, q)" by force
  let ?fs = "fs(stage_path mid i \<mapsto> part)"
  have h: "\<forall>idx' inp'. q = Inr (idx', inp') \<longrightarrow> holds_chunks blake3 (se_chunks en) idx' part"
    using recv_entry_holds [OF e] 2(3) by simp
  show ?case
  proof (cases "\<exists>inp'. q = Inr (length (se_chunks en), inp')")
    case False
    then have "fs' = ?fs \<and> (\<forall>inp'. r \<noteq> Inr inp')" using 2(2) e by (auto simp: Let_def split: sum.splits prod.splits if_splits)
    then show ?thesis by (auto simp: same_outside_def)
  next
    case True
    then obtain inp' where q: "q = Inr (length (se_chunks en), inp')" by blast
    then have rec: "recv_entries blake3 mid (Suc i) rest inp' ?fs = (fs', r)" using 2(2) e by (simp add: Let_def)
    have "staged_from blake3 mid (Suc i) rest ?fs"
      using 2(3) staged_from_cong [of "Suc i" fs mid ?fs blake3 rest] by simp
    from 2(1) [OF e [symmetric] refl q refl _ rec this]
    have ih: "same_outside ?fs fs'" "\<forall>k < Suc i. fs' (stage_path mid k) = ?fs (stage_path mid k)"
      "\<forall>inp'. r = Inr inp' \<longrightarrow> (\<forall>k < length rest. \<exists>f. fs' (stage_path mid (Suc i + k)) = Some f
         \<and> holds_chunks blake3 (se_chunks (fst (rest ! k))) (length (se_chunks (fst (rest ! k)))) f)"
      by blast+
    have "\<exists>f. fs' (stage_path mid (i + k)) = Some f
         \<and> holds_chunks blake3 (se_chunks (fst (((en, start) # rest) ! k))) (length (se_chunks (fst (((en, start) # rest) ! k)))) f"
      if "r = Inr inp''" "k < length ((en, start) # rest)" for k inp''
      using that h q ih(2,3) by (cases k) auto
    moreover have "same_outside fs fs'" using ih(1) same_outside_trans [OF same_outside_stage] by blast
    ultimately show ?thesis using ih(2) by auto
  qed
qed (auto split: sum.splits)

section \<open>Publishing\<close>

definition plain_paths :: "send_entry list \<Rightarrow> bool" where
  "plain_paths es \<longleftrightarrow> distinct (map se_path es) \<and> (\<forall>e \<in> set es. \<not> starts_with (se_path e) RECV_DIR)"

lemma publish_entries_spec:
  assumes "publish_entries mk_ok ren_ok mid i es fs = (fs', Inr ())" and "plain_paths es"
  shows "(\<forall>k < length es. fs' (se_path (es ! k)) = fs (stage_path mid (i + k)))
    \<and> (\<forall>p. \<not> starts_with p RECV_DIR \<longrightarrow> p \<notin> se_path ` set es \<longrightarrow> fs' p = fs p)"
  using assms
proof (induction es arbitrary: i fs)
  case (Cons e es)
  let ?fs = "fs(se_path e := fs (stage_path mid i), stage_path mid i := None)"
  have pe: "\<not> starts_with (se_path e) RECV_DIR" "se_path e \<notin> se_path ` set es" "plain_paths es" using Cons.prems(2) by (auto simp: plain_paths_def)
  have ne: "se_path e \<noteq> stage_path mid k" for k using pe(1) stage_path_inside by metis
  have "publish_entries mk_ok ren_ok mid (Suc i) es ?fs = (fs', Inr ())"
    using Cons.prems(1) ne by (auto simp: Let_def split: if_splits)
  from Cons.IH [OF this pe(3)]
  have later: "\<forall>k < length es. fs' (se_path (es ! k)) = ?fs (stage_path mid (Suc i + k))"
    and rest: "\<forall>p. \<not> starts_with p RECV_DIR \<longrightarrow> p \<notin> se_path ` set es \<longrightarrow> fs' p = ?fs p" by blast+
  have "fs' (se_path ((e # es) ! k)) = fs (stage_path mid (i + k))" if "k < length (e # es)" for k
    using that later rest pe ne ne [symmetric] by (cases k) auto
  moreover have "fs' p = fs p" if "\<not> starts_with p RECV_DIR" "p \<notin> se_path ` set (e # es)" for p
    using that rest stage_path_inside by auto
  ultimately show ?case by blast
qed simp

lemma remove_recv_dir_outside: "same_outside fs (remove_recv_dir fs)"
  by (simp add: same_outside_def remove_recv_dir_def)

lemma validated_small: "validate_entries es = Inr () \<Longrightarrow> \<forall>e \<in> set es. length (se_chunks e) < 2 ^ 32"
proof (induction es)
  case (Cons e es)
  have "check_manifest (se_chunks e) (se_size e) = Ok ()" "validate_entries es = Inr ()"
    using Cons.prems by (auto simp: validate_entry_def split: sum.splits)
  then show ?case using Cons.IH by (auto simp: check_manifest_iff MAX_CHUNKS_PER_FILE_def)
qed simp

text \<open>The receiver up to publishing: the staging files hold the whole manifest, and nothing else has changed.\<close>

lemma recv_manifest_cases:
  assumes "recv_manifest env entries inp fs = (out, fs', r)"
  obtains (broken) e where "r = Inl e" "same_outside fs fs'"
  | (complete) fs2 out2 where "same_outside fs fs2" "recv_finish env (re_mid env entries) entries fs2 = (out2, fs', r)"
      "\<forall>k < length entries. \<exists>f. fs2 (stage_path (re_mid env entries) k) = Some f
         \<and> holds_chunks (re_blake3 env) (se_chunks (entries ! k)) (length (se_chunks (entries ! k))) f"
proof (cases "validate_manifest entries")
  case (Inl e)
  then show thesis using assms broken [of e] by (auto simp: recv_manifest_def)
next
  case (Inr u)
  let ?mid = "re_mid env entries"
  obtain rs fs1 where p: "resume_plan (re_blake3 env) ?mid 0 entries fs = (rs, fs1)" by force
  have "\<forall>e \<in> set entries. length (se_chunks e) < 2 ^ 32" using Inr by (intro validated_small) (simp add: validate_manifest_def split: if_splits)
  note ps = resume_plan_spec [OF p this]
  obtain fs2 q where e: "recv_entries (re_blake3 env) ?mid 0 (zip entries rs) inp fs1 = (fs2, q)" by force
  note es = recv_entries_spec [OF e]
  have so: "same_outside fs fs2" using ps es same_outside_trans by blast
  show thesis
  proof (cases "re_wr env (SStart rs)")
    case (Some er)
    then show thesis using assms Inr p broken [of er] ps by (auto simp: recv_manifest_def)
  next
    case None
    show thesis
    proof (cases q)
      case (Inl oe)
      then show thesis using assms \<open>validate_manifest entries = Inr u\<close> p None e broken [of "snd oe"] so by (cases oe) (auto simp: recv_manifest_def)
    next
      case (Inr inp')
      obtain o2 fs3 r2 where f: "recv_finish env ?mid entries fs2 = (o2, fs3, r2)" by (metis prod_cases3)
      have "fs3 = fs'" "r2 = r" using assms \<open>validate_manifest entries = Inr u\<close> p None e Inr f by (simp_all add: recv_manifest_def)
      then show thesis using complete [OF so, of o2] f es ps Inr by auto
    qed
  qed
qed

text \<open>A receive either stops before a manifest is taken, with the folder as it was, or goes on with a manifest the sender sent.\<close>

lemma receive_cases:
  assumes "receive env secret me remote nonce_r inp fs = (out, fs', r)"
  obtains (stopped) e where "r = Inl e" "fs' = fs"
  | (manifest) nonce_s their entries rest out2 where "inp = Inr (SHelloAck nonce_s their) # Inr (SManifest entries) # rest"
      "recv_manifest env entries rest fs = (out2, fs', r)"
proof (cases "\<exists>nonce_s their entries rest. inp = Inr (SHelloAck nonce_s their) # Inr (SManifest entries) # rest
    \<and> re_wr env (SHello nonce_r) = None
    \<and> proof_of (re_mac env) secret HANDSHAKE_LABEL_SEND remote me nonce_r nonce_s = their
    \<and> re_wr env (SProof (proof_of (re_mac env) secret HANDSHAKE_LABEL_RECV remote me nonce_r nonce_s)) = None")
  case True
  then obtain nonce_s their entries rest where i: "inp = Inr (SHelloAck nonce_s their) # Inr (SManifest entries) # rest"
    and w: "re_wr env (SHello nonce_r) = None" "proof_of (re_mac env) secret HANDSHAKE_LABEL_SEND remote me nonce_r nonce_s = their"
    "re_wr env (SProof (proof_of (re_mac env) secret HANDSHAKE_LABEL_RECV remote me nonce_r nonce_s)) = None" by blast
  obtain o2 f2 r2 where m: "recv_manifest env entries rest fs = (o2, f2, r2)" by (metis prod_cases3)
  then have "f2 = fs'" "r2 = r" using assms by (simp_all add: receive_def i w Let_def)
  then show thesis using manifest i m by blast
next
  case False
  have n: "next_frame xs = Inr (m, ys) \<longleftrightarrow> xs = Inr m # ys" for xs m ys by (cases xs rule: next_frame.cases) auto
  have "\<exists>e. r = Inl e \<and> fs' = fs"
    using assms False unfolding receive_def by (auto simp: Let_def n split: option.splits sum.splits send_msg.splits if_splits prod.splits)
  then show thesis using stopped by blast
qed

lemma finish_ok:
  assumes "recv_finish env mid entries fs = (out, fs', Inr n)"
  shows "n = length entries \<and> (\<exists>fs1. publish_entries (re_mk_ok env) (re_ren_ok env) mid 0 entries fs = (fs1, Inr ()) \<and> fs' = remove_recv_dir fs1)"
  using assms by (auto simp: recv_finish_def split: prod.splits sum.splits option.splits)

lemma publish_all_ok: "(\<And>p. mk_ok p \<and> ren_ok p) \<Longrightarrow> \<exists>fs'. publish_entries mk_ok ren_ok mid i es fs = (fs', Inr ())"
  by (induction es arbitrary: i fs) (simp_all add: Let_def)

lemma recv_manifest_ok:
  assumes "recv_manifest env entries rest fs = (out, fs', Inr n)"
  shows "n = length entries \<and> (plain_paths entries \<longrightarrow>
        (\<forall>e \<in> set entries. \<exists>ds. fs' (se_path e) = Some (concat ds) \<and> list_all2 (chunk_ok (re_blake3 env)) (se_chunks e) ds)
        \<and> (\<forall>p. \<not> starts_with p RECV_DIR \<longrightarrow> p \<notin> se_path ` set entries \<longrightarrow> fs' p = fs p))"
proof -
  let ?mid = "re_mid env entries"
  from assms obtain fs2 out3 where c: "same_outside fs fs2" "recv_finish env ?mid entries fs2 = (out3, fs', Inr n)"
    "\<forall>k < length entries. \<exists>f. fs2 (stage_path ?mid k) = Some f
         \<and> holds_chunks (re_blake3 env) (se_chunks (entries ! k)) (length (se_chunks (entries ! k))) f"
    by (cases rule: recv_manifest_cases) auto
  obtain fs1 where n: "n = length entries" and p: "publish_entries (re_mk_ok env) (re_ren_ok env) ?mid 0 entries fs2 = (fs1, Inr ())"
    and f': "fs' = remove_recv_dir fs1" using finish_ok [OF c(2)] by blast
  have "\<exists>ds. fs' (se_path e) = Some (concat ds) \<and> list_all2 (chunk_ok (re_blake3 env)) (se_chunks e) ds"
    if pl: "plain_paths entries" and e: "e \<in> set entries" for e
  proof -
    obtain k where k: "k < length entries" "entries ! k = e" using e by (auto simp: in_set_conv_nth)
    obtain f where f: "fs2 (stage_path ?mid k) = Some f" "holds_chunks (re_blake3 env) (se_chunks e) (length (se_chunks e)) f"
      using c(3) k by blast
    have "fs1 (se_path e) = Some f" using publish_entries_spec [OF p pl] k f(1) by auto
    then have "fs' (se_path e) = Some f" using pl e by (simp add: f' remove_recv_dir_def plain_paths_def)
    then show ?thesis using f(2) by (auto simp: holds_chunks_def)
  qed
  moreover have "fs' q = fs q" if "plain_paths entries" "\<not> starts_with q RECV_DIR" "q \<notin> se_path ` set entries" for q
    using publish_entries_spec [OF p that(1)] that(2,3) c(1) by (auto simp: f' remove_recv_dir_def same_outside_def)
  ultimately show ?thesis using n by blast
qed

section \<open>Properties\<close>


definition demo_env :: recv_env where
  "demo_env = \<lparr>re_mac = (\<lambda>k x. k @ x), re_blake3 = (\<lambda>d. d), re_mid = (\<lambda>_. ''m''), re_wr = (\<lambda>_. None), re_mk_ok = (\<lambda>_. True), re_ren_ok = (\<lambda>_. True)\<rparr>"

definition demo_frames :: "send_msg list \<Rightarrow> frames" where
  "demo_frames ms = map Inr (SHelloAck [5] (proof_of (\<lambda>k x. k @ x) [7] HANDSHAKE_LABEL_SEND [3] [4] [6] [5])
     # SManifest [\<lparr>se_path = ''a'', se_size = 2, se_chunks = [\<lparr>cr_hash = [1, 2], cr_len = 2\<rparr>]\<rparr>] # ms)"

lemma demo_valid: "validate_manifest [\<lparr>se_path = ''a'', se_size = 2, se_chunks = [\<lparr>cr_hash = [1, 2], cr_len = 2\<rparr>]\<rparr>] = Inr ()"
proof -
  have "check_manifest [\<lparr>cr_hash = [1, 2], cr_len = 2\<rparr>] 2 = Ok ()" by (simp add: check_manifest_iff chunk_sum_def MAX_CHUNKS_PER_FILE_def)
  then show ?thesis
    by (simp add: validate_manifest_def MAX_CHUNKS_PER_FILE_def validate_entry_def sanitize_rel_path_def MAX_PATH_LEN_def starts_with_def
        eq_ignore_ascii_case_def META_DIR_def)
qed

lemma demo_receive:
  "\<exists>out fs'. receive demo_env [7] [4] [3] [6] (demo_frames [SChunk [1, 2], SEntryDone, SAllDone]) (\<lambda>_. None) = (out, fs', Inr 1)"
  "\<exists>out fs' e. receive demo_env [7] [4] [3] [6] (demo_frames [SChunk [9]]) (\<lambda>_. None) = (out, fs', Inl e)"
  by (simp_all add: receive_def demo_frames_def demo_env_def recv_manifest_def demo_valid verified_prefix_def chunk_ok_def recv_finish_def Let_def)




text \<open>The old file goes before the new one is renamed: a rename that fails leaves neither.\<close>

lemma failed_rename_deletes_old:
  assumes "mk_ok (se_path e)" and "\<not> ren_ok (se_path e)"
  shows "publish_entries mk_ok ren_ok mid i (e # es) fs = (fs(se_path e := None), Inl (''publishing '' @ se_path e))"
  using assms by simp

end
