(* ===== verification/OneShotRun.thy ===== *)
theory OneShotRun
  imports OneShotProps
begin

text \<open>
  An honest sender and receiver: the two functions fed with each other's messages complete, and the receiver's folder ends with
  the sender's files, whatever its staging directory held before.
\<close>

section \<open>What an honest sender says\<close>

definition file_entry :: "(bytes \<Rightarrow> cuts) \<Rightarrow> (bytes \<Rightarrow> bytes) \<Rightarrow> string \<times> reader \<Rightarrow> send_entry" where
  "file_entry fastcdc blake3 f =
     \<lparr>se_path = fst f, se_size = of_nat (length (content (snd f))), se_chunks = chunk_bytes fastcdc blake3 (content (snd f))\<rparr>"

definition stream_of :: "(bytes \<Rightarrow> cuts) \<Rightarrow> string \<times> reader \<Rightarrow> u32 \<Rightarrow> send_msg list" where
  "stream_of fastcdc f r = map SChunk (drop (unat r) (chunks fastcdc (content (snd f)))) @ [SEntryDone]"

text \<open>A file the protocol can carry: readable, few enough chunks, and no second preimages of them.\<close>

definition sendable :: "(bytes \<Rightarrow> cuts) \<Rightarrow> (bytes \<Rightarrow> bytes) \<Rightarrow> reader \<Rightarrow> bool" where
  "sendable fastcdc blake3 rds \<longleftrightarrow>
     readable rds \<and> length (chunks fastcdc (content rds)) \<le> MAX_CHUNKS_PER_FILE
     \<and> (\<forall>d \<in> set (chunks fastcdc (content rds)). \<forall>b. blake3 b = blake3 d \<longrightarrow> b = d)"

lemma emit_ignoring:
  assumes "\<forall>d \<in> set ds. length d < 2 ^ 32"
  shows "emit_batch (\<lambda>_ _ s. Inr s) (map (\<lambda>d. (chunk_ref_of blake3 d, d)) ds) (refs, n, ())
    = Inr (refs @ map (chunk_ref_of blake3) ds, n + of_nat (length (concat ds)), ())"
  using assms
proof (induction ds arbitrary: refs n)
  case (Cons d ds)
  then show ?case using chunk_len_widens [of d] by (simp add: chunk_ref_of_def add.assoc)
qed simp

lemma emit_chunk_sink:
  assumes "\<forall>d \<in> set ds. length d < 2 ^ 32" and "unat i + length ds < 2 ^ 32" and "\<And>m. wr m = None"
  shows "emit_batch (chunk_sink wr start) (map (\<lambda>d. (chunk_ref_of blake3 d, d)) ds) (refs, n, i, out, None)
    = Inr (refs @ map (chunk_ref_of blake3) ds, n + of_nat (length (concat ds)), i + of_nat (length ds),
        out @ map SChunk (drop (unat start - unat i) ds), None)"
  using assms(1,2)
proof (induction ds arbitrary: refs n i out)
  case (Cons d ds)
  have i: "unat (i + 1) = Suc (unat i)" using Cons.prems(2) by (simp add: unat_word_ariths)
  have lt: "i < start \<longleftrightarrow> unat i < unat start" by (simp add: word_less_nat_alt)
  have "chunk_sink wr start r d (i, out, None) = Inr (i + 1, out @ map SChunk (take (Suc 0 - (unat start - unat i)) [d]), None)" for r
    using assms(3) by (auto simp: chunk_sink_def lt)
  then show ?case
    using Cons chunk_len_widens [of d] i
    by (cases "unat i < unat start") (simp_all add: chunk_ref_of_def add.assoc drop_Cons' Suc_diff_Suc)
qed simp

lemma chunk_small: "cdc_ok fastcdc \<Longrightarrow> \<forall>d \<in> set (chunks fastcdc xs). length d < 2 ^ 32"
  using chunk_size by (fastforce simp: CDC_MAX_def)

lemma entry_for_eq:
  assumes "cdc_ok fastcdc" and "\<And>n. distinct (order n) \<and> set (order n) = {..<n}" and "readable (snd f)"
  shows "entry_for fastcdc blake3 order (snd f) (fst f) = Some (Inr (file_entry fastcdc blake3 f))"
  using emit_ignoring [OF chunk_small [OF assms(1), of "content (snd f)"], of blake3 "[]" 0]
    chunk_file_emits [OF assms(1,3,2), of blake3 "\<lambda>_ _ s. Inr s" "()"]
  by (simp add: entry_for_def file_entry_def batch_of_def chunk_bytes_chunks [OF assms(1)] concat_chunks [OF assms(1)])

lemma entries_of_eq:
  assumes "cdc_ok fastcdc" and "\<And>n. distinct (order n) \<and> set (order n) = {..<n}" and "\<forall>f \<in> set fl. readable (snd f)"
  shows "entries_of fastcdc blake3 order fl = Some (Inr (map (file_entry fastcdc blake3) fl))"
  using assms(3)
proof (induction fl)
  case (Cons f fl)
  then show ?case using entry_for_eq [OF assms(1,2), of f] by (cases f) simp
qed simp

lemma stream_entry_eq:
  assumes "cdc_ok fastcdc" and "\<And>n. distinct (order n) \<and> set (order n) = {..<n}" and "\<And>m. wr m = None"
    and "sendable fastcdc blake3 (snd f)"
  shows "stream_entry fastcdc blake3 order wr (snd f) en r = Some (Inr (stream_of fastcdc f r))"
proof -
  let ?ds = "chunks fastcdc (content (snd f))"
  have "length ?ds < 2 ^ 32" "readable (snd f)" using assms(4) by (simp_all add: sendable_def MAX_CHUNKS_PER_FILE_def)
  then show ?thesis
    using emit_chunk_sink [OF chunk_small [OF assms(1), of "content (snd f)"], of 0 wr r blake3 "[]" 0 "[]"]
      chunk_file_emits [OF assms(1) _ assms(2), of "snd f" blake3 "chunk_sink wr r" "(0, [], None)"]
    by (simp add: stream_entry_def stream_of_def batch_of_def assms(3))
qed

lemma stream_entries_eq:
  assumes "cdc_ok fastcdc" and "\<And>n. distinct (order n) \<and> set (order n) = {..<n}" and "\<And>m. wr m = None"
    and "length rs = length fl" and "\<forall>f \<in> set fl. sendable fastcdc blake3 (snd f) \<and> files (fst f) = snd f"
  shows "stream_entries fastcdc blake3 order wr files (zip (map (file_entry fastcdc blake3) fl) rs)
    = Some (Inr (concat (map2 (stream_of fastcdc) fl rs) @ [SAllDone]))"
  using assms(4,5)
proof (induction rs fl rule: list_induct2)
  case (Cons r rs f fl)
  then show ?case using stream_entry_eq [OF assms(1-3), of blake3 f] by (simp add: file_entry_def)
qed (simp add: assms(3))

section \<open>What the receiver makes of it\<close>

lemma recv_stream:
  assumes "cdc_ok fastcdc" and "idx \<le> length ds"
  shows "\<exists>part'. recv_entry blake3 \<lparr>se_path = p, se_size = sz, se_chunks = map (chunk_ref_of blake3) ds\<rparr> idx part
    (map (Inr \<circ> SChunk) (drop idx ds) @ Inr SEntryDone # rest) = (part', Inr (length ds, rest))"
  using assms(2)
proof (induction "length ds - idx" arbitrary: idx part)
  case 0
  then show ?case by simp
next
  case (Suc k)
  then have "drop idx ds = ds ! idx # drop (Suc idx) ds" by (simp add: Cons_nth_drop_Suc)
  moreover have "chunk_ok blake3 (chunk_ref_of blake3 (ds ! idx)) (ds ! idx)" by (simp add: chunk_ok_def chunk_ref_of_def)
  ultimately show ?case using Suc(1) [of "Suc idx" "part @ ds ! idx"] Suc(2,3) by simp
qed

lemma recv_entries_honest:
  assumes "cdc_ok fastcdc" and "length rs = length fl" and "staged_from blake3 mid i (zip (map (file_entry fastcdc blake3) fl) rs) fs"
  shows "\<exists>fs'. recv_entries blake3 mid i (zip (map (file_entry fastcdc blake3) fl) rs)
    (map Inr (concat (map2 (stream_of fastcdc) fl rs) @ [SAllDone])) fs = (fs', Inr [])"
  using assms(2,3)
proof (induction rs fl arbitrary: i fs rule: list_induct2)
  case (Cons r rs f fl)
  let ?en = "file_entry fastcdc blake3 f" and ?ds = "chunks fastcdc (content (snd f))"
  let ?rest = "map Inr (concat (map2 (stream_of fastcdc) fl rs) @ [SAllDone])"
  have ch: "se_chunks ?en = map (chunk_ref_of blake3) ?ds" by (simp add: file_entry_def chunk_bytes_chunks [OF assms(1)])
  have "unat r \<le> length ?ds" using Cons.prems holds_le ch by fastforce
  have en: "\<lparr>se_path = se_path ?en, se_size = se_size ?en, se_chunks = map (chunk_ref_of blake3) ?ds\<rparr> = ?en"
    by (simp add: file_entry_def chunk_bytes_chunks [OF assms(1)])
  from recv_stream [OF assms(1) \<open>unat r \<le> length ?ds\<close>, of blake3 "se_path ?en" "se_size ?en" "unwrap_or [] (fs (stage_path mid i))" ?rest]
  obtain part where e: "recv_entry blake3 ?en (unat r) (unwrap_or [] (fs (stage_path mid i)))
      (map Inr (stream_of fastcdc f r) @ ?rest) = (part, Inr (length ?ds, ?rest))"
    unfolding en by (auto simp: stream_of_def [of fastcdc f r])
  let ?fs = "fs(stage_path mid i \<mapsto> part)"
  have "staged_from blake3 mid (Suc i) (zip (map (file_entry fastcdc blake3) fl) rs) ?fs"
    using Cons.prems staged_from_cong [of "Suc i" fs mid ?fs] by simp
  then obtain fs' where "recv_entries blake3 mid (Suc i) (zip (map (file_entry fastcdc blake3) fl) rs) ?rest ?fs = (fs', Inr [])"
    using Cons.IH by blast
  then show ?case using e ch by (intro exI [of _ fs']) (simp add: Let_def)
qed simp

section \<open>The whole exchange\<close>

lemma validate_honest:
  assumes "cdc_ok fastcdc" and "\<forall>f \<in> set fl. sendable fastcdc blake3 (snd f) \<and> (\<exists>p. sanitize_rel_path (fst f) = Ok p)"
  shows "validate_entries (map (file_entry fastcdc blake3) fl) = Inr ()"
  using assms(2)
proof (induction fl)
  case (Cons f fl)
  have "check_manifest (se_chunks (file_entry fastcdc blake3 f)) (se_size (file_entry fastcdc blake3 f)) = Ok ()"
    using Cons.prems manifest_size_ok [OF assms(1)] by (simp add: file_entry_def sendable_def)
  then show ?case using Cons by (auto simp: validate_entry_def file_entry_def)
qed simp

lemma verified_is_content:
  assumes "cdc_ok fastcdc" and "sendable fastcdc blake3 rds" and "list_all2 (chunk_ok blake3) (chunk_bytes fastcdc blake3 (content rds)) ds"
  shows "concat ds = content rds"
proof -
  have "list_all2 (\<lambda>d b. blake3 b = blake3 d) (chunks fastcdc (content rds)) ds"
    using assms(3) by (simp add: chunk_bytes_chunks [OF assms(1)] list.rel_map chunk_ok_def chunk_ref_of_def list_all2_conv_all_nth)
  then have l: "length ds = length (chunks fastcdc (content rds))" "\<And>i. i < length ds \<Longrightarrow> blake3 (ds ! i) = blake3 (chunks fastcdc (content rds) ! i)"
    by (auto simp: list_all2_conv_all_nth)
  have "ds = chunks fastcdc (content rds)"
  proof (rule nth_equalityI [OF l(1)])
    fix i assume "i < length ds"
    then show "ds ! i = chunks fastcdc (content rds) ! i" using l assms(2) unfolding sendable_def by (metis nth_mem)
  qed
  then show ?thesis using concat_chunks [OF assms(1)] by simp
qed



section \<open>Large offers\<close>

lemma serve_needs_manifest:
  assumes "wr (SManifest entries) = Some e"
  shows "serve_one mac fastcdc blake3 order wr secret s r nonce_s entries files inp \<noteq> Some (out, Inr ())"
  using assms by (auto simp: serve_one_def serve_offer_def Let_def split: sum.splits option.splits send_msg.splits if_splits)

lemma serve_loop_fails: "\<forall>c \<in> set cs. c \<noteq> Some (Inr ()) \<Longrightarrow> serve_loop cs = Inl ''ticket expired before anyone received it''"
  by (induction cs rule: serve_loop.induct) auto

text \<open>
  The manifest goes out in a single frame: when it encodes to more than the frame cap (some 120\,000 chunks, a few gigabytes) the
  sender hands out a ticket that no receiver can redeem, however many try and whatever they send.
\<close>

theorem oversized_offer_never_completes:
  assumes "ser (SManifest entries) = Some body" and "MAX_FRAME < length body"
  shows "serve_loop (map (\<lambda>inp. map_option snd (serve_one mac fastcdc blake3 order (frame_error ser) secret s r nonce_s entries files inp)) inps)
    = Inl ''ticket expired before anyone received it''"
proof (rule serve_loop_fails)
  have "frame_error ser (SManifest entries) = Some (''frame body '' @ show_nat (length body) @ '' exceeds cap'')"
    using assms by (simp add: frame_error_def write_frame_def)
  from serve_needs_manifest [of "frame_error ser", OF this]
  show "\<forall>c \<in> set (map (\<lambda>inp. map_option snd (serve_one mac fastcdc blake3 order (frame_error ser) secret s r nonce_s entries files inp)) inps).
      c \<noteq> Some (Inr ())" by auto
qed

theorem oversized_offer_never_completes_witness:
  "serve_loop (map (\<lambda>inp. map_option snd (serve_one (\<lambda>k x. k @ x) fixed_cdc (\<lambda>d. d) (\<lambda>n. [0..<n])
      (frame_error (\<lambda>_. Some (replicate (Suc MAX_FRAME) 0))) [7] [3] [4] [5] [] (\<lambda>_. []) inp)) [[Inr (SHello [6])], []])
    = Inl ''ticket expired before anyone received it''"
  by (rule oversized_offer_never_completes [where body = "replicate (Suc MAX_FRAME) 0"]) simp_all

end
