(* ===== verification/SessionAdmin.thy ===== *)
theory SessionAdmin
  imports Versions
begin

text \<open>
  Creating, joining and rekeying a session, and the network set-up (\<^verbatim>\<open>src/cli.rs\<close>, \<^verbatim>\<open>src/net/endpoint.rs\<close>, the offline invite of
  \<^verbatim>\<open>src/home.rs\<close>).  The functions are over the persisted state; random values and fresh keys are arguments, the key library is the
  record \<open>key_env\<close>.  Refusals carry the code's message in short.
\<close>

section \<open>Keys\<close>

text \<open>
  \<open>ke_from\<close> is \<^verbatim>\<open>SecretKey::from_bytes\<close>, \<open>ke_public\<close> the bytes of the public key, \<open>ke_id\<close> the printed endpoint id of a byte string if it is
  a valid key.
\<close>

record 'sk key_env =
  ke_crypto :: "'sk crypto"
  ke_from :: "bytes \<Rightarrow> 'sk"
  ke_public :: "'sk \<Rightarrow> bytes"
  ke_hex :: "bytes \<Rightarrow> string"
  ke_unhex :: "string \<Rightarrow> bytes option"
  ke_id :: "bytes \<Rightarrow> string option"

datatype cli_error = Refused string | CliTicket ticket_error | CliConfig config_error

definition decode_hex32 :: "'sk key_env \<Rightarrow> string \<Rightarrow> bytes option" where
  "decode_hex32 ke s = (case ke_unhex ke s of None \<Rightarrow> None | Some b \<Rightarrow> if length b = 32 then Some b else None)"

definition bare_addr :: "bytes \<Rightarrow> addr_wire" where
  "bare_addr i = \<lparr>aw_id = i, aw_relay = None, aw_direct = []\<rparr>"

definition self_grant :: "'sk key_env \<Rightarrow> 'sk \<Rightarrow> bytes \<Rightarrow> u64 \<Rightarrow> signed_grant" where
  "self_grant ke admin invite_id now =
     sign_grant (ke_crypto ke) admin \<lparr>g_role = ROLE_EDITOR, g_invite_id = invite_id, g_issued_ms = now, g_expiry_ms = 0\<rparr>"

definition my_endpoint_id :: "'sk key_env \<Rightarrow> app_state \<Rightarrow> cli_error + bytes" where
  "my_endpoint_id ke st =
     (case decode_hex32 ke (as_iroh_secret_key st) of
        None \<Rightarrow> Inl (Refused ''state has no valid endpoint key'')
      | Some sk \<Rightarrow> Inr (ke_public ke (ke_from ke sk)))"

section \<open>Init and join\<close>

text \<open>\<open>exists\<close>: the folder is a session already; \<open>can_host\<close>: the local socket can be made there.\<close>

definition init_state :: "'sk key_env \<Rightarrow> 'sk \<Rightarrow> bytes \<Rightarrow> 'sk \<Rightarrow> bytes \<Rightarrow> u64 \<Rightarrow> app_state" where
  "init_state ke node session_secret admin grant_id now =
     (new_state (ke_hex ke (sk_bytes (ke_crypto ke) node)) (ke_hex ke session_secret))
       \<lparr>as_admin_public_key := Some (ke_hex ke (ke_public ke admin)),
        as_admin_secret_key := Some (ke_hex ke (sk_bytes (ke_crypto ke) admin)),
        as_my_grant := Some (self_grant ke admin grant_id now)\<rparr>"

definition init_session ::
  "'sk key_env \<Rightarrow> bool \<Rightarrow> bool \<Rightarrow> 'sk \<Rightarrow> bytes \<Rightarrow> 'sk \<Rightarrow> bytes \<Rightarrow> bytes \<Rightarrow> u64 \<Rightarrow> cli_error + (app_state \<times> ticket)" where
  "init_session ke exists can_host node session_secret admin grant_id invite_id now =
     (if exists then Inl (Refused ''this folder is already a tazamun session'')
      else if \<not> can_host then Inl (Refused ''cannot host'')
      else Inr (init_state ke node session_secret admin grant_id now,
        mint_ticket (ke_crypto ke) session_secret (Some (admin, ke_public ke admin)) ROLE_EDITOR invite_id now 0
          [bare_addr (ke_public ke node)]))"

text \<open>The address book of a ticket: every bootstrap address with a valid id other than the own one.\<close>

fun seed_members :: "'sk key_env \<Rightarrow> bytes \<Rightarrow> addr_wire list \<Rightarrow> (string, addr_wire) btree \<Rightarrow> (string, addr_wire) btree" where
  "seed_members ke me [] m = m"
| "seed_members ke me (a # as) m =
     (case ke_id ke (aw_id a) of
        Some i \<Rightarrow> seed_members ke me as (if aw_id a \<noteq> me then bt_insert i a m else m)
      | None \<Rightarrow> seed_members ke me as m)"

definition check_grant :: "'sk key_env \<Rightarrow> bytes \<Rightarrow> signed_grant \<Rightarrow> u64 \<Rightarrow> cli_error + node_role" where
  "check_grant ke admin_public sg now =
     (if \<not> verify_grant (ke_crypto ke) sg admin_public then Inl (Refused ''failed signature verification'')
      else if is_expired (sg_grant sg) now then Inl (Refused ''this invite has expired'')
      else Inr (from_code (g_role (sg_grant sg))))"

definition adopt_grant :: "'sk key_env \<Rightarrow> ticket \<Rightarrow> bytes \<Rightarrow> signed_grant \<Rightarrow> node_role \<Rightarrow> app_state \<Rightarrow> app_state" where
  "adopt_grant ke t admin_public sg role st =
     st\<lparr>as_admin_public_key := Some (ke_hex ke admin_public),
        as_admin_secret_key := map_option (ke_hex ke) (t_admin_secret t),
        as_my_grant := Some sg,
        as_config := (as_config st)\<lparr>c_role := role\<rparr>\<rparr>"

definition join_state :: "'sk key_env \<Rightarrow> 'sk \<Rightarrow> ticket \<Rightarrow> u64 \<Rightarrow> cli_error + app_state" where
  "join_state ke node t now =
     (let st = new_state (ke_hex ke (sk_bytes (ke_crypto ke) node)) (ke_hex ke (t_secret t));
          seeded = (\<lambda>s. s\<lparr>as_known_members := seed_members ke (ke_public ke node) (t_bootstrap t) (as_known_members s)\<rparr>)
      in case (t_admin_public t, t_grant t) of
           (Some admin_public, Some sg) \<Rightarrow>
             (case check_grant ke admin_public sg now of
                Inl e \<Rightarrow> Inl e
              | Inr role \<Rightarrow> Inr (seeded (adopt_grant ke t admin_public sg role st)))
         | _ \<Rightarrow> Inr (seeded st))"

text \<open>\<open>names\<close>: what the folder holds already.\<close>

definition join_session :: "'sk key_env \<Rightarrow> ticket_codec \<Rightarrow> bool \<Rightarrow> string list \<Rightarrow> 'sk \<Rightarrow> string \<Rightarrow> u64 \<Rightarrow> cli_error + app_state" where
  "join_session ke tc exists names node ticket_str now =
     (if exists then Inl (Refused ''this folder is already a tazamun session'')
      else if list_ex (\<lambda>n. \<not> eq_ignore_ascii_case n ''.tazamun'') names then Inl (Refused ''join requires an empty folder'')
      else case decode_ticket tc ticket_str of
        Inl e \<Rightarrow> Inl (CliTicket e)
      | Inr t \<Rightarrow> join_state ke node t now)"

section \<open>Rekeying\<close>

definition admin_secret_key :: "'sk key_env \<Rightarrow> app_state \<Rightarrow> 'sk option" where
  "admin_secret_key ke st = map_option (ke_from ke) (Option.bind (as_admin_secret_key st) (decode_hex32 ke))"

text \<open>The bootstrap address is made the way the code makes it: from the endpoint id read as a secret key.\<close>

definition rekey_rotate ::
  "'sk key_env \<Rightarrow> bytes \<Rightarrow> 'sk \<Rightarrow> bytes \<Rightarrow> bytes \<Rightarrow> u64 \<Rightarrow> app_state \<Rightarrow> cli_error + (app_state \<times> ticket)" where
  "rekey_rotate ke new_secret admin grant_id invite_id now st =
     (if admin_secret_key ke st = None then Inl (Refused ''this session predates roles (no admin key)'')
      else
        let st' = st\<lparr>as_session_secret := ke_hex ke new_secret,
                     as_admin_public_key := Some (ke_hex ke (ke_public ke admin)),
                     as_admin_secret_key := Some (ke_hex ke (sk_bytes (ke_crypto ke) admin)),
                     as_my_grant := Some (self_grant ke admin grant_id now),
                     as_known_members := []\<rparr>
        in case my_endpoint_id ke st' of
             Inl e \<Rightarrow> Inl e
           | Inr i \<Rightarrow>
               let me = ke_public ke (ke_from ke i)
               in Inr (st', mint_ticket (ke_crypto ke) new_secret (Some (admin, ke_public ke admin)) ROLE_EDITOR invite_id now 0 [bare_addr me]))"

definition rekey_adopt :: "'sk key_env \<Rightarrow> ticket \<Rightarrow> u64 \<Rightarrow> app_state \<Rightarrow> cli_error + (app_state \<times> node_role)" where
  "rekey_adopt ke t now st =
     (case (t_admin_public t, t_grant t) of
        (Some admin_public, Some sg) \<Rightarrow>
          (case check_grant ke admin_public sg now of
             Inl e \<Rightarrow> Inl e
           | Inr role \<Rightarrow>
               (case my_endpoint_id ke st of
                  Inl e \<Rightarrow> Inl e
                | Inr me \<Rightarrow>
                    Inr ((adopt_grant ke t admin_public sg role (st\<lparr>as_session_secret := ke_hex ke (t_secret t)\<rparr>))
                           \<lparr>as_known_members := seed_members ke me (t_bootstrap t) []\<rparr>, role)))
      | _ \<Rightarrow> Inl (Refused ''rekey --accept needs a v2 invite''))"

definition offline_invite :: "'sk key_env \<Rightarrow> bytes \<Rightarrow> u64 \<Rightarrow> app_state \<Rightarrow> ticket option" where
  "offline_invite ke invite_id now st =
     (case (decode_hex32 ke (as_session_secret st), decode_hex32 ke (as_iroh_secret_key st)) of
        (Some secret, Some sk) \<Rightarrow>
          (let bootstrap = bare_addr (ke_public ke (ke_from ke sk)) # map snd (as_known_members st)
           in Some (case (admin_secret_key ke st, Option.bind (as_admin_public_key st) (decode_hex32 ke)) of
                (Some admin, Some admin_pub) \<Rightarrow>
                  mint_ticket (ke_crypto ke) secret (Some (admin, admin_pub)) ROLE_EDITOR invite_id now 0 bootstrap
              | _ \<Rightarrow> new_ticket secret bootstrap))
      | _ \<Rightarrow> None)"

section \<open>The network configuration\<close>

record net_flags =
  nf_relay :: "string option"
  nf_no_relay :: bool
  nf_no_lan :: bool
  nf_airgap :: bool

text \<open>The two hooks for tests are always None here and are left out.\<close>

record net_config =
  nc_relay :: relay_choice
  nc_lan :: bool
  nc_airgap :: bool

definition flag_relay :: "config_lib \<Rightarrow> net_flags \<Rightarrow> (relay_choice, config_error) res \<Rightarrow> (relay_choice, config_error) res" where
  "flag_relay lib flags otherwise =
     (case (nf_relay flags, nf_no_relay flags) of
        (Some url, _) \<Rightarrow> relay_parse lib url
      | (None, True) \<Rightarrow> Ok RelayDisabled
      | (None, False) \<Rightarrow> otherwise)"

definition resolve_net_config :: "config_lib \<Rightarrow> session_config \<Rightarrow> net_flags \<Rightarrow> (net_config, config_error) res" where
  "resolve_net_config lib saved flags =
     (let airgap = (nf_airgap flags \<or> c_airgap saved);
          relay = (if airgap then Ok RelayDisabled else flag_relay lib flags (relay_parse lib (c_relay saved)))
      in case relay of
           Inl e \<Rightarrow> Inl e
         | Inr r \<Rightarrow> Ok \<lparr>nc_relay = r, nc_lan = (airgap \<or> (c_lan saved \<and> \<not> nf_no_lan flags)), nc_airgap = airgap\<rparr>)"

definition net_config_from_flags :: "config_lib \<Rightarrow> net_flags \<Rightarrow> (net_config, config_error) res" where
  "net_config_from_flags lib flags =
     (let airgap = nf_airgap flags; relay = (if airgap then Ok RelayDisabled else flag_relay lib flags (Ok RelayDefault))
      in case relay of
           Inl e \<Rightarrow> Inl e
         | Inr r \<Rightarrow> Ok \<lparr>nc_relay = r, nc_lan = (airgap \<or> \<not> nf_no_lan flags), nc_airgap = airgap\<rparr>)"

definition persist_net_flags :: "config_lib \<Rightarrow> net_flags \<Rightarrow> session_config \<Rightarrow> (session_config, config_error) res" where
  "persist_net_flags lib flags c =
     (let relay = (case nf_relay flags of
            Some url \<Rightarrow> (case relay_parse lib url of Inl e \<Rightarrow> Inl e | Inr ch \<Rightarrow> Ok (to_config_string ch))
          | None \<Rightarrow> Ok (if nf_no_relay flags then ''none'' else c_relay c))
      in case relay of
           Inl e \<Rightarrow> Inl e
         | Inr r \<Rightarrow> Ok (c\<lparr>c_relay := r, c_lan := (c_lan c \<and> \<not> nf_no_lan flags), c_airgap := (c_airgap c \<or> nf_airgap flags)\<rparr>))"

text \<open>What the endpoint is built with: the discovery preset, the relays, and local discovery.\<close>

datatype preset = PresetN0 | PresetMinimal
datatype relay_mode = RelayModeDefault | RelayModeCustom string | RelayModeDisabled

definition relay_mode_for :: "net_config \<Rightarrow> relay_mode" where
  "relay_mode_for cfg =
     (if nc_airgap cfg then RelayModeDisabled
      else case nc_relay cfg of RelayDefault \<Rightarrow> RelayModeDefault | RelayCustom url \<Rightarrow> RelayModeCustom url | RelayDisabled \<Rightarrow> RelayModeDisabled)"

record endpoint_plan =
  ep_preset :: preset
  ep_relay :: relay_mode
  ep_mdns :: bool

definition build_endpoint :: "net_config \<Rightarrow> endpoint_plan" where
  "build_endpoint cfg =
     (if nc_airgap cfg then \<lparr>ep_preset = PresetMinimal, ep_relay = RelayModeDisabled, ep_mdns = nc_lan cfg\<rparr>
      else \<lparr>ep_preset = PresetN0,
            ep_relay = (case nc_relay cfg of RelayDefault \<Rightarrow> RelayModeDefault | RelayCustom url \<Rightarrow> RelayModeCustom url | RelayDisabled \<Rightarrow> RelayModeDisabled),
            ep_mdns = nc_lan cfg\<rparr>)"

end
