(* ===== verification/AdminProps.thy ===== *)
theory AdminProps
  imports SessionAdmin
begin

text \<open>
  What creating, joining and rekeying a session guarantees: a node that joins with the founder's ticket shares the session's keys and finds the
  founder; a rekeyed node shares the new keys but is given an address that is nobody's; airgap mode leaves no
  external service configured, whatever else is set.
\<close>

section \<open>Keys\<close>

text \<open>What the code relies on of the key library: keys and their hexadecimal form read back, and a signature verifies under its own public key.\<close>

definition keys_ok :: "'sk key_env \<Rightarrow> bool" where
  "keys_ok ke \<longleftrightarrow>
     (\<forall>b. ke_unhex ke (ke_hex ke b) = Some b)
     \<and> (\<forall>k. length (sk_bytes (ke_crypto ke) k) = 32 \<and> ke_from ke (sk_bytes (ke_crypto ke) k) = k)
     \<and> (\<forall>k m. pk_verify (ke_crypto ke) (ke_public ke k) m (sk_sign (ke_crypto ke) k m))
     \<and> (\<forall>a b i. ke_id ke a = Some i \<longrightarrow> ke_id ke b = Some i \<longrightarrow> a = b)"

lemma unhex_key: "keys_ok ke \<Longrightarrow> decode_hex32 ke (ke_hex ke (sk_bytes (ke_crypto ke) k)) = Some (sk_bytes (ke_crypto ke) k)"
  by (simp add: keys_ok_def decode_hex32_def)

lemma from_key: "keys_ok ke \<Longrightarrow> ke_from ke (sk_bytes (ke_crypto ke) k) = k"
  by (simp add: keys_ok_def)

lemma signed_verifies: "keys_ok ke \<Longrightarrow> verify_grant (ke_crypto ke) (sign_grant (ke_crypto ke) k g) (ke_public ke k)"
  by (simp add: keys_ok_def verify_grant_def sign_grant_def)

lemma fresh_grant_ok:
  assumes "keys_ok ke" and "mint_ticket (ke_crypto ke) s (Some (admin, ke_public ke admin)) ROLE_EDITOR iid now 0 bs = t"
  obtains sg where "t_grant t = Some sg" "t_admin_public t = Some (ke_public ke admin)" "t_admin_secret t = Some (sk_bytes (ke_crypto ke) admin)"
    "t_secret t = s" "t_bootstrap t = bs" "check_grant ke (ke_public ke admin) sg now' = Inr Editor"
  using assms signed_verifies [OF assms(1)]
  by (auto simp: mint_ticket_def check_grant_def is_expired_def role_can_edit_def sign_grant_def from_code_def)

lemma aw_id_bare [simp]: "aw_id (bare_addr i) = i"
  by (simp add: bare_addr_def)

section \<open>Properties\<close>

text \<open>
  Joining with the founder's ticket works: whoever joins with the ticket that init printed has the same session secret and admin keys as the founder, is an
  editor with a grant that verifies, and has the founder in its address book.
\<close>

theorem init_then_join:
  assumes "keys_ok ke" and "init_session ke False True node secret admin grant_id invite_id now = Inr (st, t)"
    and "ke_id ke (ke_public ke node) = Some i" and "ke_public ke node \<noteq> ke_public ke node'"
  shows "\<exists>st'. join_state ke node' t now' = Inr st'
    \<and> as_session_secret st' = as_session_secret st \<and> as_admin_public_key st' = as_admin_public_key st
    \<and> as_admin_secret_key st' = as_admin_secret_key st \<and> c_role (as_config st') = Editor
    \<and> is_some_and (\<lambda>sg. verify_grant (ke_crypto ke) sg (ke_public ke admin)) (as_my_grant st')
    \<and> bt_get (as_known_members st') i = Some (bare_addr (ke_public ke node))"
proof -
  have st: "st = init_state ke node secret admin grant_id now"
    and t: "mint_ticket (ke_crypto ke) secret (Some (admin, ke_public ke admin)) ROLE_EDITOR invite_id now 0 [bare_addr (ke_public ke node)] = t"
    using assms(2) by (simp_all add: init_session_def)
  obtain sg where sg: "t_grant t = Some sg" "t_admin_public t = Some (ke_public ke admin)" "t_admin_secret t = Some (sk_bytes (ke_crypto ke) admin)"
    "t_secret t = secret" "t_bootstrap t = [bare_addr (ke_public ke node)]" "check_grant ke (ke_public ke admin) sg now' = Inr Editor"
    by (rule fresh_grant_ok [OF assms(1) t])
  have "verify_grant (ke_crypto ke) sg (ke_public ke admin)" using sg(6) by (auto simp: check_grant_def split: if_splits)
  moreover have "join_state ke node' t now' = Inr ((adopt_grant ke t (ke_public ke admin) sg Editor
      (new_state (ke_hex ke (sk_bytes (ke_crypto ke) node')) (ke_hex ke secret)))\<lparr>as_known_members := bt_insert i (bare_addr (ke_public ke node)) []\<rparr>)"
    using assms(3,4) by (simp add: join_state_def sg Let_def adopt_grant_def new_state_def)
  ultimately show ?thesis by (simp add: adopt_grant_def st init_state_def new_state_def is_some_and_def sg bt_get_def)
qed

text \<open>
  After a rekey the members share the new keys but cannot reach each other: the ticket of a rotation names as its address the public key of the
  rotating node's public key, so a member that accepts it has no entry for that node, and the rotating node has forgotten
  everybody.
\<close>

theorem rekey_loses_the_address:
  assumes "keys_ok ke" and "rekey_rotate ke new_secret admin grant_id invite_id now st = Inr (st', t)"
    and "my_endpoint_id ke st = Inr me" and "ke_id ke me = Some i" and "ke_public ke (ke_from ke me) \<noteq> me"
    and "rekey_adopt ke t now' kept = Inr (kept', role)"
  shows "as_session_secret kept' = as_session_secret st' \<and> as_admin_public_key kept' = as_admin_public_key st'
    \<and> as_known_members st' = [] \<and> bt_get (as_known_members kept') i = None"
proof -
  let ?me' = "ke_public ke (ke_from ke me)"
  have m: "my_endpoint_id ke (st\<lparr>as_session_secret := a, as_admin_public_key := b, as_admin_secret_key := c, as_my_grant := d, as_known_members := e\<rparr>)
      = Inr me" for a b c d e using assms(3) by (simp add: my_endpoint_id_def)
  have st': "as_session_secret st' = ke_hex ke new_secret" "as_admin_public_key st' = Some (ke_hex ke (ke_public ke admin))" "as_known_members st' = []"
    and t: "mint_ticket (ke_crypto ke) new_secret (Some (admin, ke_public ke admin)) ROLE_EDITOR invite_id now 0 [bare_addr ?me'] = t"
    using assms(2) m by (auto simp: rekey_rotate_def Let_def split: if_splits)
  obtain sg where sg: "t_grant t = Some sg" "t_admin_public t = Some (ke_public ke admin)" "t_admin_secret t = Some (sk_bytes (ke_crypto ke) admin)"
    "t_secret t = new_secret" "t_bootstrap t = [bare_addr ?me']" "check_grant ke (ke_public ke admin) sg now' = Inr Editor"
    by (rule fresh_grant_ok [OF assms(1) t])
  have other: "ke_id ke ?me' \<noteq> Some i" using assms(1,4,5) unfolding keys_ok_def by blast
  obtain my where "my_endpoint_id ke kept = Inr my" using assms(6) sg by (auto simp: rekey_adopt_def split: sum.splits)
  then have "as_known_members kept' = seed_members ke my [bare_addr ?me'] []" "as_session_secret kept' = ke_hex ke new_secret"
    "as_admin_public_key kept' = Some (ke_hex ke (ke_public ke admin))"
    using assms(6) sg by (auto simp: rekey_adopt_def adopt_grant_def)
  then show ?thesis using st' other by (auto simp: bt_get_def split: option.split)
qed

text \<open>The steps succeed: a founder's state has an endpoint key and an admin key, and a fresh ticket is accepted.\<close>

lemma my_id_init: "keys_ok ke \<Longrightarrow> my_endpoint_id ke (init_state ke node s admin g now) = Inr (ke_public ke node)"
  by (simp add: my_endpoint_id_def init_state_def new_state_def unhex_key from_key)

lemma my_id_join:
  assumes "keys_ok ke" and "join_state ke node t now = Inr st"
  shows "my_endpoint_id ke st = Inr (ke_public ke node)"
proof -
  have "as_iroh_secret_key st = ke_hex ke (sk_bytes (ke_crypto ke) node)"
    using assms(2) by (auto simp: join_state_def new_state_def adopt_grant_def Let_def split: option.splits sum.splits)
  then show ?thesis using assms(1) by (simp add: my_endpoint_id_def unhex_key from_key)
qed

lemma joined_exists:
  assumes "keys_ok ke" and "init_session ke False True node secret admin grant_id invite_id now = Inr (st, t)"
  shows "\<exists>st'. join_state ke node' t now' = Inr st'"
proof -
  have "mint_ticket (ke_crypto ke) secret (Some (admin, ke_public ke admin)) ROLE_EDITOR invite_id now 0 [bare_addr (ke_public ke node)] = t"
    using assms(2) by (simp add: init_session_def)
  then obtain sg where "t_grant t = Some sg" "t_admin_public t = Some (ke_public ke admin)" "check_grant ke (ke_public ke admin) sg now' = Inr Editor"
    by (rule fresh_grant_ok [OF assms(1)])
  then show ?thesis by (simp add: join_state_def Let_def)
qed

lemma rotated_exists:
  assumes "keys_ok ke"
  shows "\<exists>st' t. rekey_rotate ke new_secret admin' gid iid now' (init_state ke node s admin g now) = Inr (st', t)"
proof -
  have "admin_secret_key ke (init_state ke node s admin g now) = Some admin"
    by (simp add: admin_secret_key_def init_state_def unhex_key [OF assms] from_key [OF assms])
  then show ?thesis
    using my_id_init [OF assms, of node s admin g now] by (simp add: rekey_rotate_def Let_def my_endpoint_id_def split: option.splits)
qed

lemma adopted_exists:
  assumes "keys_ok ke" and "rekey_rotate ke new_secret admin gid iid now st = Inr (st', t)" and "join_state ke node t0 now0 = Inr kept"
  shows "\<exists>kept' role. rekey_adopt ke t now' kept = Inr (kept', role)"
proof -
  obtain bs where "mint_ticket (ke_crypto ke) new_secret (Some (admin, ke_public ke admin)) ROLE_EDITOR iid now 0 bs = t"
    using assms(2) by (auto simp: rekey_rotate_def Let_def split: if_splits sum.splits)
  then obtain sg where "t_grant t = Some sg" "t_admin_public t = Some (ke_public ke admin)" "check_grant ke (ke_public ke admin) sg now' = Inr Editor"
    by (rule fresh_grant_ok [OF assms(1)])
  then show ?thesis using my_id_join [OF assms(1,3)] by (simp add: rekey_adopt_def)
qed

text \<open>A key library for the examples: a secret key is a byte, written 32 times; the public key is the next byte.\<close>

definition demo_hex :: "bytes \<Rightarrow> string" where "demo_hex b = map (\<lambda>w. char_of (unat w)) b"

definition demo_keys :: "u8 key_env" where
  "demo_keys = \<lparr>ke_crypto = \<lparr>sk_sign = (\<lambda>k m. replicate 32 (k + 1) @ m), sk_bytes = (\<lambda>k. replicate 32 k),
       pk_verify = (\<lambda>p m s. s = p @ m), ser_grant = (\<lambda>_. Some [])\<rparr>,
     ke_from = (\<lambda>b. case b of [] \<Rightarrow> 0 | w # _ \<Rightarrow> w), ke_public = (\<lambda>k. replicate 32 (k + 1)), ke_hex = demo_hex,
     ke_unhex = (\<lambda>s. Some (map (\<lambda>c. of_nat (of_char c)) s)), ke_id = (\<lambda>b. Some (demo_hex b))\<rparr>"

lemma demo_unhex: "map (\<lambda>c. of_nat (of_char c)) (demo_hex b) = (b :: bytes)"
proof -
  have "of_nat (of_char (char_of (unat w))) = w" for w :: u8
    using unsigned_less [of w, where ?'a = nat] by (simp add: of_char_of)
  then show ?thesis by (simp add: demo_hex_def comp_def)
qed

lemma demo_keys_ok: "keys_ok demo_keys"
proof -
  have "a = b" if "demo_hex a = demo_hex b" for a b using demo_unhex [of a] demo_unhex [of b] unfolding that by (rule trans [OF sym])
  moreover have "(case replicate 32 k of [] \<Rightarrow> 0 | w # _ \<Rightarrow> w) = (k :: u8)" for k by (simp add: numeral_eq_Suc)
  ultimately show ?thesis by (simp add: keys_ok_def demo_keys_def demo_unhex)
qed

theorem init_then_join_witness:
  "\<exists>st t st'. init_session demo_keys False True 5 [9] 7 [1] [2] 0 = Inr (st, t) \<and> join_state demo_keys 6 t 0 = Inr st'
    \<and> bt_get (as_known_members st') (demo_hex (replicate 32 6)) = Some (bare_addr (replicate 32 6))"
proof -
  obtain st t where i: "init_session demo_keys False True 5 [9] 7 [1] [2] 0 = Inr (st, t)" by (simp add: init_session_def)
  have "ke_id demo_keys (ke_public demo_keys 5) = Some (demo_hex (replicate 32 6))" by (simp add: demo_keys_def)
  from init_then_join [OF demo_keys_ok i this, of 6 0] obtain st' where "join_state demo_keys 6 t 0 = Inr st'"
    "bt_get (as_known_members st') (demo_hex (replicate 32 6)) = Some (bare_addr (ke_public demo_keys 5))"
    by (auto simp: demo_keys_def)
  then show ?thesis using i by (auto simp: demo_keys_def)
qed

theorem rekey_loses_the_address_witness:
  "\<exists>st t st' kept kept' role. init_session demo_keys False True 5 [9] 7 [1] [2] 0 = Inr (st, t) \<and> join_state demo_keys 6 t 0 = Inr kept
    \<and> (\<exists>t'. rekey_rotate demo_keys [8] 3 [1] [2] 1 st = Inr (st', t') \<and> rekey_adopt demo_keys t' 2 kept = Inr (kept', role))
    \<and> as_session_secret kept' = as_session_secret st' \<and> bt_get (as_known_members kept') (demo_hex (replicate 32 6)) = None"
proof -
  obtain st t where i: "init_session demo_keys False True 5 [9] 7 [1] [2] 0 = Inr (st, t)" and st: "st = init_state demo_keys 5 [9] 7 [1] 0"
    by (simp add: init_session_def)
  have n: "ke_id demo_keys (ke_public demo_keys 5) = Some (demo_hex (replicate 32 6))" by (simp add: demo_keys_def)
  obtain kept where k: "join_state demo_keys 6 t 0 = Inr kept" using joined_exists [OF demo_keys_ok i] by blast
  obtain st' t' where r: "rekey_rotate demo_keys [8] 3 [1] [2] 1 st = Inr (st', t')" using rotated_exists [OF demo_keys_ok] st by blast
  obtain kept' role where a: "rekey_adopt demo_keys t' 2 kept = Inr (kept', role)" using adopted_exists [OF demo_keys_ok r k] by blast
  have "my_endpoint_id demo_keys st = Inr (replicate 32 6)" using st my_id_init [OF demo_keys_ok] by (simp add: demo_keys_def)
  from rekey_loses_the_address [OF demo_keys_ok r this _ _ a] have "as_session_secret kept' = as_session_secret st'"
    "bt_get (as_known_members kept') (demo_hex (replicate 32 6)) = None"
    by (simp_all add: demo_keys_def numeral_eq_Suc)
  then show ?thesis using i k r a by blast
qed

section \<open>Airgap\<close>

text \<open>
  Airgap leaves nothing external: with the flag or the saved setting, whatever the other flags and settings say, the configuration is accepted, has no
  relays and no external address lookup, and finds peers on the local network only; without it a disabled relay stays disabled.
\<close>

theorem airgap_reaches_nothing_external:
  assumes "nf_airgap flags \<or> c_airgap saved"
  shows "\<exists>cfg. resolve_net_config lib saved flags = Ok cfg \<and> relay_mode_for cfg = RelayModeDisabled
    \<and> build_endpoint cfg = \<lparr>ep_preset = PresetMinimal, ep_relay = RelayModeDisabled, ep_mdns = True\<rparr>"
  using assms by (auto simp: resolve_net_config_def relay_mode_for_def build_endpoint_def Let_def)

theorem airgap_reaches_nothing_external_witness:
  "\<exists>cfg. resolve_net_config \<lparr>cl_parse_duration = (\<lambda>_. None), cl_format_duration = (\<lambda>_. []), cl_relay_url = Some\<rparr> (default_config\<lparr>c_lan := False\<rparr>)
      \<lparr>nf_relay = Some ''https://r'', nf_no_relay = False, nf_no_lan = True, nf_airgap = True\<rparr> = Ok cfg
    \<and> relay_mode_for cfg = RelayModeDisabled
    \<and> build_endpoint cfg = \<lparr>ep_preset = PresetMinimal, ep_relay = RelayModeDisabled, ep_mdns = True\<rparr>"
  by (rule airgap_reaches_nothing_external) simp

end
