(* ===== verification/LocalApi.thy ===== *)
theory LocalApi
  imports Query
begin

text \<open>
  The two local front doors of the daemon: the line protocol of the socket (\<^verbatim>\<open>src/ipc.rs\<close>) and the loopback dashboard
  (\<^verbatim>\<open>src/dashboard.rs\<close>).  Both turn bytes into the same requests and hand them to the daemon, which is a parameter here: the
  function \<open>daemon\<close> gives its reply, if it gives one.  JSON is a library; its parsers and printers are parameters.  Bytes are
  characters, as everywhere in this development.
\<close>

section \<open>Requests and replies\<close>

record audit_query =
  aq_path :: "string option"
  aq_peer :: "string option"
  aq_since_ms :: "u64 option"
  aq_kinds :: "string list"
  aq_offset :: nat
  aq_limit :: "nat option"
  aq_newest_first :: "bool option"

datatype ipc_request =
    RqStatus
  | RqLock string
  | RqLockWait string
  | RqUnlock string
  | RqInvite "string option" "u64 option"
  | RqVersions string
  | RqRestore string nat
  | RqTag string nat "string option"
  | RqPin string nat bool
  | RqDiff string nat
  | RqGc
  | RqDoctor
  | RqDashboardStart
  | RqDashboardInfo
  | RqDashboardState
  | RqConfigSet string string
  | RqPeerName string "string option"
  | RqConflicts
  | RqConflictApply string string
  | RqConflictDiscard string
  | RqShutdown
  | RqFiles files_query
  | RqAudit audit_query
  | RqConflictsPrunable u64

record 'j ipc_response =
  ir_ok :: bool
  ir_data :: "'j option"
  ir_error :: "(string \<times> string) option"

definition ipc_ok :: "'j \<Rightarrow> 'j ipc_response" where
  "ipc_ok data = \<lparr>ir_ok = True, ir_data = Some data, ir_error = None\<rparr>"

definition ipc_err :: "string \<Rightarrow> string \<Rightarrow> 'j ipc_response" where
  "ipc_err code message = \<lparr>ir_ok = False, ir_data = None, ir_error = Some (code, message)\<rparr>"

datatype ipc_error = LineTooLong | IpcProtocol

section \<open>The line protocol\<close>

definition IPC_LINE_MAX :: nat where "IPC_LINE_MAX = 1024 * 1024"

text \<open>What \<^verbatim>\<open>read_until\<close> takes: up to and including the newline, at most \<open>n\<close> bytes.\<close>

fun read_until :: "nat \<Rightarrow> string \<Rightarrow> string \<times> string" where
  "read_until n [] = ([], [])"
| "read_until 0 s = ([], s)"
| "read_until (Suc n) (c # s) =
     (if c = CHR 0x0A then ([c], s) else case read_until n s of (l, r) \<Rightarrow> (c # l, r))"

text \<open>\<open>lossy\<close> is the lossy UTF-8 decoding.\<close>

definition read_line_capped :: "(string \<Rightarrow> string) \<Rightarrow> string \<Rightarrow> ipc_error + (string \<times> string) option" where
  "read_line_capped lossy stream =
     (case read_until (IPC_LINE_MAX + 1) stream of
        (buf, rest) \<Rightarrow>
          if buf = [] then Inr None
          else if length buf > IPC_LINE_MAX then Inl LineTooLong
          else Inr (Some (trim (lossy buf), rest)))"

lemma read_until_split: "read_until n s = (l, r) \<Longrightarrow> s = l @ r \<and> length l \<le> n"
  by (induction n s arbitrary: l r rule: read_until.induct) (auto split: if_splits prod.splits)

text \<open>
  A daemon that is shutting down takes no request, and may drop one: \<open>daemon\<close> is None in the first case and gives None in the
  second.
\<close>

definition ipc_forward :: "(ipc_request \<Rightarrow> 'j ipc_response option) option \<Rightarrow> ipc_request \<Rightarrow> 'j ipc_response" where
  "ipc_forward daemon rq =
     (case daemon of
        None \<Rightarrow> ipc_err ''shutting_down'' ''daemon is shutting down''
      | Some d \<Rightarrow> unwrap_or (ipc_err ''internal'' ''daemon dropped the request'') (d rq))"

definition OVERSIZED :: string where
  "OVERSIZED = ''{\"ok\":false,\"error\":{\"code\":\"response_too_large\",\"message\":\"oversized\"}}''"

definition reply_line :: "('j ipc_response \<Rightarrow> string option) \<Rightarrow> 'j ipc_response \<Rightarrow> ipc_error + string" where
  "reply_line print response =
     (case print response of
        None \<Rightarrow> Inl IpcProtocol
      | Some out \<Rightarrow>
          Inr ((if length out \<ge> IPC_LINE_MAX
                then unwrap_or OVERSIZED (print (ipc_err ''response_too_large'' ''the daemon's response exceeded the IPC line limit''))
                else out) @ [CHR 0x0A]))"

definition answer_line ::
  "(string \<Rightarrow> ipc_request option) \<Rightarrow> (ipc_request \<Rightarrow> 'j ipc_response option) option \<Rightarrow> string \<Rightarrow> 'j ipc_response" where
  "answer_line parse daemon line =
     (case parse line of
        None \<Rightarrow> ipc_err ''bad_request'' ''unparseable request''
      | Some rq \<Rightarrow> ipc_forward daemon rq)"

lemma read_line_shorter: "read_line_capped lossy stream = Inr (Some (line, rest)) \<Longrightarrow> length rest < length stream"
  by (auto simp: read_line_capped_def dest!: read_until_split split: prod.splits if_splits)

text \<open>A connection: the lines it is sent, one after the other.  The replies written, and the error that ended it, if one did.\<close>

function serve_conn ::
  "(string \<Rightarrow> string) \<Rightarrow> (string \<Rightarrow> ipc_request option) \<Rightarrow> ('j ipc_response \<Rightarrow> string option)
     \<Rightarrow> (ipc_request \<Rightarrow> 'j ipc_response option) option \<Rightarrow> string \<Rightarrow> string list \<times> ipc_error option" where
  "serve_conn lossy parse print daemon stream =
     (case read_line_capped lossy stream of
        Inl e \<Rightarrow> ([], Some e)
      | Inr None \<Rightarrow> ([], None)
      | Inr (Some (line, rest)) \<Rightarrow>
          if line = [] then serve_conn lossy parse print daemon rest
          else case reply_line print (answer_line parse daemon line) of
            Inl e \<Rightarrow> ([], Some e)
          | Inr out \<Rightarrow> (case serve_conn lossy parse print daemon rest of (outs, e) \<Rightarrow> (out # outs, e)))"
  by pat_completeness auto

termination
  by (relation "measure (\<lambda>(_, _, _, _, stream). length stream)") (auto dest: read_line_shorter)

declare serve_conn.simps [simp del]

end
