(* ===== verification/Dashboard.thy ===== *)
theory Dashboard
  imports LocalApi Conflicts
begin

text \<open>
  The loopback dashboard (\<^verbatim>\<open>src/dashboard.rs\<close>): reading one HTTP request, the checks of its host and token, and the adapter from
  endpoints to daemon requests.  A connection delivers a list of reads (None is a read error, the end of the list the end of the
  stream).  The JSON and QR libraries and the page are the parameter \<open>dash_lib\<close>; the daemon is a parameter as for the socket.
  Every answer comes with the requests that were handed to the daemon for it, in order.
\<close>

section \<open>Libraries\<close>

text \<open>
  \<open>dl_value\<close> parses a JSON value, giving the library's message if it cannot; \<open>dl_get\<close>, \<open>dl_str\<close> and \<open>dl_u64\<close> look into it;
  the next three parse the typed bodies; \<open>dl_print\<close> prints the reply envelope.
\<close>

record 'j api_envelope =
  ae_ok :: bool
  ae_data :: "'j option"
  ae_error :: "(string \<times> string) option"

record 'j dash_lib =
  dl_value :: "string \<Rightarrow> string + 'j"
  dl_get :: "'j \<Rightarrow> string \<Rightarrow> 'j option"
  dl_str :: "'j \<Rightarrow> string option"
  dl_u64 :: "'j \<Rightarrow> u64 option"
  dl_files :: "string \<Rightarrow> string + files_query"
  dl_audit :: "string \<Rightarrow> string + audit_query"
  dl_cutoff :: "string \<Rightarrow> string + u64"
  dl_print :: "'j api_envelope \<Rightarrow> string option"
  dl_qr :: "string \<Rightarrow> string option"
  dl_page :: string
  dl_logo :: string

section \<open>Reading a request\<close>

definition DASHBOARD_MAX_REQUEST :: nat where "DASHBOARD_MAX_REQUEST = 1024 * 1024"
definition READ_SIZE :: nat where "READ_SIZE = 4096"
definition CRLF :: string where "CRLF = [CHR 0x0D, CHR 0x0A]"

record http_request =
  rq_method :: string
  rq_path :: string
  rq_query :: string
  rq_headers :: "(string \<times> string) list"
  rq_body :: string

fun find_subslice :: "string \<Rightarrow> string \<Rightarrow> nat option" where
  "find_subslice needle [] = (if needle = [] then Some 0 else None)"
| "find_subslice needle (c # s) =
     (if starts_with (c # s) needle then Some 0 else map_option Suc (find_subslice needle s))"

text \<open>
  The reads up to the end of the head: what was read, where the head ends, and the reads that are left.  A read error, the end of
  the stream and an oversized head all close the connection without an answer, here None.
\<close>

fun read_head :: "string \<Rightarrow> string option list \<Rightarrow> (string \<times> nat \<times> string option list) option" where
  "read_head buf reads =
     (case find_subslice (CRLF @ CRLF) buf of
        Some pos \<Rightarrow> Some (buf, pos, reads)
      | None \<Rightarrow>
          if length buf > DASHBOARD_MAX_REQUEST then None
          else (case reads of
                  [] \<Rightarrow> None
                | r # rest \<Rightarrow> (case r of
                    None \<Rightarrow> None
                  | Some got \<Rightarrow> if got = [] then None else read_head (buf @ got) rest)))"

fun read_body :: "nat \<Rightarrow> string \<Rightarrow> string option list \<Rightarrow> string option" where
  "read_body content_len body reads =
     (if length body < content_len then
        (case reads of
           [] \<Rightarrow> Some body
         | r # rest \<Rightarrow> (case r of
             None \<Rightarrow> None
           | Some got \<Rightarrow>
               if got = [] then Some body
               else if length (body @ got) > DASHBOARD_MAX_REQUEST then None
               else read_body content_len (body @ got) rest))
      else Some body)"

declare read_head.simps [simp del] read_body.simps [simp del]

text \<open>\<open>str::split\<close> with a string as the separator.\<close>

fun split_str :: "nat \<Rightarrow> string \<Rightarrow> string \<Rightarrow> string list" where
  "split_str 0 sep s = [s]"
| "split_str (Suc n) sep s =
     (case split_once sep s of None \<Rightarrow> [s] | Some (a, b) \<Rightarrow> a # split_str n sep b)"

text \<open>A later header of the same name replaces an earlier one.\<close>

fun parse_headers :: "string list \<Rightarrow> (string \<times> string) list \<Rightarrow> (string \<times> string) list" where
  "parse_headers [] hs = hs"
| "parse_headers (line # ls) hs =
     parse_headers ls
       (case split_once '':'' line of
          None \<Rightarrow> hs
        | Some (k, v) \<Rightarrow> (to_ascii_lowercase (trim k), trim v) # hs)"

definition parse_target :: "string \<Rightarrow> string \<times> string" where
  "parse_target target = unwrap_or (target, []) (split_once ''?'' target)"

definition content_length :: "(string \<times> string) list \<Rightarrow> nat" where
  "content_length hs = unwrap_or 0 (Option.bind (map_of hs ''content-length'') (parse_unsigned U64_MAX))"

definition read_request :: "string option list \<Rightarrow> http_request option" where
  "read_request reads =
     (case read_head [] reads of
        None \<Rightarrow> None
      | Some (buf, header_end, rest) \<Rightarrow>
          let head = take header_end buf in
          if \<not> utf8_ok head then None
          else case split_str (length head) CRLF head of
            [] \<Rightarrow> None
          | request_line # ls \<Rightarrow>
              (case split_on CHR '' '' request_line of
                 method # target # _ \<Rightarrow>
                   let hs = parse_headers ls []; content_len = content_length hs in
                   if content_len > DASHBOARD_MAX_REQUEST then None
                   else (case read_body content_len (drop (header_end + 4) buf) rest of
                     None \<Rightarrow> None
                   | Some body \<Rightarrow>
                       Some \<lparr>rq_method = method, rq_path = fst (parse_target target), rq_query = snd (parse_target target),
                             rq_headers = hs, rq_body = take content_len body\<rparr>)
               | _ \<Rightarrow> None))"

section \<open>The checks\<close>

record server =
  sv_token :: string
  sv_port :: u16

definition token_ok :: "server \<Rightarrow> http_request \<Rightarrow> bool" where
  "token_ok server req =
     (let provided =
        unwrap_or []
          (case map_of (rq_headers req) ''x-tazamun-token'' of
             Some t \<Rightarrow> Some t
           | None \<Rightarrow> find_map (strip_prefix ''token='') (split_on CHR ''&'' (rq_query req)))
      in length provided = length (sv_token server) \<and> provided = sv_token server)"

definition loopback_names :: "string list" where
  "loopback_names = [''127.0.0.1'', ''localhost'', ''[::1]'']"

definition host_ok :: "(string \<times> string) list \<Rightarrow> u16 \<Rightarrow> bool" where
  "host_ok headers port =
     (case map_of headers ''host'' of
        None \<Rightarrow> False
      | Some h \<Rightarrow>
          let host = trim h in
          host \<in> set loopback_names \<or> host \<in> (\<lambda>n. n @ '':'' @ show_nat (unat port)) ` set loopback_names)"

section \<open>Answers\<close>

definition http_response :: "string \<Rightarrow> string \<Rightarrow> string \<Rightarrow> string \<Rightarrow> string" where
  "http_response status content_type csp body =
     ''HTTP/1.1 '' @ status @ CRLF @
     ''Content-Type: '' @ content_type @ CRLF @
     ''Content-Length: '' @ show_nat (length body) @ CRLF @
     ''Content-Security-Policy: '' @ csp @ CRLF @
     ''X-Content-Type-Options: nosniff'' @ CRLF @
     ''X-Frame-Options: DENY'' @ CRLF @
     ''Referrer-Policy: no-referrer'' @ CRLF @
     ''Cache-Control: no-store'' @ CRLF @
     ''Connection: close'' @ CRLF @ CRLF @ body"

text \<open>A keyword in the quotes of a content security policy.\<close>

definition quoted :: "string \<Rightarrow> string" where
  "quoted w = CHR 0x27 # w @ [CHR 0x27]"

definition json_response :: "'j dash_lib \<Rightarrow> string \<Rightarrow> 'j api_envelope \<Rightarrow> string" where
  "json_response lib status v =
     http_response status ''application/json'' 
       (''default-src '' @ quoted ''none'' @ ''; frame-ancestors '' @ quoted ''none'' @ ''; base-uri '' @ quoted ''none'')
       (unwrap_or ''{}'' (dl_print lib v))"

definition with_api :: "'j ipc_response \<Rightarrow> 'j api_envelope" where
  "with_api resp = \<lparr>ae_ok = ir_ok resp, ae_data = ir_data resp, ae_error = ir_error resp\<rparr>"

definition api_error :: "string \<Rightarrow> string \<Rightarrow> 'j api_envelope" where
  "api_error code message = \<lparr>ae_ok = False, ae_data = None, ae_error = Some (code, message)\<rparr>"

text \<open>\<open>str::replace\<close>: every occurrence, from the left, not overlapping.\<close>

fun replace_str :: "nat \<Rightarrow> string \<Rightarrow> string \<Rightarrow> string \<Rightarrow> string" where
  "replace_str 0 pat by s = s"
| "replace_str (Suc n) pat by s =
     (case split_once pat s of None \<Rightarrow> s | Some (a, b) \<Rightarrow> a @ by @ replace_str n pat by b)"

definition index_response :: "'j dash_lib \<Rightarrow> string \<Rightarrow> string" where
  "index_response lib n =
     (let html1 = replace_str (length (dl_page lib)) ''__NONCE__'' n (dl_page lib);
          html = replace_str (length html1) ''__LOGO__'' (dl_logo lib) html1
      in http_response ''200 OK'' ''text/html; charset=utf-8''
           (''default-src '' @ quoted ''none'' @ ''; script-src '' @ quoted (''nonce-'' @ n) @ ''; style-src '' @ quoted (''nonce-'' @ n) @
            ''; img-src '' @ quoted ''self'' @ '' data:; connect-src '' @ quoted ''self'' @ ''; base-uri '' @ quoted ''none'' @
            ''; form-action '' @ quoted ''none'' @ ''; frame-ancestors '' @ quoted ''none'')
           html)"

section \<open>The endpoints\<close>

definition field_str :: "'j dash_lib \<Rightarrow> 'j \<Rightarrow> string \<Rightarrow> string + string" where
  "field_str lib v name =
     (case Option.bind (dl_get lib v name) (dl_str lib) of
        None \<Rightarrow> Inl (''missing string field `'' @ name @ ''`'') | Some s \<Rightarrow> Inr s)"

datatype path_op = OpLock | OpUnlock

definition parse_path_op :: "'j dash_lib \<Rightarrow> string \<Rightarrow> path_op \<Rightarrow> string + ipc_request" where
  "parse_path_op lib body opn =
     (case dl_value lib body of
        Inl e \<Rightarrow> Inl e
      | Inr v \<Rightarrow> (case field_str lib v ''path'' of
          Inl e \<Rightarrow> Inl e
        | Inr path \<Rightarrow> Inr (case opn of OpLock \<Rightarrow> RqLock path | OpUnlock \<Rightarrow> RqUnlock path)))"

definition parse_restore :: "'j dash_lib \<Rightarrow> string \<Rightarrow> string + ipc_request" where
  "parse_restore lib body =
     (case dl_value lib body of
        Inl e \<Rightarrow> Inl e
      | Inr v \<Rightarrow> (case field_str lib v ''path'' of
          Inl e \<Rightarrow> Inl e
        | Inr path \<Rightarrow> (case Option.bind (dl_get lib v ''n'') (dl_u64 lib) of
            None \<Rightarrow> Inl ''missing integer field `n`'' | Some n \<Rightarrow> Inr (RqRestore path (unat n)))))"

definition parse_conflict_apply :: "'j dash_lib \<Rightarrow> string \<Rightarrow> string + ipc_request" where
  "parse_conflict_apply lib body =
     (case dl_value lib body of
        Inl e \<Rightarrow> Inl e
      | Inr v \<Rightarrow> (case field_str lib v ''id'' of
          Inl e \<Rightarrow> Inl e
        | Inr id' \<Rightarrow> (case field_str lib v ''target'' of Inl e \<Rightarrow> Inl e | Inr target \<Rightarrow> Inr (RqConflictApply id' target))))"

definition parse_conflict_discard :: "'j dash_lib \<Rightarrow> string \<Rightarrow> string + ipc_request" where
  "parse_conflict_discard lib body =
     (case dl_value lib body of
        Inl e \<Rightarrow> Inl e
      | Inr v \<Rightarrow> (case field_str lib v ''id'' of Inl e \<Rightarrow> Inl e | Inr id' \<Rightarrow> Inr (RqConflictDiscard id')))"

definition parse_config :: "'j dash_lib \<Rightarrow> string \<Rightarrow> string + ipc_request" where
  "parse_config lib body =
     (case dl_value lib body of
        Inl e \<Rightarrow> Inl e
      | Inr v \<Rightarrow> (case field_str lib v ''key'' of
          Inl e \<Rightarrow> Inl e
        | Inr key \<Rightarrow> (case field_str lib v ''value'' of Inl e \<Rightarrow> Inl e | Inr val \<Rightarrow> Inr (RqConfigSet key val))))"

text \<open>\<open>u8::is_ascii_whitespace\<close>: space, tab, line feed, form feed and carriage return.\<close>

definition blank :: "string \<Rightarrow> bool" where
  "blank body \<longleftrightarrow> list_all (\<lambda>c. c \<in> {CHR '' '', CHR 0x09, CHR 0x0A, CHR 0x0C, CHR 0x0D}) body"

definition parse_query_args :: "(string \<Rightarrow> string + 't) \<Rightarrow> 't \<Rightarrow> string \<Rightarrow> string + 't" where
  "parse_query_args parse dflt body =
     (if blank body then Inr dflt
      else case parse body of Inl e \<Rightarrow> Inl (''invalid query body: '' @ e) | Inr v \<Rightarrow> Inr v)"

definition default_files_query :: files_query where
  "default_files_query =
     \<lparr>fq_pattern = None, fq_sort = None, fq_desc = False, fq_include_deleted = False, fq_offset = 0, fq_limit = None\<rparr>"

definition default_audit_query :: audit_query where
  "default_audit_query =
     \<lparr>aq_path = None, aq_peer = None, aq_since_ms = None, aq_kinds = [], aq_offset = 0, aq_limit = None, aq_newest_first = None\<rparr>"

definition parse_files_query :: "'j dash_lib \<Rightarrow> string \<Rightarrow> string + ipc_request" where
  "parse_files_query lib body = map_sum id RqFiles (parse_query_args (dl_files lib) default_files_query body)"

definition parse_audit_query :: "'j dash_lib \<Rightarrow> string \<Rightarrow> string + ipc_request" where
  "parse_audit_query lib body = map_sum id RqAudit (parse_query_args (dl_audit lib) default_audit_query body)"

definition parse_prunable :: "'j dash_lib \<Rightarrow> string \<Rightarrow> string + ipc_request" where
  "parse_prunable lib body =
     (case dl_cutoff lib body of
        Inl e \<Rightarrow> Inl (''older_than_ms is required: '' @ e) | Inr ms \<Rightarrow> Inr (RqConflictsPrunable ms))"

type_synonym 'j daemon_fn = "(ipc_request \<Rightarrow> 'j ipc_response option) option"

definition api_json :: "'j dash_lib \<Rightarrow> 'j daemon_fn \<Rightarrow> ipc_request \<Rightarrow> ipc_request list \<times> string" where
  "api_json lib daemon rq =
     (let resp = ipc_forward daemon rq in
      ([rq], json_response lib (if ir_ok resp then ''200 OK'' else ''409 Conflict'') (with_api resp)))"

definition guarded :: "'j dash_lib \<Rightarrow> 'j daemon_fn \<Rightarrow> server \<Rightarrow> http_request \<Rightarrow> string + ipc_request \<Rightarrow> ipc_request list \<times> string" where
  "guarded lib daemon server req parsed =
     (if \<not> token_ok server req
      then ([], json_response lib ''401 Unauthorized'' (api_error ''unauthorized'' ''missing or invalid dashboard token''))
      else case parsed of
        Inl e \<Rightarrow> ([], json_response lib ''400 Bad Request'' (api_error ''bad_request'' e))
      | Inr rq \<Rightarrow>
          let resp = ipc_forward daemon rq in
          ([rq], json_response lib (if ir_ok resp then ''200 OK'' else ''409 Conflict'') (with_api resp)))"

definition render_qr_svg :: "'j dash_lib \<Rightarrow> string \<Rightarrow> string option" where
  "render_qr_svg lib ticket = (if ticket = [] then None else dl_qr lib ticket)"

definition api_invite_qr :: "'j dash_lib \<Rightarrow> 'j daemon_fn \<Rightarrow> ipc_request list \<times> string" where
  "api_invite_qr lib daemon =
     (let resp = ipc_forward daemon (RqInvite None None);
          ticket = unwrap_or [] (Option.bind (Option.bind (ir_data resp) (\<lambda>d. dl_get lib d ''ticket'')) (dl_str lib))
      in ([RqInvite None None],
          case render_qr_svg lib ticket of
            Some svg \<Rightarrow> http_response ''200 OK'' ''image/svg+xml''
                          (''default-src '' @ quoted ''none'' @ ''; style-src '' @ quoted ''unsafe-inline'') svg
          | None \<Rightarrow> json_response lib ''409 Conflict'' (api_error ''no_ticket'' ''no invite available'')))"

text \<open>The POST endpoints, each with the parser of its body.\<close>

definition post_endpoints :: "'j dash_lib \<Rightarrow> (string \<times> (string \<Rightarrow> string + ipc_request)) list" where
  "post_endpoints lib =
     [(''/api/lock'', \<lambda>b. parse_path_op lib b OpLock),
      (''/api/unlock'', \<lambda>b. parse_path_op lib b OpUnlock),
      (''/api/restore'', parse_restore lib),
      (''/api/config'', parse_config lib),
      (''/api/conflict/apply'', parse_conflict_apply lib),
      (''/api/conflict/discard'', parse_conflict_discard lib),
      (''/api/files'', parse_files_query lib),
      (''/api/audit'', parse_audit_query lib),
      (''/api/conflicts/prunable'', parse_prunable lib)]"

definition not_found :: "'j dash_lib \<Rightarrow> ipc_request list \<times> string" where
  "not_found lib = ([], json_response lib ''404 Not Found'' (api_error ''not_found'' ''no such endpoint''))"

text \<open>\<open>nonce\<close> is the random nonce of this answer.\<close>

definition route :: "'j dash_lib \<Rightarrow> 'j daemon_fn \<Rightarrow> string \<Rightarrow> server \<Rightarrow> http_request \<Rightarrow> ipc_request list \<times> string" where
  "route lib daemon nonce server req =
     (if \<not> host_ok (rq_headers req) (sv_port server)
      then ([], json_response lib ''403 Forbidden'' (api_error ''bad_host'' ''loopback Host required''))
      else if rq_method req = ''GET'' then
        (if rq_path req = ''/'' then ([], index_response lib nonce)
         else if rq_path req = ''/api/state'' then api_json lib daemon RqDashboardState
         else if rq_path req = ''/api/invite'' then api_json lib daemon (RqInvite None None)
         else if rq_path req = ''/api/invite/qr'' then api_invite_qr lib daemon
         else not_found lib)
      else if rq_method req = ''POST'' then
        (case map_of (post_endpoints lib) (rq_path req) of
           Some parse \<Rightarrow> guarded lib daemon server req (parse (rq_body req))
         | None \<Rightarrow> not_found lib)
      else not_found lib)"

text \<open>One connection: one request, one answer.\<close>

definition handle_conn :: "'j dash_lib \<Rightarrow> 'j daemon_fn \<Rightarrow> string \<Rightarrow> server \<Rightarrow> string option list \<Rightarrow> (ipc_request list \<times> string) option" where
  "handle_conn lib daemon nonce server reads = map_option (route lib daemon nonce server) (read_request reads)"

end
