(* ===== verification/DashboardProps.thy ===== *)
theory DashboardProps
  imports Dashboard
begin

text \<open>
  What the two local front doors promise: only requests that passed the host and token checks reach the daemon, a request is read the
  same way however the stream is cut into reads, and every line of the socket gets one answer that the other side can read.
\<close>

section \<open>Who reaches the daemon\<close>

definition token_presented :: "string \<Rightarrow> http_request \<Rightarrow> bool" where
  "token_presented token req \<longleftrightarrow>
     map_of (rq_headers req) ''x-tazamun-token'' = Some token
     \<or> ''token='' @ token \<in> set (split_on CHR ''&'' (rq_query req))"

definition postable :: "ipc_request \<Rightarrow> bool" where
  "postable rq = (case rq of
       RqLock _ \<Rightarrow> True | RqUnlock _ \<Rightarrow> True | RqRestore _ _ \<Rightarrow> True | RqConfigSet _ _ \<Rightarrow> True
     | RqConflictApply _ _ \<Rightarrow> True | RqConflictDiscard _ \<Rightarrow> True | RqFiles _ \<Rightarrow> True | RqAudit _ \<Rightarrow> True
     | RqConflictsPrunable _ \<Rightarrow> True | _ \<Rightarrow> False)"

lemma token_ok_presented: "token_ok server req \<Longrightarrow> sv_token server \<noteq> [] \<Longrightarrow> token_presented (sv_token server) req"
  by (auto simp: token_ok_def token_presented_def unwrap_or_def Let_def strip_prefix_Some_iff dest!: find_map_SomeD split: option.splits)

lemma post_endpoint_postable:
  "map_of (post_endpoints lib) path = Some parse \<Longrightarrow> parse body = Inr rq \<Longrightarrow> postable rq"
  by (auto simp: post_endpoints_def parse_path_op_def parse_restore_def parse_config_def parse_conflict_apply_def
      parse_conflict_discard_def parse_files_query_def parse_audit_query_def parse_prunable_def postable_def
      map_sum_def split: if_splits sum.splits option.splits path_op.splits)

text \<open>
  C15. Dashboard access: whatever bytes a connection sends, at most one request reaches the daemon, and only if the Host header
  names the loopback interface (and the right port, when it names one).  It is the state query or an invite for a GET; everything
  else is one of nine POST requests and needs the session token, in its header or in the query.
\<close>

theorem dashboard_requests_authorised:
  assumes token: "sv_token server \<noteq> []"
    and conn: "handle_conn lib daemon nonce server reads = Some (rqs, reply)"
    and rq: "rq \<in> set rqs"
  shows "rqs = [rq] \<and> (\<exists>req h. read_request reads = Some req
    \<and> map_of (rq_headers req) ''host'' = Some h
    \<and> (\<exists>n \<in> set loopback_names. trim h = n \<or> trim h = n @ '':'' @ show_nat (unat (sv_port server)))
    \<and> (rq_method req = ''GET'' \<and> rq \<in> {RqDashboardState, RqInvite None None}
       \<or> rq_method req = ''POST'' \<and> postable rq \<and> token_presented (sv_token server) req))"
proof -
  obtain req where req: "read_request reads = Some req" and out: "route lib daemon nonce server req = (rqs, reply)"
    using conn by (auto simp: handle_conn_def)
  have host: "host_ok (rq_headers req) (sv_port server)"
    using out rq by (auto simp: route_def split: if_splits)
  have kind: "rqs = [rq] \<and> (rq_method req = ''GET'' \<and> rq \<in> {RqDashboardState, RqInvite None None}
      \<or> rq_method req = ''POST'' \<and> postable rq \<and> token_presented (sv_token server) req)"
    using out rq host token_ok_presented [OF _ token, of req]
    by (auto simp: route_def api_json_def api_invite_qr_def not_found_def guarded_def Let_def
        dest: post_endpoint_postable split: if_splits option.splits sum.splits)
  show ?thesis
    using kind req host by (auto simp: host_ok_def Let_def split: option.splits)
qed

definition demo_dash :: "string dash_lib" where
  "demo_dash = \<lparr>dl_value = Inr, dl_get = (\<lambda>v k. if k = ''path'' then Some v else None), dl_str = Some, dl_u64 = (\<lambda>v. None),
     dl_files = (\<lambda>b. Inl ''no''), dl_audit = (\<lambda>b. Inl ''no''), dl_cutoff = (\<lambda>b. Inl ''no''),
     dl_print = (\<lambda>v. None), dl_qr = (\<lambda>t. None), dl_page = ''page'', dl_logo = ''logo''\<rparr>"

definition demo_head :: string where
  "demo_head = ''POST /api/lock HTTP/1.1'' @ CRLF @ ''Host:localhost:80'' @ CRLF @ ''X-Tazamun-Token:k9'' @ CRLF
     @ ''Content-Length:3'' @ CRLF @ CRLF"

definition demo_post :: http_request where
  "demo_post = \<lparr>rq_method = ''POST'', rq_path = ''/api/lock'', rq_query = [],
     rq_headers = [(''content-length'', ''3''), (''x-tazamun-token'', ''k9''), (''host'', ''localhost:80'')], rq_body = ''a.c''\<rparr>"

lemma demo_head_end: "find_subslice (CRLF @ CRLF) [] = None" "find_subslice (CRLF @ CRLF) demo_head = Some 80"
    "length demo_head = 84" "utf8_ok (take 80 demo_head)"
    "split_str 80 CRLF (take 80 demo_head)
       = [''POST /api/lock HTTP/1.1'', ''Host:localhost:80'', ''X-Tazamun-Token:k9'', ''Content-Length:3'']"
  by code_simp+

lemma demo_request_line: "split_on CHR '' '' ''POST /api/lock HTTP/1.1'' = [''POST'', ''/api/lock'', ''HTTP/1.1'']"
    "parse_target ''/api/lock'' = (''/api/lock'', [])"
  by code_simp+

lemma demo_names: "to_ascii_lowercase ''Host'' = ''host''" "to_ascii_lowercase ''X-Tazamun-Token'' = ''x-tazamun-token''"
    "to_ascii_lowercase ''Content-Length'' = ''content-length''"
  by code_simp+

lemma demo_headers:
  "parse_headers [''Host:localhost:80'', ''X-Tazamun-Token:k9'', ''Content-Length:3''] [] = rq_headers demo_post"
  by (simp add: demo_post_def trim_plain_ascii plain_ascii_def ascii_code_def demo_names)

lemma demo_post_read: "read_request [Some demo_head, Some ''a.c''] = Some demo_post"
proof -
  have len: "content_length (rq_headers demo_post) = 3"
    by (simp add: content_length_def demo_post_def parse_unsigned_def U64_MAX_def is_ascii_digit_def ascii_code_def unwrap_or_def)
  have head: "read_head [] [Some demo_head, Some ''a.c''] = Some (demo_head, 80, [Some ''a.c''])"
    using demo_head_end(1,2,3) by (auto simp: read_head.simps [of "[]"] read_head.simps [of demo_head])
  have "read_body 3 [] [Some ''a.c''] = Some ''a.c''"
    by (simp add: read_body.simps [of 3] DASHBOARD_MAX_REQUEST_def)
  then show ?thesis
    by (simp add: read_request_def head demo_head_end demo_request_line demo_headers len DASHBOARD_MAX_REQUEST_def Let_def
        del: parse_headers.simps split_on.simps split_str.simps)
       (simp add: demo_post_def)
qed

theorem dashboard_requests_authorised_witness:
  "\<exists>reply. handle_conn demo_dash None ''n'' \<lparr>sv_token = ''k9'', sv_port = 80\<rparr> [Some demo_head, Some ''a.c''] = Some ([RqLock ''a.c''], reply)
    \<and> (\<exists>req. read_request [Some demo_head, Some ''a.c''] = Some req \<and> token_presented ''k9'' req)"
proof -
  let ?sv = "\<lparr>sv_token = ''k9'', sv_port = 80\<rparr>"
  have "fst (route demo_dash None ''n'' ?sv demo_post) = [RqLock ''a.c'']"
    by code_simp
  then obtain reply where conn: "handle_conn demo_dash None ''n'' ?sv [Some demo_head, Some ''a.c''] = Some ([RqLock ''a.c''], reply)"
    by (cases "route demo_dash None ''n'' ?sv demo_post") (simp add: handle_conn_def demo_post_read)
  have "\<exists>req. read_request [Some demo_head, Some ''a.c''] = Some req \<and> token_presented ''k9'' req"
    using dashboard_requests_authorised [OF _ conn, of "RqLock ''a.c''"] by auto
  then show ?thesis using conn by blast
qed

section \<open>Reading a request from a cut stream\<close>

lemma starts_with_append: "length p \<le> length s \<Longrightarrow> starts_with (s @ t) p = starts_with s p"
  unfolding starts_with_def by (induction p s rule: strip_prefix.induct) auto

lemma starts_with_longer: "starts_with s p \<Longrightarrow> length p \<le> length s"
  unfolding starts_with_def by (auto simp: strip_prefix_Some_iff)

lemma find_subslice_bound: "find_subslice p s = Some k \<Longrightarrow> k + length p \<le> length s"
  by (induction p s arbitrary: k rule: find_subslice.induct) (auto dest: starts_with_longer split: if_splits)

lemma find_subslice_append:
  "find_subslice p s = Some k \<Longrightarrow> find_subslice p (s @ t) = Some k"
proof (induction p s arbitrary: k rule: find_subslice.induct)
  case (2 p c s)
  show ?case
  proof (cases "starts_with (c # s) p")
    case True
    then show ?thesis using "2.prems" starts_with_append [OF starts_with_longer [OF True], of t] by simp
  next
    case False
    then obtain j where j: "find_subslice p s = Some j" "k = Suc j" using "2.prems" by auto
    have "\<not> starts_with (c # s @ t) p"
      using starts_with_append [of p "c # s" t] find_subslice_bound [OF j(1)] False by simp
    then show ?thesis using "2.IH" [OF False j(1)] j(2) by simp
  qed
qed (cases t; auto simp: starts_with_def split: if_splits)

text \<open>The head and what follows it, in a whole request.\<close>

lemma read_head_whole:
  assumes "length (buf @ concat ps) \<le> DASHBOARD_MAX_REQUEST" "[] \<notin> set ps"
  shows "case find_subslice (CRLF @ CRLF) (buf @ concat ps) of
           None \<Rightarrow> read_head buf (map Some ps) = None
         | Some k \<Rightarrow> \<exists>buf' ps'. read_head buf (map Some ps) = Some (buf', k, map Some ps')
             \<and> buf' @ concat ps' = buf @ concat ps \<and> k + 4 \<le> length buf' \<and> [] \<notin> set ps'"
  using assms
proof (induction ps arbitrary: buf)
  case Nil
  then show ?case
    using find_subslice_bound [of "CRLF @ CRLF" buf]
    by (auto simp: read_head.simps [of buf] CRLF_def split: option.splits)
next
  case (Cons p ps)
  show ?case
  proof (cases "find_subslice (CRLF @ CRLF) buf")
    case None
    then have "read_head buf (map Some (p # ps)) = read_head (buf @ p) (map Some ps)"
      using Cons.prems by (auto simp: read_head.simps [of buf])
    then show ?thesis using Cons.IH [of "buf @ p"] Cons.prems by (simp del: list.map split: option.splits)
  next
    case (Some k)
    have "read_head buf (map Some (p # ps)) = Some (buf, k, map Some (p # ps))"
      using Some by (simp add: read_head.simps [of buf])
    then show ?thesis
      using find_subslice_append [OF Some, of "concat (p # ps)"] find_subslice_bound [OF Some] Cons.prems(2)
      by (auto simp: CRLF_def intro!: exI [of _ "p # ps"])
  qed
qed

lemma read_body_whole:
  assumes "length (body @ concat ps) \<le> DASHBOARD_MAX_REQUEST" "[] \<notin> set ps"
  shows "\<exists>body'. read_body n body (map Some ps) = Some body' \<and> take n body' = take n (body @ concat ps)"
  using assms
proof (induction ps arbitrary: body)
  case (Cons p ps)
  then show ?case using Cons.IH [of "body @ p"] by (auto simp: read_body.simps [of n body])
qed (subst read_body.simps; simp)

text \<open>
  Reading independent of the cuts: the bytes of a request, up to the size limit, give the same parsed request (or the same
  refusal) however the transport cuts them into reads.
\<close>

theorem read_request_cut_independent:
  assumes "concat ps = concat qs" "length (concat ps) \<le> DASHBOARD_MAX_REQUEST" "[] \<notin> set ps" "[] \<notin> set qs"
  shows "read_request (map Some ps) = read_request (map Some qs)"
proof (cases "find_subslice (CRLF @ CRLF) (concat ps)")
  case None
  then show ?thesis using read_head_whole [of "[]" ps] read_head_whole [of "[]" qs] assms by (simp add: read_request_def)
next
  case (Some k)
  obtain b1 r1 where h1: "read_head [] (map Some ps) = Some (b1, k, map Some r1)" "b1 @ concat r1 = concat ps" "k + 4 \<le> length b1" "[] \<notin> set r1"
    using read_head_whole [of "[]" ps] assms Some by auto
  obtain b2 r2 where h2: "read_head [] (map Some qs) = Some (b2, k, map Some r2)" "b2 @ concat r2 = concat qs" "k + 4 \<le> length b2" "[] \<notin> set r2"
    using read_head_whole [of "[]" qs] assms Some by auto
  have cut: "take k b = take k (b @ c)" "drop (k + 4) b @ c = drop (k + 4) (b @ c)" if "k + 4 \<le> length b" for b c :: string
    using that by simp_all
  have head: "take k b1 = take k b2"
    using cut(1) [OF h1(3), of "concat r1"] cut(1) [OF h2(3), of "concat r2"] h1(2) h2(2) assms(1) by simp
  have rest: "drop (k + 4) b1 @ concat r1 = drop (k + 4) b2 @ concat r2"
    unfolding cut(2) [OF h1(3)] cut(2) [OF h2(3)] h1(2) h2(2) assms(1) ..
  have short: "length (drop (k + 4) b1 @ concat r1) \<le> DASHBOARD_MAX_REQUEST"
    using arg_cong [OF h1(2), of length] assms(2) by simp
  obtain f where f: "\<And>n. read_body n (drop (k + 4) b1) (map Some r1) = Some (f n) \<and> take n (f n) = take n (drop (k + 4) b1 @ concat r1)"
    using read_body_whole [OF short h1(4)] by metis
  obtain g where g: "\<And>n. read_body n (drop (k + 4) b2) (map Some r2) = Some (g n) \<and> take n (g n) = take n (drop (k + 4) b2 @ concat r2)"
    using read_body_whole [OF short [unfolded rest] h2(4)] by metis
  have same: "take n (f n) = take n (g n)" for n
    using f [of n] g [of n] rest by simp
  have bodies: "read_body n (drop (k + 4) b1) (map Some r1) = Some (f n)" "read_body n (drop (k + 4) b2) (map Some r2) = Some (g n)" for n
    using f [of n] g [of n] by simp_all
  show ?thesis
    unfolding read_request_def h1(1) h2(1) option.case prod.case head Let_def bodies same ..
qed

theorem read_request_cut_independent_witness:
  "read_request (map Some [demo_head, ''a.c'']) = read_request (map Some [demo_head @ ''a'', ''.c''])"
  by (rule read_request_cut_independent) (simp_all add: demo_head_def CRLF_def DASHBOARD_MAX_REQUEST_def)

section \<open>The socket answers every line\<close>

lemma read_until_line: "CHR 0x0A \<notin> set l \<Longrightarrow> length l < n \<Longrightarrow> read_until n (l @ CHR 0x0A # s) = (l @ [CHR 0x0A], s)"
proof (induction l arbitrary: n)
  case Nil
  then show ?case by (cases n) auto
next
  case (Cons c l)
  then show ?case by (cases n) auto
qed

lemma read_line_capped_line:
  "CHR 0x0A \<notin> set l \<Longrightarrow> length l < IPC_LINE_MAX \<Longrightarrow>
   read_line_capped lossy (l @ CHR 0x0A # s) = Inr (Some (trim (lossy (l @ [CHR 0x0A])), s))"
  by (simp add: read_line_capped_def read_until_line)

definition line_text :: "(string \<Rightarrow> string) \<Rightarrow> string \<Rightarrow> string" where
  "line_text lossy l = trim (lossy (l @ [CHR 0x0A]))"

text \<open>What the printing of replies must give: one line each, and the short apology fits.\<close>

definition prints_lines :: "('j ipc_response \<Rightarrow> string option) \<Rightarrow> bool" where
  "prints_lines print \<longleftrightarrow>
     (\<forall>r. \<exists>out. print r = Some out \<and> CHR 0x0A \<notin> set out)
     \<and> (\<exists>out. print (ipc_err ''response_too_large'' ''the daemon's response exceeded the IPC line limit'') = Some out
          \<and> length out < IPC_LINE_MAX)"

lemma reply_line_fits:
  assumes "prints_lines print"
  shows "\<exists>body. reply_line print r = Inr (body @ [CHR 0x0A]) \<and> CHR 0x0A \<notin> set body \<and> length body < IPC_LINE_MAX"
proof -
  obtain out where out: "print r = Some out" "CHR 0x0A \<notin> set out"
    using assms unfolding prints_lines_def by blast
  obtain small where apology: "print (ipc_err ''response_too_large'' ''the daemon's response exceeded the IPC line limit'') = Some small"
      "length small < IPC_LINE_MAX" "CHR 0x0A \<notin> set small"
    using assms unfolding prints_lines_def by (metis option.inject)
  show ?thesis using out apology by (auto simp: reply_line_def)
qed

text \<open>
  Socket replies: every non-blank line within the limit gets exactly one reply, in order, and each reply is itself a line the
  reader at the other end accepts.
\<close>

theorem socket_answers_every_line:
  assumes print: "prints_lines print"
    and short: "\<forall>l \<in> set ls. CHR 0x0A \<notin> set l \<and> length l < IPC_LINE_MAX"
  shows "\<exists>outs. serve_conn lossy parse print daemon (concat (map (\<lambda>l. l @ [CHR 0x0A]) ls)) = (outs, None)
    \<and> map Inr outs = map (\<lambda>l. reply_line print (answer_line parse daemon (line_text lossy l)))
        (filter (\<lambda>l. line_text lossy l \<noteq> []) ls)
    \<and> (\<forall>out \<in> set outs. \<forall>tail. read_line_capped lossy (out @ tail) = Inr (Some (trim (lossy out), tail)))"
  using short
proof (induction ls)
  case Nil
  show ?case by (simp add: serve_conn.simps [of _ _ _ _ "[]"] read_line_capped_def)
next
  case (Cons l ls)
  let ?stream = "\<lambda>ls. concat (map (\<lambda>l. l @ [CHR 0x0A]) ls)"
  obtain outs where IH: "serve_conn lossy parse print daemon (?stream ls) = (outs, None)"
      "map Inr outs = map (\<lambda>l. reply_line print (answer_line parse daemon (line_text lossy l))) (filter (\<lambda>l. line_text lossy l \<noteq> []) ls)"
      "\<forall>out \<in> set outs. \<forall>tail. read_line_capped lossy (out @ tail) = Inr (Some (trim (lossy out), tail))"
    using Cons by auto
  have line: "read_line_capped lossy (?stream (l # ls)) = Inr (Some (line_text lossy l, ?stream ls))"
    using Cons.prems read_line_capped_line [of l lossy "?stream ls"] by (simp add: line_text_def)
  obtain body where body: "reply_line print (answer_line parse daemon (line_text lossy l)) = Inr (body @ [CHR 0x0A])"
      "CHR 0x0A \<notin> set body" "length body < IPC_LINE_MAX"
    using reply_line_fits [OF print] by blast
  have read: "read_line_capped lossy ((body @ [CHR 0x0A]) @ tail) = Inr (Some (trim (lossy (body @ [CHR 0x0A])), tail))" for tail
    using read_line_capped_line [OF body(2,3), of lossy tail] by simp
  have step: "serve_conn lossy parse print daemon (?stream (l # ls))
      = (if line_text lossy l = [] then (outs, None) else ((body @ [CHR 0x0A]) # outs, None))"
    by (subst serve_conn.simps) (simp only: line sum.case option.case prod.case body(1) IH(1))
  show ?case
  proof (cases "line_text lossy l = []")
    case True
    then show ?thesis using IH(2,3) step by auto
  next
    case False
    then show ?thesis using IH(2,3) step body(1) read by (intro exI [of _ "(body @ [CHR 0x0A]) # outs"]) auto
  qed
qed

definition demo_print :: "string ipc_response \<Rightarrow> string option" where
  "demo_print r = Some (if ir_ok r then ''+'' else ''-'')"

lemma demo_print_lines: "prints_lines demo_print"
  by (auto simp: prints_lines_def demo_print_def IPC_LINE_MAX_def ipc_err_def)

theorem socket_answers_every_line_witness:
  "\<exists>outs. serve_conn (\<lambda>b. b) (\<lambda>l. Some RqStatus) demo_print None (concat (map (\<lambda>l. l @ [CHR 0x0A]) [''a'', ''b''])) = (outs, None)"
  using socket_answers_every_line [OF demo_print_lines, of "[''a'', ''b'']" "\<lambda>b. b" "\<lambda>l. Some RqStatus" None]
  by (auto simp: IPC_LINE_MAX_def)

end
