(* ===== verification/RateLimit.thy ===== *)
theory RateLimit
  imports Complex_Main Chunker
begin

text \<open>
  The token bucket of the download path (\<^verbatim>\<open>src/ratelimit.rs\<close>).  Its floating point numbers are exact rationals here, instants are
  seconds; rounding is not modelled.  All fetchers share one bucket behind a lock, so their attempts form one sequence in time.
\<close>

record bucket =
  bk_rate :: rat
  bk_cap :: rat
  bk_tokens :: rat
  bk_last :: rat

definition refill :: "rat \<Rightarrow> bucket \<Rightarrow> bucket" where
  "refill now b =
     (if bk_rate b \<le> 0 then b
      else
        (let elapsed = max 0 (now - bk_last b) in
         b\<lparr>bk_tokens := min (bk_tokens b + elapsed * bk_rate b) (bk_cap b), bk_last := now\<rparr>))"

text \<open>The error is the time to wait.\<close>

definition try_take :: "rat \<Rightarrow> rat \<Rightarrow> bucket \<Rightarrow> (rat + unit) \<times> bucket" where
  "try_take n now b =
     (if bk_rate b \<le> 0 then (Inr (), b)
      else
        (let b' = refill now b in
         if bk_tokens b' \<ge> n then (Inr (), b'\<lparr>bk_tokens := bk_tokens b' - n\<rparr>)
         else (Inl ((n - bk_tokens b') / bk_rate b'), b')))"

definition new_bucket :: "u64 \<Rightarrow> rat \<Rightarrow> bucket" where
  "new_bucket bytes_per_sec now =
     (let rate = of_nat (unat bytes_per_sec); cap = max rate (of_nat CDC_MAX) in
      \<lparr>bk_rate = rate, bk_cap = cap, bk_tokens = cap, bk_last = now\<rparr>)"

definition set_rate :: "u64 \<Rightarrow> rat \<Rightarrow> bucket \<Rightarrow> bucket" where
  "set_rate bytes_per_sec now b = new_bucket bytes_per_sec now"

text \<open>
  \<open>acquire\<close>: the loop of one fetcher, given the instants at which it wakes up and, between two of its attempts, what the other
  fetchers did to the bucket.  None: still waiting when the instants run out.
\<close>

fun acquire :: "rat \<Rightarrow> (rat \<times> (bucket \<Rightarrow> bucket)) list \<Rightarrow> bucket \<Rightarrow> bucket option" where
  "acquire n [] b = None"
| "acquire n ((now, others) # wakes) b =
     (case try_take n now (others b) of
        (Inr _, b') \<Rightarrow> Some b'
      | (Inl wait, b') \<Rightarrow> acquire n wakes b')"

section \<open>The aggregate rate\<close>

text \<open>A sequence of attempts of all fetchers, and the bytes it admitted.\<close>

fun admitted :: "(rat \<times> rat) list \<Rightarrow> bucket \<Rightarrow> rat \<times> bucket" where
  "admitted [] b = (0, b)"
| "admitted ((n, now) # as) b =
     (case try_take n now b of
        (Inr _, b') \<Rightarrow> (case admitted as b' of (got, b'') \<Rightarrow> (got + n, b''))
      | (Inl _, b') \<Rightarrow> admitted as b')"

definition in_order :: "rat \<Rightarrow> (rat \<times> rat) list \<Rightarrow> bool" where
  "in_order start as \<longleftrightarrow> sorted (start # map snd as) \<and> (\<forall>(n, _) \<in> set as. 0 \<le> n)"

definition bucket_ok :: "bucket \<Rightarrow> bool" where
  "bucket_ok b \<longleftrightarrow> 0 < bk_rate b \<and> 0 \<le> bk_tokens b \<and> bk_tokens b \<le> bk_cap b"

lemma try_take_keeps:
  assumes "bucket_ok b" "bk_last b \<le> now" "0 \<le> n" "try_take n now b = (res, b')"
  shows "bucket_ok b' \<and> bk_rate b' = bk_rate b \<and> bk_cap b' = bk_cap b \<and> bk_last b' = now
    \<and> bk_tokens b' + (if res = Inr () then n else 0) \<le> bk_tokens b + (now - bk_last b) * bk_rate b"
  using assms by (auto simp: bucket_ok_def try_take_def refill_def Let_def min_def split: if_splits)

lemma admitted_bound:
  assumes "bucket_ok b" "in_order (bk_last b) as" "admitted as b = (got, b')"
  shows "got + bk_tokens b' \<le> bk_tokens b + (bk_last b' - bk_last b) * bk_rate b
    \<and> bucket_ok b' \<and> bk_last b' = last (bk_last b # map snd as)"
  using assms
proof (induction as b arbitrary: got b' rule: admitted.induct)
  case (2 n now as b)
  obtain res b1 where t: "try_take n now b = (res, b1)" by (cases "try_take n now b")
  have order: "bk_last b \<le> now" "0 \<le> n" "in_order now as" using "2.prems"(2) by (auto simp: in_order_def)
  note keep = try_take_keeps [OF "2.prems"(1) order(1,2) t]
  have next1: "bucket_ok b1" "in_order (bk_last b1) as" using keep order(3) by auto
  show ?case
  proof (cases res)
    case (Inl w)
    have "admitted as b1 = (got, b')" using "2.prems"(3) t Inl by simp
    from "2.IH"(1) [OF t [symmetric] Inl next1 this] show ?thesis
      using keep Inl by (auto simp: algebra_simps)
  next
    case (Inr u)
    obtain got1 where a: "admitted as b1 = (got1, b')" "got = got1 + n"
      using "2.prems"(3) t Inr by (auto split: prod.splits)
    from "2.IH"(2) [OF t [symmetric] Inr next1 a(1)] show ?thesis
      using keep Inr a(2) by (auto simp: algebra_simps)
  qed
qed auto

lemma new_bucket_ok: "0 < unat r \<Longrightarrow> bucket_ok (new_bucket r now)"
  by (simp add: bucket_ok_def new_bucket_def Let_def le_max_iff_disj del: of_nat_unat)

text \<open>
  C27. Rate limit: however the fetchers interleave, in any stretch of time since the rate was set they are admitted at most one
  second of rate (or one largest chunk, if that is more) plus the rate times the time that has passed.
\<close>

theorem aggregate_rate_bounded:
  assumes "0 < unat r" "in_order start as" "admitted as (new_bucket r start) = (got, b')"
  shows "got \<le> max (of_nat (unat r)) (of_nat CDC_MAX) + (last (start # map snd as) - start) * of_nat (unat r)"
proof -
  have "bk_last (new_bucket r start) = start" "bk_rate (new_bucket r start) = of_nat (unat r)"
      "bk_tokens (new_bucket r start) = max (of_nat (unat r)) (of_nat CDC_MAX)"
    by (simp_all add: new_bucket_def Let_def del: of_nat_unat)
  moreover have "0 \<le> bk_tokens b'"
    using admitted_bound [OF new_bucket_ok [OF assms(1), of start] _ assms(3)] assms(2) calculation(1) by (auto simp: bucket_ok_def)
  ultimately show ?thesis
    using admitted_bound [OF new_bucket_ok [OF assms(1), of start] _ assms(3)] assms(2) by auto
qed

definition demo_attempts :: "(rat \<times> rat) list" where
  "demo_attempts = [(100, 1), (400000, 2)]"

theorem aggregate_rate_bounded_witness:
  "\<exists>got b'. admitted demo_attempts (new_bucket 1000 0) = (got, b')
     \<and> got \<le> max (of_nat (unat (1000::u64))) (of_nat CDC_MAX) + (last (0 # map snd demo_attempts) - 0) * of_nat (unat (1000::u64))"
proof -
  obtain got b' where eq: "admitted demo_attempts (new_bucket 1000 0) = (got, b')"
    by (cases "admitted demo_attempts (new_bucket 1000 0)")
  have "got \<le> max (of_nat (unat (1000::u64))) (of_nat CDC_MAX) + (last (0 # map snd demo_attempts) - 0) * of_nat (unat (1000::u64))"
    by (rule aggregate_rate_bounded [OF _ _ eq]) (simp_all add: in_order_def demo_attempts_def)
  then show ?thesis using eq by blast
qed

section \<open>Who is admitted\<close>

text \<open>A fetcher of at most a bucketful that sleeps for the told time, with nobody else taking, is admitted at its second attempt.\<close>

lemma acquire_after_wait:
  assumes "bucket_ok b" "n \<le> bk_cap b" "bk_last b \<le> now" "try_take n now b = (Inl wait, b')" "now + wait \<le> later"
  shows "0 < wait \<and> (\<exists>b''. acquire n [(now, id), (later, id)] b = Some b'')"
proof -
  have b': "bk_rate b' = bk_rate b" "bk_cap b' = bk_cap b" "bk_last b' = now" "bk_tokens b' < n"
      "wait = (n - bk_tokens b') / bk_rate b" "0 < bk_rate b"
    using assms(1,4) by (auto simp: bucket_ok_def try_take_def refill_def Let_def split: if_splits)
  have pos: "0 < wait" using b'(4,5,6) by simp
  have "n = bk_tokens b' + wait * bk_rate b" using b'(5,6) by simp
  also have "\<dots> \<le> bk_tokens b' + (later - now) * bk_rate b" using assms(5) b'(6) by (simp add: mult_right_mono)
  finally have "n \<le> min (bk_tokens b' + max 0 (later - now) * bk_rate b) (bk_cap b)"
    using assms(2,5) pos by (simp add: max_def)
  then have "\<exists>b''. try_take n later b' = (Inr (), b'')"
    using b' by (simp add: try_take_def refill_def Let_def)
  then show ?thesis using pos assms(4) by auto
qed

text \<open>
  An oversized request is never admitted: a fetcher that asks for more than the bucket can hold waits for ever, whatever the
  other fetchers do.  The length it asks for is the one a manifest names, which a peer may choose.
\<close>

theorem oversized_chunk_waits_forever:
  assumes "0 < unat r" "max (of_nat (unat r)) (of_nat CDC_MAX) < n"
    and others: "\<forall>(now, f) \<in> set wakes. \<forall>b. bk_rate (f b) = bk_rate b \<and> bk_cap (f b) = bk_cap b"
  shows "acquire n wakes (new_bucket r start) = None"
proof -
  have "acquire n wakes b = None" if "0 < bk_rate b" "bk_cap b < n" for b
    using that others
  proof (induction n wakes b rule: acquire.induct)
    case (2 n now f wakes b)
    have f: "0 < bk_rate (f b)" "bk_cap (f b) < n" using "2.prems" by auto
    obtain wait b' where t: "try_take n now (f b) = (Inl wait, b')" "bk_rate b' = bk_rate (f b)" "bk_cap b' = bk_cap (f b)"
      using f by (auto simp: try_take_def refill_def Let_def)
    have "acquire n wakes b' = None" by (rule "2.IH" [OF t(1) [symmetric] refl]) (use t f "2.prems"(3) in auto)
    then show ?case using t(1) by simp
  qed simp
  then show ?thesis using assms(1,2) by (simp add: new_bucket_def Let_def del: of_nat_unat)
qed

theorem oversized_chunk_waits_forever_witness:
  "acquire 4000000000 [(1, id), (1000000, id)] (new_bucket 1000 0) = None"
  by (rule oversized_chunk_waits_forever) (simp_all add: CDC_MAX_def)

end
