(* ===== verification/Suggest.thy ===== *)
theory Suggest
  imports Prelude "HOL-Library.Sublist" "HOL-Library.List_Lexorder" "HOL-Library.Char_ord"
begin

text \<open>
  The did-you-mean matching of the command line (\<^verbatim>\<open>src/suggest.rs\<close>): prefix, subsequence and edit distance with transpositions,
  combined into a score.  The distance is computed with three rolling rows; here it is proved to be the least number of edits.  Words
  are lists of characters; \<open>lower\<close> is the Unicode lower-casing of a word.
\<close>

section \<open>The code\<close>

definition max_distance :: "nat \<Rightarrow> nat" where
  "max_distance typed_len = (if typed_len \<le> 1 then 0 else if typed_len \<le> 4 then 1 else if typed_len \<le> 7 then 2 else 3)"

text \<open>\<open>is_subsequence\<close> with its iterator: \<open>advance\<close> is the iterator's \<open>any\<close>, which consumes up to the first hit.\<close>

fun advance :: "'a \<Rightarrow> 'a list \<Rightarrow> 'a list option" where
  "advance ch [] = None"
| "advance ch (x # it) = (if x = ch then Some it else advance ch it)"

fun is_subsequence :: "'a list \<Rightarrow> 'a list \<Rightarrow> bool" where
  "is_subsequence [] c \<longleftrightarrow> True"
| "is_subsequence (ch # t) c \<longleftrightarrow> (case advance ch c of None \<Rightarrow> False | Some it \<Rightarrow> is_subsequence t it)"

text \<open>One cell, one row and the rolling of the three rows.\<close>

definition cell :: "'a list \<Rightarrow> 'a list \<Rightarrow> nat list \<Rightarrow> nat list \<Rightarrow> nat \<Rightarrow> nat \<Rightarrow> nat list \<Rightarrow> nat list" where
  "cell a b prev2 prev i j cur =
     (let cost = (if a ! (i - 1) \<noteq> b ! (j - 1) then 1 else 0);
          best = min (min (prev ! (j - 1) + cost) (prev ! j + 1)) (cur ! (j - 1) + 1);
          best' = (if i > 1 \<and> j > 1 \<and> a ! (i - 1) = b ! (j - 2) \<and> a ! (i - 2) = b ! (j - 1)
                   then min best (prev2 ! (j - 2) + 1) else best)
      in cur[j := best'])"

definition fill_row :: "'a list \<Rightarrow> 'a list \<Rightarrow> nat list \<Rightarrow> nat list \<Rightarrow> nat list \<Rightarrow> nat \<Rightarrow> nat list" where
  "fill_row a b prev2 prev cur i = fold (cell a b prev2 prev i) [1..<Suc (length b)] (cur[0 := i])"

definition roll :: "'a list \<Rightarrow> 'a list \<Rightarrow> nat \<Rightarrow> nat list \<times> nat list \<times> nat list \<Rightarrow> nat list \<times> nat list \<times> nat list" where
  "roll a b i = (\<lambda>(prev2, prev, cur). (prev, fill_row a b prev2 prev cur i, prev2))"

definition damerau :: "'a list \<Rightarrow> 'a list \<Rightarrow> nat" where
  "damerau a b =
     (if a = [] then length b
      else if b = [] then length a
      else
        (let n = length b in
         case fold (roll a b) [1..<Suc (length a)] (replicate (n + 1) 0, [0..<n + 1], replicate (n + 1) 0) of
           (prev2, prev, cur) \<Rightarrow> prev ! n))"

definition saturating_mul :: "'l::len word \<Rightarrow> 'l word \<Rightarrow> 'l word" where
  "saturating_mul a b = unwrap_or word_max (checked_mul a b)"

definition score :: "(string \<Rightarrow> nat list) \<Rightarrow> string \<Rightarrow> string \<Rightarrow> u32 option" where
  "score lower typed candidate =
     (if typed = [] \<or> candidate = [] then None
      else
        (let t = lower typed; c = lower candidate in
         if t = c then Some 1000
         else if prefix t c then Some (saturating_sub 900 (of_nat (length c - length t)))
         else
           (let dist = damerau t c; sub = is_subsequence t c;
                budget = max_distance (length t) + (if sub then 1 else 0)
            in if dist \<le> budget \<and> budget > 0
               then Some (saturating_sub 800 (saturating_mul (of_nat dist) 100) + (if sub then 60 else 0))
               else None)))"

definition MARGIN :: u32 where "MARGIN = 50"

definition scored :: "(string \<Rightarrow> nat list) \<Rightarrow> string \<Rightarrow> string list \<Rightarrow> (u32 \<times> string) list" where
  "scored lower typed candidates =
     sort_key (\<lambda>(s, c). (- int (unat s), c))
       (List.map_filter (\<lambda>c. map_option (\<lambda>s. (s, c)) (score lower typed c)) candidates)"

definition closest :: "(string \<Rightarrow> nat list) \<Rightarrow> string \<Rightarrow> string list \<Rightarrow> nat \<Rightarrow> string list" where
  "closest lower typed candidates limit =
     (case scored lower typed candidates of
        [] \<Rightarrow> []
      | (best, x) # rest \<Rightarrow>
          map snd (take limit (takeWhile (\<lambda>(s, _). s \<ge> saturating_sub best MARGIN) ((best, x) # rest))))"

section \<open>The subsequence test\<close>

lemma advance_Some: "advance ch c = Some it \<Longrightarrow> subseq (ch # it) c"
  by (induction c) (auto split: if_splits)

lemma advance_complete: "subseq (ch # t) c \<Longrightarrow> \<exists>it. advance ch c = Some it \<and> subseq t it"
  by (induction c) (auto split: if_splits elim: list_emb.cases)

lemma is_subsequence_iff: "is_subsequence t c \<longleftrightarrow> subseq t c"
proof (induction t arbitrary: c)
  case (Cons ch t)
  show ?case
  proof
    assume "is_subsequence (ch # t) c"
    then obtain it where it: "advance ch c = Some it" "is_subsequence t it" by (auto split: option.splits)
    then have "subseq (ch # t) (ch # it)" using Cons.IH by simp
    then show "subseq (ch # t) c" using advance_Some [OF it(1)] by (rule subseq_order.trans)
  next
    assume "subseq (ch # t) c"
    then obtain it where "advance ch c = Some it" "subseq t it" using advance_complete by metis
    then show "is_subsequence (ch # t) c" using Cons.IH by simp
  qed
qed simp

section \<open>The distance by recursion\<close>

text \<open>The distance of the first \<open>i\<close> characters of \<open>a\<close> and the first \<open>j\<close> of \<open>b\<close>.\<close>

fun osa :: "'a list \<Rightarrow> 'a list \<Rightarrow> nat \<Rightarrow> nat \<Rightarrow> nat" where
  "osa a b 0 j = j"
| "osa a b (Suc i) 0 = Suc i"
| "osa a b (Suc i) (Suc j) =
     (let best = min (min (osa a b i j + (if a ! i \<noteq> b ! j then 1 else 0)) (osa a b i (Suc j) + 1)) (osa a b (Suc i) j + 1)
      in if i > 0 \<and> j > 0 \<and> a ! i = b ! (j - 1) \<and> a ! (i - 1) = b ! j
         then min best (osa a b (i - 1) (j - 1) + 1) else best)"

definition row_of :: "'a list \<Rightarrow> 'a list \<Rightarrow> nat \<Rightarrow> nat list" where
  "row_of a b i = map (osa a b i) [0..<Suc (length b)]"

lemma row_of_nth [simp]: "j \<le> length b \<Longrightarrow> row_of a b i ! j = osa a b i j"
  by (simp add: row_of_def del: upt_Suc)

lemma fold_upto_Suc: "fold f [1..<Suc (Suc m)] s = f (Suc m) (fold f [1..<Suc m] s)"
  by simp

lemma fill_row_cells:
  assumes "length cur = Suc (length b)" "m \<le> length b" "0 < i \<longrightarrow> i = 1 \<or> prev2 = row_of a b (i - 2)" "prev = row_of a b (i - 1)" "0 < i"
  shows "length (fold (cell a b prev2 prev i) [1..<Suc m] (cur[0 := i])) = Suc (length b)
    \<and> (\<forall>k \<le> m. fold (cell a b prev2 prev i) [1..<Suc m] (cur[0 := i]) ! k = osa a b i k)"
  using assms(2)
proof (induction m)
  case 0
  then show ?case using assms by (cases i) auto
next
  case (Suc m)
  define c where "c = fold (cell a b prev2 prev i) [1..<Suc m] (cur[0 := i])"
  have IH: "length c = Suc (length b)" "\<forall>k \<le> m. c ! k = osa a b i k"
    using Suc by (simp_all add: c_def)
  obtain i' where i': "i = Suc i'" using assms(5) by (cases i) auto
  have "cell a b prev2 prev i (Suc m) c = c[Suc m := osa a b i (Suc m)]"
    using Suc.prems IH(2) assms(3,4,5) i' by (cases "i' = 0") (auto simp: cell_def Let_def numeral_2_eq_2)
  then have "fold (cell a b prev2 prev i) [1..<Suc (Suc m)] (cur[0 := i]) = c[Suc m := osa a b i (Suc m)]"
    by (simp only: fold_upto_Suc c_def)
  then show ?case
    using IH Suc.prems by (simp only:) (auto simp: nth_list_update le_Suc_eq)
qed

lemma fill_row_eq:
  assumes "length cur = Suc (length b)" "i = 1 \<or> prev2 = row_of a b (i - 2)" "prev = row_of a b (i - 1)" "0 < i"
  shows "fill_row a b prev2 prev cur i = row_of a b i"
  using fill_row_cells [OF assms(1) order.refl, of i prev2 a prev] assms
  by (auto simp: fill_row_def intro!: nth_equalityI simp del: upt_Suc) (simp_all add: row_of_def)

lemma roll_rows:
  "\<exists>cur. fold (roll a b) [1..<Suc i] (replicate (length b + 1) 0, [0..<length b + 1], replicate (length b + 1) 0)
     = (if i = 0 then replicate (length b + 1) 0 else row_of a b (i - 1), row_of a b i, cur) \<and> length cur = Suc (length b)"
proof (induction i)
  case 0
  have "row_of a b 0 = [0..<length b + 1]" by (auto simp: row_of_def intro: nth_equalityI)
  then show ?case by simp
next
  case (Suc i)
  then obtain cur where cur: "fold (roll a b) [1..<Suc i] (replicate (length b + 1) 0, [0..<length b + 1], replicate (length b + 1) 0)
      = (if i = 0 then replicate (length b + 1) 0 else row_of a b (i - 1), row_of a b i, cur)" "length cur = Suc (length b)"
    by blast
  have "fill_row a b (if i = 0 then replicate (length b + 1) 0 else row_of a b (i - 1)) (row_of a b i) cur (Suc i) = row_of a b (Suc i)"
    by (rule fill_row_eq) (use cur(2) in auto)
  then have "roll a b (Suc i) (if i = 0 then replicate (length b + 1) 0 else row_of a b (i - 1), row_of a b i, cur)
      = (row_of a b i, row_of a b (Suc i), if i = 0 then replicate (length b + 1) 0 else row_of a b (i - 1))"
    by (simp add: roll_def)
  then show ?case
    unfolding fold_upto_Suc cur(1) by (simp add: row_of_def)
qed

lemma damerau_osa: "damerau a b = osa a b (length a) (length b)"
proof -
  have "osa a b i 0 = i" for i by (cases i) auto
  moreover obtain cur where "fold (roll a b) [1..<Suc (length a)] (replicate (length b + 1) 0, [0..<length b + 1], replicate (length b + 1) 0)
      = (if length a = 0 then replicate (length b + 1) 0 else row_of a b (length a - 1), row_of a b (length a), cur)"
    using roll_rows by blast
  ultimately show ?thesis by (auto simp: damerau_def Let_def simp del: upt_Suc)
qed

section \<open>The distance as a least number of edits\<close>

text \<open>
  Turning one word into the other, from left to right: keeping or replacing a character, dropping one, inserting one, or swapping two
  neighbours.  The number counts everything but the keeping.
\<close>

inductive edits :: "'a list \<Rightarrow> 'a list \<Rightarrow> nat \<Rightarrow> bool" where
  edits_Nil: "edits [] [] 0"
| edits_keep: "edits a b k \<Longrightarrow> edits (a @ [x]) (b @ [x]) k"
| edits_replace: "edits a b k \<Longrightarrow> edits (a @ [x]) (b @ [y]) (Suc k)"
| edits_drop: "edits a b k \<Longrightarrow> edits (a @ [x]) b (Suc k)"
| edits_insert: "edits a b k \<Longrightarrow> edits a (b @ [y]) (Suc k)"
| edits_swap: "edits a b k \<Longrightarrow> edits (a @ [x, y]) (b @ [y, x]) (Suc k)"

lemma osa_zero: "osa a b i 0 = i"
  by (cases i) auto

lemma osa_le_diagonal: "osa a b (Suc i) (Suc j) \<le> osa a b i j + (if a ! i \<noteq> b ! j then 1 else 0)"
  by (auto simp: Let_def)

lemma osa_le_drop: "osa a b (Suc i) j \<le> Suc (osa a b i j)"
  by (cases j) (auto simp: Let_def osa_zero)

lemma osa_le_insert: "osa a b i (Suc j) \<le> Suc (osa a b i j)"
  by (cases i) (auto simp: Let_def)

lemma osa_le_swap:
  "a ! Suc i = b ! j \<Longrightarrow> a ! i = b ! Suc j \<Longrightarrow> osa a b (Suc (Suc i)) (Suc (Suc j)) \<le> Suc (osa a b i j)"
  by (subst osa.simps) (simp add: Let_def del: osa.simps)

lemma osa_lower: "edits a b k \<Longrightarrow> osa (a @ u) (b @ v) (length a) (length b) \<le> k"
proof (induction arbitrary: u v rule: edits.induct)
  case (edits_keep a b k x)
  show ?case using osa_le_diagonal [of "a @ x # u" "b @ x # v" "length a" "length b"] edits_keep.IH [of "x # u" "x # v"]
    by (simp del: osa.simps)
next
  case (edits_replace a b k x y)
  show ?case using osa_le_diagonal [of "a @ x # u" "b @ y # v" "length a" "length b"] edits_replace.IH [of "x # u" "y # v"]
    by (simp del: osa.simps split: if_splits)
next
  case (edits_drop a b k x)
  show ?case using osa_le_drop [of "a @ x # u" "b @ v" "length a" "length b"] edits_drop.IH [of "x # u" v] by (simp del: osa.simps)
next
  case (edits_insert a b k y)
  show ?case using osa_le_insert [of "a @ u" "b @ y # v" "length a" "length b"] edits_insert.IH [of u "y # v"] by (simp del: osa.simps)
next
  case (edits_swap a b k x y)
  show ?case
    using osa_le_swap [of "a @ x # y # u" "length a" "b @ y # x # v" "length b"] edits_swap.IH [of "x # y # u" "y # x # v"]
    by (simp add: nth_append del: osa.simps)
qed simp

lemma edits_inserts: "edits [] b (length b)"
  by (induction b rule: rev_induct) (auto intro: edits.intros)

lemma edits_drops: "edits a [] (length a)"
  by (induction a rule: rev_induct) (auto intro: edits.intros)

lemma osa_cases:
  "osa a b (Suc i) (Suc j) \<in> {osa a b i j + (if a ! i \<noteq> b ! j then 1 else 0), Suc (osa a b i (Suc j)), Suc (osa a b (Suc i) j)}
   \<or> i > 0 \<and> j > 0 \<and> a ! i = b ! (j - 1) \<and> a ! (i - 1) = b ! j \<and> osa a b (Suc i) (Suc j) = Suc (osa a b (i - 1) (j - 1))"
  by (simp add: Let_def min_def)

lemma osa_upper: "i \<le> length a \<Longrightarrow> j \<le> length b \<Longrightarrow> edits (take i a) (take j b) (osa a b i j)"
proof (induction a b i j rule: osa.induct)
  case (1 a b j)
  then show ?case using edits_inserts [of "take j b"] by simp
next
  case (2 a b i)
  then show ?case using edits_drops [of "take (Suc i) a"] by (simp add: min_absorb2)
next
  case (3 a b i j)
  have bound: "i < length a" "j < length b" using "3.prems" by auto
  have A: "take (Suc i) a = take i a @ [a ! i]" and B: "take (Suc j) b = take j b @ [b ! j]"
    using bound by (simp_all add: take_Suc_conv_app_nth)
  consider (diag) "osa a b (Suc i) (Suc j) = osa a b i j + (if a ! i \<noteq> b ! j then 1 else 0)"
    | (drop) "osa a b (Suc i) (Suc j) = Suc (osa a b i (Suc j))"
    | (ins) "osa a b (Suc i) (Suc j) = Suc (osa a b (Suc i) j)"
    | (swap) "i > 0" "j > 0" "a ! i = b ! (j - 1)" "a ! (i - 1) = b ! j" "osa a b (Suc i) (Suc j) = Suc (osa a b (i - 1) (j - 1))"
    using osa_cases [of a b i j] by blast
  then show ?case
  proof cases
    case diag
    then show ?thesis unfolding diag A B using "3.IH"(1) bound by (auto intro: edits_keep edits_replace simp del: osa.simps)
  next
    case drop
    have "edits (take i a) (take (Suc j) b) (osa a b i (Suc j))" using "3.IH"(2) bound by simp
    then show ?thesis unfolding drop A by (rule edits_drop)
  next
    case ins
    have "edits (take (Suc i) a) (take j b) (osa a b (Suc i) j)" using "3.IH"(3) bound by simp
    then show ?thesis unfolding ins B by (rule edits_insert)
  next
    case swap
    obtain i' j' where ij: "i = Suc i'" "j = Suc j'" using swap(1,2) by (cases i; cases j) auto
    have "edits (take i' a) (take j' b) (osa a b i' j')"
      using "3.IH"(4) [OF refl] swap(1-4) bound unfolding ij by (simp del: osa.simps)
    then have "edits (take i' a @ [a ! i', a ! i]) (take j' b @ [a ! i, a ! i']) (Suc (osa a b i' j'))" by (rule edits_swap)
    moreover have "take (Suc i) a = take i' a @ [a ! i', a ! i]" "take (Suc j) b = take j' b @ [a ! i, a ! i']"
      using bound ij swap(3,4) by (simp_all add: take_Suc_conv_app_nth)
    ultimately show ?thesis unfolding swap(5) using ij by simp
  qed
qed

text \<open>
  C40. Edit distance: the three rolling rows compute the least number of replaced, dropped, inserted and swapped characters that
  turn one word into the other.
\<close>

theorem damerau_is_least_edits: "edits a b (damerau a b) \<and> (\<forall>k. edits a b k \<longrightarrow> damerau a b \<le> k)"
  using osa_upper [of "length a" a "length b" b] osa_lower [of a b _ "[]" "[]"] by (simp add: damerau_osa del: osa.simps)

theorem damerau_is_least_edits_witness:
  "edits ''lcok'' ''lock'' 1 \<and> damerau ''lcok'' ''lock'' = (1::nat)"
proof -
  have one: "damerau ''lcok'' ''lock'' = 1" by code_simp
  then show ?thesis using damerau_is_least_edits [of "''lcok''" "''lock''"] by simp
qed

section \<open>What is offered\<close>

lemma scored_set: "(s, c) \<in> set (scored lower typed cs) \<longleftrightarrow> c \<in> set cs \<and> score lower typed c = Some s"
  by (force simp: scored_def List.map_filter_def)

lemma scored_sorted: "scored lower typed cs = (best, x) # rest \<Longrightarrow> (s, c) \<in> set ((best, x) # rest) \<Longrightarrow> s \<le> best"
proof -
  assume eq: "scored lower typed cs = (best, x) # rest" and mem: "(s, c) \<in> set ((best, x) # rest)"
  have "sorted (map (\<lambda>(s, c). (- int (unat s), c)) (scored lower typed cs))" by (simp add: scored_def)
  then show "s \<le> best" using eq mem by (auto simp: word_le_def less_eq_prod_def)
qed

text \<open>Every suggestion is a candidate, and no candidate scores more than \<^const>\<open>MARGIN\<close> above it.\<close>

lemma closest_best_first:
  assumes "c \<in> set (closest lower typed cs limit)"
  shows "c \<in> set cs \<and> (\<exists>s. score lower typed c = Some s \<and> (\<forall>d s'. d \<in> set cs \<longrightarrow> score lower typed d = Some s' \<longrightarrow> unat s' \<le> unat s + 50))"
proof (cases "scored lower typed cs")
  case Nil
  then show ?thesis using assms by (simp add: closest_def)
next
  case (Cons p rest)
  obtain best x where p: "p = (best, x)" by (cases p)
  note sc = Cons [unfolded p]
  obtain s where s: "(s, c) \<in> set ((best, x) # rest)" "s \<ge> saturating_sub best MARGIN"
    using assms unfolding closest_def sc by (auto simp del: takeWhile.simps dest!: in_set_takeD set_takeWhileD)
  have "unat best \<le> unat s + 50"
    using s(2) unat_saturating_sub [of best MARGIN] by (simp add: word_le_nat_alt MARGIN_def)
  moreover have "unat s' \<le> unat best" if "d \<in> set cs" "score lower typed d = Some s'" for d s'
    using scored_sorted [OF sc, of s' d] that scored_set [of s' d lower typed cs] sc by (simp add: word_le_nat_alt)
  ultimately show ?thesis
    using s(1) scored_set [of s c lower typed cs] sc by (auto intro!: exI [of _ s] intro: le_trans)
qed

text \<open>One character is not excluded, although the code says so: a dropped letter of a two-letter command is still guessed.\<close>

lemma one_character_is_guessed: "closest (map of_char) ''c'' [''gc''] 3 = [''gc'']"
proof -
  have "is_subsequence (map of_char ''c'' :: nat list) (map of_char ''gc'')" "damerau (map of_char ''c'' :: nat list) (map of_char ''gc'') = 1"
    by code_simp+
  then have "score (map of_char) ''c'' ''gc'' = Some (saturating_sub 800 (saturating_mul 1 100) + 60)"
    by (simp add: score_def max_distance_def Let_def)
  then obtain s where "score (map of_char) ''c'' ''gc'' = Some s" by blast
  moreover have "saturating_sub s MARGIN \<le> s" using unat_saturating_sub [of s MARGIN] by (simp add: word_le_nat_alt)
  ultimately show ?thesis by (simp add: closest_def scored_def List.map_filter_def)
qed

end
