(* ===== verification/Registry.thy ===== *)
theory Registry
  imports BTreeMap "HOL-Library.List_Lexorder" "HOL-Library.Char_ord"
begin

text \<open>
  The device-wide list of sessions (\<^verbatim>\<open>src/registry.rs\<close>): a list sorted by path, kept in one file.  \<open>absolute\<close> stands for
  \<^verbatim>\<open>std::path::absolute\<close> as a string; the file is None while it is missing or unreadable.
\<close>

datatype session_kind = KindInit | KindJoin

fun kind_str :: "session_kind \<Rightarrow> string" where
  "kind_str KindInit = ''init''"
| "kind_str KindJoin = ''join''"

record session_ref =
  sr_path :: string
  sr_kind :: session_kind
  sr_added_ms :: u64
  sr_paused :: bool

type_synonym registry = "session_ref list"

definition reg_find :: "string \<Rightarrow> registry \<Rightarrow> session_ref option" where
  "reg_find p reg = List.find (\<lambda>s. sr_path s = p) reg"

definition register :: "(string \<Rightarrow> string) \<Rightarrow> string \<Rightarrow> session_kind \<Rightarrow> u64 \<Rightarrow> registry \<Rightarrow> registry" where
  "register absolute dir kind now_ms reg =
     (let p = absolute dir;
          paused = unwrap_or False (map_option sr_paused (reg_find p reg))
      in sort_key sr_path (filter (\<lambda>s. sr_path s \<noteq> p) reg
           @ [\<lparr>sr_path = p, sr_kind = kind, sr_added_ms = now_ms, sr_paused = paused\<rparr>]))"

fun pause_first :: "string \<Rightarrow> bool \<Rightarrow> registry \<Rightarrow> (bool \<times> registry) option" where
  "pause_first p paused [] = None"
| "pause_first p paused (s # reg) =
     (if sr_path s = p then Some (sr_paused s, s\<lparr>sr_paused := paused\<rparr> # reg)
      else map_option (\<lambda>(prev, reg'). (prev, s # reg')) (pause_first p paused reg))"

text \<open>The previous flag and the new list, if the path is registered.\<close>

definition set_paused :: "(string \<Rightarrow> string) \<Rightarrow> string \<Rightarrow> bool \<Rightarrow> registry \<Rightarrow> (bool \<times> registry) option" where
  "set_paused absolute dir paused reg = pause_first (absolute dir) paused reg"

definition is_paused :: "(string \<Rightarrow> string) \<Rightarrow> string \<Rightarrow> registry \<Rightarrow> bool" where
  "is_paused absolute dir reg \<longleftrightarrow> list_ex (\<lambda>s. sr_path s = absolute dir \<and> sr_paused s) reg"

definition forget :: "(string \<Rightarrow> string) \<Rightarrow> string \<Rightarrow> registry \<Rightarrow> bool \<times> registry" where
  "forget absolute dir reg =
     (let reg' = filter (\<lambda>s. sr_path s \<noteq> absolute dir) reg in (length reg' \<noteq> length reg, reg'))"

definition prune_registry :: "(string \<Rightarrow> bool) \<Rightarrow> registry \<Rightarrow> string list \<times> registry" where
  "prune_registry is_session reg =
     (map sr_path (filter (\<lambda>s. \<not> is_session (sr_path s)) reg), filter (\<lambda>s. is_session (sr_path s)) reg)"

section \<open>The file\<close>

definition load_registry :: "registry option \<Rightarrow> registry" where
  "load_registry file = unwrap_or [] file"

text \<open>The save is atomic: it happens or it does not.\<close>

definition save_registry :: "bool \<Rightarrow> registry \<Rightarrow> registry option \<Rightarrow> registry option" where
  "save_registry ok reg file = (if ok then Some reg else file)"

definition register_session ::
  "(string \<Rightarrow> string) \<Rightarrow> (string \<Rightarrow> bool) \<Rightarrow> bool \<Rightarrow> string \<Rightarrow> session_kind \<Rightarrow> u64 \<Rightarrow> registry option \<Rightarrow> registry option" where
  "register_session absolute is_session ok dir kind now_ms file =
     save_registry ok (register absolute dir kind now_ms (snd (prune_registry is_session (load_registry file)))) file"

definition forget_session :: "(string \<Rightarrow> string) \<Rightarrow> bool \<Rightarrow> string \<Rightarrow> registry option \<Rightarrow> bool \<times> registry option" where
  "forget_session absolute ok dir file =
     (case forget absolute dir (load_registry file) of (removed, reg) \<Rightarrow> (removed, save_registry ok reg file))"

definition ensure_registered ::
  "(string \<Rightarrow> string) \<Rightarrow> bool \<Rightarrow> string \<Rightarrow> u64 \<Rightarrow> registry option \<Rightarrow> registry option" where
  "ensure_registered absolute ok dir now_ms file =
     (let reg = load_registry file in
      if list_ex (\<lambda>s. sr_path s = absolute dir) reg then file
      else save_registry ok (register absolute dir KindInit now_ms reg) file)"

section \<open>The list is a map by path\<close>

text \<open>Sorted and without a path twice.\<close>

definition reg_ok :: "registry \<Rightarrow> bool" where
  "reg_ok reg \<longleftrightarrow> sorted_wrt (<) (map sr_path reg)"

lemma reg_ok_filter: "reg_ok reg \<Longrightarrow> reg_ok (filter P reg)"
  by (induction reg) (auto simp: reg_ok_def)

lemma reg_ok_distinct: "reg_ok reg \<longleftrightarrow> sorted (map sr_path reg) \<and> distinct (map sr_path reg)"
  by (auto simp: reg_ok_def strict_sorted_iff)

lemma reg_find_Some: "reg_ok reg \<Longrightarrow> reg_find p reg = Some s \<longleftrightarrow> s \<in> set reg \<and> sr_path s = p"
proof (induction reg)
  case (Cons x reg)
  then show ?case by (auto simp: reg_ok_def reg_find_def)
qed (simp add: reg_find_def)

lemma reg_find_None: "reg_find p reg = None \<longleftrightarrow> p \<notin> sr_path ` set reg"
  by (auto simp: reg_find_def find_None_iff)

lemma reg_ok_register: "reg_ok reg \<Longrightarrow> reg_ok (register absolute dir kind now_ms reg)"
  unfolding reg_ok_distinct register_def Let_def
  by (auto simp: distinct_map inj_on_def)

lemma find_register:
  assumes "reg_ok reg"
  shows "reg_find q (register absolute dir kind now_ms reg) =
    (if q = absolute dir
     then Some \<lparr>sr_path = q, sr_kind = kind, sr_added_ms = now_ms,
                sr_paused = unwrap_or False (map_option sr_paused (reg_find q reg))\<rparr>
     else reg_find q reg)"
proof -
  have "reg_find q (register absolute dir kind now_ms reg) = Some s \<longleftrightarrow>
      (if q = absolute dir then s = \<lparr>sr_path = q, sr_kind = kind, sr_added_ms = now_ms,
         sr_paused = unwrap_or False (map_option sr_paused (reg_find q reg))\<rparr> else reg_find q reg = Some s)" for s
    unfolding reg_find_Some [OF reg_ok_register [OF assms]] reg_find_Some [OF assms]
    by (auto simp: register_def Let_def)
  then show ?thesis by (metis (no_types, lifting) not_None_eq option.inject)
qed

lemma pause_first_find:
  "pause_first p paused reg = Some (prev, reg') \<Longrightarrow>
   map sr_path reg' = map sr_path reg \<and> (\<exists>s. reg_find p reg = Some s \<and> sr_paused s = prev)
   \<and> reg_find q reg' = (if q = p then map_option (\<lambda>s. s\<lparr>sr_paused := paused\<rparr>) (reg_find q reg) else reg_find q reg)"
proof (induction reg arbitrary: reg')
  case (Cons s reg)
  show ?case
  proof (cases "sr_path s = p")
    case True
    then show ?thesis using Cons.prems by (auto simp: reg_find_def)
  next
    case False
    then obtain r where r: "pause_first p paused reg = Some (prev, r)" "reg' = s # r" using Cons.prems by auto
    then show ?thesis using Cons.IH [OF r(1)] False by (auto simp: reg_find_def)
  qed
qed simp

lemma pause_first_None: "pause_first p paused reg = None \<longleftrightarrow> reg_find p reg = None"
  by (induction reg) (auto simp: reg_find_def)

lemma find_filter: "reg_ok reg \<Longrightarrow> reg_find q (filter (\<lambda>s. P (sr_path s)) reg) = (if P q then reg_find q reg else None)"
  by (induction reg) (auto simp: reg_find_def reg_ok_def)

lemma is_paused_find: "reg_ok reg \<Longrightarrow> is_paused absolute dir reg \<longleftrightarrow> (\<exists>s. reg_find (absolute dir) reg = Some s \<and> sr_paused s)"
  by (auto simp: is_paused_def reg_find_Some list_ex_iff)

lemma registry_ops:
  assumes "reg_ok reg"
  shows "reg_ok (register absolute dir kind now_ms reg)"
    and "reg_find q (register absolute dir kind now_ms reg) =
      (if q = absolute dir
       then Some \<lparr>sr_path = q, sr_kind = kind, sr_added_ms = now_ms,
                  sr_paused = unwrap_or False (map_option sr_paused (reg_find q reg))\<rparr>
       else reg_find q reg)"
    and "case set_paused absolute dir paused reg of
        None \<Rightarrow> reg_find (absolute dir) reg = None
      | Some (prev, reg') \<Rightarrow> reg_ok reg'
          \<and> map_option sr_paused (reg_find (absolute dir) reg) = Some prev
          \<and> reg_find q reg' = (if q = absolute dir then map_option (\<lambda>s. s\<lparr>sr_paused := paused\<rparr>) (reg_find q reg) else reg_find q reg)"
    and "reg_ok (snd (forget absolute dir reg))"
    and "reg_find q (snd (forget absolute dir reg)) = (if q = absolute dir then None else reg_find q reg)"
    and "reg_ok (snd (prune_registry is_session reg))"
    and "reg_find q (snd (prune_registry is_session reg)) = (if is_session q then reg_find q reg else None)"
proof -
  show "reg_ok (register absolute dir kind now_ms reg)" by (rule reg_ok_register [OF assms])
  show "reg_find q (register absolute dir kind now_ms reg) =
      (if q = absolute dir
       then Some \<lparr>sr_path = q, sr_kind = kind, sr_added_ms = now_ms,
                  sr_paused = unwrap_or False (map_option sr_paused (reg_find q reg))\<rparr>
       else reg_find q reg)" by (rule find_register [OF assms])
  show "case set_paused absolute dir paused reg of
        None \<Rightarrow> reg_find (absolute dir) reg = None
      | Some (prev, reg') \<Rightarrow> reg_ok reg'
          \<and> map_option sr_paused (reg_find (absolute dir) reg) = Some prev
          \<and> reg_find q reg' = (if q = absolute dir then map_option (\<lambda>s. s\<lparr>sr_paused := paused\<rparr>) (reg_find q reg) else reg_find q reg)"
    using assms pause_first_find [of "absolute dir" paused reg _ _ q]
    by (auto simp: set_paused_def pause_first_None reg_ok_def split: option.splits)
  show "reg_ok (snd (forget absolute dir reg))" "reg_ok (snd (prune_registry is_session reg))"
    using assms by (simp_all add: forget_def prune_registry_def Let_def reg_ok_filter)
  show "reg_find q (snd (forget absolute dir reg)) = (if q = absolute dir then None else reg_find q reg)"
      "reg_find q (snd (prune_registry is_session reg)) = (if is_session q then reg_find q reg else None)"
    using find_filter [OF assms, of q "\<lambda>p. p \<noteq> absolute dir"] find_filter [OF assms, of q is_session]
    by (simp_all add: forget_def prune_registry_def Let_def)
qed

text \<open>
  C29. The registry is a sorted map from paths to sessions: every operation keeps the list sorted and without duplicates, registering
  replaces one entry and keeps its pause flag, pausing changes one flag, forgetting and pruning drop exactly what they should.
\<close>

theorem registry_refines_map:
  assumes "reg_ok reg"
  shows "reg_ok (register absolute dir kind now_ms reg)
    \<and> reg_find q (register absolute dir kind now_ms reg) =
      (if q = absolute dir
       then Some \<lparr>sr_path = q, sr_kind = kind, sr_added_ms = now_ms,
                  sr_paused = unwrap_or False (map_option sr_paused (reg_find q reg))\<rparr>
       else reg_find q reg)
    \<and> (case set_paused absolute dir paused reg of
        None \<Rightarrow> reg_find (absolute dir) reg = None
      | Some (prev, reg') \<Rightarrow> reg_ok reg'
          \<and> map_option sr_paused (reg_find (absolute dir) reg) = Some prev
          \<and> reg_find q reg' = (if q = absolute dir then map_option (\<lambda>s. s\<lparr>sr_paused := paused\<rparr>) (reg_find q reg) else reg_find q reg))
    \<and> reg_ok (snd (forget absolute dir reg))
    \<and> reg_find q (snd (forget absolute dir reg)) = (if q = absolute dir then None else reg_find q reg)
    \<and> reg_ok (snd (prune_registry is_session reg))
    \<and> reg_find q (snd (prune_registry is_session reg)) = (if is_session q then reg_find q reg else None)"
  by (intro conjI registry_ops assms)

theorem registry_refines_map_witness:
  "reg_find ''/b'' (register id ''/b'' KindJoin 2 [\<lparr>sr_path = ''/b'', sr_kind = KindInit, sr_added_ms = 1, sr_paused = True\<rparr>])
     = Some \<lparr>sr_path = ''/b'', sr_kind = KindJoin, sr_added_ms = 2, sr_paused = True\<rparr>"
proof -
  let ?reg = "[\<lparr>sr_path = ''/b'', sr_kind = KindInit, sr_added_ms = 1, sr_paused = True\<rparr>]"
  have "reg_ok ?reg" by (simp add: reg_ok_def)
  from registry_refines_map [OF this, where dir = "''/b''" and absolute = id and kind = KindJoin and now_ms = 2 and q = "''/b''"]
  show ?thesis by (simp add: reg_find_def)
qed

end
