(* ===== verification/Supervisor.thy ===== *)
theory Supervisor
  imports Registry
begin

text \<open>
  The process that hosts every registered session (\<^verbatim>\<open>src/supervisor.rs\<close>, and the pause command of \<^verbatim>\<open>src/cli.rs\<close>).  A hosted
  session is a daemon handle, here a number; \<open>sp_alive\<close> is the set of daemons that run.  Daemons may also end on their own: a
  folder's own socket still takes a shutdown request.  What a spawn gives (a handle or an error) and whether a save succeeds are
  arguments.
\<close>

datatype control_request = CtlList | CtlPause string | CtlResume string

datatype control_reply =
    CtlListed "string list" "string list"
  | CtlPaused string bool
  | CtlResumed string
  | CtlRefused string string

record supervisor =
  sp_hosted :: "(string, nat) btree"
  sp_alive :: "nat set"
  sp_file :: "registry option"

definition spawn_session :: "(string \<Rightarrow> string) \<Rightarrow> string \<Rightarrow> string + nat \<Rightarrow> supervisor \<Rightarrow> (string + unit) \<times> supervisor" where
  "spawn_session absolute dir spawned sp =
     (if bt_contains (sp_hosted sp) (absolute dir) then (Inr (), sp)
      else case spawned of
        Inl e \<Rightarrow> (Inl e, sp)
      | Inr h \<Rightarrow> (Inr (), sp\<lparr>sp_hosted := bt_insert (absolute dir) h (sp_hosted sp), sp_alive := insert h (sp_alive sp)\<rparr>))"

definition stop_session :: "(string \<Rightarrow> string) \<Rightarrow> string \<Rightarrow> supervisor \<Rightarrow> bool \<times> supervisor" where
  "stop_session absolute dir sp =
     (case bt_get (sp_hosted sp) (absolute dir) of
        Some h \<Rightarrow> (True, sp\<lparr>sp_hosted := bt_remove (absolute dir) (sp_hosted sp), sp_alive := sp_alive sp - {h}\<rparr>)
      | None \<Rightarrow> (False, sp))"

definition handle_control ::
  "(string \<Rightarrow> string) \<Rightarrow> bool \<Rightarrow> string + nat \<Rightarrow> control_request \<Rightarrow> supervisor \<Rightarrow> control_reply \<times> supervisor" where
  "handle_control absolute save_ok spawned req sp =
     (case req of
        CtlList \<Rightarrow>
          (CtlListed (bt_keys (sp_hosted sp)) (map sr_path (filter sr_paused (load_registry (sp_file sp)))), sp)
      | CtlPause path \<Rightarrow>
          (case set_paused absolute path True (load_registry (sp_file sp)) of
             None \<Rightarrow> (CtlRefused ''unknown_session'' path, sp)
           | Some (_, reg) \<Rightarrow>
               (case stop_session absolute path (sp\<lparr>sp_file := save_registry save_ok reg (sp_file sp)\<rparr>) of
                  (stopped, sp') \<Rightarrow> (CtlPaused path stopped, sp')))
      | CtlResume path \<Rightarrow>
          (case set_paused absolute path False (load_registry (sp_file sp)) of
             None \<Rightarrow> (CtlRefused ''unknown_session'' path, sp)
           | Some (_, reg) \<Rightarrow>
               (case spawn_session absolute path spawned (sp\<lparr>sp_file := save_registry save_ok reg (sp_file sp)\<rparr>) of
                  (Inr _, sp') \<Rightarrow> (CtlResumed path, sp')
                | (Inl e, sp') \<Rightarrow> (CtlRefused ''spawn_failed'' e, sp'))))"

definition shutdown_all :: "supervisor \<Rightarrow> supervisor" where
  "shutdown_all sp = sp\<lparr>sp_hosted := [], sp_alive := sp_alive sp - set (map snd (sp_hosted sp))\<rparr>"

text \<open>Bringing up: every registered session that is not paused; one that does not start is skipped with the reason.\<close>

fun bring_up ::
  "(string \<Rightarrow> string) \<Rightarrow> (string \<Rightarrow> string + nat) \<Rightarrow> registry \<Rightarrow> nat \<Rightarrow> (string \<times> string) list \<Rightarrow> supervisor
     \<Rightarrow> nat \<times> (string \<times> string) list \<times> supervisor" where
  "bring_up absolute spawn [] paused skipped sp = (paused, skipped, sp)"
| "bring_up absolute spawn (s # ss) paused skipped sp =
     (if sr_paused s then bring_up absolute spawn ss (paused + 1) skipped sp
      else case spawn_session absolute (sr_path s) (spawn (sr_path s)) sp of
        (Inl e, sp') \<Rightarrow> bring_up absolute spawn ss paused (skipped @ [(sr_path s, e)]) sp'
      | (Inr _, sp') \<Rightarrow> bring_up absolute spawn ss paused skipped sp')"

definition supervisor_start ::
  "(string \<Rightarrow> string) \<Rightarrow> (string \<Rightarrow> bool) \<Rightarrow> bool \<Rightarrow> (string \<Rightarrow> string + nat) \<Rightarrow> registry option
     \<Rightarrow> nat \<times> (string \<times> string) list \<times> supervisor" where
  "supervisor_start absolute is_session save_ok spawn file =
     (case prune_registry is_session (load_registry file) of
        (pruned, reg) \<Rightarrow>
          bring_up absolute spawn reg 0 []
            \<lparr>sp_hosted = [], sp_alive = {}, sp_file = (if pruned \<noteq> [] then save_registry save_ok reg file else file)\<rparr>)"

text \<open>The pause and resume commands, with a supervisor running or without.\<close>

definition handle_pause_cli ::
  "(string \<Rightarrow> string) \<Rightarrow> bool \<Rightarrow> u64 \<Rightarrow> string + nat \<Rightarrow> bool \<Rightarrow> string \<Rightarrow> bool \<Rightarrow> supervisor
     \<Rightarrow> control_reply option \<times> supervisor" where
  "handle_pause_cli absolute save_ok now_ms spawned control_alive dir pause sp =
     (let sp1 = sp\<lparr>sp_file := ensure_registered absolute save_ok dir now_ms (sp_file sp)\<rparr> in
      if control_alive
      then (case handle_control absolute save_ok spawned (if pause then CtlPause dir else CtlResume dir) sp1 of
              (reply, sp2) \<Rightarrow> (Some reply, sp2))
      else
        (let reg = load_registry (sp_file sp1);
             reg' = (case set_paused absolute dir pause reg of None \<Rightarrow> reg | Some (_, r) \<Rightarrow> r)
         in (None, sp1\<lparr>sp_file := save_registry save_ok reg' (sp_file sp1)\<rparr>)))"

section \<open>Runs\<close>

text \<open>A daemon may end on its own, and other commands register and forget sessions meanwhile.\<close>

inductive sup_step :: "(string \<Rightarrow> string) \<Rightarrow> bool \<Rightarrow> supervisor \<Rightarrow> supervisor \<Rightarrow> bool" for absolute save_ok where
  sup_control: "sup_step absolute save_ok sp (snd (handle_control absolute save_ok spawned req sp))"
| sup_ended: "sup_step absolute save_ok sp (sp\<lparr>sp_alive := sp_alive sp - {h}\<rparr>)"
| sup_register: "sup_step absolute save_ok sp (sp\<lparr>sp_file := register_session absolute is_session save_ok dir kind now_ms (sp_file sp)\<rparr>)"
| sup_forget: "sup_step absolute save_ok sp (sp\<lparr>sp_file := snd (forget_session absolute save_ok dir (sp_file sp))\<rparr>)"

inductive_cases sup_stepE: "sup_step absolute save_ok sp sp'"

definition paused_in :: "registry option \<Rightarrow> string \<Rightarrow> bool" where
  "paused_in file p \<longleftrightarrow> (\<exists>s. reg_find p (load_registry file) = Some s \<and> sr_paused s)"

definition sup_ok :: "supervisor \<Rightarrow> bool" where
  "sup_ok sp \<longleftrightarrow> bt_wf (sp_hosted sp) \<and> reg_ok (load_registry (sp_file sp))
     \<and> (\<forall>p. bt_contains (sp_hosted sp) p \<longrightarrow> \<not> paused_in (sp_file sp) p)"

lemma load_save [simp]: "load_registry (save_registry True reg file) = reg"
  by (simp add: load_registry_def save_registry_def)

lemma paused_in_set:
  assumes "reg_ok (load_registry file)" "set_paused absolute dir paused (load_registry file) = Some (prev, reg)"
  shows "reg_ok reg \<and> (paused_in (save_registry True reg file) p \<longleftrightarrow> (if p = absolute dir then paused else paused_in file p))"
  using registry_ops(3) [OF assms(1), where absolute = absolute and dir = dir and paused = paused and q = p] assms(2) by (auto simp: paused_in_def)

lemma spawn_session_ok:
  assumes "sup_ok sp" "\<not> paused_in (sp_file sp) (absolute dir)" "spawn_session absolute dir spawned sp = (res, sp')"
  shows "sup_ok sp' \<and> sp_file sp' = sp_file sp"
  using assms by (auto simp: sup_ok_def spawn_session_def split: if_splits sum.splits)

lemma handle_control_ok:
  assumes "sup_ok sp"
  shows "sup_ok (snd (handle_control absolute True spawned req sp))"
proof (cases req)
  case CtlList
  then show ?thesis using assms by (simp add: handle_control_def)
next
  case (CtlPause dir)
  show ?thesis
  proof (cases "set_paused absolute dir True (load_registry (sp_file sp))")
    case None
    then show ?thesis using assms CtlPause by (simp add: handle_control_def)
  next
    case (Some r)
    obtain prev reg where r: "r = (prev, reg)" by (cases r)
    have reg: "reg_ok (load_registry (sp_file sp))" using assms by (simp add: sup_ok_def)
    note p = paused_in_set [OF reg Some [unfolded r]]
    then show ?thesis using assms CtlPause Some r
      by (auto simp: handle_control_def stop_session_def sup_ok_def bt_contains_iff split: option.splits if_splits)
  qed
next
  case (CtlResume dir)
  show ?thesis
  proof (cases "set_paused absolute dir False (load_registry (sp_file sp))")
    case None
    then show ?thesis using assms CtlResume by (simp add: handle_control_def)
  next
    case (Some r)
    obtain prev reg where r: "r = (prev, reg)" by (cases r)
    have reg: "reg_ok (load_registry (sp_file sp))" using assms by (simp add: sup_ok_def)
    note p = paused_in_set [OF reg Some [unfolded r]]
    let ?sp = "sp\<lparr>sp_file := save_registry True reg (sp_file sp)\<rparr>"
    have "sup_ok ?sp" "\<not> paused_in (sp_file ?sp) (absolute dir)" using assms p by (auto simp: sup_ok_def)
    from spawn_session_ok [of ?sp absolute dir spawned, OF this] show ?thesis
      using CtlResume Some r by (auto simp: handle_control_def split: sum.splits prod.splits)
  qed
qed

lemma paused_in_register:
  "reg_ok (load_registry file) \<Longrightarrow> paused_in (register_session absolute is_session True dir kind now_ms file) p \<Longrightarrow> paused_in file p"
  using registry_ops(6,7) [of "load_registry file", where is_session = is_session]
  by (auto simp: paused_in_def register_session_def find_register unwrap_or_def split: if_splits option.splits)

lemma sup_step_ok: "sup_step absolute True sp sp' \<Longrightarrow> sup_ok sp \<Longrightarrow> sup_ok sp'"
proof (induction rule: sup_step.induct)
  case (sup_control sp spawned req)
  then show ?case by (rule handle_control_ok)
next
  case (sup_ended sp h)
  then show ?case by (simp add: sup_ok_def)
next
  case (sup_register sp is_session dir kind now_ms)
  then show ?case
    using paused_in_register [of "sp_file sp"] reg_ok_register [OF registry_ops(6)]
    by (auto simp: sup_ok_def register_session_def)
next
  case (sup_forget sp dir)
  then show ?case
    using registry_ops(4,5) [of "load_registry (sp_file sp)", where absolute = absolute and dir = dir]
    by (auto simp: sup_ok_def forget_session_def paused_in_def split: prod.splits if_splits)
qed

lemma bring_up_ok:
  assumes "sup_ok sp" "\<forall>s \<in> set ss. absolute (sr_path s) = sr_path s \<and> (\<not> sr_paused s \<longrightarrow> \<not> paused_in (sp_file sp) (sr_path s))"
    "bring_up absolute spawn ss k skipped sp = (k', skipped', sp')"
  shows "sup_ok sp'"
  using assms
proof (induction ss arbitrary: k skipped sp)
  case (Cons s ss)
  show ?case
  proof (cases "sr_paused s")
    case True
    then show ?thesis using Cons by simp
  next
    case False
    obtain res sp1 where sp1: "spawn_session absolute (sr_path s) (spawn (sr_path s)) sp = (res, sp1)"
      by (cases "spawn_session absolute (sr_path s) (spawn (sr_path s)) sp")
    have ok: "sup_ok sp1" "sp_file sp1 = sp_file sp"
      using spawn_session_ok [of sp absolute "sr_path s", OF Cons.prems(1) _ sp1] Cons.prems(2) False by auto
    obtain k1 skipped1 where "bring_up absolute spawn ss k1 skipped1 sp1 = (k', skipped', sp')"
      using Cons.prems(3) False sp1 by (auto split: sum.splits)
    from Cons.IH [OF ok(1) _ this] show ?thesis using Cons.prems(2) ok(2) by simp
  qed
qed simp

lemma supervisor_start_ok:
  assumes "reg_ok (load_registry file)" "\<forall>s \<in> set (load_registry file). absolute (sr_path s) = sr_path s"
    "supervisor_start absolute is_session True spawn file = (k, skipped, sp)"
  shows "sup_ok sp"
proof -
  obtain pruned reg where pr: "prune_registry is_session (load_registry file) = (pruned, reg)" by fastforce
  let ?file = "if pruned \<noteq> [] then save_registry True reg file else file"
  have reg: "reg = filter (\<lambda>s. is_session (sr_path s)) (load_registry file)" using pr by (simp add: prune_registry_def)
  have load: "load_registry ?file = reg"
    using pr by (auto simp: prune_registry_def filter_id_conv filter_empty_conv)
  have ok: "reg_ok reg" using assms(1) by (simp add: reg reg_ok_filter)
  show ?thesis
  proof (rule bring_up_ok)
    show "bring_up absolute spawn reg 0 [] \<lparr>sp_hosted = [], sp_alive = {}, sp_file = ?file\<rparr> = (k, skipped, sp)"
      using assms(3) pr by (simp add: supervisor_start_def)
    show "sup_ok \<lparr>sp_hosted = [], sp_alive = {}, sp_file = ?file\<rparr>"
      using ok load by (simp add: sup_ok_def bt_contains_def)
    show "\<forall>s \<in> set reg. absolute (sr_path s) = sr_path s
        \<and> (\<not> sr_paused s \<longrightarrow> \<not> paused_in (sp_file \<lparr>sp_hosted = [], sp_alive = {}, sp_file = ?file\<rparr>) (sr_path s))"
    proof
      fix s assume s: "s \<in> set reg"
      have "reg_find (sr_path s) reg = Some s" using s ok by (simp add: reg_find_Some)
      then show "absolute (sr_path s) = sr_path s
        \<and> (\<not> sr_paused s \<longrightarrow> \<not> paused_in (sp_file \<lparr>sp_hosted = [], sp_alive = {}, sp_file = ?file\<rparr>) (sr_path s))"
        using s assms(2) load by (simp add: paused_in_def) (simp add: reg)
    qed
  qed
qed


definition demo_registry :: registry where
  "demo_registry = [\<lparr>sr_path = ''/a'', sr_kind = KindInit, sr_added_ms = 1, sr_paused = False\<rparr>]"


text \<open>
  A daemon that ended cannot be brought back: resuming a folder whose hosted daemon has ended (by a shutdown request to the
  folder's own socket) is answered with success, and nothing runs.
\<close>

theorem resume_of_ended_daemon:
  assumes "bt_get (sp_hosted sp) (absolute dir) = Some h" "reg_find (absolute dir) (load_registry (sp_file sp)) \<noteq> None"
  shows "\<exists>sp'. handle_control absolute save_ok spawned (CtlResume dir) (sp\<lparr>sp_alive := sp_alive sp - {h}\<rparr>) = (CtlResumed dir, sp')
    \<and> sp_hosted sp' = sp_hosted sp \<and> h \<notin> sp_alive sp' \<and> sp_alive sp' \<subseteq> sp_alive sp"
proof -
  obtain prev reg where "set_paused absolute dir False (load_registry (sp_file sp)) = Some (prev, reg)"
    using assms(2) pause_first_None [of "absolute dir" False "load_registry (sp_file sp)"]
    by (cases "set_paused absolute dir False (load_registry (sp_file sp))") (auto simp: set_paused_def)
  then show ?thesis using assms(1) by (auto simp: handle_control_def spawn_session_def bt_contains_def)
qed

theorem resume_of_ended_daemon_witness:
  "\<exists>sp'. handle_control id True (Inr 8) (CtlResume ''/a'') \<lparr>sp_hosted = [(''/a'', 7)], sp_alive = {}, sp_file = Some demo_registry\<rparr>
      = (CtlResumed ''/a'', sp') \<and> sp_alive sp' = {}"
  using resume_of_ended_daemon [of "\<lparr>sp_hosted = [(''/a'', 7)], sp_alive = {}, sp_file = Some demo_registry\<rparr>" id "''/a''" 7 True "Inr 8"]
  by (auto simp: bt_get_def demo_registry_def load_registry_def reg_find_def)

end
