(* ===== verification/Membership.thy ===== *)
theory Membership
  imports DialProps
begin

text \<open>
  The gossip task (\<^verbatim>\<open>src/net/membership.rs\<close>): sealed presence beacons out, member events in.  The cipher and the encoding of a
  beacon are the parameter \<open>gossip_lib\<close>; the overlay network is the list of what happens to the task.
\<close>

definition XNONCE_LEN :: nat where "XNONCE_LEN = 24"

record presence =
  pr_id :: bytes
  pr_addr :: addr_wire
  pr_ts_ms :: u64

text \<open>\<open>gl_encrypt key nonce aad msg\<close> and \<open>gl_decrypt key nonce aad ct\<close>; the beacon codec; the two parsers of addresses.\<close>

record gossip_lib =
  gl_encrypt :: "bytes \<Rightarrow> bytes \<Rightarrow> bytes \<Rightarrow> bytes \<Rightarrow> bytes option"
  gl_decrypt :: "bytes \<Rightarrow> bytes \<Rightarrow> bytes \<Rightarrow> bytes \<Rightarrow> bytes option"
  gl_ser :: "presence \<Rightarrow> bytes option"
  gl_de :: "bytes \<Rightarrow> presence option"
  gl_endpoint_id :: "bytes \<Rightarrow> node_id option"
  gl_parse_url :: "string \<Rightarrow> string option"

definition seal_presence :: "gossip_lib \<Rightarrow> bytes \<Rightarrow> bytes \<Rightarrow> bytes \<Rightarrow> presence \<Rightarrow> bytes option" where
  "seal_presence lib key topic nonce p =
     Option.bind (gl_ser lib p) (\<lambda>msg. Option.bind (gl_encrypt lib key nonce topic msg) (\<lambda>ct. Some (nonce @ ct)))"

definition open_presence :: "gossip_lib \<Rightarrow> bytes \<Rightarrow> bytes \<Rightarrow> bytes \<Rightarrow> presence option" where
  "open_presence lib key topic data =
     (if length data \<le> XNONCE_LEN then None
      else Option.bind (gl_decrypt lib key (take XNONCE_LEN data) topic (drop XNONCE_LEN data)) (gl_de lib))"

section \<open>The task\<close>

datatype gossip_event = Received bytes | GossipUp node_id | GossipDown node_id | Lagged | GossipError | GossipEnd

text \<open>A tick comes with the node's present address, a random nonce and the clock.  The flag of a gossip event: the daemon still listens.\<close>

datatype loop_input = Tick endpoint_addr bytes u64 | JoinPeers "node_id list" | CommandsClosed | GossipIn gossip_event bool

datatype loop_output = Broadcast bytes | JoinOverlay "node_id list" | Report member_event

definition beacon_event :: "gossip_lib \<Rightarrow> bytes \<Rightarrow> bytes \<Rightarrow> node_id \<Rightarrow> bytes \<Rightarrow> member_event option" where
  "beacon_event lib key topic me data =
     (case open_presence lib key topic data of
        None \<Rightarrow> None
      | Some p \<Rightarrow>
          (case gl_endpoint_id lib (pr_id p) of
             None \<Rightarrow> None
           | Some i \<Rightarrow>
               if i = me then None
               else map_option (Seen i) (to_endpoint_addr (\<lambda>b. gl_endpoint_id lib b \<noteq> None) (gl_parse_url lib) (pr_addr p))))"

fun membership_run :: "gossip_lib \<Rightarrow> bytes \<Rightarrow> bytes \<Rightarrow> node_id \<Rightarrow> bytes \<Rightarrow> loop_input list \<Rightarrow> loop_output list" where
  "membership_run lib key topic me me_bytes [] = []"
| "membership_run lib key topic me me_bytes (Tick addr nonce ts # ins) =
     (case seal_presence lib key topic nonce \<lparr>pr_id = me_bytes, pr_addr = from_endpoint_addr addr, pr_ts_ms = ts\<rparr> of
        None \<Rightarrow> [] | Some sealed \<Rightarrow> [Broadcast sealed])
     @ membership_run lib key topic me me_bytes ins"
| "membership_run lib key topic me me_bytes (JoinPeers ids # ins) = JoinOverlay ids # membership_run lib key topic me me_bytes ins"
| "membership_run lib key topic me me_bytes (CommandsClosed # ins) = []"
| "membership_run lib key topic me me_bytes (GossipIn ev ok # ins) =
     (let rest = membership_run lib key topic me me_bytes ins;
          report = (\<lambda>e. if ok then Report e # rest else [])
      in case ev of
           Received data \<Rightarrow> (case beacon_event lib key topic me data of None \<Rightarrow> rest | Some e \<Rightarrow> report e)
         | GossipUp i \<Rightarrow> report (NeighborUp i)
         | GossipDown i \<Rightarrow> report (NeighborDown i)
         | Lagged \<Rightarrow> rest
         | GossipError \<Rightarrow> []
         | GossipEnd \<Rightarrow> [])"

section \<open>Only members are heard\<close>

text \<open>What the cipher promises: decryption succeeds on nothing but what was encrypted under the same key, nonce and topic.\<close>

definition authentic_cipher :: "gossip_lib \<Rightarrow> bool" where
  "authentic_cipher lib \<longleftrightarrow> (\<forall>key nonce aad ct msg. gl_decrypt lib key nonce aad ct = Some msg \<longleftrightarrow> gl_encrypt lib key nonce aad msg = Some ct)"

lemma open_presence_sealed:
  assumes "authentic_cipher lib" "open_presence lib key topic data = Some p"
  shows "\<exists>nonce msg ct. length nonce = XNONCE_LEN \<and> data = nonce @ ct \<and> gl_de lib msg = Some p \<and> gl_encrypt lib key nonce topic msg = Some ct"
proof -
  obtain msg where msg: "gl_decrypt lib key (take XNONCE_LEN data) topic (drop XNONCE_LEN data) = Some msg" "gl_de lib msg = Some p"
      "XNONCE_LEN < length data"
    using assms(2) by (auto simp: open_presence_def split: if_splits Option.bind_splits)
  have "gl_encrypt lib key (take XNONCE_LEN data) topic msg = Some (drop XNONCE_LEN data)"
    using assms(1) msg(1) by (simp add: authentic_cipher_def)
  then show ?thesis using msg(2,3)
    by (intro exI [of _ "take XNONCE_LEN data"] exI [of _ msg] exI [of _ "drop XNONCE_LEN data"]) simp
qed

lemma seal_then_open:
  assumes "authentic_cipher lib" "\<forall>p msg. gl_ser lib p = Some msg \<longrightarrow> gl_de lib msg = Some p" "length nonce = XNONCE_LEN"
    and "seal_presence lib key topic nonce p = Some data" "XNONCE_LEN < length data"
  shows "open_presence lib key topic data = Some p"
proof -
  obtain msg ct where m: "gl_ser lib p = Some msg" "gl_encrypt lib key nonce topic msg = Some ct" "data = nonce @ ct"
    using assms(4) by (auto simp: seal_presence_def split: Option.bind_splits)
  then have "gl_decrypt lib key nonce topic ct = Some msg" using assms(1) by (simp add: authentic_cipher_def)
  then show ?thesis using assms(2,3,5) m by (simp add: open_presence_def)
qed

lemma reported_beacons:
  "Report (Seen i addr) \<in> set (membership_run lib key topic me me_bytes ins) \<Longrightarrow>
   \<exists>data. GossipIn (Received data) True \<in> set ins \<and> beacon_event lib key topic me data = Some (Seen i addr)"
  by (induction lib key topic me me_bytes ins rule: membership_run.induct)
     (fastforce simp: Let_def split: gossip_event.splits option.splits if_splits)+

text \<open>
  C26. Presence is authenticated: every sighting of a member that reaches the daemon comes from a gossip message that was encrypted
  under the session's gossip key for this topic; it is never a sighting of the node itself.
\<close>

theorem sightings_are_sealed:
  assumes "authentic_cipher lib" "Report (Seen i addr) \<in> set (membership_run lib key topic me me_bytes ins)"
  shows "i \<noteq> me \<and> (\<exists>nonce msg ct p. GossipIn (Received (nonce @ ct)) True \<in> set ins \<and> gl_encrypt lib key nonce topic msg = Some ct
    \<and> gl_de lib msg = Some p \<and> gl_endpoint_id lib (pr_id p) = Some i
    \<and> to_endpoint_addr (\<lambda>b. gl_endpoint_id lib b \<noteq> None) (gl_parse_url lib) (pr_addr p) = Some addr)"
proof -
  obtain data where data: "GossipIn (Received data) True \<in> set ins" "beacon_event lib key topic me data = Some (Seen i addr)"
    using reported_beacons [OF assms(2)] by blast
  obtain p where p: "open_presence lib key topic data = Some p" "gl_endpoint_id lib (pr_id p) = Some i" "i \<noteq> me"
      "to_endpoint_addr (\<lambda>b. gl_endpoint_id lib b \<noteq> None) (gl_parse_url lib) (pr_addr p) = Some addr"
    using data(2) by (auto simp: beacon_event_def split: option.splits if_splits)
  show ?thesis using open_presence_sealed [OF assms(1) p(1)] data(1) p by blast
qed

text \<open>A toy cipher that prefixes the key: it stands in for the authenticated one in the examples.\<close>

definition demo_gossip :: gossip_lib where
  "demo_gossip = \<lparr>gl_encrypt = (\<lambda>key nonce aad msg. Some (key @ aad @ msg)),
     gl_decrypt = (\<lambda>key nonce aad ct. strip_prefix (key @ aad) ct),
     gl_ser = (\<lambda>p. Some (pr_id p)), gl_de = (\<lambda>b. Some \<lparr>pr_id = b, pr_addr = \<lparr>aw_id = b, aw_relay = None, aw_direct = []\<rparr>, pr_ts_ms = 0\<rparr>),
     gl_endpoint_id = (\<lambda>b. Some ''n''), gl_parse_url = (\<lambda>u. None)\<rparr>"

theorem sightings_are_sealed_witness:
  "\<exists>nonce ct. GossipIn (Received (nonce @ ct)) True \<in> {GossipIn (Received (replicate 24 0 @ [5, 6, 7])) True}
     \<and> gl_encrypt demo_gossip [5] nonce [6] [7] = Some ct"
proof -
  let ?ins = "[GossipIn (Received (replicate 24 0 @ [5, 6, 7])) True]"
  let ?addr = "\<lparr>ea_id = [7], ea_addrs = []\<rparr>"
  have cipher: "authentic_cipher demo_gossip"
    by (auto simp: authentic_cipher_def demo_gossip_def strip_prefix_Some_iff)
  have rep: "Report (Seen ''n'' ?addr) \<in> set (membership_run demo_gossip [5] [6] ''me'' [1] ?ins)"
    by (simp add: beacon_event_def open_presence_def XNONCE_LEN_def demo_gossip_def to_endpoint_addr_def Let_def)
  from sightings_are_sealed [OF cipher rep] show ?thesis
    by (auto simp: demo_gossip_def to_endpoint_addr_def)
qed

section \<open>The address of a beacon is not compared with its id\<close>

text \<open>
  A beacon that names one member and carries the address of another makes the daemon dial the other one; the member stays marked as
  being dialled when that connection comes up, and later correct sightings do not dial it.
\<close>

lemma seen_dials:
  assumes "i \<noteq> ac_me a" "\<not> bt_contains (ac_peers a) i" "i \<notin> ac_dialing a" "i \<notin> ac_redial_scheduled a"
  shows "ac_dialing (on_member env (Seen i addr) a) = insert i (ac_dialing a) \<and> last (ac_out (on_member env (Seen i addr) a)) = StartDial i addr"
  using assms
  by (cases "bt_get (as_known_members (ac_state a)) i = Some (from_endpoint_addr addr)")
     (simp_all add: Let_def dial_def known_member_addr_def emit_def persist_def)

lemma seen_while_dialing:
  assumes "i \<in> ac_dialing a"
  shows "ac_dialing (on_member env (Seen i addr) a) = ac_dialing a \<and> StartDial i addr \<notin> set (drop (length (ac_out a)) (ac_out (on_member env (Seen i addr) a)))"
  using assms
  by (cases "i = ac_me a"; cases "bt_get (as_known_members (ac_state a)) i = Some (from_endpoint_addr addr)")
     (simp_all add: Let_def emit_def persist_def)

lemma misaddressed_beacon_blocks_member:
  fixes env :: daemon_env and addr :: endpoint_addr and a :: actor
  assumes "i \<noteq> ac_me a" "\<not> bt_contains (ac_peers a) i" "i \<notin> ac_dialing a" "i \<notin> ac_redial_scheduled a" "j \<noteq> i"
  defines "a1 \<equiv> settle_member env j (on_member env (Seen i addr) a)"
  shows "i \<in> ac_dialing a1 \<and> StartDial i good \<notin> set (drop (length (ac_out a1)) (ac_out (on_member env (Seen i good) a1)))"
proof -
  have "i \<in> ac_dialing a1"
    using seen_dials [OF assms(1-4), of env addr] assms(5) by (simp add: a1_def settle_member_def Let_def del: on_member.simps)
  then show ?thesis using seen_while_dialing by blast
qed

end
