(* ===== verification/Health.thy ===== *)
theory Health
  imports Complex_Main Prelude
begin

text \<open>
  Link statistics and the grade they give (\<^verbatim>\<open>src/net/telemetry.rs\<close>).  Floating point numbers are exact rationals here; instants are
  counted in nanoseconds from some origin.
\<close>

datatype conn_state = Direct | Relayed | NoConn
datatype health_grade = Good | Fair | Poor | Offline

definition ONLINE_WINDOW :: duration where "ONLINE_WINDOW = from_secs 30"
definition GRADE_GOOD_MAX_RTT_MS :: rat where "GRADE_GOOD_MAX_RTT_MS = 80"
definition GRADE_GOOD_MAX_JITTER_MS :: rat where "GRADE_GOOD_MAX_JITTER_MS = 20"
definition GRADE_POOR_MIN_RTT_MS :: rat where "GRADE_POOR_MIN_RTT_MS = 300"
definition GRADE_POOR_FLAPS_PER_MIN :: nat where "GRADE_POOR_FLAPS_PER_MIN = 3"
definition EWMA_ALPHA :: rat where "EWMA_ALPHA = 3 / 10"

record path_sample =
  ps_conn :: conn_state
  ps_rtt_ms :: rat
  ps_relay_url :: "string option"
  ps_on_lan :: bool
  ps_bytes_tx :: u64
  ps_bytes_rx :: u64

record peer_health =
  he_conn :: conn_state
  he_rtt_ms :: rat
  he_rtt_jitter_ms :: rat
  he_path_changes :: u32
  he_recent_changes :: "instant list"
  he_last_seen :: instant
  he_relay_url :: "string option"
  he_on_lan :: bool
  he_bytes_tx :: u64
  he_bytes_rx :: u64
  he_rate_tx :: rat
  he_rate_rx :: rat
  he_connected_at :: "instant option"
  he_time_to_direct :: "duration option"
  he_prev_rtt :: "rat option"
  he_prev_sample_at :: "instant option"

definition seen_only :: "instant \<Rightarrow> peer_health" where
  "seen_only now =
     \<lparr>he_conn = NoConn, he_rtt_ms = 0, he_rtt_jitter_ms = 0, he_path_changes = 0, he_recent_changes = [], he_last_seen = now,
      he_relay_url = None, he_on_lan = False, he_bytes_tx = 0, he_bytes_rx = 0, he_rate_tx = 0, he_rate_rx = 0,
      he_connected_at = None, he_time_to_direct = None, he_prev_rtt = None, he_prev_sample_at = None\<rparr>"

definition on_connect :: "instant \<Rightarrow> peer_health \<Rightarrow> peer_health" where
  "on_connect now h =
     h\<lparr>he_connected_at := Some now, he_time_to_direct := None, he_path_changes := 0, he_recent_changes := [],
       he_bytes_tx := 0, he_bytes_rx := 0, he_rate_tx := 0, he_rate_rx := 0, he_prev_rtt := None, he_prev_sample_at := None,
       he_last_seen := now\<rparr>"

text \<open>\<open>Instant::duration_since\<close> saturates at zero, as subtraction on \<open>nat\<close> does.\<close>

definition ewma :: "rat \<Rightarrow> rat \<Rightarrow> rat" where
  "ewma x old = EWMA_ALPHA * x + (1 - EWMA_ALPHA) * old"

definition byte_rate :: "u64 \<Rightarrow> u64 \<Rightarrow> duration \<Rightarrow> rat" where
  "byte_rate now_bytes then_bytes elapsed = of_nat (unat (saturating_sub now_bytes then_bytes)) / (of_nat elapsed / 1000000000)"

definition on_sample :: "path_sample \<Rightarrow> instant \<Rightarrow> peer_health \<Rightarrow> peer_health" where
  "on_sample s now h =
     (let h1 = (case he_prev_rtt h of
                  Some prev \<Rightarrow> h\<lparr>he_rtt_jitter_ms := ewma \<bar>ps_rtt_ms s - prev\<bar> (he_rtt_jitter_ms h)\<rparr>
                | None \<Rightarrow> h);
          h2 = (case he_prev_sample_at h1 of
                  Some since \<Rightarrow>
                    if now - since > 0
                    then h1\<lparr>he_rate_tx := ewma (byte_rate (ps_bytes_tx s) (he_bytes_tx h1) (now - since)) (he_rate_tx h1),
                            he_rate_rx := ewma (byte_rate (ps_bytes_rx s) (he_bytes_rx h1) (now - since)) (he_rate_rx h1)\<rparr>
                    else h1
                | None \<Rightarrow> h1);
          h3 = (case he_connected_at h2 of
                  Some since \<Rightarrow> if ps_conn s = Direct \<and> he_time_to_direct h2 = None then h2\<lparr>he_time_to_direct := Some (now - since)\<rparr> else h2
                | None \<Rightarrow> h2)
      in h3\<lparr>he_conn := ps_conn s, he_rtt_ms := ps_rtt_ms s, he_relay_url := ps_relay_url s, he_on_lan := ps_on_lan s,
            he_bytes_tx := ps_bytes_tx s, he_bytes_rx := ps_bytes_rx s, he_prev_rtt := Some (ps_rtt_ms s),
            he_prev_sample_at := Some now, he_last_seen := now\<rparr>)"

definition prune_changes :: "instant \<Rightarrow> peer_health \<Rightarrow> peer_health" where
  "prune_changes now h = h\<lparr>he_recent_changes := filter (\<lambda>t. now - t \<le> from_secs 60) (he_recent_changes h)\<rparr>"

definition on_path_change :: "instant \<Rightarrow> peer_health \<Rightarrow> peer_health" where
  "on_path_change now h =
     prune_changes now (h\<lparr>he_path_changes := saturating_add (he_path_changes h) 1, he_recent_changes := he_recent_changes h @ [now]\<rparr>)"

definition on_disconnect :: "instant \<Rightarrow> peer_health \<Rightarrow> peer_health" where
  "on_disconnect now h =
     h\<lparr>he_conn := NoConn, he_relay_url := None, he_on_lan := False, he_connected_at := None, he_rate_tx := 0, he_rate_rx := 0,
       he_prev_rtt := None, he_prev_sample_at := None, he_last_seen := now\<rparr>"

definition on_presence :: "instant \<Rightarrow> peer_health \<Rightarrow> peer_health" where
  "on_presence now h = h\<lparr>he_last_seen := now\<rparr>"

definition flaps_last_minute :: "instant \<Rightarrow> peer_health \<Rightarrow> nat" where
  "flaps_last_minute now h = length (filter (\<lambda>t. now - t \<le> from_secs 60) (he_recent_changes h))"

definition health_grade_of :: "instant \<Rightarrow> peer_health \<Rightarrow> health_grade" where
  "health_grade_of now h =
     (if he_conn h = NoConn then (if now - he_last_seen h > ONLINE_WINDOW then Offline else Poor)
      else if flaps_last_minute now h > GRADE_POOR_FLAPS_PER_MIN \<or> he_rtt_ms h \<ge> GRADE_POOR_MIN_RTT_MS then Poor
      else if he_conn h = Direct \<and> he_rtt_ms h < GRADE_GOOD_MAX_RTT_MS \<and> he_rtt_jitter_ms h < GRADE_GOOD_MAX_JITTER_MS then Good
      else Fair)"

section \<open>Histories of a peer\<close>

datatype health_event = HConnect | HSample path_sample | HPathChange | HDisconnect | HPresence

fun health_step :: "health_event \<times> instant \<Rightarrow> peer_health \<Rightarrow> peer_health" where
  "health_step (HConnect, t) h = on_connect t h"
| "health_step (HSample s, t) h = on_sample s t h"
| "health_step (HPathChange, t) h = on_path_change t h"
| "health_step (HDisconnect, t) h = on_disconnect t h"
| "health_step (HPresence, t) h = on_presence t h"

definition health_run :: "(health_event \<times> instant) list \<Rightarrow> peer_health \<Rightarrow> peer_health" where
  "health_run evs h = fold health_step evs h"

text \<open>The path changes since the last connect, and the bound on the round trip times of the samples.\<close>

fun changes_of :: "(health_event \<times> instant) list \<Rightarrow> instant list \<Rightarrow> instant list" where
  "changes_of [] ts = ts"
| "changes_of ((HConnect, t) # evs) ts = changes_of evs []"
| "changes_of ((HPathChange, t) # evs) ts = changes_of evs (ts @ [t])"
| "changes_of ((HSample s, t) # evs) ts = changes_of evs ts"
| "changes_of ((HDisconnect, t) # evs) ts = changes_of evs ts"
| "changes_of ((HPresence, t) # evs) ts = changes_of evs ts"

definition recent :: "instant \<Rightarrow> instant list \<Rightarrow> instant list" where
  "recent now ts = filter (\<lambda>t. now - t \<le> from_secs 60) ts"

lemma recent_recent: "t \<le> now \<Longrightarrow> recent now (recent t ts) = recent now ts"
  by (induction ts) (auto simp: recent_def)

lemma recent_append: "recent now (xs @ ys) = recent now xs @ recent now ys"
  by (simp add: recent_def)

lemma on_sample_changes [simp]: "he_recent_changes (on_sample s now h) = he_recent_changes h"
  by (simp add: on_sample_def Let_def split: option.splits)

lemma changes_kept:
  assumes "sorted (map snd evs)" "\<forall>e \<in> set evs. snd e \<le> now"
    and "\<forall>t. t0 \<le> t \<longrightarrow> recent t (he_recent_changes h) = recent t ts" "\<forall>e \<in> set evs. t0 \<le> snd e" "t0 \<le> now"
  shows "recent now (he_recent_changes (health_run evs h)) = recent now (changes_of evs ts)"
  using assms
proof (induction evs arbitrary: h ts t0)
  case Nil
  then show ?case by (simp add: health_run_def)
next
  case (Cons e evs)
  obtain k t where e: "e = (k, t)" by (cases e)
  have later: "sorted (map snd evs)" "\<forall>e \<in> set evs. snd e \<le> now" "\<forall>e \<in> set evs. t \<le> snd e" "t \<le> now" "t0 \<le> t"
    using Cons.prems e by auto
  have step: "\<forall>u. t \<le> u \<longrightarrow> recent u (he_recent_changes (health_step e h)) = recent u (changes_of [e] ts)"
  proof (cases k)
    case HPathChange
    have "he_recent_changes (health_step e h) = recent t (he_recent_changes h @ [t])"
      by (simp add: e HPathChange on_path_change_def prune_changes_def recent_def)
    then show ?thesis using Cons.prems(3) later(5) by (simp add: e HPathChange recent_recent recent_append)
  qed (use Cons.prems(3) later(5) in \<open>simp_all add: e on_connect_def on_disconnect_def on_presence_def\<close>)
  have split: "changes_of (e # evs) ts = changes_of evs (changes_of [e] ts)" by (cases k) (simp_all add: e)
  show ?case
    using Cons.IH [of t "health_step e h" "changes_of [e] ts", OF later(1,2) step later(3,4)] split by (simp add: health_run_def)
qed

text \<open>
  The flap count is exact: pruning old entries on every change never loses one that still counts.  In any history in time order
  the number of flaps of the last minute is the number of path changes since the connection came up that are at most a minute old.
\<close>

theorem flap_count_exact:
  assumes "sorted (map snd evs)" "\<forall>e \<in> set evs. start \<le> snd e \<and> snd e \<le> now" "start \<le> now"
  shows "flaps_last_minute now (health_run evs (seen_only start)) = length (recent now (changes_of evs []))"
proof -
  have "recent now (he_recent_changes (health_run evs (seen_only start))) = recent now (changes_of evs [])"
    by (rule changes_kept [where ?t0.0 = start]) (use assms in \<open>auto simp: seen_only_def\<close>)
  then show ?thesis by (simp add: flaps_last_minute_def flip: recent_def)
qed

theorem flap_count_exact_witness:
  "flaps_last_minute 100 (health_run [(HConnect, 1), (HPathChange, 5), (HPathChange, 9)] (seen_only 0)) = 2"
  using flap_count_exact [of "[(HConnect, 1), (HPathChange, 5), (HPathChange, 9)]" 0 100] by (simp add: recent_def from_secs_def)

section \<open>Smoothed values stay within what was measured\<close>

lemma ewma_between: "lo \<le> x \<Longrightarrow> lo \<le> old \<Longrightarrow> x \<le> hi \<Longrightarrow> old \<le> hi \<Longrightarrow> lo \<le> ewma x old \<and> ewma x old \<le> hi"
  by (simp add: ewma_def EWMA_ALPHA_def)

definition health_ok :: "rat \<Rightarrow> peer_health \<Rightarrow> bool" where
  "health_ok rtt_max h \<longleftrightarrow> 0 \<le> he_rtt_jitter_ms h \<and> he_rtt_jitter_ms h \<le> rtt_max \<and> 0 \<le> he_rate_tx h \<and> 0 \<le> he_rate_rx h
     \<and> (\<forall>r. he_prev_rtt h = Some r \<longrightarrow> 0 \<le> r \<and> r \<le> rtt_max)"

lemma byte_rate_nonneg: "0 \<le> byte_rate a b d"
  by (simp add: byte_rate_def del: of_nat_unat)

lemma ewma_nonneg: "0 \<le> x \<Longrightarrow> 0 \<le> old \<Longrightarrow> 0 \<le> ewma x old"
  by (simp add: ewma_def EWMA_ALPHA_def)

lemma health_step_ok:
  assumes "health_ok m h" "\<forall>s. fst e = HSample s \<longrightarrow> 0 \<le> ps_rtt_ms s \<and> ps_rtt_ms s \<le> m"
  shows "health_ok m (health_step e h)"
proof (cases "fst e")
  case (HSample s)
  have r: "0 \<le> ps_rtt_ms s" "ps_rtt_ms s \<le> m" using assms(2) HSample by auto
  have d: "0 \<le> \<bar>ps_rtt_ms s - p\<bar> \<and> \<bar>ps_rtt_ms s - p\<bar> \<le> m" if "he_prev_rtt h = Some p" for p
    using assms(1) r that by (auto simp: health_ok_def abs_if)
  obtain t where e: "e = (HSample s, t)" using HSample by (cases e) simp
  have jitter: "0 \<le> ewma \<bar>ps_rtt_ms s - p\<bar> (he_rtt_jitter_ms h) \<and> ewma \<bar>ps_rtt_ms s - p\<bar> (he_rtt_jitter_ms h) \<le> m"
    if "he_prev_rtt h = Some p" for p
    by (rule ewma_between) (use d [OF that] assms(1) in \<open>auto simp: health_ok_def\<close>)
  have "he_rtt_jitter_ms (on_sample s t h)
      = (case he_prev_rtt h of Some p \<Rightarrow> ewma \<bar>ps_rtt_ms s - p\<bar> (he_rtt_jitter_ms h) | None \<Rightarrow> he_rtt_jitter_ms h)"
      "he_prev_rtt (on_sample s t h) = Some (ps_rtt_ms s)"
    by (simp_all add: on_sample_def Let_def split: option.splits)
  moreover have "0 \<le> he_rate_tx (on_sample s t h)" "0 \<le> he_rate_rx (on_sample s t h)"
    using assms(1) byte_rate_nonneg
    by (simp_all add: health_ok_def on_sample_def Let_def ewma_nonneg split: option.splits)
  ultimately show ?thesis
    using assms(1) r jitter by (auto simp: e health_ok_def split: option.splits)
qed (use assms in \<open>cases e; auto simp: health_ok_def on_connect_def on_path_change_def prune_changes_def on_disconnect_def on_presence_def\<close>)+

lemma health_values_bounded:
  assumes "\<forall>(k, _) \<in> set evs. \<forall>s. k = HSample s \<longrightarrow> 0 \<le> ps_rtt_ms s \<and> ps_rtt_ms s \<le> m" "0 \<le> m"
  shows "health_ok m (health_run evs (seen_only start))"
proof -
  have "health_ok m (health_run evs h)" if "health_ok m h" for h
    using that assms(1)
  proof (induction evs arbitrary: h)
    case (Cons e evs)
    have "health_ok m (health_step e h)" by (rule health_step_ok [OF Cons.prems(1)]) (use Cons.prems(2) in \<open>cases e; auto\<close>)
    then show ?case using Cons by (simp add: health_run_def)
  qed (simp add: health_run_def)
  moreover have "health_ok m (seen_only start)" using assms(2) by (simp add: health_ok_def seen_only_def)
  ultimately show ?thesis .
qed

text \<open>A peer heard of within the window is never offline, and silence past it without a connection always is.\<close>

lemma grade_Offline_iff: "health_grade_of now h = Offline \<longleftrightarrow> he_conn h = NoConn \<and> ONLINE_WINDOW < now - he_last_seen h"
  by (auto simp: health_grade_of_def)

end
