(* ===== verification/Guided.thy ===== *)
theory Guided
  imports LocalApi Conflicts RelPath
begin

text \<open>
  The commands that drive the daemon through several requests: resolving a conflict copy, restoring a version, moving a file and
  waiting for a lease (\<^verbatim>\<open>src/cli.rs\<close> and their twins in \<^verbatim>\<open>src/gui_native/worker.rs\<close>).  The daemon is a function: given the
  requests answered so far it answers the next one, with a response or with no answer at all.  A command gives the log of its requests with their
  answers and how it ended; the wording of messages is left out, what they tell (the step that failed, the reason, whether the lease may still be
  held) is kept.
\<close>

type_synonym 'j answer = "string + 'j ipc_response"
type_synonym 'j req_log = "(ipc_request \<times> 'j answer) list"
type_synonym 'j answering = "'j req_log \<Rightarrow> ipc_request \<Rightarrow> 'j answer"

definition asked :: "'j answering \<Rightarrow> 'j req_log \<Rightarrow> ipc_request \<Rightarrow> 'j req_log" where
  "asked daemon log rq = log @ [(rq, daemon log rq)]"

definition answered_ok :: "'j answer \<Rightarrow> bool" where
  "answered_ok a = (case a of Inl _ \<Rightarrow> False | Inr r \<Rightarrow> ir_ok r)"

definition reason_of :: "string \<Rightarrow> 'j answer \<Rightarrow> string" where
  "reason_of fallback a =
     (case a of Inl e \<Rightarrow> e | Inr r \<Rightarrow> unwrap_or fallback (map_option snd (ir_error r)))"

section \<open>The command line\<close>

datatype cmd_error = CmdRefused string | CmdIpc string | DaemonRefused string string

text \<open>\<open>request\<close> of the command line: a refusal becomes an error.\<close>

definition cli_request :: "'j answer \<Rightarrow> cmd_error option" where
  "cli_request a =
     (case a of
        Inl e \<Rightarrow> Some (CmdIpc e)
      | Inr r \<Rightarrow>
          if ir_ok r then None
          else case unwrap_or (''unknown'', ''daemon returned an empty error'') (ir_error r) of
            (code, message) \<Rightarrow> Some (DaemonRefused code message))"

text \<open>The choice: from the flag, or from the terminal (None: there is none).  \<open>Inr None\<close> is a cancelled dialogue.\<close>

definition resolve_choice :: "string option \<Rightarrow> string option \<Rightarrow> string + string option" where
  "resolve_choice keep terminal =
     (case keep of
        Some k \<Rightarrow> if k \<in> {''mine'', ''theirs'', ''both''} then Inr (Some k) else Inl ''--keep must be mine, theirs, or both''
      | None \<Rightarrow>
          (case terminal of
             None \<Rightarrow> Inl ''no --keep given and no terminal to ask on''
           | Some line \<Rightarrow>
               let l = to_ascii_lowercase (trim line) in
               Inr (if l \<in> {''m'', ''mine''} then Some ''mine''
                    else if l \<in> {''t'', ''theirs''} then Some ''theirs''
                    else if l \<in> {''b'', ''both''} then Some ''both'' else None)))"

definition resolve_target :: "string \<Rightarrow> string option \<Rightarrow> string option \<Rightarrow> string option \<Rightarrow> string + string" where
  "resolve_target choice path into both_default =
     (if choice = ''mine'' then (case path of Some p \<Rightarrow> Inr p | None \<Rightarrow> Inl ''this copy's original path is unknown'')
      else case (case into of Some t \<Rightarrow> Some t | None \<Rightarrow> both_default) of
        Some t \<Rightarrow> Inr t | None \<Rightarrow> Inl ''no target name available'')"

text \<open>Lock, apply, unlock, discard: a failed apply releases the lease.\<close>

definition resolve_into :: "'j answering \<Rightarrow> string \<Rightarrow> string \<Rightarrow> 'j req_log \<times> cmd_error option" where
  "resolve_into daemon name target =
     (let log1 = asked daemon [] (RqLock target) in
      case cli_request (snd (last log1)) of
        Some e \<Rightarrow> (log1, Some e)
      | None \<Rightarrow>
          let log2 = asked daemon log1 (RqConflictApply name target) in
          case cli_request (snd (last log2)) of
            Some e \<Rightarrow> (asked daemon log2 (RqUnlock target), Some e)
          | None \<Rightarrow>
              let log3 = asked daemon log2 (RqUnlock target) in
              case cli_request (snd (last log3)) of
                Some e \<Rightarrow> (log3, Some e)
              | None \<Rightarrow> (let log4 = asked daemon log3 (RqConflictDiscard name) in (log4, cli_request (snd (last log4)))))"

definition both_default :: "(relpath, file_record) btree option \<Rightarrow> u64 \<Rightarrow> string option \<Rightarrow> string option" where
  "both_default files now_ms path =
     map_option (\<lambda>p. both_name p now_ms (\<lambda>c.
       (case files of
          None \<Rightarrow> False
        | Some fs \<Rightarrow>
            (case sanitize_rel_path c of
               Inl _ \<Rightarrow> False
             | Inr r \<Rightarrow> is_some_and (\<lambda>f. \<not> fr_deleted f) (bt_get fs r))))) path"

definition handle_conflict_resolve ::
  "'j answering \<Rightarrow> folder \<Rightarrow> (relpath, file_record) btree option \<Rightarrow> u64 \<Rightarrow> string \<Rightarrow> string option \<Rightarrow> string option \<Rightarrow> string option
     \<Rightarrow> 'j req_log \<times> cmd_error option" where
  "handle_conflict_resolve daemon fo files now_ms i keep into terminal =
     (case resolve_id (list_conflicts fo) i of
        Inl e \<Rightarrow> ([], Some (CmdRefused ''no such conflict''))
      | Inr entry \<Rightarrow>
          (case resolve_choice keep terminal of
             Inl e \<Rightarrow> ([], Some (CmdRefused e))
           | Inr None \<Rightarrow> ([], None)
           | Inr (Some choice) \<Rightarrow>
               if choice = ''theirs'' then
                 (let log = asked daemon [] (RqConflictDiscard (ce_name entry)) in (log, cli_request (snd (last log))))
               else
                 (case resolve_target choice (ce_path entry) into (both_default files now_ms (ce_path entry)) of
                    Inl e \<Rightarrow> ([], Some (CmdRefused e))
                  | Inr target \<Rightarrow> resolve_into daemon (ce_name entry) target)))"

section \<open>Moving a file\<close>

text \<open>The files of the folder by the name given on the command line; \<open>is_dir\<close> the directories.\<close>

type_synonym disk = "string \<Rightarrow> bytes option"

definition check_mv_paths :: "string \<Rightarrow> string \<Rightarrow> bool \<Rightarrow> bool \<Rightarrow> bool \<Rightarrow> string + unit" where
  "check_mv_paths from' to from_exists from_is_file to_exists =
     (if trim to = [] then Inl ''the destination name is empty''
      else if from' = to then Inl ''the source and destination names are the same''
      else if \<not> from_exists then Inl ''does not exist''
      else if \<not> from_is_file then Inl ''is not a file''
      else if to_exists then Inl ''already exists''
      else Inr ())"

definition rename_disk :: "string \<Rightarrow> string \<Rightarrow> disk \<Rightarrow> disk" where
  "rename_disk a b d = (d(a := None))(b := d a)"

text \<open>\<open>ren\<close> is the error of the rename, if it fails.\<close>

definition handle_mv_cli ::
  "'j answering \<Rightarrow> (string \<Rightarrow> bool) \<Rightarrow> string option \<Rightarrow> string \<Rightarrow> string \<Rightarrow> disk \<Rightarrow> 'j req_log \<times> disk \<times> cmd_error option" where
  "handle_mv_cli daemon is_dir ren from' to d =
     (case check_mv_paths from' to (d from' \<noteq> None \<or> is_dir from') (d from' \<noteq> None) (d to \<noteq> None \<or> is_dir to) of
        Inl e \<Rightarrow> ([], d, Some (CmdRefused e))
      | Inr _ \<Rightarrow>
          let log1 = asked daemon [] (RqLock from') in
          (case snd (last log1) of
             Inl e \<Rightarrow> (log1, d, Some (CmdIpc e))
           | Inr r \<Rightarrow>
               if \<not> ir_ok r
               then (log1, d, Some (CmdRefused (unwrap_or ''could not lease the file'' (map_option snd (ir_error r)))))
               else case ren of
                 Some e \<Rightarrow> (asked daemon log1 (RqUnlock from'), d, Some (CmdRefused e))
               | None \<Rightarrow>
                   let d' = rename_disk from' to d;
                       log2 = asked daemon log1 (RqLock to);
                       log3 = (if answered_ok (snd (last log2)) then asked daemon log2 (RqUnlock to) else log2);
                       log4 = asked daemon log3 (RqUnlock from')
                   in (case snd (last log4) of
                         Inl e \<Rightarrow> (log4, d', Some (CmdIpc e))
                       | Inr _ \<Rightarrow> (log4, d', None))))"

section \<open>Waiting for a lease\<close>

text \<open>
  The loop of \<^verbatim>\<open>lock --wait\<close>: \<open>instants\<close> are the instants at which the deadline is looked at, one per round.  None when they run out
  before the command has ended.
\<close>

definition lease_held_code :: "'j answer \<Rightarrow> bool" where
  "lease_held_code a = (case a of Inl _ \<Rightarrow> False | Inr r \<Rightarrow> \<not> ir_ok r \<and> map_option fst (ir_error r) = Some ''lease_held'')"

fun lock_loop ::
  "'j answering \<Rightarrow> string \<Rightarrow> instant option \<Rightarrow> bool \<Rightarrow> instant list \<Rightarrow> 'j req_log \<Rightarrow> ('j req_log \<times> cmd_error option) option" where
  "lock_loop daemon path deadline announced [] log = None"
| "lock_loop daemon path deadline announced (now # instants) log =
     (let log1 = asked daemon log (RqLock path); a = snd (last log1) in
      case a of
        Inl e \<Rightarrow> Some (log1, Some (CmdIpc e))
      | Inr r \<Rightarrow>
          if ir_ok r then Some (log1, None)
          else if is_some_and (\<lambda>dl. now < dl) deadline \<and> lease_held_code a
          then lock_loop daemon path deadline True instants (if announced then log1 else asked daemon log1 (RqLockWait path))
          else Some (log1, cli_request a))"

definition handle_lock_cli :: "'j answering \<Rightarrow> string \<Rightarrow> duration option \<Rightarrow> instant \<Rightarrow> instant list \<Rightarrow> ('j req_log \<times> cmd_error option) option" where
  "handle_lock_cli daemon path wait start instants = lock_loop daemon path (map_option (\<lambda>w. start + w) wait) False instants []"

section \<open>The same verbs in the window\<close>

text \<open>How a guided sequence ended; \<open>lease_held\<close>: the lease may still be held.\<close>

datatype guided_end =
    GDone
  | GStopped bool
  | GFailed nat string bool

definition unlock_held :: "'j answering \<Rightarrow> 'j req_log \<Rightarrow> string \<Rightarrow> 'j req_log \<times> bool" where
  "unlock_held daemon log target = (let log' = asked daemon log (RqUnlock target) in (log', \<not> answered_ok (snd (last log'))))"

text \<open>\<open>stop1\<close> and \<open>stop2\<close>: whether a cancel has been asked for at the two step boundaries.\<close>

definition resolve_conflict :: "'j answering \<Rightarrow> bool \<Rightarrow> bool \<Rightarrow> string \<Rightarrow> string \<Rightarrow> bool \<Rightarrow> 'j req_log \<times> guided_end" where
  "resolve_conflict daemon stop1 stop2 name target drop_copy =
     (let log1 = asked daemon [] (RqLock target) in
      if \<not> answered_ok (snd (last log1)) then (log1, GFailed 1 (reason_of ''lock refused'' (snd (last log1))) False)
      else if stop1 then (case unlock_held daemon log1 target of (log, held) \<Rightarrow> (log, GStopped held))
      else
        let log2 = asked daemon log1 (RqConflictApply name target) in
        if \<not> answered_ok (snd (last log2))
        then (case unlock_held daemon log2 target of
                (log, held) \<Rightarrow> (log, GFailed 2 (reason_of ''apply failed'' (snd (last log2))) held))
        else
          let log3 = asked daemon log2 (RqUnlock target) in
          if \<not> answered_ok (snd (last log3)) then (log3, GFailed 3 (reason_of ''publish failed'' (snd (last log3))) True)
          else if \<not> drop_copy then (log3, GDone)
          else if stop2 then (log3, GStopped False)
          else
            let log4 = asked daemon log3 (RqConflictDiscard name) in
            if answered_ok (snd (last log4)) then (log4, GDone)
            else (log4, GFailed 4 (reason_of ''discard failed'' (snd (last log4))) False))"

definition restore_guided :: "'j answering \<Rightarrow> bool \<Rightarrow> string \<Rightarrow> nat \<Rightarrow> 'j req_log \<times> guided_end" where
  "restore_guided daemon stop path n =
     (let log1 = asked daemon [] (RqLock path) in
      if \<not> answered_ok (snd (last log1)) then (log1, GFailed 1 (reason_of ''lock refused'' (snd (last log1))) False)
      else if stop then (case unlock_held daemon log1 path of (log, held) \<Rightarrow> (log, GStopped held))
      else
        let log2 = asked daemon log1 (RqRestore path n) in
        if \<not> answered_ok (snd (last log2))
        then (case unlock_held daemon log2 path of
                (log, held) \<Rightarrow> (log, GFailed 2 (reason_of ''restore failed'' (snd (last log2))) held))
        else
          let log3 = asked daemon log2 (RqUnlock path) in
          if answered_ok (snd (last log3)) then (log3, GDone)
          else (log3, GFailed 3 (reason_of ''publish failed'' (snd (last log3))) True))"

definition move_guided ::
  "'j answering \<Rightarrow> (string \<Rightarrow> bool) \<Rightarrow> string option \<Rightarrow> bool \<Rightarrow> string \<Rightarrow> string \<Rightarrow> disk \<Rightarrow> 'j req_log \<times> disk \<times> guided_end" where
  "move_guided daemon is_dir ren stop from' to d =
     (case check_mv_paths from' to (d from' \<noteq> None \<or> is_dir from') (d from' \<noteq> None) (d to \<noteq> None \<or> is_dir to) of
        Inl e \<Rightarrow> ([], d, GFailed 1 e False)
      | Inr _ \<Rightarrow>
          let log1 = asked daemon [] (RqLock from') in
          if \<not> answered_ok (snd (last log1)) then (log1, d, GFailed 1 (reason_of ''lock refused'' (snd (last log1))) False)
          else if stop then (case unlock_held daemon log1 from' of (log, held) \<Rightarrow> (log, d, GStopped held))
          else case ren of
            Some e \<Rightarrow> (case unlock_held daemon log1 from' of (log, held) \<Rightarrow> (log, d, GFailed 2 e held))
          | None \<Rightarrow>
              let d' = rename_disk from' to d;
                  log2 = asked daemon log1 (RqLock to);
                  log3 = (if answered_ok (snd (last log2)) then asked daemon log2 (RqUnlock to) else log2);
                  log4 = asked daemon log3 (RqUnlock from')
              in (log4, d',
                  if answered_ok (snd (last log4)) then GDone
                  else GFailed 4 (reason_of ''publish failed'' (snd (last log4))) True))"

text \<open>The window's waiting loop; a cancel is looked at before every attempt.\<close>

fun lock_wait :: "'j answering \<Rightarrow> string \<Rightarrow> instant \<Rightarrow> bool \<Rightarrow> (bool \<times> instant) list \<Rightarrow> 'j req_log \<Rightarrow> ('j req_log \<times> guided_end) option" where
  "lock_wait daemon path deadline announced [] log = None"
| "lock_wait daemon path deadline announced ((cancelled, now) # rounds) log =
     (if cancelled then Some (log, GStopped False)
      else
        let log1 = asked daemon log (RqLock path); a = snd (last log1) in
        if answered_ok a then Some (log1, GDone)
        else if \<not> lease_held_code a \<or> deadline \<le> now then Some (log1, GFailed 1 (reason_of ''lock refused'' a) False)
        else lock_wait daemon path deadline True rounds (if announced then log1 else asked daemon log1 (RqLockWait path)))"

end
