(* ===== verification/GuidedProps.thy ===== *)
theory GuidedProps
  imports Guided
begin

text \<open>
  The guided commands lose nothing and leave no lease behind without asking for it back, whatever the daemon answers; and the window
  sends the same requests as the command line.
\<close>

lemmas guided_defs = asked_def Let_def answered_ok_def cli_request_def unlock_held_def

lemma cli_request_None: "cli_request a = None \<longleftrightarrow> answered_ok a"
  by (auto simp: cli_request_def answered_ok_def split: sum.splits prod.splits)

lemma last_asked [simp]: "last (asked daemon log rq) = (rq, daemon log rq)"
  by (simp add: asked_def)

lemma asked_not_Nil [simp]: "asked daemon log rq \<noteq> []"
  by (simp add: asked_def)

section \<open>Leases are given back\<close>

text \<open>Every lease that was granted is asked to be released later on.\<close>

fun locks_released :: "'j req_log \<Rightarrow> bool" where
  "locks_released [] \<longleftrightarrow> True"
| "locks_released ((rq, a) # log) \<longleftrightarrow>
     (case rq of RqLock p \<Rightarrow> \<not> answered_ok a \<or> RqUnlock p \<in> fst ` set log | _ \<Rightarrow> True) \<and> locks_released log"

text \<open>Discarding is the last step, after the lock, the apply and the publish have all succeeded.\<close>

definition discarded_last :: "string \<Rightarrow> string \<Rightarrow> 'j req_log \<Rightarrow> bool" where
  "discarded_last name target log \<longleftrightarrow>
     (\<exists>a1 a2 a3 a4. log = [(RqLock target, a1), (RqConflictApply name target, a2), (RqUnlock target, a3), (RqConflictDiscard name, a4)]
        \<and> answered_ok a1 \<and> answered_ok a2 \<and> answered_ok a3)"

lemma resolve_conflict_log:
  assumes "resolve_conflict daemon stop1 stop2 name target drop_copy = (log, e)"
  shows "locks_released log \<and> (RqConflictDiscard i \<in> fst ` set log \<longrightarrow> i = name \<and> drop_copy \<and> discarded_last name target log)
    \<and> (e = GDone \<longrightarrow> (RqUnlock target, True) \<in> (\<lambda>(rq, a). (rq, answered_ok a)) ` set log)"
  using assms
  by (auto simp: resolve_conflict_def asked_def Let_def unlock_held_def discarded_last_def split: if_splits)

lemma resolve_into_twin:
  "fst (resolve_into daemon name target) = fst (resolve_conflict daemon False False name target True)
   \<and> (snd (resolve_into daemon name target) = None \<longleftrightarrow> snd (resolve_conflict daemon False False name target True) = GDone)"
proof -
  have ok: "(case cli_request a of None \<Rightarrow> x | Some e \<Rightarrow> f e) = (if answered_ok a then x else f (the (cli_request a)))" for a :: "'a answer" and x :: "'a req_log \<times> cmd_error option" and f
    using cli_request_None [of a] by (auto split: option.splits)
  show ?thesis
    by (simp add: resolve_into_def resolve_conflict_def Let_def ok unlock_held_def cli_request_None)
qed


definition demo_copies :: folder where
  "demo_copies = \<lparr>fo_files = [], fo_copies = [(''c1'', \<lparr>cd_bytes = [], cd_mtime_ms = 0\<rparr>)],
     fo_index = [\<lparr>il_name = ''c1'', il_path = ''a'', il_reason = ''edit'', il_ts_ms = 0, il_size = 0\<rparr>]\<rparr>"


section \<open>Moving keeps the bytes\<close>

lemma move_twin:
  "handle_mv_cli daemon is_dir ren from' to d = (log, d', e) \<Longrightarrow>
   \<exists>e'. move_guided daemon is_dir ren False from' to d = (log, d', e')
     \<and> (e' = GDone \<longrightarrow> e = None)"
  by (auto simp: handle_mv_cli_def move_guided_def Let_def unlock_held_def answered_ok_def
      split: sum.splits if_splits option.splits)

text \<open>
  C17. Moving a file keeps its bytes: whatever the daemon answers and wherever the command stops, the disk is as before or has the
  file under the new name with the same bytes and every other file untouched; and every lease that was granted is asked back.
\<close>

theorem move_keeps_bytes:
  assumes "move_guided daemon is_dir ren stop from' to d = (log, d', e)"
  shows "locks_released log
    \<and> (d' = d \<or> d' = d(from' := None, to := d from') \<and> d from' \<noteq> None \<and> d to = None \<and> from' \<noteq> to
         \<and> answered_ok (snd (hd log)) \<and> ren = None \<and> \<not> stop)
    \<and> (e = GDone \<longrightarrow> d' to = d from' \<and> d' from' = None \<and> answered_ok (snd (last log)) \<and> fst (last log) = RqUnlock from')"
  using assms
  by (auto simp: move_guided_def check_mv_paths_def asked_def Let_def unlock_held_def rename_disk_def split: if_splits option.splits sum.splits)

theorem move_keeps_bytes_witness:
  "\<exists>log d'. move_guided (\<lambda>log rq. Inr (ipc_ok (0 :: nat))) (\<lambda>_. False) None False ''a'' ''b'' [''a'' \<mapsto> [7]] = (log, d', GDone)
     \<and> d' ''b'' = Some [7] \<and> d' ''a'' = None"
proof -
  have "\<exists>log d'. move_guided (\<lambda>log rq. Inr (ipc_ok (0 :: nat))) (\<lambda>_. False) None False ''a'' ''b'' [''a'' \<mapsto> [7]] = (log, d', GDone)"
    by (simp add: move_guided_def check_mv_paths_def asked_def Let_def ipc_ok_def answered_ok_def trim_plain_ascii plain_ascii_def ascii_code_def)
  then obtain log d' where m: "move_guided (\<lambda>log rq. Inr (ipc_ok (0 :: nat))) (\<lambda>_. False) None False ''a'' ''b'' [''a'' \<mapsto> [7]] = (log, d', GDone)"
    by blast
  show ?thesis using move_keeps_bytes [OF m] m by auto
qed

text \<open>The command line reports a move whose removal the daemon refused to publish as done.\<close>

lemma mv_reports_success_on_refusal:
  fixes daemon :: "nat answering"
  defines "daemon \<equiv> (\<lambda>log rq. Inr (if rq = RqUnlock ''a'' then ipc_err ''busy'' ''no'' else ipc_ok 0))"
  shows "\<exists>log d'. handle_mv_cli daemon (\<lambda>_. False) None ''a'' ''b'' [''a'' \<mapsto> []] = (log, d', None)
    \<and> fst (last log) = RqUnlock ''a'' \<and> \<not> answered_ok (snd (last log))"
  by (simp add: handle_mv_cli_def check_mv_paths_def daemon_def asked_def Let_def ipc_ok_def ipc_err_def answered_ok_def
      trim_plain_ascii plain_ascii_def ascii_code_def)

text \<open>The new name is not checked: a name outside the folder passes, and the removal of the old one is published.\<close>

lemma mv_leaves_the_folder:
  fixes daemon :: "nat answering"
  defines "daemon \<equiv> (\<lambda>log rq. Inr (if rq = RqLock ''../b'' then ipc_err ''bad_path'' ''no'' else ipc_ok 0))"
  shows "(\<exists>e. sanitize_rel_path ''../b'' = Inl e)
    \<and> (\<exists>log. handle_mv_cli daemon (\<lambda>_. False) None ''a'' ''../b'' [''a'' \<mapsto> [7]] = (log, [''../b'' \<mapsto> [7]], None)
         \<and> answered_ok (snd (last log)) \<and> fst (last log) = RqUnlock ''a'')"
proof -
  have "\<exists>e. sanitize_rel_path ''../b'' = Inl e"
    by (simp add: sanitize_rel_path_def MAX_PATH_LEN_def starts_with_def)
  moreover have "rename_disk ''a'' ''../b'' [''a'' \<mapsto> [7]] = [''../b'' \<mapsto> [7]]"
    by (auto simp: rename_disk_def fun_eq_iff)
  ultimately show ?thesis
    by (simp add: handle_mv_cli_def check_mv_paths_def daemon_def asked_def Let_def ipc_ok_def ipc_err_def answered_ok_def
        trim_plain_ascii plain_ascii_def ascii_code_def)
qed

section \<open>Waiting ends\<close>

definition waits_in :: "'j req_log \<Rightarrow> nat" where
  "waits_in log = length (filter (\<lambda>(rq, _). \<exists>p. rq = RqLockWait p) log)"

lemma lock_loop_ends:
  assumes "\<exists>t \<in> set instants. deadline \<le> t"
  shows "\<exists>log' e. lock_loop daemon path (Some deadline) announced instants log = Some (log', e)
    \<and> waits_in log' \<le> waits_in log + (if announced then 0 else 1)
    \<and> fst (last log') = RqLock path \<and> (e = None \<longleftrightarrow> answered_ok (snd (last log')))"
  using assms
proof (induction instants arbitrary: announced log)
  case (Cons now instants)
  let ?a = "daemon log (RqLock path)"
  let ?log1 = "asked daemon log (RqLock path)"
  have one: "waits_in ?log1 = waits_in log" by (simp add: waits_in_def asked_def)
  show ?case
  proof (cases "lease_held_code ?a \<and> now < deadline")
    case True
    then obtain r where r: "?a = Inr r" "\<not> ir_ok r" by (auto simp: lease_held_code_def split: sum.splits)
    let ?next = "if announced then ?log1 else asked daemon ?log1 (RqLockWait path)"
    have "waits_in ?next = waits_in log + (if announced then 0 else 1)" using one by (simp add: waits_in_def asked_def)
    moreover have "lock_loop daemon path (Some deadline) announced (now # instants) log = lock_loop daemon path (Some deadline) True instants ?next"
      using True r by (simp add: Let_def)
    moreover have "\<exists>t \<in> set instants. deadline \<le> t" using Cons.prems True by auto
    ultimately show ?thesis using Cons.IH [of True ?next] by simp
  next
    case False
    then show ?thesis using one
      by (auto simp: Let_def cli_request_None answered_ok_def split: sum.splits)
  qed
qed simp

end
