(* ===== verification/GuiLists.thy ===== *)
theory GuiLists
  imports Complex_Main BTreeMap "HOL-Library.Multiset"
begin

text \<open>
  The lists behind the window: the multi-selection of the sidebar (\<^verbatim>\<open>gui_native/selection.rs\<close>), the toast stack
  (\<^verbatim>\<open>gui_native/toasts.rs\<close>), the round-trip rings (\<^verbatim>\<open>gui_native/telemetry.rs\<close>) and the grouping of files by folder
  (\<^verbatim>\<open>gui_native/grouping.rs\<close>).  They are plain data with the clock passed in; drawing is left out.  Floating point numbers
  are exact rationals.
\<close>

section \<open>Selection\<close>

record selection =
  sel_keys :: "string set"
  sel_anchor :: "string option"

definition sel_ordered_step :: "string set \<Rightarrow> string \<Rightarrow> string set \<times> string list \<Rightarrow> string set \<times> string list" where
  "sel_ordered_step keys k = (\<lambda>(seen, out). if k \<in> keys \<and> k \<notin> seen then (insert k seen, out @ [k]) else (seen, out))"

definition sel_ordered :: "selection \<Rightarrow> string list \<Rightarrow> string list" where
  "sel_ordered s keys = snd (fold (sel_ordered_step (sel_keys s)) keys ({}, []))"

fun key_position :: "string \<Rightarrow> string list \<Rightarrow> nat option" where
  "key_position a [] = None"
| "key_position a (k # ks) = (if k = a then Some 0 else map_option Suc (key_position a ks))"

definition sel_resolve :: "selection \<Rightarrow> string list \<Rightarrow> nat option" where
  "sel_resolve s keys = Option.bind (sel_anchor s) (\<lambda>a. key_position a keys)"

definition click_range :: "nat option \<Rightarrow> nat \<Rightarrow> nat \<times> nat" where
  "click_range resolved idx = (case resolved of Some p \<Rightarrow> (min p idx, max p idx) | None \<Rightarrow> (idx, idx))"

definition sel_click :: "string list \<Rightarrow> nat \<Rightarrow> bool \<Rightarrow> bool \<Rightarrow> selection \<Rightarrow> selection" where
  "sel_click keys idx ctrl shift s =
     (if length keys \<le> idx then s
      else
        let target = keys ! idx in
        if shift then
          (let resolved = sel_resolve s keys; (lo, hi) = click_range resolved idx;
               base = (if ctrl then sel_keys s else {})
           in s\<lparr>sel_keys := base \<union> set (take (Suc hi - lo) (drop lo keys)),
                sel_anchor := (if resolved = None then Some target else sel_anchor s)\<rparr>)
        else if ctrl then
          s\<lparr>sel_keys := (if target \<in> sel_keys s then sel_keys s - {target} else insert target (sel_keys s)),
            sel_anchor := Some target\<rparr>
        else s\<lparr>sel_keys := {target}, sel_anchor := Some target\<rparr>)"

definition sel_all :: "string list \<Rightarrow> selection \<Rightarrow> selection" where
  "sel_all keys s = s\<lparr>sel_keys := set keys, sel_anchor := (case keys of [] \<Rightarrow> None | k # _ \<Rightarrow> Some k)\<rparr>"

definition sel_clear :: "selection \<Rightarrow> selection" where
  "sel_clear s = s\<lparr>sel_keys := {}, sel_anchor := None\<rparr>"

definition retain_existing :: "string list \<Rightarrow> selection \<Rightarrow> selection \<times> bool" where
  "retain_existing keys s =
     (let kept = {k \<in> sel_keys s. k \<in> set keys};
          dangling = is_some_and (\<lambda>a. a \<notin> set keys) (sel_anchor s)
      in (s\<lparr>sel_keys := kept, sel_anchor := (if dangling then None else sel_anchor s)\<rparr>,
          card kept \<noteq> card (sel_keys s) \<or> dangling))"

fun runs_loop :: "string set \<Rightarrow> nat \<Rightarrow> nat option \<Rightarrow> string list \<Rightarrow> (nat \<times> nat) list" where
  "runs_loop keys i open_at [] = (case open_at of Some first \<Rightarrow> [(first, i - 1)] | None \<Rightarrow> [])"
| "runs_loop keys i open_at (k # ks) =
     (if k \<in> keys then runs_loop keys (Suc i) (Some (unwrap_or i open_at)) ks
      else case open_at of
        Some first \<Rightarrow> (first, i - 1) # runs_loop keys (Suc i) None ks
      | None \<Rightarrow> runs_loop keys (Suc i) None ks)"

definition sel_runs :: "selection \<Rightarrow> string list \<Rightarrow> (nat \<times> nat) list" where
  "sel_runs s keys = runs_loop (sel_keys s) 0 None keys"

section \<open>Toasts\<close>

datatype toast_kind = TInfo | TGood | TWarn | TBad

record toast =
  to_text :: string
  to_kind :: toast_kind
  to_born :: rat

definition TTL :: rat where "TTL = 4"
definition MAX_VISIBLE :: nat where "MAX_VISIBLE = 3"

definition toast_trim :: "toast list \<Rightarrow> toast list" where
  "toast_trim q = (if length q > MAX_VISIBLE then drop (length q - MAX_VISIBLE) q else q)"

fun refresh_first :: "string \<Rightarrow> toast_kind \<Rightarrow> rat \<Rightarrow> toast list \<Rightarrow> toast list option" where
  "refresh_first text kind now [] = None"
| "refresh_first text kind now (t # ts) =
     (if to_text t = text \<and> now - to_born t < TTL then Some (t\<lparr>to_born := now, to_kind := kind\<rparr> # ts)
      else map_option ((#) t) (refresh_first text kind now ts))"

definition toast_push :: "string \<Rightarrow> toast_kind \<Rightarrow> rat \<Rightarrow> toast list \<Rightarrow> toast list" where
  "toast_push text kind now q =
     (case refresh_first text kind now q of
        Some q' \<Rightarrow> q'
      | None \<Rightarrow> toast_trim (q @ [\<lparr>to_text = text, to_kind = kind, to_born = now\<rparr>]))"

text \<open>None: a clock that is not finite.\<close>

definition toast_expire :: "rat option \<Rightarrow> toast list \<Rightarrow> toast list" where
  "toast_expire now q = (case now of None \<Rightarrow> q | Some t \<Rightarrow> toast_trim (filter (\<lambda>x. t - to_born x < TTL) q))"

section \<open>Round-trip rings\<close>

definition RING_CAP :: nat where "RING_CAP = 120"

type_synonym rtt_rings = "string \<Rightarrow> u64 list option"

fun pop_to :: "nat \<Rightarrow> 'a list \<Rightarrow> 'a list" where
  "pop_to cap [] = []"
| "pop_to cap (x # xs) = (if cap < Suc (length xs) then pop_to cap xs else x # xs)"

definition ring_push :: "string \<Rightarrow> u64 option \<Rightarrow> rtt_rings \<Rightarrow> rtt_rings" where
  "ring_push peer rtt rings =
     (case rtt of None \<Rightarrow> rings | Some v \<Rightarrow> rings(peer \<mapsto> pop_to RING_CAP (unwrap_or [] (rings peer) @ [v])))"

definition ring_series :: "rtt_rings \<Rightarrow> string \<Rightarrow> rat list" where
  "ring_series rings peer =
     (case rings peer of
        None \<Rightarrow> []
      | Some ring \<Rightarrow>
          if length ring < 2 then []
          else
            let (lo, hi) = fold (\<lambda>v (lo, hi). (min lo v, max hi v)) ring (word_max, 0) in
            if lo = hi then replicate (length ring) (1 / 2)
            else map (\<lambda>v. of_nat (unat (v - lo)) / of_nat (unat (hi - lo))) ring)"

definition last_ms :: "rtt_rings \<Rightarrow> string \<Rightarrow> u64 option" where
  "last_ms rings peer = Option.bind (rings peer) (\<lambda>ring. if ring = [] then None else Some (last ring))"

definition ring_prune :: "string list \<Rightarrow> rtt_rings \<Rightarrow> rtt_rings" where
  "ring_prune live rings = (\<lambda>k. if k \<in> set live then rings k else None)"

definition grade_lit :: "string \<Rightarrow> nat" where
  "grade_lit grade = (if grade = ''Good'' then 3 else if grade = ''Fair'' then 2 else if grade = ''Poor'' then 1 else 0)"

section \<open>Grouping files by folder\<close>

datatype sort_mode = ByName | BySize

record group =
  gr_name :: string
  gr_indices :: "nat list"
  gr_bytes :: u64
  gr_share :: rat
  gr_root :: bool

definition ROOT_NAME :: string where "ROOT_NAME = ''in this folder''"
definition ROOT_KEY :: string where "ROOT_KEY = CHR 0x00 # ''root''"

fun until_separator :: "string \<Rightarrow> string option" where
  "until_separator [] = None"
| "until_separator (c # cs) =
     (if c = CHR ''/'' \<or> c = CHR 0x5C then Some [] else map_option ((#) c) (until_separator cs))"

definition top_segment :: "string \<Rightarrow> string" where
  "top_segment path = unwrap_or [] (until_separator path)"

definition bucket_key :: "string \<Rightarrow> string" where
  "bucket_key path = (if top_segment path = [] then ROOT_KEY else top_segment path)"

definition path_at :: "(string \<times> u64) list \<Rightarrow> nat \<Rightarrow> string" where
  "path_at files i = (if i < length files then fst (files ! i) else [])"

definition size_at :: "(string \<times> u64) list \<Rightarrow> nat \<Rightarrow> u64" where
  "size_at files i = (if i < length files then snd (files ! i) else 0)"

definition add_file :: "nat \<times> string \<times> u64 \<Rightarrow> (string, nat list \<times> u64) btree \<times> u64 \<Rightarrow> (string, nat list \<times> u64) btree \<times> u64" where
  "add_file e st =
     (case (e, st) of ((i, path, sz), (buckets, all_bytes)) \<Rightarrow>
        (let key = bucket_key path in
         (case bt_get buckets key of
            Some (indices, bytes) \<Rightarrow> bt_insert key (indices @ [i], saturating_add bytes sz) buckets
          | None \<Rightarrow> bt_insert key ([i], sz) buckets),
         saturating_add all_bytes sz))"

text \<open>\<open>lower\<close> is the Unicode lower-case folding of a text, as code points.\<close>

definition sort_indices :: "(string \<Rightarrow> nat list) \<Rightarrow> (string \<times> u64) list \<Rightarrow> sort_mode \<Rightarrow> nat list \<Rightarrow> nat list" where
  "sort_indices lower files mode indices =
     (case mode of
        ByName \<Rightarrow> sort_key (\<lambda>i. lower (path_at files i)) indices
      | BySize \<Rightarrow> sort_key (\<lambda>i. (- int (unat (size_at files i)), lower (path_at files i))) indices)"

definition group_of :: "(string \<Rightarrow> nat list) \<Rightarrow> (string \<times> u64) list \<Rightarrow> sort_mode \<Rightarrow> u64 \<Rightarrow> string \<times> nat list \<times> u64 \<Rightarrow> group" where
  "group_of lower files mode all_bytes = (\<lambda>(key, indices, bytes).
     \<lparr>gr_name = (if key = ROOT_KEY then ROOT_NAME else key),
      gr_indices = sort_indices lower files mode indices,
      gr_bytes = bytes,
      gr_share = (if all_bytes = 0 then 0 else of_nat (unat bytes) / of_nat (unat all_bytes)),
      gr_root = (key = ROOT_KEY)\<rparr>)"

definition group_files :: "(string \<Rightarrow> nat list) \<Rightarrow> (string \<times> u64) list \<Rightarrow> sort_mode \<Rightarrow> group list" where
  "group_files lower files mode =
     (case fold add_file (enumerate 0 files) ([], 0) of
        (buckets, all_bytes) \<Rightarrow>
          let groups = map (group_of lower files mode all_bytes) buckets in
          (case mode of
             ByName \<Rightarrow> sort_key (\<lambda>g. lower (gr_name g)) groups
           | BySize \<Rightarrow> sort_key (\<lambda>g. (- int (unat (gr_bytes g)), lower (gr_name g))) groups))"

end
