(* ===== verification/GuiListProps.thy ===== *)
theory GuiListProps
  imports GuiLists
begin

text \<open>
  What the lists of the window promise: the drawn runs are exactly the selected rows, a range is taken from a fixed origin, the toast
  stack and the rings stay within their bounds, and grouping shows every file exactly once.
\<close>

section \<open>Selection\<close>

lemma runs_loop_spec:
  assumes "\<forall>f. open_at = Some f \<longrightarrow> f < i"
  defines "first \<equiv> unwrap_or i open_at"
  shows "(\<forall>j. (\<exists>(a, b) \<in> set (runs_loop keys i open_at ks). a \<le> j \<and> j \<le> b)
             \<longleftrightarrow> (first \<le> j \<and> j < i \<or> i \<le> j \<and> j < i + length ks \<and> ks ! (j - i) \<in> keys))
       \<and> (\<forall>(a, b) \<in> set (runs_loop keys i open_at ks). first \<le> a \<and> a \<le> b)
       \<and> sorted_wrt (\<lambda>(a, b) (c, d). b + 1 < c) (runs_loop keys i open_at ks)"
  using assms(1) unfolding first_def
proof (induction ks arbitrary: i open_at)
  case Nil
  then show ?case by (auto split: option.splits)
next
  case (Cons k ks)
  have nth: "i \<le> j \<and> j < i + length (k # ks) \<and> (k # ks) ! (j - i) \<in> keys
      \<longleftrightarrow> j = i \<and> k \<in> keys \<or> Suc i \<le> j \<and> j < Suc i + length ks \<and> ks ! (j - Suc i) \<in> keys" for j
    by (cases "j = i") (auto simp: nth_Cons' Suc_diff_le le_less_Suc_eq)
  show ?case
  proof (cases "k \<in> keys")
    case True
    let ?f = "unwrap_or i open_at"
    have le: "?f \<le> i" using Cons.prems by (cases open_at) (auto intro: less_imp_le)
    have ih: "(\<forall>j. (\<exists>(a, b) \<in> set (runs_loop keys (Suc i) (Some ?f) ks). a \<le> j \<and> j \<le> b)
             \<longleftrightarrow> (?f \<le> j \<and> j < Suc i \<or> Suc i \<le> j \<and> j < Suc i + length ks \<and> ks ! (j - Suc i) \<in> keys))
       \<and> (\<forall>(a, b) \<in> set (runs_loop keys (Suc i) (Some ?f) ks). ?f \<le> a \<and> a \<le> b)
       \<and> sorted_wrt (\<lambda>(a, b) (c, d). b + 1 < c) (runs_loop keys (Suc i) (Some ?f) ks)"
      using Cons.IH [of "Some ?f" "Suc i"] le by simp
    show ?thesis
      unfolding nth using ih True le by (auto simp: less_Suc_eq)
  next
    case False
    have ih: "(\<forall>j. (\<exists>(a, b) \<in> set (runs_loop keys (Suc i) None ks). a \<le> j \<and> j \<le> b)
             \<longleftrightarrow> (Suc i \<le> j \<and> j < Suc i + length ks \<and> ks ! (j - Suc i) \<in> keys))
       \<and> (\<forall>(a, b) \<in> set (runs_loop keys (Suc i) None ks). Suc i \<le> a \<and> a \<le> b)
       \<and> sorted_wrt (\<lambda>(a, b) (c, d). b + 1 < c) (runs_loop keys (Suc i) None ks)"
      using Cons.IH [of None "Suc i"] by auto
    show ?thesis
    proof (cases open_at)
      case None
      then show ?thesis unfolding nth using ih False by auto
    next
      case (Some f)
      then have "f < i" using Cons.prems by simp
      then have here: "(f \<le> j \<and> j \<le> i - 1) = (f \<le> j \<and> j < i)" for j by auto
      show ?thesis
        unfolding nth using ih False Some \<open>f < i\<close> by (force simp: here)
    qed
  qed
qed

lemma runs_are_selected_rows:
  "(\<forall>j. (\<exists>(a, b) \<in> set (sel_runs s keys). a \<le> j \<and> j \<le> b) \<longleftrightarrow> j < length keys \<and> keys ! j \<in> sel_keys s)
   \<and> (\<forall>(a, b) \<in> set (sel_runs s keys). a \<le> b)
   \<and> sorted_wrt (\<lambda>(a, b) (c, d). b + 1 < c) (sel_runs s keys)"
  using runs_loop_spec [of None 0 "sel_keys s" keys] by (auto simp: sel_runs_def)

lemma sel_ordered_step_simp:
  "sel_ordered_step keys k (seen, out) = (if k \<in> keys \<and> k \<notin> seen then (insert k seen, out @ [k]) else (seen, out))"
  by (simp add: sel_ordered_step_def)

lemma sel_ordered_fold:
  "snd (fold (sel_ordered_step keys) ks (set out, out)) = out @ rev (remdups (rev (filter (\<lambda>k. k \<in> keys \<and> k \<notin> set out) ks)))"
proof (induction ks arbitrary: out)
  case (Cons k ks)
  show ?case
  proof (cases "k \<in> keys \<and> k \<notin> set out")
    case True
    have "insert k (set out) = set (out @ [k])" by simp
    then have "snd (fold (sel_ordered_step keys) (k # ks) (set out, out))
        = (out @ [k]) @ rev (remdups (rev (filter (\<lambda>x. x \<in> keys \<and> x \<notin> set (out @ [k])) ks)))"
      using True Cons.IH [of "out @ [k]"] by (simp add: sel_ordered_step_simp)
    moreover have "rev (remdups (rev (filter (\<lambda>x. x \<in> keys \<and> x \<notin> set out) (k # ks))))
        = k # rev (remdups (rev (filter (\<lambda>x. x \<in> keys \<and> x \<notin> set (out @ [k])) ks)))"
    proof -
      have "remdups (xs @ [k]) = remdups (filter (\<lambda>x. x \<noteq> k) xs) @ [k]" for xs
        by (induction xs) auto
      then show ?thesis using True by (simp add: rev_filter [symmetric] conj_ac)
    qed
    ultimately show ?thesis by simp
  qed (use Cons in \<open>auto simp: sel_ordered_step_simp\<close>)
qed simp

lemma sel_ordered_first_occurrences:
  "sel_ordered s keys = rev (remdups (rev (filter (\<lambda>k. k \<in> sel_keys s) keys)))"
  using sel_ordered_fold [of "sel_keys s" keys "[]"] by (simp add: sel_ordered_def)

lemma key_position_Some: "key_position a ks = Some p \<Longrightarrow> p < length ks \<and> ks ! p = a"
  by (induction ks arbitrary: p) (auto split: if_splits)

lemma key_position_None: "key_position a ks = None \<longleftrightarrow> a \<notin> set ks"
  by (induction ks) auto

text \<open>Successive range clicks start from the same row: the second one forgets the first.\<close>

lemma shift_clicks_share_origin:
  assumes "i < length keys" "sel_resolve s keys \<noteq> None"
  shows "sel_click keys j False True (sel_click keys i False True s) = (if j < length keys then sel_click keys j False True s else sel_click keys i False True s)"
proof -
  have r: "sel_resolve (sel_click keys i False True s) keys = sel_resolve s keys"
    using assms by (auto simp: sel_click_def sel_resolve_def Let_def split: prod.splits)
  show ?thesis
    using assms r unfolding sel_click_def [of keys j]
    by (auto simp: sel_click_def Let_def split: prod.splits)
qed

lemma in_click_range:
  "k \<in> set (take (Suc hi - lo) (drop lo keys)) \<longleftrightarrow> (\<exists>j. lo \<le> j \<and> j \<le> hi \<and> j < length keys \<and> keys ! j = k)"
proof
  assume "k \<in> set (take (Suc hi - lo) (drop lo keys))"
  then obtain m where "m < Suc hi - lo" "m < length keys - lo" "drop lo keys ! m = k"
    by (auto simp: in_set_conv_nth)
  then show "\<exists>j. lo \<le> j \<and> j \<le> hi \<and> j < length keys \<and> keys ! j = k"
    by (intro exI [of _ "lo + m"]) auto
next
  assume "\<exists>j. lo \<le> j \<and> j \<le> hi \<and> j < length keys \<and> keys ! j = k"
  then obtain j where j: "lo \<le> j" "j \<le> hi" "j < length keys" "keys ! j = k" by blast
  then have "take (Suc hi - lo) (drop lo keys) ! (j - lo) = k" by simp
  moreover have "j - lo < length (take (Suc hi - lo) (drop lo keys))" using j by auto
  ultimately show "k \<in> set (take (Suc hi - lo) (drop lo keys))" by (metis nth_mem)
qed

lemma shift_click_range:
  assumes "idx < length keys" "sel_resolve s keys = Some p"
  shows "k \<in> sel_keys (sel_click keys idx ctrl True s) \<longleftrightarrow>
    ctrl \<and> k \<in> sel_keys s \<or> (\<exists>j. min p idx \<le> j \<and> j \<le> max p idx \<and> j < length keys \<and> keys ! j = k)"
  using assms by (simp add: sel_click_def Let_def click_range_def in_click_range del: set_take_subset)

lemma retain_existing_live:
  assumes "retain_existing keys s = (s', changed)"
  shows "sel_keys s' = sel_keys s \<inter> set keys \<and> (\<forall>a. sel_anchor s' = Some a \<longrightarrow> a \<in> set keys)
    \<and> (finite (sel_keys s) \<longrightarrow> changed = (sel_keys s' \<noteq> sel_keys s \<or> sel_anchor s' \<noteq> sel_anchor s))"
proof -
  have kept: "{k \<in> sel_keys s. k \<in> set keys} = sel_keys s \<inter> set keys" by auto
  have card: "card (sel_keys s \<inter> set keys) \<noteq> card (sel_keys s) \<longleftrightarrow> sel_keys s \<inter> set keys \<noteq> sel_keys s"
    if "finite (sel_keys s)"
    using card_subset_eq [OF that, of "sel_keys s \<inter> set keys"] by auto
  show ?thesis
    using assms card by (auto simp: retain_existing_def Let_def kept is_some_and_iff split: if_splits option.splits)
qed

section \<open>Toasts\<close>

definition texts :: "toast list \<Rightarrow> string list" where "texts q = map to_text q"

definition live_texts :: "rat \<Rightarrow> toast list \<Rightarrow> string list" where
  "live_texts now q = map to_text (filter (\<lambda>t. now - to_born t < TTL) q)"

lemma refresh_first_None: "refresh_first line kind now q = None \<longleftrightarrow> line \<notin> set (live_texts now q)"
  by (induction q) (auto simp: live_texts_def)

lemma refresh_first_Some:
  "refresh_first line kind now q = Some q' \<Longrightarrow>
   length q' = length q \<and> map to_text q' = map to_text q \<and> live_texts now q' = live_texts now q"
  by (induction q arbitrary: q') (auto simp: live_texts_def TTL_def split: if_splits)

lemma live_texts_later:
  assumes "now \<le> now'" "distinct (live_texts now q)"
  shows "distinct (live_texts now' q)"
proof -
  have "filter (\<lambda>t. now' - to_born t < TTL) q = filter (\<lambda>t. now' - to_born t < TTL) (filter (\<lambda>t. now - to_born t < TTL) q)"
    using assms(1) by (auto intro!: filter_cong)
  then show ?thesis
    using assms(2) unfolding live_texts_def by (metis distinct_map_filter)
qed

lemma length_toast_trim: "length (toast_trim q) \<le> MAX_VISIBLE"
  by (simp add: toast_trim_def)

lemma live_texts_trim: "distinct (live_texts now q) \<Longrightarrow> distinct (live_texts now (toast_trim q))"
proof -
  assume d: "distinct (live_texts now q)"
  have "live_texts now q = live_texts now (take n q) @ live_texts now (drop n q)" for n
    by (simp add: live_texts_def flip: map_append filter_append)
  then show ?thesis using d by (metis distinct_append toast_trim_def)
qed

text \<open>At most three toasts, and no line twice among the live ones, over any pushes and frames with a clock that does not go back.\<close>

datatype toast_event = Push string toast_kind | Frame

fun toast_event_run :: "(rat \<times> toast_event) list \<Rightarrow> toast list \<Rightarrow> toast list" where
  "toast_event_run [] q = q"
| "toast_event_run ((now, Push line kind) # es) q = toast_event_run es (toast_push line kind now q)"
| "toast_event_run ((now, Frame) # es) q = toast_event_run es (toast_expire (Some now) q)"

lemma toast_step_ok:
  assumes "length q \<le> MAX_VISIBLE" "distinct (live_texts now q)"
  shows "length (toast_push line kind now q) \<le> MAX_VISIBLE \<and> distinct (live_texts now (toast_push line kind now q))"
    and "length (toast_expire (Some now) q) \<le> MAX_VISIBLE \<and> distinct (live_texts now (toast_expire (Some now) q))"
proof -
  have "distinct (live_texts now (q @ [\<lparr>to_text = line, to_kind = kind, to_born = now\<rparr>]))"
    if "refresh_first line kind now q = None"
    using that assms(2) by (auto simp: refresh_first_None live_texts_def)
  then show "length (toast_push line kind now q) \<le> MAX_VISIBLE \<and> distinct (live_texts now (toast_push line kind now q))"
    using assms refresh_first_Some [of line kind now q] length_toast_trim live_texts_trim
    by (auto simp: toast_push_def split: option.splits)
  have "live_texts now (filter (\<lambda>x. now - to_born x < TTL) q) = live_texts now q"
    by (simp add: live_texts_def)
  then show "length (toast_expire (Some now) q) \<le> MAX_VISIBLE \<and> distinct (live_texts now (toast_expire (Some now) q))"
    using assms(2) length_toast_trim live_texts_trim by (simp add: toast_expire_def)
qed

lemma toast_stack_bounded:
  assumes "sorted (map fst es)" "length q \<le> MAX_VISIBLE" "distinct (live_texts t0 q)" "\<forall>e \<in> set es. t0 \<le> fst e" "\<forall>e \<in> set es. fst e \<le> t" "t0 \<le> t"
  shows "length (toast_event_run es q) \<le> MAX_VISIBLE \<and> distinct (live_texts t (toast_event_run es q))"
  using assms
proof (induction es q arbitrary: t0 rule: toast_event_run.induct)
  case (2 now line kind es q)
  have "distinct (live_texts now q)" using "2.prems" live_texts_later by auto
  then show ?case using "2.IH" [of now] "2.prems" toast_step_ok(1) [of q now line kind] by auto
next
  case (3 now es q)
  have "distinct (live_texts now q)" using "3.prems" live_texts_later by auto
  then show ?case using "3.IH" [of now] "3.prems" toast_step_ok(2) [of q now] by auto
qed (use live_texts_later in \<open>auto\<close>)

text \<open>
  A refreshed toast keeps its place, so it is the first to go: here the line shown again at the third second is dropped at once, before
  the two older ones.
\<close>

lemma refreshed_toast_dropped_first:
  "texts (toast_event_run [(0, Push ''a'' TInfo), (1, Push ''b'' TInfo), (2, Push ''c'' TInfo), (3, Push ''a'' TBad), (3, Push ''d'' TInfo)] [])
     = [''b'', ''c'', ''d'']"
  by (simp add: toast_push_def toast_trim_def MAX_VISIBLE_def TTL_def texts_def)

section \<open>Rings\<close>

definition peer_samples :: "string \<Rightarrow> (string \<times> u64 option) list \<Rightarrow> u64 list" where
  "peer_samples peer es = List.map_filter (\<lambda>(p, r). if p = peer then r else None) es"

definition ring_of :: "rtt_rings \<Rightarrow> string \<Rightarrow> u64 list" where
  "ring_of rings peer = unwrap_or [] (rings peer)"

definition newest :: "nat \<Rightarrow> 'a list \<Rightarrow> 'a list" where "newest c xs = drop (length xs - c) xs"

lemma pop_to_newest: "pop_to cap xs = newest cap xs"
  unfolding newest_def by (induction xs) (auto simp: Suc_diff_le drop_Cons' not_less)

lemma newest_append: "newest c (newest c xs @ ys) = newest c (xs @ ys)"
  by (cases "length xs \<le> c"; cases "length ys \<le> c") (auto simp: newest_def add.commute)

text \<open>The ring of a peer is the newest 120 of its samples.\<close>

lemma ring_holds_newest:
  "ring_of (fold (\<lambda>(p, r). ring_push p r) es (\<lambda>_. None)) peer
     = newest RING_CAP (peer_samples peer es)"
proof (induction es rule: rev_induct)
  case Nil
  then show ?case by (simp add: ring_of_def peer_samples_def newest_def)
next
  case (snoc e es)
  obtain p r where e: "e = (p, r)" by (cases e)
  have s: "peer_samples peer (es @ [(p, r)]) = peer_samples peer es @ (if p = peer then case_option [] (\<lambda>v. [v]) r else [])"
    by (auto simp: peer_samples_def e List.map_filter_def split: option.splits)
  have step: "ring_of (ring_push p r rings) peer = newest RING_CAP (ring_of rings peer @ (if p = peer then case_option [] (\<lambda>v. [v]) r else []))"
    if "length (ring_of rings peer) \<le> RING_CAP" for rings
    using that by (auto simp: ring_push_def ring_of_def pop_to_newest newest_def split: option.splits)
  let ?rings = "fold (\<lambda>(p, r). ring_push p r) es (\<lambda>_. None)"
  have "length (ring_of ?rings peer) \<le> RING_CAP" using snoc by (simp add: newest_def)
  then show ?case
    using step [of ?rings] snoc by (simp only: e s newest_append fold_append fold_simps comp_def prod.case)
qed

lemma ring_series_bounds:
  assumes "x \<in> set (ring_series rings peer)"
  shows "0 \<le> x \<and> x \<le> 1"
proof -
  have acc: "fold (\<lambda>v (lo, hi). (min lo v, max hi v)) ring (l, h) = (l', h') \<Longrightarrow> v \<in> set ring \<Longrightarrow> l' \<le> v \<and> v \<le> h'"
    and mono: "fold (\<lambda>v (lo, hi). (min lo v, max hi v)) ring (l, h) = (l', h') \<Longrightarrow> l' \<le> l \<and> h \<le> h'"
    for ring and l h l' h' v :: u64
  proof (induction ring arbitrary: l h)
    case (Cons w ring)
    { case 1 then show ?case using Cons(1,2) [of "min l w" "max h w"] by (auto simp: order.trans) }
    { case 2 then show ?case using Cons(2) [of "min l w" "max h w"] by auto }
  qed auto
  have share: "0 \<le> (of_nat (unat (v - lo)) / of_nat (unat (hi - lo)) :: rat)
      \<and> (of_nat (unat (v - lo)) / of_nat (unat (hi - lo)) :: rat) \<le> 1"
    if "lo \<le> v" "v \<le> hi" for lo v hi :: u64
  proof -
    have "unat (v - lo) \<le> unat (hi - lo)"
      using that by (simp add: unat_sub word_le_nat_alt diff_le_mono)
    then have "(of_nat (unat (v - lo)) :: rat) \<le> of_nat (unat (hi - lo))" by (simp only: of_nat_le_iff)
    then show ?thesis by (auto simp: divide_le_eq_1 simp del: of_nat_unat)
  qed
  obtain ring where ring: "rings peer = Some ring" using assms by (cases "rings peer") (auto simp: ring_series_def)
  obtain lo hi where lh: "fold (\<lambda>v (lo, hi). (min lo v, max hi v)) ring (word_max, 0) = (lo, hi)" by fastforce
  have "x = 1 / 2 \<or> (\<exists>v \<in> set ring. x = of_nat (unat (v - lo)) / of_nat (unat (hi - lo)))"
    using assms by (auto simp: ring_series_def ring lh simp del: of_nat_unat split: if_splits)
  then show ?thesis using share acc [OF lh] by auto
qed

section \<open>Groups\<close>

definition key_at :: "(string \<times> u64) list \<Rightarrow> nat \<Rightarrow> string" where
  "key_at files i = bucket_key (path_at files i)"

definition members_of :: "(string \<times> u64) list \<Rightarrow> string \<Rightarrow> nat list" where
  "members_of files k = filter (\<lambda>i. key_at files i = k) [0..<length files]"

definition weight :: "(string \<times> u64) list \<Rightarrow> nat list \<Rightarrow> nat" where
  "weight files is = min (\<Sum>i\<leftarrow>is. unat (size_at files i)) (2 ^ 64 - 1)"

definition buckets_ok :: "(string \<times> u64) list \<Rightarrow> (string, nat list \<times> u64) btree \<times> u64 \<Rightarrow> bool" where
  "buckets_ok files st \<longleftrightarrow> bt_wf (fst st) \<and> unat (snd st) = weight files [0..<length files]
     \<and> (\<forall>k. case bt_get (fst st) k of
              None \<Rightarrow> members_of files k = []
            | Some (is, b) \<Rightarrow> is = members_of files k \<and> is \<noteq> [] \<and> unat b = weight files is)"

lemma at_snoc:
  "i < length files \<Longrightarrow> path_at (files @ [f]) i = path_at files i"
  "i < length files \<Longrightarrow> size_at (files @ [f]) i = size_at files i"
  "path_at (files @ [f]) (length files) = fst f" "size_at (files @ [f]) (length files) = snd f"
  by (simp_all add: path_at_def size_at_def nth_append)

lemma members_snoc:
  "members_of (files @ [f]) k = members_of files k @ (if bucket_key (fst f) = k then [length files] else [])"
  unfolding members_of_def key_at_def by (auto simp: at_snoc intro!: filter_cong)

lemma weight_cong: "(\<And>i. i \<in> set is \<Longrightarrow> size_at files i = size_at files' i) \<Longrightarrow> weight files is = weight files' is"
  unfolding weight_def by (metis (no_types, lifting) map_eq_conv)

lemma weight_snoc: "weight files (is @ [i]) = min (weight files is + unat (size_at files i)) (2 ^ 64 - 1)"
  by (simp add: weight_def)

lemma buckets_ok_snoc:
  assumes "buckets_ok files st"
  shows "buckets_ok (files @ [f]) (add_file (length files, f) st)"
proof -
  obtain m s where st: "st = (m, s)" by (cases st)
  obtain p z where f: "f = (p, z)" by (cases f)
  have w: "weight (files @ [f]) is = weight files is" if "set is \<subseteq> {..<length files}" for "is"
    using that by (intro weight_cong) (auto simp: at_snoc)
  have mem: "set (members_of files k) \<subseteq> {..<length files}" for k by (auto simp: members_of_def)
  have wf: "bt_wf m" and tot: "unat s = weight files [0..<length files]"
    and get: "case bt_get m k of None \<Rightarrow> members_of files k = []
            | Some (is, b) \<Rightarrow> is = members_of files k \<and> is \<noteq> [] \<and> unat b = weight files is" for k
    using assms by (auto simp: buckets_ok_def st)
  have z: "size_at (files @ [f]) (length files) = z" by (simp add: at_snoc f)
  have one: "unat z = weight (files @ [f]) [length files]"
    using unsigned_less [where ?'a = nat, of z] by (simp add: weight_def z)
  have total: "unat (saturating_add s z) = weight (files @ [f]) [0..<length (files @ [f])]"
    using tot w [of "[0..<length files]"] by (simp add: weight_snoc unat_saturating_add z atLeast0LessThan)
  have add: "unat (saturating_add b z) = weight (files @ [f]) (members_of files k @ [length files])"
    if "unat b = weight files (members_of files k)" for b k
    using that w [OF mem [of k]] by (simp add: weight_snoc unat_saturating_add z)
  show ?thesis
    unfolding buckets_ok_def
  proof (intro conjI allI)
    show "bt_wf (fst (add_file (length files, f) st))"
      using wf by (auto simp: add_file_def st f Let_def split: option.splits)
    show "unat (snd (add_file (length files, f) st)) = weight (files @ [f]) [0..<length (files @ [f])]"
      using total by (simp add: add_file_def st f Let_def)
    show "case bt_get (fst (add_file (length files, f) st)) k of None \<Rightarrow> members_of (files @ [f]) k = []
            | Some (is, b) \<Rightarrow> is = members_of (files @ [f]) k \<and> is \<noteq> [] \<and> unat b = weight (files @ [f]) is" for k
      using get [of k] add one w [OF mem [of k]]
      by (auto simp: add_file_def st f Let_def members_snoc split: option.splits if_splits)
  qed
qed

lemma buckets_ok_all: "buckets_ok files (fold add_file (enumerate 0 files) ([], 0))"
proof (induction files rule: rev_induct)
  case Nil
  then show ?case by (simp add: buckets_ok_def members_of_def weight_def)
next
  case (snoc f files)
  then show ?case using buckets_ok_snoc [OF snoc] by (simp add: enumerate_append_eq)
qed

lemma mset_concat_map: "mset (concat (map f xs)) = (\<Sum>x\<in>#mset xs. mset (f x))"
  by (induction xs) auto

lemma mset_concat_filters:
  "distinct ks \<Longrightarrow> set (map key xs) \<subseteq> set ks \<Longrightarrow> mset (concat (map (\<lambda>k. filter (\<lambda>i. key i = k) xs) ks)) = mset xs"
proof (induction ks arbitrary: xs)
  case (Cons k ks)
  let ?rest = "filter (\<lambda>i. key i \<noteq> k) xs"
  have "filter (\<lambda>i. key i = k') xs = filter (\<lambda>i. key i = k') ?rest" if "k' \<in> set ks" for k'
    using that Cons.prems(1) by (auto intro!: filter_cong)
  then have "map (\<lambda>k'. filter (\<lambda>i. key i = k') xs) ks = map (\<lambda>k'. filter (\<lambda>i. key i = k') ?rest) ks"
    by (intro map_cong refl)
  moreover have "mset (concat (map (\<lambda>k'. filter (\<lambda>i. key i = k') ?rest) ks)) = mset ?rest"
    using Cons.prems by (intro Cons.IH) auto
  moreover have "mset xs = mset (filter (\<lambda>i. key i = k) xs) + mset ?rest"
    by (induction xs) auto
  ultimately show ?case by (simp only: list.map concat.simps mset_append)
qed simp

lemma mset_sort_indices: "mset (sort_indices lower files mode is) = mset is"
  by (cases mode) (simp_all add: sort_indices_def)

lemma mset_group_files:
  "fold add_file (enumerate 0 files) ([], 0) = (m, s) \<Longrightarrow>
   mset (group_files lower files mode) = mset (map (group_of lower files mode s) m)"
  by (cases mode) (simp_all add: group_files_def Let_def)

text \<open>
  Grouping shows every file exactly once, in the group of its first folder, whatever the order; a group's bytes are the sum of its files
  (at most the largest 64-bit number) and its share of the whole lies between nothing and all.
\<close>

lemma groups_partition_files:
  "mset (concat (map gr_indices (group_files lower files mode))) = mset [0..<length files]
   \<and> (\<forall>g \<in> set (group_files lower files mode). \<exists>k. mset (gr_indices g) = mset (members_of files k) \<and> gr_indices g \<noteq> []
        \<and> unat (gr_bytes g) = weight files (members_of files k) \<and> 0 \<le> gr_share g \<and> gr_share g \<le> 1
        \<and> gr_root g = (k = ROOT_KEY) \<and> gr_name g = (if k = ROOT_KEY then ROOT_NAME else k))"
proof -
  obtain m s where ms: "fold add_file (enumerate 0 files) ([], 0) = (m, s)" by fastforce
  note ok = buckets_ok_all [of files, unfolded ms]
  then have wf: "bt_wf m" and s: "unat s = weight files [0..<length files]" by (auto simp: buckets_ok_def)
  have entry: "is = members_of files k \<and> is \<noteq> [] \<and> unat b = weight files is" if "(k, is, b) \<in> set m" for k "is" b
  proof -
    have "bt_get m k = Some (is, b)" using that wf by (simp add: bt_in_set_get)
    moreover have "case bt_get m k of None \<Rightarrow> members_of files k = []
            | Some (is, b) \<Rightarrow> is = members_of files k \<and> is \<noteq> [] \<and> unat b = weight files is"
      using ok by (simp add: buckets_ok_def)
    ultimately show ?thesis by auto
  qed
  note gm = mset_group_files [OF ms, of lower mode]
  have "mset (concat (map gr_indices (group_files lower files mode))) = (\<Sum>e\<in>#mset m. mset (gr_indices (group_of lower files mode s e)))"
    by (simp add: mset_concat_map gm image_mset.compositionality comp_def)
  also have "\<dots> = (\<Sum>e\<in>#mset m. mset (members_of files (fst e)))"
    using entry by (intro arg_cong [where f = "\<Sum>\<^sub>#"] image_mset_cong) (auto simp: group_of_def mset_sort_indices)
  also have "\<dots> = mset (concat (map (\<lambda>k. filter (\<lambda>i. key_at files i = k) [0..<length files]) (map fst m)))"
    by (simp add: mset_concat_map image_mset.compositionality comp_def members_of_def)
  also have "\<dots> = mset [0..<length files]"
  proof (rule mset_concat_filters)
    show "distinct (map fst m)" using wf by (rule bt_wf_distinct)
    show "set (map (key_at files) [0..<length files]) \<subseteq> set (map fst m)"
    proof
      fix k assume "k \<in> set (map (key_at files) [0..<length files])"
      then have "members_of files k \<noteq> []" by (auto simp: members_of_def filter_empty_conv)
      then have "bt_get m k \<noteq> None" using ok by (auto simp: buckets_ok_def split: option.splits)
      then show "k \<in> set (map fst m)" by (metis bt_in_keys bt_keys_def)
    qed
  qed
  finally have part: "mset (concat (map gr_indices (group_files lower files mode))) = mset [0..<length files]" .
  have share: "(of_nat (unat b) / of_nat (unat s) :: rat) \<le> 1" if "unat b = weight files (members_of files k)" for b :: u64 and k
  proof -
    have "(\<Sum>i\<leftarrow>members_of files k. unat (size_at files i)) \<le> (\<Sum>i\<leftarrow>[0..<length files]. unat (size_at files i))"
      unfolding members_of_def by (rule sum_list_filter_le_nat)
    then have "unat b \<le> unat s" using that s by (simp add: weight_def)
    then have "(of_nat (unat b) :: rat) \<le> of_nat (unat s)" by (simp only: of_nat_le_iff)
    then show ?thesis by (auto simp: divide_le_eq_1 simp del: of_nat_unat)
  qed
  have "\<exists>k. mset (gr_indices g) = mset (members_of files k) \<and> gr_indices g \<noteq> []
        \<and> unat (gr_bytes g) = weight files (members_of files k) \<and> 0 \<le> gr_share g \<and> gr_share g \<le> 1
        \<and> gr_root g = (k = ROOT_KEY) \<and> gr_name g = (if k = ROOT_KEY then ROOT_NAME else k)"
    if "g \<in> set (group_files lower files mode)" for g
  proof -
    have "g \<in> set (map (group_of lower files mode s) m)" using that gm by (metis set_mset_mset)
    then obtain k "is" b where e: "(k, is, b) \<in> set m" "g = group_of lower files mode s (k, is, b)" by auto
    have "mset (gr_indices g) = mset is" using e by (simp add: group_of_def mset_sort_indices)
    moreover from this have "gr_indices g \<noteq> []" using entry [OF e(1)] by auto
    ultimately show ?thesis
      using entry [OF e(1)] e(2) share [of b k] by (intro exI [of _ k]) (auto simp: group_of_def simp del: of_nat_unat)
  qed
  with part show ?thesis by blast
qed

text \<open>
  The order is not total: two paths that differ only in the case of a letter keep the order they came in.
\<close>

lemma group_order_depends_on_input:
  assumes "lower ''A'' = lower ''a''"
  shows "map (path_at [(''A'', 0), (''a'', 0)]) (gr_indices (hd (group_files lower [(''A'', 0), (''a'', 0)] ByName))) = [''A'', ''a'']
       \<and> map (path_at [(''a'', 0), (''A'', 0)]) (gr_indices (hd (group_files lower [(''a'', 0), (''A'', 0)] ByName))) = [''a'', ''A'']"
  using assms
  by (simp add: group_files_def add_file_def bucket_key_def top_segment_def Let_def group_of_def sort_indices_def path_at_def bt_get_def saturating_add_def ROOT_KEY_def)

end
