(* ===== verification/Setup.thy ===== *)
theory Setup
  imports Guided Config
begin

text \<open>
  The settings panel and the first-run wizard (\<^verbatim>\<open>src/setup.rs\<close>) and the commands around them (\<^verbatim>\<open>handle_setup_cli\<close> and
  \<^verbatim>\<open>handle_config_cli\<close> of \<^verbatim>\<open>src/cli.rs\<close>).  The terminal is the list of the keys pressed and of the lines typed, None for a
  read that fails; drawing is left out.  Every edit goes through \<open>set_value\<close>.
\<close>

section \<open>The items\<close>

record item =
  it_key :: string
  it_group :: string
  it_choices :: "string list option"
  it_help :: string

definition ITEM_ROWS :: "(string \<times> string \<times> string list option) list" where
  "ITEM_ROWS =
     [(''role'', ''Role & editing'', Some [''editor'', ''viewer'', ''archive'']),
      (''strict'', ''Role & editing'', Some [''on'', ''off'']),
      (''autolock'', ''Role & editing'', Some [''on'', ''off'']),
      (''relay'', ''Network'', None),
      (''lan'', ''Network'', Some [''on'', ''off'']),
      (''airgap'', ''Network'', Some [''on'', ''off'']),
      (''junk-filter'', ''Sync scope'', Some [''on'', ''off'']),
      (''sync-only'', ''Sync scope'', None),
      (''sync-skip'', ''Sync scope'', None),
      (''max-file-size'', ''Sync scope'', None),
      (''history-depth'', ''History'', None),
      (''max-down'', ''Transfer'', None),
      (''audit'', ''Observability'', Some [''on'', ''off'']),
      (''hooks'', ''Observability'', Some [''on'', ''off'']),
      (''notify'', ''Observability'', Some [''on'', ''off'']),
      (''lease-ttl'', ''Leases'', None),
      (''acquire-timeout'', ''Leases'', None),
      (''wait-timeout'', ''Leases'', None),
      (''dashboard-port'', ''Interface'', None),
      (''update-channel'', ''Interface'', Some [''stable'', ''beta''])]"

definition HELP :: "string list" where
  "HELP =
     [''What this folder may do: editor locks and publishes; viewer only syncs and reads; archive is receive-only with deep history.'',
      ''on = exclusive checkout (files read-only, lock to edit). off = easy mode (files writable, edits auto-publish).'',
      ''In strict mode, auto-take the lease on your first write to a free path instead of refusing the edit.'',
      ''Relay policy: '' @ [CHR 0x27] @ ''default'' @ [CHR 0x27] @ '' (public relays), '' @ [CHR 0x27] @ ''none'' @ [CHR 0x27] @ '', or your own https:// relay URL.'',
      ''Find same-LAN members over mDNS with no external lookup.'',
      ''Closed network: no relays, no external discovery of any kind '' @ [CHR 0xE2, CHR 0x80, CHR 0x94] @ '' LAN only.'',
      ''Hold editor swap/backup files and OS metadata (.DS_Store, Thumbs.db, *.swp, Zone.Identifier) out of the sync.'',
      ''Carry ONLY this subtree on this node (e.g. docs); empty carries everything. Held paths are listed, never deleted.'',
      ''Comma-separated subtrees this node does not carry (e.g. renders,tmp).'',
      ''Hold new files larger than this (0 = unlimited; e.g. 500KB, 100MB, 2GB). Already-synced files are unaffected.'',
      ''Versions kept per file (0/auto = role default: 5, or deeper for archive). Pinned versions are always kept.'',
      ''Cap the download rate for incoming file chunks (0 = unlimited; e.g. 2MB, 500KB). Applies live, aggregate across all pulls.'',
      ''Write the append-only audit log (.tazamun/audit.jsonl), readable with '' @ [CHR 0x60] @ ''tazamun log'' @ [CHR 0x60] @ ''. Capped; cheap.'',
      ''Run executables under .tazamun/hooks/ on events (on-sync/on-conflict/on-lock-denied/on-peer-offline). No cost unless a hook exists.'',
      ''Desktop notifications for events worth a human (conflict preserved, peer offline mid-lease). Off by default.'',
      ''How long a lease you take lasts before it must renew (10s-24h, e.g. 90s, 15m).'',
      ''How long a lock request waits for every peer to answer (2s-60s).'',
      ''How long '' @ [CHR 0x60] @ ''lock --wait'' @ [CHR 0x60] @ '' keeps waiting for a busy path (e.g. 10m).'',
      ''Loopback port for the web dashboard (1024-65535).'',
      ''Which releases '' @ [CHR 0x60] @ ''tazamun update'' @ [CHR 0x60] @ '' follows: stable skips prereleases; beta takes the newest.'']"

definition ITEMS :: "item list" where
  "ITEMS = map2 (\<lambda>(k, g, c) h. \<lparr>it_key = k, it_group = g, it_choices = c, it_help = h\<rparr>) ITEM_ROWS HELP"

text \<open>The shown value of a key; None where the code is unreachable.\<close>

fun get_key :: "config_lib \<Rightarrow> session_config \<Rightarrow> config_key \<Rightarrow> string" where
  "get_key lib c KRole = role_str (c_role c)"
| "get_key lib c KStrict = on_off (c_strict c)"
| "get_key lib c KAutolock = on_off (c_autolock c)"
| "get_key lib c KRelay = c_relay c"
| "get_key lib c KLan = on_off (c_lan c)"
| "get_key lib c KAirgap = on_off (c_airgap c)"
| "get_key lib c KLeaseTtl = cl_format_duration lib (from_millis (unat (c_lease_ttl_ms c)))"
| "get_key lib c KAcquireTimeout = cl_format_duration lib (from_millis (unat (c_acquire_timeout_ms c)))"
| "get_key lib c KWaitTimeout = cl_format_duration lib (from_millis (unat (c_wait_timeout_ms c)))"
| "get_key lib c KDashboardPort = show_nat (unat (c_dashboard_port c))"
| "get_key lib c KUpdateChannel = c_update_channel c"
| "get_key lib c KJunkFilter = on_off (c_junk_filter c)"
| "get_key lib c KAudit = on_off (c_audit c)"
| "get_key lib c KHooks = on_off (c_hooks c)"
| "get_key lib c KNotify = on_off (c_notify c)"
| "get_key lib c KSyncOnly = (if c_sync_only c = [] then ''(everything)'' else c_sync_only c)"
| "get_key lib c KSyncSkip = (if c_sync_skip c = [] then ''(none)'' else c_sync_skip c)"
| "get_key lib c KMaxFileSize = fmt_size (c_max_file_size c)"
| "get_key lib c KHistoryDepth = (if c_history_depth c = 0 then ''auto'' else show_nat (c_history_depth c))"
| "get_key lib c KMaxDown = (if c_max_down c = 0 then ''unlimited'' else fmt_size (c_max_down c) @ ''/s'')"

definition get_value :: "config_lib \<Rightarrow> session_config \<Rightarrow> string \<Rightarrow> string option" where
  "get_value lib c key =
     (if key = ''dashboard.port'' then None else map_option (get_key lib c) (map_of key_table key))"

section \<open>The panel\<close>

datatype panel_status = NoStatus | StNote string | StError config_error | StPreset string | StNothing | StUnsaved

record panel =
  pn_saved :: session_config
  pn_work :: session_config
  pn_cursor :: nat
  pn_filter :: "string list"
  pn_status :: panel_status

definition new_panel :: "session_config \<Rightarrow> panel" where
  "new_panel saved = \<lparr>pn_saved = saved, pn_work = saved, pn_cursor = 0, pn_filter = [], pn_status = NoStatus\<rparr>"

definition str_contains :: "string \<Rightarrow> string \<Rightarrow> bool" where
  "str_contains hay needle = list_ex (\<lambda>n. starts_with (drop n hay) needle) [0..<Suc (length hay)]"

definition visible :: "panel \<Rightarrow> nat list" where
  "visible p =
     (let f = to_ascii_lowercase (concat (pn_filter p)) in
      filter (\<lambda>i. let it = ITEMS ! i in
        f = [] \<or> str_contains (it_key it) f \<or> str_contains (to_ascii_lowercase (it_group it)) f
        \<or> str_contains (to_ascii_lowercase (it_help it)) f) [0..<length ITEMS])"

definition pending :: "config_lib \<Rightarrow> panel \<Rightarrow> (string \<times> string \<times> string) list" where
  "pending lib p =
     List.map_filter (\<lambda>it.
       (case (get_value lib (pn_saved p) (it_key it), get_value lib (pn_work p) (it_key it)) of
          (Some a, Some b) \<Rightarrow> if a \<noteq> b then Some (it_key it, a, b) else None
        | _ \<Rightarrow> None)) ITEMS"

definition panel_set :: "config_lib \<Rightarrow> string \<Rightarrow> string \<Rightarrow> panel \<Rightarrow> panel" where
  "panel_set lib key value p =
     (case set_value lib key value (pn_work p) of
        Inr (c, note) \<Rightarrow> p\<lparr>pn_work := c, pn_status := StNote note\<rparr>
      | Inl e \<Rightarrow> p\<lparr>pn_status := StError e\<rparr>)"

fun choice_position :: "string option \<Rightarrow> string list \<Rightarrow> nat option" where
  "choice_position v [] = None"
| "choice_position v (x # xs) = (if Some x = v then Some 0 else map_option Suc (choice_position v xs))"

definition cycle :: "config_lib \<Rightarrow> nat \<Rightarrow> bool \<Rightarrow> panel \<Rightarrow> panel" where
  "cycle lib i forward p =
     (let it = ITEMS ! i in
      case it_choices it of
        None \<Rightarrow> p
      | Some choices \<Rightarrow>
          let pos = unwrap_or 0 (choice_position (get_value lib (pn_work p) (it_key it)) choices);
              next' = (if forward then (pos + 1) mod length choices else (pos + length choices - 1) mod length choices)
          in panel_set lib (it_key it) (choices ! next') p)"

record preset =
  pr_name :: string
  pr_sets :: "(string \<times> string) list"

definition PRESETS :: "preset list" where
  "PRESETS =
     [\<lparr>pr_name = ''team-strict'', pr_sets = [(''role'', ''editor''), (''strict'', ''on''), (''autolock'', ''off'')]\<rparr>,
      \<lparr>pr_name = ''solo-easy'', pr_sets = [(''role'', ''editor''), (''strict'', ''off''), (''autolock'', ''on'')]\<rparr>,
      \<lparr>pr_name = ''viewer-kiosk'', pr_sets = [(''role'', ''viewer''), (''strict'', ''on''), (''autolock'', ''off'')]\<rparr>,
      \<lparr>pr_name = ''lan-only'', pr_sets = [(''relay'', ''none''), (''lan'', ''on''), (''airgap'', ''off'')]\<rparr>]"

definition apply_preset :: "config_lib \<Rightarrow> preset \<Rightarrow> panel \<Rightarrow> panel" where
  "apply_preset lib pr p =
     (fold (\<lambda>(k, v). panel_set lib k v) (pr_sets pr) p)\<lparr>pn_status := StPreset (pr_name pr)\<rparr>"

section \<open>The terminal loop\<close>

text \<open>A character key carries its UTF-8 bytes.\<close>

datatype tkey = TUp | TDown | TLeft | TRight | TEnter | TEscape | TBackspace | TChar string | TOther

datatype panel_mode = Browsing | Filtering | Picking nat

datatype panel_end = PanelFailed | PanelQuit | PanelSaved session_config "(string \<times> string) list"

text \<open>One key in each mode; the line is what a typed prompt reads.  \<open>io_err\<close>: loading or saving the state fails.\<close>

definition filter_key :: "tkey \<Rightarrow> panel \<Rightarrow> panel_mode \<times> panel" where
  "filter_key key p =
     (let (mode, f) =
        (case key of
           TChar c \<Rightarrow> (Filtering, pn_filter p @ [c])
         | TBackspace \<Rightarrow> (Filtering, butlast (pn_filter p))
         | TEscape \<Rightarrow> (Browsing, [])
         | TEnter \<Rightarrow> (Browsing, pn_filter p)
         | _ \<Rightarrow> (Filtering, pn_filter p))
      in (mode, p\<lparr>pn_filter := f, pn_cursor := 0\<rparr>))"

definition pick_key :: "config_lib \<Rightarrow> nat \<Rightarrow> tkey \<Rightarrow> panel \<Rightarrow> panel_mode \<times> panel" where
  "pick_key lib cursor key p =
     (if key = TUp \<or> key = TChar ''k'' then (Picking (cursor - 1), p)
      else if key = TDown \<or> key = TChar ''j'' then (Picking (if cursor + 1 < length PRESETS then cursor + 1 else cursor), p)
      else if key = TEnter then (Browsing, apply_preset lib (PRESETS ! cursor) p)
      else if key = TEscape \<or> key = TChar ''q'' then (Browsing, p)
      else (Picking cursor, p))"

definition prompt_edit :: "config_lib \<Rightarrow> nat \<Rightarrow> string \<Rightarrow> panel \<Rightarrow> panel" where
  "prompt_edit lib i line p =
     (let value = trim line in if value = [] then p else panel_set lib (it_key (ITEMS ! i)) value p)"

definition row_at :: "panel \<Rightarrow> nat option" where
  "row_at p = (let v = visible p in if pn_cursor p < length v then Some (v ! pn_cursor p) else None)"

definition browse_key :: "config_lib \<Rightarrow> bool \<Rightarrow> tkey \<Rightarrow> panel \<Rightarrow> panel_end + panel_mode \<times> panel" where
  "browse_key lib io_err key p =
     (if key = TUp \<or> key = TChar ''k'' then Inr (Browsing, p\<lparr>pn_cursor := pn_cursor p - 1\<rparr>)
      else if key = TDown \<or> key = TChar ''j'' then
        Inr (Browsing, if pn_cursor p + 1 < length (visible p) then p\<lparr>pn_cursor := pn_cursor p + 1\<rparr> else p)
      else if key = TRight \<or> key = TEnter then
        Inr (Browsing, case row_at p of Some i \<Rightarrow> cycle lib i True p | None \<Rightarrow> p)
      else if key = TLeft then Inr (Browsing, case row_at p of Some i \<Rightarrow> cycle lib i False p | None \<Rightarrow> p)
      else if key = TChar ''/'' then Inr (Filtering, p\<lparr>pn_filter := [], pn_cursor := 0\<rparr>)
      else if key = TChar ''p'' then Inr (Picking 0, p)
      else if key = TChar ''s'' then
        (let changes = pending lib p in
         if changes = [] then Inr (Browsing, p\<lparr>pn_status := StNothing\<rparr>)
         else if io_err then Inl PanelFailed
         else Inl (PanelSaved (pn_work p) (map (\<lambda>(k, _, b). (k, b)) changes)))
      else if key = TChar ''q'' \<or> key = TEscape then
        (if pending lib p = [] then Inl PanelQuit else Inr (Browsing, p\<lparr>pn_status := StUnsaved\<rparr>))
      else if key = TChar ''Q'' then Inl PanelQuit
      else Inr (Browsing, p))"

definition wants_line :: "tkey \<Rightarrow> panel \<Rightarrow> nat option" where
  "wants_line key p =
     (if key = TRight \<or> key = TEnter
      then (case row_at p of Some i \<Rightarrow> if it_choices (ITEMS ! i) = None then Some i else None | None \<Rightarrow> None) else None)"

text \<open>The loop; None while it waits for a key or a line.\<close>

fun panel_loop :: "config_lib \<Rightarrow> bool \<Rightarrow> tkey option list \<Rightarrow> string option list \<Rightarrow> panel_mode \<Rightarrow> panel \<Rightarrow> panel_end option" where
  "panel_loop lib io_err [] typed mode p = None"
| "panel_loop lib io_err (None # keys) typed mode p = Some PanelFailed"
| "panel_loop lib io_err (Some key # keys) typed mode p =
     (case mode of
        Filtering \<Rightarrow> (case filter_key key p of (m, p') \<Rightarrow> panel_loop lib io_err keys typed m p')
      | Picking cursor \<Rightarrow> (case pick_key lib cursor key p of (m, p') \<Rightarrow> panel_loop lib io_err keys typed m p')
      | Browsing \<Rightarrow>
          (case wants_line key p of
             Some i \<Rightarrow>
               (case typed of
                  [] \<Rightarrow> None
                | None # _ \<Rightarrow> Some PanelFailed
                | Some line # rest \<Rightarrow> panel_loop lib io_err keys rest Browsing (prompt_edit lib i line p))
           | None \<Rightarrow>
               (case browse_key lib io_err key p of
                  Inl e \<Rightarrow> Some e
                | Inr (m, p') \<Rightarrow> panel_loop lib io_err keys typed m p')))"

definition run_panel :: "config_lib \<Rightarrow> bool \<Rightarrow> tkey option list \<Rightarrow> string option list \<Rightarrow> session_config \<Rightarrow> panel_end option" where
  "run_panel lib io_err keys typed saved = panel_loop lib io_err keys typed Browsing (new_panel saved)"

section \<open>Applying what was saved\<close>

text \<open>\<^verbatim>\<open>tazamun setup\<close> after the panel: each change is offered to the daemon; the keys it refuses need a restart.\<close>

fun offer_changes :: "'j answering \<Rightarrow> (string \<times> string) list \<Rightarrow> 'j req_log \<times> string list \<Rightarrow> 'j req_log \<times> string list" where
  "offer_changes daemon [] st = st"
| "offer_changes daemon ((k, v) # changes) (log, restart) =
     (let log1 = asked daemon log (RqConfigSet k v) in
      offer_changes daemon changes (log1, if answered_ok (snd (last log1)) then restart else restart @ [k]))"

definition handle_setup_cli :: "'j answering \<Rightarrow> bool \<Rightarrow> panel_end \<Rightarrow> 'j req_log \<times> string list" where
  "handle_setup_cli daemon alive e =
     (case e of
        PanelSaved c changes \<Rightarrow> if alive then offer_changes daemon changes ([], []) else ([], [])
      | _ \<Rightarrow> ([], []))"

text \<open>\<^verbatim>\<open>tazamun config set\<close>: the configuration in the state file before and after.\<close>

definition config_set_cli :: "config_lib \<Rightarrow> string \<Rightarrow> string \<Rightarrow> session_config \<Rightarrow> config_error + session_config" where
  "config_set_cli lib key value c = (case set_value lib key value c of Inl e \<Rightarrow> Inl e | Inr (c', _) \<Rightarrow> Inr c')"

section \<open>The first-run wizard\<close>

definition QUESTIONS :: "(string \<times> string) list list list" where
  "QUESTIONS =
     [[[(''role'', ''editor'')], [(''role'', ''viewer'')], [(''role'', ''archive'')]],
      [[(''strict'', ''on'')], [(''strict'', ''off''), (''autolock'', ''on'')]],
      [[(''relay'', ''default''), (''lan'', ''on''), (''airgap'', ''off'')],
       [(''relay'', ''none''), (''lan'', ''on''), (''airgap'', ''off'')],
       [(''airgap'', ''on'')]]]"

fun wizard_sets :: "config_lib \<Rightarrow> (string \<times> string) list \<Rightarrow> session_config \<times> string list \<Rightarrow> (session_config \<times> string list, config_error) res" where
  "wizard_sets lib [] st = Ok st"
| "wizard_sets lib ((k, v) # sets) (c, notes) =
     (case set_value lib k v c of Inl e \<Rightarrow> Inl e | Inr (c', note) \<Rightarrow> wizard_sets lib sets (c', notes @ [note]))"

text \<open>An answer is the index of the chosen option, None for Escape.\<close>

fun wizard_loop :: "config_lib \<Rightarrow> (string \<times> string) list list list \<Rightarrow> nat option list \<Rightarrow> session_config \<times> string list \<Rightarrow> (session_config \<times> string list, config_error) res" where
  "wizard_loop lib (q # qs) (Some i # answers) st =
     (case wizard_sets lib (q ! i) st of Inl e \<Rightarrow> Inl e | Inr st' \<Rightarrow> wizard_loop lib qs answers st')"
| "wizard_loop lib _ _ st = Ok st"

definition run_init_wizard :: "config_lib \<Rightarrow> nat option list \<Rightarrow> session_config \<Rightarrow> (session_config \<times> string list, config_error) res" where
  "run_init_wizard lib answers c = wizard_loop lib QUESTIONS answers (c, [])"

end
