(* ===== verification/SetupProps.thy ===== *)
theory SetupProps
  imports Setup RoleProps
begin

text \<open>
  The settings panel: what is shown can be typed back, the preview is empty exactly when nothing changed, every saved configuration is
  sane; and what becomes of a change made beside a running daemon.
\<close>

section \<open>What is shown can be typed back\<close>

text \<open>Documented behaviour of the duration library: it reads what it prints.\<close>

definition durations_roundtrip :: "config_lib \<Rightarrow> bool" where
  "durations_roundtrip lib \<longleftrightarrow>
     (\<forall>ms. cl_parse_duration lib (trim (cl_format_duration lib (from_millis ms))) = Some (from_millis ms))"

definition relay_canonical :: "config_lib \<Rightarrow> string \<Rightarrow> bool" where
  "relay_canonical lib r \<longleftrightarrow> (\<exists>ch. relay_parse lib r = Ok ch \<and> to_config_string ch = r)"

definition skip_list_ok :: "string \<Rightarrow> bool" where
  "skip_list_ok s \<longleftrightarrow> (\<forall>v \<in> set (split_on CHR '','' s). v \<noteq> [] \<and> trim v = v \<and> sanitize_rel_path v = Ok v)"

text \<open>The value shown for the key is one of the three placeholders or carries a unit the parser does not know.\<close>

fun placeholder :: "session_config \<Rightarrow> config_key \<Rightarrow> bool" where
  "placeholder c KSyncOnly \<longleftrightarrow> c_sync_only c = []"
| "placeholder c KSyncSkip \<longleftrightarrow> c_sync_skip c = []"
| "placeholder c KMaxDown \<longleftrightarrow> c_max_down c \<noteq> 0"
| "placeholder c _ \<longleftrightarrow> False"

lemma trim_matches_id: "v \<noteq> [] \<Longrightarrow> hd v \<noteq> x \<Longrightarrow> last v \<noteq> x \<Longrightarrow> trim_matches x v = v"
  by (simp add: trim_matches_def dropWhile_eq_self_iff [THEN iffD2] hd_rev)

lemma split_on_snoc_sep: "[] \<in> set (tl (split_on x (r @ [x])))"
  by (induction r) (auto dest: list.set_sel(2) [rotated] split: list.splits)

lemma validate_tidy:
  assumes "sanitize_rel_path v = Ok v" "trim v = v"
  shows "validate_subtree v = Ok v"
proof -
  have ne: "v \<noteq> []" and segs: "[] \<notin> set (split_on CHR ''/'' v)"
    using assms(1) by (auto simp: sanitize_accepts_iff check_segments_None_iff)
  have "hd v \<noteq> CHR ''/''" using segs ne by (cases v) auto
  moreover have "last v \<noteq> CHR ''/''"
  proof
    assume "last v = CHR ''/''"
    then obtain r where "v = r @ CHR ''/'' # []" using ne by (metis append_butlast_last_id)
    then show False using segs split_on_snoc_sep [of "CHR ''/''" r] by (simp add: list.set_sel(2))
  qed
  ultimately show ?thesis using assms ne by (simp add: validate_subtree_def trim_matches_id)
qed

lemma skip_parts_tidy:
  "\<forall>v \<in> set raws. v \<noteq> [] \<and> trim v = v \<and> sanitize_rel_path v = Ok v \<Longrightarrow> skip_parts raws parts = Ok (parts @ raws)"
  by (induction raws arbitrary: parts) (auto simp: and_then_def validate_tidy)

lemma parse_on_off_shown: "parse_on_off (on_off b) = Ok b"
  by (simp add: parse_on_off_def on_off_def trim_plain_ascii plain_ascii_def ascii_code_def to_ascii_lowercase_def
      to_ascii_lower_def is_ascii_upper_def)

lemma role_parse_shown: "role_parse (role_str r) = Ok r"
  by (cases r) (simp_all add: role_parse_def trim_plain_ascii plain_ascii_def ascii_code_def to_ascii_lowercase_def
      to_ascii_lower_def is_ascii_upper_def)

lemma clamp_dur_shown:
  "durations_roundtrip lib \<Longrightarrow> ms_between lo hi ms \<Longrightarrow>
   clamp_dur lib (cl_format_duration lib (from_millis (unat ms))) lo hi = Ok (from_millis (unat ms))"
  by (simp add: clamp_dur_def durations_roundtrip_def ms_between_def clamp_id)

lemma depth_shown: "n \<le> 1000 \<Longrightarrow> depth_of (if n = 0 then ''auto'' else show_nat n) = Ok n"
proof (cases "n = 0")
  case True
  then show ?thesis by (simp add: depth_of_def trim_plain_ascii plain_ascii_def ascii_code_def eq_ignore_ascii_case_def)
next
  case False
  have "\<not> eq_ignore_ascii_case (show_nat n) ''auto''"
  proof
    assume "eq_ignore_ascii_case (show_nat n) ''auto''"
    then have "show_nat n = map to_ascii_lower ''auto''" by (simp add: eq_ignore_ascii_case_def)
    then show False using show_nat_letter [of "to_ascii_lower CHR ''a''" n] by (simp add: to_ascii_lower_def is_ascii_upper_def ascii_code_def)
  qed
  moreover assume "n \<le> 1000"
  ultimately show ?thesis using False by (simp add: depth_of_def trim_plain_ascii U64_MAX_def)
qed

text \<open>
  C19. What the panel shows can be typed back: for a sane configuration, entering the text shown for any key leaves the
  configuration as it is, except where the text is a placeholder (nothing selected, nothing skipped) or a download limit.
\<close>

theorem shown_values_roundtrip:
  assumes "durations_roundtrip lib" "config_ok c" "relay_canonical lib (c_relay c)"
    and "trim (c_sync_only c) = c_sync_only c" "c_sync_skip c = [] \<or> skip_list_ok (c_sync_skip c)"
    and "get_value lib c key = Some shown" "\<forall>k. map_of key_table key = Some k \<longrightarrow> \<not> placeholder c k"
  shows "\<exists>note. set_value lib key shown c = Ok (c, note)"
proof -
  obtain k where k: "map_of key_table key = Some k" "shown = get_key lib c k"
    using assms(6) by (auto simp: get_value_def split: if_splits)
  have np: "\<not> placeholder c k" using assms(7) k(1) by blast
  have ms: "(of_nat (as_millis (from_millis (unat w))) :: u64) = w" for w by simp
  have "\<exists>note. set_key lib k (get_key lib c k) c = Ok (c, note)"
  proof (cases k)
    case KRelay
    then show ?thesis using assms(3) by (auto simp: relay_canonical_def and_then_def)
  next
    case KDashboardPort
    have "unat (c_dashboard_port c) \<le> 65535" using unsigned_less [where ?'a = nat, of "c_dashboard_port c"] by simp
    then show ?thesis using KDashboardPort assms(2) by (simp add: config_ok_def trim_plain_ascii)
  next
    case KUpdateChannel
    have "to_ascii_lowercase (trim (c_update_channel c)) = c_update_channel c \<and> c_update_channel c \<in> {''stable'', ''beta''}"
      using assms(2) by (auto simp: config_ok_def trim_plain_ascii plain_ascii_def ascii_code_def to_ascii_lowercase_def
          to_ascii_lower_def is_ascii_upper_def)
    then show ?thesis using KUpdateChannel by (auto simp: Let_def)
  next
    case KSyncOnly
    then show ?thesis using assms(2,4) np by (auto simp: config_ok_def subtree_ok_def and_then_def validate_tidy)
  next
    case KSyncSkip
    then show ?thesis using assms(5) np by (auto simp: skip_list_ok_def and_then_def skip_parts_tidy join_split)
  next
    case KHistoryDepth
    then show ?thesis using assms(2) depth_shown [of "c_history_depth c"] by (simp add: config_ok_def and_then_def split: if_splits)
  next
    case KMaxDown
    then show ?thesis using np size_roundtrip [of 0] by (simp add: and_then_def fmt_size_def)
  qed (use assms(1,2) in \<open>auto simp: set_bool_def and_then_def parse_on_off_shown role_parse_shown clamp_dur_shown config_ok_def size_roundtrip\<close>)
  then show ?thesis using k by (simp add: set_value_def)
qed

definition exact_lib :: config_lib where
  "exact_lib = \<lparr>cl_parse_duration = digits_value 0, cl_format_duration = show_nat, cl_relay_url = Some\<rparr>"

lemma exact_lib_roundtrip: "durations_roundtrip exact_lib"
  by (simp add: durations_roundtrip_def exact_lib_def trim_plain_ascii)

theorem shown_values_roundtrip_witness:
  "\<exists>note. set_value exact_lib ''lease-ttl'' (show_nat (from_millis (unat (c_lease_ttl_ms default_config)))) default_config = Ok (default_config, note)"
proof (rule shown_values_roundtrip [OF exact_lib_roundtrip default_config_ok])
  show "relay_canonical exact_lib (c_relay default_config)"
    by (auto simp: relay_canonical_def relay_parse_def default_config_def trim_plain_ascii plain_ascii_def ascii_code_def)
  show "trim (c_sync_only default_config) = c_sync_only default_config"
    by (simp add: default_config_def trim_plain_ascii plain_ascii_def)
  show "c_sync_skip default_config = [] \<or> skip_list_ok (c_sync_skip default_config)" by (simp add: default_config_def)
  show "get_value exact_lib default_config ''lease-ttl'' = Some (show_nat (from_millis (unat (c_lease_ttl_ms default_config))))"
    by (simp add: get_value_def key_table_def exact_lib_def)
  show "\<forall>k. map_of key_table ''lease-ttl'' = Some k \<longrightarrow> \<not> placeholder default_config k" by (simp add: key_table_def)
qed

section \<open>The preview\<close>

lemma items_length: "length ITEM_ROWS = length HELP"
  by (simp add: ITEM_ROWS_def HELP_def)

lemma items_keys: "map it_key ITEMS = map fst ITEM_ROWS" "map it_choices ITEMS = map (\<lambda>r. snd (snd r)) ITEM_ROWS"
proof -
  have "map (f \<circ> fst) (zip ITEM_ROWS HELP) = map f ITEM_ROWS" for f :: "string \<times> string \<times> string list option \<Rightarrow> 'a"
    using items_length by (metis map_fst_zip map_map)
  from this [of fst] this [of "\<lambda>r. snd (snd r)"]
  show "map it_key ITEMS = map fst ITEM_ROWS" "map it_choices ITEMS = map (\<lambda>r. snd (snd r)) ITEM_ROWS"
    by (simp_all add: ITEMS_def case_prod_beta comp_def)
qed

definition item_kinds :: "config_key list" where
  "item_kinds = [KRole, KStrict, KAutolock, KRelay, KLan, KAirgap, KJunkFilter, KSyncOnly, KSyncSkip, KMaxFileSize, KHistoryDepth,
     KMaxDown, KAudit, KHooks, KNotify, KLeaseTtl, KAcquireTimeout, KWaitTimeout, KDashboardPort, KUpdateChannel]"

lemma item_rows_known:
  "map (\<lambda>r. (map_of key_table (fst r), fst r = ''dashboard.port'')) ITEM_ROWS = map (\<lambda>k. (Some k, False)) item_kinds"
  by code_simp

lemma items_known: "map (\<lambda>it. (map_of key_table (it_key it), it_key it = ''dashboard.port'')) ITEMS = map (\<lambda>k. (Some k, False)) item_kinds"
proof -
  have "map (\<lambda>it. (map_of key_table (it_key it), it_key it = ''dashboard.port'')) ITEMS
      = map (\<lambda>key. (map_of key_table key, key = ''dashboard.port'')) (map it_key ITEMS)" by simp
  then show ?thesis using item_rows_known by (simp add: items_keys(1) comp_def)
qed

lemma item_for_every_key: "\<exists>it \<in> set ITEMS. map_of key_table (it_key it) = Some k \<and> it_key it \<noteq> ''dashboard.port''"
proof -
  have "k \<in> set item_kinds" by (cases k) (simp_all add: item_kinds_def)
  then have "(Some k, False) \<in> set (map (\<lambda>k. (Some k, False)) item_kinds)" by simp
  then have "(Some k, False) \<in> set (map (\<lambda>it. (map_of key_table (it_key it), it_key it = ''dashboard.port'')) ITEMS)"
    by (simp only: items_known)
  then show ?thesis by auto
qed

lemma item_keys_known:
  assumes "it \<in> set ITEMS"
  shows "\<exists>k. map_of key_table (it_key it) = Some k \<and> it_key it \<noteq> ''dashboard.port''"
proof -
  have "(map_of key_table (it_key it), it_key it = ''dashboard.port'') \<in> set (map (\<lambda>k. (Some k, False)) item_kinds)"
    using assms by (simp only: items_known [symmetric]) auto
  then show ?thesis by auto
qed

lemma map_filter_Nil: "List.map_filter f xs = [] \<longleftrightarrow> (\<forall>x \<in> set xs. f x = None)"
  by (induction xs) (auto simp: List.map_filter_simps split: option.splits)

lemma pending_Nil_iff: "pending lib p = [] \<longleftrightarrow> (\<forall>k. get_key lib (pn_saved p) k = get_key lib (pn_work p) k)"
proof -
  have "pending lib p = [] \<longleftrightarrow> (\<forall>it \<in> set ITEMS. get_value lib (pn_saved p) (it_key it) = get_value lib (pn_work p) (it_key it))"
    unfolding pending_def map_filter_Nil
  proof (intro ball_cong refl)
    fix it assume "it \<in> set ITEMS"
    then obtain k where "map_of key_table (it_key it) = Some k" "it_key it \<noteq> ''dashboard.port''" using item_keys_known by blast
    then show "((case (get_value lib (pn_saved p) (it_key it), get_value lib (pn_work p) (it_key it)) of
          (Some a, Some b) \<Rightarrow> if a \<noteq> b then Some (it_key it, a, b) else None
        | _ \<Rightarrow> None) = None) = (get_value lib (pn_saved p) (it_key it) = get_value lib (pn_work p) (it_key it))"
      by (simp add: get_value_def)
  qed
  also have "\<dots> \<longleftrightarrow> (\<forall>k. get_key lib (pn_saved p) k = get_key lib (pn_work p) k)"
  proof
    assume all: "\<forall>it \<in> set ITEMS. get_value lib (pn_saved p) (it_key it) = get_value lib (pn_work p) (it_key it)"
    show "\<forall>k. get_key lib (pn_saved p) k = get_key lib (pn_work p) k"
    proof
      fix k
      obtain it where "it \<in> set ITEMS" "map_of key_table (it_key it) = Some k" "it_key it \<noteq> ''dashboard.port''"
        using item_for_every_key by blast
      then show "get_key lib (pn_saved p) k = get_key lib (pn_work p) k" using all by (force simp: get_value_def)
    qed
  qed (use item_keys_known in \<open>force simp: get_value_def\<close>)
  finally show ?thesis .
qed

lemma show_nat_inject: "show_nat m = show_nat n \<longleftrightarrow> m = n"
  by (metis digits_value_show option.inject)

lemma fmt_size_inject: "fmt_size a = fmt_size b \<longleftrightarrow> a = b"
  by (metis size_roundtrip sum.inject(2))

lemma duration_shown_inject:
  assumes "durations_roundtrip lib" "cl_format_duration lib (from_millis (unat a)) = cl_format_duration lib (from_millis (unat b))"
  shows "a = (b :: u64)"
proof -
  have "from_millis (unat a) = from_millis (unat b)"
    using assms unfolding durations_roundtrip_def by (metis option.inject)
  then have "unat a = unat b" by (simp add: from_millis_def)
  then show ?thesis by (rule unsigned_word_eqI)
qed

lemma auto_not_number: "''auto'' \<noteq> show_nat n"
proof
  assume "''auto'' = show_nat n"
  then have "show_nat n = CHR ''a'' # ''uto''" by (rule sym)
  then have "CHR ''a'' \<in> set (show_nat n)" by (simp only: list.set_intros)
  then have "48 \<le> ascii_code CHR ''a'' \<and> ascii_code CHR ''a'' \<le> 57" by (rule show_nat_letter)
  then show False by (simp add: ascii_code_def)
qed

lemma shown_equal:
  assumes lib: "durations_roundtrip lib" and shown: "\<forall>k. get_key lib c k = get_key lib c' k"
    and "{c_sync_only c, c_sync_only c'} \<inter> {''(everything)''} = {}" "{c_sync_skip c, c_sync_skip c'} \<inter> {''(none)''} = {}"
  shows "c = c'"
proof -
  note g = shown [THEN spec]
  note durs = duration_shown_inject [OF lib]
  have b: "on_off x = on_off y \<longleftrightarrow> x = y" for x y by (simp add: on_off_def)
  have 1: "c_role c = c_role c'" using g [of KRole] by (cases "c_role c"; cases "c_role c'") simp_all
  have 2: "c_max_down c = c_max_down c'"
  proof -
    have "''unlimited'' \<noteq> x @ ''/s''" for x by (auto dest: arg_cong [where f = last])
    then show ?thesis using g [of KMaxDown] by (auto simp: fmt_size_inject split: if_splits)
  qed
  have 3: "c_history_depth c = c_history_depth c'"
    using g [of KHistoryDepth] by (simp add: show_nat_inject auto_not_number auto_not_number [symmetric] split: if_splits)
  have 4: "c_sync_only c = c_sync_only c'" using assms(3) g [of KSyncOnly] by (simp split: if_splits)
  have 5: "c_sync_skip c = c_sync_skip c'" using assms(4) g [of KSyncSkip] by (simp split: if_splits)
  have 6: "c_dashboard_port c = c_dashboard_port c'"
    using g [of KDashboardPort] by (simp add: show_nat_inject unsigned_word_eqI)
  have 7: "c_max_file_size c = c_max_file_size c'" using g [of KMaxFileSize] by (simp add: fmt_size_inject)
  have 8: "c_relay c = c_relay c'" "c_update_channel c = c_update_channel c'" using g [of KRelay] g [of KUpdateChannel] by simp_all
  have 9: "c_lease_ttl_ms c = c_lease_ttl_ms c'" "c_acquire_timeout_ms c = c_acquire_timeout_ms c'" "c_wait_timeout_ms c = c_wait_timeout_ms c'"
    using g [of KLeaseTtl] g [of KAcquireTimeout] g [of KWaitTimeout] by (simp_all add: durs)
  have 10: "c_strict c = c_strict c'" "c_autolock c = c_autolock c'" "c_lan c = c_lan c'" "c_airgap c = c_airgap c'"
    "c_junk_filter c = c_junk_filter c'" "c_audit c = c_audit c'" "c_hooks c = c_hooks c'" "c_notify c = c_notify c'"
    using g [of KStrict] g [of KAutolock] g [of KLan] g [of KAirgap] g [of KJunkFilter] g [of KAudit] g [of KHooks] g [of KNotify]
    by (simp_all only: get_key.simps b)
  show ?thesis by (rule session_config.equality) (simp_all add: 1 2 3 4 5 6 7 8 9 10)
qed

text \<open>
  The preview is exact: it is empty, so that leaving needs no confirmation and saving does nothing, exactly when the edited
  configuration is the saved one (unless a folder is named like a placeholder).
\<close>

theorem preview_empty_iff_unchanged:
  assumes "durations_roundtrip lib"
    and "{c_sync_only (pn_saved p), c_sync_only (pn_work p)} \<inter> {''(everything)''} = {}"
    and "{c_sync_skip (pn_saved p), c_sync_skip (pn_work p)} \<inter> {''(none)''} = {}"
  shows "pending lib p = [] \<longleftrightarrow> pn_work p = pn_saved p"
  using assms shown_equal [of lib "pn_saved p" "pn_work p"] by (auto simp: pending_Nil_iff)

theorem preview_empty_iff_unchanged_witness:
  "pending exact_lib (new_panel default_config) = []"
  using preview_empty_iff_unchanged [OF exact_lib_roundtrip, of "new_panel default_config"]
  by (simp add: new_panel_def default_config_def)

section \<open>What is saved\<close>

lemma panel_set_work: "config_ok (pn_work p) \<Longrightarrow> config_ok (pn_work (panel_set lib key v p)) \<and> pn_saved (panel_set lib key v p) = pn_saved p"
  by (auto simp: panel_set_def dest: set_value_ok split: sum.splits prod.splits)

lemma cycle_work: "config_ok (pn_work p) \<Longrightarrow> config_ok (pn_work (cycle lib i forward p)) \<and> pn_saved (cycle lib i forward p) = pn_saved p"
  using panel_set_work by (auto simp: cycle_def Let_def split: option.splits)

lemma preset_work: "config_ok (pn_work p) \<Longrightarrow> config_ok (pn_work (apply_preset lib pr p)) \<and> pn_saved (apply_preset lib pr p) = pn_saved p"
proof -
  have "config_ok (pn_work p) \<Longrightarrow> config_ok (pn_work (fold (\<lambda>(k, v). panel_set lib k v) sets p))
      \<and> pn_saved (fold (\<lambda>(k, v). panel_set lib k v) sets p) = pn_saved p" for sets
    by (induction sets arbitrary: p) (use panel_set_work in \<open>auto split: prod.splits\<close>)
  then show "config_ok (pn_work p) \<Longrightarrow> config_ok (pn_work (apply_preset lib pr p)) \<and> pn_saved (apply_preset lib pr p) = pn_saved p"
    by (simp add: apply_preset_def)
qed

lemma mode_keys_work:
  assumes "config_ok (pn_work p)"
  shows "filter_key key p = (m, p') \<Longrightarrow> config_ok (pn_work p') \<and> pn_saved p' = pn_saved p"
    and "pick_key lib cursor key p = (m, p') \<Longrightarrow> config_ok (pn_work p') \<and> pn_saved p' = pn_saved p"
    and "config_ok (pn_work (prompt_edit lib i line p)) \<and> pn_saved (prompt_edit lib i line p) = pn_saved p"
  using assms preset_work [OF assms] panel_set_work [OF assms]
  by (auto simp: filter_key_def pick_key_def prompt_edit_def Let_def split: tkey.splits if_splits)

lemma browse_key_work:
  assumes "config_ok (pn_work p)" "browse_key lib io_err key p = Inr (m, p')"
  shows "config_ok (pn_work p') \<and> pn_saved p' = pn_saved p"
  using assms cycle_work [OF assms(1)]
  by (auto simp: browse_key_def Let_def split: if_splits option.splits)

lemma browse_key_saves:
  "browse_key lib io_err key p = Inl (PanelSaved c changes) \<Longrightarrow>
   c = pn_work p \<and> \<not> io_err \<and> changes = map (\<lambda>(k, _, b). (k, b)) (pending lib p) \<and> changes \<noteq> []"
  by (auto simp: browse_key_def Let_def split: if_splits)

lemma panel_loop_saves:
  assumes "panel_loop lib io_err keys typed mode p = Some (PanelSaved c changes)" "config_ok (pn_work p)"
  shows "config_ok c \<and> \<not> io_err \<and> changes \<noteq> [] \<and> (\<exists>q. pn_work q = c \<and> pn_saved q = pn_saved p \<and> changes = map (\<lambda>(k, _, b). (k, b)) (pending lib q))"
  using assms
proof (induction lib io_err keys typed mode p rule: panel_loop.induct)
  case (3 lib io_err key keys typed mode p)
  note ih = "3.IH" and ok = "3.prems"(2) and run = "3.prems"(1)
  show ?case
  proof (cases mode)
    case Filtering
    obtain m p' where f: "filter_key key p = (m, p')" by fastforce
    show ?thesis using ih(3) [OF Filtering f [symmetric]] run Filtering f mode_keys_work(1) [OF ok f] by auto
  next
    case (Picking cursor)
    obtain m p' where f: "pick_key lib cursor key p = (m, p')" by fastforce
    show ?thesis using ih(4) [OF Picking f [symmetric]] run Picking f mode_keys_work(2) [OF ok f] by auto
  next
    case Browsing
    show ?thesis
    proof (cases "wants_line key p")
      case (Some i)
      then show ?thesis
        using run Browsing ih(2) [OF Browsing Some] mode_keys_work(3) [OF ok] by (auto split: list.splits option.splits)
    next
      case None
      show ?thesis
      proof (cases "browse_key lib io_err key p")
        case (Inl e)
        then show ?thesis using run Browsing None browse_key_saves [of lib io_err key p c changes] ok by auto
      next
        case (Inr mp)
        obtain m p' where mp: "mp = (m, p')" by (cases mp)
        show ?thesis
          using ih(1) [OF Browsing None Inr mp [symmetric]] run Browsing None Inr mp browse_key_work [OF ok] by auto
      qed
    qed
  qed
qed auto

text \<open>Every change that is reported was edited: the reported text is the new one and differs from the saved one.\<close>

lemma pending_members:
  "(k, a, b) \<in> set (pending lib p) \<Longrightarrow> get_value lib (pn_saved p) k = Some a \<and> get_value lib (pn_work p) k = Some b \<and> a \<noteq> b"
  by (auto simp: pending_def List.map_filter_def split: option.splits if_splits)

text \<open>
  Whatever keys are pressed and lines typed, a configuration the panel saves has every setting in its documented range, and
  exactly the changed settings are handed on, with the values that were saved.
\<close>

theorem panel_saves_sane_config:
  assumes "run_panel lib io_err keys typed saved = Some (PanelSaved c changes)" "config_ok saved"
  shows "config_ok c \<and> changes \<noteq> [] \<and> (\<forall>k v. (k, v) \<in> set changes \<longrightarrow> get_value lib c k = Some v \<and> get_value lib saved k \<noteq> Some v)"
proof -
  obtain q where q: "config_ok c" "changes \<noteq> []" "pn_work q = c" "pn_saved q = saved" "changes = map (\<lambda>(k, _, b). (k, b)) (pending lib q)"
    using panel_loop_saves [of lib io_err keys typed Browsing "new_panel saved" c changes] assms
    by (auto simp: run_panel_def new_panel_def)
  then show ?thesis using pending_members [of _ _ _ lib q] by force
qed

theorem panel_saves_sane_config_witness:
  "\<exists>changes. run_panel exact_lib False [Some TRight, Some (TChar ''s'')] [] default_config
       = Some (PanelSaved (default_config\<lparr>c_role := Viewer\<rparr>) changes) \<and> config_ok (default_config\<lparr>c_role := Viewer\<rparr>)"
proof -
  let ?p = "(new_panel default_config)\<lparr>pn_work := default_config\<lparr>c_role := Viewer\<rparr>, pn_status := StNote ''role = viewer''\<rparr>"
  have len: "length ITEMS = length ITEM_ROWS" using items_keys(1) by (metis length_map)
  have it0: "it_key (ITEMS ! 0) = ''role''" "it_choices (ITEMS ! 0) = Some [''editor'', ''viewer'', ''archive'']"
  proof -
    have "0 < length ITEMS" by (simp add: len ITEM_ROWS_def)
    then have "it_key (ITEMS ! 0) = map it_key ITEMS ! 0" "it_choices (ITEMS ! 0) = map it_choices ITEMS ! 0" by simp_all
    then show "it_key (ITEMS ! 0) = ''role''" "it_choices (ITEMS ! 0) = Some [''editor'', ''viewer'', ''archive'']"
      by (simp_all only: items_keys) (simp_all add: ITEM_ROWS_def)
  qed
  have row: "row_at (new_panel default_config) = Some 0"
    by (simp add: row_at_def visible_def new_panel_def to_ascii_lowercase_def len ITEM_ROWS_def Let_def)
  have get: "get_value exact_lib c ''role'' = Some (role_str (c_role c))" for c by (simp add: get_value_def key_table_def)
  have set: "set_value exact_lib ''role'' ''viewer'' default_config = Ok (default_config\<lparr>c_role := Viewer\<rparr>, ''role = viewer'')"
    using role_parse_shown [of Viewer] by (simp add: set_value_def key_table_def and_then_def)
  have cyc: "cycle exact_lib 0 True (new_panel default_config) = ?p"
    using set by (simp add: cycle_def it0 get Let_def new_panel_def default_config_def panel_set_def)
  have pend: "pending exact_lib ?p \<noteq> []"
    unfolding pending_Nil_iff by (auto simp: new_panel_def default_config_def intro!: exI [of _ KRole])
  have "\<exists>changes. run_panel exact_lib False [Some TRight, Some (TChar ''s'')] [] default_config
       = Some (PanelSaved (default_config\<lparr>c_role := Viewer\<rparr>) changes)"
    using pend by (simp add: run_panel_def wants_line_def row it0 browse_key_def cyc Let_def)
  then show ?thesis using panel_saves_sane_config default_config_ok by blast
qed

section \<open>Beside a running daemon\<close>

text \<open>
  The configuration in the state file: another process left \<open>c\<close> there while the daemon was in the state \<open>b\<close>; the daemon goes on to
  \<open>b'\<close> and writes its own state whenever it persists.
\<close>

definition state_json :: "session_config \<Rightarrow> actor \<Rightarrow> actor \<Rightarrow> session_config" where
  "state_json c b b' = (if Persist \<in> set (drop (length (ac_out b)) (ac_out b')) then as_config (ac_state b') else c)"

lemma shutdown_persists: "Persist \<in> set (drop (length (ac_out b)) (ac_out (graceful_shutdown b)))"
proof -
  have grow: "\<exists>es. ac_out (fold (\<lambda>rel x. broadcast_all (LockRelease rel) (settle_mode rel x)) rels x) = ac_out x @ es" for rels x
  proof (induction rels arbitrary: x)
    case (Cons rel rels)
    have "\<exists>es. ac_out (broadcast_all (LockRelease rel) (settle_mode rel x)) = ac_out x @ es"
      by (simp add: broadcast_all_def settle_mode_def with_folder_def)
    then show ?case using Cons [of "broadcast_all (LockRelease rel) (settle_mode rel x)"] by auto
  qed simp
  then obtain es where "ac_out (fold (\<lambda>rel x. broadcast_all (LockRelease rel) (settle_mode rel x)) (self_held_paths (ac_locks b)) b) = ac_out b @ es"
    by blast
  then show ?thesis
    by (simp add: graceful_shutdown_def Let_def persist_def emit_def broadcast_all_def)
qed



text \<open>A download limit edited in the panel is offered to the daemon with a unit its parser refuses.\<close>

lemma download_limit_not_applied_live:
  assumes "c_max_down c = 2048"
  shows "get_value lib c ''max-down'' = Some ''2KB/s'' \<and> (\<exists>e. set_live_value lib ''max-down'' ''2KB/s'' c' = Inl e)"
proof -
  have "show_nat 2 = ''2''" by code_simp
  then have "fmt_size 2048 = ''2KB''" by (simp add: fmt_size_def)
  then have "get_value lib c ''max-down'' = Some ''2KB/s''" using assms by (simp add: get_value_def key_table_def)
  moreover have "parse_size ''2KB/s'' = Inl (InvalidSize ''2KB/s'')"
    by (simp add: parse_size_def trim_plain_ascii plain_ascii_def ascii_code_def to_ascii_lowercase_def to_ascii_lower_def
        is_ascii_upper_def size_suffix_def strip_suffix_def parse_unsigned_def is_ascii_digit_def)
  ultimately show ?thesis by (simp add: set_live_value_def live_keys_def set_value_def key_table_def and_then_def)
qed

section \<open>Choices, presets and the wizard\<close>

text \<open>Every value offered in place is accepted and shown again as it is.\<close>

lemma row_choices:
  "map (\<lambda>r. (map_of key_table (fst r), fst r = ''dashboard.port'', snd (snd r))) ITEM_ROWS =
     map (\<lambda>k. (Some k, False,
       if k = KRole then Some [''editor'', ''viewer'', ''archive'']
       else if k = KUpdateChannel then Some [''stable'', ''beta'']
       else if k \<in> {KStrict, KAutolock, KLan, KAirgap, KJunkFilter, KAudit, KHooks, KNotify} then Some [''on'', ''off''] else None)) item_kinds"
  by code_simp

lemma choices_accepted:
  assumes "it \<in> set ITEMS" "it_choices it = Some vs" "v \<in> set vs"
  shows "\<exists>c' note. set_value lib (it_key it) v c = Ok (c', note) \<and> get_value lib c' (it_key it) = Some v"
proof -
  have lower: "to_ascii_lowercase (trim ''stable'') = ''stable''" "to_ascii_lowercase (trim ''beta'') = ''beta''"
    by (simp_all add: trim_plain_ascii plain_ascii_def ascii_code_def to_ascii_lowercase_def to_ascii_lower_def is_ascii_upper_def)
  have roles: "role_parse ''editor'' = Ok Editor" "role_parse ''viewer'' = Ok Viewer" "role_parse ''archive'' = Ok Archive"
    using role_parse_shown [of Editor] role_parse_shown [of Viewer] role_parse_shown [of Archive] by simp_all
  have bools: "parse_on_off ''on'' = Ok True" "parse_on_off ''off'' = Ok False"
    using parse_on_off_shown [of True] parse_on_off_shown [of False] by (simp_all add: on_off_def)
  have "(it_key it, it_choices it) \<in> set (zip (map it_key ITEMS) (map it_choices ITEMS))"
    using assms(1) by (force simp: zip_map_map zip_same_conv_map)
  then have "(it_key it, it_choices it) \<in> set (map (\<lambda>r. (fst r, snd (snd r))) ITEM_ROWS)"
    unfolding items_keys by (simp add: zip_map_map zip_same_conv_map comp_def case_prod_beta)
  then have "(map_of key_table (it_key it), it_key it = ''dashboard.port'', it_choices it)
      \<in> set (map (\<lambda>r. (map_of key_table (fst r), fst r = ''dashboard.port'', snd (snd r))) ITEM_ROWS)" by force
  then obtain k where k: "map_of key_table (it_key it) = Some k" "it_key it \<noteq> ''dashboard.port''"
    and ch: "it_choices it = (if k = KRole then Some [''editor'', ''viewer'', ''archive'']
       else if k = KUpdateChannel then Some [''stable'', ''beta'']
       else if k \<in> {KStrict, KAutolock, KLan, KAirgap, KJunkFilter, KAudit, KHooks, KNotify} then Some [''on'', ''off''] else None)"
    unfolding row_choices by auto
  have "case set_key lib k v c of Inl _ \<Rightarrow> False | Inr (c', note) \<Rightarrow> get_key lib c' k = v"
    using assms(2,3) ch
    by (auto simp: set_bool_def and_then_def roles bools lower on_off_def Let_def split: if_splits)
  then show ?thesis using k by (auto simp: set_value_def get_value_def split: sum.splits)
qed

text \<open>Accepting every default of the wizard leaves a fresh session as it is.\<close>

lemma wizard_defaults_change_nothing:
  "\<exists>notes. run_init_wizard lib [Some 0, Some 0, Some 0] default_config = Ok (default_config, notes)"
proof -
  have role: "role_parse ''editor'' = Ok Editor" using role_parse_shown [of Editor] by simp
  have bools: "parse_on_off ''on'' = Ok True" "parse_on_off ''off'' = Ok False"
    using parse_on_off_shown [of True] parse_on_off_shown [of False] by (simp_all add: on_off_def)
  have relay: "relay_parse lib ''default'' = Ok RelayDefault"
    by (simp add: relay_parse_def trim_plain_ascii plain_ascii_def ascii_code_def)
  show ?thesis
    by (simp add: run_init_wizard_def QUESTIONS_def set_value_def key_table_def and_then_def set_bool_def role bools relay Let_def)
      (simp add: default_config_def)
qed

end
