(* ===== verification/LogFile.thy ===== *)
theory LogFile
  imports Ignore AuditProps "HOL-Library.Countable"
begin

text \<open>
  The line-capped log behind the daemon log and the audit log (\<^verbatim>\<open>LineCappedLog\<close> in \<^verbatim>\<open>src/service.rs\<close>), the writer and the
  reader of the audit log (\<^verbatim>\<open>src/audit.rs\<close>).  The file is its bytes; how far a write gets and where a trim fails are arguments.
\<close>

section \<open>The capped log\<close>

record capped_log =
  lf_max_lines :: nat
  lf_open :: bool
  lf_lines :: nat
  lf_file :: string

definition LOG_TRIM_SLACK_DIV :: nat where "LOG_TRIM_SLACK_DIV = 5"

definition open_at :: "string \<Rightarrow> nat \<Rightarrow> capped_log" where
  "open_at content max_lines =
     \<lparr>lf_max_lines = max max_lines 1, lf_open = True,
      lf_lines = (if utf8_ok content then length (text_lines content) else 0), lf_file = content\<rparr>"

definition unlines :: "string list \<Rightarrow> string" where
  "unlines ls = concat (map (\<lambda>l. l @ [CHR 0x0A]) ls)"

text \<open>Where a trim ends: writing the temporary file, renaming it and opening the new file can each fail.\<close>

datatype trim_io = TrimWriteFails | TrimRenameFails | TrimReopenFails | TrimOk

definition log_trim :: "trim_io \<Rightarrow> capped_log \<Rightarrow> bool \<times> capped_log" where
  "log_trim io lg =
     (let content = (if utf8_ok (lf_file lg) then lf_file lg else []);
          lines' = text_lines content;
          kept = drop (length lines' - lf_max_lines lg) lines';
          closed = lg\<lparr>lf_open := False\<rparr>
      in case io of
           TrimWriteFails \<Rightarrow> (False, closed)
         | TrimRenameFails \<Rightarrow> (False, closed)
         | TrimReopenFails \<Rightarrow> (False, closed\<lparr>lf_file := unlines kept\<rparr>)
         | TrimOk \<Rightarrow> (True, lg\<lparr>lf_file := unlines kept, lf_lines := length kept\<rparr>))"

definition line_ceiling :: "capped_log \<Rightarrow> nat" where
  "line_ceiling lg = lf_max_lines lg + lf_max_lines lg div LOG_TRIM_SLACK_DIV"

text \<open>One \<^verbatim>\<open>write\<close>: None is an error; \<open>n\<close> is how many bytes the system takes, None when it fails.\<close>

definition log_write :: "nat option \<Rightarrow> trim_io \<Rightarrow> string \<Rightarrow> capped_log \<Rightarrow> nat option \<times> capped_log" where
  "log_write n io buf lg =
     (if \<not> lf_open lg then (None, lg)
      else case n of
        None \<Rightarrow> (None, lg)
      | Some k \<Rightarrow>
          let taken = take k buf;
              lg1 = lg\<lparr>lf_file := lf_file lg @ taken, lf_lines := lf_lines lg + length (filter (\<lambda>b. b = CHR 0x0A) taken)\<rparr>
          in if lf_lines lg1 > line_ceiling lg1
             then (case log_trim io lg1 of (ok, lg2) \<Rightarrow> (if ok then Some (length taken) else None, lg2))
             else (Some (length taken), lg1))"

text \<open>\<^verbatim>\<open>write_all\<close>: short writes go on with the rest; a write of nothing is an error.\<close>

fun log_write_all :: "(nat option \<times> trim_io) list \<Rightarrow> string \<Rightarrow> capped_log \<Rightarrow> bool \<times> capped_log" where
  "log_write_all ios [] lg = (True, lg)"
| "log_write_all [] buf lg = (False, lg)"
| "log_write_all ((n, io) # ios) buf lg =
     (case log_write n io buf lg of
        (None, lg') \<Rightarrow> (False, lg')
      | (Some k, lg') \<Rightarrow> if k = 0 then (False, lg') else log_write_all ios (drop k buf) lg')"

section \<open>The audit log\<close>

definition AUDIT_MAX_LINES :: nat where "AUDIT_MAX_LINES = 50000"

text \<open>An event is written as its line and then the newline; the daemon drops errors, the flag tells of them.  \<open>ser\<close> gives the JSON text.\<close>

definition put_line :: "(nat option \<times> trim_io) list \<Rightarrow> (nat option \<times> trim_io) list \<Rightarrow> string \<Rightarrow> capped_log \<Rightarrow> bool \<times> capped_log" where
  "put_line ios1 ios2 line lg =
     (case log_write_all ios1 line lg of
        (False, lg') \<Rightarrow> (False, lg')
      | (True, lg') \<Rightarrow> log_write_all ios2 [CHR 0x0A] lg')"

definition audit_emit ::
  "(audit_event \<Rightarrow> string option) \<Rightarrow> (nat option \<times> trim_io) list \<Rightarrow> (nat option \<times> trim_io) list \<Rightarrow> audit_event \<Rightarrow> capped_log \<Rightarrow> bool \<times> capped_log" where
  "audit_emit ser ios1 ios2 e lg =
     (case ser e of None \<Rightarrow> (False, lg) | Some line \<Rightarrow> put_line ios1 ios2 line lg)"

text \<open>Reading: \<open>lossy\<close> is the lossy decoding of the bytes.\<close>

definition audit_read ::
  "(string \<Rightarrow> string) \<Rightarrow> (string \<Rightarrow> audit_event option) \<Rightarrow> audit_filter \<Rightarrow> string option \<Rightarrow> audit_event list" where
  "audit_read lossy parse f file =
     (case file of
        None \<Rightarrow> []
      | Some content \<Rightarrow> filter (filter_matches f) (List.map_filter parse (text_lines (lossy content))))"

definition end_offset :: "string option \<Rightarrow> nat" where
  "end_offset file = (case file of None \<Rightarrow> 0 | Some content \<Rightarrow> length content)"

definition log_tail :: "string option \<Rightarrow> nat \<Rightarrow> string list option" where
  "log_tail file n =
     (case file of
        None \<Rightarrow> None
      | Some content \<Rightarrow>
          if utf8_ok content then (let lines' = text_lines content in Some (drop (length lines' - n) lines')) else None)"

section \<open>The log holds the newest lines\<close>

text \<open>A text that is one line of a log: valid, without a newline, and not ending in a carriage return.\<close>

definition log_line :: "string \<Rightarrow> bool" where
  "log_line l \<longleftrightarrow> utf8_ok l \<and> CHR 0x0A \<notin> set l \<and> \<not> ends_with l [CHR 0x0D]"

lemma unlines_snoc: "unlines (ls @ [l]) = unlines ls @ l @ [CHR 0x0A]"
  by (simp add: unlines_def)

lemma split_inclusive_line: "CHR 0x0A \<notin> set l \<Longrightarrow> split_inclusive (l @ CHR 0x0A # s) = (l @ [CHR 0x0A]) # split_inclusive s"
  by (induction l) auto

lemma text_lines_unlines: "\<forall>l \<in> set ls. log_line l \<Longrightarrow> text_lines (unlines ls) = ls"
proof (induction ls)
  case (Cons l ls)
  have "text_lines (unlines (l # ls)) = drop_cr l # text_lines (unlines ls)"
    using Cons.prems split_inclusive_line [of l "unlines ls"] by (simp add: text_lines_def unlines_def log_line_def)
  moreover have "drop_cr l = l" using Cons.prems by (auto simp: drop_cr_def log_line_def ends_with_def split: option.splits)
  ultimately show ?case using Cons by simp
qed (simp add: unlines_def text_lines_def)

lemma utf8_unlines: "\<forall>l \<in> set ls. log_line l \<Longrightarrow> utf8_ok (unlines ls)"
proof (induction ls)
  case (Cons l ls)
  have "utf8_ok [CHR 0x0A]" by (simp add: in_range_def ascii_code_def)
  then have "utf8_ok (l @ [CHR 0x0A])" using Cons.prems utf8_append [of l "[CHR 0x0A]"] by (simp add: log_line_def)
  then show ?case using Cons utf8_append [of "l @ [CHR 0x0A]" "unlines ls"] by (simp add: unlines_def)
qed (simp add: unlines_def)

definition log_holds :: "string list \<Rightarrow> capped_log \<Rightarrow> bool" where
  "log_holds ls lg \<longleftrightarrow> lf_open lg \<and> 0 < lf_max_lines lg \<and> (\<forall>l \<in> set ls. log_line l)
     \<and> (\<exists>n. n \<le> length ls \<and> lf_file lg = unlines (drop n ls) \<and> lf_lines lg = length ls - n
          \<and> (n = 0 \<or> lf_max_lines lg \<le> length ls - n) \<and> length ls - n \<le> line_ceiling lg)"

lemma log_write_plain:
  assumes "CHR 0x0A \<notin> set buf" "lf_lines lg \<le> line_ceiling lg" "log_write n io buf lg = (Some k, lg')"
  shows "lg' = lg\<lparr>lf_file := lf_file lg @ take k buf\<rparr> \<and> k \<le> length buf"
proof -
  have "filter (\<lambda>b. b = CHR 0x0A) (take j buf) = []" for j
    using assms(1) by (auto simp: filter_empty_conv dest: in_set_takeD)
  then show ?thesis using assms(2,3)
    by (auto simp: log_write_def Let_def line_ceiling_def min_def split: if_splits option.splits)
qed

lemma write_all_plain:
  assumes "CHR 0x0A \<notin> set buf" "lf_lines lg \<le> line_ceiling lg" "log_write_all ios buf lg = (True, lg')"
  shows "lg' = lg\<lparr>lf_file := lf_file lg @ buf\<rparr>"
  using assms
proof (induction ios buf lg rule: log_write_all.induct)
  case (3 n io ios c buf lg)
  obtain k lg1 where w: "log_write n io (c # buf) lg = (Some k, lg1)" "k \<noteq> 0" "log_write_all ios (drop k (c # buf)) lg1 = (True, lg')"
    using "3.prems"(3) by (auto split: prod.splits option.splits if_splits)
  have lg1: "lg1 = lg\<lparr>lf_file := lf_file lg @ take k (c # buf)\<rparr>"
    using log_write_plain [OF "3.prems"(1,2) w(1)] by blast
  have "CHR 0x0A \<notin> set (drop k (c # buf))" using "3.prems"(1) by (meson in_set_dropD)
  moreover have "lf_lines lg1 \<le> line_ceiling lg1" using "3.prems"(2) lg1 by (simp add: line_ceiling_def)
  ultimately have "lg' = lg1\<lparr>lf_file := lf_file lg1 @ drop k (c # buf)\<rparr>"
    using "3.IH" [OF w(1) [symmetric]] w(2,3) by simp
  then show ?case using lg1 by simp
qed simp_all

lemma write_newline:
  assumes "log_write_all ios [CHR 0x0A] lg = (True, lg')"
  shows "lf_open lg \<and> (let lg1 = lg\<lparr>lf_file := lf_file lg @ [CHR 0x0A], lf_lines := Suc (lf_lines lg)\<rparr> in
    lg' = (if lf_lines lg1 > line_ceiling lg1 then snd (log_trim TrimOk lg1) else lg1))"
proof -
  obtain n io rest where ios: "ios = (n, io) # rest" using assms by (cases ios) auto
  obtain k lg1 where w: "log_write n io [CHR 0x0A] lg = (Some k, lg1)" "k \<noteq> 0" "log_write_all rest (drop k [CHR 0x0A]) lg1 = (True, lg')"
    using assms ios by (auto split: prod.splits option.splits if_splits)
  obtain j where j: "n = Some j" "lf_open lg" using w(1) by (auto simp: log_write_def split: if_splits option.splits)
  have "j \<noteq> 0" using w(1,2) j by (cases j) (auto simp: log_write_def Let_def log_trim_def split: if_splits trim_io.splits)
  then have tk: "take j [CHR 0x0A] = [CHR 0x0A]" by (cases j) auto
  have "k = 1" using w(1) j tk by (auto simp: log_write_def Let_def log_trim_def split: if_splits trim_io.splits)
  then have "lg' = lg1" using w(3) by simp
  then show ?thesis using w(1) j tk
    by (auto simp: log_write_def Let_def log_trim_def split: if_splits trim_io.splits)
qed

lemma log_holds_put:
  assumes "log_holds ls lg" "log_line l" "put_line ios1 ios2 l lg = (True, lg')"
  shows "log_holds (ls @ [l]) lg' \<and> lf_max_lines lg' = lf_max_lines lg"
proof -
  obtain n where n: "n \<le> length ls" "lf_file lg = unlines (drop n ls)" "lf_lines lg = length ls - n"
    "n = 0 \<or> lf_max_lines lg \<le> length ls - n" "length ls - n \<le> line_ceiling lg"
    using assms(1) by (auto simp: log_holds_def)
  obtain lg0 where p: "log_write_all ios1 l lg = (True, lg0)" "log_write_all ios2 [CHR 0x0A] lg0 = (True, lg')"
    using assms(3) by (auto simp: put_line_def split: prod.splits bool.splits)
  have lg0: "lg0 = lg\<lparr>lf_file := lf_file lg @ l\<rparr>"
    using write_all_plain [OF _ _ p(1)] assms(2) n by (simp add: log_line_def)
  let ?lg1 = "lg\<lparr>lf_file := unlines (drop n (ls @ [l])), lf_lines := Suc (lf_lines lg)\<rparr>"
  have whole: "lf_file lg @ l @ [CHR 0x0A] = unlines (drop n (ls @ [l]))" using n(1,2) by (simp add: unlines_snoc)
  have lg': "lg' = (if Suc (lf_lines lg) > line_ceiling lg then snd (log_trim TrimOk ?lg1) else ?lg1)"
    using write_newline [OF p(2)] lg0 whole by (simp add: Let_def line_ceiling_def)
  have lines: "\<forall>x \<in> set (ls @ [l]). log_line x" and opened: "lf_open lg" "0 < lf_max_lines lg"
    using assms(1,2) by (auto simp: log_holds_def)
  then have dl: "\<forall>x \<in> set (drop n (ls @ [l])). log_line x" by (meson in_set_dropD)
  show ?thesis
  proof (cases "Suc (lf_lines lg) > line_ceiling lg")
    case False
    then show ?thesis
      using lg' n opened lines by (auto simp: log_holds_def line_ceiling_def Suc_diff_le intro!: exI [of _ n])
  next
    case True
    define k where "k = Suc (length ls) - lf_max_lines lg"
    have len: "lf_max_lines lg \<le> Suc (length ls - n)" using True n(3) by (simp add: line_ceiling_def)
    then have k: "k \<le> Suc (length ls)" "n \<le> k" "Suc (length ls) - k = lf_max_lines lg"
      using n(1) by (auto simp: k_def)
    have "drop (length (drop n (ls @ [l])) - lf_max_lines lg) (drop n (ls @ [l])) = drop k (ls @ [l])"
      using n(1) len by (simp add: k_def)
    then have t: "lg' = lg\<lparr>lf_file := unlines (drop k (ls @ [l])), lf_lines := lf_max_lines lg\<rparr>"
      using lg' True k utf8_unlines [OF dl] text_lines_unlines [OF dl] by (simp add: log_trim_def Let_def)
    show ?thesis
      using t k opened lines by (auto simp: log_holds_def line_ceiling_def intro!: exI [of _ k])
  qed
qed

fun emit_all ::
  "(audit_event \<Rightarrow> string option) \<Rightarrow> ((nat option \<times> trim_io) list \<times> (nat option \<times> trim_io) list \<times> audit_event) list
     \<Rightarrow> capped_log \<Rightarrow> bool \<times> capped_log" where
  "emit_all ser [] lg = (True, lg)"
| "emit_all ser ((ios1, ios2, e) # ws) lg =
     (case audit_emit ser ios1 ios2 e lg of (ok, lg1) \<Rightarrow> (case emit_all ser ws lg1 of (ok', lg2) \<Rightarrow> (ok \<and> ok', lg2)))"

text \<open>What is relied on of the JSON library: every event has a one-line text, which parses back.\<close>

definition json_lines :: "(audit_event \<Rightarrow> string option) \<Rightarrow> (string \<Rightarrow> audit_event option) \<Rightarrow> bool" where
  "json_lines ser parse \<longleftrightarrow> (\<forall>e. \<exists>l. ser e = Some l \<and> log_line l \<and> parse l = Some e)"

lemma emit_all_holds:
  assumes "json_lines ser parse" "log_holds (map (the \<circ> ser) es) lg" "emit_all ser ws lg = (True, lg')"
  shows "log_holds (map (the \<circ> ser) (es @ map (snd \<circ> snd) ws)) lg' \<and> lf_max_lines lg' = lf_max_lines lg"
  using assms(2,3)
proof (induction ws arbitrary: es lg)
  case (Cons w ws)
  obtain ios1 ios2 e where w: "w = (ios1, ios2, e)" by (cases w)
  obtain l where l: "ser e = Some l" "log_line l" using assms(1) by (auto simp: json_lines_def)
  obtain lg1 where 1: "put_line ios1 ios2 l lg = (True, lg1)" "emit_all ser ws lg1 = (True, lg')"
    using Cons.prems(2) by (auto simp: w audit_emit_def l split: prod.splits)
  have step: "log_holds (map (the \<circ> ser) (es @ [e])) lg1" "lf_max_lines lg1 = lf_max_lines lg"
    using log_holds_put [OF Cons.prems(1) l(2) 1(1)] by (simp_all add: l(1) comp_def)
  show ?case using Cons.IH [OF step(1) 1(2)] step(2) by (simp add: w)
qed simp

lemma parse_all: "json_lines ser parse \<Longrightarrow> List.map_filter parse (map (the \<circ> ser) es) = es"
proof (induction es)
  case (Cons e es)
  obtain l where "ser e = Some l" "parse l = Some e" using Cons.prems by (auto simp: json_lines_def)
  then show ?case using Cons by (simp add: List.map_filter_simps)
qed (simp add: List.map_filter_simps)

text \<open>
  C20. The audit trail is bounded and loses nothing recent: after any number of written events, with any short writes, a read
  returns, in order, all events that pass the filter among the newest of them, at least the last 50,000 and at most 60,000.
\<close>

theorem audit_trail_keeps_newest:
  assumes "json_lines ser parse" "\<And>s. utf8_ok s \<Longrightarrow> lossy s = s"
    and "emit_all ser ws (open_at [] AUDIT_MAX_LINES) = (True, lg)"
  shows "\<exists>n. audit_read lossy parse f (Some (lf_file lg)) = filter (filter_matches f) (drop n (map (snd \<circ> snd) ws))
    \<and> (n = 0 \<or> 50000 \<le> length ws - n) \<and> length ws - n \<le> 60000"
proof -
  let ?lg0 = "open_at [] AUDIT_MAX_LINES" and ?es = "map (snd \<circ> snd) ws"
  have "log_holds (map (the \<circ> ser) []) ?lg0"
    by (simp add: log_holds_def open_at_def unlines_def text_lines_def AUDIT_MAX_LINES_def)
  then have h: "log_holds (map (the \<circ> ser) ?es) lg" "lf_max_lines lg = 50000"
    using emit_all_holds [OF assms(1) _ assms(3), of "[]"] by (simp_all add: open_at_def AUDIT_MAX_LINES_def)
  then obtain n where n: "lf_file lg = unlines (map (the \<circ> ser) (drop n ?es))" "n = 0 \<or> 50000 \<le> length ws - n" "length ws - n \<le> 60000"
    by (auto simp: log_holds_def drop_map line_ceiling_def LOG_TRIM_SLACK_DIV_def)
  have "\<forall>l \<in> set (map (the \<circ> ser) (drop n ?es)). log_line l"
    using assms(1) unfolding json_lines_def by (metis (mono_tags, lifting) ex_map_conv comp_apply option.sel)
  then have "text_lines (lossy (lf_file lg)) = map (the \<circ> ser) (drop n ?es)"
    using assms(2) utf8_unlines text_lines_unlines n(1) by metis
  then show ?thesis using n parse_all [OF assms(1)] by (auto simp: audit_read_def)
qed

text \<open>A concrete text for every event: the number of the event, in decimal.\<close>

definition number_ser :: "audit_event \<Rightarrow> string option" where
  "number_ser e = Some (show_nat (to_nat (ae_ts_ms e, ae_kind e, ae_path e, ae_peer e, ae_detail e)))"

definition number_parse :: "string \<Rightarrow> audit_event option" where
  "number_parse l = map_option (\<lambda>n. case from_nat n of (t, k, p, q, d) \<Rightarrow>
     \<lparr>ae_ts_ms = t, ae_kind = k, ae_path = p, ae_peer = q, ae_detail = d\<rparr>) (digits_value 0 l)"

lemma show_nat_line: "log_line (show_nat n)"
proof -
  have ascii: "\<forall>c \<in> set s. in_range 0 0x7F c \<Longrightarrow> utf8_ok s" for s
  proof (induction s)
    case (Cons c s)
    then show ?case using utf8_char_step [of "[c]" s] by simp
  qed simp
  have digits: "\<forall>c \<in> set (show_nat n). 48 \<le> ascii_code c \<and> ascii_code c \<le> 57" using show_nat_letter by blast
  then have "\<forall>c \<in> set (show_nat n). in_range 0 0x7F c" by (force simp: in_range_def)
  moreover have "CHR 0x0A \<notin> set (show_nat n)" "CHR 0x0D \<notin> set (show_nat n)" using digits by (force simp: ascii_code_def)+
  ultimately show ?thesis using ascii by (auto simp: log_line_def ends_with_iff)
qed

lemma number_json: "json_lines number_ser number_parse"
  using show_nat_line by (auto simp: json_lines_def number_ser_def number_parse_def)

definition demo_event :: audit_event where
  "demo_event = \<lparr>ae_ts_ms = 7, ae_kind = ''lock'', ae_path = None, ae_peer = None, ae_detail = None\<rparr>"

definition any_event :: audit_filter where
  "any_event = \<lparr>af_path = None, af_peer = None, af_since_ms = None, af_kinds = []\<rparr>"

theorem audit_trail_keeps_newest_witness:
  "\<exists>lg. emit_all number_ser [([(Some (length (the (number_ser demo_event))), TrimOk)], [(Some 1, TrimOk)], demo_event)]
       (open_at [] AUDIT_MAX_LINES) = (True, lg)
     \<and> audit_read id number_parse any_event (Some (lf_file lg)) = [demo_event]"
proof -
  let ?ws = "[([(Some (length (the (number_ser demo_event))), TrimOk)], [(Some 1, TrimOk)], demo_event)]"
  obtain c l where l: "the (number_ser demo_event) = c # l" "number_ser demo_event = Some (c # l)" "CHR 0x0A \<notin> set (c # l)"
    using number_json by (cases "the (number_ser demo_event)") (auto simp: json_lines_def number_ser_def log_line_def dest: spec [of _ demo_event])
  have nl: "filter (\<lambda>b. b = CHR 0x0A) (c # l) = []" using l(3) by (auto simp: filter_empty_conv)
  have "\<exists>lg. emit_all number_ser ?ws (open_at [] AUDIT_MAX_LINES) = (True, lg)"
    using nl by (simp add: l audit_emit_def put_line_def log_write_def open_at_def text_lines_def line_ceiling_def AUDIT_MAX_LINES_def Let_def del: filter.simps)
  then obtain lg where lg: "emit_all number_ser ?ws (open_at [] AUDIT_MAX_LINES) = (True, lg)" by blast
  obtain n where "audit_read id number_parse any_event (Some (lf_file lg)) = filter (filter_matches any_event) (drop n [demo_event])"
    "n = 0 \<or> 50000 \<le> length ?ws - n"
    using audit_trail_keeps_newest [OF number_json _ lg, of id any_event] by auto
  then have "audit_read id number_parse any_event (Some (lf_file lg)) = [demo_event]"
    by (auto simp: filter_matches_def any_event_def)
  with lg show ?thesis by blast
qed

section \<open>What can be lost\<close>

text \<open>One byte that is not valid text, left by a write that was cut, and the next trim empties the whole log.\<close>

lemma torn_byte_empties_log:
  assumes "\<not> utf8_ok (lf_file lg)"
  shows "log_trim TrimOk lg = (True, lg\<lparr>lf_file := [], lf_lines := 0\<rparr>)"
  using assms by (simp add: log_trim_def unlines_def text_lines_def)

text \<open>A trim that fails closes the log for good: every later write is an error.\<close>

lemma failed_trim_closes_log:
  assumes "log_trim io lg = (False, lg')"
  shows "log_write n io' buf lg' = (None, lg')"
  using assms by (cases io) (auto simp: log_trim_def log_write_def Let_def)

text \<open>A follower whose log was trimmed does not start again: it skips to the end.\<close>

lemma follower_skips_after_trim: "length content < pos \<Longrightarrow> read_since_offset parse f (Some content) pos = ([], length content)"
  by (simp add: read_since_offset_def)

end
