(* ===== verification/Platform.thy ===== *)
theory Platform
  imports Guided Complex_Main
begin

text \<open>
  The edges towards the operating system: Windows paths and retries (\<^verbatim>\<open>src/win_fs.rs\<close>), the mapping of watcher events
  (\<^verbatim>\<open>src/watcher.rs\<close>), service definitions (\<^verbatim>\<open>src/service.rs\<close>), hooks (\<^verbatim>\<open>src/hooks.rs\<close>), notifications
  (\<^verbatim>\<open>src/notify.rs\<close>) and the verdicts of the diagnostics (\<^verbatim>\<open>src/doctor.rs\<close>).  System calls are arguments: the list of their
  outcomes, or a predicate on paths.
\<close>

section \<open>Windows paths\<close>

definition BSL :: char where "BSL = CHR 0x5C"

definition extended_form :: "string \<Rightarrow> string option" where
  "extended_form s =
     (if starts_with s [BSL, BSL, CHR ''?'', BSL] \<or> starts_with s [BSL, BSL, CHR ''.'', BSL] then None
      else
        let t = map (\<lambda>c. if c = CHR ''/'' then BSL else c) s in
        if length t \<ge> 3 \<and> is_ascii_alphabetic (t ! 0) \<and> t ! 1 = CHR '':'' \<and> t ! 2 = BSL
        then Some ([BSL, BSL, CHR ''?'', BSL] @ t)
        else case strip_prefix [BSL, BSL] t of
          Some rest \<Rightarrow>
            if rest \<noteq> [] \<and> \<not> starts_with rest [BSL] then Some ([BSL, BSL, CHR ''?'', BSL] @ ''UNC'' @ [BSL] @ rest) else None
        | None \<Rightarrow> None)"

definition to_extended :: "bool \<Rightarrow> string \<Rightarrow> string" where
  "to_extended windows p = (if windows then unwrap_or p (extended_form p) else p)"

section \<open>Retries\<close>

definition RETRY_ATTEMPTS :: nat where "RETRY_ATTEMPTS = 6"

definition backoff_delay :: "nat \<Rightarrow> duration" where
  "backoff_delay attempt =
     (let base_ms = 50 * 2 ^ min (attempt - 1) 5; jitter = base_ms div 5 in
      from_millis (if attempt mod 3 = 0 then base_ms - jitter else if attempt mod 3 = 1 then base_ms + jitter else base_ms))"

datatype io_fail = IoFail "int option" bool

definition is_retryable_code :: "int \<Rightarrow> bool" where
  "is_retryable_code code \<longleftrightarrow> code = 32 \<or> code = 5"

fun should_retry :: "bool \<Rightarrow> io_fail \<Rightarrow> bool" where
  "should_retry windows (IoFail code _) \<longleftrightarrow> windows \<and> is_some_and is_retryable_code code"

text \<open>
  The loop, over the outcomes of the operation in the order it is tried; the result with the sleeps in between.  None when the list
  runs out before the loop ends.
\<close>

fun with_retry :: "bool \<Rightarrow> nat \<Rightarrow> (io_fail + 'v) list \<Rightarrow> ((io_fail + 'v) \<times> duration list) option" where
  "with_retry windows attempt [] = None"
| "with_retry windows attempt (r # rs) =
     (case r of
        Inr v \<Rightarrow> Some (Inr v, [])
      | Inl e \<Rightarrow>
          if attempt < RETRY_ATTEMPTS \<and> should_retry windows e
          then map_option (\<lambda>(res, ds). (res, backoff_delay attempt # ds)) (with_retry windows (Suc attempt) rs)
          else Some (Inl e, []))"

text \<open>A missing file counts as removed; the flag of the failure says that the file was not found.\<close>

definition remove_file_retry :: "bool \<Rightarrow> (io_fail + unit) list \<Rightarrow> ((io_fail + unit) \<times> duration list) option" where
  "remove_file_retry windows rs =
     with_retry windows 1 (map (\<lambda>r. case r of Inl (IoFail _ True) \<Rightarrow> Inr () | _ \<Rightarrow> r) rs)"

text \<open>\<^verbatim>\<open>persist_temp\<close> repeats the loop for the rename over the destination.\<close>

definition persist_temp :: "bool \<Rightarrow> (io_fail + unit) list \<Rightarrow> ((io_fail + unit) \<times> duration list) option" where
  "persist_temp windows rs = with_retry windows 1 rs"

section \<open>The watcher\<close>

datatype path_comp = CPrefix string | CRoot | CCur | CParent | CNormal string

type_synonym os_path = "path_comp list"

datatype watch_kind = Created | Modified | Removed

datatype raw_kind = RawCreate | RawRemove | RawModify | RawAny | RawOther | RawAccess

definition contains_meta :: "os_path \<Rightarrow> bool" where
  "contains_meta p = list_ex (\<lambda>c. case c of CNormal seg \<Rightarrow> eq_ignore_ascii_case seg META_DIR | _ \<Rightarrow> False) p"

fun normal_parts :: "(string \<Rightarrow> bool) \<Rightarrow> os_path \<Rightarrow> string list option" where
  "normal_parts is_text [] = Some []"
| "normal_parts is_text (CNormal seg # p) = (if is_text seg then map_option ((#) seg) (normal_parts is_text p) else None)"
| "normal_parts is_text (_ # p) = None"

text \<open>\<open>is_text\<close>: the name is valid Unicode.\<close>

definition to_rel :: "(string \<Rightarrow> bool) \<Rightarrow> os_path list \<Rightarrow> os_path \<Rightarrow> relpath option" where
  "to_rel is_text roots p =
     (case find_map (\<lambda>root. strip_prefix root p) roots of
        None \<Rightarrow> None
      | Some rel \<Rightarrow>
          (case normal_parts is_text rel of
             None \<Rightarrow> None
           | Some parts \<Rightarrow>
               if parts = [] then None
               else case sanitize_rel_path (join_with ''/'' parts) of Inl _ \<Rightarrow> None | Inr r \<Rightarrow> Some r))"

definition watch_kind_of :: "raw_kind \<Rightarrow> watch_kind option" where
  "watch_kind_of k =
     (case k of
        RawCreate \<Rightarrow> Some Created
      | RawRemove \<Rightarrow> Some Removed
      | RawModify \<Rightarrow> Some Modified
      | RawAny \<Rightarrow> Some Modified
      | RawOther \<Rightarrow> Some Modified
      | RawAccess \<Rightarrow> None)"

definition watch_path ::
  "(string \<Rightarrow> bool) \<Rightarrow> (os_path \<Rightarrow> bool) \<Rightarrow> (os_path \<Rightarrow> bool) \<Rightarrow> os_path list \<Rightarrow> watch_kind \<Rightarrow> os_path \<Rightarrow> (watch_kind \<times> relpath) option" where
  "watch_path is_text is_dir is_file roots kind p =
     (if contains_meta p \<or> is_dir p then None
      else case to_rel is_text roots p of
        None \<Rightarrow> None
      | Some rel \<Rightarrow> Some (if kind = Removed \<and> is_file p then Modified else kind, rel))"

definition watch_events ::
  "(string \<Rightarrow> bool) \<Rightarrow> (os_path \<Rightarrow> bool) \<Rightarrow> (os_path \<Rightarrow> bool) \<Rightarrow> os_path list \<Rightarrow> (raw_kind \<times> os_path list) list \<Rightarrow> (watch_kind \<times> relpath) list" where
  "watch_events is_text is_dir is_file roots evs =
     concat (map (\<lambda>(k, paths).
       (case watch_kind_of k of
          None \<Rightarrow> []
        | Some kind \<Rightarrow> List.map_filter (watch_path is_text is_dir is_file roots kind) paths)) evs)"

section \<open>Service definitions\<close>

definition NL :: string where "NL = [CHR 0x0A]"
definition QUOTE :: string where "QUOTE = [CHR 0x22]"

definition systemd_unit :: "string \<Rightarrow> string \<Rightarrow> string" where
  "systemd_unit exe dir =
     ''[Unit]'' @ NL
     @ ''Description=tazamun sync daemon ('' @ dir @ '')'' @ NL
     @ ''After=network.target'' @ NL
     @ ''StartLimitIntervalSec=60'' @ NL
     @ ''StartLimitBurst=3'' @ NL
     @ NL
     @ ''[Service]'' @ NL
     @ ''ExecStart='' @ QUOTE @ exe @ QUOTE @ '' start --dir '' @ QUOTE @ dir @ QUOTE @ '' --log-file'' @ NL
     @ ''Restart=on-failure'' @ NL
     @ ''RestartSec=5'' @ NL
     @ NL
     @ ''[Install]'' @ NL
     @ ''WantedBy=default.target'' @ NL"

text \<open>A single-quoted PowerShell literal: quotes inside are doubled.\<close>

definition SQ :: char where "SQ = CHR 0x27"

definition ps_lit :: "string \<Rightarrow> string" where
  "ps_lit s = [SQ] @ concat (map (\<lambda>c. if c = SQ then [SQ, SQ] else [c]) s) @ [SQ]"

section \<open>Hooks and notifications\<close>

definition hook_for :: "string \<Rightarrow> string option" where
  "hook_for kind =
     (if kind = ''pull-applied'' then Some ''on-sync''
      else if kind = ''quarantine'' then Some ''on-conflict''
      else if kind = ''lock-denied'' then Some ''on-lock-denied''
      else if kind = ''peer-offline'' then Some ''on-peer-offline''
      else None)"

definition notify_title :: "string \<Rightarrow> string option" where
  "notify_title kind =
     (if kind = ''quarantine'' then Some ''tazamun: conflict preserved''
      else if kind = ''peer-offline-held'' then Some ''tazamun: peer offline mid-lease''
      else if kind = ''update-available'' then Some ''tazamun: update available''
      else None)"

text \<open>Waiting for the child: each round sees its state (None: the query fails, Some True: it has ended) and the clock.\<close>

datatype hook_end = HookExited | HookKilled | HookLost

fun hook_loop :: "instant \<Rightarrow> (bool option \<times> instant) list \<Rightarrow> hook_end option" where
  "hook_loop deadline [] = None"
| "hook_loop deadline ((st, now) # rounds) =
     (case st of
        None \<Rightarrow> Some HookLost
      | Some True \<Rightarrow> Some HookExited
      | Some False \<Rightarrow> if deadline \<le> now then Some HookKilled else hook_loop deadline rounds)"

section \<open>Diagnostics\<close>

datatype doc_verdict = DOk | DWarn | DFail

fun rank :: "doc_verdict \<Rightarrow> nat" where
  "rank DOk = 0"
| "rank DWarn = 1"
| "rank DFail = 2"

definition max_with :: "doc_verdict \<Rightarrow> doc_verdict \<Rightarrow> doc_verdict" where
  "max_with a b = (if rank b > rank a then b else a)"

text \<open>The last of the most severe verdicts.\<close>

definition worst :: "doc_verdict list \<Rightarrow> doc_verdict" where
  "worst vs = (case vs of [] \<Rightarrow> DOk | v # vs' \<Rightarrow> fold (\<lambda>b a. if rank b \<ge> rank a then b else a) vs' v)"

definition exit_code :: "doc_verdict list \<Rightarrow> nat" where
  "exit_code vs = rank (worst vs)"

datatype mount_kind = MNative | MDrvFs | MOther

text \<open>\<open>comps\<close> are the components of the path \<open>s\<close>.\<close>

definition classify_mount :: "bool \<Rightarrow> string \<Rightarrow> os_path \<Rightarrow> mount_kind" where
  "classify_mount linux s comps =
     (if \<not> linux then MOther
      else case comps of
        CRoot # CNormal first # _ \<Rightarrow>
          if first = ''mnt'' \<and> length s \<ge> 6 \<and> is_ascii_alphabetic (s ! 5) then MDrvFs else MNative
      | _ \<Rightarrow> MNative)"

definition is_wsl_nat :: "bool \<Rightarrow> (u8 \<times> u8 \<times> u8 \<times> u8) option \<Rightarrow> bool" where
  "is_wsl_nat is_wsl ip \<longleftrightarrow> is_wsl \<and> is_some_and (\<lambda>(a, b, _, _). a = 172 \<and> 16 \<le> b \<and> b \<le> 31) ip"

definition network_env_verdict :: "bool \<Rightarrow> (u8 \<times> u8 \<times> u8 \<times> u8) option \<Rightarrow> doc_verdict option" where
  "network_env_verdict is_wsl ip = (if \<not> is_wsl then None else Some (if is_wsl_nat True ip then DWarn else DOk))"

definition filesystem_verdict :: "mount_kind \<Rightarrow> bool \<Rightarrow> doc_verdict" where
  "filesystem_verdict mount probe_ok = (if \<not> probe_ok then DFail else if mount = MDrvFs then DWarn else DOk)"

definition NUDGE_AGE_MS :: nat where "NUDGE_AGE_MS = 90 * 24 * 60 * 60 * 1000"
definition NUDGE_BYTES :: nat where "NUDGE_BYTES = 512 * 1024 * 1024"

text \<open>The total is taken without overflow.\<close>

definition quarantine_verdict :: "u64 \<Rightarrow> conflict_entry list \<Rightarrow> doc_verdict" where
  "quarantine_verdict now entries =
     (if entries = [] then DOk
      else
        let bytes = sum_list (map (\<lambda>e. unat (ce_size e)) entries);
            oldest_ms = Max (set (map (\<lambda>e. unat (saturating_sub now (ce_ts_ms e))) entries))
        in if oldest_ms > NUDGE_AGE_MS \<or> bytes > NUDGE_BYTES then DWarn else DOk)"

definition ipc_verdict :: "bool \<Rightarrow> doc_verdict" where
  "ipc_verdict alive = (if alive then DOk else DWarn)"

definition relay_verdict :: "string \<Rightarrow> string option \<Rightarrow> (string + nat) option \<Rightarrow> doc_verdict" where
  "relay_verdict policy home_relay probe =
     (if starts_with policy ''disabled'' then DOk
      else case probe of
        Some (Inl _) \<Rightarrow> DFail
      | _ \<Rightarrow> if home_relay = None then DWarn else DOk)"

end
