(* ===== verification/PlatformProps.thy ===== *)
theory PlatformProps
  imports Platform
begin

text \<open>
  What the edges promise: retries are bounded, extended paths are final, watcher events carry accepted paths of existing or vanished files,
  quoting cannot be escaped, hooks end, and the exit code of the diagnostics is the worst verdict.
\<close>

section \<open>Retries\<close>

lemma backoff_total: "sum_list (map backoff_delay [1, 2, 3, 4, 5]) = from_millis 1600"
  by (simp add: backoff_delay_def from_millis_def)

text \<open>How the loop ends: after some transient failures, with the first outcome that is not one, or with the last attempt.\<close>

lemma with_retry_shape:
  assumes "with_retry windows attempt rs = Some (res, ds)" "attempt \<le> RETRY_ATTEMPTS"
  shows "length ds \<le> RETRY_ATTEMPTS - attempt \<and> length ds < length rs \<and> res = rs ! length ds
    \<and> ds = map backoff_delay [attempt..<attempt + length ds]
    \<and> (\<forall>i < length ds. \<exists>e. rs ! i = Inl e \<and> should_retry windows e)
    \<and> (length ds = RETRY_ATTEMPTS - attempt \<or> (\<forall>e. res = Inl e \<longrightarrow> \<not> should_retry windows e))"
  using assms
proof (induction windows attempt rs arbitrary: ds rule: with_retry.induct)
  case (2 windows attempt r rs)
  show ?case
  proof (cases "\<exists>e. r = Inl e \<and> attempt < RETRY_ATTEMPTS \<and> should_retry windows e")
    case True
    then obtain e where e: "r = Inl e" "attempt < RETRY_ATTEMPTS" "should_retry windows e" by blast
    then obtain ds' where w: "with_retry windows (Suc attempt) rs = Some (res, ds')" "ds = backoff_delay attempt # ds'"
      using "2.prems"(1) by auto
    have "Suc attempt \<le> RETRY_ATTEMPTS" using e(2) by simp
    note ih = "2.IH" [OF e(1) conjI [OF e(2,3)] w(1) this]
    have "map backoff_delay [attempt..<attempt + length ds] = backoff_delay attempt # map backoff_delay [Suc attempt..<Suc attempt + length ds']"
      using upt_conv_Cons [of attempt "attempt + length ds"] w(2) by simp
    then show ?thesis using ih e w(2) by (auto simp: less_Suc_eq_0_disj)
  next
    case False
    then have "ds = [] \<and> res = r" using "2.prems"(1) by (auto split: sum.splits if_splits)
    then show ?thesis using False "2.prems"(2) by (auto simp: le_less)
  qed
qed simp

text \<open>
  A file operation is tried at most six times, sleeps at most 1.6 seconds in all, repeats only transient failures, and
  returns the outcome of its last attempt; on systems other than Windows it is tried once.
\<close>

theorem retries_bounded:
  assumes "with_retry windows 1 rs = Some (res, ds)"
  shows "length ds \<le> 5 \<and> res = rs ! length ds \<and> sum_list ds \<le> from_millis 1600
    \<and> (\<forall>i < length ds. \<exists>e. rs ! i = Inl e \<and> should_retry windows e) \<and> (windows \<or> ds = [])
    \<and> (length ds = 5 \<or> (\<forall>e. res = Inl e \<longrightarrow> \<not> should_retry windows e))"
proof -
  note shape = with_retry_shape [OF assms]
  have six: "RETRY_ATTEMPTS = 6" by (simp add: RETRY_ATTEMPTS_def)
  then have ds: "length ds \<le> 5" "ds = map backoff_delay [1..<1 + length ds]" using shape by auto
  have "[1..<6] = [1..<1 + length ds] @ [1 + length ds..<6]" using upt_add_eq_append [of 1 "1 + length ds" "5 - length ds"] ds(1) by simp
  then have "sum_list ds \<le> sum_list (map backoff_delay [1..<6])" by (subst ds(2)) simp
  moreover have "sum_list (map backoff_delay [1..<6]) = from_millis 1600" using backoff_total by (simp add: upt_rec eval_nat_numeral)
  moreover have "windows \<or> ds = []"
  proof (cases ds)
    case (Cons d ds')
    then obtain e where "should_retry windows e" using shape six by (metis le0 length_greater_0_conv list.discI one_le_numeral)
    then show ?thesis by (cases e) auto
  qed simp
  ultimately show ?thesis using shape ds(1) six by auto
qed

theorem retries_bounded_witness:
  "\<exists>ds. with_retry True 1 [Inl (IoFail (Some 32) False), Inr ()] = Some (Inr (), ds) \<and> length ds \<le> 5"
proof -
  have "\<exists>ds. with_retry True 1 [Inl (IoFail (Some 32) False), Inr ()] = Some (Inr (), ds)"
    by (simp add: RETRY_ATTEMPTS_def is_retryable_code_def)
  then show ?thesis using retries_bounded by blast
qed

section \<open>Extended paths\<close>

text \<open>An extended path is absolute, has backslashes only, and is not extended again.\<close>

lemma extended_form_final:
  assumes "extended_form s = Some t"
  shows "starts_with t [BSL, BSL, CHR ''?'', BSL] \<and> CHR ''/'' \<notin> set t \<and> extended_form t = None"
proof -
  let ?t = "map (\<lambda>c. if c = CHR ''/'' then BSL else c) s"
  have ns: "CHR ''/'' \<notin> set ?t" by (auto simp: BSL_def)
  from assms consider "t = [BSL, BSL, CHR ''?'', BSL] @ ?t"
    | rest where "?t = [BSL, BSL] @ rest" "t = [BSL, BSL, CHR ''?'', BSL] @ ''UNC'' @ [BSL] @ rest"
    by (auto simp: extended_form_def Let_def strip_prefix_Some_iff split: if_splits option.splits)
  then have t: "starts_with t [BSL, BSL, CHR ''?'', BSL]" "CHR ''/'' \<notin> set t"
    using ns by (cases; auto simp: starts_with_iff BSL_def)+
  then show ?thesis by (simp add: extended_form_def)
qed

section \<open>Watcher events\<close>

lemma normal_parts_Some: "normal_parts is_text p = Some parts \<Longrightarrow> p = map CNormal parts \<and> (\<forall>s \<in> set parts. is_text s)"
  by (induction is_text p arbitrary: parts rule: normal_parts.induct) (auto split: if_splits)

lemma to_rel_sound:
  assumes "to_rel is_text roots p = Some rel"
  shows "sanitize_rel_path rel = Ok rel \<and> (\<exists>root parts. root \<in> set roots \<and> p = root @ map CNormal parts \<and> rel = join_with ''/'' parts)"
proof -
  obtain q parts where q: "find_map (\<lambda>root. strip_prefix root p) roots = Some q" "normal_parts is_text q = Some parts"
    "sanitize_rel_path (join_with ''/'' parts) = Inr rel"
    using assms by (auto simp: to_rel_def split: option.splits if_splits sum.splits)
  obtain root where "root \<in> set roots" "strip_prefix root p = Some q" using find_map_SomeD [OF q(1)] by blast
  moreover have "rel = join_with ''/'' parts" using q(3) sanitize_Ok by blast
  ultimately show ?thesis using q(3) normal_parts_Some [OF q(2)] by (auto simp: strip_prefix_Some_iff)
qed

text \<open>
  C21. Every event the watcher hands to the daemon names a path inside the session folder that the sanitizer accepts, with no component
  reserved for the session's own data, that is not a directory; a removal is reported only when no file is there.
\<close>

theorem watcher_events_sound:
  assumes "(kind, rel) \<in> set (watch_events is_text is_dir is_file roots evs)"
  shows "sanitize_rel_path rel = Ok rel
    \<and> (\<exists>root parts p. root \<in> set roots \<and> p = root @ map CNormal parts \<and> rel = join_with ''/'' parts
         \<and> \<not> contains_meta p \<and> \<not> is_dir p \<and> (kind = Removed \<longrightarrow> \<not> is_file p) \<and> (\<exists>k ps. (k, ps) \<in> set evs \<and> p \<in> set ps \<and> k \<noteq> RawAccess))"
proof -
  obtain k ps k' p where e: "(k, ps) \<in> set evs" "watch_kind_of k = Some k'" "p \<in> set ps"
    "watch_path is_text is_dir is_file roots k' p = Some (kind, rel)"
  proof -
    obtain k ps where k: "(k, ps) \<in> set evs"
      "(kind, rel) \<in> set (case watch_kind_of k of None \<Rightarrow> [] | Some kind \<Rightarrow> List.map_filter (watch_path is_text is_dir is_file roots kind) ps)"
      using assms by (auto simp: watch_events_def)
    then obtain k' where k': "watch_kind_of k = Some k'" by (cases "watch_kind_of k") auto
    with k obtain p where "p \<in> set ps" "watch_path is_text is_dir is_file roots k' p = Some (kind, rel)"
      by (auto simp: List.map_filter_def)
    with k(1) k' show thesis by (rule that)
  qed
  then have "\<not> contains_meta p" "\<not> is_dir p" "to_rel is_text roots p = Some rel" "kind = Removed \<longrightarrow> \<not> is_file p"
    by (auto simp: watch_path_def split: if_splits option.splits)
  moreover have "k \<noteq> RawAccess" using e(2) by (auto simp: watch_kind_of_def)
  moreover obtain root parts where "root \<in> set roots" "p = root @ map CNormal parts" "rel = join_with ''/'' parts" "sanitize_rel_path rel = Ok rel"
    using to_rel_sound [OF calculation(3)] by blast
  ultimately show ?thesis using e(1,3) by (intro conjI exI [of _ root] exI [of _ parts] exI [of _ p] exI [of _ k] exI [of _ ps]) auto
qed

theorem watcher_events_sound_witness:
  "(Removed, ''a'') \<in> set (watch_events (\<lambda>_. True) (\<lambda>_. False) (\<lambda>_. False) [[CRoot]] [(RawRemove, [[CRoot, CNormal ''a'']])])
   \<and> sanitize_rel_path ''a'' = Ok ''a''"
proof -
  have "sanitize_rel_path ''a'' = Ok ''a''" by code_simp
  then have "(Removed, ''a'') \<in> set (watch_events (\<lambda>_. True) (\<lambda>_. False) (\<lambda>_. False) [[CRoot]] [(RawRemove, [[CRoot, CNormal ''a'']])])"
    by (simp add: watch_events_def watch_kind_of_def List.map_filter_simps watch_path_def contains_meta_def to_rel_def
        META_DIR_def eq_ignore_ascii_case_def strip_prefix_Some_iff)
  then show ?thesis using watcher_events_sound by blast
qed

section \<open>Quoting\<close>

text \<open>How PowerShell reads a single-quoted literal: a doubled quote is a quote, a single one ends it.\<close>

fun ps_read :: "string \<Rightarrow> (string \<times> string) option" where
  "ps_read [] = None"
| "ps_read [c] = (if c = SQ then Some ([], []) else None)"
| "ps_read (c # d # s) =
     (if c \<noteq> SQ then map_option (\<lambda>(t, r). (c # t, r)) (ps_read (d # s))
      else if d = SQ then map_option (\<lambda>(t, r). (SQ # t, r)) (ps_read s)
      else Some ([], d # s))"

lemma ps_read_body:
  "rest = [] \<or> hd rest \<noteq> SQ \<Longrightarrow> ps_read (concat (map (\<lambda>c. if c = SQ then [SQ, SQ] else [c]) s) @ SQ # rest) = Some (s, rest)"
proof (induction s)
  case Nil
  then show ?case by (cases rest) auto
next
  case (Cons c s)
  then show ?case
    by (cases "concat (map (\<lambda>c. if c = SQ then [SQ, SQ] else [c]) s) @ SQ # rest") auto
qed

lemma ps_lit_reads_back: "rest = [] \<or> hd rest \<noteq> SQ \<Longrightarrow> ps_read (tl (ps_lit s @ rest)) = Some (s, rest)"
  using ps_read_body [of rest s] by (simp add: ps_lit_def)

section \<open>Hooks\<close>

lemma hook_ends: "\<exists>(st, t) \<in> set rounds. deadline \<le> t \<Longrightarrow> hook_loop deadline rounds \<noteq> None"
  by (induction deadline rounds rule: hook_loop.induct) (auto split: option.splits bool.splits)

section \<open>Diagnostics\<close>

lemma rank_fold: "rank (fold (\<lambda>b a. if rank b \<ge> rank a then b else a) vs v) = Max (set (map rank (v # vs)))"
proof (induction vs arbitrary: v)
  case (Cons w vs)
  have "rank (if rank w \<ge> rank v then w else v) = max (rank v) (rank w)" by (simp add: max_def)
  then show ?case using Cons [of "if rank w \<ge> rank v then w else v"]
    by (cases "set vs = {}") (simp_all add: max.assoc del: set_empty set_empty2)
qed simp

lemma exit_code_worst: "exit_code vs = (if vs = [] then 0 else Max (set (map rank vs)))"
  using rank_fold by (cases vs) (auto simp: exit_code_def worst_def)

text \<open>A native mount whose name begins with a letter is taken for a Windows drive.\<close>

lemma native_mount_misjudged:
  "classify_mount True ''/mnt/data/project'' [CRoot, CNormal ''mnt'', CNormal ''data'', CNormal ''project''] = MDrvFs"
  by (simp add: classify_mount_def is_ascii_alphabetic_def is_ascii_lower_def ascii_code_def eval_nat_numeral)

end
