(* ===== verification/Worker.thy ===== *)
theory Worker
  imports Guided
begin

text \<open>
  The task behind the window (\<^verbatim>\<open>src/gui_native/worker.rs\<close>, \<^verbatim>\<open>src/gui_native/model.rs\<close>): the commands, the list of commands
  in flight, the gates that let one command at a time work on a folder, and the tasks as a machine whose steps are scheduled in any order.
  The wording of messages is left out.
\<close>

section \<open>Commands\<close>

datatype pick_target = PickInit | PickJoin

datatype gui_cmd =
    GRefresh
  | GSelect "string option"
  | GLock string string
  | GUnlock string string
  | GConfigSet string string string
  | GResolveMine string string string
  | GResolveBoth string string string
  | GRestore string string nat
  | GTag string string nat "string option"
  | GPin string string nat bool
  | GConflictDiscard string string
  | GPeerName string string "string option"
  | GStart string
  | GStop string
  | GPause string
  | GResume string
  | GInit string
  | GJoin string string
  | GPickFolder pick_target
  | GQuit
  | GLockWait string string
  | GMove string string string
  | GDiff string string nat
  | GDoctor string
  | GDashboard string
  | GGc string
  | GPruneConflicts string u64 "string list"
  | GInvite string "string option" "u64 option"
  | GRekey string
  | GSupervisor bool
  | GCancel u64
  | GUpdate bool
  | GSearchFiles string string bool bool nat

record gui_entry =
  en_gate :: string
  en_dir :: string
  en_what :: string
  en_subject :: string

definition DEVICE_GATE :: string where "DEVICE_GATE = CHR 0x00 # ''device''"

definition entry_session :: "string \<Rightarrow> string \<Rightarrow> string \<Rightarrow> gui_entry" where
  "entry_session dir what subject = \<lparr>en_gate = dir, en_dir = dir, en_what = what, en_subject = subject\<rparr>"

definition entry_device :: "string \<Rightarrow> string \<Rightarrow> gui_entry" where
  "entry_device what subject = \<lparr>en_gate = DEVICE_GATE, en_dir = [], en_what = what, en_subject = subject\<rparr>"

text \<open>The last component of a path, as \<^verbatim>\<open>Path::file_name\<close> gives it; the whole path when there is none.\<close>

definition base_name :: "string \<Rightarrow> string" where
  "base_name path =
     (let segs = filter (\<lambda>seg. seg \<noteq> [] \<and> seg \<noteq> ''.'') (split_on (CHR ''/'') path) in
      if segs = [] \<or> last segs = ''..'' then path else last segs)"

text \<open>The first ten characters: a character ends before a byte that does not continue it.\<close>

fun take_chars :: "nat \<Rightarrow> string \<Rightarrow> string" where
  "take_chars n [] = []"
| "take_chars n (c # s) =
     (if in_range 0x80 0xBF c then c # take_chars n s
      else case n of 0 \<Rightarrow> [] | Suc k \<Rightarrow> c # take_chars k s)"

definition short_id :: "string \<Rightarrow> string" where
  "short_id i = take_chars 10 i"

definition DOT :: string where "DOT = [CHR 0xC2, CHR 0xB7]"
definition ARROW :: string where "ARROW = [CHR 0xE2, CHR 0x86, CHR 0x92]"

definition at_version :: "string \<Rightarrow> nat \<Rightarrow> string" where
  "at_version path n = path @ '' '' @ DOT @ '' version '' @ show_nat n"

fun entry_for_cmd :: "gui_cmd \<Rightarrow> gui_entry option" where
  "entry_for_cmd GQuit = None"
| "entry_for_cmd GRefresh = None"
| "entry_for_cmd (GSelect _) = None"
| "entry_for_cmd (GCancel _) = None"
| "entry_for_cmd (GPickFolder _) = None"
| "entry_for_cmd (GSearchFiles _ _ _ _ _) = None"
| "entry_for_cmd (GLock dir path) = Some (entry_session dir ''locking'' path)"
| "entry_for_cmd (GUnlock dir path) = Some (entry_session dir ''publishing'' path)"
| "entry_for_cmd (GLockWait dir path) = Some (entry_session dir ''awaiting'' path)"
| "entry_for_cmd (GConfigSet dir k _) = Some (entry_session dir ''saving'' k)"
| "entry_for_cmd (GResolveMine dir _ target) = Some (entry_session dir ''resolving'' target)"
| "entry_for_cmd (GResolveBoth dir _ target) = Some (entry_session dir ''resolving'' target)"
| "entry_for_cmd (GRestore dir path n) = Some (entry_session dir ''restoring'' (at_version path n))"
| "entry_for_cmd (GTag dir path n _) = Some (entry_session dir ''tagging'' (at_version path n))"
| "entry_for_cmd (GPin dir path n pinned) = Some (entry_session dir (if pinned then ''pinning'' else ''unpinning'') (at_version path n))"
| "entry_for_cmd (GConflictDiscard dir i) = Some (entry_session dir ''discarding'' i)"
| "entry_for_cmd (GPeerName dir i _) = Some (entry_session dir ''naming'' (short_id i))"
| "entry_for_cmd (GStart dir) = Some (entry_session dir ''starting'' (base_name dir))"
| "entry_for_cmd (GStop dir) = Some (entry_session dir ''stopping'' (base_name dir))"
| "entry_for_cmd (GPause dir) = Some (entry_session dir ''pausing'' (base_name dir))"
| "entry_for_cmd (GResume dir) = Some (entry_session dir ''resuming'' (base_name dir))"
| "entry_for_cmd (GInit dir) = Some (entry_session dir ''creating'' (base_name dir))"
| "entry_for_cmd (GJoin dir _) = Some (entry_session dir ''joining'' (base_name dir))"
| "entry_for_cmd (GMove dir a b) = Some (entry_session dir ''renaming'' (a @ '' '' @ ARROW @ '' '' @ b))"
| "entry_for_cmd (GDiff dir path n) = Some (entry_session dir ''comparing'' (at_version path n))"
| "entry_for_cmd (GDoctor dir) = Some (entry_session dir ''checking'' (base_name dir))"
| "entry_for_cmd (GDashboard dir) = Some (entry_session dir ''opening'' (base_name dir))"
| "entry_for_cmd (GGc dir) = Some (entry_session dir ''collecting'' (base_name dir))"
| "entry_for_cmd (GPruneConflicts dir _ names) =
     Some (entry_session dir ''pruning'' (show_nat (length names) @ '' preserved cop'' @ (if length names = 1 then ''y'' else ''ies'')))"
| "entry_for_cmd (GInvite dir role _) = Some (entry_session dir ''minting'' (unwrap_or ''editor'' role @ '' invite''))"
| "entry_for_cmd (GRekey dir) = Some (entry_session dir ''rekeying'' (base_name dir))"
| "entry_for_cmd (GSupervisor install) = Some (entry_device (if install then ''installing'' else ''removing'') ''the supervisor'')"
| "entry_for_cmd (GUpdate apply') =
     Some (entry_device (if apply' then ''installing'' else ''checking'') (if apply' then ''the new version'' else ''for a newer release''))"

text \<open>What a command does once it holds its gate.\<close>

datatype gui_work =
    WNothing
  | WEdit string ipc_request string
  | WRequest string ipc_request
  | WResolve string string string string bool
  | WRestore string string nat
  | WStart string
  | WStop string
  | WPaused string bool
  | WInit string
  | WJoin string string
  | WMove string string string
  | WDiff string string nat
  | WDoctor string
  | WDashboard string
  | WGc string
  | WPrune string u64 "string list"
  | WInvite string "string option" "u64 option"
  | WRekey string
  | WSupervisor bool
  | WUpdate bool

fun perform :: "gui_cmd \<Rightarrow> gui_work" where
  "perform (GLock dir path) = WEdit dir (RqLock path) path"
| "perform (GUnlock dir path) = WEdit dir (RqUnlock path) path"
| "perform (GConfigSet dir key val) = WRequest dir (RqConfigSet key val)"
| "perform (GResolveMine dir i target) = WResolve dir i target ''keep-mine'' True"
| "perform (GResolveBoth dir i target) = WResolve dir i target ''keep-both'' False"
| "perform (GRestore dir path n) = WRestore dir path n"
| "perform (GTag dir path n name) = WRequest dir (RqTag path n name)"
| "perform (GPin dir path n pinned) = WRequest dir (RqPin path n pinned)"
| "perform (GConflictDiscard dir i) = WRequest dir (RqConflictDiscard i)"
| "perform (GPeerName dir i name) = WRequest dir (RqPeerName i name)"
| "perform (GStart dir) = WStart dir"
| "perform (GStop dir) = WStop dir"
| "perform (GPause dir) = WPaused dir True"
| "perform (GResume dir) = WPaused dir False"
| "perform (GInit dir) = WInit dir"
| "perform (GJoin dir ticket_str) = WJoin dir (trim ticket_str)"
| "perform (GMove dir a b) = WMove dir a b"
| "perform (GDiff dir path n) = WDiff dir path n"
| "perform (GDoctor dir) = WDoctor dir"
| "perform (GDashboard dir) = WDashboard dir"
| "perform (GGc dir) = WGc dir"
| "perform (GPruneConflicts dir older_than_ms names) = WPrune dir older_than_ms names"
| "perform (GInvite dir role ttl_ms) = WInvite dir role ttl_ms"
| "perform (GRekey dir) = WRekey dir"
| "perform (GSupervisor install) = WSupervisor install"
| "perform (GUpdate apply') = WUpdate apply'"
| "perform _ = WNothing"

section \<open>The register of commands in flight\<close>

record in_flight =
  fl_id :: u64
  fl_dir :: string
  fl_what :: string
  fl_subject :: string
  fl_step :: "(u8 \<times> u8) option"
  fl_started :: instant
  fl_cancelling :: bool

record gui_toast =
  gt_text :: string
  gt_error :: bool

record clerk =
  ck_inflight :: "in_flight list"
  ck_toasts :: "gui_toast list"
  ck_busy :: bool
  ck_polling :: bool
  ck_next_id :: u64

definition TOAST_BACKLOG :: nat where "TOAST_BACKLOG = 32"

definition recompute_busy :: "clerk \<Rightarrow> clerk" where
  "recompute_busy ck = ck\<lparr>ck_busy := ck_polling ck \<or> ck_inflight ck \<noteq> []\<rparr>"

definition clerk_write :: "(clerk \<Rightarrow> clerk) \<Rightarrow> clerk \<Rightarrow> clerk" where
  "clerk_write f ck = recompute_busy (f ck)"

definition open_inflight :: "u64 \<Rightarrow> string \<Rightarrow> string \<Rightarrow> string \<Rightarrow> instant \<Rightarrow> clerk \<Rightarrow> clerk" where
  "open_inflight i dir what subject started ck =
     ck\<lparr>ck_inflight := ck_inflight ck @ [\<lparr>fl_id = i, fl_dir = dir, fl_what = what, fl_subject = subject, fl_step = None,
       fl_started = started, fl_cancelling = False\<rparr>]\<rparr>"

definition close_inflight :: "u64 \<Rightarrow> clerk \<Rightarrow> bool \<times> clerk" where
  "close_inflight i ck =
     (let left = filter (\<lambda>f. fl_id f \<noteq> i) (ck_inflight ck)
      in (length left \<noteq> length (ck_inflight ck), ck\<lparr>ck_inflight := left\<rparr>))"

text \<open>The first entry with the number is changed; false when there is none.\<close>

fun change_first :: "u64 \<Rightarrow> (in_flight \<Rightarrow> in_flight) \<Rightarrow> in_flight list \<Rightarrow> bool \<times> in_flight list" where
  "change_first i g [] = (False, [])"
| "change_first i g (f # fs) =
     (if fl_id f = i then (True, g f # fs) else case change_first i g fs of (b, fs') \<Rightarrow> (b, f # fs'))"

definition set_step :: "u64 \<Rightarrow> u8 \<times> u8 \<Rightarrow> clerk \<Rightarrow> bool \<times> clerk" where
  "set_step i st ck =
     (case change_first i (\<lambda>f. f\<lparr>fl_step := Some st\<rparr>) (ck_inflight ck) of (b, fs) \<Rightarrow> (b, ck\<lparr>ck_inflight := fs\<rparr>))"

definition mark_cancelling :: "u64 \<Rightarrow> clerk \<Rightarrow> bool \<times> clerk" where
  "mark_cancelling i ck =
     (case change_first i (\<lambda>f. f\<lparr>fl_cancelling := True\<rparr>) (ck_inflight ck) of (b, fs) \<Rightarrow> (b, ck\<lparr>ck_inflight := fs\<rparr>))"

definition is_cancelling :: "u64 \<Rightarrow> clerk \<Rightarrow> bool" where
  "is_cancelling i ck = list_ex (\<lambda>f. fl_id f = i \<and> fl_cancelling f) (ck_inflight ck)"

definition clerk_toast :: "string \<Rightarrow> bool \<Rightarrow> clerk \<Rightarrow> clerk" where
  "clerk_toast msg err ck =
     clerk_write (\<lambda>s.
       let ts = ck_toasts s @ [\<lparr>gt_text = msg, gt_error = err\<rparr>]
       in s\<lparr>ck_toasts := drop (length ts - TOAST_BACKLOG) ts\<rparr>) ck"

text \<open>Opening gives the ticket; the counter is 64 bits wide and wraps.\<close>

definition clerk_open :: "string \<Rightarrow> string \<Rightarrow> string \<Rightarrow> instant \<Rightarrow> clerk \<Rightarrow> u64 \<times> clerk" where
  "clerk_open dir what subject now ck =
     (let i = ck_next_id ck
      in (i, clerk_write (open_inflight i dir what subject now) (ck\<lparr>ck_next_id := i + 1\<rparr>)))"

definition ticket_drop :: "u64 \<Rightarrow> clerk \<Rightarrow> clerk" where
  "ticket_drop i ck = clerk_write (\<lambda>s. snd (close_inflight i s)) ck"

section \<open>Gates and tasks\<close>

text \<open>
  A gate is a mutex object; the map holds one reference to it and every task that asked for it another.  A task is \<open>TSpawned\<close>, has its
  ticket, waits with its gate, holds the permit, has returned it, has dropped its ticket, and has ended.
\<close>

datatype task_phase = TSpawned | TTicketed | TQueued | TRunning | TSettled | TClosed | TEnded

record gui_task =
  tk_cmd :: gui_cmd
  tk_entry :: gui_entry
  tk_phase :: task_phase
  tk_ticket :: u64
  tk_gate :: nat

record worker_state =
  wk_open :: bool
  wk_clerk :: clerk
  wk_selected :: "string option"
  wk_poke :: bool
  wk_gates :: "(string \<times> nat) list"
  wk_next_gate :: nat
  wk_tasks :: "gui_task list"

definition has_ticket :: "gui_task \<Rightarrow> bool" where
  "has_ticket t \<longleftrightarrow> tk_phase t \<in> {TTicketed, TQueued, TRunning, TSettled}"

definition owns_gate :: "gui_task \<Rightarrow> bool" where
  "owns_gate t \<longleftrightarrow> tk_phase t \<in> {TQueued, TRunning, TSettled, TClosed}"

text \<open>\<^verbatim>\<open>Gates::get\<close>: gates without a second owner are forgotten, then the gate of the key is taken or made.\<close>

definition gates_get :: "string \<Rightarrow> worker_state \<Rightarrow> nat \<times> worker_state" where
  "gates_get key st =
     (let kept = filter (\<lambda>(_, g). list_ex (\<lambda>t. owns_gate t \<and> tk_gate t = g) (wk_tasks st)) (wk_gates st)
      in case map_of kept key of
           Some g \<Rightarrow> (g, st\<lparr>wk_gates := kept\<rparr>)
         | None \<Rightarrow> (wk_next_gate st, st\<lparr>wk_gates := (key, wk_next_gate st) # kept, wk_next_gate := Suc (wk_next_gate st)\<rparr>))"

datatype worker_event =
    EvCmd gui_cmd
  | EvOpen nat instant
  | EvGate nat
  | EvLock nat
  | EvUnlock nat
  | EvStep nat "u8 \<times> u8"
  | EvToast nat string bool
  | EvSettle nat
  | EvClose nat
  | EvEnd nat
  | EvAbort nat
  | EvPolling bool
  | EvWrite

definition set_task :: "nat \<Rightarrow> gui_task \<Rightarrow> worker_state \<Rightarrow> worker_state" where
  "set_task n t st = st\<lparr>wk_tasks := (wk_tasks st)[n := t]\<rparr>"

definition new_task :: "gui_cmd \<Rightarrow> gui_entry \<Rightarrow> gui_task" where
  "new_task cmd e = \<lparr>tk_cmd = cmd, tk_entry = e, tk_phase = TSpawned, tk_ticket = 0, tk_gate = 0\<rparr>"

text \<open>The receiving loop: five commands are answered at once, a search is a task of its own, every other command becomes a task.\<close>

definition worker_recv :: "gui_cmd \<Rightarrow> worker_state \<Rightarrow> worker_state" where
  "worker_recv cmd st =
     (case cmd of
        GQuit \<Rightarrow> st\<lparr>wk_open := False\<rparr>
      | GRefresh \<Rightarrow> st\<lparr>wk_poke := True\<rparr>
      | GSelect dir \<Rightarrow> st\<lparr>wk_selected := dir, wk_poke := True\<rparr>
      | GCancel i \<Rightarrow> st\<lparr>wk_clerk := clerk_write (\<lambda>s. snd (mark_cancelling i s)) (wk_clerk st)\<rparr>
      | _ \<Rightarrow> (case entry_for_cmd cmd of None \<Rightarrow> st | Some e \<Rightarrow> st\<lparr>wk_tasks := wk_tasks st @ [new_task cmd e]\<rparr>))"

definition is_lock_wait :: "gui_cmd \<Rightarrow> bool" where
  "is_lock_wait cmd = (case cmd of GLockWait _ _ \<Rightarrow> True | _ \<Rightarrow> False)"

definition task_step :: "nat \<Rightarrow> task_phase list \<Rightarrow> (gui_task \<Rightarrow> worker_state \<Rightarrow> worker_state option) \<Rightarrow> worker_state \<Rightarrow> worker_state option" where
  "task_step n phases f st =
     (if n < length (wk_tasks st) \<and> tk_phase (wk_tasks st ! n) \<in> set phases then f (wk_tasks st ! n) st else None)"

text \<open>
  One step; None when it cannot happen.  The permit is taken when no task runs with the same gate; only a waiting for a lease gives it back
  and asks again.  A task can be aborted anywhere: its permit, ticket and gate are dropped.
\<close>

fun worker_step :: "worker_event \<Rightarrow> worker_state \<Rightarrow> worker_state option" where
  "worker_step (EvCmd cmd) st = (if wk_open st then Some (worker_recv cmd st) else None)"
| "worker_step (EvOpen n now) st = task_step n [TSpawned] (\<lambda>t st.
     case clerk_open (en_dir (tk_entry t)) (en_what (tk_entry t)) (en_subject (tk_entry t)) now (wk_clerk st) of
       (i, ck) \<Rightarrow> Some (set_task n (t\<lparr>tk_phase := TTicketed, tk_ticket := i\<rparr>) (st\<lparr>wk_clerk := ck\<rparr>))) st"
| "worker_step (EvGate n) st = task_step n [TTicketed] (\<lambda>t st.
     case gates_get (en_gate (tk_entry t)) st of (g, st') \<Rightarrow> Some (set_task n (t\<lparr>tk_phase := TQueued, tk_gate := g\<rparr>) st')) st"
| "worker_step (EvLock n) st = task_step n [TQueued] (\<lambda>t st.
     if list_ex (\<lambda>u. tk_phase u = TRunning \<and> tk_gate u = tk_gate t) (wk_tasks st) then None
     else Some (set_task n (t\<lparr>tk_phase := TRunning\<rparr>) st)) st"
| "worker_step (EvUnlock n) st = task_step n [TRunning] (\<lambda>t st.
     if is_lock_wait (tk_cmd t) then Some (set_task n (t\<lparr>tk_phase := TQueued\<rparr>) st) else None) st"
| "worker_step (EvStep n s) st = task_step n [TQueued, TRunning] (\<lambda>t st.
     Some (st\<lparr>wk_clerk := clerk_write (\<lambda>ck. snd (set_step (tk_ticket t) s ck)) (wk_clerk st)\<rparr>)) st"
| "worker_step (EvToast n msg err) st = task_step n [TQueued, TRunning] (\<lambda>t st.
     Some (st\<lparr>wk_clerk := clerk_toast msg err (wk_clerk st)\<rparr>)) st"
| "worker_step (EvSettle n) st = task_step n [TQueued, TRunning] (\<lambda>t st.
     if tk_phase t = TRunning \<or> is_lock_wait (tk_cmd t) then Some (set_task n (t\<lparr>tk_phase := TSettled\<rparr>) st) else None) st"
| "worker_step (EvClose n) st = task_step n [TSettled] (\<lambda>t st.
     Some (set_task n (t\<lparr>tk_phase := TClosed\<rparr>) (st\<lparr>wk_clerk := ticket_drop (tk_ticket t) (wk_clerk st), wk_poke := True\<rparr>))) st"
| "worker_step (EvEnd n) st = task_step n [TClosed] (\<lambda>t st. Some (set_task n (t\<lparr>tk_phase := TEnded\<rparr>) st)) st"
| "worker_step (EvAbort n) st = task_step n [TSpawned, TTicketed, TQueued, TRunning, TSettled, TClosed] (\<lambda>t st.
     Some (set_task n (t\<lparr>tk_phase := TEnded\<rparr>)
       (if has_ticket t then st\<lparr>wk_clerk := ticket_drop (tk_ticket t) (wk_clerk st)\<rparr> else st))) st"
| "worker_step (EvPolling on) st = Some (st\<lparr>wk_clerk := (wk_clerk st)\<lparr>ck_polling := on\<rparr>\<rparr>)"
| "worker_step EvWrite st = Some (st\<lparr>wk_clerk := clerk_write id (wk_clerk st)\<rparr>)"

fun worker_run :: "worker_event list \<Rightarrow> worker_state \<Rightarrow> worker_state option" where
  "worker_run [] st = Some st"
| "worker_run (e # es) st = (case worker_step e st of None \<Rightarrow> None | Some st' \<Rightarrow> worker_run es st')"

definition new_worker :: worker_state where
  "new_worker =
     \<lparr>wk_open = True, wk_clerk = \<lparr>ck_inflight = [], ck_toasts = [], ck_busy = False, ck_polling = False, ck_next_id = 1\<rparr>,
      wk_selected = None, wk_poke = False, wk_gates = [], wk_next_gate = 0, wk_tasks = []\<rparr>"

end
