(* ===== verification/WorkerProps.thy ===== *)
theory WorkerProps
  imports Worker
begin

text \<open>
  What the task behind the window promises, for every schedule of its tasks: one command at a time per folder although idle gates are
  forgotten, folders that never wait for one another, and a register that shows exactly the commands that have not settled.
\<close>

section \<open>The register\<close>

lemma clerk_write_fields [simp]:
  "ck_inflight (clerk_write f ck) = ck_inflight (f ck)" "ck_next_id (clerk_write f ck) = ck_next_id (f ck)"
  "ck_toasts (clerk_write f ck) = ck_toasts (f ck)" "ck_busy (clerk_write f ck) \<longleftrightarrow> ck_polling (f ck) \<or> ck_inflight (f ck) \<noteq> []"
  "ck_polling (clerk_write f ck) = ck_polling (f ck)"
  by (simp_all add: clerk_write_def recompute_busy_def)

lemma change_first_ids: "\<forall>f. fl_id (g f) = fl_id f \<Longrightarrow> map fl_id (snd (change_first i g fs)) = map fl_id fs"
  by (induction i g fs rule: change_first.induct) (auto split: prod.splits)

lemma change_first_one:
  assumes "distinct (map fl_id fs)"
  shows "snd (change_first i g fs) = map (\<lambda>f. if fl_id f = i then g f else f) fs"
  using assms
proof (induction i g fs rule: change_first.induct)
  case (2 i g f fs)
  have "map (\<lambda>h. if fl_id h = i then g h else h) fs = fs" if "fl_id f = i"
  proof (rule map_idI)
    fix h assume "h \<in> set fs"
    then have "fl_id h \<noteq> i" using "2.prems" that by (auto simp: image_iff)
    then show "(if fl_id h = i then g h else h) = h" by simp
  qed
  then show ?case using 2 by (auto split: prod.splits)
qed simp

lemma step_ids [simp]:
  "map fl_id (ck_inflight (snd (set_step i s ck))) = map fl_id (ck_inflight ck)"
  "map fl_id (ck_inflight (snd (mark_cancelling i ck))) = map fl_id (ck_inflight ck)"
  using change_first_ids [of "\<lambda>f. f\<lparr>fl_step := Some s\<rparr>" i "ck_inflight ck"] change_first_ids [of "\<lambda>f. f\<lparr>fl_cancelling := True\<rparr>" i "ck_inflight ck"]
  by (auto simp: set_step_def mark_cancelling_def split: prod.splits)

lemma step_fields [simp]:
  "ck_next_id (snd (set_step i s ck)) = ck_next_id ck" "ck_next_id (snd (mark_cancelling i ck)) = ck_next_id ck"
  "ck_next_id (snd (close_inflight i ck)) = ck_next_id ck" "ck_inflight (snd (close_inflight i ck)) = filter (\<lambda>f. fl_id f \<noteq> i) (ck_inflight ck)"
  by (auto simp: set_step_def mark_cancelling_def close_inflight_def Let_def split: prod.splits)

lemma inflight_empty_ids [simp]: "map fl_id fs = [] \<longleftrightarrow> fs = []" by simp

section \<open>Tickets\<close>

text \<open>The numbers on screen, and what each task holds of them.\<close>

definition on_screen :: "worker_state \<Rightarrow> u64 list" where
  "on_screen st = map fl_id (ck_inflight (wk_clerk st))"

definition ticket_of :: "gui_task \<Rightarrow> u64 option" where
  "ticket_of t = (if has_ticket t then Some (tk_ticket t) else None)"

definition ledger_ok :: "nat \<Rightarrow> u64 \<Rightarrow> u64 list \<Rightarrow> u64 option list \<Rightarrow> bool" where
  "ledger_ok n next_id ids held \<longleftrightarrow>
     0 < unat next_id \<and> unat next_id \<le> Suc n \<and> distinct ids \<and> (\<forall>i \<in> set ids. unat i < unat next_id)
     \<and> (\<forall>i. i \<in> set ids \<longleftrightarrow> Some i \<in> set held)
     \<and> (\<forall>j k i. j < length held \<and> k < length held \<and> held ! j = Some i \<and> held ! k = Some i \<longrightarrow> j = k)"

lemma ledger_later: "ledger_ok n next_id ids held \<Longrightarrow> ledger_ok (Suc n) next_id ids held"
  by (auto simp: ledger_ok_def)

lemma ledger_open:
  assumes "ledger_ok n next_id ids held" "k < length held" "held ! k = None" "Suc (Suc n) < 2 ^ 64"
  shows "ledger_ok (Suc n) (next_id + 1) (ids @ [next_id]) (held[k := Some next_id])"
proof -
  have u: "unat (next_id + 1) = Suc (unat next_id)"
    using assms(1,4) unat_add_lem [of next_id 1] by (auto simp: ledger_ok_def)
  have fresh: "next_id \<notin> set ids" "Some next_id \<notin> set held" using assms(1) by (auto simp: ledger_ok_def)
  then have nth: "held ! j \<noteq> Some next_id" if "j < length held" for j using that by (metis nth_mem)
  have "Some i \<in> set (held[k := Some next_id]) \<longleftrightarrow> i = next_id \<or> Some i \<in> set held" for i
    using assms(2,3) by (auto simp: in_set_conv_nth nth_list_update) (metis option.distinct(1))
  then show ?thesis using assms fresh u nth by (auto simp: ledger_ok_def nth_list_update less_Suc_eq)
qed

lemma ledger_drop:
  assumes "ledger_ok n next_id ids held" "k < length held" "held ! k = Some x"
  shows "ledger_ok n next_id (filter (\<lambda>i. i \<noteq> x) ids) (held[k := None])"
proof -
  have "Some i \<in> set (held[k := None]) \<longleftrightarrow> i \<noteq> x \<and> Some i \<in> set held" for i
  proof
    assume "Some i \<in> set (held[k := None])"
    then obtain j where "j < length held" "j \<noteq> k" "held ! j = Some i" by (auto simp: in_set_conv_nth) (metis nth_list_update_eq nth_list_update_neq option.distinct(1))
    then show "i \<noteq> x \<and> Some i \<in> set held" using assms nth_mem [of j held] by (auto simp: ledger_ok_def)
  next
    assume "i \<noteq> x \<and> Some i \<in> set held"
    then obtain j where "j < length held" "held ! j = Some i" "i \<noteq> x" by (auto simp: in_set_conv_nth)
    then show "Some i \<in> set (held[k := None])" using assms(3) by (metis length_list_update nth_list_update_neq nth_mem option.inject)
  qed
  then show ?thesis using assms by (auto simp: ledger_ok_def nth_list_update split: if_splits)
qed

lemma ledger_spawn: "ledger_ok n next_id ids held \<Longrightarrow> ledger_ok n next_id ids (held @ [None])"
  by (auto simp: ledger_ok_def nth_append split: if_splits)

definition tickets_ok :: "nat \<Rightarrow> worker_state \<Rightarrow> bool" where
  "tickets_ok n st \<longleftrightarrow>
     ledger_ok n (ck_next_id (wk_clerk st)) (on_screen st) (map ticket_of (wk_tasks st))
     \<and> (ck_inflight (wk_clerk st) \<noteq> [] \<longrightarrow> ck_busy (wk_clerk st))"

lemma task_stepE:
  assumes "task_step n phases f st = Some st'"
  obtains "n < length (wk_tasks st)" "tk_phase (wk_tasks st ! n) \<in> set phases" "f (wk_tasks st ! n) st = Some st'"
  using assms by (auto simp: task_step_def split: if_splits)

text \<open>A step of a task that keeps what it holds of the ledger.\<close>

lemma tickets_same:
  assumes "tickets_ok n st" "on_screen st' = on_screen st" "ck_next_id (wk_clerk st') = ck_next_id (wk_clerk st)"
    "map ticket_of (wk_tasks st') = map ticket_of (wk_tasks st)"
    "ck_busy (wk_clerk st') = ck_busy (wk_clerk st) \<or> ck_busy (wk_clerk st') = (ck_polling (wk_clerk st') \<or> ck_inflight (wk_clerk st') \<noteq> [])"
  shows "tickets_ok (Suc n) st'"
proof -
  have "ck_inflight (wk_clerk st') = [] \<longleftrightarrow> ck_inflight (wk_clerk st) = []"
    using assms(2) unfolding on_screen_def by (metis list.map_disc_iff)
  then show ?thesis using assms ledger_later by (auto simp: tickets_ok_def)
qed

lemma map_ticket_keep: "n < length ts \<Longrightarrow> ticket_of t = ticket_of (ts ! n) \<Longrightarrow> (map ticket_of ts)[n := ticket_of t] = map ticket_of ts"
  by (metis length_map list_update_id nth_map)

lemma gates_get_keeps:
  "gates_get key st = (g, st') \<Longrightarrow> wk_clerk st' = wk_clerk st \<and> wk_tasks st' = wk_tasks st"
  by (auto simp: gates_get_def Let_def split: option.splits)

lemma worker_recv_tickets:
  assumes "tickets_ok n st"
  shows "tickets_ok (Suc n) (worker_recv cmd st)"
proof (cases "entry_for_cmd cmd")
  case None
  then have "worker_recv cmd st = st \<or> cmd = GQuit \<or> cmd = GRefresh \<or> (\<exists>d. cmd = GSelect d) \<or> (\<exists>i. cmd = GCancel i)"
    by (cases cmd) (auto simp: worker_recv_def)
  then show ?thesis using assms
    by (elim disjE exE; intro tickets_same [OF assms]) (auto simp: worker_recv_def on_screen_def)
next
  case (Some e)
  then have "worker_recv cmd st = st\<lparr>wk_tasks := wk_tasks st @ [new_task cmd e]\<rparr>" by (cases cmd) (auto simp: worker_recv_def)
  moreover have "ticket_of (new_task cmd e) = None" by (simp add: ticket_of_def new_task_def has_ticket_def)
  ultimately show ?thesis using assms by (auto simp: tickets_ok_def on_screen_def intro!: ledger_later ledger_spawn)
qed

lemma on_screen_clerk: "on_screen (set_task n t (st\<lparr>wk_clerk := ck\<rparr>)) = map fl_id (ck_inflight ck)" "on_screen (set_task n t st) = on_screen st"
  "on_screen (st\<lparr>wk_clerk := ck\<rparr>) = map fl_id (ck_inflight ck)" "on_screen (st\<lparr>wk_poke := b\<rparr>) = on_screen st"
  by (simp_all add: on_screen_def set_task_def)

lemma set_task_fields [simp]:
  "wk_clerk (set_task n t st) = wk_clerk st" "wk_tasks (set_task n t st) = (wk_tasks st)[n := t]" "wk_gates (set_task n t st) = wk_gates st"
  "wk_next_gate (set_task n t st) = wk_next_gate st"
  by (simp_all add: set_task_def)

text \<open>A step that only moves a task between phases with the same ticket, and one that drops it.\<close>

lemma tickets_move:
  assumes "tickets_ok n st" "k < length (wk_tasks st)" "ticket_of t = ticket_of (wk_tasks st ! k)"
  shows "tickets_ok (Suc n) (set_task k t st)"
  by (rule tickets_same [OF assms(1)]) (use assms(2,3) in \<open>auto simp: on_screen_clerk map_update map_ticket_keep\<close>)

lemma tickets_drop:
  assumes "tickets_ok n st" "k < length (wk_tasks st)" "ticket_of (wk_tasks st ! k) = Some i" "ticket_of t = None"
  shows "tickets_ok (Suc n) (set_task k t (st\<lparr>wk_clerk := ticket_drop i (wk_clerk st)\<rparr>))"
proof -
  have ids: "map fl_id (filter (\<lambda>f. fl_id f \<noteq> i) fs) = filter (\<lambda>x. x \<noteq> i) (map fl_id fs)" for fs by (simp add: filter_map comp_def)
  have "ledger_ok n (ck_next_id (wk_clerk st)) (filter (\<lambda>x. x \<noteq> i) (on_screen st)) ((map ticket_of (wk_tasks st))[k := None])"
    using assms by (intro ledger_drop) (simp_all add: tickets_ok_def)
  then show ?thesis using assms(4) ledger_later
    by (simp add: tickets_ok_def on_screen_def ticket_drop_def map_update ids)
qed

lemma tickets_clerk:
  assumes "tickets_ok n st" "map fl_id (ck_inflight (f (wk_clerk st))) = map fl_id (ck_inflight (wk_clerk st))" "ck_next_id (f (wk_clerk st)) = ck_next_id (wk_clerk st)"
  shows "tickets_ok (Suc n) (st\<lparr>wk_clerk := clerk_write f (wk_clerk st)\<rparr>)"
  by (rule tickets_same [OF assms(1)]) (use assms(2,3) in \<open>auto simp: on_screen_def\<close>)

lemma tickets_open:
  assumes "tickets_ok n st" "k < length (wk_tasks st)" "tk_phase (wk_tasks st ! k) = TSpawned" "Suc (Suc n) < 2 ^ 64"
    "clerk_open d w s now (wk_clerk st) = (i, ck)"
  shows "tickets_ok (Suc n) (set_task k ((wk_tasks st ! k)\<lparr>tk_phase := TTicketed, tk_ticket := i\<rparr>) (st\<lparr>wk_clerk := ck\<rparr>))"
proof -
  let ?t = "(wk_tasks st ! k)\<lparr>tk_phase := TTicketed, tk_ticket := i\<rparr>"
  have ck: "i = ck_next_id (wk_clerk st)" "map fl_id (ck_inflight ck) = on_screen st @ [i]" "ck_next_id ck = i + 1" "ck_inflight ck \<noteq> [] \<longrightarrow> ck_busy ck"
    using assms(5) by (auto simp: clerk_open_def Let_def open_inflight_def on_screen_def)
  have held: "(map ticket_of (wk_tasks st)) ! k = None" "ticket_of ?t = Some i"
    using assms(2,3) by (simp_all add: ticket_of_def has_ticket_def)
  have "ledger_ok (Suc n) (i + 1) (on_screen st @ [i]) ((map ticket_of (wk_tasks st))[k := Some i])"
    using ledger_open [of n i "on_screen st" "map ticket_of (wk_tasks st)" k] assms(1,2,4) ck(1) held(1) by (simp add: tickets_ok_def)
  then show ?thesis using ck held(2) by (simp add: tickets_ok_def on_screen_clerk map_update)
qed

lemma worker_step_tickets:
  assumes "tickets_ok n st" "worker_step e st = Some st'" "Suc (Suc n) < 2 ^ 64"
  shows "tickets_ok (Suc n) st'"
proof (cases e)
  case (EvCmd cmd)
  then show ?thesis using assms worker_recv_tickets by (auto split: if_splits)
next
  case (EvOpen k now)
  then show ?thesis using assms(2) tickets_open [OF assms(1) _ _ assms(3)] by (auto elim!: task_stepE split: prod.splits)
next
  case (EvGate k)
  then obtain g st1 where g: "k < length (wk_tasks st)" "tk_phase (wk_tasks st ! k) = TTicketed" "gates_get (en_gate (tk_entry (wk_tasks st ! k))) st = (g, st1)"
    "st' = set_task k ((wk_tasks st ! k)\<lparr>tk_phase := TQueued, tk_gate := g\<rparr>) st1"
    using assms(2) by (auto elim!: task_stepE split: prod.splits)
  then have "tickets_ok n st1" "wk_tasks st1 = wk_tasks st" using assms(1) gates_get_keeps [OF g(3)] by (auto simp: tickets_ok_def on_screen_def)
  then show ?thesis using g tickets_move [of n st1 k] by (simp add: ticket_of_def has_ticket_def)
next
  case (EvLock k)
  then show ?thesis using assms
    by (auto elim!: task_stepE split: if_splits intro!: tickets_move simp: ticket_of_def has_ticket_def)
next
  case (EvUnlock k)
  then show ?thesis using assms
    by (auto elim!: task_stepE split: if_splits intro!: tickets_move simp: ticket_of_def has_ticket_def)
next
  case (EvStep k s)
  then show ?thesis using assms by (auto elim!: task_stepE intro!: tickets_clerk)
next
  case (EvToast k msg err)
  then show ?thesis using assms by (auto elim!: task_stepE intro!: tickets_clerk simp: clerk_toast_def Let_def)
next
  case (EvSettle k)
  then show ?thesis using assms
    by (auto elim!: task_stepE split: if_splits intro!: tickets_move simp: ticket_of_def has_ticket_def)
next
  case (EvClose k)
  then obtain t where t: "k < length (wk_tasks st)" "t = wk_tasks st ! k" "tk_phase t = TSettled"
    "st' = set_task k (t\<lparr>tk_phase := TClosed\<rparr>) (st\<lparr>wk_clerk := ticket_drop (tk_ticket t) (wk_clerk st), wk_poke := True\<rparr>)"
    using assms(2) by (auto elim!: task_stepE)
  have "tickets_ok (Suc n) (set_task k (t\<lparr>tk_phase := TClosed\<rparr>) (st\<lparr>wk_clerk := ticket_drop (tk_ticket t) (wk_clerk st)\<rparr>))"
    using t by (intro tickets_drop [OF assms(1)]) (auto simp: ticket_of_def has_ticket_def)
  then show ?thesis using t(4) by (simp add: tickets_ok_def on_screen_def set_task_def)
next
  case (EvEnd k)
  then show ?thesis using assms by (auto elim!: task_stepE intro!: tickets_move simp: ticket_of_def has_ticket_def)
next
  case (EvAbort k)
  then obtain t where t: "k < length (wk_tasks st)" "t = wk_tasks st ! k"
    "st' = set_task k (t\<lparr>tk_phase := TEnded\<rparr>) (if has_ticket t then st\<lparr>wk_clerk := ticket_drop (tk_ticket t) (wk_clerk st)\<rparr> else st)"
    using assms(2) by (auto elim!: task_stepE)
  have ended: "ticket_of (t\<lparr>tk_phase := TEnded\<rparr>) = None" by (simp add: ticket_of_def has_ticket_def)
  show ?thesis
  proof (cases "has_ticket t")
    case True
    then show ?thesis using t ended tickets_drop [OF assms(1) t(1)] by (simp add: ticket_of_def)
  next
    case False
    then show ?thesis using t ended tickets_move [OF assms(1) t(1)] by (simp add: ticket_of_def)
  qed
next
  case (EvPolling on)
  then show ?thesis using assms by (auto intro!: tickets_same [OF assms(1)] simp: on_screen_def)
next
  case EvWrite
  then show ?thesis using assms tickets_clerk [OF assms(1), of id] by auto
qed

section \<open>Gates\<close>

definition gates_ok :: "worker_state \<Rightarrow> bool" where
  "gates_ok st \<longleftrightarrow>
     distinct (map fst (wk_gates st)) \<and> distinct (map snd (wk_gates st)) \<and> (\<forall>(k, g) \<in> set (wk_gates st). g < wk_next_gate st)
     \<and> (\<forall>t \<in> set (wk_tasks st). owns_gate t \<longrightarrow> map_of (wk_gates st) (en_gate (tk_entry t)) = Some (tk_gate t))
     \<and> (\<forall>i < length (wk_tasks st). \<forall>j < length (wk_tasks st).
          tk_phase (wk_tasks st ! i) = TRunning \<and> tk_phase (wk_tasks st ! j) = TRunning \<and> tk_gate (wk_tasks st ! i) = tk_gate (wk_tasks st ! j) \<longrightarrow> i = j)"

lemma gates_move:
  assumes "gates_ok st" "k < length (wk_tasks st)" "tk_entry t = tk_entry (wk_tasks st ! k)" "tk_gate t = tk_gate (wk_tasks st ! k)"
    "owns_gate t \<longrightarrow> owns_gate (wk_tasks st ! k)"
    "tk_phase t = TRunning \<longrightarrow> (\<forall>u \<in> set (wk_tasks st). tk_phase u = TRunning \<longrightarrow> tk_gate u \<noteq> tk_gate t)"
  shows "gates_ok (set_task k t st)"
proof -
  have "set ((wk_tasks st)[k := t]) \<subseteq> insert t (set (wk_tasks st))" by (rule set_update_subset_insert)
  moreover have "owns_gate t \<longrightarrow> map_of (wk_gates st) (en_gate (tk_entry t)) = Some (tk_gate t)"
    using assms(1-5) nth_mem by (auto simp: gates_ok_def)
  ultimately have "\<forall>u \<in> set ((wk_tasks st)[k := t]). owns_gate u \<longrightarrow> map_of (wk_gates st) (en_gate (tk_entry u)) = Some (tk_gate u)"
    using assms(1) by (auto simp: gates_ok_def)
  moreover have "\<forall>j < length (wk_tasks st). tk_phase t = TRunning \<and> tk_phase (wk_tasks st ! j) = TRunning \<longrightarrow> tk_gate (wk_tasks st ! j) \<noteq> tk_gate t"
    using assms(6) nth_mem by blast
  ultimately show ?thesis using assms(1,2) by (auto simp: gates_ok_def nth_list_update)
qed

lemma gates_clerk: "gates_ok (st\<lparr>wk_clerk := ck\<rparr>) = gates_ok st" "gates_ok (st\<lparr>wk_poke := b\<rparr>) = gates_ok st"
  "gates_ok (st\<lparr>wk_open := b\<rparr>) = gates_ok st" "gates_ok (st\<lparr>wk_selected := d\<rparr>) = gates_ok st"
  by (simp_all add: gates_ok_def)

lemma gates_spawn: "gates_ok st \<Longrightarrow> gates_ok (st\<lparr>wk_tasks := wk_tasks st @ [new_task cmd e]\<rparr>)"
  by (auto simp: gates_ok_def new_task_def owns_gate_def nth_append less_Suc_eq)

lemma map_of_filter_keep: "distinct (map fst xs) \<Longrightarrow> map_of xs k = Some v \<Longrightarrow> P (k, v) \<Longrightarrow> map_of (filter P xs) k = Some v"
  by (auto simp: distinct_map_filter)

text \<open>Getting a gate keeps every gate that a task owns, so the objects of waiting and running tasks never change.\<close>

lemma gates_get_ok:
  assumes "gates_ok st" "gates_get key st = (g, st')"
  shows "gates_ok st' \<and> map_of (wk_gates st') key = Some g"
proof -
  let ?P = "\<lambda>(k::string, g). list_ex (\<lambda>t. owns_gate t \<and> tk_gate t = g) (wk_tasks st)"
  define kept where "kept = filter ?P (wk_gates st)"
  have k: "distinct (map fst kept)" "distinct (map snd kept)" "\<forall>(k, g) \<in> set kept. g < wk_next_gate st"
    using assms(1) by (auto simp: gates_ok_def kept_def distinct_map_filter)
  have own: "map_of kept (en_gate (tk_entry t)) = Some (tk_gate t)" if "t \<in> set (wk_tasks st)" "owns_gate t" for t
    using assms(1) that unfolding kept_def by (intro map_of_filter_keep) (auto simp: gates_ok_def list_ex_iff)
  have st': "(g, st') = (case map_of kept key of Some g \<Rightarrow> (g, st\<lparr>wk_gates := kept\<rparr>)
     | None \<Rightarrow> (wk_next_gate st, st\<lparr>wk_gates := (key, wk_next_gate st) # kept, wk_next_gate := Suc (wk_next_gate st)\<rparr>))"
    using assms(2) unfolding gates_get_def Let_def kept_def by (rule sym)
  show ?thesis
  proof (cases "map_of kept key")
    case None
    then have "key \<notin> fst ` set kept" by (simp add: map_of_eq_None_iff)
    moreover have "wk_next_gate st \<notin> snd ` set kept" using k(3) by force
    moreover have "en_gate (tk_entry t) \<noteq> key" if "t \<in> set (wk_tasks st)" "owns_gate t" for t using own [OF that] None by force
    ultimately show ?thesis using st' None k own assms(1) by (auto simp: gates_ok_def less_Suc_eq)
  next
    case (Some h)
    then show ?thesis using st' k own assms(1) by (auto simp: gates_ok_def)
  qed
qed

lemma worker_step_gates:
  assumes "gates_ok st" "worker_step e st = Some st'"
  shows "gates_ok st'"
proof (cases e)
  case (EvCmd cmd)
  then show ?thesis using assms by (auto simp: worker_recv_def gates_clerk gates_spawn split: if_splits gui_cmd.splits option.splits)
next
  case (EvOpen k now)
  then show ?thesis using assms
    by (auto elim!: task_stepE split: prod.splits intro!: gates_move simp: gates_clerk owns_gate_def)
next
  case (EvGate k)
  then obtain g st1 where g: "k < length (wk_tasks st)" "tk_phase (wk_tasks st ! k) = TTicketed" "gates_get (en_gate (tk_entry (wk_tasks st ! k))) st = (g, st1)"
    "st' = set_task k ((wk_tasks st ! k)\<lparr>tk_phase := TQueued, tk_gate := g\<rparr>) st1"
    using assms(2) by (auto elim!: task_stepE split: prod.splits)
  have st1: "gates_ok st1" "map_of (wk_gates st1) (en_gate (tk_entry (wk_tasks st ! k))) = Some g" "wk_tasks st1 = wk_tasks st"
    using gates_get_ok [OF assms(1) g(3)] gates_get_keeps [OF g(3)] by auto
  let ?t = "(wk_tasks st ! k)\<lparr>tk_phase := TQueued, tk_gate := g\<rparr>"
  have "set ((wk_tasks st)[k := ?t]) \<subseteq> insert ?t (set (wk_tasks st))" by (rule set_update_subset_insert)
  then have "\<forall>u \<in> set ((wk_tasks st)[k := ?t]). owns_gate u \<longrightarrow> map_of (wk_gates st1) (en_gate (tk_entry u)) = Some (tk_gate u)"
    using st1 by (auto simp: gates_ok_def)
  then show ?thesis using st1 g by (auto simp: gates_ok_def nth_list_update)
next
  case (EvLock k)
  then show ?thesis using assms
    by (auto elim!: task_stepE split: if_splits intro!: gates_move simp: owns_gate_def list_ex_iff)
next
  case (EvAbort k)
  then show ?thesis using assms
    by (auto elim!: task_stepE split: if_splits intro!: gates_move simp: owns_gate_def gates_clerk)
qed (use assms in \<open>auto elim!: task_stepE split: if_splits intro!: gates_move simp: owns_gate_def gates_clerk\<close>)

section \<open>Every schedule\<close>

definition entries_ok :: "worker_state \<Rightarrow> bool" where
  "entries_ok st \<longleftrightarrow> (\<forall>t \<in> set (wk_tasks st). entry_for_cmd (tk_cmd t) = Some (tk_entry t))"

lemma entries_move:
  "entries_ok st \<Longrightarrow> k < length (wk_tasks st) \<Longrightarrow> tk_cmd t = tk_cmd (wk_tasks st ! k) \<Longrightarrow> tk_entry t = tk_entry (wk_tasks st ! k) \<Longrightarrow> entries_ok (set_task k t st)"
  using set_update_subset_insert [of "wk_tasks st" k t] by (auto simp: entries_ok_def)

lemma entries_other: "wk_tasks st' = wk_tasks st \<Longrightarrow> entries_ok st' = entries_ok st"
  by (simp add: entries_ok_def)

lemma entries_clerk: "entries_ok (st\<lparr>wk_clerk := ck\<rparr>) = entries_ok st" "entries_ok (st\<lparr>wk_poke := b\<rparr>) = entries_ok st"
  by (simp_all add: entries_ok_def)

lemma worker_step_entries:
  assumes "entries_ok st" "worker_step e st = Some st'"
  shows "entries_ok st'"
proof (cases e)
  case (EvCmd cmd)
  then show ?thesis using assms by (auto simp: worker_recv_def entries_ok_def new_task_def split: if_splits gui_cmd.splits option.splits)
next
  case (EvGate k)
  then obtain g st1 where g: "k < length (wk_tasks st)" "gates_get (en_gate (tk_entry (wk_tasks st ! k))) st = (g, st1)"
    "st' = set_task k ((wk_tasks st ! k)\<lparr>tk_phase := TQueued, tk_gate := g\<rparr>) st1"
    using assms(2) by (auto elim!: task_stepE split: prod.splits)
  then show ?thesis using assms(1) gates_get_keeps [OF g(2)] entries_move [of st1 k] entries_other [of st1 st] by simp
qed (use assms in \<open>auto elim!: task_stepE split: if_splits prod.splits intro!: entries_move simp: entries_clerk\<close>)

lemma worker_run_ok:
  assumes "tickets_ok n st" "gates_ok st" "entries_ok st" "worker_run evs st = Some st'" "Suc (n + length evs) < 2 ^ 64"
  shows "tickets_ok (n + length evs) st' \<and> gates_ok st' \<and> entries_ok st'"
  using assms
proof (induction evs arbitrary: n st)
  case (Cons e evs)
  obtain st1 where st1: "worker_step e st = Some st1" "worker_run evs st1 = Some st'" using Cons.prems(4) by (auto split: option.splits)
  have "tickets_ok (Suc n) st1" using worker_step_tickets [OF Cons.prems(1) st1(1)] Cons.prems(5) by simp
  then show ?case
    using Cons.IH [of "Suc n" st1] worker_step_gates [OF Cons.prems(2) st1(1)] worker_step_entries [OF Cons.prems(3) st1(1)] st1(2) Cons.prems(5) by simp
qed simp

lemma new_worker_ok: "tickets_ok 0 new_worker" "gates_ok new_worker" "entries_ok new_worker"
  by (simp_all add: new_worker_def tickets_ok_def ledger_ok_def on_screen_def gates_ok_def entries_ok_def)

text \<open>
  C22. For every schedule of the worker's tasks, with commands that end, fail or are aborted anywhere: two commands on one folder never run at the
  same time, although idle gates are forgotten; a waiting command is blocked only by a running command of its own folder; and the window lists exactly the
  commands that hold a ticket, each once, and is busy while there is one.
\<close>

theorem worker_serialises_folders:
  assumes "worker_run evs new_worker = Some st" "length evs < 2 ^ 64 - 1"
  shows "(\<forall>i < length (wk_tasks st). \<forall>j < length (wk_tasks st).
       tk_phase (wk_tasks st ! i) = TRunning \<and> tk_phase (wk_tasks st ! j) = TRunning
       \<and> map_option en_gate (entry_for_cmd (tk_cmd (wk_tasks st ! i))) = map_option en_gate (entry_for_cmd (tk_cmd (wk_tasks st ! j))) \<longrightarrow> i = j)
    \<and> (\<forall>i < length (wk_tasks st). tk_phase (wk_tasks st ! i) = TQueued \<longrightarrow>
       (worker_step (EvLock i) st = None \<longleftrightarrow>
          (\<exists>u \<in> set (wk_tasks st). tk_phase u = TRunning \<and> map_option en_gate (entry_for_cmd (tk_cmd u)) = map_option en_gate (entry_for_cmd (tk_cmd (wk_tasks st ! i))))))
    \<and> distinct (on_screen st) \<and> set (on_screen st) = tk_ticket ` {t \<in> set (wk_tasks st). has_ticket t}
    \<and> (on_screen st \<noteq> [] \<longrightarrow> ck_busy (wk_clerk st))"
proof -
  let ?ts = "wk_tasks st"
  have ok: "tickets_ok (length evs) st" "gates_ok st" "entries_ok st"
    using worker_run_ok [OF new_worker_ok assms(1)] assms(2) by simp_all
  have entry: "map_option en_gate (entry_for_cmd (tk_cmd t)) = Some (en_gate (tk_entry t))" if "t \<in> set ?ts" for t
    using ok(3) that by (simp add: entries_ok_def)
  have own: "map_of (wk_gates st) (en_gate (tk_entry t)) = Some (tk_gate t)" if "t \<in> set ?ts" "tk_phase t \<in> {TQueued, TRunning}" for t
    using ok(2) that by (auto simp: gates_ok_def owns_gate_def)
  have gate: "tk_gate t = tk_gate u \<longleftrightarrow> map_option en_gate (entry_for_cmd (tk_cmd t)) = map_option en_gate (entry_for_cmd (tk_cmd u))"
    if "t \<in> set ?ts" "u \<in> set ?ts" "tk_phase t \<in> {TQueued, TRunning}" "tk_phase u \<in> {TQueued, TRunning}" for t u
  proof -
    have "(en_gate (tk_entry t), tk_gate t) \<in> set (wk_gates st)" "(en_gate (tk_entry u), tk_gate u) \<in> set (wk_gates st)"
      using own that by (simp_all add: map_of_SomeD)
    moreover have "inj_on fst (set (wk_gates st))" "inj_on snd (set (wk_gates st))" using ok(2) by (auto simp: gates_ok_def distinct_map)
    ultimately have "tk_gate t = tk_gate u \<longleftrightarrow> en_gate (tk_entry t) = en_gate (tk_entry u)" by (metis fst_conv snd_conv inj_onD)
    then show ?thesis by (simp only: entry [OF that(1)] entry [OF that(2)] option.inject)
  qed
  have "\<forall>i < length ?ts. \<forall>j < length ?ts. tk_phase (?ts ! i) = TRunning \<and> tk_phase (?ts ! j) = TRunning
       \<and> map_option en_gate (entry_for_cmd (tk_cmd (?ts ! i))) = map_option en_gate (entry_for_cmd (tk_cmd (?ts ! j))) \<longrightarrow> i = j"
    using gate ok(2) nth_mem by (auto simp: gates_ok_def)
  moreover have "\<forall>i < length ?ts. tk_phase (?ts ! i) = TQueued \<longrightarrow> (worker_step (EvLock i) st = None \<longleftrightarrow>
       (\<exists>u \<in> set ?ts. tk_phase u = TRunning \<and> map_option en_gate (entry_for_cmd (tk_cmd u)) = map_option en_gate (entry_for_cmd (tk_cmd (?ts ! i)))))"
  proof (intro allI impI)
    fix i assume i: "i < length ?ts" "tk_phase (?ts ! i) = TQueued"
    then have "worker_step (EvLock i) st = None \<longleftrightarrow> (\<exists>u \<in> set ?ts. tk_phase u = TRunning \<and> tk_gate u = tk_gate (?ts ! i))"
      by (auto simp: task_step_def list_ex_iff)
    also have "\<dots> \<longleftrightarrow> (\<exists>u \<in> set ?ts. tk_phase u = TRunning \<and> map_option en_gate (entry_for_cmd (tk_cmd u)) = map_option en_gate (entry_for_cmd (tk_cmd (?ts ! i))))"
      using gate [OF _ nth_mem [OF i(1)]] i(2) by (intro bex_cong refl conj_cong) auto
    finally show "worker_step (EvLock i) st = None \<longleftrightarrow>
       (\<exists>u \<in> set ?ts. tk_phase u = TRunning \<and> map_option en_gate (entry_for_cmd (tk_cmd u)) = map_option en_gate (entry_for_cmd (tk_cmd (?ts ! i))))" .
  qed
  moreover have "set (on_screen st) = tk_ticket ` {t \<in> set ?ts. has_ticket t}"
    using ok(1) by (auto simp: tickets_ok_def ledger_ok_def ticket_of_def image_iff split: if_splits)
  ultimately show ?thesis using ok(1) by (auto simp: tickets_ok_def ledger_ok_def on_screen_def)
qed

definition demo_schedule :: "worker_event list" where
  "demo_schedule =
     [EvCmd (GLock ''/a'' ''x''), EvCmd (GGc ''/a''), EvCmd (GLock ''/b'' ''x''), EvOpen 0 5, EvGate 0, EvLock 0, EvOpen 1 6, EvGate 1,
      EvOpen 2 7, EvGate 2, EvLock 2]"

theorem worker_serialises_folders_witness:
  "\<exists>st. worker_run demo_schedule new_worker = Some st \<and> worker_step (EvLock 1) st = None \<and> on_screen st = [1, 2, 3] \<and> ck_busy (wk_clerk st)"
proof -
  obtain st where st: "worker_run demo_schedule new_worker = Some st" "map tk_phase (wk_tasks st) = [TRunning, TQueued, TRunning]"
    "map tk_cmd (wk_tasks st) = [GLock ''/a'' ''x'', GGc ''/a'', GLock ''/b'' ''x'']" "on_screen st = [1, 2, 3]"
    by (simp add: demo_schedule_def new_worker_def worker_recv_def new_task_def task_step_def clerk_open_def clerk_write_def recompute_busy_def
        open_inflight_def gates_get_def set_task_def entry_session_def owns_gate_def on_screen_def Let_def)
  obtain a b c where ts: "wk_tasks st = [a, b, c]" using st(2) by (auto simp: map_eq_Cons_conv)
  have "worker_step (EvLock 1) st = None"
    using worker_serialises_folders [OF st(1)] st(2,3) ts by (auto simp: demo_schedule_def entry_session_def)
  moreover have "ck_busy (wk_clerk st)" using worker_serialises_folders [OF st(1)] st(4) by (simp add: demo_schedule_def)
  ultimately show ?thesis using st by blast
qed

text \<open>A cancel marks its own command and no other; an unknown number changes nothing.\<close>

lemma cancel_marks_own:
  assumes "worker_run evs new_worker = Some st" "length evs < 2 ^ 64 - 1" "wk_open st"
  shows "\<exists>st'. worker_step (EvCmd (GCancel i)) st = Some st'
    \<and> ck_inflight (wk_clerk st') = map (\<lambda>f. if fl_id f = i then f\<lparr>fl_cancelling := True\<rparr> else f) (ck_inflight (wk_clerk st))"
proof -
  have "tickets_ok (length evs) st" using worker_run_ok [OF new_worker_ok assms(1)] assms(2) by simp
  then have "distinct (map fl_id (ck_inflight (wk_clerk st)))" by (simp add: tickets_ok_def ledger_ok_def on_screen_def)
  then show ?thesis using assms(3) change_first_one [of "ck_inflight (wk_clerk st)" i]
    by (auto simp: worker_recv_def mark_cancelling_def split: prod.splits) (metis snd_conv)
qed

text \<open>A command works on the folder of its gate and on no other; the device gate is no folder.\<close>

fun work_dir :: "gui_work \<Rightarrow> string option" where
  "work_dir WNothing = None"
| "work_dir (WEdit d _ _) = Some d"
| "work_dir (WRequest d _) = Some d"
| "work_dir (WResolve d _ _ _ _) = Some d"
| "work_dir (WRestore d _ _) = Some d"
| "work_dir (WStart d) = Some d"
| "work_dir (WStop d) = Some d"
| "work_dir (WPaused d _) = Some d"
| "work_dir (WInit d) = Some d"
| "work_dir (WJoin d _) = Some d"
| "work_dir (WMove d _ _) = Some d"
| "work_dir (WDiff d _ _) = Some d"
| "work_dir (WDoctor d) = Some d"
| "work_dir (WDashboard d) = Some d"
| "work_dir (WGc d) = Some d"
| "work_dir (WPrune d _ _) = Some d"
| "work_dir (WInvite d _ _) = Some d"
| "work_dir (WRekey d) = Some d"
| "work_dir (WSupervisor _) = None"
| "work_dir (WUpdate _) = None"

lemma work_stays_in_gate:
  assumes "entry_for_cmd cmd = Some e"
  shows "(case work_dir (perform cmd) of Some d \<Rightarrow> en_gate e = d \<and> en_dir e = d | None \<Rightarrow> is_lock_wait cmd \<or> en_gate e = DEVICE_GATE \<and> en_dir e = [])"
  using assms by (cases cmd) (auto simp: entry_session_def entry_device_def is_lock_wait_def)

end
