(* ===== verification/SelfUpdate.thy ===== *)
theory SelfUpdate
  imports Setup Worker Query
begin

text \<open>
  Updating the program: the command \<^verbatim>\<open>update\<close> (\<^verbatim>\<open>src/cli.rs\<close>), the check and the install of the window
  (\<^verbatim>\<open>src/gui_native/worker.rs\<close>) and what the menu shows of them (\<^verbatim>\<open>src/gui_native/menubar.rs\<close>).  The updater is a library: the comparison
  of versions, the list of releases and the replacing of the binary are arguments.  The wording of messages is left out, what they tell is kept.
\<close>

section \<open>Versions\<close>

definition trim_v :: "string \<Rightarrow> string" where
  "trim_v v = dropWhile (\<lambda>c. c = CHR ''v'') v"

definition is_prerelease :: "string \<Rightarrow> bool" where
  "is_prerelease version = (CHR ''-'' \<in> set (hd (split_on (CHR ''+'') version)))"

text \<open>The list comes newest first.\<close>

definition newest_release :: "string \<Rightarrow> string list \<Rightarrow> string option" where
  "newest_release channel versions = find (\<lambda>v. channel = ''beta'' \<or> \<not> is_prerelease v) (map trim_v versions)"

text \<open>\<open>bump a b\<close> is the library's comparison: whether \<open>b\<close> is newer than \<open>a\<close>, None when one of them is no version.\<close>

definition is_newer :: "(string \<Rightarrow> string \<Rightarrow> bool option) \<Rightarrow> string \<Rightarrow> string option \<Rightarrow> bool" where
  "is_newer bump current latest = is_some_and (\<lambda>v. unwrap_or False (bump current v)) latest"

definition install_target :: "(string \<Rightarrow> string \<Rightarrow> bool option) \<Rightarrow> bool \<Rightarrow> string \<Rightarrow> string option \<Rightarrow> string option" where
  "install_target bump apply' current latest =
     (if \<not> apply' \<or> \<not> is_newer bump current latest then None else latest)"

text \<open>Which package manager owns the executable at a path, with the command that updates it.\<close>

definition managed_by_path :: "string \<Rightarrow> (string \<times> string) option" where
  "managed_by_path exe =
     find_map (\<lambda>part.
       if part = ''node_modules'' then Some (''npm'', ''npm update -g tazamun'')
       else if part \<in> {''Cellar'', ''homebrew'', ''Homebrew''} then Some (''Homebrew'', ''brew upgrade tazamun'')
       else None) (concat (map (split_on (CHR 0x5C)) (split_on (CHR ''/'') exe)))"

text \<open>The executable and its canonical form; each can be unknown.\<close>

definition current_install_manager :: "string option \<Rightarrow> string option \<Rightarrow> (string \<times> string) option" where
  "current_install_manager exe canonical =
     (case exe of None \<Rightarrow> None | Some p \<Rightarrow> managed_by_path (unwrap_or p canonical))"

section \<open>The command line\<close>

text \<open>The token: the flag, else one of the two variables; an empty one is none.\<close>

definition update_token :: "string option \<Rightarrow> string option \<Rightarrow> string option \<Rightarrow> string option" where
  "update_token flag github gh =
     (case (case flag of Some t \<Rightarrow> Some t | None \<Rightarrow> (case github of Some t \<Rightarrow> Some t | None \<Rightarrow> gh)) of
        Some t \<Rightarrow> if t = [] then None else Some t
      | None \<Rightarrow> None)"

datatype cli_hint = HintPrivate string | HintUnreachable string

definition update_hint :: "string \<Rightarrow> bool \<Rightarrow> cli_hint" where
  "update_hint err had_token = (if str_contains err ''404'' \<and> \<not> had_token then HintPrivate err else HintUnreachable err)"

datatype update_error = BadSetup string | Hint cli_hint

datatype update_report =
    NoReleases
  | UpdateAvailable string
  | UpToDate string
  | Updated string "(string \<times> string) option"
  | AlreadyCurrent string

text \<open>
  \<open>fetch\<close> is the list of releases or the failure; \<open>install tag\<close> configures the updater and replaces the binary by the release with the tag (None: the
  latest one the service names), and tells whether something was replaced and the version.
\<close>

definition self_update_run ::
  "(string \<Rightarrow> string \<Rightarrow> bool option) \<Rightarrow> string \<Rightarrow> bool \<Rightarrow> string option \<Rightarrow> string \<Rightarrow> (update_error + string list)
     \<Rightarrow> (string option \<Rightarrow> update_error + (bool \<times> string)) \<Rightarrow> (string \<times> string) option \<Rightarrow> update_error + update_report" where
  "self_update_run bump current check tag' channel fetch install managed =
     (if check then
        (case fetch of
           Inl e \<Rightarrow> Inl e
         | Inr [] \<Rightarrow> Inr NoReleases
         | Inr (latest # _) \<Rightarrow>
             let v = trim_v latest in
             Inr (if unwrap_or False (bump current v) then UpdateAvailable v else UpToDate v))
      else
        let finish = (\<lambda>target.
              case install target of
                Inl e \<Rightarrow> Inl e
              | Inr (True, v) \<Rightarrow> Inr (Updated v managed)
              | Inr (False, v) \<Rightarrow> Inr (AlreadyCurrent v))
        in case tag' of
             Some v \<Rightarrow> finish (Some (''v'' @ trim_v v))
           | None \<Rightarrow>
               if channel = ''beta'' then
                 (case fetch of
                    Inl e \<Rightarrow> Inl e
                  | Inr [] \<Rightarrow> Inr NoReleases
                  | Inr (newest # _) \<Rightarrow> finish (Some (''v'' @ trim_v newest)))
               else finish None)"

section \<open>The window\<close>

datatype update_trouble = RateLimited string | Private404 string | NotWritable string | NoBuild string | Offline string | OtherTrouble string

definition OFFLINE_SIGNS :: "string list" where
  "OFFLINE_SIGNS =
     [''dns error'', ''failed to lookup address'', ''temporary failure in name resolution'', ''error sending request'', ''connection refused'',
      ''network is unreachable'', ''no route to host'', ''operation timed out'']"

definition looks_offline :: "string \<Rightarrow> bool" where
  "looks_offline low = list_ex (str_contains low) OFFLINE_SIGNS"

definition update_failure :: "string \<Rightarrow> bool \<Rightarrow> update_trouble" where
  "update_failure raw had_token =
     (let detail = trim raw; low = to_ascii_lowercase detail in
      if str_contains low ''status: 403'' \<or> str_contains low ''status: 429'' \<or> str_contains low ''rate limit'' then RateLimited detail
      else if str_contains low ''404'' \<and> \<not> had_token then Private404 detail
      else if str_contains low ''permission denied'' \<or> str_contains low ''access is denied'' \<or> str_contains low ''os error 13''
        \<or> str_contains low ''read-only file system'' then NotWritable detail
      else if str_contains low ''no asset found'' \<or> str_contains low ''not found in archive'' \<or> str_contains low ''no releases found'' then NoBuild detail
      else if looks_offline low then Offline detail
      else OtherTrouble detail)"

datatype settled =
    Checked "string option" bool "(string \<times> string) option"
  | Installed string
  | Managed string string
  | UpdateFailed update_trouble

text \<open>
  Resolving the newest release and installing it when asked to.  The manager and the resolution can fail as tasks; the channel is that of the folder
  (None: no session there); \<open>versions\<close> are the releases or the failure; \<open>install v\<close> runs the command line for that version.
\<close>

definition update_run ::
  "(string \<Rightarrow> string \<Rightarrow> bool option) \<Rightarrow> string \<Rightarrow> (update_trouble + (string \<times> string) option) \<Rightarrow> string option \<Rightarrow> (update_trouble + string list)
     \<Rightarrow> (string \<Rightarrow> update_trouble option) \<Rightarrow> bool \<Rightarrow> settled" where
  "update_run bump current managed folder_channel versions install apply' =
     (case managed of
        Inl e \<Rightarrow> UpdateFailed e
      | Inr m \<Rightarrow>
          (case (apply', m) of
             (True, Some (manager, command)) \<Rightarrow> Managed manager command
           | _ \<Rightarrow>
               (case versions of
                  Inl why \<Rightarrow> UpdateFailed why
                | Inr vs \<Rightarrow>
                    let latest = newest_release (unwrap_or ''stable'' folder_channel) vs in
                    (case install_target bump apply' current latest of
                       Some v \<Rightarrow> (case install v of None \<Rightarrow> Installed v | Some why \<Rightarrow> UpdateFailed why)
                     | None \<Rightarrow> Checked latest (is_newer bump current latest) m))))"

text \<open>Installing one version is the command line's \<^verbatim>\<open>update --tag\<close>; the text of its error is worded anew.\<close>

definition install_release ::
  "(string \<Rightarrow> string \<Rightarrow> bool option) \<Rightarrow> string \<Rightarrow> (update_error \<Rightarrow> string) \<Rightarrow> bool \<Rightarrow> string \<Rightarrow> (update_error + string list)
     \<Rightarrow> (string option \<Rightarrow> update_error + (bool \<times> string)) \<Rightarrow> (string \<times> string) option \<Rightarrow> string \<Rightarrow> update_trouble option" where
  "install_release bump current say had_token channel fetch install managed version =
     (case self_update_run bump current False (Some version) channel fetch install managed of
        Inl e \<Rightarrow> Some (update_failure (say e) had_token)
      | Inr _ \<Rightarrow> None)"

datatype update_note = NotePlain update_trouble | NoteManaged string string

record update_state =
  us_current :: string
  us_latest :: "string option"
  us_busy :: bool
  us_applied :: bool
  us_error :: "update_note option"
  us_checked_at :: "instant option"

definition available :: "update_state \<Rightarrow> bool" where
  "available us = is_some_and (\<lambda>l. l \<noteq> us_current us) (us_latest us)"

definition update_busy_open :: "update_state \<Rightarrow> update_state" where
  "update_busy_open us = us\<lparr>us_busy := True, us_error := None\<rparr>"

definition update_busy_drop :: "update_state \<Rightarrow> update_state" where
  "update_busy_drop us = us\<lparr>us_busy := False\<rparr>"

definition record_settled :: "instant \<Rightarrow> settled \<Rightarrow> update_state \<Rightarrow> update_state" where
  "record_settled now s us =
     (case s of
        Checked latest _ _ \<Rightarrow> us\<lparr>us_latest := latest, us_checked_at := Some now\<rparr>
      | Installed v \<Rightarrow> us\<lparr>us_latest := Some v, us_applied := True, us_checked_at := Some now\<rparr>
      | Managed manager command \<Rightarrow> us\<lparr>us_error := Some (NoteManaged manager command)\<rparr>
      | UpdateFailed why \<Rightarrow> us\<lparr>us_error := Some (NotePlain why)\<rparr>)"

definition update_action :: "instant \<Rightarrow> settled \<Rightarrow> update_state \<Rightarrow> update_state" where
  "update_action now s us = update_busy_drop (record_settled now s (update_busy_open us))"

section \<open>The menu\<close>

definition MINUTE :: u64 where "MINUTE = 60"
definition HOUR :: u64 where "HOUR = 60 * MINUTE"
definition DAY :: u64 where "DAY = 24 * HOUR"

definition plural :: "u64 \<Rightarrow> string \<Rightarrow> string" where
  "plural n noun = show_nat (unat n) @ '' '' @ noun @ (if n = 1 then [] else ''s'')"

definition ago :: "u64 \<Rightarrow> u64 \<Rightarrow> string" where
  "ago then' now =
     (let secs = saturating_sub now then' in
      if secs < MINUTE then ''just now''
      else if secs < HOUR then plural (secs div MINUTE) ''minute'' @ '' ago''
      else if secs < DAY then plural (secs div HOUR) ''hour'' @ '' ago''
      else plural (secs div DAY) ''day'' @ '' ago'')"

datatype update_item = ItemBusy | ItemInstall string | ItemCheck

datatype menu_note =
    MenuFailed update_note
  | MenuChecking
  | MenuApplied string
  | MenuOffer string string
  | MenuUpToDate string string
  | MenuUnchecked string

datatype menu_tone = ToneMuted | ToneOffer | ToneTrouble

definition whole_seconds :: "instant \<Rightarrow> u64" where
  "whole_seconds t = of_nat (min (t div 1000000000) (2 ^ 64 - 1))"

definition update_rows :: "update_state \<Rightarrow> instant \<Rightarrow> update_item \<times> menu_note \<times> menu_tone" where
  "update_rows us now =
     (let latest = unwrap_or (us_current us) (us_latest us);
          item = (if us_busy us then ItemBusy else if available us then ItemInstall latest else ItemCheck)
      in (item,
          case us_error us of
            Some why \<Rightarrow> (MenuFailed why, ToneTrouble)
          | None \<Rightarrow>
              if us_busy us then (MenuChecking, ToneMuted)
              else if us_applied us then (MenuApplied latest, ToneOffer)
              else if available us then (MenuOffer (us_current us) latest, ToneOffer)
              else case us_checked_at us of
                Some t \<Rightarrow> (MenuUpToDate (us_current us) (ago (whole_seconds t) (whole_seconds now)), ToneMuted)
              | None \<Rightarrow> (MenuUnchecked (us_current us), ToneMuted)))"

definition update_mark :: "update_state \<Rightarrow> menu_tone option" where
  "update_mark us =
     (if available us \<or> us_applied us then Some ToneOffer else if us_error us \<noteq> None then Some ToneTrouble else None)"

section \<open>What an update does\<close>

lemma find_first: "find P xs = Some v \<longleftrightarrow> (\<exists>ys zs. xs = ys @ v # zs \<and> P v \<and> (\<forall>y \<in> set ys. \<not> P y))"
  by (induction xs) (auto simp: Cons_eq_append_conv, (metis append_Cons list.set_intros(1) set_ConsD append_Nil)+)

text \<open>
  C23. An update of the window replaces the binary only when it was asked to install, only in a tree no package manager owns, and only by the
  first listed release its channel accepts that the updater's own comparison calls newer than what runs; on the stable channel that is never a prerelease.
  A check changes nothing, whatever the installer would do, and every run leaves the menu usable, with the time of the last check that worked.
\<close>

theorem updates_only_to_newer_releases:
  "(case update_run bump current managed channel versions install apply' of
      Installed v \<Rightarrow>
        apply' \<and> managed = Inr None \<and> bump current v = Some True \<and> install v = None
        \<and> (\<exists>vs ys zs. versions = Inr vs \<and> map trim_v vs = ys @ v # zs
             \<and> (if channel = Some ''beta'' then ys = [] else \<not> is_prerelease v \<and> (\<forall>y \<in> set ys. is_prerelease y)))
    | Checked latest newer m \<Rightarrow> (newer \<longleftrightarrow> is_newer bump current latest) \<and> (apply' \<longrightarrow> \<not> newer)
    | Managed _ _ \<Rightarrow> apply'
    | UpdateFailed _ \<Rightarrow> True)
   \<and> (apply' \<or> update_run bump current managed channel versions install apply' = update_run bump current managed channel versions install' apply')
   \<and> (let us' = update_action now (update_run bump current managed channel versions install apply') us in
      \<not> us_busy us' \<and> us_current us' = us_current us
      \<and> (us_error us' \<noteq> None \<longrightarrow> us_checked_at us' = us_checked_at us \<and> us_latest us' = us_latest us \<and> us_applied us' = us_applied us))"
proof -
  let ?r = "update_run bump current managed channel versions install apply'"
  have inst: "apply' \<and> managed = Inr None \<and> bump current v = Some True \<and> install v = None
        \<and> (\<exists>vs ys zs. versions = Inr vs \<and> map trim_v vs = ys @ v # zs
             \<and> (if channel = Some ''beta'' then ys = [] else \<not> is_prerelease v \<and> (\<forall>y \<in> set ys. is_prerelease y)))" if r: "?r = Installed v" for v
  proof -
    obtain vs where vs: "managed = Inr None" "apply'" "versions = Inr vs"
      "install_target bump True current (newest_release (unwrap_or ''stable'' channel) vs) = Some v" "install v = None"
      using r by (auto simp: update_run_def install_target_def Let_def split: sum.splits option.splits prod.splits if_splits bool.splits)
    then have n: "newest_release (unwrap_or ''stable'' channel) vs = Some v" "bump current v = Some True"
      by (cases "bump current v"; auto simp: install_target_def is_newer_def split: if_splits option.splits)+
    then obtain ys zs where yz: "map trim_v vs = ys @ v # zs" "unwrap_or ''stable'' channel = ''beta'' \<or> \<not> is_prerelease v"
      "\<forall>y \<in> set ys. \<not> (unwrap_or ''stable'' channel = ''beta'' \<or> \<not> is_prerelease y)"
      by (auto simp: newest_release_def find_first)
    have "unwrap_or ''stable'' channel = ''beta'' \<longleftrightarrow> channel = Some ''beta''" by (cases channel) auto
    then have "if channel = Some ''beta'' then ys = [] else \<not> is_prerelease v \<and> (\<forall>y \<in> set ys. is_prerelease y)"
      using yz by (cases ys) auto
    then show ?thesis using vs n(2) yz(1) by (intro conjI exI [of _ vs] exI [of _ ys] exI [of _ zs]) simp_all
  qed
  have rest: "(case ?r of Installed v \<Rightarrow> True | Checked latest newer m \<Rightarrow> (newer \<longleftrightarrow> is_newer bump current latest) \<and> (apply' \<longrightarrow> \<not> newer)
    | Managed _ _ \<Rightarrow> apply' | UpdateFailed _ \<Rightarrow> True)"
    by (auto simp: update_run_def install_target_def is_newer_def Let_def split: sum.splits option.splits prod.splits if_splits bool.splits)
  have check: "apply' \<or> ?r = update_run bump current managed channel versions install' apply'"
    by (cases apply') (auto simp: update_run_def install_target_def Let_def split: sum.splits option.splits)
  show ?thesis using inst rest check
    by (cases ?r) (auto simp: update_action_def update_busy_drop_def update_busy_open_def record_settled_def Let_def)
qed

definition demo_update :: update_state where
  "demo_update = \<lparr>us_current = ''0.1.9'', us_latest = None, us_busy = False, us_applied = False, us_error = None, us_checked_at = None\<rparr>"

theorem updates_only_to_newer_releases_witness:
  "update_run (\<lambda>_ v. Some (v = ''0.2.0'')) ''0.1.9'' (Inr None) None (Inr [''v0.3.0-beta'', ''v0.2.0'', ''v0.1.9'']) (\<lambda>_. None) True = Installed ''0.2.0''
   \<and> \<not> is_prerelease ''0.2.0'' \<and> \<not> us_busy (update_action 7 (Installed ''0.2.0'') demo_update)"
proof -
  let ?bump = "\<lambda>_ v. Some (v = ''0.2.0'')" and ?vs = "Inr [''v0.3.0-beta'', ''v0.2.0'', ''v0.1.9'']"
  have r: "update_run ?bump ''0.1.9'' (Inr None) None ?vs (\<lambda>_. None) True = Installed ''0.2.0''"
    by (simp add: update_run_def newest_release_def trim_v_def is_prerelease_def install_target_def is_newer_def Let_def)
  show ?thesis
    using updates_only_to_newer_releases [where bump = ?bump and current = "''0.1.9''" and managed = "Inr None" and channel = None and versions = ?vs
        and install = "\<lambda>_. None" and apply' = True and now = 7 and us = demo_update] r by (auto simp: Let_def)
qed

text \<open>The menu calls every release that differs from the running version an offer, also an older one, and offers to install it; the install does nothing.\<close>

lemma older_release_is_offered:
  assumes "bump ''0.2.0'' ''0.1.9'' = Some False" "us_current us = ''0.2.0''"
  shows "update_run bump ''0.2.0'' (Inr None) (Some ''stable'') (Inr [''v0.1.9'']) install apply' = Checked (Some ''0.1.9'') False None
    \<and> fst (update_rows (update_action now (Checked (Some ''0.1.9'') False None) us) now) = ItemInstall ''0.1.9''
    \<and> update_mark (update_action now (Checked (Some ''0.1.9'') False None) us) = Some ToneOffer"
  using assms
  by (cases apply') (simp_all add: update_run_def newest_release_def trim_v_def is_prerelease_def install_target_def is_newer_def update_action_def record_settled_def
      update_busy_open_def update_busy_drop_def update_rows_def available_def update_mark_def Let_def)

text \<open>The check of the command line does not look at the channel: a stable machine is told of a prerelease that its update will not install.\<close>

lemma check_ignores_channel:
  assumes "bump ''0.1.9'' ''0.2.0-beta.1'' = Some True"
  shows "self_update_run bump ''0.1.9'' True None ''stable'' (Inr [''v0.2.0-beta.1'', ''v0.1.9'']) install managed = Inr (UpdateAvailable ''0.2.0-beta.1'')
    \<and> newest_release ''stable'' [''v0.2.0-beta.1'', ''v0.1.9''] = Some ''0.1.9''
    \<and> self_update_run bump ''0.1.9'' False None ''stable'' (Inr [''v0.2.0-beta.1'', ''v0.1.9'']) (\<lambda>target. Inr (target \<noteq> None, ''0.1.9'')) managed
        = Inr (AlreadyCurrent ''0.1.9'')"
  using assms by (simp add: self_update_run_def newest_release_def trim_v_def is_prerelease_def Let_def)

text \<open>A time never reads as more than has passed.\<close>

lemma ago_floors: "unat (secs div MINUTE) * 60 \<le> unat secs" "unat (secs div HOUR) * 3600 \<le> unat secs" "unat (secs div DAY) * 86400 \<le> unat secs"
  by (simp_all add: unat_div MINUTE_def HOUR_def DAY_def)

end
