(* ===== verification/GuiPoll.thy ===== *)
theory GuiPoll
  imports Worker Registry
begin

text \<open>
  Hosting sessions in the window and the polling that fills it (\<^verbatim>\<open>src/gui_native/worker.rs\<close>): starting and stopping, the rows of the overview
  and what a poll without an answer leaves on screen.  Disk reads and answers are arguments.
\<close>

section \<open>Starting and stopping\<close>

datatype start_toast = AlreadyRunning | CannotStart string | NetworkConfig string | StartedHosted | CouldNotStart string

text \<open>
  \<open>started\<close> are the folders whose daemon this window hosts.  \<open>alive\<close>: a daemon answers on the folder's socket; the configuration is loaded, the network
  resolved and the daemon spawned, and each can fail.
\<close>

definition start_session ::
  "bool \<Rightarrow> string + 'c \<Rightarrow> ('c \<Rightarrow> string + 'n) \<Rightarrow> ('c \<Rightarrow> 'n \<Rightarrow> string option) \<Rightarrow> string \<Rightarrow> string set \<Rightarrow> start_toast \<times> string set" where
  "start_session alive saved resolve spawn dir started =
     (if dir \<in> started \<or> alive then (AlreadyRunning, started)
      else case saved of
        Inl e \<Rightarrow> (CannotStart e, started)
      | Inr c \<Rightarrow>
          (case resolve c of
             Inl e \<Rightarrow> (NetworkConfig e, started)
           | Inr net \<Rightarrow> (case spawn c net of Some e \<Rightarrow> (CouldNotStart e, started) | None \<Rightarrow> (StartedHosted, insert dir started))))"

datatype stop_toast = StopTimeout | StoppedHosted | NotRunning | StoppedOther | StopRefused string | StopFailed string

text \<open>\<open>ended\<close>: the hosted daemon shut down in time; \<open>answer\<close>: what another daemon says to the request.\<close>

definition gui_stop_session :: "bool \<Rightarrow> bool \<Rightarrow> 'j answer \<Rightarrow> string \<Rightarrow> string set \<Rightarrow> stop_toast \<times> string set" where
  "gui_stop_session ended alive reply dir started =
     (if dir \<in> started then (if ended then StoppedHosted else StopTimeout, started - {dir})
      else if \<not> alive then (NotRunning, started)
      else case reply of
        Inl e \<Rightarrow> (StopFailed e, started)
      | Inr r \<Rightarrow> (if ir_ok r then StoppedOther else StopRefused (unwrap_or ''shutdown refused'' (map_option snd (ir_error r))), started))"

text \<open>A hosted daemon that was shut down over its socket stays in the set: starting it again is refused although nothing runs.\<close>

lemma ended_daemon_blocks_start:
  assumes "start_session False saved resolve spawn dir started = (StartedHosted, started')"
  shows "start_session False saved' resolve' spawn' dir started' = (AlreadyRunning, started')"
  using assms by (auto simp: start_session_def split: if_splits sum.splits option.splits)

lemma stop_then_start:
  assumes "gui_stop_session ended False reply dir started = (toast, started')" "saved = Inr c" "resolve c = Inr net" "spawn c net = None"
  shows "start_session False saved resolve spawn dir started' = (StartedHosted, insert dir started')"
  using assms by (auto simp: gui_stop_session_def start_session_def split: if_splits)

section \<open>Rows\<close>

record session_row =
  row_path :: string
  row_name :: string
  row_running :: bool
  row_paused :: bool
  row_hosted :: bool
  row_readable :: bool
  row_role :: string
  row_strict :: bool
  row_files :: nat
  row_total_bytes :: nat
  row_conflicts :: nat
  row_peers_online :: nat
  row_peers_total :: nat
  row_id_short :: string

record disk_facts =
  df_readable :: bool
  df_files :: nat
  df_total_bytes :: nat
  df_role :: string
  df_strict :: bool
  df_id_short :: string
  df_conflicts :: nat

text \<open>A state file as what the row reads of it: the sizes of the live files, the role, strictness and the short id.\<close>

definition read_disk_facts :: "nat \<Rightarrow> ((u64 \<times> bool) list \<times> string \<times> bool \<times> string option) option \<Rightarrow> disk_facts" where
  "read_disk_facts conflicts state =
     (case state of
        Some (files, role, strict, node_id) \<Rightarrow>
          let live = filter (\<lambda>(_, deleted). \<not> deleted) files in
          \<lparr>df_readable = True, df_files = length live, df_total_bytes = sum_list (map (unat \<circ> fst) live), df_role = role, df_strict = strict,
           df_id_short = unwrap_or ''?'' node_id, df_conflicts = conflicts\<rparr>
      | None \<Rightarrow>
          \<lparr>df_readable = False, df_files = 0, df_total_bytes = 0, df_role = ''?'', df_strict = True, df_id_short = ''-'', df_conflicts = conflicts\<rparr>)"

datatype gui_reach = Live | Slow | Stalled

text \<open>The status poll: the members' online flags, a refusal, nothing listening, or no answer.\<close>

datatype poll_result = PollOk "bool list" | PollRefused | PollNoDaemon | PollLost

definition carry_over :: "session_ref \<Rightarrow> string set \<Rightarrow> session_row option \<Rightarrow> session_row" where
  "carry_over entry hosted prior =
     (case prior of
        Some p \<Rightarrow> p\<lparr>row_paused := sr_paused entry, row_hosted := sr_path entry \<in> hosted\<rparr>
      | None \<Rightarrow>
          \<lparr>row_path = sr_path entry, row_name = base_name (sr_path entry), row_running = False, row_paused = sr_paused entry,
           row_hosted = sr_path entry \<in> hosted, row_readable = False, row_role = ''?'', row_strict = True, row_files = 0, row_total_bytes = 0,
           row_conflicts = 0, row_peers_online = 0, row_peers_total = 0, row_id_short = ''-''\<rparr>)"

definition poll_reach :: "poll_result \<Rightarrow> gui_reach" where
  "poll_reach polled = (case polled of PollLost \<Rightarrow> Stalled | _ \<Rightarrow> Live)"

text \<open>The row of a session; reading the disk can fail.\<close>

definition session_row_of :: "session_ref \<Rightarrow> string set \<Rightarrow> session_row option \<Rightarrow> disk_facts option \<Rightarrow> poll_result \<Rightarrow> session_row" where
  "session_row_of entry hosted prior facts polled =
     (let (running, online, total') =
            (case polled of
               PollOk members \<Rightarrow> (True, length (filter id members), length members)
             | PollRefused \<Rightarrow> (True, 0, 0)
             | PollNoDaemon \<Rightarrow> (False, 0, 0)
             | PollLost \<Rightarrow>
                 (case prior of Some p \<Rightarrow> (row_running p, row_peers_online p, row_peers_total p) | None \<Rightarrow> (False, 0, 0)))
      in case facts of
           None \<Rightarrow> carry_over entry hosted prior
         | Some f \<Rightarrow>
             \<lparr>row_path = sr_path entry, row_name = base_name (sr_path entry), row_running = running, row_paused = sr_paused entry,
              row_hosted = sr_path entry \<in> hosted, row_readable = df_readable f, row_role = df_role f, row_strict = df_strict f,
              row_files = df_files f, row_total_bytes = df_total_bytes f, row_conflicts = df_conflicts f, row_peers_online = online,
              row_peers_total = total', row_id_short = df_id_short f\<rparr>)"

section \<open>The snapshot\<close>

record 'd snapshot =
  sn_rows :: "session_row list option"
  sn_detail :: "'d option"
  sn_tick :: u64
  sn_reach :: "string \<Rightarrow> gui_reach option"
  sn_fetched_at :: "string \<Rightarrow> instant option"

definition settle_reach :: "instant \<Rightarrow> string \<Rightarrow> gui_reach \<Rightarrow> 'd snapshot \<Rightarrow> 'd snapshot" where
  "settle_reach now key r sn =
     (let sn1 = (if r \<noteq> Stalled then sn\<lparr>sn_fetched_at := (sn_fetched_at sn)(key \<mapsto> now)\<rparr> else sn)
      in sn1\<lparr>sn_reach := (sn_reach sn1)(key \<mapsto> r)\<rparr>)"

text \<open>A poll that takes long marks the session before its answer.\<close>

definition poll_settles :: "instant \<Rightarrow> bool \<Rightarrow> string \<Rightarrow> poll_result \<Rightarrow> 'd snapshot \<Rightarrow> 'd snapshot" where
  "poll_settles now slow key polled sn =
     settle_reach now key (poll_reach polled) (if slow then sn\<lparr>sn_reach := (sn_reach sn)(key \<mapsto> Slow)\<rparr> else sn)"

datatype 'd detail_update = DetailSet 'd | DetailKeep | DetailClear

text \<open>
  The page of the selected session.  \<open>local\<close>: whether the disk part could be read; \<open>state\<close>: the answer with its page, a refusal with its page,
  nothing listening with the offline page (None: unreadable), or no answer, with the page that says so.
\<close>

datatype 'd state_poll = StateOk 'd | StateRefused 'd | StateNoDaemon "'d option" | StateLost 'd

definition fetch_detail :: "bool \<Rightarrow> 'd option \<Rightarrow> 'd state_poll \<Rightarrow> 'd detail_update" where
  "fetch_detail local_ok prior state =
     (if \<not> local_ok then DetailKeep
      else case state of
        StateOk d \<Rightarrow> DetailSet d
      | StateRefused d \<Rightarrow> DetailSet d
      | StateNoDaemon (Some d) \<Rightarrow> DetailSet d
      | StateNoDaemon None \<Rightarrow> DetailKeep
      | StateLost d \<Rightarrow> (case prior of Some _ \<Rightarrow> DetailKeep | None \<Rightarrow> DetailSet d))"

definition apply_detail :: "'d detail_update \<Rightarrow> 'd option \<Rightarrow> 'd option" where
  "apply_detail u d = (case u of DetailSet d' \<Rightarrow> Some d' | DetailKeep \<Rightarrow> d | DetailClear \<Rightarrow> None)"

text \<open>
  One pass.  The sessions are those of the registry (None: it could not be read), each with its disk facts and its poll; the polls run at the same time, but
  each writes only the entries of its own folder, so one order stands for all.  A prior page is used only when it is of the selected folder.
\<close>

fun refresh_rows ::
  "instant \<Rightarrow> string set \<Rightarrow> (string \<Rightarrow> session_row option) \<Rightarrow> (session_ref \<times> disk_facts option \<times> bool \<times> poll_result) list \<Rightarrow> 'd snapshot
     \<Rightarrow> session_row list \<times> 'd snapshot" where
  "refresh_rows now hosted prior [] sn = ([], sn)"
| "refresh_rows now hosted prior ((entry, facts, slow, polled) # rest) sn =
     (case refresh_rows now hosted prior rest (poll_settles now slow (sr_path entry) polled sn) of
        (rows, sn') \<Rightarrow> (session_row_of entry hosted (prior (sr_path entry)) facts polled # rows, sn'))"

definition run_refresh ::
  "instant \<Rightarrow> string set \<Rightarrow> ('d \<Rightarrow> string) \<Rightarrow> string option \<Rightarrow> (session_ref \<times> disk_facts option \<times> bool \<times> poll_result) list option
     \<Rightarrow> bool \<times> 'd state_poll \<Rightarrow> 'd snapshot \<Rightarrow> 'd snapshot" where
  "run_refresh now hosted dir_of selected sessions detail sn =
     (let prior = (\<lambda>p. case sn_rows sn of None \<Rightarrow> None | Some rows \<Rightarrow> map_of (rev (map (\<lambda>r. (row_path r, r)) rows)) p);
          prior_detail = (case sn_detail sn of Some d \<Rightarrow> if selected = Some (dir_of d) then Some d else None | None \<Rightarrow> None);
          (rows, sn1) = (case sessions of
             None \<Rightarrow> (None, sn)
           | Some ss \<Rightarrow> (case refresh_rows now hosted prior ss sn of (rs, s) \<Rightarrow> (Some rs, s)));
          u = (case selected of None \<Rightarrow> DetailClear | Some _ \<Rightarrow> fetch_detail (fst detail) prior_detail (snd detail))
      in sn1\<lparr>sn_rows := (case rows of Some rs \<Rightarrow> Some rs | None \<Rightarrow> sn_rows sn1), sn_detail := apply_detail u (sn_detail sn1),
             sn_tick := sn_tick sn1 + 1\<rparr>)"

section \<open>What a poll without an answer leaves on screen\<close>

lemma poll_settles_other: "p \<noteq> key \<Longrightarrow> sn_fetched_at (poll_settles now slow key polled sn) p = sn_fetched_at sn p
    \<and> sn_reach (poll_settles now slow key polled sn) p = sn_reach sn p"
  by (auto simp: poll_settles_def settle_reach_def Let_def)

lemma poll_settles_own:
  "sn_reach (poll_settles now slow key polled sn) key = Some (poll_reach polled)
   \<and> sn_fetched_at (poll_settles now slow key polled sn) key = (if polled = PollLost then sn_fetched_at sn key else Some now)"
  by (cases polled) (auto simp: poll_settles_def settle_reach_def poll_reach_def Let_def)

lemma refresh_rows_paths: "map row_path (fst (refresh_rows now hosted prior ss sn)) = map (sr_path \<circ> fst) ss"
  if "\<forall>p r. prior p = Some r \<longrightarrow> row_path r = p"
  using that
proof (induction now hosted prior ss sn rule: refresh_rows.induct)
  case (2 now hosted prior entry facts slow polled rest sn)
  have "row_path (session_row_of entry hosted (prior (sr_path entry)) facts polled) = sr_path entry"
    using "2.prems" by (auto simp: session_row_of_def carry_over_def split: option.splits poll_result.splits)
  then show ?case using 2 by (auto split: prod.splits)
qed simp

lemma refresh_rows_keeps:
  "sn_rows (snd (refresh_rows now hosted prior ss sn)) = sn_rows sn \<and> sn_detail (snd (refresh_rows now hosted prior ss sn)) = sn_detail sn
   \<and> (\<forall>p. p \<notin> (sr_path \<circ> fst) ` set ss \<longrightarrow>
        sn_fetched_at (snd (refresh_rows now hosted prior ss sn)) p = sn_fetched_at sn p \<and> sn_reach (snd (refresh_rows now hosted prior ss sn)) p = sn_reach sn p)"
proof (induction now hosted prior ss sn rule: refresh_rows.induct)
  case (2 now hosted prior entry facts slow polled rest sn)
  have "sn_rows (poll_settles now slow (sr_path entry) polled sn) = sn_rows sn" "sn_detail (poll_settles now slow (sr_path entry) polled sn) = sn_detail sn"
    by (auto simp: poll_settles_def settle_reach_def Let_def)
  then show ?case using 2 by (auto simp: poll_settles_other split: prod.splits)
qed simp

lemma refresh_rows_at:
  assumes "distinct (map (sr_path \<circ> fst) ss)" "i < length ss" "ss ! i = (entry, facts, slow, polled)"
  shows "fst (refresh_rows now hosted prior ss sn) ! i = session_row_of entry hosted (prior (sr_path entry)) facts polled
    \<and> sn_reach (snd (refresh_rows now hosted prior ss sn)) (sr_path entry) = Some (poll_reach polled)
    \<and> sn_fetched_at (snd (refresh_rows now hosted prior ss sn)) (sr_path entry) = (if polled = PollLost then sn_fetched_at sn (sr_path entry) else Some now)"
  using assms
proof (induction now hosted prior ss sn arbitrary: i rule: refresh_rows.induct)
  case (2 now hosted prior e f s p rest sn)
  show ?case
  proof (cases i)
    case 0
    then have eq: "e = entry" "f = facts" "s = slow" "p = polled" using "2.prems"(3) by simp_all
    have "sr_path entry \<notin> (sr_path \<circ> fst) ` set rest" using "2.prems"(1) eq by simp
    then show ?thesis
      using refresh_rows_keeps [of now hosted prior rest "poll_settles now s (sr_path e) p sn"] poll_settles_own [of now s "sr_path e" p sn] eq 0
      by (auto split: prod.splits)
  next
    case (Suc k)
    then have k: "k < length rest" "rest ! k = (entry, facts, slow, polled)" using "2.prems"(2,3) by simp_all
    then have "sr_path entry \<in> (sr_path \<circ> fst) ` set rest" by (metis comp_apply fst_conv image_eqI nth_mem)
    moreover have "sr_path e \<notin> (sr_path \<circ> fst) ` set rest" using "2.prems"(1) by simp
    ultimately have "sr_path entry \<noteq> sr_path e" by metis
    then show ?thesis
      using "2.IH" [OF _ k] "2.prems"(1) poll_settles_other [of "sr_path entry" "sr_path e" now s p sn] Suc by (auto split: prod.splits)
  qed
qed simp

lemma run_refresh_rows:
  assumes "sn_rows sn = Some rows" "distinct (map row_path rows)" "i < length rows"
  shows "map_of (rev (map (\<lambda>r. (row_path r, r)) rows)) (row_path (rows ! i)) = Some (rows ! i)"
  using assms by (intro map_of_is_SomeI) (auto simp: rev_map [symmetric] comp_def)

text \<open>
  A session whose poll gets no answer keeps what was on screen: its row keeps whether it runs and its peers, the time of its last reading does
  not move and the session is marked stalled, whatever the other sessions of the pass answer; every definite answer sets the time and
  clears the mark.  A page of the selected session is kept when its poll is lost, and the overview when the registry is unreadable.
\<close>

theorem lost_poll_keeps_reading:
  assumes "sn_rows sn = Some rows" "distinct (map row_path rows)" "k < length rows" "row_path (rows ! k) = sr_path entry"
    and "distinct (map (sr_path \<circ> fst) ss)" "i < length ss" "ss ! i = (entry, Some f, slow, polled)"
  shows "\<exists>rows'. sn_rows (run_refresh now hosted dir_of selected (Some ss) (ok, state) sn) = Some rows' \<and> length rows' = length ss
    \<and> sn_reach (run_refresh now hosted dir_of selected (Some ss) (ok, state) sn) (sr_path entry) = Some (if polled = PollLost then Stalled else Live)
    \<and> sn_fetched_at (run_refresh now hosted dir_of selected (Some ss) (ok, state) sn) (sr_path entry)
        = (if polled = PollLost then sn_fetched_at sn (sr_path entry) else Some now)
    \<and> (polled = PollLost \<longrightarrow> row_running (rows' ! i) = row_running (rows ! k) \<and> row_peers_online (rows' ! i) = row_peers_online (rows ! k)
         \<and> row_peers_total (rows' ! i) = row_peers_total (rows ! k))
    \<and> sn_rows (run_refresh now hosted dir_of selected None (ok, state) sn) = Some rows
    \<and> (\<forall>d lost. sn_detail sn = Some d \<and> selected = Some (dir_of d) \<and> state = StateLost lost \<longrightarrow>
         sn_detail (run_refresh now hosted dir_of selected (Some ss) (ok, state) sn) = Some d)"
proof -
  let ?prior = "\<lambda>p. map_of (rev (map (\<lambda>r. (row_path r, r)) rows)) p"
  let ?rr = "refresh_rows now hosted ?prior ss sn"
  have prior: "?prior (sr_path entry) = Some (rows ! k)" using run_refresh_rows [OF assms(1-3)] assms(4) by simp
  have at_i: "fst ?rr ! i = session_row_of entry hosted (Some (rows ! k)) (Some f) polled"
    "sn_reach (snd ?rr) (sr_path entry) = Some (poll_reach polled)"
    "sn_fetched_at (snd ?rr) (sr_path entry) = (if polled = PollLost then sn_fetched_at sn (sr_path entry) else Some now)"
    using refresh_rows_at [OF assms(5-7), of now hosted ?prior sn] prior by simp_all
  have pr: "\<forall>p r. ?prior p = Some r \<longrightarrow> row_path r = p" by (auto dest!: map_of_SomeD)
  have len: "length (fst ?rr) = length ss" using arg_cong [OF refresh_rows_paths [OF pr, of now hosted ss sn], of length] by simp
  obtain rs s where rs: "?rr = (rs, s)" by force
  have run: "run_refresh now hosted dir_of selected (Some ss) (ok, state) sn = s\<lparr>sn_rows := Some rs,
      sn_detail := apply_detail (case selected of None \<Rightarrow> DetailClear | Some _ \<Rightarrow> fetch_detail ok
        (case sn_detail sn of Some d \<Rightarrow> if selected = Some (dir_of d) then Some d else None | None \<Rightarrow> None) state) (sn_detail s), sn_tick := sn_tick s + 1\<rparr>"
    using rs assms(1) by (cases selected; cases "sn_detail sn") (simp_all add: run_refresh_def Let_def)
  have "sn_detail s = sn_detail sn" using refresh_rows_keeps [of now hosted ?prior ss sn] rs by simp
  moreover have "sn_rows (run_refresh now hosted dir_of selected None (ok, state) sn) = Some rows"
    using assms(1) by (simp add: run_refresh_def Let_def)
  moreover have "poll_reach polled = (if polled = PollLost then Stalled else Live)" by (cases polled) (auto simp: poll_reach_def)
  ultimately show ?thesis using run rs at_i len
    by (auto simp: session_row_of_def apply_detail_def fetch_detail_def split: option.splits)
qed

definition demo_row :: session_row where
  "demo_row = \<lparr>row_path = ''/a'', row_name = ''a'', row_running = True, row_paused = False, row_hosted = False, row_readable = True, row_role = ''editor'',
     row_strict = True, row_files = 1, row_total_bytes = 4, row_conflicts = 0, row_peers_online = 2, row_peers_total = 3, row_id_short = ''k''\<rparr>"

definition demo_snapshot :: "string snapshot" where
  "demo_snapshot = \<lparr>sn_rows = Some [demo_row], sn_detail = Some ''/a'', sn_tick = 0, sn_reach = (\<lambda>_. None), sn_fetched_at = [''/a'' \<mapsto> 5]\<rparr>"

definition demo_ref :: session_ref where
  "demo_ref = \<lparr>sr_path = ''/a'', sr_kind = KindInit, sr_added_ms = 0, sr_paused = False\<rparr>"

theorem lost_poll_keeps_reading_witness:
  "\<exists>rows. sn_rows (run_refresh 9 {} id (Some ''/a'') (Some [(demo_ref, Some (read_disk_facts 0 None), True, PollLost)]) (True, StateLost ''x'') demo_snapshot) = Some rows
     \<and> row_running (rows ! 0) \<and> row_peers_online (rows ! 0) = 2
     \<and> sn_reach (run_refresh 9 {} id (Some ''/a'') (Some [(demo_ref, Some (read_disk_facts 0 None), True, PollLost)]) (True, StateLost ''x'') demo_snapshot) ''/a'' = Some Stalled
     \<and> sn_fetched_at (run_refresh 9 {} id (Some ''/a'') (Some [(demo_ref, Some (read_disk_facts 0 None), True, PollLost)]) (True, StateLost ''x'') demo_snapshot) ''/a'' = Some 5
     \<and> sn_detail (run_refresh 9 {} id (Some ''/a'') (Some [(demo_ref, Some (read_disk_facts 0 None), True, PollLost)]) (True, StateLost ''x'') demo_snapshot) = Some ''/a''"
  using lost_poll_keeps_reading [where sn = demo_snapshot and rows = "[demo_row]" and k = 0 and entry = demo_ref and polled = PollLost and i = 0
      and ss = "[(demo_ref, Some (read_disk_facts 0 None), True, PollLost)]" and f = "read_disk_facts 0 None" and slow = True
      and now = 9 and hosted = "{}" and dir_of = id and selected = "Some ''/a''" and ok = True and state = "StateLost ''x''"]
  by (auto simp: demo_snapshot_def demo_ref_def demo_row_def)

end
