(* ===== verification/GuiPrefs.thy ===== *)
theory GuiPrefs
  imports Query Decimal Complex_Main "HOL-Library.Countable"
begin

text \<open>
  What the window computes before it draws: the preferences file (\<^verbatim>\<open>src/gui_native/prefs.rs\<close>), figures and their columns
  (\<^verbatim>\<open>src/gui_native/figures.rs\<close>), the menu heads that fit and the keyboard focus (\<^verbatim>\<open>src/gui_native/menubar.rs\<close>).  A float is not a number, an infinity
  or an exact rational.
\<close>

section \<open>Preferences\<close>

datatype f32 = NaN | PosInf | NegInf | Fin rat

definition SCALE_MIN :: rat where "SCALE_MIN = 7 / 10"
definition SCALE_MAX :: rat where "SCALE_MAX = 22 / 10"
definition SCALE_DEFAULT :: rat where "SCALE_DEFAULT = 1"

definition clamp_scale :: "f32 \<Rightarrow> f32" where
  "clamp_scale s = (case s of Fin x \<Rightarrow> Fin (max SCALE_MIN (min SCALE_MAX x)) | _ \<Rightarrow> Fin SCALE_DEFAULT)"

definition MIN_WINDOW :: "rat \<times> rat" where "MIN_WINDOW = (820, 520)"
definition MAX_WINDOW :: "rat \<times> rat" where "MAX_WINDOW = (16384, 16384)"
definition MAX_TAB_LEN :: nat where "MAX_TAB_LEN = 32"
definition MAX_SESSION_LEN :: nat where "MAX_SESSION_LEN = 4096"
definition DEFAULT_TAB :: string where "DEFAULT_TAB = ''overview''"

datatype mode = Night | Paper | Contrast
datatype density = Compact | Regular | Relaxed

fun mode_key :: "mode \<Rightarrow> string" where
  "mode_key Night = ''night''"
| "mode_key Paper = ''paper''"
| "mode_key Contrast = ''contrast''"

definition mode_from_key :: "string \<Rightarrow> mode" where
  "mode_from_key k = (if k = ''night'' then Night else if k = ''paper'' then Paper else Contrast)"

fun density_key :: "density \<Rightarrow> string" where
  "density_key Compact = ''compact''"
| "density_key Regular = ''regular''"
| "density_key Relaxed = ''relaxed''"

definition density_from_key :: "string \<Rightarrow> density" where
  "density_from_key k = (if k = ''compact'' then Compact else if k = ''relaxed'' then Relaxed else Regular)"

record prefs =
  pf_text_scale :: f32
  pf_mode :: string
  pf_density :: string
  pf_reduced_motion :: bool
  pf_sort_by_size :: bool
  pf_last_tab :: string
  pf_last_session :: "string option"
  pf_window :: "(f32 \<times> f32) option"
  pf_maximized :: bool

definition default_prefs :: prefs where
  "default_prefs =
     \<lparr>pf_text_scale = Fin SCALE_DEFAULT, pf_mode = mode_key Contrast, pf_density = density_key Regular, pf_reduced_motion = False,
      pf_sort_by_size = False, pf_last_tab = DEFAULT_TAB, pf_last_session = None, pf_window = None, pf_maximized = False\<rparr>"

fun sane_window :: "f32 \<times> f32 \<Rightarrow> (f32 \<times> f32) option" where
  "sane_window (Fin w, Fin h) =
     (if w \<le> 0 \<or> h \<le> 0 then None
      else Some (Fin (max (fst MIN_WINDOW) (min (fst MAX_WINDOW) w)), Fin (max (snd MIN_WINDOW) (min (snd MAX_WINDOW) h))))"
| "sane_window _ = None"

definition is_tab_key :: "string \<Rightarrow> bool" where
  "is_tab_key s \<longleftrightarrow> s \<noteq> [] \<and> length s \<le> MAX_TAB_LEN \<and> list_all (\<lambda>c. is_ascii_alphanumeric c \<or> c = CHR ''-'' \<or> c = CHR ''_'') s"

text \<open>Control characters are below 32, the byte 127, and the scalars from 128 to 159, whose encoding is C2 and a byte from 80 to 9F.\<close>

fun has_control :: "string \<Rightarrow> bool" where
  "has_control [] \<longleftrightarrow> False"
| "has_control [c] \<longleftrightarrow> ascii_code c < 32 \<or> ascii_code c = 127"
| "has_control (c # d # s) \<longleftrightarrow>
     ascii_code c < 32 \<or> ascii_code c = 127 \<or> (c = CHR 0xC2 \<and> in_range 0x80 0x9F d) \<or> has_control (d # s)"

definition is_session_path :: "string \<Rightarrow> bool" where
  "is_session_path s \<longleftrightarrow> trim s \<noteq> [] \<and> length s \<le> MAX_SESSION_LEN \<and> \<not> has_control s"

definition sanitize :: "prefs \<Rightarrow> prefs" where
  "sanitize p =
     p\<lparr>pf_text_scale := clamp_scale (pf_text_scale p),
       pf_mode := mode_key (mode_from_key (pf_mode p)),
       pf_density := density_key (density_from_key (pf_density p)),
       pf_window := (case pf_window p of None \<Rightarrow> None | Some w \<Rightarrow> sane_window w),
       pf_last_tab := (if is_tab_key (pf_last_tab p) then pf_last_tab p else DEFAULT_TAB),
       pf_last_session := (case pf_last_session p of Some s \<Rightarrow> if is_session_path s then Some s else None | None \<Rightarrow> None)\<rparr>"

text \<open>Reading the file: \<open>from_json\<close> is None when the text does not parse.\<close>

definition parse_prefs :: "(string \<Rightarrow> prefs option) \<Rightarrow> string \<Rightarrow> prefs" where
  "parse_prefs from_json content = sanitize (unwrap_or default_prefs (from_json content))"

definition load_prefs :: "(string \<Rightarrow> prefs option) \<Rightarrow> string option \<Rightarrow> prefs" where
  "load_prefs from_json file = (case file of Some content \<Rightarrow> parse_prefs from_json content | None \<Rightarrow> default_prefs)"

text \<open>Writing: the file stays as it was when the write fails.\<close>

definition save_prefs :: "(prefs \<Rightarrow> string) \<Rightarrow> bool \<Rightarrow> prefs \<Rightarrow> string option \<Rightarrow> bool \<times> string option" where
  "save_prefs to_json written p file = (if written then (True, Some (to_json (sanitize p) @ [CHR 0x0A])) else (False, file))"

section \<open>Figures\<close>

record figure =
  fg_value :: string
  fg_unit :: string

definition digit_at :: "string \<Rightarrow> nat \<Rightarrow> bool" where
  "digit_at s n \<longleftrightarrow> n < length s \<and> is_ascii_digit (s ! n)"

text \<open>The loop over the number: where it stops and how many digits it saw.\<close>

function scan_number :: "string \<Rightarrow> nat \<Rightarrow> nat \<Rightarrow> nat \<times> nat" where
  "scan_number s cpos digits =
     (if cpos < length s then
        if is_ascii_digit (s ! cpos) then scan_number s (Suc cpos) (Suc digits)
        else if (s ! cpos = CHR ''.'' \<or> s ! cpos = CHR '','') \<and> 0 < digits \<and> digit_at s (Suc cpos) then scan_number s (Suc cpos) digits
        else (cpos, digits)
      else (cpos, digits))"
  by pat_completeness auto
termination
  by (relation "measure (\<lambda>(s, cpos, _). length s - cpos)") auto

declare scan_number.simps [simp del]

definition split_figure :: "string \<Rightarrow> figure" where
  "split_figure t =
     (let s = trim t;
          cpos0 = (if s \<noteq> [] \<and> s ! 0 = CHR ''-'' \<and> digit_at s 1 then 1 else 0);
          (cpos, digits) = scan_number s cpos0 0;
          cpos = (if digits = 0 then 0 else cpos)
      in \<lparr>fg_value = take cpos s, fg_unit = trim (drop cpos s)\<rparr>)"

definition value_width :: "figure list \<Rightarrow> nat" where
  "value_width figs = fold (\<lambda>f w. max w (char_count (fg_value f))) figs 0"

definition align :: "figure \<Rightarrow> nat \<Rightarrow> string" where
  "align f width =
     replicate (width - char_count (fg_value f)) (CHR '' '') @ fg_value f @ (if fg_unit f \<noteq> [] then '' '' @ fg_unit f else [])"

section \<open>The menu bar\<close>

datatype menu = MSession | MTools | MDisplay | MHelp

definition MENU_ALL :: "menu list" where "MENU_ALL = [MSession, MTools, MDisplay, MHelp]"

record menu_plan =
  mp_shown :: "menu list"
  mp_folded :: "menu list"

definition keep_order :: "menu option \<Rightarrow> menu list" where
  "keep_order pinned = (case pinned of Some p \<Rightarrow> [p] | None \<Rightarrow> []) @ filter (\<lambda>m. Some m \<noteq> pinned) MENU_ALL"

fun keep_heads :: "(menu \<times> rat) list \<Rightarrow> rat \<Rightarrow> rat \<Rightarrow> menu list \<Rightarrow> menu list" where
  "keep_heads widths gap budget [] = []"
| "keep_heads widths gap budget (m # ms) =
     (case find (\<lambda>(n, _). n = m) widths of
        None \<Rightarrow> keep_heads widths gap budget ms
      | Some (_, w) \<Rightarrow>
          let need = max w 0 + gap in
          if need > budget then [] else m # keep_heads widths gap (budget - need) ms)"

text \<open>Widths of heads are finite.\<close>

definition plan :: "(menu \<times> rat) list \<Rightarrow> f32 \<Rightarrow> f32 \<Rightarrow> f32 \<Rightarrow> menu option \<Rightarrow> menu_plan" where
  "plan widths gap more_w avail pinned =
     (let none = \<lparr>mp_shown = [], mp_folded = []\<rparr> in
      case avail of
        Fin a \<Rightarrow>
          if widths = [] \<or> a \<le> 0 then none
          else
            let g = (case gap of Fin x \<Rightarrow> max x 0 | _ \<Rightarrow> 0);
                needed = sum_list (map (\<lambda>(_, w). max w 0) widths) + g * of_nat (length widths - 1)
            in if needed \<le> a then \<lparr>mp_shown = map fst widths, mp_folded = []\<rparr>
               else (case more_w of
                 Fin mw \<Rightarrow>
                   if a < mw then none
                   else let keep = keep_heads widths g (a - mw) (keep_order pinned) in
                     \<lparr>mp_shown = filter (\<lambda>m. m \<in> set keep) (map fst widths), mp_folded = filter (\<lambda>m. m \<notin> set keep) (map fst widths)\<rparr>
               | _ \<Rightarrow> none)
      | _ \<Rightarrow> none)"

definition position_of :: "'i \<Rightarrow> 'i list \<Rightarrow> nat option" where
  "position_of x xs = find (\<lambda>n. xs ! n = x) [0..<length xs]"

definition step_focus :: "'i list \<Rightarrow> 'i option \<Rightarrow> int \<Rightarrow> 'i option" where
  "step_focus ids focused step =
     (if ids = [] then None
      else
        let top = length ids - 1;
            cur = (case focused of None \<Rightarrow> None | Some f \<Rightarrow> position_of f ids);
            nxt = (case cur of
               None \<Rightarrow> if step \<ge> 0 then 0 else top
             | Some i \<Rightarrow> if step \<ge> 0 then (if i = top then 0 else i + 1) else (if i = 0 then top else i - 1))
        in if nxt < length ids then Some (ids ! nxt) else None)"

section \<open>Hostile preferences\<close>

definition prefs_sane :: "prefs \<Rightarrow> bool" where
  "prefs_sane p \<longleftrightarrow>
     (\<exists>x. pf_text_scale p = Fin x \<and> SCALE_MIN \<le> x \<and> x \<le> SCALE_MAX)
     \<and> pf_mode p \<in> mode_key ` UNIV \<and> pf_density p \<in> density_key ` UNIV
     \<and> (\<forall>w. pf_window p = Some w \<longrightarrow> (\<exists>x y. w = (Fin x, Fin y) \<and> 820 \<le> x \<and> x \<le> 16384 \<and> 520 \<le> y \<and> y \<le> 16384))
     \<and> is_tab_key (pf_last_tab p) \<and> (\<forall>s. pf_last_session p = Some s \<longrightarrow> is_session_path s)"

lemma clamp_scale_sane: "\<exists>x. clamp_scale s = Fin x \<and> SCALE_MIN \<le> x \<and> x \<le> SCALE_MAX"
  by (cases s) (auto simp: clamp_scale_def SCALE_MIN_def SCALE_MAX_def SCALE_DEFAULT_def)

lemma sane_window_range: "sane_window w = Some v \<Longrightarrow> \<exists>x y. v = (Fin x, Fin y) \<and> 820 \<le> x \<and> x \<le> 16384 \<and> 520 \<le> y \<and> y \<le> 16384"
  by (induction w rule: sane_window.induct) (auto simp: MIN_WINDOW_def MAX_WINDOW_def split: if_splits)

lemma default_tab_key: "is_tab_key DEFAULT_TAB"
  by (simp add: is_tab_key_def DEFAULT_TAB_def MAX_TAB_LEN_def is_ascii_alphanumeric_def is_ascii_alphabetic_def is_ascii_lower_def ascii_code_def)

lemma sanitize_sane: "prefs_sane (sanitize p)"
  using clamp_scale_sane [of "pf_text_scale p"] default_tab_key
  by (auto simp: prefs_sane_def sanitize_def split: option.splits dest: sane_window_range)

lemma default_prefs_sane: "prefs_sane default_prefs"
  using default_tab_key
  by (auto simp: prefs_sane_def default_prefs_def SCALE_MIN_def SCALE_MAX_def SCALE_DEFAULT_def simp del: mode_key.simps density_key.simps)

lemma sanitize_id:
  assumes "prefs_sane p"
  shows "sanitize p = p"
proof -
  have "mode_key (mode_from_key (pf_mode p)) = pf_mode p"
  proof -
    obtain m where "pf_mode p = mode_key m" using assms by (auto simp: prefs_sane_def)
    then show ?thesis by (cases m) (auto simp: mode_from_key_def)
  qed
  moreover have "density_key (density_from_key (pf_density p)) = pf_density p"
  proof -
    obtain d where "pf_density p = density_key d" using assms by (auto simp: prefs_sane_def)
    then show ?thesis by (cases d) (auto simp: density_from_key_def)
  qed
  moreover have "clamp_scale (pf_text_scale p) = pf_text_scale p" using assms by (auto simp: prefs_sane_def clamp_scale_def)
  moreover have "(case pf_window p of None \<Rightarrow> None | Some w \<Rightarrow> sane_window w) = pf_window p"
    using assms by (auto simp: prefs_sane_def MIN_WINDOW_def MAX_WINDOW_def split: option.splits)
  moreover have "(case pf_last_session p of Some s \<Rightarrow> if is_session_path s then Some s else None | None \<Rightarrow> None) = pf_last_session p"
    using assms by (auto simp: prefs_sane_def split: option.splits)
  ultimately show ?thesis using assms by (simp add: sanitize_def prefs_sane_def)
qed

text \<open>
  Whatever the preferences file holds, and whether or not it can be read or parsed, the window starts with sane preferences; a file it wrote is read back
  as what was written, and a failed write leaves the file as it was.
\<close>

theorem preferences_always_sane:
  assumes "\<And>q. prefs_sane q \<Longrightarrow> from_json (to_json q @ [CHR 0x0A]) = Some q"
  shows "prefs_sane (load_prefs from_json stored) \<and> sanitize (load_prefs from_json stored) = load_prefs from_json stored
    \<and> load_prefs from_json (snd (save_prefs to_json True p stored)) = sanitize p
    \<and> (prefs_sane p \<longrightarrow> load_prefs from_json (snd (save_prefs to_json True p stored)) = p)
    \<and> save_prefs to_json False p stored = (False, stored)"
proof -
  have sane: "prefs_sane (load_prefs from_json stored)"
    by (cases stored) (auto simp: load_prefs_def parse_prefs_def sanitize_sane default_prefs_sane)
  have "load_prefs from_json (snd (save_prefs to_json True p stored)) = sanitize p"
    using assms [OF sanitize_sane] sanitize_id [OF sanitize_sane] by (simp add: load_prefs_def save_prefs_def parse_prefs_def)
  then show ?thesis using sane sanitize_id by (auto simp: save_prefs_def)
qed

text \<open>A concrete text for every preference: the number of the record, in decimal.\<close>

instance f32 :: countable
  by countable_datatype

definition number_json :: "prefs \<Rightarrow> string" where
  "number_json p = show_nat (to_nat (pf_text_scale p, pf_mode p, pf_density p, pf_reduced_motion p, pf_sort_by_size p, pf_last_tab p,
     pf_last_session p, pf_window p, pf_maximized p))"

definition number_prefs :: "string \<Rightarrow> prefs option" where
  "number_prefs l = map_option (\<lambda>n. case from_nat n of (t, m, d, r, s, b, l, w, x) \<Rightarrow>
     \<lparr>pf_text_scale = t, pf_mode = m, pf_density = d, pf_reduced_motion = r, pf_sort_by_size = s, pf_last_tab = b, pf_last_session = l,
      pf_window = w, pf_maximized = x\<rparr>) (digits_value 0 (butlast l))"

lemma number_json_reads: "number_prefs (number_json p @ [CHR 0x0A]) = Some p"
  by (simp add: number_prefs_def number_json_def)

theorem preferences_always_sane_witness:
  "prefs_sane (load_prefs number_prefs (Some ''broken''))
   \<and> load_prefs number_prefs (snd (save_prefs number_json True (default_prefs\<lparr>pf_text_scale := NaN\<rparr>) None)) = default_prefs"
proof -
  have "sanitize (default_prefs\<lparr>pf_text_scale := NaN\<rparr>) = default_prefs"
    using sanitize_id [OF default_prefs_sane] by (simp add: sanitize_def clamp_scale_def default_prefs_def)
  then show ?thesis using preferences_always_sane [of number_prefs number_json, OF number_json_reads] by metis
qed

section \<open>Figures\<close>

lemma strip_any_white: "strip_any ps s = Some r \<Longrightarrow> \<exists>w \<in> set ps. s = w @ r"
  by (induction ps s rule: strip_any.induct) (auto split: option.splits simp: strip_prefix_Some_iff)

lemma strip_all_white: "\<exists>ws. set ws \<subseteq> set ps \<and> s = concat ws @ strip_all n ps s"
proof (induction n ps s rule: strip_all.induct)
  case (2 n ps s)
  show ?case
  proof (cases "strip_any ps s")
    case (Some r)
    then obtain w where w: "w \<in> set ps" "s = w @ r" using strip_any_white by blast
    obtain ws where ws: "set ws \<subseteq> set ps" "r = concat ws @ strip_all n ps r" using 2 Some by blast
    have "s = concat (w # ws) @ strip_all n ps r" using w(2) ws(2) by simp
    then show ?thesis using w(1) ws(1) Some by (intro exI [of _ "w # ws"]) simp
  qed (auto intro: exI [of _ "[]"])
qed (auto intro: exI [of _ "[]"])

text \<open>Trimming removes white space only.\<close>

lemma trim_white: "\<exists>ws vs. set ws \<subseteq> set white_space \<and> set vs \<subseteq> set white_space \<and> s = concat ws @ trim s @ concat vs"
proof -
  obtain ws where ws: "set ws \<subseteq> set white_space" "s = concat ws @ trim_start s"
    using strip_all_white [of white_space s "length s"] by (auto simp: trim_start_def)
  let ?t = "trim_start s"
  obtain us where us: "set us \<subseteq> set (map rev white_space)" "rev ?t = concat us @ strip_all (length ?t) (map rev white_space) (rev ?t)"
    using strip_all_white [of "map rev white_space" "rev ?t" "length ?t"] by auto
  have "?t = rev (concat us @ strip_all (length ?t) (map rev white_space) (rev ?t))" using us(2) by (metis rev_rev_ident)
  then have "?t = trim s @ concat (rev (map rev us))" by (simp add: trim_def trim_end_def rev_concat rev_map)
  moreover have "set (rev (map rev us)) \<subseteq> set white_space" using us(1) by auto
  ultimately show ?thesis using ws by metis
qed

lemma scan_number_grows: "scan_number s cpos digits = (c, d) \<Longrightarrow> cpos \<le> c \<and> (cpos \<le> length s \<longrightarrow> c \<le> length s) \<and> digits \<le> d"
proof (induction s cpos digits rule: scan_number.induct)
  case (1 s cpos digits)
  have "scan_number s (Suc cpos) (Suc digits) = (c, d) \<and> cpos < length s \<and> is_ascii_digit (s ! cpos)
    \<or> scan_number s (Suc cpos) digits = (c, d) \<and> cpos < length s \<and> \<not> is_ascii_digit (s ! cpos) \<and> (s ! cpos = CHR ''.'' \<or> s ! cpos = CHR '','') \<and> 0 < digits \<and> digit_at s (Suc cpos)
    \<or> c = cpos \<and> d = digits"
    using "1.prems" scan_number.simps [of s cpos digits] by (auto split: if_splits)
  then show ?case
  proof (elim disjE)
    assume "scan_number s (Suc cpos) (Suc digits) = (c, d) \<and> cpos < length s \<and> is_ascii_digit (s ! cpos)"
    then show ?thesis using "1.IH"(1) by auto
  next
    assume "scan_number s (Suc cpos) digits = (c, d) \<and> cpos < length s \<and> \<not> is_ascii_digit (s ! cpos) \<and> (s ! cpos = CHR ''.'' \<or> s ! cpos = CHR '','') \<and> 0 < digits \<and> digit_at s (Suc cpos)"
    then show ?thesis using "1.IH"(2) by auto
  qed auto
qed

text \<open>A number ends with a digit: a separator is passed only before one.\<close>

lemma scan_number_digit:
  assumes "scan_number s cpos digits = (c, d)" "0 < d" "0 < digits \<longrightarrow> 0 < cpos \<and> (digit_at s (cpos - 1) \<or> digit_at s cpos)"
  shows "0 < c \<and> digit_at s (c - 1)"
  using assms
proof (induction s cpos digits rule: scan_number.induct)
  case (1 s cpos digits)
  show ?case
  proof (cases "cpos < length s \<and> is_ascii_digit (s ! cpos)")
    case True
    then have "scan_number s (Suc cpos) (Suc digits) = (c, d)" using "1.prems"(1) scan_number.simps [of s cpos digits] by simp
    then show ?thesis using "1.IH"(1) True "1.prems"(2) by (simp add: digit_at_def)
  next
    case False
    show ?thesis
    proof (cases "cpos < length s \<and> (s ! cpos = CHR ''.'' \<or> s ! cpos = CHR '','') \<and> 0 < digits \<and> digit_at s (Suc cpos)")
      case True
      then have "scan_number s (Suc cpos) digits = (c, d)" using "1.prems"(1) False scan_number.simps [of s cpos digits] by auto
      then show ?thesis using "1.IH"(2) True False "1.prems"(2) by simp
    next
      case no: False
      then have "c = cpos" "d = digits" using "1.prems"(1) False scan_number.simps [of s cpos digits] by (auto split: if_splits)
      then show ?thesis using "1.prems"(2,3) False by (auto simp: digit_at_def)
    qed
  qed
qed

text \<open>Splitting a figure loses nothing but white space, and the value is empty or ends with a digit.\<close>

lemma split_figure_lossless:
  "\<exists>ws vs. set ws \<subseteq> set white_space \<and> set vs \<subseteq> set white_space
     \<and> trim t = fg_value (split_figure t) @ concat ws @ fg_unit (split_figure t) @ concat vs
     \<and> (fg_value (split_figure t) = [] \<or> is_ascii_digit (last (fg_value (split_figure t))))"
proof -
  let ?s = "trim t"
  define cpos0 :: nat where "cpos0 = (if ?s \<noteq> [] \<and> ?s ! 0 = CHR ''-'' \<and> digit_at ?s 1 then 1 else 0)"
  obtain c d where cd: "scan_number ?s cpos0 0 = (c, d)" by force
  define cpos where "cpos = (if d = 0 then 0 else c)"
  have f: "split_figure t = \<lparr>fg_value = take cpos ?s, fg_unit = trim (drop cpos ?s)\<rparr>"
    unfolding split_figure_def Let_def cpos0_def [symmetric] cd by (simp add: cpos_def)
  have "cpos0 \<le> length ?s" by (cases ?s) (auto simp: cpos0_def)
  then have c_le: "c \<le> length ?s" using scan_number_grows [OF cd] by simp
  have "is_ascii_digit (last (take cpos ?s))" if "cpos \<noteq> 0"
  proof -
    have "d \<noteq> 0" "cpos = c" using that by (auto simp: cpos_def split: if_splits)
    moreover have "0 < c \<and> digit_at ?s (c - 1)" using scan_number_digit [OF cd] calculation by simp
    moreover have "last (take c ?s) = ?s ! (c - 1)" using calculation c_le by (subst last_conv_nth) (auto simp: digit_at_def)
    ultimately show ?thesis by (simp add: digit_at_def)
  qed
  moreover obtain ws vs where "set ws \<subseteq> set white_space" "set vs \<subseteq> set white_space" "drop cpos ?s = concat ws @ trim (drop cpos ?s) @ concat vs"
    using trim_white by blast
  ultimately show ?thesis using f append_take_drop_id [of cpos ?s] by (intro exI [of _ ws] exI [of _ vs]) (auto simp: append_assoc)
qed

lemma value_width_ge: "f \<in> set figs \<Longrightarrow> char_count (fg_value f) \<le> value_width figs"
proof -
  have "w \<le> fold (\<lambda>f w. max w (char_count (fg_value f))) fs w
      \<and> (\<forall>f \<in> set fs. char_count (fg_value f) \<le> fold (\<lambda>f w. max w (char_count (fg_value f))) fs w)" for fs :: "figure list" and w :: nat
  proof (induction fs arbitrary: w)
    case (Cons g fs)
    then show ?case by (auto intro: order_trans [OF _ conjunct1 [OF Cons]] dest: conjunct2 [OF Cons, rule_format])
  qed simp
  then show "f \<in> set figs \<Longrightarrow> char_count (fg_value f) \<le> value_width figs" by (simp add: value_width_def)
qed

lemma char_count_spaces: "char_count (replicate n (CHR '' '') @ s) = n + char_count s"
  by (simp add: char_count_def in_range_def ascii_code_def)

text \<open>All units of a column begin at the same place.\<close>

lemma align_column:
  assumes "f \<in> set figs"
  shows "\<exists>left. align f (value_width figs) = left @ (if fg_unit f \<noteq> [] then '' '' @ fg_unit f else []) \<and> char_count left = value_width figs"
  using value_width_ge [OF assms] by (auto simp: align_def char_count_spaces intro!: exI [of _ "replicate _ _ @ _"])

section \<open>The menu bar\<close>

lemma find_head: "find (\<lambda>(n, _). n = m) widths = map_option (Pair m) (map_of widths m)"
  by (induction widths) auto

lemma keep_heads_fit:
  assumes "0 \<le> gap" "0 \<le> budget" "distinct ms"
  shows "distinct (keep_heads widths gap budget ms) \<and> set (keep_heads widths gap budget ms) \<subseteq> set ms \<inter> fst ` set widths
    \<and> sum_list (map (\<lambda>m. max (the (map_of widths m)) 0 + gap) (keep_heads widths gap budget ms)) \<le> budget"
  using assms
proof (induction ms arbitrary: budget)
  case (Cons m ms)
  show ?case
  proof (cases "map_of widths m")
    case None
    then show ?thesis using Cons by (auto simp: find_head)
  next
    case (Some w)
    then have mem: "m \<in> fst ` set widths" by (metis domI dom_map_of_conv_image_fst)
    show ?thesis
    proof (cases "max w 0 + gap > budget")
      case True
      then show ?thesis using Some Cons.prems by (simp add: find_head)
    next
      case False
      then show ?thesis using Cons.IH [of "budget - (max w 0 + gap)"] Cons.prems Some mem by (auto simp: find_head Let_def)
    qed
  qed
qed simp

lemma keep_order_distinct: "distinct (keep_order pinned)"
  by (cases pinned) (auto simp: keep_order_def MENU_ALL_def)

text \<open>The heads of the bar are shown or folded, in reading order; those that are shown fit beside the trailing head.\<close>

lemma plan_fits:
  assumes "distinct (map fst widths)" "plan widths gap (Fin mw) (Fin a) pinned = pl" "pl \<noteq> \<lparr>mp_shown = [], mp_folded = []\<rparr>" "0 \<le> mw"
  shows "(\<exists>keep. mp_shown pl = filter keep (map fst widths) \<and> mp_folded pl = filter (\<lambda>m. \<not> keep m) (map fst widths))
    \<and> sum_list (map (\<lambda>m. max (the (map_of widths m)) 0) (mp_shown pl)) + (if mp_folded pl = [] then 0 else mw) \<le> a"
proof -
  define g where "g = (case gap of Fin x \<Rightarrow> max x 0 | _ \<Rightarrow> 0)"
  have g: "0 \<le> g" by (simp add: g_def split: f32.splits)
  let ?needed = "sum_list (map (\<lambda>(_, w). max w 0) widths) + g * of_nat (length widths - 1)"
  have whole: "map (\<lambda>m. max (the (map_of widths m)) 0) (map fst widths) = map (\<lambda>(_, w). max w 0) widths"
    using assms(1) by (auto simp: map_of_eq_Some_iff)
  have a: "0 < a" "widths \<noteq> []" using assms(2,3) by (auto simp: plan_def Let_def split: if_splits)
  show ?thesis
  proof (cases "?needed \<le> a")
    case True
    then have "pl = \<lparr>mp_shown = map fst widths, mp_folded = []\<rparr>" using assms(2) a by (simp add: plan_def Let_def g_def)
    moreover have "sum_list (map (\<lambda>(_, w). max w 0) widths) \<le> a" 
    proof -
      have "0 \<le> g * of_nat (length widths - 1)" using g by simp
      then show ?thesis using True by linarith
    qed
    ultimately show ?thesis by (simp only: whole menu_plan.select_convs) (auto intro!: exI [of _ "\<lambda>_. True"])
  next
    case False
    define keep where "keep = keep_heads widths g (a - mw) (keep_order pinned)"
    have mw: "mw \<le> a" and pl: "pl = \<lparr>mp_shown = filter (\<lambda>m. m \<in> set keep) (map fst widths), mp_folded = filter (\<lambda>m. m \<notin> set keep) (map fst widths)\<rparr>"
      using assms(2,3) a False by (auto simp: plan_def Let_def g_def keep_def split: if_splits)
    have k: "distinct keep" "set keep \<subseteq> fst ` set widths" "sum_list (map (\<lambda>m. max (the (map_of widths m)) 0 + g) keep) \<le> a - mw"
      using keep_heads_fit [OF g _ keep_order_distinct, of "a - mw" widths pinned] mw by (auto simp: keep_def)
    have "sum_list (map (\<lambda>m. max (the (map_of widths m)) 0) (mp_shown pl)) = sum_list (map (\<lambda>m. max (the (map_of widths m)) 0) keep)"
      using assms(1) k(1,2) pl by (simp add: sum_list_distinct_conv_sum_set distinct_filter) (rule sum.cong; force)
    also have "\<dots> \<le> sum_list (map (\<lambda>m. max (the (map_of widths m)) 0 + g) keep)" using g by (intro sum_list_mono) simp
    finally show ?thesis using k(3) pl assms(4) by (auto intro!: exI [of _ "\<lambda>m. m \<in> set keep"])
  qed
qed

text \<open>Stepping forward and back is a cycle through the items.\<close>

lemma position_of_nth: "distinct xs \<Longrightarrow> i < length xs \<Longrightarrow> position_of (xs ! i) xs = Some i"
  by (auto simp: position_of_def find_Some_iff nth_eq_iff_index_eq intro!: exI [of _ i])

lemma step_focus_cycles:
  assumes "distinct ids" "i < length ids"
  shows "step_focus ids (Some (ids ! i)) 1 = Some (ids ! (Suc i mod length ids))
    \<and> step_focus ids (step_focus ids (Some (ids ! i)) 1) (-1) = Some (ids ! i)"
proof -
  have ne: "ids \<noteq> []" using assms(2) by auto
  have one: "step_focus ids (Some (ids ! i)) 1 = Some (ids ! (Suc i mod length ids))"
    using assms ne position_of_nth [OF assms] by (auto simp: step_focus_def Let_def mod_Suc)
  let ?j = "Suc i mod length ids"
  have j: "?j < length ids" using ne by simp
  have "step_focus ids (Some (ids ! ?j)) (-1) = Some (ids ! i)"
    using assms ne position_of_nth [OF assms(1) j] by (auto simp: step_focus_def Let_def mod_Suc) (metis One_nat_def diff_Suc_1)
  then show ?thesis using one by simp
qed

end
