(* ===== verification/GuiMenu.thy ===== *)
theory GuiMenu
  imports GuiPoll GuiPrefs SelfUpdate Supervisor Health "HOL-Library.Product_Lexorder"
begin

text \<open>
  What the window offers and says: the menus and the reasons that block an entry (\<^verbatim>\<open>src/gui_native/menubar.rs\<close>), the sentence and the warnings
  of the overview (\<^verbatim>\<open>src/gui_native/copy.rs\<close>), text sizes and spoken sentences (\<^verbatim>\<open>src/gui_native/a11y.rs\<close>), and the order of the peers in
  the figure (\<^verbatim>\<open>src/gui_native/constellation.rs\<close>).  Labels and the wording of reasons are left out.
\<close>

section \<open>Text sizes\<close>

definition SCALE_STEP :: rat where "SCALE_STEP = 1 / 20"
definition SCALE_EPS :: rat where "SCALE_EPS = 1 / 1000"

definition step_scale :: "f32 \<Rightarrow> bool \<Rightarrow> f32" where
  "step_scale current up =
     (let base = (case current of Fin x \<Rightarrow> x | _ \<Rightarrow> SCALE_DEFAULT);
          n = base / SCALE_STEP;
          nxt = (if up then of_int \<lfloor>n + SCALE_EPS\<rfloor> + 1 else of_int \<lceil>n - SCALE_EPS\<rceil> - 1)
      in clamp_scale (Fin (nxt * SCALE_STEP)))"

section \<open>Menus\<close>

datatype menu_action =
    ActStart | ActStop | ActPause | ActResume | ActOpenFolder | ActCopyPath | ActRename
  | ActDoctor | ActDashboard | ActGc | ActRekey | ActPrune | ActSupervisor bool
  | ActPalette mode | ActDensity density | ActMotion bool | ActTextScale f32
  | ActShortcuts | ActColophon | ActCheckUpdate | ActApplyUpdate

datatype blocked =
    NeedsSession | NeedsRunning | SessionRuns | SessionStopped | IsPaused | IsNotPaused | RoleCannotEdit string | NeedsFile | NoConflicts
  | TextAtMax | TextAtMin | TextAtDefault | UpdateBusy

datatype menu_head =
    HeadLifecycle | HeadFolder | HeadThisSession | HeadThisMachine | HeadPalette | HeadDensity | HeadMotion | HeadText f32
  | HeadKeyboard | HeadAbout | HeadUpdates

datatype menu_row = RowHead menu_head | RowItem menu_action "blocked option" "bool option" | RowNote menu_note menu_tone

record session_state =
  ss_running :: bool
  ss_paused :: bool
  ss_role :: string
  ss_may_edit :: bool
  ss_conflicts :: nat
  ss_marked_file :: "string option"

record bar_state =
  bs_session :: "session_state option"
  bs_update :: update_state
  bs_supervisor :: bool
  bs_mode :: mode
  bs_density :: density
  bs_reduced_motion :: bool
  bs_text_scale :: f32

definition verb :: "menu_action \<Rightarrow> blocked option \<Rightarrow> menu_row" where
  "verb action b = RowItem action b None"

definition choice_row :: "menu_action \<Rightarrow> bool \<Rightarrow> menu_row" where
  "choice_row action current = RowItem action None (Some current)"

definition session_rows :: "bar_state \<Rightarrow> menu_row list" where
  "session_rows bs =
     (let session = bs_session bs;
          running = is_some_and ss_running session;
          paused = is_some_and ss_paused session;
          start = (if session = None then Some NeedsSession else if running then Some SessionRuns else None);
          stop = (if session = None then Some NeedsSession else if \<not> running then Some SessionStopped else None);
          pause = (if session = None then Some NeedsSession else if \<not> running then Some NeedsRunning else if paused then Some IsPaused else None);
          resume = (if session = None then Some NeedsSession else if \<not> running then Some NeedsRunning else if \<not> paused then Some IsNotPaused else None);
          rename = (case session of
             None \<Rightarrow> Some NeedsSession
           | Some s \<Rightarrow>
               if \<not> ss_running s then Some NeedsRunning
               else if \<not> ss_may_edit s then Some (RoleCannotEdit (ss_role s))
               else if ss_marked_file s = None then Some NeedsFile else None);
          folder = (if session = None then Some NeedsSession else None)
      in [RowHead HeadLifecycle, verb ActStart start, verb ActStop stop, verb ActPause pause, verb ActResume resume,
          RowHead HeadFolder, verb ActOpenFolder folder, verb ActCopyPath folder, verb ActRename rename])"

definition tools_rows :: "bar_state \<Rightarrow> menu_row list" where
  "tools_rows bs =
     (let session = bs_session bs;
          live = (case session of None \<Rightarrow> Some NeedsSession | Some s \<Rightarrow> if \<not> ss_running s then Some NeedsRunning else None);
          rekey = (if session = None then Some NeedsSession else None);
          prune = (case session of Some s \<Rightarrow> if live = None \<and> ss_conflicts s = 0 then Some NoConflicts else live | None \<Rightarrow> live)
      in [RowHead HeadThisSession, verb ActDoctor live, verb ActDashboard live, verb ActGc live, verb ActRekey rekey, verb ActPrune prune,
          RowHead HeadThisMachine, verb (ActSupervisor (\<not> bs_supervisor bs)) None])"

definition MODE_ALL :: "mode list" where "MODE_ALL = [Night, Paper, Contrast]"
definition DENSITY_ALL :: "density list" where "DENSITY_ALL = [Compact, Regular, Relaxed]"

definition display_rows :: "bar_state \<Rightarrow> menu_row list" where
  "display_rows bs =
     (let scale = clamp_scale (bs_text_scale bs); bigger = step_scale scale True; smaller = step_scale scale False in
      [RowHead HeadPalette] @ map (\<lambda>m. choice_row (ActPalette m) (m = bs_mode bs)) MODE_ALL
      @ [RowHead HeadDensity] @ map (\<lambda>d. choice_row (ActDensity d) (d = bs_density bs)) DENSITY_ALL
      @ [RowHead HeadMotion, choice_row (ActMotion False) (\<not> bs_reduced_motion bs), choice_row (ActMotion True) (bs_reduced_motion bs),
         RowHead (HeadText scale),
         verb (ActTextScale bigger) (if bigger = scale then Some TextAtMax else None),
         verb (ActTextScale smaller) (if smaller = scale then Some TextAtMin else None),
         verb (ActTextScale (Fin SCALE_DEFAULT)) (if scale = Fin SCALE_DEFAULT then Some TextAtDefault else None)])"

definition update_item_row :: "update_item \<Rightarrow> menu_row" where
  "update_item_row it =
     (case it of
        ItemBusy \<Rightarrow> verb ActCheckUpdate (Some UpdateBusy)
      | ItemInstall _ \<Rightarrow> verb ActApplyUpdate None
      | ItemCheck \<Rightarrow> verb ActCheckUpdate None)"

definition help_rows :: "bar_state \<Rightarrow> instant \<Rightarrow> menu_row list" where
  "help_rows bs now =
     (case update_rows (bs_update bs) now of
        (it, note, tone) \<Rightarrow>
          [RowHead HeadKeyboard, verb ActShortcuts None, RowHead HeadAbout, verb ActColophon None, RowHead HeadUpdates,
           update_item_row it, RowNote note tone])"

definition menu_rows :: "menu \<Rightarrow> bar_state \<Rightarrow> instant \<Rightarrow> menu_row list" where
  "menu_rows m bs now =
     (case m of MSession \<Rightarrow> session_rows bs | MTools \<Rightarrow> tools_rows bs | MDisplay \<Rightarrow> display_rows bs | MHelp \<Rightarrow> help_rows bs now)"

definition gui_role_can_edit :: "string \<Rightarrow> bool" where
  "gui_role_can_edit role \<longleftrightarrow> role \<notin> {''viewer'', ''archive''}"

text \<open>The bar for the selected row of the overview.\<close>

definition bar_session :: "string option \<Rightarrow> session_row list option \<Rightarrow> string option \<Rightarrow> session_state option" where
  "bar_session selected rows marked =
     (case selected of
        None \<Rightarrow> None
      | Some sel \<Rightarrow>
          (case rows of
             None \<Rightarrow> None
           | Some rs \<Rightarrow>
               map_option (\<lambda>r. \<lparr>ss_running = row_running r, ss_paused = row_paused r, ss_role = row_role r, ss_may_edit = gui_role_can_edit (row_role r),
                 ss_conflicts = row_conflicts r, ss_marked_file = marked\<rparr>) (find (\<lambda>r. row_path r = sel) rs)))"

definition enabled :: "menu_action \<Rightarrow> menu_row list \<Rightarrow> bool" where
  "enabled action rows \<longleftrightarrow> list_ex (\<lambda>r. case r of RowItem a b _ \<Rightarrow> a = action \<and> b = None | _ \<Rightarrow> False) rows"

section \<open>The overview\<close>

record standing_facts =
  sf_running :: bool
  sf_strict :: bool
  sf_files :: nat
  sf_held_by_you :: nat
  sf_held_by_peers :: nat
  sf_conflicts :: nat
  sf_peers_online :: nat
  sf_peers_total :: nat

definition plural_of :: "nat \<Rightarrow> string \<Rightarrow> string \<Rightarrow> string" where
  "plural_of n one many = show_nat n @ '' '' @ (if n = 1 then one else many)"

definition standing :: "standing_facts \<Rightarrow> string" where
  "standing s =
     (if \<not> sf_running s then ''This session is stopped. Nothing is syncing, and no file here can be edited.''
      else
        let files = plural_of (sf_files s) ''file'' ''files'';
            yours = sf_held_by_you s; theirs = sf_held_by_peers s;
            custody =
              (if yours = 0 \<and> theirs = 0 then ''nothing is held''
               else if theirs = 0 then ''you hold '' @ plural_of yours ''file'' ''files''
               else if yours = 0 then plural_of theirs ''file is'' ''files are'' @ '' held elsewhere''
               else ''you hold '' @ plural_of yours ''file'' ''files'' @ '', '' @ plural_of theirs ''file is'' ''files are'' @ '' held elsewhere'');
            reach =
              (if sf_peers_total s = 0 then ''no peer has joined yet''
               else if sf_peers_online s = 0 then ''no peer is reachable''
               else if sf_peers_online s = sf_peers_total s then ''in step with '' @ plural_of (sf_peers_online s) ''peer'' ''peers''
               else show_nat (sf_peers_online s) @ '' of '' @ show_nat (sf_peers_total s) @ '' peers reachable'')
        in files @ '', '' @ custody @ '', '' @ reach @ ''.'')"

datatype attention_item = AttConflicts nat | AttNoPeers | AttUnpublished nat | AttStopped

definition attention :: "standing_facts \<Rightarrow> attention_item list" where
  "attention s =
     (if \<not> sf_running s then [AttStopped]
      else (if sf_conflicts s > 0 then [AttConflicts (sf_conflicts s)] else [])
         @ (if sf_strict s \<and> sf_peers_online s = 0 \<and> sf_peers_total s > 0 then [AttNoPeers] else [])
         @ (if sf_held_by_you s > 0 then [AttUnpublished (sf_held_by_you s)] else []))"

section \<open>The figure of the peers\<close>

record star =
  st_id :: string
  st_name :: string
  st_rtt_ms :: "u32 option"
  st_relayed :: bool
  st_online :: bool
  st_grade :: "string option"

definition MAX_STARS :: nat where "MAX_STARS = 24"
definition LABEL_MAX_CHARS :: nat where "LABEL_MAX_CHARS = 14"

definition class_key :: "star \<Rightarrow> nat \<times> string" where
  "class_key s = (if \<not> st_online s then 2 else if st_rtt_ms s = None then 1 else 0, st_id s)"

definition order_stars :: "star list \<Rightarrow> nat list \<times> nat" where
  "order_stars stars = (take MAX_STARS (sort_key (\<lambda>i. class_key (stars ! i)) [0..<length stars]), length stars - MAX_STARS)"

definition grade_of :: "bool \<Rightarrow> bool \<Rightarrow> u32 option \<Rightarrow> string" where
  "grade_of online relayed rtt_ms =
     (if \<not> online then ''Offline''
      else case rtt_ms of
        Some ms \<Rightarrow>
          if of_nat (unat ms) \<ge> GRADE_POOR_MIN_RTT_MS then ''Poor''
          else if \<not> relayed \<and> of_nat (unat ms) < GRADE_GOOD_MAX_RTT_MS then ''Good'' else ''Fair''
      | None \<Rightarrow> ''Fair'')"

definition house_grade :: "string \<Rightarrow> string option" where
  "house_grade g = (if g \<in> {''Good'', ''Fair'', ''Poor'', ''Offline''} then Some g else None)"

definition shown_grade :: "star \<Rightarrow> string" where
  "shown_grade s =
     (let own = grade_of (st_online s) (st_relayed s) (st_rtt_ms s) in
      case (st_online s, st_grade s) of (True, Some g) \<Rightarrow> unwrap_or own (house_grade g) | _ \<Rightarrow> own)"

definition clause :: "string list \<Rightarrow> string" where
  "clause parts = join_with '', '' (filter (\<lambda>p. p \<noteq> []) (map trim parts))"

definition sentence :: "string \<Rightarrow> string list \<Rightarrow> string" where
  "sentence lead parts =
     (let l = trim lead; body = clause parts in if l = [] then body else if body = [] then l else l @ '': '' @ body)"

definition spoken_ms :: "nat \<Rightarrow> string" where
  "spoken_ms ms = (if ms = 1 then ''1 millisecond'' else show_nat ms @ '' milliseconds'')"

definition star_phrase :: "star \<Rightarrow> string" where
  "star_phrase s =
     (let name0 = (if trim (st_name s) = [] then trim (st_id s) else trim (st_name s));
          name = (if name0 = [] then ''unnamed peer'' else name0)
      in if \<not> st_online s then name @ '' offline''
         else name @ '' '' @ (if st_relayed s then ''relayed'' else ''direct'') @ '' ''
           @ (case st_rtt_ms s of Some ms \<Rightarrow> spoken_ms (unat ms) | None \<Rightarrow> ''round-trip unmeasured''))"

definition sky_sentence :: "star list \<Rightarrow> string" where
  "sky_sentence stars =
     (if stars = [] then sentence ''peer mesh'' [''no peers yet'']
      else case order_stars stars of
        (order, overflow) \<Rightarrow>
          sentence (''peer mesh, '' @ show_nat (length stars) @ '' '' @ (if length stars = 1 then ''peer'' else ''peers''))
            (map (\<lambda>i. star_phrase (stars ! i)) order @ (if overflow > 0 then [show_nat overflow @ '' more not drawn''] else [])))"

definition step_cursor :: "nat option \<Rightarrow> nat \<Rightarrow> bool \<Rightarrow> bool \<Rightarrow> bool \<Rightarrow> bool \<Rightarrow> nat option" where
  "step_cursor held slots fwd bwd to_first to_last =
     (if slots = 0 then None
      else
        let held' = map_option (\<lambda>slot. min slot (slots - 1)) held in
        if to_first then Some 0
        else if to_last then Some (slots - 1)
        else if fwd then Some (case held' of None \<Rightarrow> 0 | Some slot \<Rightarrow> min (slot + 1) (slots - 1))
        else if bwd then (case held' of None \<Rightarrow> None | Some slot \<Rightarrow> if slot = 0 then None else Some (slot - 1))
        else held')"

definition fnv1a64 :: "string \<Rightarrow> u64" where
  "fnv1a64 s = fold (\<lambda>b h. xor h (of_nat (ascii_code b)) * 0x100000001b3) s 0xcbf29ce484222325"

definition mix64 :: "u64 \<Rightarrow> u64" where
  "mix64 h =
     (let h1 = xor h (drop_bit 30 h) * 0xbf58476d1ce4e5b9;
          h2 = xor h1 (drop_bit 27 h1) * 0x94d049bb133111eb
      in xor h2 (drop_bit 31 h2))"

definition ELLIPSIS :: string where "ELLIPSIS = [CHR 0xE2, CHR 0x80, CHR 0xA6]"

definition elide :: "string \<Rightarrow> string" where
  "elide name = (if char_count name \<le> LABEL_MAX_CHARS then name else take_chars (LABEL_MAX_CHARS - 1) name @ ELLIPSIS)"

section \<open>What the menus offer\<close>

lemmas row_defs = enabled_def session_rows_def tools_rows_def verb_def choice_row_def Let_def

text \<open>With a session selected one of start and stop can be chosen, and never pause and resume together.\<close>

lemma lifecycle_exclusive:
  assumes "bs_session bs = Some s"
  shows "enabled ActStart (session_rows bs) \<longleftrightarrow> \<not> enabled ActStop (session_rows bs)" "\<not> (enabled ActPause (session_rows bs) \<and> enabled ActResume (session_rows bs))"
  using assms by (auto simp: row_defs)

text \<open>Without a session nothing of it is offered, and a rename never to a role that may not edit.\<close>

lemma nothing_without_session:
  assumes "bs_session bs = None"
  shows "enabled a (session_rows bs) = False" "enabled a (tools_rows bs) \<longleftrightarrow> a = ActSupervisor (\<not> bs_supervisor bs)"
  using assms by (auto simp: row_defs)

lemma rename_needs_editor:
  assumes "enabled ActRename (session_rows bs)" "bs_session bs = bar_session selected rows marked"
  shows "\<exists>rs r. rows = Some rs \<and> r \<in> set rs \<and> selected = Some (row_path r) \<and> row_running r \<and> row_role r \<notin> {''viewer'', ''archive''} \<and> marked \<noteq> None"
  using assms by (auto simp: row_defs bar_session_def gui_role_can_edit_def find_Some_iff in_set_conv_nth split: option.splits if_splits)

text \<open>
  A session that a supervisor pauses cannot be resumed from the window: the pause ends its daemon, the next poll of the folder finds nothing
  listening, and the menu then blocks its only entry for resuming, although resuming is exactly what the supervisor would accept.
\<close>

theorem paused_session_cannot_be_resumed:
  assumes "handle_control absolute True spawned (CtlPause dir) sp = (CtlPaused dir True, sp')" "sup_ok sp"
    and "reg_find (absolute dir) (load_registry (sp_file sp')) = Some entry"
    and "sn_rows (run_refresh now hosted dir_of selected (Some [(entry, Some f, slow, PollNoDaemon)]) detail sn) = Some rows"
    and "bs_session bs = bar_session (Some (absolute dir)) (Some rows) marked"
  shows "\<not> bt_contains (sp_hosted sp') (absolute dir) \<and> sr_paused entry \<and> \<not> enabled ActResume (menu_rows MSession bs now')
    \<and> enabled ActStart (menu_rows MSession bs now')
    \<and> fst (handle_control absolute True (Inr h) (CtlResume dir) sp') = CtlResumed dir"
proof -
  obtain prev reg where reg: "set_paused absolute dir True (load_registry (sp_file sp)) = Some (prev, reg)"
    "stop_session absolute dir (sp\<lparr>sp_file := save_registry True reg (sp_file sp)\<rparr>) = (True, sp')"
    using assms(1) by (auto simp: handle_control_def split: option.splits prod.splits)
  have rok: "reg_ok (load_registry (sp_file sp))" using assms(2) by (simp add: sup_ok_def)
  have sp': "sp_hosted sp' = bt_remove (absolute dir) (sp_hosted sp)" "sp_file sp' = save_registry True reg (sp_file sp)"
    using reg(2) by (auto simp: stop_session_def split: option.splits)
  have entry: "sr_path entry = absolute dir" using assms(3) by (auto simp: reg_find_def find_Some_iff)
  have paused: "sr_paused entry" using paused_in_set [OF rok reg(1), of "absolute dir"] assms(3) sp'(2) by (auto simp: paused_in_def)
  obtain p where "rows = [session_row_of entry hosted p (Some f) PollNoDaemon]"
    using assms(4) by (cases "snd detail") (auto simp: run_refresh_def Let_def split: prod.splits)
  then have bar: "\<exists>st. bs_session bs = Some st \<and> \<not> ss_running st"
    using assms(5) entry by (simp add: bar_session_def session_row_of_def)
  then have "\<not> enabled ActResume (menu_rows MSession bs now') \<and> enabled ActStart (menu_rows MSession bs now')"
    by (auto simp: menu_rows_def row_defs)
  moreover have "fst (handle_control absolute True (Inr h) (CtlResume dir) sp') = CtlResumed dir"
  proof -
    have "set_paused absolute dir False (load_registry (sp_file sp')) \<noteq> None" using assms(3) by (simp add: set_paused_def pause_first_None)
    then show ?thesis by (auto simp: handle_control_def spawn_session_def sp'(1))
  qed
  ultimately show ?thesis using paused by (simp add: sp'(1))
qed

text \<open>A folder with one paused session, to show that the situation exists.\<close>

definition demo_supervisor :: supervisor where
  "demo_supervisor = \<lparr>sp_hosted = [(''/a'', 1)], sp_alive = {1}, sp_file = Some [demo_ref]\<rparr>"

definition demo_bar :: bar_state where
  "demo_bar = \<lparr>bs_session = bar_session (Some ''/a'') (Some [session_row_of (demo_ref\<lparr>sr_paused := True\<rparr>) {} (Some demo_row) (Some (read_disk_facts 0 None)) PollNoDaemon]) None,
     bs_update = demo_update, bs_supervisor = True, bs_mode = Contrast, bs_density = Regular, bs_reduced_motion = False, bs_text_scale = Fin 1\<rparr>"

theorem paused_session_cannot_be_resumed_witness:
  "\<exists>sp'. handle_control id True (Inr 2) (CtlPause ''/a'') demo_supervisor = (CtlPaused ''/a'' True, sp')
     \<and> \<not> enabled ActResume (menu_rows MSession demo_bar 0) \<and> fst (handle_control id True (Inr 2) (CtlResume ''/a'') sp') = CtlResumed ''/a''"
proof -
  let ?sp' = "\<lparr>sp_hosted = [], sp_alive = {}, sp_file = Some [demo_ref\<lparr>sr_paused := True\<rparr>]\<rparr> :: supervisor"
  have 1: "handle_control id True (Inr 2) (CtlPause ''/a'') demo_supervisor = (CtlPaused ''/a'' True, ?sp')"
    by (simp add: handle_control_def demo_supervisor_def demo_ref_def set_paused_def load_registry_def save_registry_def stop_session_def bt_get_def bt_remove_def)
  have 2: "sup_ok demo_supervisor"
    by (auto simp: sup_ok_def demo_supervisor_def demo_ref_def bt_wf_def reg_ok_def load_registry_def paused_in_def reg_find_def)
  have 3: "reg_find (id ''/a'') (load_registry (sp_file ?sp')) = Some (demo_ref\<lparr>sr_paused := True\<rparr>)"
    by (simp add: reg_find_def load_registry_def demo_ref_def)
  let ?ss = "[(demo_ref\<lparr>sr_paused := True\<rparr>, Some (read_disk_facts 0 None), False, PollNoDaemon)]"
  have 4: "sn_rows (run_refresh 9 {} id (Some ''/a'') (Some ?ss) (True, StateNoDaemon None) demo_snapshot)
      = Some [session_row_of (demo_ref\<lparr>sr_paused := True\<rparr>) {} (Some demo_row) (Some (read_disk_facts 0 None)) PollNoDaemon]"
    by (simp add: run_refresh_def Let_def demo_snapshot_def demo_row_def demo_ref_def)
  have 5: "bs_session demo_bar = bar_session (Some (id ''/a'')) (Some [session_row_of (demo_ref\<lparr>sr_paused := True\<rparr>) {} (Some demo_row) (Some (read_disk_facts 0 None)) PollNoDaemon]) None"
    by (simp add: demo_bar_def)
  show ?thesis using paused_session_cannot_be_resumed [OF 1 2 3 4 5, of 0 2] 1 by blast
qed

section \<open>What the overview says\<close>

text \<open>Nothing calls for attention exactly when the session runs, no copy waits, nothing is held here and edits are not refused for want of peers.\<close>

lemma attention_empty_iff:
  "attention s = [] \<longleftrightarrow> sf_running s \<and> sf_conflicts s = 0 \<and> sf_held_by_you s = 0 \<and> (sf_strict s \<and> sf_peers_total s > 0 \<longrightarrow> sf_peers_online s > 0)"
  by (auto simp: attention_def)

section \<open>Text sizes move\<close>

text \<open>A larger size is larger until the largest, a smaller one smaller until the smallest.\<close>

lemma step_scale_moves:
  assumes "SCALE_MIN \<le> x" "x \<le> SCALE_MAX"
  shows "\<exists>y. step_scale (Fin x) True = Fin y \<and> y \<le> SCALE_MAX \<and> (x < y \<or> x = SCALE_MAX)"
    "\<exists>y. step_scale (Fin x) False = Fin y \<and> SCALE_MIN \<le> y \<and> (y < x \<or> x = SCALE_MIN)"
proof -
  let ?n = "x / SCALE_STEP"
  have n: "x = ?n * SCALE_STEP" by (simp add: SCALE_STEP_def)
  have "?n + SCALE_EPS < of_int \<lfloor>?n + SCALE_EPS\<rfloor> + 1" by linarith
  then have up: "x < (of_int \<lfloor>?n + SCALE_EPS\<rfloor> + 1) * SCALE_STEP" by (simp add: SCALE_STEP_def SCALE_EPS_def field_simps)
  have "of_int \<lceil>?n - SCALE_EPS\<rceil> - 1 < ?n - SCALE_EPS" by linarith
  then have down: "(of_int \<lceil>?n - SCALE_EPS\<rceil> - 1) * SCALE_STEP < x" by (simp add: SCALE_STEP_def SCALE_EPS_def field_simps)
  show "\<exists>y. step_scale (Fin x) True = Fin y \<and> y \<le> SCALE_MAX \<and> (x < y \<or> x = SCALE_MAX)"
    using up assms by (auto simp: step_scale_def clamp_scale_def Let_def max_def min_def)
  show "\<exists>y. step_scale (Fin x) False = Fin y \<and> SCALE_MIN \<le> y \<and> (y < x \<or> x = SCALE_MIN)"
    using down assms by (auto simp: step_scale_def clamp_scale_def Let_def max_def min_def)
qed

section \<open>The order of the peers\<close>

text \<open>Every drawn peer once, at most 24, the rest counted; a measured peer is never left out for one that is not.\<close>

lemma order_stars_sound:
  assumes "order_stars stars = (order, overflow)"
  shows "distinct order \<and> set order \<subseteq> {..<length stars} \<and> length order \<le> MAX_STARS \<and> length order + overflow = length stars
    \<and> (\<forall>i \<in> set order. \<forall>j < length stars. j \<notin> set order \<longrightarrow> class_key (stars ! i) \<le> class_key (stars ! j))"
proof -
  let ?all = "sort_key (\<lambda>i. class_key (stars ! i)) [0..<length stars]"
  have o: "order = take MAX_STARS ?all" "overflow = length stars - MAX_STARS" using assms by (auto simp: order_stars_def)
  have d: "distinct ?all" "set ?all = {..<length stars}" by (auto simp: lessThan_atLeast0)
  have "class_key (stars ! i) \<le> class_key (stars ! j)" if "i \<in> set order" "j < length stars" "j \<notin> set order" for i j
  proof -
    have "sorted (map (\<lambda>i. class_key (stars ! i)) (order @ drop MAX_STARS ?all))" unfolding o by simp
    moreover have "j \<in> set (drop MAX_STARS ?all)"
      using that(2,3) d(2) unfolding o by (metis UnE append_take_drop_id lessThan_iff set_append)
    ultimately show ?thesis using that(1) by (auto simp: sorted_append)
  qed
  moreover have "set order \<subseteq> {..<length stars}" using d(2) set_take_subset [of MAX_STARS ?all] o by auto
  ultimately show ?thesis using o d(1) by auto
qed

text \<open>The cursor stays on a drawn star or on the figure.\<close>

lemma step_cursor_in_range: "step_cursor held slots fwd bwd f l = Some c \<Longrightarrow> c < slots"
  by (auto simp: step_cursor_def Let_def split: if_splits option.splits)

end
