(* ===== verification/Replies.thy ===== *)
theory Replies
  imports Daemon LogFile LocalApi AdminProps Invite ContentTransfer Health QueryProps
begin

text \<open>
  What the daemon answers its local clients (\<^verbatim>\<open>src/daemon.rs\<close>): invites, version listings and comparisons, the audit and
  quarantine queries, the status and doctor snapshots, the link telemetry with its event ring, and \<^verbatim>\<open>Actor::on_ipc\<close>, which hands each request
  either to a handler of the event loop or to a query.  Replies are records of the values the JSON carries; the JSON text itself is a library's.
\<close>

section \<open>The audit query\<close>

definition AUDIT_QUERY_LIMIT_MAX :: nat where "AUDIT_QUERY_LIMIT_MAX = 500"
definition AUDIT_QUERY_LIMIT_DEFAULT :: nat where "AUDIT_QUERY_LIMIT_DEFAULT = 200"
definition AUDIT_QUERY_KINDS_MAX :: nat where "AUDIT_QUERY_KINDS_MAX = 32"

record audit_reply =
  ay_events :: "audit_event list"
  ay_matched :: nat
  ay_limit :: nat
  ay_next_offset :: "nat option"
  ay_truncated :: bool
  ay_newest_first :: bool
  ay_enabled :: bool
  ay_ledger_bytes :: nat

definition opt_cost :: "string option \<Rightarrow> nat" where
  "opt_cost s = (case s of None \<Rightarrow> 0 | Some t \<Rightarrow> json_cost t)"

definition event_cost :: "audit_event \<Rightarrow> nat" where
  "event_cost e = json_cost (ae_kind e) + opt_cost (ae_path e) + opt_cost (ae_peer e) + opt_cost (ae_detail e) + 224"

text \<open>The checks of the query, in the code's order; the error is its code.\<close>

definition audit_query_filter :: "audit_query \<Rightarrow> string + audit_filter" where
  "audit_query_filter q =
     (case (case aq_path q of None \<Rightarrow> Inr None | Some p \<Rightarrow> map_sum id Some (sanitize_rel_path p)) of
        Inl _ \<Rightarrow> Inl ''bad_path''
      | Inr path \<Rightarrow>
          if is_some_and (\<lambda>peer. \<not> valid_peer_filter peer) (aq_peer q) then Inl ''bad_request''
          else if length (aq_kinds q) > AUDIT_QUERY_KINDS_MAX then Inl ''bad_request''
          else if list_ex (\<lambda>k. \<not> valid_audit_kind k) (aq_kinds q) then Inl ''bad_request''
          else Inr \<lparr>af_path = path, af_peer = aq_peer q, af_since_ms = aq_since_ms q, af_kinds = aq_kinds q\<rparr>)"

text \<open>\<open>ledger\<close> is the content of the audit log, if there is one; \<open>lossy\<close> and \<open>parse\<close> are the readers of its bytes and lines.\<close>

definition handle_audit_query ::
  "(string \<Rightarrow> string) \<Rightarrow> (string \<Rightarrow> audit_event option) \<Rightarrow> string option \<Rightarrow> bool \<Rightarrow> audit_query \<Rightarrow> string + audit_reply" where
  "handle_audit_query lossy parse ledger enabled q =
     (case audit_query_filter q of
        Inl e \<Rightarrow> Inl e
      | Inr f \<Rightarrow>
          let limit = clamp_limit (aq_limit q) AUDIT_QUERY_LIMIT_DEFAULT AUDIT_QUERY_LIMIT_MAX;
              newest_first = unwrap_or True (aq_newest_first q);
              found = audit_read lossy parse f ledger;
              (rows, truncated) = fill_budget event_cost (audit_page found newest_first (aq_offset q) limit)
          in Inr \<lparr>ay_events = rows, ay_matched = length found, ay_limit = limit,
                  ay_next_offset = next_offset (aq_offset q) (length rows) (length found), ay_truncated = truncated,
                  ay_newest_first = newest_first, ay_enabled = enabled, ay_ledger_bytes = end_offset ledger\<rparr>)"

section \<open>The quarantine\<close>

definition CONFLICTS_LIST_MAX :: nat where "CONFLICTS_LIST_MAX = 200"
definition CONFLICTS_BUDGET :: nat where "CONFLICTS_BUDGET = 700 * 1024"

record conflict_row =
  cw_entry :: conflict_entry
  cw_age_ms :: u64
  cw_both_name :: "string option"

text \<open>The suggested keep-both name avoids the live files of the index; a name that cannot be a path is not taken.\<close>

definition name_taken :: "(relpath, file_record) btree \<Rightarrow> string \<Rightarrow> bool" where
  "name_taken files c = (case sanitize_rel_path c of Inl _ \<Rightarrow> False | Inr r \<Rightarrow> is_live (bt_get files r))"

definition conflict_row_of :: "(relpath, file_record) btree \<Rightarrow> u64 \<Rightarrow> conflict_entry \<Rightarrow> conflict_row" where
  "conflict_row_of files now e =
     \<lparr>cw_entry = e, cw_age_ms = saturating_sub now (ce_ts_ms e),
      cw_both_name = map_option (\<lambda>p. both_name p now (name_taken files)) (ce_path e)\<rparr>"

definition opt_len :: "string option \<Rightarrow> nat" where
  "opt_len s = (case s of None \<Rightarrow> 0 | Some t \<Rightarrow> length t)"

definition conflict_row_cost :: "conflict_row \<Rightarrow> nat" where
  "conflict_row_cost r = length (ce_name (cw_entry r)) + opt_len (ce_path (cw_entry r)) + opt_len (cw_both_name r) + 160"

fun conflicts_loop ::
  "(relpath, file_record) btree \<Rightarrow> u64 \<Rightarrow> conflict_entry list \<Rightarrow> nat \<Rightarrow> conflict_row list \<Rightarrow> conflict_row list" where
  "conflicts_loop files now [] budget out = out"
| "conflicts_loop files now (e # es) budget out =
     (if length out \<ge> CONFLICTS_LIST_MAX then out
      else let r = conflict_row_of files now e; budget' = budget - conflict_row_cost r
        in if budget' = 0 \<and> out \<noteq> [] then out else conflicts_loop files now es budget' (out @ [r]))"

definition conflict_rows :: "(relpath, file_record) btree \<Rightarrow> u64 \<Rightarrow> folder \<Rightarrow> conflict_row list" where
  "conflict_rows files now fo = conflicts_loop files now (list_conflicts fo) CONFLICTS_BUDGET []"

definition conflicts_totals :: "folder \<Rightarrow> nat \<times> u64" where
  "conflicts_totals fo = (let es = list_conflicts fo in (length es, sum_list (map ce_size es)))"

record prunable_reply =
  pb_cutoff_ms :: u64
  pb_now_ms :: u64
  pb_count :: nat
  pb_bytes :: u64
  pb_entries :: "(conflict_entry \<times> u64) list"
  pb_truncated :: bool
  pb_total :: nat
  pb_total_bytes :: u64

definition entry_cost :: "conflict_entry \<Rightarrow> nat" where
  "entry_cost e = json_cost (ce_name e) + opt_cost (ce_path e) + opt_cost (ce_reason e) + 224"

definition handle_conflicts_prunable :: "u64 \<Rightarrow> u64 \<Rightarrow> folder \<Rightarrow> prunable_reply" where
  "handle_conflicts_prunable now older_than_ms fo =
     (let es = list_conflicts fo; prunable = select_prunable es now older_than_ms;
          (rows, truncated) = fill_budget entry_cost prunable
      in \<lparr>pb_cutoff_ms = saturating_sub now older_than_ms, pb_now_ms = now, pb_count = length prunable,
          pb_bytes = sum_list (map ce_size prunable),
          pb_entries = map (\<lambda>e. (e, saturating_sub now (ce_ts_ms e))) rows, pb_truncated = truncated,
          pb_total = length es, pb_total_bytes = sum_list (map ce_size es)\<rparr>)"

section \<open>Invites\<close>

record invite_reply =
  iv_ticket :: string
  iv_note :: "string option"

text \<open>\<open>fmt\<close> prints a lifetime of so many milliseconds.\<close>

definition invite_note :: "(u64 \<Rightarrow> string) \<Rightarrow> u8 \<Rightarrow> u64 \<Rightarrow> string" where
  "invite_note fmt code ttl =
     ''this is an '' @ role_name code @ '' invite'' @ (if ttl > 0 then '', expiring in '' @ fmt ttl else []) @ ''.''"

definition invite_role :: "string option \<Rightarrow> string + u8" where
  "invite_role role =
     (case role of
        None \<Rightarrow> Inr ROLE_EDITOR
      | Some r \<Rightarrow> (case role_parse r of Inl _ \<Rightarrow> Inl ''bad_role'' | Inr nr \<Rightarrow> Inr (role_code nr)))"

definition handle_invite ::
  "'sk key_env \<Rightarrow> ticket_codec \<Rightarrow> (u64 \<Rightarrow> string) \<Rightarrow> endpoint_addr \<Rightarrow> bytes \<Rightarrow> u64 \<Rightarrow> app_state \<Rightarrow> string option \<Rightarrow> u64 option
     \<Rightarrow> string + invite_reply" where
  "handle_invite ke tc fmt addr invite_id now st role lifetime =
     (case decode_hex32 ke (as_session_secret st) of
        None \<Rightarrow> Inl ''internal''
      | Some session_secret \<Rightarrow>
          let bootstrap = [from_endpoint_addr addr] in
          case (admin_secret_key ke st, Option.bind (as_admin_public_key st) (decode_hex32 ke)) of
            (Some admin, Some admin_pub) \<Rightarrow>
              (case invite_role role of
                 Inl e \<Rightarrow> Inl e
               | Inr code \<Rightarrow>
                   let ttl = unwrap_or 0 lifetime;
                       t = mint_ticket (ke_crypto ke) session_secret (Some (admin, admin_pub)) code invite_id now ttl bootstrap
                   in Inr \<lparr>iv_ticket = encode_ticket tc t, iv_note = Some (invite_note fmt code ttl)\<rparr>)
          | _ \<Rightarrow>
              if enforcing_roles st then Inl ''role_forbidden''
              else Inr \<lparr>iv_ticket = encode_ticket tc (new_ticket session_secret bootstrap), iv_note = None\<rparr>)"

section \<open>Versions\<close>

record versions_reply =
  vy_path :: relpath
  vy_versions :: "(nat \<times> string \<times> u64 \<times> u64 \<times> string option \<times> bool) list"
  vy_history_bytes :: u64
  vy_session_bytes :: u64

definition handle_versions :: "app_state \<Rightarrow> string \<Rightarrow> string + versions_reply" where
  "handle_versions st path =
     (case sanitize_rel_path path of
        Inl _ \<Rightarrow> Inl ''bad_path''
      | Inr rel \<Rightarrow>
          Inr \<lparr>vy_path = rel,
               vy_versions = map (\<lambda>(n, ts, sz, nm, pinned). (n, utc_timestamp ts, ts, sz, nm, pinned)) (list_history st rel),
               vy_history_bytes = disk_bytes st rel, vy_session_bytes = snd (snd (footprint st))\<rparr>)"

record diff_reply =
  dy_path :: relpath
  dy_n :: nat
  dy_tag :: "string option"
  dy_ts_ms :: u64
  dy_stat :: diff_stat
  dy_changed_pct :: rat
  dy_identical :: bool

text \<open>The share of the new version that has to be transferred, in per cent (a floating point number in the code, exact here).\<close>

definition changed_pct :: "diff_stat \<Rightarrow> rat" where
  "changed_pct d =
     (if ds_new_bytes d = 0 then (if ds_old_bytes d = 0 then 0 else 100)
      else of_nat (unat (ds_transfer_bytes d)) / of_nat (unat (ds_new_bytes d)) * 100)"

definition local_manifest_chunks :: "(bytes \<Rightarrow> chunk_ref list option) \<Rightarrow> store \<Rightarrow> manifest_ref \<Rightarrow> u64 \<Rightarrow> transfer_error + chunk_ref list" where
  "local_manifest_chunks de_refs st m expected = map_sum id fst (resolve_manifest de_refs None m expected st)"

definition handle_diff :: "(bytes \<Rightarrow> chunk_ref list option) \<Rightarrow> store \<Rightarrow> app_state \<Rightarrow> string \<Rightarrow> nat \<Rightarrow> string + diff_reply" where
  "handle_diff de_refs store st path n =
     (case sanitize_rel_path path of
        Inl _ \<Rightarrow> Inl ''bad_path''
      | Inr rel \<Rightarrow>
          (case bt_get (as_files st) rel of
             None \<Rightarrow> Inl ''no_current''
           | Some cur \<Rightarrow>
               if fr_deleted cur then Inl ''no_current''
               else (case history_entry st rel n of
                       None \<Rightarrow> Inl ''no_history''
                     | Some ver \<Rightarrow>
                         (case (local_manifest_chunks de_refs store (ve_manifest ver) (ve_size ver),
                                local_manifest_chunks de_refs store (fr_manifest cur) (fr_size cur)) of
                            (Inr old, Inr new) \<Rightarrow>
                              let d = diff_chunks old new
                              in Inr \<lparr>dy_path = rel, dy_n = n, dy_tag = ve_tag ver, dy_ts_ms = ve_ts_ms ver, dy_stat = d,
                                      dy_changed_pct = changed_pct d, dy_identical = identical_content d\<rparr>
                          | _ \<Rightarrow> Inl ''diff_failed''))))"

end
