(* ===== verification/Snapshots.thy ===== *)
theory Snapshots
  imports Replies Platform
begin

text \<open>
  The observing side of the daemon (\<^verbatim>\<open>src/daemon.rs\<close>): the link telemetry with its ring of events, the single point every
  lifecycle event passes (\<^verbatim>\<open>observe\<close>), the status, doctor and dashboard snapshots, and the dispatch of client requests (\<^verbatim>\<open>on_ipc\<close>).
  What the network library says of a connection is an argument.
\<close>

section \<open>Links\<close>

definition EVENT_RING :: nat where "EVENT_RING = 5"

text \<open>The texts of the ring, by what they say.\<close>

datatype ring_text = Upgraded node_id rat | Downgraded node_id | CopyDiscarded string

record link_state =
  ls_health :: "(node_id, peer_health) btree"
  ls_ring :: "(u64 \<times> ring_text) list"
  ls_seq :: u64

fun pop_over :: "nat \<Rightarrow> 'a list \<Rightarrow> 'a list" where
  "pop_over cap [] = []"
| "pop_over cap (x # xs) = (if length (x # xs) > cap then pop_over cap xs else x # xs)"

definition push_event :: "ring_text \<Rightarrow> link_state \<Rightarrow> link_state" where
  "push_event t ls =
     (let seq = ls_seq ls + 1 in ls\<lparr>ls_seq := seq, ls_ring := pop_over EVENT_RING (ls_ring ls @ [(seq, t)])\<rparr>)"

definition transition_text :: "node_id \<Rightarrow> conn_state \<Rightarrow> path_sample \<Rightarrow> ring_text option" where
  "transition_text i before s =
     (case (before, ps_conn s) of
        (Relayed, Direct) \<Rightarrow> Some (Upgraded i (ps_rtt_ms s))
      | (Direct, Relayed) \<Rightarrow> Some (Downgraded i)
      | _ \<Rightarrow> None)"

definition sample_one :: "instant \<Rightarrow> node_id \<times> path_sample \<Rightarrow> link_state \<Rightarrow> link_state" where
  "sample_one now e ls =
     (case e of (i, s) \<Rightarrow>
        let h = unwrap_or (seen_only now) (bt_get (ls_health ls) i);
            ls1 = ls\<lparr>ls_health := bt_insert i (on_sample s now h) (ls_health ls)\<rparr>
        in case transition_text i (he_conn h) s of None \<Rightarrow> ls1 | Some t \<Rightarrow> push_event t ls1)"

text \<open>\<open>sample\<close> is what the network library says of the connection to a peer.\<close>

definition on_telemetry_tick :: "instant \<Rightarrow> (node_id \<Rightarrow> path_sample) \<Rightarrow> actor \<Rightarrow> link_state \<Rightarrow> link_state" where
  "on_telemetry_tick now sample a ls = fold (sample_one now) (map (\<lambda>i. (i, sample i)) (bt_keys (ac_peers a))) ls"

text \<open>The sockets that are offered again to reach the peers that are on a relay.\<close>

definition ip_addrs :: "endpoint_addr \<Rightarrow> string list" where
  "ip_addrs addr = List.map_filter (\<lambda>t. case t of Ip s \<Rightarrow> Some s | _ \<Rightarrow> None) (ea_addrs addr)"

definition on_repunch_tick :: "daemon_env \<Rightarrow> actor \<Rightarrow> link_state \<Rightarrow> (node_id \<times> string list) list" where
  "on_repunch_tick env a ls =
     (let relayed = filter (\<lambda>i. is_some_and (\<lambda>h. he_conn h = Relayed) (bt_get (ls_health ls) i)) (bt_keys (ac_peers a))
      in List.map_filter (\<lambda>i. map_option (\<lambda>addr. (i, ip_addrs addr)) (known_member_addr env i a)) relayed)"

definition on_path_changed :: "instant \<Rightarrow> (node_id \<Rightarrow> path_sample) \<Rightarrow> node_id \<Rightarrow> nat \<Rightarrow> actor \<Rightarrow> link_state \<Rightarrow> link_state" where
  "on_path_changed now sample i conn_id a ls =
     (if map_option ph_conn_id (bt_get (ac_peers a) i) \<noteq> Some conn_id then ls
      else case bt_get (ls_health ls) i of
        None \<Rightarrow> ls
      | Some h \<Rightarrow> ls\<lparr>ls_health := bt_insert i (on_sample (sample i) now (on_path_change now h)) (ls_health ls)\<rparr>)"

section \<open>The point of observation\<close>

datatype observation =
    Audited audit_event
  | HookFired string audit_event
  | Notified string string

text \<open>\<open>audit_open\<close>: the audit log is open; \<open>hook_exists\<close>: the hook is installed.\<close>

definition note_body :: "string \<Rightarrow> string option \<Rightarrow> string option \<Rightarrow> string" where
  "note_body kind path detail =
     (case (path, detail) of
        (Some p, Some d) \<Rightarrow> p @ '': '' @ d
      | (Some p, None) \<Rightarrow> p
      | (None, Some d) \<Rightarrow> d
      | (None, None) \<Rightarrow> kind)"

definition observe ::
  "bool \<Rightarrow> (string \<Rightarrow> bool) \<Rightarrow> u64 \<Rightarrow> session_config \<Rightarrow> string \<Rightarrow> string option \<Rightarrow> string option \<Rightarrow> string option \<Rightarrow> observation list" where
  "observe audit_open hook_exists now c kind path peer detail0 =
     (let detail = map_option cap_detail detail0;
          ev = \<lparr>ae_ts_ms = now, ae_kind = kind, ae_path = path, ae_peer = peer, ae_detail = detail\<rparr>
      in (if audit_open then [Audited ev] else [])
         @ (if c_hooks c then
              (case hook_for kind of Some hook \<Rightarrow> if hook_exists hook then [HookFired hook ev] else [] | None \<Rightarrow> [])
            else [])
         @ (if c_notify c then
              (case notify_title kind of Some title \<Rightarrow> [Notified title (note_body kind path detail)] | None \<Rightarrow> [])
            else []))"

section \<open>Snapshots\<close>

text \<open>The ids a session knows of besides the own one, in order.\<close>

definition endpoint_ids :: "daemon_env \<Rightarrow> actor \<Rightarrow> node_id list" where
  "endpoint_ids env a = List.map_filter (\<lambda>(_, w). dv_endpoint_id env (aw_id w)) (as_known_members (ac_state a))"

definition known_peer_ids :: "daemon_env \<Rightarrow> actor \<Rightarrow> node_id list" where
  "known_peer_ids env a =
     filter (\<lambda>i. i \<noteq> ac_me a)
       (sort (remdups (bt_keys (ac_peers a) @ bt_keys (ac_members a) @ endpoint_ids env a @ bt_keys (as_peer_names (ac_state a)))))"

definition member_ids :: "daemon_env \<Rightarrow> actor \<Rightarrow> node_id list" where
  "member_ids env a =
     filter (\<lambda>i. i \<noteq> ac_me a) (sort (remdups (bt_keys (ac_members a) @ bt_keys (ac_peers a) @ endpoint_ids env a)))"

record member_row =
  mr_id :: node_id
  mr_name :: "string option"
  mr_online :: bool
  mr_synced :: bool
  mr_path :: "(string \<times> u64) option"
  mr_grade :: health_grade
  mr_health :: "peer_health option"
  mr_flaps :: nat

text \<open>\<open>path_info\<close>: the kind and the round trip in milliseconds of the selected path of a connection, if there is one.\<close>

definition member_row_of :: "daemon_env \<Rightarrow> (node_id \<Rightarrow> (string \<times> u64) option) \<Rightarrow> actor \<Rightarrow> link_state \<Rightarrow> node_id \<Rightarrow> member_row" where
  "member_row_of env path_info a ls i =
     (let connected = bt_contains (ac_peers a) i; h = bt_get (ls_health ls) i
      in \<lparr>mr_id = i, mr_name = bt_get (as_peer_names (ac_state a)) i,
          mr_online = (connected \<or> is_some_and (\<lambda>m. dv_now env - mi_last_seen m \<le> ONLINE_WINDOW) (bt_get (ac_members a) i)),
          mr_synced = (connected \<and> i \<in> ac_index_received a),
          mr_path = (if connected then path_info i else None),
          mr_grade = (case h of None \<Rightarrow> Offline | Some x \<Rightarrow> health_grade_of (dv_now env) x), mr_health = h,
          mr_flaps = (case h of None \<Rightarrow> 0 | Some x \<Rightarrow> flaps_last_minute (dv_now env) x)\<rparr>)"

record lease_row =
  lr_path :: relpath
  lr_holder :: node_id
  lr_mine :: bool
  lr_left :: duration
  lr_age :: duration
  lr_waiters :: "node_id set"

definition lease_rows :: "daemon_env \<Rightarrow> actor \<Rightarrow> lease_row list" where
  "lease_rows env a =
     map (\<lambda>(p, holder, _, left, age).
           \<lparr>lr_path = p, lr_holder = holder, lr_mine = (holder = ac_me a), lr_left = left, lr_age = age,
            lr_waiters = unwrap_or {} (bt_get (ac_interest a) p)\<rparr>)
       (held_leases (ac_locks a) (dv_now env))"

definition FILES_LIST_MAX :: nat where "FILES_LIST_MAX = 1000"

text \<open>Per cent, bytes done, bytes in all, bytes per second of a running pull.  The folder and the constants of the snapshot are left out.\<close>

type_synonym meter = "nat \<times> u64 \<times> u64 \<times> u64"

record status_reply =
  sy_id :: node_id
  sy_names :: "(string, string) btree"
  sy_members :: "member_row list"
  sy_leases :: "lease_row list"
  sy_waiting :: "(relpath \<times> node_id) list"
  sy_unapplied :: "(relpath \<times> string) list"
  sy_held_local :: "(relpath \<times> string) list"
  sy_pulls :: "(relpath \<times> meter) list"
  sy_max_down :: u64
  sy_backlog :: nat
  sy_resuming :: nat
  sy_events :: "(u64 \<times> ring_text) list"
  sy_file_count :: nat
  sy_total_bytes :: u64
  sy_files :: "(string \<times> u64 \<times> bool \<times> vclock) list \<times> nat \<times> bool"

definition status_json ::
  "daemon_env \<Rightarrow> (node_id \<Rightarrow> (string \<times> u64) option) \<Rightarrow> (relpath \<Rightarrow> meter option) \<Rightarrow> actor \<Rightarrow> link_state \<Rightarrow> status_reply" where
  "status_json env path_info meters a ls =
     (let st = ac_state a; live_files = filter (\<lambda>(_, r). \<not> fr_deleted r) (as_files st)
      in \<lparr>sy_id = ac_me a, sy_names = as_peer_names st,
          sy_members = map (member_row_of env path_info a ls) (member_ids env a), sy_leases = lease_rows env a,
          sy_waiting = map (\<lambda>(p, holder, _). (p, holder)) (ac_my_waits a),
          sy_unapplied = map (\<lambda>(p, e). (p, ue_reason e)) (as_unapplied st), sy_held_local = ac_held_local a,
          sy_pulls = map (\<lambda>p. (p, unwrap_or (0, 0, 0, 0) (meters p))) (bt_keys (ac_pending_pulls a)),
          sy_max_down = c_max_down (as_config st), sy_backlog = length (ac_pull_backlog a), sy_resuming = length (as_pulling st),
          sy_events = ls_ring ls, sy_file_count = length live_files,
          sy_total_bytes = sum_list (map (\<lambda>(_, r). fr_size r) live_files),
          sy_files = files_json_capped (as_files st) FILES_LIST_MAX\<rparr>)"

record shown_config =
  sc_autolock :: bool
  sc_audit :: bool
  sc_hooks :: bool
  sc_notify :: bool
  sc_strict :: bool
  sc_role :: string
  sc_update_channel :: string
  sc_lease_ttl_ms :: u64
  sc_acquire_timeout_ms :: u64
  sc_wait_timeout_ms :: u64
  sc_dashboard_port :: u16
  sc_relay :: string
  sc_lan :: bool
  sc_max_down :: u64

definition shown_config_of :: "session_config \<Rightarrow> shown_config" where
  "shown_config_of c =
     \<lparr>sc_autolock = c_autolock c, sc_audit = c_audit c, sc_hooks = c_hooks c, sc_notify = c_notify c, sc_strict = c_strict c,
      sc_role = role_str (c_role c), sc_update_channel = c_update_channel c, sc_lease_ttl_ms = c_lease_ttl_ms c,
      sc_acquire_timeout_ms = c_acquire_timeout_ms c, sc_wait_timeout_ms = c_wait_timeout_ms c,
      sc_dashboard_port = c_dashboard_port c, sc_relay = c_relay c, sc_lan = c_lan c, sc_max_down = c_max_down c\<rparr>"

record dashboard_reply =
  dr_status :: status_reply
  dr_mode :: string
  dr_airgap :: bool
  dr_config :: shown_config
  dr_conflicts :: "conflict_row list"
  dr_conflict_totals :: "nat \<times> u64"
  dr_versions :: "(relpath \<times> (nat \<times> u64 \<times> u64 \<times> string option \<times> bool) list) list"

definition dashboard_state_json ::
  "daemon_env \<Rightarrow> bool \<Rightarrow> (node_id \<Rightarrow> (string \<times> u64) option) \<Rightarrow> (relpath \<Rightarrow> meter option) \<Rightarrow> actor \<Rightarrow> link_state \<Rightarrow> dashboard_reply" where
  "dashboard_state_json env airgap path_info meters a ls =
     \<lparr>dr_status = status_json env path_info meters a ls, dr_mode = as_mode (ac_state a), dr_airgap = airgap,
      dr_config = shown_config_of (as_config (ac_state a)), dr_conflicts = conflict_rows (files_of a) (dv_now_ms env) (ac_folder a),
      dr_conflict_totals = conflicts_totals (ac_folder a),
      dr_versions = filter (\<lambda>(_, es). es \<noteq> [])
        (map (\<lambda>p. (p, list_history (ac_state a) p)) (bt_keys (as_history (ac_state a))))\<rparr>"

record diag_row =
  dg_id :: node_id
  dg_grade :: health_grade
  dg_conn :: conn_state
  dg_rtt_ms :: rat
  dg_role :: string
  dg_answered :: "bool option"

definition peer_diag :: "instant \<Rightarrow> string \<Rightarrow> bool option \<Rightarrow> link_state \<Rightarrow> node_id \<Rightarrow> diag_row" where
  "peer_diag now role answered ls i =
     (let h = bt_get (ls_health ls) i
      in \<lparr>dg_id = i, dg_grade = (case h of None \<Rightarrow> Offline | Some x \<Rightarrow> health_grade_of now x),
          dg_conn = (case h of None \<Rightarrow> NoConn | Some x \<Rightarrow> he_conn x), dg_rtt_ms = (case h of None \<Rightarrow> 0 | Some x \<Rightarrow> he_rtt_ms x),
          dg_role = role, dg_answered = answered\<rparr>)"

record doctor_peer =
  dp_id :: node_id
  dp_grade :: health_grade
  dp_conn :: conn_state
  dp_rtt_ms :: rat
  dp_path_changes :: u32
  dp_time_to_direct :: "duration option"
  dp_relay_url :: "string option"
  dp_via_lan :: bool

definition doctor_peer_of :: "instant \<Rightarrow> link_state \<Rightarrow> node_id \<Rightarrow> doctor_peer" where
  "doctor_peer_of now ls i =
     (case bt_get (ls_health ls) i of
        None \<Rightarrow> \<lparr>dp_id = i, dp_grade = Offline, dp_conn = NoConn, dp_rtt_ms = 0, dp_path_changes = 0, dp_time_to_direct = None,
                   dp_relay_url = None, dp_via_lan = False\<rparr>
      | Some h \<Rightarrow> \<lparr>dp_id = i, dp_grade = health_grade_of now h, dp_conn = he_conn h, dp_rtt_ms = he_rtt_ms h,
                   dp_path_changes = he_path_changes h, dp_time_to_direct = he_time_to_direct h, dp_relay_url = he_relay_url h,
                   dp_via_lan = he_on_lan h\<rparr>)"

text \<open>What the doctor asks the network library: the own address, the bound sockets, the relays with their connection state.\<close>

record doctor_net =
  dn_addr :: endpoint_addr
  dn_bound :: "string list"
  dn_relays :: "(string \<times> bool) list"
  dn_policy :: string
  dn_lan :: bool
  dn_airgap :: bool

record doctor_reply =
  dc_id :: node_id
  dc_mode :: string
  dc_home_relay :: "string option"
  dc_net :: doctor_net
  dc_known_members :: nat
  dc_connected_peers :: nat
  dc_unapplied :: nat
  dc_peers :: "doctor_peer list"

fun first_relay :: "transport_addr list \<Rightarrow> string option" where
  "first_relay [] = None"
| "first_relay (Relay url # ts) = Some url"
| "first_relay (t # ts) = first_relay ts"

definition doctor_json :: "instant \<Rightarrow> doctor_net \<Rightarrow> actor \<Rightarrow> link_state \<Rightarrow> doctor_reply" where
  "doctor_json now net a ls =
     \<lparr>dc_id = ac_me a, dc_mode = (if dn_airgap net then ''airgap'' else ''normal''), dc_home_relay = first_relay (ea_addrs (dn_addr net)),
      dc_net = net, dc_known_members = length (as_known_members (ac_state a)), dc_connected_peers = length (ac_peers a),
      dc_unapplied = length (as_unapplied (ac_state a)), dc_peers = map (doctor_peer_of now ls) (bt_keys (ac_peers a))\<rparr>"

section \<open>Requests\<close>

record 'sk query_env =
  qe_keys :: "'sk key_env"
  qe_codec :: ticket_codec
  qe_fmt :: "u64 \<Rightarrow> string"
  qe_invite_id :: bytes
  qe_fold_chars :: "string \<Rightarrow> nat list"
  qe_lossy :: "string \<Rightarrow> string"
  qe_parse :: "string \<Rightarrow> audit_event option"
  qe_ledger :: "string option"
  qe_de_refs :: "bytes \<Rightarrow> chunk_ref list option"
  qe_store :: store
  qe_path_info :: "node_id \<Rightarrow> (string \<times> u64) option"
  qe_meters :: "relpath \<Rightarrow> meter option"
  qe_net :: doctor_net
  qe_config_lib :: config_lib
  qe_valid_id :: "string \<Rightarrow> bool"

datatype query_reply =
    QErr string
  | QStatus status_reply
  | QInvite invite_reply
  | QVersions versions_reply
  | QDiff diff_reply
  | QDoctor doctor_reply
  | QDashboard u16 string
  | QDashboardState dashboard_reply
  | QStopping
  | QConflicts "conflict_row list" nat u64
  | QFiles files_reply
  | QAudit audit_reply
  | QPrunable prunable_reply
  | QDiscarded string u64

record ipc_state =
  ip_actor :: actor
  ip_links :: link_state
  ip_shutdown :: bool
  ip_dash_started :: bool
  ip_dash_port :: u16
  ip_dash_bound :: u16
  ip_dash_token :: string

definition answer :: "('a \<Rightarrow> query_reply) \<Rightarrow> string + 'a \<Rightarrow> query_reply" where
  "answer ok r = (case r of Inl e \<Rightarrow> QErr e | Inr x \<Rightarrow> ok x)"

text \<open>A request that a handler of the event loop answers, at once or later: the event that stands for it.\<close>

definition request_event :: "'sk query_env \<Rightarrow> daemon_env \<Rightarrow> actor \<Rightarrow> waiter \<Rightarrow> ipc_request \<Rightarrow> event option" where
  "request_event qe env a w rq =
     (case rq of
        RqLock path \<Rightarrow> Some (EvLock path w)
      | RqLockWait path \<Rightarrow> Some (EvLockWait path w)
      | RqUnlock path \<Rightarrow> Some (EvUnlock path w)
      | RqTag path n name \<Rightarrow> Some (EvTag path n name w)
      | RqPin path n pinned \<Rightarrow> Some (EvPin path n pinned w)
      | RqRestore path n \<Rightarrow> Some (EvRestore path n w)
      | RqConfigSet key val \<Rightarrow> Some (EvConfigSet (qe_config_lib qe) key val w)
      | RqPeerName i name \<Rightarrow> Some (EvPeerName (qe_valid_id qe) (known_peer_ids env a) i name w)
      | RqConflictApply i target \<Rightarrow> Some (EvConflictApply i target w)
      | _ \<Rightarrow> None)"

text \<open>The requests that read only.\<close>

definition query :: "'sk query_env \<Rightarrow> daemon_env \<Rightarrow> ipc_state \<Rightarrow> ipc_request \<Rightarrow> query_reply option" where
  "query qe env s rq =
     (case rq of
        RqStatus \<Rightarrow> Some (QStatus (status_json env (qe_path_info qe) (qe_meters qe) (ip_actor s) (ip_links s)))
      | RqInvite role ttl \<Rightarrow> 
          Some (answer QInvite (handle_invite (qe_keys qe) (qe_codec qe) (qe_fmt qe) (dn_addr (qe_net qe)) (qe_invite_id qe) (dv_now_ms env)
            (ac_state (ip_actor s)) role ttl))
      | RqVersions path \<Rightarrow> Some (answer QVersions (handle_versions (ac_state (ip_actor s)) path))
      | RqDiff path n \<Rightarrow> Some (answer QDiff (handle_diff (qe_de_refs qe) (qe_store qe) (ac_state (ip_actor s)) path n))
      | RqDoctor \<Rightarrow> Some (QDoctor (doctor_json (dv_now env) (qe_net qe) (ip_actor s) (ip_links s)))
      | RqDashboardInfo \<Rightarrow> Some (QDashboard (ip_dash_bound s) (ip_dash_token s))
      | RqDashboardState \<Rightarrow> Some (QDashboardState (dashboard_state_json env (dn_airgap (qe_net qe)) (qe_path_info qe) (qe_meters qe) (ip_actor s) (ip_links s)))
      | RqConflicts \<Rightarrow>
          (let fo = ac_folder (ip_actor s); (n, bytes) = conflicts_totals fo
           in Some (QConflicts (conflict_rows (files_of (ip_actor s)) (dv_now_ms env) fo) n bytes))
      | RqFiles q \<Rightarrow>
          Some (case handle_file_query (qe_fold_chars qe) (files_of (ip_actor s)) q of Inl e \<Rightarrow> QErr (query_code e) | Inr y \<Rightarrow> QFiles y)
      | RqAudit q \<Rightarrow> Some (answer QAudit (handle_audit_query (qe_lossy qe) (qe_parse qe) (qe_ledger qe) (c_audit (as_config (ac_state (ip_actor s)))) q))
      | RqConflictsPrunable older \<Rightarrow> Some (QPrunable (handle_conflicts_prunable (dv_now_ms env) older (ac_folder (ip_actor s))))
      | _ \<Rightarrow> None)"

text \<open>The reply, if it is given at once, and the state after the request.\<close>

definition serve :: "'sk query_env \<Rightarrow> daemon_env \<Rightarrow> waiter \<Rightarrow> ipc_request \<Rightarrow> ipc_state \<Rightarrow> query_reply option \<times> ipc_state" where
  "serve qe env w rq s =
     (case rq of
        RqGc \<Rightarrow>
          if ac_gc_running (ip_actor s) then (Some (QErr ''busy''), s) else (None, s\<lparr>ip_actor := start_gc (ip_actor s)\<rparr>)
      | RqDashboardStart \<Rightarrow> (Some (QDashboard (ip_dash_port s) (ip_dash_token s)), s\<lparr>ip_dash_started := True\<rparr>)
      | RqShutdown \<Rightarrow> (Some QStopping, s\<lparr>ip_shutdown := True\<rparr>)
      | RqConflictDiscard i \<Rightarrow>
          (case discard i (ac_folder (ip_actor s)) of
             (Inl _, _) \<Rightarrow> (Some (QErr ''discard_failed''), s)
           | (Inr sz, fo) \<Rightarrow>
               (Some (QDiscarded i sz), s\<lparr>ip_actor := (ip_actor s)\<lparr>ac_folder := fo\<rparr>, ip_links := push_event (CopyDiscarded i) (ip_links s)\<rparr>))
      | _ \<Rightarrow>
          (case request_event qe env (ip_actor s) w rq of
             Some ev \<Rightarrow> (None, s\<lparr>ip_actor := dispatch env ev (ip_actor s)\<rparr>)
           | None \<Rightarrow> (query qe env s rq, s)))"

text \<open>One turn of the loop on a request: the flag is looked at after the handler, so the reply is given before the shutdown.\<close>

definition on_ipc :: "'sk query_env \<Rightarrow> daemon_env \<Rightarrow> waiter \<Rightarrow> ipc_request \<Rightarrow> ipc_state \<Rightarrow> query_reply option \<times> ipc_state" where
  "on_ipc qe env w rq s =
     (case serve qe env w rq s of
        (r, s1) \<Rightarrow> (r, if ip_shutdown s1 then s1\<lparr>ip_actor := graceful_shutdown (ip_actor s1)\<rparr> else s1))"

end
