(* ===== verification/Copies.thy ===== *)
theory Copies
  imports Golden
begin

text \<open>
  What becomes of a preserved copy.  A copy that was made earlier is not touched by any event of the daemon: the handlers that write to the
  quarantine only add copies, whose names carry the time of the event.  The rules \<open>copy_*\<close> say so of every operation as an equation, so that they
  compose by rewriting.
\<close>

section \<open>Operations that write no copy\<close>

definition copy_at :: "string \<Rightarrow> actor \<Rightarrow> copy_data option" where
  "copy_at n a = bt_get (fo_copies (ac_folder a)) n"

text \<open>The name is not one that an event at this moment gives.\<close>

definition old_copy :: "daemon_env \<Rightarrow> string \<Rightarrow> bool" where
  "old_copy env n \<longleftrightarrow> (\<forall>q. n \<noteq> copy_name (dv_hash_hex env) (dv_now_ms env) q)"

lemma copy_same: "ac_folder a' = ac_folder a \<Longrightarrow> copy_at n a' = copy_at n a"
  by (simp add: copy_at_def)

lemma copy_mode [simp]:
  "fo_copies (set_writable rel fo) = fo_copies fo" "fo_copies (set_readonly rel fo) = fo_copies fo"
  by (auto simp: set_writable_def set_readonly_def apply_mode_def split: option.splits)

lemma copy_upd [simp]:
  "copy_at n (emit e a) = copy_at n a" "copy_at n (broadcast_all m a) = copy_at n a" "copy_at n (send_to i m a) = copy_at n a"
  "copy_at n (persist a) = copy_at n a" "copy_at n (tick_lamport a) = copy_at n a" "copy_at n (see_lamport l a) = copy_at n a"
  "copy_at n (mute env rel a) = copy_at n a" "copy_at n (put_record rel r a) = copy_at n a"
  "copy_at n (settle_mode rel a) = copy_at n a" "copy_at n (with_folder (set_writable rel) a) = copy_at n a"
  "copy_at n (finish_pull rel a) = copy_at n a" "copy_at n (queue_pull rel src r a) = copy_at n a"
  "copy_at n (hold_record rel r reason a) = copy_at n a" "copy_at n (drop_unapplied rel a) = copy_at n a"
  "copy_at n (maybe_clear_unapplied rel r a) = copy_at n a" "copy_at n (push_prev rel a) = copy_at n a"
  "copy_at n (start_pull rel src r a) = copy_at n a" "copy_at n (forget_acquire rel a) = copy_at n a"
  "copy_at n (reply_acquire rel resp a) = copy_at n a" "copy_at n (on_peer_gone env i c a) = copy_at n a"
  "copy_at n (expel env i a) = copy_at n a" "copy_at n (on_authed env i c by_me a) = copy_at n a"
  "copy_at n (on_member env me a) = copy_at n a" "copy_at n (on_dial_failed env i a) = copy_at n a"
  "copy_at n (on_retry_dial env i a) = copy_at n a" "copy_at n (on_pull_retry rel a) = copy_at n a"
  "copy_at n (on_interest i rel a) = copy_at n a" "copy_at n (on_peer_identity env i g a) = copy_at n a"
  by (simp_all add: copy_at_def settle_mode_def)

lemma copy_field [simp]:
  "copy_at n (a\<lparr>ac_state := x1\<rparr>) = copy_at n a" "copy_at n (a\<lparr>ac_locks := x2\<rparr>) = copy_at n a"
  "copy_at n (a\<lparr>ac_pending_acquires := x3\<rparr>) = copy_at n a" "copy_at n (a\<lparr>ac_autolock_pending := x4\<rparr>) = copy_at n a"
  "copy_at n (a\<lparr>ac_autolock_idle := x5\<rparr>) = copy_at n a" "copy_at n (a\<lparr>ac_busy := x6\<rparr>) = copy_at n a"
  "copy_at n (a\<lparr>ac_recheck := x7\<rparr>) = copy_at n a" "copy_at n (a\<lparr>ac_my_waits := x8\<rparr>) = copy_at n a"
  "copy_at n (a\<lparr>ac_interest := x9\<rparr>) = copy_at n a" "copy_at n (a\<lparr>ac_index_staging := y1\<rparr>) = copy_at n a"
  "copy_at n (a\<lparr>ac_peer_index := y2\<rparr>) = copy_at n a" "copy_at n (a\<lparr>ac_held_local := y3\<rparr>) = copy_at n a"
  "copy_at n (a\<lparr>ac_muted := y4\<rparr>) = copy_at n a" "copy_at n (a\<lparr>ac_pending_unlocks := y5\<rparr>) = copy_at n a"
  "copy_at n (a\<lparr>ac_index_received := y6\<rparr>) = copy_at n a" "copy_at n (a\<lparr>ac_gc_running := y7\<rparr>) = copy_at n a"
  "copy_at n (a\<lparr>ac_gc_dirty := y8\<rparr>) = copy_at n a" "copy_at n (a\<lparr>ac_timings := y9\<rparr>) = copy_at n a"
  "copy_at n (a\<lparr>ac_deferred := z1\<rparr>) = copy_at n a" "copy_at n (a\<lparr>ac_warned := z2\<rparr>) = copy_at n a"
  "copy_at n (a\<lparr>ac_ignore := z3\<rparr>) = copy_at n a" "copy_at n (a\<lparr>ac_pending_pulls := z4\<rparr>) = copy_at n a"
  "copy_at n (a\<lparr>ac_out := z5\<rparr>) = copy_at n a" "copy_at n (a\<lparr>ac_peers := z6\<rparr>) = copy_at n a"
  by (simp_all add: copy_at_def)

lemma copy_disk [simp]:
  "copy_at n (snd (remove_disk env rel a)) = copy_at n a" "copy_at n (snd (replace_disk env rel bs a)) = copy_at n a"
  by (auto simp: remove_disk_def replace_disk_def copy_at_def)

lemma copy_install [simp]:
  "copy_at n (snd (install_disk env rel bs a)) = copy_at n a" "copy_at n (snd (install_settled env rel bs a)) = copy_at n a"
proof -
  show i: "copy_at n (snd (install_disk env rel bs a)) = copy_at n a" by (simp add: install_disk_def)
  have "copy_at n (with_folder (set_readonly rel) b) = copy_at n b" for b by (simp add: copy_at_def)
  with i show "copy_at n (snd (install_settled env rel bs a)) = copy_at n a"
    by (auto simp: install_settled_def split: prod.splits bool.splits)
qed

lemma copy_installed:
  "install_disk env rel bs a = (ok, b) \<Longrightarrow> copy_at n b = copy_at n a"
  "install_settled env rel bs a = (ok, b) \<Longrightarrow> copy_at n b = copy_at n a"
  using copy_install [of n env rel bs a] by simp_all

lemma copy_apply_on_disk [simp]: "copy_at n (snd (apply_on_disk env rel r st a)) = copy_at n a"
  by (simp add: apply_on_disk_def split: option.split)

lemma copy_fold: "(\<And>x b. x \<in> set xs \<Longrightarrow> copy_at n (f x b) = copy_at n b) \<Longrightarrow> copy_at n (fold f xs a) = copy_at n a"
  by (induction xs arbitrary: a) simp_all

lemma copy_leases [simp]:
  "copy_at n (inspect rel cause a) = copy_at n a" "copy_at n (spawn_publish rel pc a) = copy_at n a"
  "copy_at n (announce_freed rel a) = copy_at n a" "copy_at n (announce_record rel r a) = copy_at n a"
  "copy_at n (finish_unlock rel ok w a) = copy_at n a" "copy_at n (release_own_lease rel a) = copy_at n a"
  "copy_at n (commit_publish env rel p a) = copy_at n a" "copy_at n (commit_tombstone env rel a) = copy_at n a"
  "copy_at n (spawn_autolock rel nf a) = copy_at n a" "copy_at n (snd (autolock_succeed env rel a)) = copy_at n a"
  "copy_at n (reset_idle env rel a) = copy_at n a" "copy_at n (fail_with w code a) = copy_at n a"
  "copy_at n (renew_one env rel a) = copy_at n a" "copy_at n (on_expired e a) = copy_at n a"
  by (auto simp: inspect_def spawn_publish_def announce_freed_def announce_record_def finish_unlock_def release_own_lease_def
      commit_publish_def commit_tombstone_def spawn_autolock_def autolock_succeed_def reset_idle_def fail_with_def renew_one_def
      on_expired_def Let_def case_prod_beta split: option.splits)

section \<open>Operations that add copies\<close>

lemma copy_quarantine [simp]:
  "old_copy env n \<Longrightarrow> copy_at n (snd (try_quarantine env rel reason a)) = copy_at n a"
  by (auto simp: try_quarantine_def quarantine_def append_index_def old_copy_def copy_at_def Let_def split: option.splits)

lemma copy_quarantined: "old_copy env n \<Longrightarrow> try_quarantine env rel reason a = (q, b) \<Longrightarrow> copy_at n b = copy_at n a"
  using copy_quarantine [of env n rel reason a] by simp

lemma copy_preserve [simp]:
  assumes "old_copy env n"
  shows "copy_at n (preserve_edit env rel a) = copy_at n a" "copy_at n (preserve_loser env rel a) = copy_at n a"
    "copy_at n (violation_new_file env rel a) = copy_at n a"
  using assms
  by (auto simp: preserve_edit_def preserve_loser_def violation_new_file_def dest: copy_quarantined split: prod.splits option.splits)

lemma copy_apply:
  assumes "old_copy env n" and "\<And>b. copy_at n (rebuild b) = copy_at n b"
  shows "copy_at n (apply_remote_with rebuild env rel src r st a) = copy_at n a"
  using assms by (simp add: apply_remote_with_def apply_newer_def commit_applied_def Let_def case_prod_beta)

lemma copy_maybe_pull:
  assumes "old_copy env n" and "\<And>b. copy_at n (rebuild b) = copy_at n b"
  shows "copy_at n (maybe_pull_with rebuild env rel src r a) = copy_at n a"
  using assms by (simp add: maybe_pull_with_def copy_apply Let_def split: option.split)

lemma copy_concurrent:
  assumes "old_copy env n" and "\<And>b. copy_at n (rebuild b) = copy_at n b"
  shows "copy_at n (on_concurrent_with rebuild env rel src r a) = copy_at n a"
  using assms by (simp add: on_concurrent_with_def copy_maybe_pull Let_def split: option.split)

lemma copy_rebuild:
  assumes "old_copy env n" and "\<And>b. copy_at n (rebuild b) = copy_at n b"
  shows "copy_at n (rebuild_with rebuild env a) = copy_at n a"
proof -
  have "copy_at n (reconcile_one_with rebuild env src rel r b) = copy_at n b" for src rel r b
    using assms by (simp add: reconcile_one_with_def copy_maybe_pull copy_concurrent Let_def split: option.split causality.split)
  then have "copy_at n (release_one rebuild env rel b) = copy_at n b" for rel b
    by (simp add: release_one_def Let_def split: option.split)
  then show ?thesis by (simp add: rebuild_with_def Let_def copy_fold)
qed

lemma copy_rebuild_ignore [simp]: "old_copy env n \<Longrightarrow> copy_at n (rebuild_ignore env a) = copy_at n a"
  by (simp add: rebuild_ignore_def copy_rebuild)

lemma copy_pulls [simp]:
  assumes "old_copy env n"
  shows "copy_at n (apply_remote env rel src r st a) = copy_at n a" "copy_at n (maybe_pull env rel src r a) = copy_at n a"
    "copy_at n (on_concurrent env rel src r a) = copy_at n a" "copy_at n (reconcile_one env src rel r a) = copy_at n a"
  using assms
  by (simp_all add: apply_remote_def maybe_pull_def on_concurrent_def reconcile_one_def reconcile_one_with_def copy_apply copy_maybe_pull
      copy_concurrent Let_def split: option.split causality.split)

lemma copy_reconcile [simp]: "old_copy env n \<Longrightarrow> copy_at n (reconcile env src a) = copy_at n a"
  by (auto simp: reconcile_def Let_def intro!: copy_fold [THEN trans] split: option.split)

lemma copy_unbusy [simp]: "old_copy env n \<Longrightarrow> copy_at n (unbusy env rel a) = copy_at n a"
  by (simp add: unbusy_def Let_def split: option.split)

lemma copy_edits [simp]:
  assumes "old_copy env n"
  shows "copy_at n (spawn_violation env rel qf reason a) = copy_at n a" "copy_at n (autolock_fail env rel q nf a) = copy_at n a"
    "copy_at n (on_pull_staged env rel src r result a) = copy_at n a"
  using assms by (auto simp: spawn_violation_def autolock_fail_def on_pull_staged_def Let_def split: option.split)

section \<open>Events\<close>

lemma copy_watch: "old_copy env n \<Longrightarrow> copy_at n (on_watch env rel a) = copy_at n a"
  by (simp add: on_watch_def is_muted_def Let_def split: bool.split)

lemma copy_inspected: "old_copy env n \<Longrightarrow> copy_at n (on_inspected env rel outcome cause a) = copy_at n a"
  by (auto simp: on_inspected_def split: option.split inspection.split inspect_cause.split)

lemma copy_published: "old_copy env n \<Longrightarrow> copy_at n (on_publish_done env rel result cause a) = copy_at n a"
  by (auto simp: on_publish_done_def Let_def split: option.split publish_cause.split)

lemma copy_violation:
  assumes "old_copy env n"
  shows "copy_at n (snd (violation_task env rel qf reason a)) = copy_at n a"
    "copy_at n (on_violation_staged env rel result q pres a) = copy_at n a"
  using assms
  by (auto simp: violation_task_def on_violation_staged_def split: option.split prod.split bool.split dest!: copy_installed(2) [where n = n])

lemma copy_autolock:
  assumes "old_copy env n"
  shows "copy_at n (snd (autolock_task env rel a)) = copy_at n a" "copy_at n (begin_autolock_acquire env rel q nf a) = copy_at n a"
  using assms by (simp_all add: autolock_task_def begin_autolock_acquire_def Let_def split: prod.split sum.split)

lemma copy_lock_msgs:
  assumes "old_copy env n"
  shows "copy_at n (on_lock_req env i rel lamport ttl a) = copy_at n a" "copy_at n (on_lock_grant env i rel a) = copy_at n a"
    "copy_at n (on_lock_deny env rel reason a) = copy_at n a"
  using assms
  by (auto simp: on_lock_req_def on_lock_grant_def on_lock_deny_def Let_def case_prod_beta
      split: decision.split option.split acquired.split bool.split prod.split)

lemma copy_ctl: "old_copy env n \<Longrightarrow> copy_at n (on_ctl env i m a) = copy_at n a"
  by (cases m)
    (auto simp: on_ctl_def with_path_def commit_peer_index_def on_index_part_def on_file_meta_def copy_lock_msgs Let_def case_prod_beta
      split: sum.split option.split)

lemma copy_requests:
  assumes "old_copy env n"
  shows "copy_at n (handle_lock env path w a) = copy_at n a" "copy_at n (handle_unlock path w a) = copy_at n a"
    "copy_at n (handle_lock_wait env path w a) = copy_at n a" "copy_at n (handle_tag path k name w a) = copy_at n a"
    "copy_at n (handle_pin path k pinned w a) = copy_at n a" "copy_at n (handle_restore path k w a) = copy_at n a"
    "copy_at n (handle_conflict_apply c target w a) = copy_at n a" "copy_at n (handle_config_set lib key val w a) = copy_at n a"
    "copy_at n (handle_peer_name env ok known i label w a) = copy_at n a"
  by (auto simp: handle_lock_def request_lease_def handle_unlock_def handle_lock_wait_def handle_tag_def handle_pin_def commit_meta_def
      handle_restore_def handle_conflict_apply_def handle_config_set_def handle_peer_name_def on_clean_def Let_def
      split: sum.split option.split prod.split bool.split)

lemma copy_staged:
  assumes "old_copy env n"
  shows "copy_at n (on_restore_staged env rel e result w a) = copy_at n a" "copy_at n (on_conflict_applied env rel bs w a) = copy_at n a"
  using assms
  by (auto simp: on_restore_staged_def on_conflict_applied_def Let_def dest!: copy_installed(1) [where n = n]
      split: option.split prod.split bool.split)

lemma copy_timers:
  assumes "old_copy env n"
  shows "copy_at n (on_acquire_timeout env rel lamport a) = copy_at n a" "copy_at n (on_sweep env a) = copy_at n a"
    "copy_at n (on_renew_tick env a) = copy_at n a" "copy_at n (start_gc a) = copy_at n a" "copy_at n (on_gc_done a) = copy_at n a"
    "copy_at n (graceful_shutdown a) = copy_at n a"
  using assms
  by (auto simp: on_acquire_timeout_def on_sweep_def on_timed_out_def on_renew_tick_def start_gc_def on_gc_done_def graceful_shutdown_def
      Let_def case_prod_beta copy_fold split: option.split)

lemma copy_dispatch: "old_copy env n \<Longrightarrow> copy_at n (dispatch env ev a) = copy_at n a"
  by (cases ev) (simp_all add: copy_watch copy_inspected copy_published copy_violation copy_autolock copy_ctl copy_requests copy_staged copy_timers)

end
