(* ===== verification/IpcProps.thy ===== *)
theory IpcProps
  imports Snapshots Copies
begin

text \<open>
  What the daemon's clients can rely on: preserved copies outlive everything but their own discarding, an invite opens the session with
  exactly the authority it names, the pages of the audit query make up the whole answer, and the event ring holds the newest events.
\<close>

section \<open>Preserved copies\<close>

text \<open>What the daemon's loop takes one after the other, requests and telemetry included; it stops after a shutdown.\<close>

datatype turn =
    TEvent event
  | TRequest waiter ipc_request
  | TTelemetry "node_id \<Rightarrow> path_sample"
  | TPathChanged "node_id \<Rightarrow> path_sample" node_id nat

fun take_turn :: "'sk query_env \<Rightarrow> daemon_env \<Rightarrow> turn \<Rightarrow> ipc_state \<Rightarrow> ipc_state" where
  "take_turn qe env (TEvent ev) s = s\<lparr>ip_actor := dispatch env ev (ip_actor s), ip_shutdown := (ip_shutdown s \<or> is_shutdown ev)\<rparr>"
| "take_turn qe env (TRequest w rq) s = snd (on_ipc qe env w rq s)"
| "take_turn qe env (TTelemetry sample) s = s\<lparr>ip_links := on_telemetry_tick (dv_now env) sample (ip_actor s) (ip_links s)\<rparr>"
| "take_turn qe env (TPathChanged sample i conn) s =
     s\<lparr>ip_links := on_path_changed (dv_now env) sample i conn (ip_actor s) (ip_links s)\<rparr>"

fun turns :: "('sk query_env \<times> daemon_env \<times> turn) list \<Rightarrow> ipc_state \<Rightarrow> ipc_state" where
  "turns [] s = s"
| "turns ((qe, env, t) # ts) s = (let s1 = take_turn qe env t s in if ip_shutdown s1 then s1 else turns ts s1)"

text \<open>The turn discards the copy of that name.\<close>

fun discards :: "string \<Rightarrow> turn \<Rightarrow> bool" where
  "discards n (TRequest _ (RqConflictDiscard i)) \<longleftrightarrow> i = n"
| "discards n _ \<longleftrightarrow> False"

lemma discard_other: "discard i fo = (r, fo') \<Longrightarrow> i \<noteq> n \<Longrightarrow> bt_get (fo_copies fo') n = bt_get (fo_copies fo) n"
  by (auto simp: discard_def rewrite_index_without_def split: sum.splits)

lemma copy_serve:
  assumes "old_copy env n" and "rq \<noteq> RqConflictDiscard n"
  shows "copy_at n (ip_actor (snd (serve qe env w rq s))) = copy_at n (ip_actor s)"
proof (cases rq)
  case (RqConflictDiscard i)
  then have "i \<noteq> n" using assms(2) by simp
  obtain r fo where d: "discard i (ac_folder (ip_actor s)) = (r, fo)" by fastforce
  then show ?thesis using discard_other [OF d \<open>i \<noteq> n\<close>] RqConflictDiscard by (auto simp: serve_def copy_at_def split: sum.split)
qed (auto simp: serve_def request_event_def copy_requests [OF assms(1)] copy_timers [OF assms(1)])

lemma copy_turn:
  assumes "old_copy env n" and "\<not> discards n t"
  shows "copy_at n (ip_actor (take_turn qe env t s)) = copy_at n (ip_actor s)"
proof (cases t)
  case (TRequest w rq)
  then have "rq \<noteq> RqConflictDiscard n" using assms(2) by auto
  from copy_serve [OF assms(1) this, of qe w s] TRequest show ?thesis
    by (auto simp: on_ipc_def copy_timers [OF assms(1)] split: prod.split)
qed (simp_all add: copy_dispatch [OF assms(1)])

text \<open>
  C24. A preserved copy is never lost behind the user's back: whatever peers send, whatever clients ask for and whichever tasks end, in any order, a
  copy in the quarantine is still there with the same bytes as long as nobody asks to discard exactly that copy and no copy of the same
  name is made at the very same time.
\<close>

theorem preserved_copy_survives:
  assumes "bt_get (fo_copies (ac_folder (ip_actor s))) n = Some c"
    and "\<forall>(qe, env, t) \<in> set ts. old_copy env n \<and> \<not> discards n t"
  shows "bt_get (fo_copies (ac_folder (ip_actor (turns ts s)))) n = Some c"
proof -
  have "copy_at n (ip_actor (turns ts s)) = copy_at n (ip_actor s)"
    using assms(2) by (induction ts s rule: turns.induct) (auto simp: Let_def copy_turn)
  with assms(1) show ?thesis by (simp add: copy_at_def)
qed

text \<open>Values for the examples.\<close>

definition demo_net :: doctor_net where
  "demo_net = \<lparr>dn_addr = \<lparr>ea_id = replicate 32 6, ea_addrs = []\<rparr>, dn_bound = [], dn_relays = [], dn_policy = ''default'', dn_lan = True, dn_airgap = False\<rparr>"

definition demo_qenv :: "u8 query_env" where
  "demo_qenv = \<lparr>qe_keys = demo_keys, qe_codec = plain_codec, qe_fmt = (\<lambda>_. []), qe_invite_id = [1], qe_fold_chars = (\<lambda>_. []), qe_lossy = (\<lambda>s. s),
     qe_parse = (\<lambda>_. None), qe_ledger = None, qe_de_refs = (\<lambda>_. None), qe_store = [], qe_path_info = (\<lambda>_. None), qe_meters = (\<lambda>_. None),
     qe_net = demo_net, qe_config_lib = demo_lib, qe_valid_id = (\<lambda>_. False)\<rparr>"

definition demo_ipc :: ipc_state where
  "demo_ipc = \<lparr>ip_actor = (demo_actor ''a'')\<lparr>ac_folder := \<lparr>fo_files = [],
       fo_copies = [(''old'', \<lparr>cd_bytes = [7], cd_mtime_ms = 0\<rparr>), (''other'', \<lparr>cd_bytes = [8], cd_mtime_ms = 0\<rparr>)], fo_index = []\<rparr>\<rparr>,
     ip_links = \<lparr>ls_health = [], ls_ring = [], ls_seq = 0\<rparr>, ip_shutdown = False, ip_dash_started = False, ip_dash_port = 0, ip_dash_bound = 0,
     ip_dash_token = []\<rparr>"

lemma old_demo: "old_copy demo_env ''old''"
proof -
  have "utc_timestamp 0 = ''19700101T000000000Z''" by code_simp
  then show ?thesis by (simp add: old_copy_def copy_name_def demo_env_def)
qed

theorem preserved_copy_survives_witness:
  "bt_get (fo_copies (ac_folder (ip_actor (turns
     [(demo_qenv, demo_env, TRequest 1 (RqConflictDiscard ''other'')), (demo_qenv, demo_env, TEvent EvSweep)] demo_ipc)))) ''old''
   = Some \<lparr>cd_bytes = [7], cd_mtime_ms = 0\<rparr>"
  by (rule preserved_copy_survives) (simp_all add: demo_ipc_def bt_get_def old_demo)

section \<open>Invites\<close>

text \<open>The node holds the session's secret and its admin key pair.\<close>

definition keyed :: "'sk key_env \<Rightarrow> 'sk \<Rightarrow> bytes \<Rightarrow> app_state \<Rightarrow> bool" where
  "keyed ke admin secret st \<longleftrightarrow>
     as_session_secret st = ke_hex ke secret \<and> length secret = 32
     \<and> as_admin_public_key st = Some (ke_hex ke (ke_public ke admin)) \<and> length (ke_public ke admin) = 32
     \<and> as_admin_secret_key st = Some (ke_hex ke (sk_bytes (ke_crypto ke) admin))"

lemma keyed_reads:
  assumes "keys_ok ke" and "keyed ke admin secret st"
  shows "decode_hex32 ke (as_session_secret st) = Some secret" "admin_secret_key ke st = Some admin"
    "Option.bind (as_admin_public_key st) (decode_hex32 ke) = Some (ke_public ke admin)"
  using assms unhex_key [OF assms(1)] from_key [OF assms(1)]
  by (simp_all add: keyed_def admin_secret_key_def) (simp_all add: keys_ok_def decode_hex32_def)

lemma invited_role: "invite_role role = Inr code \<Longrightarrow> role_code (from_code code) = code"
proof -
  have "role_code (from_code (role_code r)) = role_code r" for r by (cases r) (simp_all add: from_code_def tz_defs)
  moreover have "role_code (from_code ROLE_EDITOR) = ROLE_EDITOR" by (simp add: from_code_def)
  moreover assume "invite_role role = Inr code"
  ultimately show ?thesis by (auto simp: invite_role_def simp del: role_code.simps split: option.splits sum.splits)
qed

lemma minted_grant:
  assumes "keys_ok ke" and "t = mint_ticket (ke_crypto ke) secret (Some (admin, ke_public ke admin)) code iid now ttl bs"
  shows "\<exists>sg. t_admin_public t = Some (ke_public ke admin) \<and> t_grant t = Some sg
    \<and> check_grant ke (ke_public ke admin) sg now' =
        (if ttl \<noteq> 0 \<and> saturating_add now ttl \<le> now' then Inl (Refused ''this invite has expired'') else Inr (from_code code))"
proof -
  have "saturating_add now ttl \<noteq> 0" if "ttl \<noteq> 0"
    using that by (auto simp: word_unat_eq_iff unat_saturating_add)
  then show ?thesis
    using signed_verifies [OF assms(1)] by (auto simp: assms(2) mint_ticket_def check_grant_def is_expired_def) (simp_all add: sign_grant_def)
qed

text \<open>
  C25. An invite opens the session, with exactly the authority it names: a daemon that holds the session's keys hands out an invite for every role it is
  asked for; whoever joins an empty folder with it shares the session and has that role and the inviting node's address, unless the invite has expired, which is refused;
  an editor so invited holds the keys and can invite in turn, any other role is refused when it tries to invite.
\<close>

theorem invite_opens_session:
  assumes "keys_ok ke" and "lawful_codec tc" and "keyed ke admin secret st" and "invite_role role = Inr code"
    and "ke_id ke (ea_id addr) = Some i" and "ea_id addr \<noteq> ke_public ke node"
  shows "\<exists>y. handle_invite ke tc fmt addr iid now st role lifetime = Inr y \<and>
    (let j = join_session ke tc False [] node (iv_ticket y) now'; ttl = unwrap_or 0 lifetime in
     if ttl \<noteq> 0 \<and> saturating_add now ttl \<le> now' then j = Inl (Refused ''this invite has expired'')
     else \<exists>st'. j = Inr st' \<and> as_session_secret st' = as_session_secret st \<and> as_admin_public_key st' = as_admin_public_key st
       \<and> role_code (c_role (as_config st')) = code \<and> bt_get (as_known_members st') i = Some (from_endpoint_addr addr)
       \<and> (code = ROLE_EDITOR \<longrightarrow> keyed ke admin secret st')
       \<and> (code \<noteq> ROLE_EDITOR \<longrightarrow> (\<forall>role' lifetime'. handle_invite ke tc fmt addr iid now' st' role' lifetime' = Inl ''role_forbidden'')))"
proof -
  define ttl where "ttl = unwrap_or 0 lifetime"
  define t where "t = mint_ticket (ke_crypto ke) secret (Some (admin, ke_public ke admin)) code iid now ttl [from_endpoint_addr addr]"
  define y where "y = \<lparr>iv_ticket = encode_ticket tc t, iv_note = Some (invite_note fmt code ttl)\<rparr>"
  have y: "handle_invite ke tc fmt addr iid now st role lifetime = Inr y"
    using keyed_reads [OF assms(1,3)] assms(4) by (simp add: handle_invite_def Let_def y_def t_def ttl_def)
  have join: "join_session ke tc False [] node (iv_ticket y) now' = join_state ke node t now'"
    using lawful_codec.decode_encode [OF assms(2), of t] mint_ticket_shape [of "ke_crypto ke"] by (simp add: join_session_def y_def t_def)
  obtain sg where sg: "t_admin_public t = Some (ke_public ke admin)" "t_grant t = Some sg"
    "check_grant ke (ke_public ke admin) sg now' =
        (if ttl \<noteq> 0 \<and> saturating_add now ttl \<le> now' then Inl (Refused ''this invite has expired'') else Inr (from_code code))"
    using minted_grant [OF assms(1) t_def] by blast
  have parts: "t_secret t = secret" "t_bootstrap t = [from_endpoint_addr addr]"
    "t_admin_secret t = (if code = ROLE_EDITOR then Some (sk_bytes (ke_crypto ke) admin) else None)"
    by (simp_all add: t_def mint_ticket_def role_can_edit_def)
  have wire: "aw_id (from_endpoint_addr addr) = ea_id addr" by (simp add: from_endpoint_addr_def case_prod_beta)
  show ?thesis
  proof (cases "ttl \<noteq> 0 \<and> saturating_add now ttl \<le> now'")
    case True
    then show ?thesis using y join sg by (simp add: join_state_def Let_def ttl_def)
  next
    case False
    define st' where "st' = (adopt_grant ke t (ke_public ke admin) sg (from_code code)
       (new_state (ke_hex ke (sk_bytes (ke_crypto ke) node)) (ke_hex ke secret)))\<lparr>as_known_members := bt_insert i (from_endpoint_addr addr) []\<rparr>"
    have j: "join_state ke node t now' = Inr st'"
      using False sg assms(5,6) by (simp add: join_state_def Let_def parts wire st'_def adopt_grant_def new_state_def)
    have st': "as_session_secret st' = as_session_secret st" "as_admin_public_key st' = as_admin_public_key st"
      "role_code (c_role (as_config st')) = code" "bt_get (as_known_members st') i = Some (from_endpoint_addr addr)"
      "as_admin_secret_key st' = (if code = ROLE_EDITOR then as_admin_secret_key st else None)"
      using assms(3) invited_role [OF assms(4)] by (simp_all add: st'_def adopt_grant_def new_state_def keyed_def parts bt_get_def)
    have "keyed ke admin secret st'" if "code = ROLE_EDITOR" using that assms(3) st' by (simp add: keyed_def)
    moreover have "handle_invite ke tc fmt addr iid now' st' role' lifetime' = Inl ''role_forbidden''" if "code \<noteq> ROLE_EDITOR" for role' lifetime'
      using that st' keyed_reads(1) [OF assms(1,3)] assms(3)
      by (simp add: handle_invite_def admin_secret_key_def enforcing_roles_def keyed_def Let_def)
    ultimately show ?thesis using False y join j st' by (auto simp: ttl_def Let_def)
  qed
qed

lemma keyed_demo: "keyed demo_keys 7 (replicate 32 9) (init_state demo_keys 5 (replicate 32 9) 7 [1] 0)"
  by (simp add: keyed_def init_state_def new_state_def demo_keys_def)

theorem invite_opens_session_witness:
  "\<exists>y st'. handle_invite demo_keys plain_codec (\<lambda>_. []) (dn_addr demo_net) [2] 0 (init_state demo_keys 5 (replicate 32 9) 7 [1] 0) (Some ''viewer'') None = Inr y
    \<and> join_session demo_keys plain_codec False [] 6 (iv_ticket y) 0 = Inr st' \<and> role_code (c_role (as_config st')) = ROLE_VIEWER
    \<and> handle_invite demo_keys plain_codec (\<lambda>_. []) (dn_addr demo_net) [2] 0 st' None None = Inl ''role_forbidden''"
proof -
  have r: "invite_role (Some ''viewer'') = Inr ROLE_VIEWER" by code_simp
  have i: "ke_id demo_keys (ea_id (dn_addr demo_net)) = Some (demo_hex (replicate 32 6))" by (simp add: demo_keys_def demo_net_def)
  have n: "ea_id (dn_addr demo_net) \<noteq> ke_public demo_keys 6" by (simp add: demo_keys_def demo_net_def)
  have "ROLE_VIEWER \<noteq> ROLE_EDITOR" by (simp add: tz_defs)
  with invite_opens_session [OF demo_keys_ok plain.lawful_codec_axioms keyed_demo r i n, of "\<lambda>_. []" "[2]" 0 None 0]
  show ?thesis by (auto simp: Let_def)
qed

section \<open>Pages\<close>

fun page_walk :: "(nat \<Rightarrow> 'a list \<times> nat option) \<Rightarrow> nat \<Rightarrow> nat \<Rightarrow> 'a list" where
  "page_walk fetch 0 off = []"
| "page_walk fetch (Suc n) off = (case fetch off of (rows, nxt) \<Rightarrow> rows @ (case nxt of None \<Rightarrow> [] | Some off' \<Rightarrow> page_walk fetch n off'))"

text \<open>The contract of a paged query: a page starts at its offset, is not empty while something is left, and names the place to go on.\<close>

locale paged =
  fixes fetch :: "nat \<Rightarrow> 'a list \<times> nat option"
    and hits :: "'a list"
  assumes rows: "\<exists>k. fst (fetch off) = take k (drop off hits) \<and> (off < length hits \<longrightarrow> k > 0)"
    and nxt: "snd (fetch off) = next_offset off (length (fst (fetch off))) (length hits)"
begin

lemma walk_complete: "length hits - off \<le> n \<Longrightarrow> page_walk fetch n off = drop off hits"
proof (induction n arbitrary: off)
  case (Suc n)
  obtain got more where f: "fetch off = (got, more)" by fastforce
  obtain k where k: "got = take k (drop off hits)" "off < length hits \<longrightarrow> k > 0" using rows [of off] f by auto
  have m: "more = next_offset off (length got) (length hits)" using nxt [of off] f by simp
  show ?case
  proof (cases more)
    case None
    then have "length hits \<le> off + length got" using m k by (cases "off < length hits") (auto simp: next_offset_def Let_def split: if_splits)
    then have "got = drop off hits" using k(1) by (auto simp: take_all_iff min_def split: if_splits)
    with None f show ?thesis by simp
  next
    case (Some off')
    then have off': "off' = off + length got" "length got > 0" using m by (auto simp: next_offset_def Let_def split: if_splits)
    then have "length hits - off' \<le> n" using Suc.prems by linarith
    then have "page_walk fetch n off' = drop off' hits" by (rule Suc.IH)
    moreover have "got @ drop off' hits = drop off hits"
      using k(1) off'(1) by (metis add.commute append_eq_conv_conj append_take_drop_id drop_drop)
    ultimately show ?thesis using f Some by simp
  qed
qed simp

end

definition audit_order :: "bool \<Rightarrow> audit_event list \<Rightarrow> audit_event list" where
  "audit_order newest_first found = (if newest_first then rev found else found)"

definition audit_fetch :: "audit_event list \<Rightarrow> bool \<Rightarrow> nat \<Rightarrow> nat \<Rightarrow> audit_event list \<times> nat option" where
  "audit_fetch found newest_first limit off =
     (let rows = fst (fill_budget event_cost (audit_page found newest_first off limit))
      in (rows, next_offset off (length rows) (length found)))"

interpretation audit_pages: paged "audit_fetch found newest_first (Suc limit)" "audit_order newest_first found" for found newest_first limit
proof
  fix off
  let ?H = "audit_order newest_first found"
  let ?page = "audit_page found newest_first off (Suc limit)"
  have page: "?page = take (Suc limit) (drop off ?H)" by (simp add: audit_page_def audit_order_def)
  obtain k where "fst (fill_budget event_cost ?page) = take k ?page" "?page \<noteq> [] \<longrightarrow> k > 0" using fill_budget_prefix by blast
  then have "fst (audit_fetch found newest_first (Suc limit) off) = take (min k (Suc limit)) (drop off ?H)"
    "off < length ?H \<longrightarrow> min k (Suc limit) > 0"
    by (auto simp: audit_fetch_def Let_def page)
  then show "\<exists>k. fst (audit_fetch found newest_first (Suc limit) off) = take k (drop off ?H) \<and> (off < length ?H \<longrightarrow> k > 0)"
    by blast
  show "snd (audit_fetch found newest_first (Suc limit) off) =
      next_offset off (length (fst (audit_fetch found newest_first (Suc limit) off))) (length ?H)"
    by (simp add: audit_fetch_def Let_def audit_order_def)
qed

text \<open>A client that follows the offsets it is given.\<close>

fun follow_pages :: "(audit_query \<Rightarrow> string + audit_reply) \<Rightarrow> nat \<Rightarrow> audit_query \<Rightarrow> audit_event list" where
  "follow_pages ask 0 q = []"
| "follow_pages ask (Suc n) q =
     (case ask q of
        Inl _ \<Rightarrow> []
      | Inr y \<Rightarrow> ay_events y @ (case ay_next_offset y of None \<Rightarrow> [] | Some off \<Rightarrow> follow_pages ask n (q\<lparr>aq_offset := off\<rparr>)))"

lemma follow_walk:
  assumes "audit_query_filter q = Inr f" and "clamp_limit (aq_limit q) AUDIT_QUERY_LIMIT_DEFAULT AUDIT_QUERY_LIMIT_MAX = limit"
  shows "follow_pages (handle_audit_query lossy parse ledger enabled) n q =
    page_walk (audit_fetch (audit_read lossy parse f ledger) (unwrap_or True (aq_newest_first q)) limit) n (aq_offset q)"
  using assms
proof (induction n arbitrary: q)
  case (Suc n)
  have "audit_query_filter (q\<lparr>aq_offset := off\<rparr>) = audit_query_filter q" for off
    by (simp add: audit_query_filter_def split: sum.split)
  then have "follow_pages (handle_audit_query lossy parse ledger enabled) n (q\<lparr>aq_offset := off\<rparr>) =
    page_walk (audit_fetch (audit_read lossy parse f ledger) (unwrap_or True (aq_newest_first q)) limit) n off" for off
    using Suc.IH [of "q\<lparr>aq_offset := off\<rparr>"] Suc.prems by simp
  moreover obtain y where "handle_audit_query lossy parse ledger enabled q = Inr y"
    "(ay_events y, ay_next_offset y) = audit_fetch (audit_read lossy parse f ledger) (unwrap_or True (aq_newest_first q)) limit (aq_offset q)"
    using Suc.prems by (simp add: handle_audit_query_def audit_fetch_def Let_def case_prod_beta)
  ultimately show ?case by (auto split: prod.splits option.split)
qed simp

text \<open>
  The pages of the audit query make up its answer: a client that starts at the beginning and follows the offsets it is given gets every event of the log
  that matches, once, in the order asked for, whatever the page size and however often the byte budget ends a page early.
\<close>

theorem audit_query_pages_complete:
  assumes "audit_query_filter q = Inr f" and "aq_limit q \<noteq> Some 0" and "aq_offset q = 0" and "length (audit_read lossy parse f ledger) \<le> n"
  shows "follow_pages (handle_audit_query lossy parse ledger enabled) n q =
    (if unwrap_or True (aq_newest_first q) then rev (audit_read lossy parse f ledger) else audit_read lossy parse f ledger)"
proof -
  have "clamp_limit (aq_limit q) AUDIT_QUERY_LIMIT_DEFAULT AUDIT_QUERY_LIMIT_MAX \<noteq> 0"
    using assms(2) by (cases "aq_limit q") (auto simp: clamp_limit_def AUDIT_QUERY_LIMIT_DEFAULT_def AUDIT_QUERY_LIMIT_MAX_def min_def)
  then obtain limit where l: "clamp_limit (aq_limit q) AUDIT_QUERY_LIMIT_DEFAULT AUDIT_QUERY_LIMIT_MAX = Suc limit"
    using not0_implies_Suc by blast
  show ?thesis
    unfolding follow_walk [OF assms(1) l] using assms(3,4) audit_pages.walk_complete [of "unwrap_or True (aq_newest_first q)" _ 0 n limit]
    by (simp add: audit_order_def)
qed

theorem audit_query_pages_complete_witness:
  "follow_pages (handle_audit_query (\<lambda>s. s) (\<lambda>_. Some demo_event) (Some ''ab'') True) 1
     \<lparr>aq_path = None, aq_peer = None, aq_since_ms = None, aq_kinds = [], aq_offset = 0, aq_limit = Some 1, aq_newest_first = None\<rparr> = [demo_event]"
proof -
  have found: "audit_read (\<lambda>s. s) (\<lambda>_. Some demo_event) \<lparr>af_path = None, af_peer = None, af_since_ms = None, af_kinds = []\<rparr> (Some ''ab'') = [demo_event]"
    by code_simp
  show ?thesis
    by (subst audit_query_pages_complete [where f = "\<lparr>af_path = None, af_peer = None, af_since_ms = None, af_kinds = []\<rparr>"])
      (simp_all add: audit_query_filter_def is_some_and_def AUDIT_QUERY_KINDS_MAX_def found)
qed

section \<open>What a prune would take\<close>

lemma prune_all:
  assumes "distinct names" and "\<forall>n \<in> set names. valid_id n \<and> bt_get (fo_copies fo) n \<noteq> None"
  shows "fst (prune_loop names fo removed freed errors) =
    (removed @ names, freed + sum_list (map (\<lambda>n. of_nat (length (cd_bytes (the (bt_get (fo_copies fo) n))))) names), errors)"
  using assms
proof (induction names arbitrary: fo removed freed)
  case (Cons n names)
  then obtain c where c: "bt_get (fo_copies fo) n = Some c" by auto
  let ?fo = "fo\<lparr>fo_copies := bt_remove n (fo_copies fo)\<rparr>"
  have other: "bt_get (fo_copies ?fo) m = bt_get (fo_copies fo) m" if "m \<in> set names" for m using that Cons.prems(1) by auto
  then have eq: "map (\<lambda>m. of_nat (length (cd_bytes (the (bt_get (fo_copies ?fo) m))))) names
      = (map (\<lambda>m. of_nat (length (cd_bytes (the (bt_get (fo_copies fo) m))))) names :: u64 list)" by simp
  have valid: "\<forall>m \<in> set names. valid_id m \<and> bt_get (fo_copies ?fo) m \<noteq> None" using Cons.prems(2) other by simp
  have "distinct names" using Cons.prems(1) by simp
  then have "fst (prune_loop names ?fo (removed @ [n]) (freed + of_nat (length (cd_bytes c))) errors) =
    ((removed @ [n]) @ names, freed + of_nat (length (cd_bytes c)) + sum_list (map (\<lambda>m. of_nat (length (cd_bytes (the (bt_get (fo_copies fo) m))))) names), errors)"
    using Cons.IH [OF _ valid, unfolded eq] by blast
  then show ?case using Cons.prems c by (simp add: copy_path_def add.assoc)
qed simp

lemma listed_size: "e \<in> set (list_conflicts fo) \<Longrightarrow> bt_wf (fo_copies fo) \<Longrightarrow>
    \<exists>c. bt_get (fo_copies fo) (ce_name e) = Some c \<and> ce_size e = of_nat (length (cd_bytes c))"
  by (auto simp: list_conflicts_def list_entry_def bt_get_def bt_wf_def Let_def strict_sorted_iff split: option.splits)

text \<open>
  The preview of a prune is what the prune does: the number of copies and of bytes shown to the user before a prune is what pruning exactly the selected copies then
  removes and frees, without an error, provided every file in the quarantine has a name the conflict center accepts.
\<close>

theorem prune_preview_exact:
  assumes "bt_wf (fo_copies fo)" and "\<forall>n \<in> set (bt_keys (fo_copies fo)). valid_id n"
  shows "fst (prune (map ce_name (select_prunable (list_conflicts fo) now older)) fo) =
    (map ce_name (select_prunable (list_conflicts fo) now older), pb_bytes (handle_conflicts_prunable now older fo), [])
   \<and> pb_count (handle_conflicts_prunable now older fo) = length (select_prunable (list_conflicts fo) now older)"
proof -
  let ?es = "select_prunable (list_conflicts fo) now older"
  have sub: "set ?es \<subseteq> set (list_conflicts fo)" by (auto simp: select_prunable_def Let_def)
  have names: "map ce_name (map (list_entry (fo_index fo)) cs) = map fst cs" for cs
    by (induction cs) (simp_all add: list_entry_def Let_def split: option.split)
  have "distinct (map fst (fo_copies fo))" using assms(1) by (simp add: bt_wf_def strict_sorted_iff)
  then have "distinct (map ce_name (map (list_entry (fo_index fo)) (fo_copies fo)))" unfolding names .
  moreover have "mset (map ce_name (list_conflicts fo)) = mset (map ce_name (map (list_entry (fo_index fo)) (fo_copies fo)))"
    by (simp add: list_conflicts_def multiset.map_comp)
  ultimately have "distinct (map ce_name (list_conflicts fo))" using mset_eq_imp_distinct_iff by blast
  then have d: "distinct (map ce_name ?es)" by (simp add: select_prunable_def Let_def distinct_map_filter)
  have ok: "\<forall>n \<in> set (map ce_name ?es). valid_id n \<and> bt_get (fo_copies fo) n \<noteq> None"
    using listed_size [OF _ assms(1)] sub assms(2) by (fastforce simp: bt_keys_def bt_get_def dest: map_of_SomeD)
  have sz: "map (\<lambda>n. of_nat (length (cd_bytes (the (bt_get (fo_copies fo) n))))) (map ce_name ?es) = map ce_size ?es"
    using listed_size [OF _ assms(1)] sub by fastforce
  show ?thesis using prune_all [OF d ok, of "[]" 0 "[]", unfolded sz]
    by (simp add: prune_def Let_def case_prod_beta handle_conflicts_prunable_def)
qed

theorem prune_preview_exact_witness:
  "fst (prune (map ce_name (select_prunable (list_conflicts (ac_folder (ip_actor demo_ipc))) 100 10)) (ac_folder (ip_actor demo_ipc))) =
    (map ce_name (select_prunable (list_conflicts (ac_folder (ip_actor demo_ipc))) 100 10),
     pb_bytes (handle_conflicts_prunable 100 10 (ac_folder (ip_actor demo_ipc))), [])"
proof -
  have c: "fo_copies (ac_folder (ip_actor demo_ipc)) = [(''old'', \<lparr>cd_bytes = [7], cd_mtime_ms = 0\<rparr>), (''other'', \<lparr>cd_bytes = [8], cd_mtime_ms = 0\<rparr>)]"
    by (simp add: demo_ipc_def)
  have "valid_id ''old''" "valid_id ''other''" by code_simp+
  then have "\<forall>n \<in> set (bt_keys (fo_copies (ac_folder (ip_actor demo_ipc)))). valid_id n" by (simp add: c bt_keys_def)
  moreover have "bt_wf (fo_copies (ac_folder (ip_actor demo_ipc)))" by (simp add: c bt_wf_def)
  ultimately show ?thesis using prune_preview_exact by blast
qed

section \<open>The list of conflicts\<close>

lemma conflicts_loop_prefix:
  "\<exists>n. conflicts_loop files now es budget out = out @ map (conflict_row_of files now) (take n es)
     \<and> (length out \<le> CONFLICTS_LIST_MAX \<longrightarrow> length out + min n (length es) \<le> CONFLICTS_LIST_MAX)
     \<and> (n > 0 \<longrightarrow> out = [] \<and> n = 1 \<or> sum_list (map conflict_row_cost (map (conflict_row_of files now) (take n es))) < budget)"
proof (induction files now es budget out rule: conflicts_loop.induct)
  case (2 files now e es budget out)
  define r where "r = conflict_row_of files now e"
  show ?case
  proof (cases "length out \<ge> CONFLICTS_LIST_MAX \<or> budget - conflict_row_cost r = 0 \<and> out \<noteq> []")
    case True
    then show ?thesis by (auto simp: Let_def r_def intro!: exI [of _ 0])
  next
    case False
    then obtain n where n: "conflicts_loop files now es (budget - conflict_row_cost r) (out @ [r])
        = (out @ [r]) @ map (conflict_row_of files now) (take n es)"
      "length (out @ [r]) \<le> CONFLICTS_LIST_MAX \<longrightarrow> length (out @ [r]) + min n (length es) \<le> CONFLICTS_LIST_MAX"
      "n > 0 \<longrightarrow> sum_list (map conflict_row_cost (map (conflict_row_of files now) (take n es))) < budget - conflict_row_cost r"
      using 2 [OF _ r_def refl] by (auto simp: r_def)
    have "Suc n > 0 \<longrightarrow> out = [] \<and> Suc n = 1
        \<or> sum_list (map conflict_row_cost (map (conflict_row_of files now) (take (Suc n) (e # es)))) < budget"
    proof (cases "n = 0")
      case True
      then show ?thesis using False by (cases "out = []") (auto simp: r_def)
    next
      case pos: False
      then show ?thesis using n(3) by (simp add: r_def)
    qed
    then show ?thesis using False n(1,2) by (intro exI [of _ "Suc n"]) (auto simp: Let_def simp flip: r_def)
  qed
qed (auto intro: exI [of _ 0])

text \<open>
  The list of conflicts is bounded and shows the newest first: it is an initial piece of the listing of the quarantine, of at most two hundred copies, and unless it is a
  single copy its names and paths, as they are in memory, stay within the byte budget.
\<close>

theorem conflicts_list_bounded:
  "\<exists>n. conflict_rows files now fo = map (conflict_row_of files now) (take n (list_conflicts fo))
     \<and> length (conflict_rows files now fo) \<le> CONFLICTS_LIST_MAX
     \<and> (length (conflict_rows files now fo) \<le> 1 \<or> sum_list (map conflict_row_cost (conflict_rows files now fo)) < CONFLICTS_BUDGET)"
proof -
  obtain n where n: "conflict_rows files now fo = map (conflict_row_of files now) (take n (list_conflicts fo))"
    "min n (length (list_conflicts fo)) \<le> CONFLICTS_LIST_MAX"
    "n > 0 \<longrightarrow> n = 1 \<or> sum_list (map conflict_row_cost (map (conflict_row_of files now) (take n (list_conflicts fo)))) < CONFLICTS_BUDGET"
    using conflicts_loop_prefix [of files now "list_conflicts fo" CONFLICTS_BUDGET "[]"] by (auto simp: conflict_rows_def)
  then show ?thesis by (cases "n = 0") auto
qed

text \<open>The length of a string in JSON: quotes, backslashes and five control characters take two bytes, the other control characters six.\<close>

definition json_char_len :: "char \<Rightarrow> nat" where
  "json_char_len c =
     (if ascii_code c \<in> {0x22, 0x5C, 8, 9, 10, 12, 13} then 2 else if ascii_code c < 32 then 6 else 1)"

definition json_len :: "string \<Rightarrow> nat" where
  "json_len s = sum_list (map json_char_len s) + 2"

definition row_json_len :: "conflict_row \<Rightarrow> nat" where
  "row_json_len r =
     (case ce_path (cw_entry r) of None \<Rightarrow> 0 | Some p \<Rightarrow> json_len p) + (case cw_both_name r of None \<Rightarrow> 0 | Some b \<Rightarrow> json_len b)"

definition odd_path :: string where
  "odd_path = replicate 250 (CHR 0x01) @ ''/'' @ replicate 250 (CHR 0x01)"

definition odd_entry :: "nat \<Rightarrow> conflict_entry" where
  "odd_entry k = \<lparr>ce_name = replicate (Suc k) CHR ''a'', ce_path = Some odd_path, ce_reason = None, ce_ts_ms = 0, ce_size = 0\<rparr>"

lemma odd_path_ok: "sanitize_rel_path odd_path = Inr odd_path"
  by code_simp

lemma rsplit_None: "c \<notin> set s \<Longrightarrow> rsplit_once c s = None"
  by (induction s) auto

lemma odd_both: "both_name odd_path 0 (name_taken []) = odd_path @ ''.conflict-19700101T000000000''"
proof -
  have "trim_end_matches CHR ''Z'' (utc_timestamp 0) = ''19700101T000000000''" by code_simp
  moreover have "stem_ext odd_path = (odd_path, [])" by (simp add: stem_ext_def rsplit_None odd_path_def)
  moreover have "\<not> name_taken [] x" for x by (simp add: name_taken_def is_live_def is_some_and_def bt_get_def split: sum.split)
  ultimately show ?thesis by (simp add: both_name_def)
qed

lemma conflicts_loop_all:
  "length out + length es \<le> CONFLICTS_LIST_MAX \<Longrightarrow> sum_list (map conflict_row_cost (map (conflict_row_of files now) es)) < budget
    \<Longrightarrow> conflicts_loop files now es budget out = out @ map (conflict_row_of files now) es"
  by (induction es arbitrary: budget out) (auto simp: Let_def)

lemma sum_list_bounds:
  fixes f :: "'a \<Rightarrow> nat"
  shows "(\<And>x. x \<in> set xs \<Longrightarrow> f x \<le> c) \<Longrightarrow> sum_list (map f xs) \<le> length xs * c"
    and "(\<And>x. x \<in> set xs \<Longrightarrow> c \<le> f x) \<Longrightarrow> length xs * c \<le> sum_list (map f xs)"
  by (induction xs) (auto simp: add_mono)

text \<open>
  The budget does not keep the reply within a line of the socket, although that is what it is for: it counts the bytes of the names, not what JSON makes
  of them.  Two hundred copies of files whose acceptable paths hold control characters fit the budget, and their paths alone take more than a line.
\<close>

theorem conflicts_list_exceeds_line:
  defines "es \<equiv> map odd_entry [0..<200]"
  shows "sanitize_rel_path odd_path = Inr odd_path
    \<and> length (conflicts_loop [] 0 es CONFLICTS_BUDGET []) = 200
    \<and> IPC_LINE_MAX < sum_list (map row_json_len (conflicts_loop [] 0 es CONFLICTS_BUDGET []))"
proof -
  let ?row = "\<lambda>k. conflict_row_of [] 0 (odd_entry k)"
  have row: "?row k = \<lparr>cw_entry = odd_entry k, cw_age_ms = 0, cw_both_name = Some (odd_path @ ''.conflict-19700101T000000000'')\<rparr>" for k
    by (simp add: conflict_row_of_def odd_both) (simp add: odd_entry_def odd_both saturating_sub_def)
  have len: "length odd_path = 501" by (simp add: odd_path_def)
  have "conflict_row_cost (?row k) \<le> 1390" if "k < 200" for k
    using that unfolding row by (simp add: conflict_row_cost_def odd_entry_def opt_len_def len)
  then have "sum_list (map (\<lambda>k. conflict_row_cost (?row k)) [0..<200]) \<le> length [0..<200] * 1390" by (intro sum_list_bounds(1)) auto
  then have "sum_list (map conflict_row_cost (map (conflict_row_of [] 0) es)) < CONFLICTS_BUDGET" by (simp add: es_def comp_def CONFLICTS_BUDGET_def)
  then have rows: "conflicts_loop [] 0 es CONFLICTS_BUDGET [] = map ?row [0..<200]"
    using conflicts_loop_all [of "[]" es "[]" 0 CONFLICTS_BUDGET] by (simp add: es_def CONFLICTS_LIST_MAX_def comp_def)
  have "sum_list (map json_char_len odd_path) = 3001" by (simp add: odd_path_def sum_list_replicate json_char_len_def ascii_code_def)
  then have "6000 \<le> row_json_len (?row k)" for k unfolding row by (simp add: row_json_len_def odd_entry_def json_len_def)
  then have "length [0..<200] * 6000 \<le> sum_list (map (\<lambda>k. row_json_len (?row k)) [0..<200])" by (intro sum_list_bounds(2)) auto
  then show ?thesis unfolding rows by (simp add: odd_path_ok comp_def IPC_LINE_MAX_def)
qed

section \<open>The event ring\<close>

lemma pop_over_drop: "pop_over cap xs = drop (length xs - cap) xs"
  by (induction xs) (auto simp: Suc_diff_le not_less)

lemma push_event_fields:
  "ls_ring (push_event t ls) = drop (length (ls_ring ls @ [(ls_seq ls + 1, t)]) - EVENT_RING) (ls_ring ls @ [(ls_seq ls + 1, t)])"
  "ls_seq (push_event t ls) = ls_seq ls + 1"
  by (simp_all add: push_event_def pop_over_drop Let_def)

text \<open>
  The ring of the status view holds the newest events: after any number of events it consists of the last five, oldest first, and each carries the number of events up
  to it, so a client that remembers the last number it saw can tell which are new.
\<close>

theorem event_ring_holds_newest:
  assumes "ls_ring ls = []" and "ls_seq ls = 0"
  shows "ls_ring (fold push_event es ls) = drop (length es - EVENT_RING) (zip (map of_nat [1..<Suc (length es)]) es)
    \<and> ls_seq (fold push_event es ls) = of_nat (length es)"
proof (induction es rule: rev_induct)
  case (snoc e es)
  define z where "z = (zip (map of_nat [1..<Suc (length es)]) es :: (u64 \<times> ring_text) list)"
  have z: "zip (map of_nat [1..<Suc (length (es @ [e]))]) (es @ [e]) = z @ [(of_nat (Suc (length es)), e)]"
    using upt_Suc_append [of 1 "Suc (length es)"] by (simp add: z_def del: upt_Suc of_nat_Suc)
  have len: "length z = length es" by (simp add: z_def del: upt_Suc)
  have cut: "drop (length (drop (n - k) xs @ [y]) - k) (drop (n - k) xs @ [y]) = drop (Suc n - k) (xs @ [y])"
    if "length xs = n" for n k y and xs :: "(u64 \<times> ring_text) list"
    using that by (cases "n < k") (auto simp: Suc_diff_le not_less drop_Cons')
  have ih: "ls_ring (fold push_event es ls) = drop (length es - EVENT_RING) z" "ls_seq (fold push_event es ls) = of_nat (length es)"
    using snoc by (simp_all only: z_def)
  have "of_nat (length es) + 1 = (of_nat (Suc (length es)) :: u64)" by simp
  then show ?case
    unfolding z using cut [OF len, of EVENT_RING "(of_nat (Suc (length es)), e)"] by (simp only: push_event_fields ih fold_append comp_def
        fold_simps length_append_singleton)
qed (use assms in simp)

theorem event_ring_holds_newest_witness:
  "ls_ring (fold push_event [Downgraded ''b'', Upgraded ''b'' 3] \<lparr>ls_health = [], ls_ring = [], ls_seq = 0\<rparr>) = [(1, Downgraded ''b''), (2, Upgraded ''b'' 3)]"
  using event_ring_holds_newest [of "\<lparr>ls_health = [], ls_ring = [], ls_seq = 0\<rparr>" "[Downgraded ''b'', Upgraded ''b'' 3]"]
  by (simp add: EVENT_RING_def upt_rec)

end
