(* ===== verification/Spec2Isabelle.thy ===== *)
theory Spec2Isabelle
  imports VClock Invite Proto IndexParts RelPath LockProps LockNet Config Versions ConflictProps QueryProps AuditProps
    Ignore Daemon ActorInv PullProps DialProps RoleProps IndexExchange Golden Converge Faults ContentSafety
    HandshakeProps OneShotRun AdminProps DashboardProps RateLimit Suggest Supervisor Membership Health
    GuidedProps GuiListProps SetupProps LogFile PlatformProps
    WorkerProps SelfUpdate GuiPoll GuiPrefs GuiMenu IpcProps
begin

text \<open>
  Tazamun keeps a folder in step between the members of a session, peer to peer.  A file may be changed only under a lease that every
  reachable member has granted; changes travel as records with version vectors, their contents as chunks in a content-addressed store;
  whatever cannot be merged is kept as a conflict copy.  This development models the program in \<^verbatim>\<open>src/\<close> as executable
  functions over explicit state and proves what its parts promise, one theory or small group of theories per part.

  \<^bold>\<open>How the program is put together.\<close>  One daemon per folder (\<^verbatim>\<open>src/daemon.rs\<close>) is an actor: it owns the persisted state (index,
  history, configuration, keys), the lease table and the peer table, takes one event at a time (control messages, watcher events, client requests,
  timers, finished tasks) and answers with effects.  Control connections are authenticated by a handshake and carry framed messages; file contents
  are fetched from the stores of peers; gossip tells who is where.  Clients reach the daemon over a local socket or the loopback dashboard.  Around
  it stand the commands that make and change sessions, the registry and supervisor for many folders, and a session-less send and receive.

  \<^bold>\<open>Conventions\<close> (\<^verbatim>\<open>Prelude\<close>, \<^verbatim>\<open>Decimal\<close>, \<^verbatim>\<open>BTreeMap\<close>).  Strings are lists of their UTF-8 bytes as characters,
  binary data are lists of 8-bit words, \<^verbatim>\<open>u16\<close>, \<^verbatim>\<open>u32\<close> and \<^verbatim>\<open>u64\<close> are words with the wrapping, saturating or checked operation
  the code uses, lengths and indices are natural numbers, instants and durations natural numbers of nanoseconds.  A \<^verbatim>\<open>Result\<close> is
  a sum with the error on the left.  A \<^verbatim>\<open>BTreeMap\<close> is the sorted list of its entries; the locale \<open>ordered_map\<close> is the interface the
  components use, interpreted on that list.  Code outside the repository (serialisation, hashing, signatures, the chunking algorithm, gitignore
  patterns, JSON, the transport) is an argument of the definitions; what is needed of it is a hypothesis of the lemma, with a concrete instance in the
  witness.  Clocks, random values and the outcome of file system calls are arguments too, so every lemma holds for all of them.

  \<^bold>\<open>Data and protocol.\<close>
  \<^item> \<^verbatim>\<open>VClock\<close>: version vectors (\<^verbatim>\<open>sync/vclock.rs\<close>); the comparison loop decides the component-wise order.
  \<^item> \<^verbatim>\<open>Session\<close>, \<^verbatim>\<open>Invite\<close>: roles, grants and tickets (\<^verbatim>\<open>session.rs\<close>); tickets round-trip and confer the role they name.
  \<^item> \<^verbatim>\<open>Wire\<close>, \<^verbatim>\<open>Proto\<close>, \<^verbatim>\<open>IndexParts\<close>: messages, frames, manifest checks and the splitting of an index
    (\<^verbatim>\<open>proto.rs\<close>, \<^verbatim>\<open>sync/manifest.rs\<close>); streams of frames round-trip, splitting loses nothing and respects the frame cap.
  \<^item> \<^verbatim>\<open>RelPath\<close>, \<^verbatim>\<open>Ignore\<close>: path sanitizing, index comparison and the sync scope (\<^verbatim>\<open>sync/index.rs\<close>, \<^verbatim>\<open>sync/ignore.rs\<close>);
    an accepted path stays below any root.
  \<^item> \<^verbatim>\<open>Config\<close>: configuration keys, sizes and timings (\<^verbatim>\<open>state.rs\<close>); every accepted value leaves every setting in its range.
  \<^item> \<^verbatim>\<open>Versions\<close>: the history of a file (\<^verbatim>\<open>versions.rs\<close>).

  \<^bold>\<open>Leases.\<close>  \<^verbatim>\<open>Locks\<close> models every method of the lease table (\<^verbatim>\<open>locks.rs\<close>), \<^verbatim>\<open>LockProps\<close> its laws: all voters must
  grant, a voter is bound for the lease time, crossing requests agree, a sweep frees everything in bounded time.  \<^verbatim>\<open>LockNet\<close> puts any
  number of nodes on ordered links: at most one holder per path while no node asks again with old messages of that path in flight, and a
  run with two holders without that discipline.

  \<^bold>\<open>The daemon.\<close>  \<^verbatim>\<open>Actor\<close> holds the state record, the environment and the effects; \<^verbatim>\<open>Dial\<close>, \<^verbatim>\<open>Pulls\<close>,
  \<^verbatim>\<open>Edits\<close>, \<^verbatim>\<open>Ctl\<close> and \<^verbatim>\<open>Handlers\<close> its handlers, \<^verbatim>\<open>Daemon\<close> the dispatch of events, the startup scan and the shutdown.
  \<^verbatim>\<open>DaemonFrame\<close> says what each handler leaves alone.  On top: \<^verbatim>\<open>ActorInv\<close> (the index never moves back; pulls stay
  bounded), \<^verbatim>\<open>PullProps\<close>, \<^verbatim>\<open>DialProps\<close> (redials never stop), \<^verbatim>\<open>RoleProps\<close> (grants only to verified editors),
  \<^verbatim>\<open>IndexExchange\<close> (the sharded exchange implements the plain copy of an index), \<^verbatim>\<open>Golden\<close> (remote events never destroy local
  bytes), \<^verbatim>\<open>Converge\<close> (concurrent versions converge) and \<^verbatim>\<open>Faults\<close> (concrete runs in which the code does not do what it means
  to).  \<^verbatim>\<open>Conflicts\<close> and \<^verbatim>\<open>ConflictProps\<close> are the read-only guard and the conflict center (\<^verbatim>\<open>guard.rs\<close>,
  \<^verbatim>\<open>conflicts.rs\<close>) over an explicit folder; \<^verbatim>\<open>Query\<close>, \<^verbatim>\<open>QueryProps\<close> and \<^verbatim>\<open>AuditProps\<close> the file and audit
  queries (also \<^verbatim>\<open>audit.rs\<close>).

  \<^bold>\<open>Contents.\<close>  \<^verbatim>\<open>Chunker\<close> and \<^verbatim>\<open>ChunkerProps\<close> (\<^verbatim>\<open>sync/chunker.rs\<close>): the windowed scan and the hashing pipeline give the
  chunks of the whole content for every split into reads and every order of hashed batches.  \<^verbatim>\<open>ContentTransfer\<close>, \<^verbatim>\<open>ContentProps\<close>
  and \<^verbatim>\<open>ContentSafety\<close> (\<^verbatim>\<open>sync/transfer.rs\<close>): publishing, the swarm fetch loop with its retry bound, assembling, and garbage
  collection over an explicit blob store; a pull stages what was published or gives up, and a sweep keeps every version.  \<^verbatim>\<open>RateLimit\<close>
  (\<^verbatim>\<open>ratelimit.rs\<close>): the aggregate rate of any interleaving of fetchers is bounded.

  \<^bold>\<open>Who is heard.\<close>  \<^verbatim>\<open>Handshake\<close> and \<^verbatim>\<open>HandshakeProps\<close> (\<^verbatim>\<open>net/control.rs\<close>): traces of all handshakes between members and
  nodes without the key, by induction; an authenticated peer is a member unless a member was made to answer itself, which is possible.  \<^verbatim>\<open>Membership\<close>
  (\<^verbatim>\<open>net/membership.rs\<close>): presence beacons are sealed.  \<^verbatim>\<open>Health\<close> (\<^verbatim>\<open>net/telemetry.rs\<close>): link grades and the flap count.

  \<^bold>\<open>Clients and commands.\<close>  \<^verbatim>\<open>LocalApi\<close>, \<^verbatim>\<open>Dashboard\<close> and \<^verbatim>\<open>DashboardProps\<close> (\<^verbatim>\<open>ipc.rs\<close>, \<^verbatim>\<open>dashboard.rs\<close>):
  the line protocol and the HTTP adapter, with the checks every request passes.  \<^verbatim>\<open>SessionAdmin\<close> and \<^verbatim>\<open>AdminProps\<close>: init, join,
  rekey and the network set-up (\<^verbatim>\<open>cli.rs\<close>, \<^verbatim>\<open>home.rs\<close>, \<^verbatim>\<open>net/endpoint.rs\<close>).  \<^verbatim>\<open>Registry\<close> and \<^verbatim>\<open>Supervisor\<close>
  (\<^verbatim>\<open>registry.rs\<close>, \<^verbatim>\<open>supervisor.rs\<close>): the list of sessions is a map, and a paused session is not hosted.  \<^verbatim>\<open>OneShot\<close>,
  \<^verbatim>\<open>OneShotProps\<close> and \<^verbatim>\<open>OneShotRun\<close> (\<^verbatim>\<open>oneshot.rs\<close>): both sides of the session-less transfer; what a receive reports
  as done is verified, and an honest transfer completes.  \<^verbatim>\<open>Guided\<close> and \<^verbatim>\<open>GuidedProps\<close>: the
  commands of several requests (resolving a conflict, restoring, moving, waiting for a lease) in \<^verbatim>\<open>cli.rs\<close> and
  \<^verbatim>\<open>gui_native/worker.rs\<close>; whatever the daemon answers, nothing is lost and granted leases are asked back.
  \<^verbatim>\<open>Setup\<close> and \<^verbatim>\<open>SetupProps\<close> (\<^verbatim>\<open>setup.rs\<close>): the settings panel and the wizard; what is shown can be typed back, the
  preview is exact, and a change saved beside a running daemon is lost when the daemon stops.

  \<^bold>\<open>What the daemon answers.\<close>  \<^verbatim>\<open>Replies\<close> (invites, versions and their comparison, the audit and quarantine queries) and
  \<^verbatim>\<open>Snapshots\<close> (telemetry and its event ring, \<^verbatim>\<open>observe\<close>, status, doctor and dashboard values, and the dispatch \<^verbatim>\<open>on_ipc\<close>), all of
  \<^verbatim>\<open>daemon.rs\<close>.  \<^verbatim>\<open>Copies\<close>: no event of the daemon touches an older conflict copy, one equation per operation.  \<^verbatim>\<open>IpcProps\<close>: a copy outlives every
  run in which nobody discards it, an invite opens the session with exactly its authority, pages make up the answer (locale \<open>paged\<close>), the preview of
  a prune is exact, and the list of conflicts can outgrow a line of the socket.

  \<^bold>\<open>Towards the system.\<close>  \<^verbatim>\<open>LogFile\<close> (\<^verbatim>\<open>service.rs\<close>, \<^verbatim>\<open>audit.rs\<close>): the line-capped log and the audit writer over
  it; the newest events are kept, and two ways in which a trim loses the trail.  \<^verbatim>\<open>Platform\<close> and \<^verbatim>\<open>PlatformProps\<close>: Windows paths and
  retries (\<^verbatim>\<open>win_fs.rs\<close>), the events of the watcher (\<^verbatim>\<open>watcher.rs\<close>), unit file and quoting (\<^verbatim>\<open>service.rs\<close>), hooks
  (\<^verbatim>\<open>hooks.rs\<close>, \<^verbatim>\<open>notify.rs\<close>) and the verdicts of the diagnostics (\<^verbatim>\<open>doctor.rs\<close>).

  \<^bold>\<open>The window.\<close>  \<^verbatim>\<open>GuiLists\<close> and \<^verbatim>\<open>GuiListProps\<close> (\<^verbatim>\<open>gui_native/\<close>: \<^verbatim>\<open>selection.rs\<close>, \<^verbatim>\<open>toasts.rs\<close>,
  \<^verbatim>\<open>telemetry.rs\<close>, \<^verbatim>\<open>grouping.rs\<close>): the drawn runs are exactly the selected rows, stacks and rings are bounded, and the groups of
  the file view show every file once.  \<^verbatim>\<open>Worker\<close> and \<^verbatim>\<open>WorkerProps\<close> (\<^verbatim>\<open>worker.rs\<close>, \<^verbatim>\<open>model.rs\<close>): the tasks behind
  the window as a machine scheduled in any order; one command at a time per folder, and a register of exactly the unsettled commands.
  \<^verbatim>\<open>GuiPoll\<close>: hosting sessions and polling; a poll without an answer keeps what is on screen.  \<^verbatim>\<open>SelfUpdate\<close> (also \<^verbatim>\<open>cli.rs\<close>
  and \<^verbatim>\<open>menubar.rs\<close>): only newer releases of the channel are installed.  \<^verbatim>\<open>GuiPrefs\<close> (\<^verbatim>\<open>prefs.rs\<close>, \<^verbatim>\<open>figures.rs\<close>,
  \<^verbatim>\<open>menubar.rs\<close>): preferences are sane whatever the file holds, figures lose nothing, the shown heads fit.  \<^verbatim>\<open>GuiMenu\<close>
  (\<^verbatim>\<open>menubar.rs\<close>, \<^verbatim>\<open>copy.rs\<close>, \<^verbatim>\<open>constellation.rs\<close>): what the menus offer and what the overview says.  \<^verbatim>\<open>Suggest\<close> (\<^verbatim>\<open>suggest.rs\<close>): the rolling rows compute the least number of edits.

  \<^bold>\<open>Termination, bounds and fuel.\<close>  Loops over data are structural or have a measure.  Loops that wait for the outside (the accept loops,
  the daemon's event loop, the fetch loop, the waiting of a rate-limited fetcher) run over the list of what happens to them, so every statement holds for every finite
  prefix of a run; that a loop ends, or never does, is then a statement about such lists.  \<open>split_str\<close> and \<open>replace_str\<close> take the length of
  the text as fuel, which is enough because every round consumes at least one character; \<open>strip_all\<close> likewise.

  \<^bold>\<open>Not modelled.\<close>  The drawing of the native window (\<^verbatim>\<open>gui_native.rs\<close> and most of \<^verbatim>\<open>gui_native/\<close>) uses an external toolkit; terminal screens, progress
  bars, argument parsing and printing (\<^verbatim>\<open>main.rs\<close>, \<^verbatim>\<open>ui/\<close>, most of \<^verbatim>\<open>cli.rs\<close> and \<^verbatim>\<open>home.rs\<close>);
  the installation commands of \<^verbatim>\<open>service.rs\<close>, the probes and texts of \<^verbatim>\<open>doctor.rs\<close>, child processes and desktop
  notifications, which call the operating system; the JSON texts of the replies; log lines.  Floating point numbers of the rate limit,
  the telemetry and the window are exact rationals, so rounding is not covered; crashes between two system calls are covered only where a definition has
  the failure of the call as an argument.
\<close>

end
